(* ===== verification/JsValue.thy ===== *)
theory JsValue
  imports Main
begin

text \<open>
  The values JavaScript code of the repository reads when a collaborator hands it an
  \<open>unknown\<close>, and the few standard library operations the sources apply to them.

  A value is a finite tree. \<open>JNum\<close> holds an integral number, \<open>JFrac p q\<close> any finite number
  that is not integral (as \<open>p/q\<close>), \<open>JNonFin\<close> stands for \<open>NaN\<close> and the infinities. Strings are
  lists of code units (here: of 8-bit characters). A \<open>Date\<close> is its time value, \<open>None\<close> for an
  invalid date. \<open>JHole\<close> marks an absent index of a sparse array and occurs nowhere else.
  \<open>JObj plain fields\<close> is any other object with its own enumerable properties in order;
  \<open>plain\<close> says that the prototype is \<open>Object.prototype\<close> or \<open>null\<close>. \<open>JFun\<close> is a function value,
  which the sources only call without arguments (\<open>reveal\<close>, \<open>revealForPersistence\<close>,
  \<open>toJSON\<close>): \<open>Some v\<close> returns \<open>v\<close>, \<open>None\<close> throws. Cyclic object graphs and accessor properties
  have no representation, so the cycle checks of the sources (\<open>visiting\<close>) never fire here.
\<close>

datatype jsv =
    JUndef
  | JNull
  | JBool bool
  | JNum int
  | JFrac int nat
  | JNonFin
  | JStr string
  | JDate "int option"
  | JBytes "nat list"
  | JHole
  | JArr "jsv list"
  | JObj bool "(string \<times> jsv) list"
  | JFun "jsv option"

text \<open>Collections of hints: checkers of records, the effect monad, and trace reasoning.\<close>

named_theorems js_simps \<open>evaluation of the JavaScript value primitives\<close>

section \<open>Reading objects\<close>

text \<open>Object literals and property reads; a missing property reads as \<open>undefined\<close>.\<close>

abbreviation obj :: "(string \<times> jsv) list \<Rightarrow> jsv" where
  "obj kvs \<equiv> JObj True kvs"

fun fld :: "jsv \<Rightarrow> string \<Rightarrow> jsv" where
  "fld (JObj _ kvs) k = (case map_of kvs k of None \<Rightarrow> JUndef | Some v \<Rightarrow> v)"
| "fld _ k = JUndef"

text \<open>\<open>k in value\<close> / \<open>Object.hasOwn(value, k)\<close> for the property names the sources test.\<close>

fun has_key :: "string \<Rightarrow> jsv \<Rightarrow> bool" where
  "has_key k (JObj _ kvs) = (k \<in> fst ` set kvs)"
| "has_key k _ = False"

fun digits_aux :: "nat \<Rightarrow> nat \<Rightarrow> string" where
  "digits_aux 0 n = ''''"
| "digits_aux (Suc fuel) n =
     (if n < 10 then [char_of (48 + n)]
      else digits_aux fuel (n div 10) @ [char_of (48 + n mod 10)])"

definition js_string_of_nat :: "nat \<Rightarrow> string" where
  "js_string_of_nat n = digits_aux (Suc n) n"

fun obj_keys :: "jsv \<Rightarrow> string list" where
  "obj_keys (JObj _ kvs) = map fst kvs"
| "obj_keys (JBytes bs) = map js_string_of_nat [0..<length bs]"
| "obj_keys (JArr xs) =
     map (js_string_of_nat \<circ> fst) (filter (\<lambda>(i, x). x \<noteq> JHole) (enumerate 0 xs))"
| "obj_keys _ = []"

fun obj_entries :: "jsv \<Rightarrow> (string \<times> jsv) list" where
  "obj_entries (JObj _ kvs) = kvs"
| "obj_entries (JBytes bs) =
     map (\<lambda>(i, b). (js_string_of_nat i, JNum (int b))) (enumerate 0 bs)"
| "obj_entries _ = []"

text \<open>\<open>{...record, k: v}\<close>: an existing key keeps its position, a new one goes to the end.\<close>

fun set_field :: "string \<Rightarrow> jsv \<Rightarrow> (string \<times> jsv) list \<Rightarrow> (string \<times> jsv) list" where
  "set_field k v [] = [(k, v)]"
| "set_field k v ((k', v') # kvs) =
     (if k = k' then (k, v) # kvs else (k', v') # set_field k v kvs)"

fun spread :: "jsv \<Rightarrow> (string \<times> jsv) list \<Rightarrow> jsv" where
  "spread v kvs = JObj True (fold (\<lambda>(k, x). set_field k x) kvs (obj_entries v))"

text \<open>\<open>...(v === undefined ? {} : { k: v })\<close>\<close>

definition given :: "string \<Rightarrow> jsv \<Rightarrow> (string \<times> jsv) list" where
  "given k v = (if v = JUndef then [] else [(k, v)])"

section \<open>Type tests\<close>

text \<open>\<open>typeof v === 'object' && v !== null && !Array.isArray(v)\<close>\<close>

fun isRecord :: "jsv \<Rightarrow> bool" where
  "isRecord (JObj _ _) = True"
| "isRecord (JDate _) = True"
| "isRecord (JBytes _) = True"
| "isRecord _ = False"

fun isPlainObject :: "jsv \<Rightarrow> bool" where
  "isPlainObject (JObj plain _) = plain"
| "isPlainObject _ = False"

fun is_fun :: "jsv \<Rightarrow> bool" where
  "is_fun (JFun _) = True"
| "is_fun _ = False"

fun is_str :: "jsv \<Rightarrow> bool" where
  "is_str (JStr _) = True"
| "is_str _ = False"

fun is_bool :: "jsv \<Rightarrow> bool" where
  "is_bool (JBool _) = True"
| "is_bool _ = False"

fun is_number :: "jsv \<Rightarrow> bool" where
  "is_number (JNum _) = True"
| "is_number (JFrac _ _) = True"
| "is_number JNonFin = True"
| "is_number _ = False"

fun is_arr :: "jsv \<Rightarrow> bool" where
  "is_arr (JArr _) = True"
| "is_arr _ = False"

text \<open>Elements of an array: a hole reads as \<open>undefined\<close>; \<open>every\<close> and \<open>some\<close> skip holes.\<close>

fun arr_elems :: "jsv \<Rightarrow> jsv list" where
  "arr_elems (JArr xs) = xs"
| "arr_elems _ = []"

definition arr_every :: "(jsv \<Rightarrow> bool) \<Rightarrow> jsv list \<Rightarrow> bool" where
  "arr_every p xs = list_all (\<lambda>x. x = JHole \<or> p x) xs"

definition read_elem :: "jsv \<Rightarrow> jsv" where
  "read_elem x = (if x = JHole then JUndef else x)"

text \<open>Truthiness, as \<open>if (v)\<close>, \<open>!v\<close> and \<open>Boolean(v)\<close> use it.\<close>

fun truthy :: "jsv \<Rightarrow> bool" where
  "truthy JUndef = False"
| "truthy JNull = False"
| "truthy JHole = False"
| "truthy (JBool b) = b"
| "truthy (JNum n) = (n \<noteq> 0)"
| "truthy (JStr s) = (s \<noteq> '''')"
| "truthy JNonFin = True"
| "truthy _ = True"

definition nullish :: "jsv \<Rightarrow> bool" where
  "nullish v = (v = JUndef \<or> v = JNull)"

text \<open>\<open>a ?? b\<close>\<close>

definition coalesce :: "jsv \<Rightarrow> jsv \<Rightarrow> jsv" where
  "coalesce a b = (if nullish a then b else a)"

definition hasOnlyKeys :: "jsv \<Rightarrow> string list \<Rightarrow> bool" where
  "hasOnlyKeys v allowed = list_all (\<lambda>k. k \<in> set allowed) (obj_keys v)"

definition hasFunction :: "jsv \<Rightarrow> string \<Rightarrow> bool" where
  "hasFunction v k = is_fun (fld v k)"

section \<open>Strings, numbers and dates\<close>

text \<open>The negation of \<open>/[\u0000-\u001f\u007f]/\<close>: no ASCII control character.\<close>

definition is_control :: "char \<Rightarrow> bool" where
  "is_control c = (of_char c < (32::nat) \<or> of_char c = (127::nat))"

definition no_control :: "string \<Rightarrow> bool" where
  "no_control s = list_all (\<lambda>c. \<not> is_control c) s"

text \<open>\<open>isSafeText(value, maxLength, requireNonEmpty)\<close>, of which every package has its copy.\<close>

fun isSafeText :: "jsv \<Rightarrow> nat \<Rightarrow> bool \<Rightarrow> bool" where
  "isSafeText (JStr s) maxLength requireNonEmpty =
     ((requireNonEmpty \<longrightarrow> 0 < length s) \<and> length s \<le> maxLength \<and> no_control s)"
| "isSafeText _ _ _ = False"

definition max_safe_integer :: int where
  "max_safe_integer = 9007199254740991"

fun is_safe_integer :: "jsv \<Rightarrow> bool" where
  "is_safe_integer (JNum n) = (\<bar>n\<bar> \<le> max_safe_integer)"
| "is_safe_integer _ = False"

fun num_val :: "jsv \<Rightarrow> int" where
  "num_val (JNum n) = n"
| "num_val _ = 0"

definition isPositiveInteger :: "jsv \<Rightarrow> bool" where
  "isPositiveInteger v = (is_safe_integer v \<and> 0 < num_val v)"

definition isNonNegativeInteger :: "jsv \<Rightarrow> bool" where
  "isNonNegativeInteger v = (is_safe_integer v \<and> 0 \<le> num_val v)"

fun is_finite_number :: "jsv \<Rightarrow> bool" where
  "is_finite_number (JNum _) = True"
| "is_finite_number (JFrac _ _) = True"
| "is_finite_number _ = False"

fun isValidDate :: "jsv \<Rightarrow> bool" where
  "isValidDate (JDate (Some _)) = True"
| "isValidDate _ = False"

fun is_date :: "jsv \<Rightarrow> bool" where
  "is_date (JDate _) = True"
| "is_date _ = False"

fun date_ms :: "jsv \<Rightarrow> int" where
  "date_ms (JDate (Some t)) = t"
| "date_ms _ = 0"

text \<open>\<open>new Date(ms)\<close>: the time value is clipped to 100 million days around the epoch.\<close>

definition new_date :: "int \<Rightarrow> jsv" where
  "new_date ms = (if \<bar>ms\<bar> \<le> 8640000000000000 then JDate (Some ms) else JDate None)"

definition time_valid :: "int \<Rightarrow> bool" where
  "time_valid ms = (\<bar>ms\<bar> \<le> 8640000000000000)"

text \<open>\<open>a <= b\<close> on two dates (false when one is invalid).\<close>

fun date_le :: "jsv \<Rightarrow> jsv \<Rightarrow> bool" where
  "date_le (JDate (Some a)) (JDate (Some b)) = (a \<le> b)"
| "date_le _ _ = False"

fun date_less :: "jsv \<Rightarrow> jsv \<Rightarrow> bool" where
  "date_less (JDate (Some a)) (JDate (Some b)) = (a < b)"
| "date_less _ _ = False"

section \<open>Deep copies and JSON\<close>

text \<open>
  \<open>structuredClone\<close>: a deep copy without functions (it throws on one, here \<open>None\<close>); copies
  have the plain prototype. Since values are trees, the copy of plain data is the data.
\<close>

fun structuredClone :: "jsv \<Rightarrow> jsv option"
  and clone_list :: "jsv list \<Rightarrow> jsv list option"
  and clone_fields :: "(string \<times> jsv) list \<Rightarrow> (string \<times> jsv) list option" where
  "structuredClone (JFun _) = None"
| "structuredClone (JArr xs) = map_option JArr (clone_list xs)"
| "structuredClone (JObj _ kvs) = map_option (JObj True) (clone_fields kvs)"
| "structuredClone v = Some v"
| "clone_list [] = Some []"
| "clone_list (x # xs) =
     (case structuredClone x of None \<Rightarrow> None
      | Some y \<Rightarrow> map_option (\<lambda>ys. y # ys) (clone_list xs))"
| "clone_fields [] = Some []"
| "clone_fields ((k, x) # kvs) =
     (case structuredClone x of None \<Rightarrow> None
      | Some y \<Rightarrow> map_option (\<lambda>ys. (k, y) # ys) (clone_fields kvs))"

text \<open>
  \<open>JSON.stringify\<close>, as the tree its text denotes: two calls return equal texts exactly when
  the trees are equal. \<open>None\<close> is the result \<open>undefined\<close> (for \<open>undefined\<close> and functions, which
  are left out of objects and become \<open>null\<close> in arrays). Dates keep their time value instead of
  the ISO text that determines it. The sources stringify no object with a \<open>toJSON\<close> property.
\<close>

fun json_tree :: "jsv \<Rightarrow> jsv option"
  and json_list :: "jsv list \<Rightarrow> jsv list"
  and json_fields :: "(string \<times> jsv) list \<Rightarrow> (string \<times> jsv) list" where
  "json_tree JUndef = None"
| "json_tree JHole = None"
| "json_tree (JFun _) = None"
| "json_tree JNonFin = Some JNull"
| "json_tree (JDate None) = Some JNull"
| "json_tree (JArr xs) = Some (JArr (json_list xs))"
| "json_tree (JObj _ kvs) = Some (JObj True (json_fields kvs))"
| "json_tree v = Some v"
| "json_list [] = []"
| "json_list (x # xs) = (case json_tree x of None \<Rightarrow> JNull | Some y \<Rightarrow> y) # json_list xs"
| "json_fields [] = []"
| "json_fields ((k, x) # kvs) =
     (case json_tree x of None \<Rightarrow> json_fields kvs | Some y \<Rightarrow> (k, y) # json_fields kvs)"

section \<open>Lemmas\<close>

lemma fld_obj [simp]: "fld (JObj p kvs) k = (case map_of kvs k of None \<Rightarrow> JUndef | Some v \<Rightarrow> v)"
  by simp

lemma map_of_set_field:
  "map_of (set_field k v kvs) j = (if j = k then Some v else map_of kvs j)"
  by (induction k v kvs rule: set_field.induct) auto

lemma fld_set_field [simp]:
  "fld (JObj p (set_field k v kvs)) j = (if j = k then v else fld (JObj p kvs) j)"
  by (simp add: map_of_set_field)

lemma isSafeText_JStr: "isSafeText v n b \<Longrightarrow> \<exists>s. v = JStr s \<and> no_control s \<and> length s \<le> n"
  by (cases v) auto

lemma isSafeText_mono: "isSafeText v n b \<Longrightarrow> n \<le> m \<Longrightarrow> isSafeText v m b"
  by (cases v) auto

lemma isValidDate_iff: "isValidDate v \<longleftrightarrow> (\<exists>t. v = JDate (Some t))"
  by (cases v rule: isValidDate.cases) auto

lemma date_le_iff:
  "date_le a b \<longleftrightarrow> isValidDate a \<and> isValidDate b \<and> date_ms a \<le> date_ms b"
  by (cases "(a, b)" rule: date_le.cases) auto

lemma date_less_iff:
  "date_less a b \<longleftrightarrow> isValidDate a \<and> isValidDate b \<and> date_ms a < date_ms b"
  by (cases "(a, b)" rule: date_less.cases) auto

lemma date_le_not_less:
  "isValidDate a \<Longrightarrow> isValidDate b \<Longrightarrow> date_le a b \<longleftrightarrow> \<not> date_less b a"
  by (auto simp: date_le_iff date_less_iff)

lemma isPositiveInteger_iff:
  "isPositiveInteger v \<longleftrightarrow> (\<exists>n. v = JNum n \<and> 0 < n \<and> n \<le> max_safe_integer)"
  by (cases v) (auto simp: isPositiveInteger_def)

lemma isNonNegativeInteger_iff:
  "isNonNegativeInteger v \<longleftrightarrow> (\<exists>n. v = JNum n \<and> 0 \<le> n \<and> n \<le> max_safe_integer)"
  by (cases v) (auto simp: isNonNegativeInteger_def)

lemma isRecord_not_nullish: "isRecord v \<Longrightarrow> \<not> nullish v"
  by (cases v) (auto simp: nullish_def)

lemma isRecord_truthy: "isRecord v \<Longrightarrow> truthy v"
  by (cases v) auto

lemma new_date_valid: "isValidDate (new_date t) \<longleftrightarrow> time_valid t"
  by (simp add: new_date_def time_valid_def)

lemma new_date_ms [simp]: "time_valid t \<Longrightarrow> date_ms (new_date t) = t"
  by (simp add: new_date_def time_valid_def)

text \<open>A structured clone never holds a function, and cloning it again changes nothing.\<close>

fun has_function :: "jsv \<Rightarrow> bool"
  and list_has_function :: "jsv list \<Rightarrow> bool"
  and fields_have_function :: "(string \<times> jsv) list \<Rightarrow> bool" where
  "has_function (JFun _) = True"
| "has_function (JArr xs) = list_has_function xs"
| "has_function (JObj _ kvs) = fields_have_function kvs"
| "has_function _ = False"
| "list_has_function [] = False"
| "list_has_function (x # xs) = (has_function x \<or> list_has_function xs)"
| "fields_have_function [] = False"
| "fields_have_function ((_, x) # kvs) = (has_function x \<or> fields_have_function kvs)"

lemma structuredClone_None_iff:
  "structuredClone v = None \<longleftrightarrow> has_function v"
  "clone_list xs = None \<longleftrightarrow> list_has_function xs"
  "clone_fields kvs = None \<longleftrightarrow> fields_have_function kvs"
  by (induction v and xs and kvs rule: structuredClone_clone_list_clone_fields.induct)
    (auto split: option.splits)

lemma structuredClone_idem:
  "structuredClone v = Some w \<Longrightarrow> structuredClone w = Some w"
  "clone_list xs = Some ys \<Longrightarrow> clone_list ys = Some ys"
  "clone_fields kvs = Some lvs \<Longrightarrow> clone_fields lvs = Some lvs"
  by (induction v and xs and kvs arbitrary: w and ys and lvs
      rule: structuredClone_clone_list_clone_fields.induct)
    (auto split: option.splits)

end
