(* ===== verification/JsMonad.thy ===== *)
theory JsMonad
  imports JsValue
begin

text \<open>
  Asynchronous functions of the sources as state transformers: a call ends by returning a
  value or by throwing (a rejected promise), and leaves a new state. \<open>await\<close> is \<open>bindM\<close>, which
  propagates a throw; \<open>try ... catch\<close> is \<open>catchM\<close>. The rules below reduce the outcome of a
  composed program to the outcomes of its parts.
\<close>

datatype 'a outcome = Ret 'a | Throw

type_synonym ('s, 'a) M = "'s \<Rightarrow> 'a outcome \<times> 's"

definition ret :: "'a \<Rightarrow> ('s, 'a) M" where
  "ret a = (\<lambda>s. (Ret a, s))"

definition throwM :: "('s, 'a) M" where
  "throwM = (\<lambda>s. (Throw, s))"

definition bindM :: "('s, 'a) M \<Rightarrow> ('a \<Rightarrow> ('s, 'b) M) \<Rightarrow> ('s, 'b) M" where
  "bindM m f = (\<lambda>s. case m s of (Ret a, t) \<Rightarrow> f a t | (Throw, t) \<Rightarrow> (Throw, t))"

definition catchM :: "('s, 'a) M \<Rightarrow> ('s, 'a) M \<Rightarrow> ('s, 'a) M" where
  "catchM m h = (\<lambda>s. case m s of (Ret a, t) \<Rightarrow> (Ret a, t) | (Throw, t) \<Rightarrow> h t)"

text \<open>The value of a computation, when a throw is turned into \<open>None\<close> (\<open>try { x = m } catch {}\<close>).\<close>

definition attemptM :: "('s, 'a) M \<Rightarrow> ('s, 'a option) M" where
  "attemptM m = (\<lambda>s. case m s of (Ret a, t) \<Rightarrow> (Ret (Some a), t) | (Throw, t) \<Rightarrow> (Ret None, t))"

definition liftO :: "'a option \<Rightarrow> ('s, 'a) M" where
  "liftO x = (case x of None \<Rightarrow> throwM | Some a \<Rightarrow> ret a)"

section \<open>Evaluation\<close>

lemma ret_apply [simp]: "ret a s = (Ret a, s)"
  by (simp add: ret_def)

lemma throwM_apply [simp]: "throwM s = (Throw, s)"
  by (simp add: throwM_def)

lemma bindM_ret [simp]: "bindM (ret a) f = f a"
  by (simp add: bindM_def ret_def)

lemma bindM_throw [simp]: "bindM throwM f = throwM"
  by (simp add: bindM_def throwM_def)

lemma bindM_assoc: "bindM (bindM m f) g = bindM m (\<lambda>a. bindM (f a) g)"
  by (auto simp: bindM_def fun_eq_iff split: prod.splits outcome.splits)

lemma liftO_simps [simp]: "liftO None = throwM" "liftO (Some a) = ret a"
  by (simp_all add: liftO_def)

lemma liftO_Ret_iff [simp]: "liftO x s = (Ret a, t) \<longleftrightarrow> x = Some a \<and> s = t"
  by (cases x) auto

lemma bindM_step: "m s = (Ret a, t) \<Longrightarrow> bindM m f s = f a t"
  by (simp add: bindM_def)

section \<open>Inversion\<close>

lemma bindM_RetE:
  assumes "bindM m f s = (Ret b, t)"
  obtains a u where "m s = (Ret a, u)" and "f a u = (Ret b, t)"
  using assms by (auto simp: bindM_def split: prod.splits outcome.splits)

lemma catchM_RetE:
  assumes "catchM m h s = (Ret a, t)"
  obtains "m s = (Ret a, t)" | u where "m s = (Throw, u)" and "h u = (Ret a, t)"
  using assms by (auto simp: catchM_def split: prod.splits outcome.splits)

lemma ret_RetE: "ret a s = (Ret b, t) \<Longrightarrow> a = b \<and> s = t"
  by (simp add: ret_def)

lemma attemptM_total: "\<exists>r t. attemptM m s = (Ret r, t)"
  by (auto simp: attemptM_def split: prod.splits outcome.splits)

section \<open>A weakest precondition\<close>

text \<open>
  \<open>wp m Q E s\<close>: run from \<open>s\<close>, \<open>m\<close> returns a value and state with \<open>Q\<close>, or throws in a state
  with \<open>E\<close>.
\<close>

definition wp :: "('s, 'a) M \<Rightarrow> ('a \<Rightarrow> 's \<Rightarrow> bool) \<Rightarrow> ('s \<Rightarrow> bool) \<Rightarrow> 's \<Rightarrow> bool" where
  "wp m Q E s = (case m s of (Ret a, t) \<Rightarrow> Q a t | (Throw, t) \<Rightarrow> E t)"

named_theorems wp_rules \<open>weakest preconditions of the program constructs\<close>

lemma wp_ret [wp_rules]: "wp (ret a) Q E s = Q a s"
  by (simp add: wp_def)

lemma wp_ret_eq: "wp (ret a) Q E = Q a"
  by (rule ext) (simp add: wp_ret)

lemma wp_throw [wp_rules]: "wp throwM Q E s = E s"
  by (simp add: wp_def)

lemma wp_bind [wp_rules]: "wp (bindM m f) Q E s = wp m (\<lambda>a. wp (f a) Q E) E s"
  by (auto simp: wp_def bindM_def split: prod.splits outcome.splits)

lemma wp_catch [wp_rules]: "wp (catchM m h) Q E s = wp m Q (wp h Q E) s"
  by (auto simp: wp_def catchM_def split: prod.splits outcome.splits)

lemma wp_attempt [wp_rules]: "wp (attemptM m) Q E s = wp m (\<lambda>a. Q (Some a)) (Q None) s"
  by (auto simp: wp_def attemptM_def split: prod.splits outcome.splits)

lemma wp_liftO [wp_rules]:
  "wp (liftO x) Q E s = (case x of None \<Rightarrow> E s | Some a \<Rightarrow> Q a s)"
  by (auto simp: wp_def split: option.splits)

lemma wp_if [wp_rules]: "wp (if b then m else n) Q E s = (if b then wp m Q E s else wp n Q E s)"
  by simp

lemma wp_let [wp_rules]: "wp (Let x f) Q E s = (let a = x in wp (f a) Q E s)"
  by (simp add: Let_def)

lemma wp_case_option [wp_rules]:
  "wp (case x of None \<Rightarrow> m | Some a \<Rightarrow> f a) Q E s
     = (case x of None \<Rightarrow> wp m Q E s | Some a \<Rightarrow> wp (f a) Q E s)"
  by (cases x) simp_all

lemma wp_case_sum [wp_rules]:
  "wp (case x of Inl a \<Rightarrow> f a | Inr b \<Rightarrow> g b) Q E s
     = (case x of Inl a \<Rightarrow> wp (f a) Q E s | Inr b \<Rightarrow> wp (g b) Q E s)"
  by (cases x) simp_all

lemma wp_mono:
  assumes "wp m Q E s"
    and "\<And>a t. Q a t \<Longrightarrow> Q' a t" and "\<And>t. E t \<Longrightarrow> E' t"
  shows "wp m Q' E' s"
  using assms by (auto simp: wp_def split: prod.splits outcome.splits)

lemma wp_conj: "wp m Q E s \<Longrightarrow> wp m Q' E' s \<Longrightarrow> wp m (\<lambda>a t. Q a t \<and> Q' a t) (\<lambda>t. E t \<and> E' t) s"
  by (auto simp: wp_def split: prod.splits outcome.splits)

lemma wp_True [simp]: "wp m (\<lambda>_ _. True) (\<lambda>_. True) s"
  by (auto simp: wp_def split: prod.splits outcome.splits)

lemma wp_Ret: "wp m Q E s \<Longrightarrow> m s = (Ret a, t) \<Longrightarrow> Q a t"
  by (simp add: wp_def)

lemma wp_Throw: "wp m Q E s \<Longrightarrow> m s = (Throw, t) \<Longrightarrow> E t"
  by (simp add: wp_def)

lemma wpI:
  "(\<And>a t. m s = (Ret a, t) \<Longrightarrow> Q a t) \<Longrightarrow> (\<And>t. m s = (Throw, t) \<Longrightarrow> E t) \<Longrightarrow> wp m Q E s"
  by (auto simp: wp_def split: prod.splits outcome.splits)

section \<open>Computations that never throw\<close>

definition nothrow :: "('s, 'a) M \<Rightarrow> bool" where
  "nothrow m = (\<forall>s. \<exists>r t. m s = (Ret r, t))"

named_theorems nothrow_rules \<open>computations that never throw\<close>

lemma nothrowE:
  assumes "nothrow m" obtains r t where "m s = (Ret r, t)"
  using assms unfolding nothrow_def by blast

lemma nothrow_ret [nothrow_rules]: "nothrow (ret a)"
  by (simp add: nothrow_def)

lemma nothrow_attemptM [nothrow_rules]: "nothrow (attemptM m)"
  using attemptM_total by (auto simp: nothrow_def)

lemma nothrow_bindM [nothrow_rules]:
  assumes "nothrow m" and "\<And>a. nothrow (f a)" shows "nothrow (bindM m f)"
  unfolding nothrow_def
proof
  fix s
  obtain a u where "m s = (Ret a, u)" using assms(1) by (rule nothrowE)
  moreover obtain b t where "f a u = (Ret b, t)" using assms(2) by (rule nothrowE)
  ultimately show "\<exists>r t. bindM m f s = (Ret r, t)" by (auto simp: bindM_def)
qed

lemma nothrow_catchM [nothrow_rules]: "nothrow h \<Longrightarrow> nothrow (catchM m h)"
  unfolding nothrow_def catchM_def by (auto split: prod.splits outcome.splits)

lemma nothrow_if [nothrow_rules]: "nothrow m \<Longrightarrow> nothrow n \<Longrightarrow> nothrow (if b then m else n)"
  by simp

lemma nothrow_Let [nothrow_rules]: "(\<And>a. nothrow (f a)) \<Longrightarrow> nothrow (Let x f)"
  by (simp add: Let_def)

lemma nothrow_case_option [nothrow_rules]:
  "nothrow m \<Longrightarrow> (\<And>a. nothrow (f a)) \<Longrightarrow> nothrow (case x of None \<Rightarrow> m | Some a \<Rightarrow> f a)"
  by (cases x) simp_all

lemma nothrow_case_sum [nothrow_rules]:
  "(\<And>a. nothrow (f a)) \<Longrightarrow> (\<And>b. nothrow (g b)) \<Longrightarrow> nothrow (case x of Inl a \<Rightarrow> f a | Inr b \<Rightarrow> g b)"
  by (cases x) simp_all

lemma nothrow_case_prod [nothrow_rules]:
  "(\<And>a b. nothrow (f a b)) \<Longrightarrow> nothrow (case x of (a, b) \<Rightarrow> f a b)"
  by (cases x) simp

end
