(* ===== verification/InputValidation.thy ===== *)
theory InputValidation
  imports JsMonad
begin

text \<open>
  \<open>packages/core/src/validation/input.ts\<close> and \<open>method.ts\<close>: the checks every operation applies
  to its untyped input. \<open>isJsonValue\<close> threads its traversal budget (node and character counts);
  \<open>None\<close> is the result \<open>false\<close>, after which the budget is never read again.
\<close>

section \<open>Method identifiers\<close>

fun split_on :: "char \<Rightarrow> string \<Rightarrow> string list" where
  "split_on d [] = [[]]"
| "split_on d (c # cs) =
     (if c = d then [] # split_on d cs
      else (case split_on d cs of [] \<Rightarrow> [[c]] | s # ss \<Rightarrow> (c # s) # ss))"

definition is_lower :: "char \<Rightarrow> bool" where
  "is_lower c = (97 \<le> (of_char c :: nat) \<and> of_char c \<le> (122 :: nat))"

definition is_digit :: "char \<Rightarrow> bool" where
  "is_digit c = (48 \<le> (of_char c :: nat) \<and> of_char c \<le> (57 :: nat))"

fun method_segment :: "string \<Rightarrow> bool" where
  "method_segment [] = False"
| "method_segment (c # cs) =
     (is_lower c \<and> list_all (\<lambda>x. is_lower x \<or> is_digit x \<or> x = CHR ''-'') cs)"

text \<open>\<open>/^[a-z][a-z0-9-]*(?:\.[a-z][a-z0-9-]*)+$/\<close>: two or more segments, split at the dots.\<close>

fun isStableMethodId :: "jsv \<Rightarrow> bool" where
  "isStableMethodId (JStr s) =
     (length s \<le> 128 \<and> 2 \<le> length (split_on CHR ''.'' s)
      \<and> list_all method_segment (split_on CHR ''.'' s))"
| "isStableMethodId _ = False"

section \<open>Text\<close>

definition isBoundedString :: "jsv \<Rightarrow> nat \<Rightarrow> bool" where
  "isBoundedString v maxLength = isSafeText v maxLength False"

fun str_len :: "jsv \<Rightarrow> nat" where
  "str_len (JStr s) = length s"
| "str_len _ = 0"

definition isNonEmptyString :: "jsv \<Rightarrow> bool" where
  "isNonEmptyString v = (isBoundedString v 512 \<and> 0 < str_len v)"

section \<open>Public data\<close>

record traversal =
  nodes :: nat
  characters :: nat

definition start_traversal :: traversal where
  "start_traversal = \<lparr>nodes = 0, characters = 0\<rparr>"

definition consumeText :: "jsv \<Rightarrow> nat \<Rightarrow> traversal \<Rightarrow> traversal option" where
  "consumeText v maxLength st =
     (if \<not> isBoundedString v maxLength then None
      else let st' = st\<lparr>characters := characters st + str_len v\<rparr>
           in if characters st' \<le> 1000000 then Some st' else None)"

definition secretDescriptorTypes :: "jsv list" where
  "secretDescriptorTypes = [JStr ''raw-secret'', JStr ''protected-value'', JStr ''sealed-secret'']"

definition isSecretDescriptor :: "jsv \<Rightarrow> bool" where
  "isSecretDescriptor v =
     (\<not> is_arr v \<and> has_key ''type'' v \<and> fld v ''type'' \<in> set secretDescriptorTypes)"

definition has_reveal :: "jsv \<Rightarrow> bool" where
  "has_reveal v = (hasFunction v ''reveal'' \<or> hasFunction v ''revealForPersistence''
     \<or> hasFunction v ''revealCiphertextForPersistence'')"

definition isDenseJsonArray :: "jsv list \<Rightarrow> bool" where
  "isDenseJsonArray xs = (JHole \<notin> set xs)"

fun isJsonValue :: "jsv \<Rightarrow> nat \<Rightarrow> traversal \<Rightarrow> traversal option"
  and isJsonList :: "jsv list \<Rightarrow> nat \<Rightarrow> traversal \<Rightarrow> traversal option"
  and isJsonFields :: "(string \<times> jsv) list \<Rightarrow> nat \<Rightarrow> traversal \<Rightarrow> traversal option" where
  "isJsonValue v depth st0 =
     (let st = st0\<lparr>nodes := nodes st0 + 1\<rparr> in
      if 1000 < nodes st then None
      else case v of
        JNull \<Rightarrow> Some st
      | JBool _ \<Rightarrow> Some st
      | JStr _ \<Rightarrow> consumeText v 65536 st
      | JNum _ \<Rightarrow> Some st
      | JFrac _ _ \<Rightarrow> Some st
      | JArr xs \<Rightarrow>
          if 16 \<le> depth then None
          else if isDenseJsonArray xs then isJsonList xs (depth + 1) st else None
      | JObj plain kvs \<Rightarrow>
          if isSecretDescriptor v \<or> has_reveal v then None
          else if 16 \<le> depth then None
          else if plain then isJsonFields kvs (depth + 1) st else None
      | _ \<Rightarrow> None)"
| "isJsonList [] depth st = Some st"
| "isJsonList (x # xs) depth st =
     (case isJsonValue x depth st of None \<Rightarrow> None | Some st' \<Rightarrow> isJsonList xs depth st')"
| "isJsonFields [] depth st = Some st"
| "isJsonFields ((k, x) # kvs) depth st =
     (case consumeText (JStr k) 512 st of
        None \<Rightarrow> None
      | Some st' \<Rightarrow>
          if k = '''' then None
          else case isJsonValue x depth st' of
                 None \<Rightarrow> None | Some st'' \<Rightarrow> isJsonFields kvs depth st'')"

definition isPublicData :: "jsv \<Rightarrow> bool" where
  "isPublicData v =
     (v = JUndef
      \<or> (isPlainObject v \<and> isJsonFields (obj_entries v) 0 start_traversal \<noteq> None))"

section \<open>Operation inputs\<close>

definition authContextKeys :: "string list" where
  "authContextKeys = [''actor'', ''ip'', ''locale'', ''metadata'', ''policyInput'', ''requestId'',
     ''tenantId'', ''userAgent'']"

definition isActor :: "jsv \<Rightarrow> bool" where
  "isActor actor =
     (if \<not> isRecord actor then False
      else if fld actor ''type'' = JStr ''anonymous'' then hasOnlyKeys actor [''type'']
      else if fld actor ''type'' = JStr ''account'' then
        hasOnlyKeys actor [''accountId'', ''type''] \<and> isNonEmptyString (fld actor ''accountId'')
      else if fld actor ''type'' = JStr ''system'' then
        hasOnlyKeys actor [''name'', ''type''] \<and> isNonEmptyString (fld actor ''name'')
      else False)"

definition isAuthContext :: "jsv \<Rightarrow> bool" where
  "isAuthContext context =
     (if \<not> isRecord context \<or> \<not> hasOnlyKeys context authContextKeys
         \<or> \<not> isNonEmptyString (fld context ''tenantId'') then False
      else if fld context ''requestId'' \<noteq> JUndef \<and> \<not> isNonEmptyString (fld context ''requestId'')
        then False
      else if fld context ''locale'' \<noteq> JUndef
        \<and> (\<not> isBoundedString (fld context ''locale'') 128 \<or> str_len (fld context ''locale'') = 0)
        then False
      else if fld context ''ip'' \<noteq> JUndef \<and> \<not> isBoundedString (fld context ''ip'') 512 then False
      else if fld context ''userAgent'' \<noteq> JUndef
        \<and> \<not> isBoundedString (fld context ''userAgent'') 2048 then False
      else if fld context ''actor'' \<noteq> JUndef \<and> \<not> isActor (fld context ''actor'') then False
      else isPublicData (fld context ''policyInput'') \<and> isPublicData (fld context ''metadata''))"

definition isCreateSessionRequest :: "jsv \<Rightarrow> bool" where
  "isCreateSessionRequest v =
     (v = JUndef
      \<or> (isRecord v \<and> hasOnlyKeys v [''ttlSeconds'']
         \<and> (fld v ''ttlSeconds'' = JUndef \<or> is_number (fld v ''ttlSeconds''))))"

definition isBaseOperationInput :: "jsv \<Rightarrow> bool" where
  "isBaseOperationInput input =
     (isRecord input \<and> isAuthContext (fld input ''context'')
      \<and> isStableMethodId (fld input ''methodId'') \<and> has_key ''input'' input
      \<and> isCreateSessionRequest (fld input ''session''))"

definition authContextFrom :: "jsv \<Rightarrow> jsv" where
  "authContextFrom input =
     (if isRecord input \<and> isAuthContext (fld input ''context'') then fld input ''context'' else JUndef)"

section \<open>Lemmas\<close>

declare isJsonValue.simps [simp del]

lemma isNonEmptyString_iff:
  "isNonEmptyString v \<longleftrightarrow> (\<exists>s. v = JStr s \<and> s \<noteq> '''' \<and> length s \<le> 512 \<and> no_control s)"
  by (cases v) (auto simp: isNonEmptyString_def isBoundedString_def)

lemma isNonEmptyString_JStr [simp]:
  "isNonEmptyString (JStr s) \<longleftrightarrow> s \<noteq> '''' \<and> length s \<le> 512 \<and> no_control s"
  by (simp add: isNonEmptyString_iff)

lemma isNonEmptyString_simps [simp]:
  "\<not> isNonEmptyString JUndef" "\<not> isNonEmptyString JNull"
  by (simp_all add: isNonEmptyString_iff)

lemma consumeText_SomeD:
  "consumeText v m st = Some st' \<Longrightarrow>
     \<exists>s. v = JStr s \<and> no_control s \<and> length s \<le> m
       \<and> st' = st\<lparr>characters := characters st + length s\<rparr> \<and> characters st' \<le> 1000000"
  by (cases v) (auto simp: consumeText_def isBoundedString_def Let_def split: if_splits)

text \<open>What a node of accepted public data can be: the equation of the checker, read forwards.\<close>

fun json_scalar :: "jsv \<Rightarrow> bool" where
  "json_scalar JNull = True"
| "json_scalar (JBool _) = True"
| "json_scalar (JStr _) = True"
| "json_scalar (JNum _) = True"
| "json_scalar (JFrac _ _) = True"
| "json_scalar _ = False"

lemma isJsonValue_SomeD:
  assumes "isJsonValue v depth st = Some st'"
  shows "nodes st < 1000
    \<and> (json_scalar v \<and> nodes st' = nodes st + 1
       \<or> (\<exists>xs. v = JArr xs \<and> JHole \<notin> set xs \<and> depth < 16
         \<and> isJsonList xs (depth + 1) (st\<lparr>nodes := nodes st + 1\<rparr>) = Some st')
       \<or> (\<exists>kvs. v = JObj True kvs \<and> depth < 16 \<and> \<not> isSecretDescriptor v \<and> \<not> has_reveal v
         \<and> isJsonFields kvs (depth + 1) (st\<lparr>nodes := nodes st + 1\<rparr>) = Some st'))"
  using assms
  by (cases v)
    (auto simp: isJsonValue.simps Let_def isDenseJsonArray_def split: if_splits
      dest!: consumeText_SomeD)

text \<open>
  A JSON value that the check accepts is plain data: no function, no date, no class instance
  at any depth, so a structured clone of it is the value itself.
\<close>

lemma json_clone:
  "isJsonValue v d st = Some st' \<Longrightarrow> structuredClone v = Some v"
  "isJsonList xs d st = Some st' \<Longrightarrow> clone_list xs = Some xs"
  "isJsonFields kvs d st = Some st' \<Longrightarrow> clone_fields kvs = Some kvs"
proof (induction v and xs and kvs arbitrary: d st st' and d st st' and d st st'
    rule: structuredClone_clone_list_clone_fields.induct)
  case (3 plain kvs)
  then show ?case by (auto dest!: isJsonValue_SomeD)
qed (auto dest!: isJsonValue_SomeD split: option.splits if_splits)

lemma isPublicData_clone: "isPublicData v \<Longrightarrow> structuredClone v = Some v"
  by (cases v) (auto simp: isPublicData_def dest: json_clone(3))

lemma isPublicData_JUndef [simp]: "isPublicData JUndef"
  by (simp add: isPublicData_def)

text \<open>Objects at every depth below the root: none is shaped like a secret.\<close>

fun secret_free :: "jsv \<Rightarrow> bool"
  and secret_free_list :: "jsv list \<Rightarrow> bool"
  and secret_free_fields :: "(string \<times> jsv) list \<Rightarrow> bool" where
  "secret_free (JArr xs) = secret_free_list xs"
| "secret_free (JObj plain kvs) =
     (fld (JObj plain kvs) ''type'' \<notin> set secretDescriptorTypes \<and> secret_free_fields kvs)"
| "secret_free (JFun _) = False"
| "secret_free _ = True"
| "secret_free_list [] = True"
| "secret_free_list (x # xs) = (secret_free x \<and> secret_free_list xs)"
| "secret_free_fields [] = True"
| "secret_free_fields ((_, x) # kvs) = (secret_free x \<and> secret_free_fields kvs)"

lemma fld_has_key: "fld v k \<noteq> JUndef \<Longrightarrow> has_key k v"
  by (cases v) (auto split: option.splits dest: map_of_SomeD intro: rev_image_eqI)

lemma isSecretDescriptor_obj:
  "isSecretDescriptor (JObj p kvs) \<longleftrightarrow> fld (JObj p kvs) ''type'' \<in> set secretDescriptorTypes"
proof -
  have "fld (JObj p kvs) ''type'' \<in> set secretDescriptorTypes \<Longrightarrow> has_key ''type'' (JObj p kvs)"
    by (rule fld_has_key) (auto simp: secretDescriptorTypes_def)
  then show ?thesis by (auto simp: isSecretDescriptor_def)
qed

lemma json_secret_free:
  "isJsonValue v d st = Some st' \<Longrightarrow> secret_free v"
  "isJsonList xs d st = Some st' \<Longrightarrow> secret_free_list xs"
  "isJsonFields kvs d st = Some st' \<Longrightarrow> secret_free_fields kvs"
proof (induction v and xs and kvs arbitrary: d st st' and d st st' and d st st'
    rule: secret_free_secret_free_list_secret_free_fields.induct)
  case (2 plain kvs)
  then show ?case
    by (auto dest!: isJsonValue_SomeD simp: isSecretDescriptor_obj simp del: fld.simps)
qed (auto dest!: isJsonValue_SomeD split: option.splits if_splits)

text \<open>The budgets: accepted data has at most 1000 nodes and a million characters of text.\<close>

fun node_count :: "jsv \<Rightarrow> nat"
  and node_count_list :: "jsv list \<Rightarrow> nat"
  and node_count_fields :: "(string \<times> jsv) list \<Rightarrow> nat" where
  "node_count (JArr xs) = 1 + node_count_list xs"
| "node_count (JObj plain kvs) = 1 + node_count_fields kvs"
| "node_count _ = 1"
| "node_count_list [] = 0"
| "node_count_list (x # xs) = node_count x + node_count_list xs"
| "node_count_fields [] = 0"
| "node_count_fields ((_, x) # kvs) = node_count x + node_count_fields kvs"

lemma json_node_count:
  "isJsonValue v d st = Some st' \<Longrightarrow> nodes st' = nodes st + node_count v"
  "isJsonList xs d st = Some st' \<Longrightarrow> nodes st' = nodes st + node_count_list xs"
  "isJsonFields kvs d st = Some st' \<Longrightarrow> nodes st' = nodes st + node_count_fields kvs"
proof (induction v and xs and kvs arbitrary: d st st' and d st st' and d st st'
    rule: node_count_node_count_list_node_count_fields.induct)
qed (auto dest!: isJsonValue_SomeD consumeText_SomeD split: option.splits if_splits)

lemma json_nodes_bound_aux:
  "isJsonValue v d st = Some st' \<Longrightarrow> nodes st' \<le> 1000"
  "isJsonList xs d st = Some st' \<Longrightarrow> nodes st \<le> 1000 \<Longrightarrow> nodes st' \<le> 1000"
  "isJsonFields kvs d st = Some st' \<Longrightarrow> nodes st \<le> 1000 \<Longrightarrow> nodes st' \<le> 1000"
proof (induction v and xs and kvs arbitrary: d st st' and d st st' and d st st'
    rule: node_count_node_count_list_node_count_fields.induct)
qed (auto dest!: isJsonValue_SomeD consumeText_SomeD split: option.splits if_splits)

end
