(* ===== verification/MethodDataValidation.thy ===== *)
theory MethodDataValidation
  imports InputValidation
begin

text \<open>
  The checks of the data plugged-in methods and token formats return:
  \<open>packages/core/src/validation/method-data.ts\<close>, \<open>side-effects.ts\<close> (the shape of effects) and
  \<open>token.ts\<close>. A secret wrapper is an object whose \<open>reveal...\<close> property is a function; calling it
  is \<open>call_thunk\<close>, with \<open>None\<close> for a throw.
\<close>

fun call_thunk :: "jsv \<Rightarrow> jsv option" where
  "call_thunk (JFun r) = r"
| "call_thunk _ = None"

section \<open>method-data.ts\<close>

definition identityLookupKeys :: "string list" where
  "identityLookupKeys = [''display'', ''methodId'', ''methodKind'', ''subject'', ''subjectKind'']"

definition identityClaimKeys :: "string list" where
  "identityClaimKeys = identityLookupKeys @ [''verifiedAt'']"

definition materialKeys :: "string list" where
  "materialKeys = [''privateData'', ''publicData'', ''schemaVersion'']"

definition protectedValueKeys :: "string list" where
  "protectedValueKeys = [''createdAt'', ''keyId'', ''redacted'', ''revealForPersistence'', ''scheme'',
     ''toJSON'', ''type'']"

definition sealedValueKeys :: "string list" where
  "sealedValueKeys = [''algorithm'', ''expiresAt'', ''keyId'', ''redacted'',
     ''revealCiphertextForPersistence'', ''toJSON'', ''type'']"

definition validatedInputKeys :: "string list" where
  "validatedInputKeys = [''lookup'', ''publicData'', ''value'']"

definition isSafeDisplay :: "jsv \<Rightarrow> bool" where
  "isSafeDisplay v = isSafeText v 512 False"

definition isSafeKey :: "string \<Rightarrow> bool" where
  "isSafeKey k = isSafeText (JStr k) 512 True"

definition isIdentityLookup :: "jsv \<Rightarrow> bool" where
  "isIdentityLookup v =
     (v = JUndef
      \<or> (isRecord v \<and> hasOnlyKeys v identityLookupKeys
         \<and> isStableMethodId (fld v ''methodId'')
         \<and> isNonEmptyString (fld v ''methodKind'')
         \<and> isNonEmptyString (fld v ''subject'')
         \<and> isNonEmptyString (fld v ''subjectKind'')
         \<and> (fld v ''display'' = JUndef \<or> isSafeDisplay (fld v ''display''))))"

definition isValidatedMethodInput :: "jsv \<Rightarrow> bool" where
  "isValidatedMethodInput v =
     (isRecord v \<and> hasOnlyKeys v validatedInputKeys \<and> has_key ''value'' v
      \<and> isIdentityLookup (fld v ''lookup'') \<and> isPublicData (fld v ''publicData''))"

definition isIdentityClaim :: "jsv \<Rightarrow> jsv \<Rightarrow> bool" where
  "isIdentityClaim v now =
     (isRecord v \<and> hasOnlyKeys v identityClaimKeys
      \<and> isStableMethodId (fld v ''methodId'')
      \<and> isNonEmptyString (fld v ''methodKind'')
      \<and> isNonEmptyString (fld v ''subject'')
      \<and> isNonEmptyString (fld v ''subjectKind'')
      \<and> (fld v ''display'' = JUndef \<or> isSafeDisplay (fld v ''display''))
      \<and> (fld v ''verifiedAt'' = JUndef
         \<or> (isValidDate (fld v ''verifiedAt'') \<and> date_le (fld v ''verifiedAt'') now)))"

definition isMaterialProtectedValue :: "jsv \<Rightarrow> bool" where
  "isMaterialProtectedValue v =
     (isRecord v \<and> hasOnlyKeys v protectedValueKeys
      \<and> fld v ''type'' = JStr ''protected-value''
      \<and> isNonEmptyString (fld v ''scheme'')
      \<and> isSafeText (fld v ''redacted'') 1024 False
      \<and> (fld v ''keyId'' = JUndef \<or> isSafeText (fld v ''keyId'') 512 False)
      \<and> (fld v ''createdAt'' = JUndef \<or> isValidDate (fld v ''createdAt''))
      \<and> is_fun (fld v ''revealForPersistence'')
      \<and> is_fun (fld v ''toJSON''))"

definition isSealedValue :: "jsv \<Rightarrow> bool" where
  "isSealedValue v =
     (isRecord v \<and> hasOnlyKeys v sealedValueKeys
      \<and> fld v ''type'' = JStr ''sealed-secret''
      \<and> isNonEmptyString (fld v ''algorithm'')
      \<and> isNonEmptyString (fld v ''keyId'')
      \<and> isSafeText (fld v ''redacted'') 1024 False
      \<and> (fld v ''expiresAt'' = JUndef \<or> isValidDate (fld v ''expiresAt''))
      \<and> is_fun (fld v ''revealCiphertextForPersistence'')
      \<and> is_fun (fld v ''toJSON''))"

definition isPrivateData :: "jsv \<Rightarrow> bool" where
  "isPrivateData v =
     (if v = JUndef then True
      else if \<not> isRecord v \<or> 1000 < length (obj_keys v) then False
      else list_all (\<lambda>(key, item). isSafeKey key
             \<and> (isMaterialProtectedValue item \<or> isSealedValue item
                \<or> isPublicData (obj [(''value'', item)])))
           (obj_entries v))"

definition isMethodMaterial :: "jsv \<Rightarrow> bool" where
  "isMethodMaterial v =
     (v = JUndef
      \<or> (isRecord v \<and> hasOnlyKeys v materialKeys
         \<and> isNonEmptyString (fld v ''schemaVersion'')
         \<and> isPublicData (fld v ''publicData'')
         \<and> isPrivateData (fld v ''privateData'')))"

section \<open>side-effects.ts\<close>

definition addressKeys :: "string list" where
  "addressKeys = [''channel'', ''display'', ''target'']"

definition effectKeys :: "string list" where
  "effectKeys = [''dispatchPolicy'', ''expiresAt'', ''idempotencyKey'', ''message'', ''type'']"

definition messageKeys :: "string list" where
  "messageKeys = [''data'', ''locale'', ''metadata'', ''templateId'', ''to'']"

definition rawSecretKeys :: "string list" where
  "rawSecretKeys = [''redacted'', ''reveal'', ''toJSON'', ''type'']"

definition isEffectRawSecret :: "jsv \<Rightarrow> bool" where
  "isEffectRawSecret v =
     (isRecord v \<and> hasOnlyKeys v rawSecretKeys
      \<and> fld v ''type'' = JStr ''raw-secret''
      \<and> is_str (fld v ''redacted'')
      \<and> is_fun (fld v ''reveal'')
      \<and> is_fun (fld v ''toJSON''))"

definition isDeliveryData :: "jsv \<Rightarrow> bool" where
  "isDeliveryData v =
     (isRecord v \<and> length (obj_keys v) \<le> 1000
      \<and> list_all (\<lambda>(key, item). isSafeText (JStr key) 512 True
           \<and> (isEffectRawSecret item \<or> isPublicData (obj [(''value'', item)])))
         (obj_entries v))"

definition isDeliveryMessage :: "jsv \<Rightarrow> bool" where
  "isDeliveryMessage v =
     (isRecord v \<and> hasOnlyKeys v messageKeys
      \<and> isRecord (fld v ''to'') \<and> hasOnlyKeys (fld v ''to'') addressKeys
      \<and> isSafeText (fld (fld v ''to'') ''channel'') 64 True
      \<and> isSafeText (fld (fld v ''to'') ''target'') 2048 True
      \<and> (fld (fld v ''to'') ''display'' = JUndef
         \<or> isSafeText (fld (fld v ''to'') ''display'') 512 False)
      \<and> isSafeText (fld v ''templateId'') 256 True
      \<and> (fld v ''locale'' = JUndef \<or> isSafeText (fld v ''locale'') 128 True)
      \<and> (fld v ''data'' = JUndef \<or> isDeliveryData (fld v ''data''))
      \<and> isPublicData (fld v ''metadata''))"

definition isDeliveryEffect :: "jsv \<Rightarrow> bool" where
  "isDeliveryEffect v =
     (isRecord v \<and> hasOnlyKeys v effectKeys
      \<and> fld v ''type'' = JStr ''delivery''
      \<and> (fld v ''dispatchPolicy'' = JStr ''required''
         \<or> fld v ''dispatchPolicy'' = JStr ''best-effort'')
      \<and> isDeliveryMessage (fld v ''message'')
      \<and> (if fld v ''idempotencyKey'' = JUndef
         then fld v ''dispatchPolicy'' = JStr ''best-effort''
         else isSafeText (fld v ''idempotencyKey'') 512 True)
      \<and> (fld v ''expiresAt'' = JUndef \<or> isValidDate (fld v ''expiresAt'')))"

definition isSideEffects :: "jsv \<Rightarrow> bool" where
  "isSideEffects v =
     (v = JUndef
      \<or> (is_arr v \<and> length (arr_elems v) \<le> 1000 \<and> arr_every isDeliveryEffect (arr_elems v)))"

section \<open>token.ts\<close>

definition componentFailureKeys :: "string list" where
  "componentFailureKeys = [''component'', ''details'', ''reason'', ''type'']"

definition tokenHashIdentityKeys :: "string list" where
  "tokenHashIdentityKeys = [''claims'', ''kind'', ''tokenHash'']"

definition tokenSessionIdentityKeys :: "string list" where
  "tokenSessionIdentityKeys = [''claims'', ''kind'', ''sessionId'', ''tenantId'', ''tokenHash'']"

definition isRawSecret :: "jsv \<Rightarrow> bool" where
  "isRawSecret v =
     (isRecord v \<and> hasOnlyKeys v rawSecretKeys
      \<and> fld v ''type'' = JStr ''raw-secret''
      \<and> is_str (fld v ''redacted'')
      \<and> is_fun (fld v ''reveal'')
      \<and> is_fun (fld v ''toJSON''))"

definition isProtectedValue :: "jsv \<Rightarrow> bool" where
  "isProtectedValue v =
     (isRecord v \<and> hasOnlyKeys v protectedValueKeys
      \<and> fld v ''type'' = JStr ''protected-value''
      \<and> isNonEmptyString (fld v ''scheme'')
      \<and> is_str (fld v ''redacted'')
      \<and> (fld v ''keyId'' = JUndef \<or> isNonEmptyString (fld v ''keyId''))
      \<and> (fld v ''createdAt'' = JUndef \<or> isValidDate (fld v ''createdAt''))
      \<and> is_fun (fld v ''revealForPersistence'')
      \<and> is_fun (fld v ''toJSON''))"

definition redacted_text :: jsv where
  "redacted_text = JStr ''[REDACTED]''"

definition snapshotRawSecret :: "jsv \<Rightarrow> jsv option" where
  "snapshotRawSecret v =
     (if \<not> isRawSecret v then None
      else case call_thunk (fld v ''reveal'') of
        Some (JStr revealed) \<Rightarrow>
          (if length revealed = 0 \<or> 65536 < length revealed then None
           else Some (obj [(''type'', JStr ''raw-secret''), (''redacted'', redacted_text),
                  (''reveal'', JFun (Some (JStr revealed))), (''toJSON'', JFun (Some redacted_text))]))
      | _ \<Rightarrow> None)"

definition snapshotProtectedValue :: "jsv \<Rightarrow> jsv option" where
  "snapshotProtectedValue v =
     (if \<not> isProtectedValue v then None
      else case call_thunk (fld v ''revealForPersistence'') of
        Some (JStr verifier) \<Rightarrow>
          (if length verifier = 0 \<or> 1000000 < length verifier then None
           else Some (obj [(''type'', JStr ''protected-value''), (''scheme'', fld v ''scheme''),
                  (''redacted'', redacted_text), (''keyId'', fld v ''keyId''),
                  (''createdAt'', fld v ''createdAt''),
                  (''revealForPersistence'', JFun (Some (JStr verifier))),
                  (''toJSON'', JFun (Some redacted_text))]))
      | _ \<Rightarrow> None)"

definition isTokenFailure :: "jsv \<Rightarrow> bool" where
  "isTokenFailure v =
     (isRecord v \<and> hasOnlyKeys v componentFailureKeys
      \<and> fld v ''type'' = JStr ''component.failure''
      \<and> fld v ''component'' = JStr ''token''
      \<and> isNonEmptyString (fld v ''reason'')
      \<and> isPublicData (fld v ''details''))"

definition isTokenCallResult :: "jsv \<Rightarrow> (jsv \<Rightarrow> bool) \<Rightarrow> bool" where
  "isTokenCallResult v isSuccessValue =
     (if \<not> isRecord v \<or> \<not> hasOnlyKeys v [''error'', ''ok'', ''value''] then False
      else if fld v ''ok'' = JBool True then \<not> has_key ''error'' v \<and> isSuccessValue (fld v ''value'')
      else fld v ''ok'' = JBool False \<and> \<not> has_key ''value'' v \<and> isTokenFailure (fld v ''error''))"

definition isTokenIdentifyResult :: "jsv \<Rightarrow> bool" where
  "isTokenIdentifyResult v =
     (if v = JNull then True
      else if \<not> isRecord v then False
      else if fld v ''kind'' = JStr ''by-token-hash'' then
        hasOnlyKeys v tokenHashIdentityKeys \<and> isProtectedValue (fld v ''tokenHash'')
        \<and> isPublicData (fld v ''claims'')
      else fld v ''kind'' = JStr ''by-session'' \<and> hasOnlyKeys v tokenSessionIdentityKeys
        \<and> isNonEmptyString (fld v ''tenantId'') \<and> isNonEmptyString (fld v ''sessionId'')
        \<and> isProtectedValue (fld v ''tokenHash'') \<and> isPublicData (fld v ''claims''))"

definition isTokenIssueResult :: "jsv \<Rightarrow> bool" where
  "isTokenIssueResult v =
     (isRecord v \<and> hasOnlyKeys v [''raw'', ''tokenHash'']
      \<and> isRawSecret (fld v ''raw'') \<and> isProtectedValue (fld v ''tokenHash''))"

definition isTokenIdentifyCallResult :: "jsv \<Rightarrow> bool" where
  "isTokenIdentifyCallResult v = isTokenCallResult v isTokenIdentifyResult"

definition isTokenIssueCallResult :: "jsv \<Rightarrow> bool" where
  "isTokenIssueCallResult v = isTokenCallResult v isTokenIssueResult"

section \<open>Lemmas\<close>

lemma call_thunk_Some_iff: "call_thunk f = Some v \<longleftrightarrow> f = JFun (Some v)"
  by (cases f) auto

text \<open>A snapshot of a secret keeps its identity and the value it revealed when it was taken.\<close>

lemma snapshotProtectedValue_SomeD:
  assumes "snapshotProtectedValue v = Some w"
  obtains s where "isProtectedValue v" and "s \<noteq> ''''"
    and "fld v ''revealForPersistence'' = JFun (Some (JStr s))"
    and "w = obj [(''type'', JStr ''protected-value''), (''scheme'', fld v ''scheme''),
      (''redacted'', redacted_text), (''keyId'', fld v ''keyId''),
      (''createdAt'', fld v ''createdAt''),
      (''revealForPersistence'', JFun (Some (JStr s))), (''toJSON'', JFun (Some redacted_text))]"
  using assms
  by (auto simp: snapshotProtectedValue_def call_thunk_Some_iff
      simp del: fld.simps fld_obj split: if_splits option.splits jsv.splits)

lemma snapshotProtectedValue_fields:
  assumes "snapshotProtectedValue v = Some w"
  shows "fld w ''type'' = JStr ''protected-value''"
    and "fld w ''scheme'' = fld v ''scheme''"
    and "fld w ''keyId'' = fld v ''keyId''"
    and "fld w ''createdAt'' = fld v ''createdAt''"
    and "fld w ''revealForPersistence'' = fld v ''revealForPersistence''"
proof -
  obtain s where r: "fld v ''revealForPersistence'' = JFun (Some (JStr s))"
    and w: "w = obj [(''type'', JStr ''protected-value''), (''scheme'', fld v ''scheme''),
      (''redacted'', redacted_text), (''keyId'', fld v ''keyId''),
      (''createdAt'', fld v ''createdAt''),
      (''revealForPersistence'', JFun (Some (JStr s))), (''toJSON'', JFun (Some redacted_text))]"
    using snapshotProtectedValue_SomeD [OF assms] by metis
  show "fld w ''type'' = JStr ''protected-value''" unfolding w by simp
  show "fld w ''scheme'' = fld v ''scheme''" unfolding w by simp
  show "fld w ''keyId'' = fld v ''keyId''" unfolding w by simp
  show "fld w ''createdAt'' = fld v ''createdAt''" unfolding w by simp
  show "fld w ''revealForPersistence'' = fld v ''revealForPersistence''" unfolding w r by simp
qed

lemma isProtectedValue_snapshot:
  assumes "snapshotProtectedValue v = Some w"
  shows "isProtectedValue w"
proof -
  obtain s where v: "isProtectedValue v"
    and w: "w = obj [(''type'', JStr ''protected-value''), (''scheme'', fld v ''scheme''),
      (''redacted'', redacted_text), (''keyId'', fld v ''keyId''),
      (''createdAt'', fld v ''createdAt''),
      (''revealForPersistence'', JFun (Some (JStr s))), (''toJSON'', JFun (Some redacted_text))]"
    using snapshotProtectedValue_SomeD [OF assms] by metis
  have "hasOnlyKeys w protectedValueKeys"
    unfolding w hasOnlyKeys_def protectedValueKeys_def by simp
  moreover have "isRecord w \<and> is_str (fld w ''redacted'') \<and> is_fun (fld w ''revealForPersistence'')
    \<and> is_fun (fld w ''toJSON'')"
    unfolding w by (simp add: redacted_text_def)
  ultimately show ?thesis
    using v snapshotProtectedValue_fields [OF assms] by (simp add: isProtectedValue_def)
qed

lemma snapshotRawSecret_SomeD:
  assumes "snapshotRawSecret v = Some w"
  obtains s where "isRawSecret v" and "s \<noteq> ''''" and "length s \<le> 65536"
    and "fld v ''reveal'' = JFun (Some (JStr s))"
    and "w = obj [(''type'', JStr ''raw-secret''), (''redacted'', redacted_text),
      (''reveal'', JFun (Some (JStr s))), (''toJSON'', JFun (Some redacted_text))]"
  using assms
  by (auto simp: snapshotRawSecret_def call_thunk_Some_iff
      simp del: fld.simps fld_obj split: if_splits option.splits jsv.splits)

end
