(* ===== verification/StoreValidation.thy ===== *)
theory StoreValidation
  imports MethodDataValidation "HOL-Library.Char_ord" "HOL-Library.List_Lexorder"
begin

text \<open>
  \<open>packages/core/src/validation/store.ts\<close>: what core accepts as a record of a store, the
  fingerprints by which it compares a stored record with the one it asked for, and the
  transitions of a challenge it accepts after a failed attempt.
\<close>

section \<open>Record checks\<close>

definition accountKeys :: "string list" where
  "accountKeys = [''accountId'', ''createdAt'', ''publicData'', ''status'', ''tenantId'', ''updatedAt'']"

definition bindingKeys :: "string list" where
  "bindingKeys = [''account'', ''session'', ''startedByActor'']"

definition challengeKeys :: "string list" where
  "challengeKeys = [''attempts'', ''binding'', ''challengeId'', ''consumedAt'', ''createdAt'',
     ''expiresAt'', ''lookup'', ''material'', ''maxAttempts'', ''methodId'', ''methodKind'', ''status'',
     ''tenantId'', ''updatedAt'', ''version'']"

definition credentialKeys :: "string list" where
  "credentialKeys = [''accountId'', ''createdAt'', ''credentialId'', ''identityId'', ''material'',
     ''methodId'', ''methodKind'', ''status'', ''tenantId'', ''updatedAt'', ''version'']"

definition identityKeys :: "string list" where
  "identityKeys = [''accountId'', ''createdAt'', ''display'', ''identityId'', ''methodId'',
     ''methodKind'', ''subject'', ''subjectKind'', ''tenantId'', ''updatedAt'', ''verifiedAt'']"

definition sessionKeys :: "string list" where
  "sessionKeys = [''accountId'', ''createdAt'', ''expiresAt'', ''issuedAt'', ''revokedAt'',
     ''sessionId'', ''status'', ''tenantId'', ''tokenHash'', ''updatedAt'']"

definition isDateOrder :: "jsv \<Rightarrow> jsv \<Rightarrow> bool" where
  "isDateOrder createdAt updatedAt =
     (isValidDate createdAt \<and> isValidDate updatedAt \<and> date_le createdAt updatedAt)"

definition isAccountRecord :: "jsv \<Rightarrow> bool" where
  "isAccountRecord v =
     (isRecord v \<and> hasOnlyKeys v accountKeys
      \<and> isNonEmptyString (fld v ''tenantId'')
      \<and> isNonEmptyString (fld v ''accountId'')
      \<and> fld v ''status'' \<in> {JStr ''active'', JStr ''disabled'', JStr ''deleted''}
      \<and> isDateOrder (fld v ''createdAt'') (fld v ''updatedAt'')
      \<and> isPublicData (fld v ''publicData''))"

definition isIdentityRecord :: "jsv \<Rightarrow> bool" where
  "isIdentityRecord v =
     (isRecord v \<and> hasOnlyKeys v identityKeys
      \<and> isNonEmptyString (fld v ''tenantId'')
      \<and> isNonEmptyString (fld v ''identityId'')
      \<and> isNonEmptyString (fld v ''accountId'')
      \<and> isStableMethodId (fld v ''methodId'')
      \<and> isNonEmptyString (fld v ''methodKind'')
      \<and> isNonEmptyString (fld v ''subject'')
      \<and> isNonEmptyString (fld v ''subjectKind'')
      \<and> (fld v ''display'' = JUndef \<or> isSafeText (fld v ''display'') 512 False)
      \<and> (fld v ''verifiedAt'' = JUndef \<or> isValidDate (fld v ''verifiedAt''))
      \<and> isDateOrder (fld v ''createdAt'') (fld v ''updatedAt''))"

definition isCredentialRecord :: "jsv \<Rightarrow> bool" where
  "isCredentialRecord v =
     (isRecord v \<and> hasOnlyKeys v credentialKeys
      \<and> isNonEmptyString (fld v ''tenantId'')
      \<and> isNonEmptyString (fld v ''credentialId'')
      \<and> isNonEmptyString (fld v ''accountId'')
      \<and> isNonEmptyString (fld v ''identityId'')
      \<and> isStableMethodId (fld v ''methodId'')
      \<and> isNonEmptyString (fld v ''methodKind'')
      \<and> fld v ''status'' \<in> {JStr ''active'', JStr ''disabled''}
      \<and> isMethodMaterial (fld v ''material'') \<and> fld v ''material'' \<noteq> JUndef
      \<and> isPositiveInteger (fld v ''version'')
      \<and> isDateOrder (fld v ''createdAt'') (fld v ''updatedAt''))"

definition isSessionRecord :: "jsv \<Rightarrow> bool" where
  "isSessionRecord v =
     (isRecord v \<and> hasOnlyKeys v sessionKeys
      \<and> isNonEmptyString (fld v ''tenantId'')
      \<and> isNonEmptyString (fld v ''sessionId'')
      \<and> isNonEmptyString (fld v ''accountId'')
      \<and> isProtectedValue (fld v ''tokenHash'')
      \<and> fld v ''status'' \<in> {JStr ''active'', JStr ''revoked'', JStr ''expired''}
      \<and> isValidDate (fld v ''issuedAt'')
      \<and> isValidDate (fld v ''expiresAt'')
      \<and> date_le (fld v ''issuedAt'') (fld v ''expiresAt'')
      \<and> (fld v ''revokedAt'' = JUndef \<or> isValidDate (fld v ''revokedAt''))
      \<and> isDateOrder (fld v ''createdAt'') (fld v ''updatedAt''))"

definition isAccountMode :: "jsv \<Rightarrow> bool" where
  "isAccountMode v =
     (isRecord v \<and> length (obj_keys v) = 1
      \<and> fld v ''mode'' \<in> {JStr ''create-new-account'', JStr ''require-existing-identity'',
          JStr ''create-account-if-identity-missing'', JStr ''link-to-actor-account''})"

definition isSessionRequest :: "jsv \<Rightarrow> bool" where
  "isSessionRequest v =
     (v = JUndef
      \<or> (isRecord v \<and> hasOnlyKeys v [''ttlSeconds'']
         \<and> (fld v ''ttlSeconds'' = JUndef \<or> isPositiveInteger (fld v ''ttlSeconds''))))"

definition isBindingActor :: "jsv \<Rightarrow> bool" where
  "isBindingActor v =
     (if v = JUndef then True
      else if \<not> isRecord v then False
      else if fld v ''type'' = JStr ''anonymous'' then length (obj_keys v) = 1
      else if fld v ''type'' = JStr ''account'' then
        hasOnlyKeys v [''accountId'', ''type''] \<and> length (obj_keys v) = 2
        \<and> isNonEmptyString (fld v ''accountId'')
      else fld v ''type'' = JStr ''system'' \<and> hasOnlyKeys v [''name'', ''type'']
        \<and> length (obj_keys v) = 2 \<and> isNonEmptyString (fld v ''name''))"

definition isChallengeBinding :: "jsv \<Rightarrow> bool" where
  "isChallengeBinding v =
     (isRecord v \<and> hasOnlyKeys v bindingKeys
      \<and> isAccountMode (fld v ''account'')
      \<and> isSessionRequest (fld v ''session'')
      \<and> isBindingActor (fld v ''startedByActor''))"

definition isChallengeRecord :: "jsv \<Rightarrow> bool" where
  "isChallengeRecord v =
     (isRecord v \<and> hasOnlyKeys v challengeKeys
      \<and> isNonEmptyString (fld v ''tenantId'')
      \<and> isNonEmptyString (fld v ''challengeId'')
      \<and> isStableMethodId (fld v ''methodId'')
      \<and> isNonEmptyString (fld v ''methodKind'')
      \<and> isIdentityLookup (fld v ''lookup'')
      \<and> fld v ''status'' \<in> {JStr ''pending'', JStr ''consumed'', JStr ''expired'', JStr ''failed''}
      \<and> isMethodMaterial (fld v ''material'') \<and> fld v ''material'' \<noteq> JUndef
      \<and> isChallengeBinding (fld v ''binding'')
      \<and> isNonNegativeInteger (fld v ''attempts'')
      \<and> isPositiveInteger (fld v ''maxAttempts'')
      \<and> num_val (fld v ''attempts'') \<le> num_val (fld v ''maxAttempts'')
      \<and> isPositiveInteger (fld v ''version'')
      \<and> isValidDate (fld v ''expiresAt'')
      \<and> (fld v ''consumedAt'' = JUndef \<or> isValidDate (fld v ''consumedAt''))
      \<and> isDateOrder (fld v ''createdAt'') (fld v ''updatedAt''))"

section \<open>Fingerprints\<close>

text \<open>
  The canonical form of a value; \<open>None\<close> when a secret refuses to reveal itself (a throw).
  Properties are sorted by name: \<open>localeCompare\<close> is the host's order of strings, here the
  order of code units. The list of names already seen makes the first binding of a name count.
\<close>

lemma size_prod_snd: "size_prod (\<lambda>x. 0) f = (\<lambda>p. Suc (f (snd p)))"
  by (auto simp: fun_eq_iff)

lemma size_map_of:
  "size (case map_of kvs k of None \<Rightarrow> JUndef | Some v \<Rightarrow> v)
     < Suc (size_list (\<lambda>p. Suc (size (snd p))) kvs)"
proof (cases "map_of kvs k")
  case None
  then show ?thesis by simp
next
  case (Some v)
  then have "(k, v) \<in> set kvs" by (rule map_of_SomeD)
  then have "size v \<le> size_list (\<lambda>p. Suc (size (snd p))) kvs"
    by (rule size_list_estimation') simp
  with Some show ?thesis by simp
qed

function (sequential) canonicalValue :: "jsv \<Rightarrow> jsv option"
  and canonicalList :: "jsv list \<Rightarrow> jsv list option"
  and canonicalFields :: "string list \<Rightarrow> (string \<times> jsv) list \<Rightarrow> (string \<times> jsv) list option" where
  "canonicalValue JUndef = Some (JArr [JStr ''undefined''])"
| "canonicalValue (JDate t) =
     Some (JArr [JStr ''date'', (case t of None \<Rightarrow> JNonFin | Some ms \<Rightarrow> JNum ms)])"
| "canonicalValue (JArr xs) = map_option JArr (canonicalList xs)"
| "canonicalValue (JObj p kvs) =
     (if fld (JObj p kvs) ''type'' = JStr ''protected-value''
         \<and> is_fun (fld (JObj p kvs) ''revealForPersistence'')
      then (case (canonicalValue (fld (JObj p kvs) ''createdAt''),
                  call_thunk (fld (JObj p kvs) ''revealForPersistence'')) of
              (Some createdAt, Some verifier) \<Rightarrow>
                Some (JArr [JStr ''protected-value'', fld (JObj p kvs) ''scheme'',
                  coalesce (fld (JObj p kvs) ''keyId'') (JStr ''''), createdAt, verifier])
            | _ \<Rightarrow> None)
      else if fld (JObj p kvs) ''type'' = JStr ''sealed-secret''
         \<and> is_fun (fld (JObj p kvs) ''revealCiphertextForPersistence'')
      then (case (canonicalValue (fld (JObj p kvs) ''expiresAt''),
                  call_thunk (fld (JObj p kvs) ''revealCiphertextForPersistence'')) of
              (Some expiresAt, Some ciphertext) \<Rightarrow>
                Some (JArr [JStr ''sealed-secret'', fld (JObj p kvs) ''algorithm'',
                  fld (JObj p kvs) ''keyId'', expiresAt, ciphertext])
            | _ \<Rightarrow> None)
      else map_option
             (\<lambda>entries. JArr (map (\<lambda>(k, x). JArr [JStr k, x]) (sort_key fst entries)))
             (canonicalFields [] kvs))"
| "canonicalValue v = Some v"
| "canonicalList [] = Some []"
| "canonicalList (x # xs) =
     (case canonicalValue x of None \<Rightarrow> None
      | Some y \<Rightarrow> map_option (\<lambda>ys. y # ys) (canonicalList xs))"
| "canonicalFields seen [] = Some []"
| "canonicalFields seen ((k, x) # kvs) =
     (if k \<in> set seen then canonicalFields seen kvs
      else if x = JUndef then canonicalFields (k # seen) kvs
      else case canonicalValue x of None \<Rightarrow> None
           | Some y \<Rightarrow> map_option (\<lambda>ys. (k, y) # ys) (canonicalFields (k # seen) kvs))"
  by pat_completeness auto
termination
  by (relation "measure (case_sum size (case_sum (size_list size)
        (\<lambda>(_, kvs). size_list (\<lambda>p. Suc (size (snd p))) kvs)))")
    (simp_all add: size_prod_snd size_map_of)

text \<open>

  \<open>JSON.stringify(canonicalValue(v))\<close>, compared only for equality: the tree of the text.
  \<open>None\<close> is a throw.
\<close>

definition fingerprint :: "jsv \<Rightarrow> jsv option" where
  "fingerprint v =
     (case canonicalValue v of None \<Rightarrow> None
      | Some c \<Rightarrow> Some (case json_tree c of None \<Rightarrow> JUndef | Some t \<Rightarrow> t))"

definition accountRecordFingerprint :: "jsv \<Rightarrow> jsv option" where
  "accountRecordFingerprint v = (if isAccountRecord v then fingerprint v else Some JUndef)"

definition identityRecordFingerprint :: "jsv \<Rightarrow> jsv option" where
  "identityRecordFingerprint v = (if isIdentityRecord v then fingerprint v else Some JUndef)"

definition credentialRecordFingerprint :: "jsv \<Rightarrow> jsv option" where
  "credentialRecordFingerprint v = (if isCredentialRecord v then fingerprint v else Some JUndef)"

definition challengeRecordFingerprint :: "jsv \<Rightarrow> jsv option" where
  "challengeRecordFingerprint v = (if isChallengeRecord v then fingerprint v else Some JUndef)"

section \<open>Results of challenge updates\<close>

definition isConsumePendingResult :: "jsv \<Rightarrow> bool" where
  "isConsumePendingResult v =
     (v \<in> {JStr ''already-consumed'', JStr ''attempts-exceeded'', JStr ''consumed'', JStr ''expired'',
        JStr ''version-conflict''})"

definition isRecordFailedAttemptResult :: "jsv \<Rightarrow> bool" where
  "isRecordFailedAttemptResult v =
     (if \<not> isRecord v then False
      else if fld v ''status'' = JStr ''version-conflict'' then hasOnlyKeys v [''status'']
      else fld v ''status'' \<in> {JStr ''recorded'', JStr ''attempts-exceeded'', JStr ''expired''}
        \<and> hasOnlyKeys v [''challenge'', ''status''] \<and> isChallengeRecord (fld v ''challenge''))"

definition same_time :: "jsv \<Rightarrow> jsv \<Rightarrow> bool" where
  "same_time a b = (isValidDate a \<and> isValidDate b \<and> date_ms a = date_ms b)"

definition same_opt_time :: "jsv \<Rightarrow> jsv \<Rightarrow> bool" where
  "same_opt_time a b = (nullish a \<and> nullish b \<or> same_time a b)"

definition same_fingerprint :: "jsv \<Rightarrow> jsv \<Rightarrow> bool" where
  "same_fingerprint a b = (fingerprint a \<noteq> None \<and> fingerprint a = fingerprint b)"

definition sameChallengePayload :: "jsv \<Rightarrow> jsv \<Rightarrow> bool" where
  "sameChallengePayload left right =
     (fld left ''tenantId'' = fld right ''tenantId''
      \<and> fld left ''challengeId'' = fld right ''challengeId''
      \<and> fld left ''methodId'' = fld right ''methodId''
      \<and> fld left ''methodKind'' = fld right ''methodKind''
      \<and> fld left ''maxAttempts'' = fld right ''maxAttempts''
      \<and> same_time (fld left ''expiresAt'') (fld right ''expiresAt'')
      \<and> same_time (fld left ''createdAt'') (fld right ''createdAt'')
      \<and> same_opt_time (fld left ''consumedAt'') (fld right ''consumedAt'')
      \<and> same_fingerprint (fld left ''lookup'') (fld right ''lookup'')
      \<and> same_fingerprint (fld left ''material'') (fld right ''material'')
      \<and> same_fingerprint (fld left ''binding'') (fld right ''binding''))"

definition isRecordFailedAttemptTransition :: "jsv \<Rightarrow> jsv \<Rightarrow> jsv \<Rightarrow> bool" where
  "isRecordFailedAttemptTransition previous v now =
     (if \<not> isRecordFailedAttemptResult v then False
      else if fld v ''status'' = JStr ''version-conflict'' then True
      else let current = fld v ''challenge'' in
        if \<not> sameChallengePayload previous current
           \<or> date_ms (fld current ''updatedAt'') \<noteq> date_ms now then False
        else if fld v ''status'' = JStr ''recorded'' then
          fld current ''status'' = JStr ''pending''
          \<and> num_val (fld current ''attempts'') = num_val (fld previous ''attempts'') + 1
          \<and> num_val (fld current ''attempts'') < num_val (fld current ''maxAttempts'')
          \<and> num_val (fld current ''version'') = num_val (fld previous ''version'') + 1
        else if fld v ''status'' = JStr ''attempts-exceeded'' then
          fld current ''status'' = JStr ''failed''
          \<and> num_val (fld current ''attempts'') = num_val (fld previous ''attempts'') + 1
          \<and> num_val (fld current ''attempts'') = num_val (fld current ''maxAttempts'')
          \<and> num_val (fld current ''version'') = num_val (fld previous ''version'') + 1
        else
          fld current ''status'' = JStr ''expired''
          \<and> date_le (fld previous ''expiresAt'') now
          \<and> num_val (fld current ''attempts'') = num_val (fld previous ''attempts'')
          \<and> num_val (fld current ''version'') = num_val (fld previous ''version'') + 1)"

section \<open>What equal fingerprints mean\<close>

lemma canonicalFields_map_of:
  "canonicalFields seen kvs = Some es \<Longrightarrow>
     distinct (map fst es) \<and> fst ` set es \<inter> set seen = {}
     \<and> (k \<notin> set seen \<longrightarrow> map_of es k =
          (case map_of kvs k of None \<Rightarrow> None
           | Some x \<Rightarrow> if x = JUndef then None else canonicalValue x))"
proof (induction kvs arbitrary: seen es)
  case Nil
  then show ?case by simp
next
  case (Cons p kvs)
  obtain j x where p: "p = (j, x)" by (cases p)
  show ?case
  proof (cases "j \<in> set seen")
    case True
    with Cons.prems p have "canonicalFields seen kvs = Some es" by simp
    from Cons.IH [OF this] True p show ?thesis by auto
  next
    case seen: False
    show ?thesis
    proof (cases "x = JUndef")
      case True
      with Cons.prems p seen have "canonicalFields (j # seen) kvs = Some es" by simp
      from Cons.IH [OF this] True p seen show ?thesis
        by (auto simp: map_of_eq_None_iff)
    next
      case False
      with Cons.prems p seen obtain y ys where y: "canonicalValue x = Some y"
        and ys: "canonicalFields (j # seen) kvs = Some ys" and es: "es = (j, y) # ys"
        by (auto split: option.splits)
      from Cons.IH [OF ys] False p seen y es show ?thesis by auto
    qed
  qed
qed

definition json_or_null :: "jsv \<Rightarrow> jsv" where
  "json_or_null c = (case json_tree c of None \<Rightarrow> JNull | Some t \<Rightarrow> t)"

lemma json_list_entries:
  "json_list (map (\<lambda>(k, x). JArr [JStr k, x]) es)
     = map (\<lambda>(k, x). JArr [JStr k, json_or_null x]) es"
  by (induction es) (auto simp: json_or_null_def split: option.splits)

lemma map_entries_inj:
  assumes "map (\<lambda>(k, x). JArr [JStr k, f x]) es = map (\<lambda>(k, x). JArr [JStr k, f x]) fs"
  shows "map_option f (map_of es k) = map_option f (map_of fs k)"
  using assms
proof (induction es arbitrary: fs)
  case (Cons e es)
  then show ?case by (cases fs) (auto split: prod.splits)
qed simp

lemma map_of_sort_key:
  assumes "distinct (map fst es)"
  shows "map_of (sort_key fst es) = map_of es"
  using assms by (subst map_of_inject_set) (simp_all add: distinct_map)

definition field_print :: "jsv \<Rightarrow> jsv option" where
  "field_print x = (if x = JUndef then None else map_option json_or_null (canonicalValue x))"

text \<open>A record without a \<open>type\<close> tag is fingerprinted property by property.\<close>

definition untagged :: "jsv \<Rightarrow> bool" where
  "untagged v = (\<exists>p kvs. v = JObj p kvs \<and> fld v ''type'' = JUndef)"

lemma fingerprint_untagged:
  assumes "fingerprint (JObj p kvs) = Some t" and "fld (JObj p kvs) ''type'' = JUndef"
  obtains es where "t = JArr (map (\<lambda>(k, x). JArr [JStr k, json_or_null x]) es)"
    and "\<And>k. map_option json_or_null (map_of es k) = field_print (fld (JObj p kvs) k)"
proof -
  from assms obtain fs where fs: "canonicalFields [] kvs = Some fs"
    and t: "t = JArr (map (\<lambda>(k, x). JArr [JStr k, json_or_null x]) (sort_key fst fs))"
    by (auto simp: fingerprint_def json_list_entries simp del: fld_obj fld.simps
        split: option.splits)
  have "distinct (map fst fs)" using canonicalFields_map_of [OF fs] by blast
  then have "map_of (sort_key fst fs) = map_of fs" by (rule map_of_sort_key)
  with canonicalFields_map_of [OF fs]
  have "map_option json_or_null (map_of (sort_key fst fs) k) = field_print (fld (JObj p kvs) k)" for k
    by (auto simp: field_print_def split: option.splits)
  with t show ?thesis by (rule that)
qed

lemma fingerprint_field_print:
  assumes "fingerprint v = Some t" and "fingerprint w = Some t" and "untagged v" and "untagged w"
  shows "field_print (fld v k) = field_print (fld w k)"
proof -
  from assms obtain p kvs q lvs where v: "v = JObj p kvs" and w: "w = JObj q lvs"
    and tv: "fld (JObj p kvs) ''type'' = JUndef" and tw: "fld (JObj q lvs) ''type'' = JUndef"
    by (auto simp: untagged_def simp del: fld_obj fld.simps)
  obtain es where es: "t = JArr (map (\<lambda>(k, x). JArr [JStr k, json_or_null x]) es)"
    "\<And>k. map_option json_or_null (map_of es k) = field_print (fld (JObj p kvs) k)"
    using fingerprint_untagged [OF assms(1) [unfolded v] tv] by blast
  obtain fs where fs: "t = JArr (map (\<lambda>(k, x). JArr [JStr k, json_or_null x]) fs)"
    "\<And>k. map_option json_or_null (map_of fs k) = field_print (fld (JObj q lvs) k)"
    using fingerprint_untagged [OF assms(2) [unfolded w] tw] by blast
  from es(1) fs(1) have "map_option json_or_null (map_of es k) = map_option json_or_null (map_of fs k)"
    by (intro map_entries_inj) simp
  with es(2) fs(2) v w show ?thesis by simp
qed

text \<open>The scalar fields of a record are determined by their print.\<close>

definition scalar :: "jsv \<Rightarrow> bool" where
  "scalar v = (v = JUndef \<or> is_str v \<or> is_safe_integer v \<or> isValidDate v)"

lemma field_print_inj:
  assumes "field_print v = field_print w" and "scalar v" and "scalar w"
  shows "v = w"
  using assms
  by (cases v; cases w)
    (auto simp: field_print_def scalar_def json_or_null_def isValidDate_iff)

lemma fingerprint_scalar:
  assumes "fingerprint v = fingerprint w" and "fingerprint v \<noteq> None"
    and "untagged v" and "untagged w" and "scalar (fld v k)" and "scalar (fld w k)"
  shows "fld v k = fld w k"
  using assms fingerprint_field_print [of v _ w] by (metis field_print_inj not_Some_eq)

lemma untagged_record:
  assumes "hasOnlyKeys v ks" and "''type'' \<notin> set ks" and "fld v k \<noteq> JUndef"
  shows "untagged v"
proof (cases v)
  case (JObj p kvs)
  have "map_of kvs ''type'' = None"
    using assms(1,2) JObj by (auto simp: hasOnlyKeys_def list_all_iff map_of_eq_None_iff)
  with JObj show ?thesis by (simp add: untagged_def)
qed (use assms(3) in auto)

lemma isAccountRecord_untagged: "isAccountRecord v \<Longrightarrow> untagged v"
  by (rule untagged_record [of v accountKeys "''tenantId''"])
    (auto simp: isAccountRecord_def accountKeys_def isNonEmptyString_iff)

lemma isChallengeRecord_untagged: "isChallengeRecord v \<Longrightarrow> untagged v"
  by (rule untagged_record [of v challengeKeys "''tenantId''"])
    (auto simp: isChallengeRecord_def challengeKeys_def isNonEmptyString_iff)

lemma isCredentialRecord_untagged: "isCredentialRecord v \<Longrightarrow> untagged v"
  by (rule untagged_record [of v credentialKeys "''tenantId''"])
    (auto simp: isCredentialRecord_def credentialKeys_def isNonEmptyString_iff)

lemma isIdentityRecord_untagged: "isIdentityRecord v \<Longrightarrow> untagged v"
  by (rule untagged_record [of v identityKeys "''tenantId''"])
    (auto simp: isIdentityRecord_def identityKeys_def isNonEmptyString_iff)

text \<open>
  The comparison core makes of a stored record with the record it asked for: when the
  fingerprints agree, the answer is a record too, with the same scalar fields.
\<close>

lemma fingerprint_untagged_JArr:
  assumes "fingerprint v = Some f" and "untagged v"
  shows "\<exists>xs. f = JArr xs"
proof -
  from assms(2) obtain p kvs where v: "v = JObj p kvs" and "fld (JObj p kvs) ''type'' = JUndef"
    by (auto simp: untagged_def simp del: fld.simps fld_obj)
  with fingerprint_untagged [of p kvs f] assms(1) show ?thesis by blast
qed

lemma recordFingerprint_fields:
  assumes "(if R v then fingerprint v else Some JUndef) = Some f"
    and "(if R w then fingerprint w else Some JUndef) = Some f"
    and "R w" and untag: "\<And>x. R x \<Longrightarrow> untagged x"
  shows "R v" and "(\<And>x. R x \<Longrightarrow> scalar (fld x k)) \<Longrightarrow> fld v k = fld w k"
proof -
  from assms have fw: "fingerprint w = Some f" by simp
  with fingerprint_untagged_JArr [OF fw untag] assms(3) have "f \<noteq> JUndef" by auto
  with assms(1) show v: "R v" by (auto split: if_splits)
  with assms(1) have fv: "fingerprint v = Some f" by simp
  show "fld v k = fld w k" if "\<And>x. R x \<Longrightarrow> scalar (fld x k)"
    by (rule fingerprint_scalar) (use fv fw v assms(3) untag that in auto)
qed

lemma scalar_simps [simp]: "scalar JUndef" "scalar (JStr s)"
  by (simp_all add: scalar_def)

lemma isNonEmptyString_scalar: "isNonEmptyString v \<Longrightarrow> scalar v"
  by (auto simp: isNonEmptyString_iff)

lemma isStableMethodId_scalar: "isStableMethodId v \<Longrightarrow> scalar v"
  by (cases v) auto

lemma isPositiveInteger_scalar: "isPositiveInteger v \<Longrightarrow> scalar v"
  by (auto simp: isPositiveInteger_def scalar_def)

lemma isNonNegativeInteger_scalar: "isNonNegativeInteger v \<Longrightarrow> scalar v"
  by (auto simp: isNonNegativeInteger_def scalar_def)

lemma isValidDate_scalar: "isValidDate v \<Longrightarrow> scalar v"
  by (simp add: scalar_def)

lemmas scalar_fields = isNonEmptyString_scalar isStableMethodId_scalar isPositiveInteger_scalar
  isNonNegativeInteger_scalar isValidDate_scalar

lemma isAccountRecord_scalar:
  "isAccountRecord v \<Longrightarrow> k \<in> {''tenantId'', ''accountId'', ''status''} \<Longrightarrow> scalar (fld v k)"
  unfolding isAccountRecord_def by (auto intro: scalar_fields simp del: fld.simps fld_obj)

lemma isIdentityRecord_scalar:
  "isIdentityRecord v \<Longrightarrow>
     k \<in> {''tenantId'', ''identityId'', ''accountId'', ''methodId'', ''methodKind'', ''subject'', ''subjectKind''}
     \<Longrightarrow> scalar (fld v k)"
  unfolding isIdentityRecord_def by (auto intro: scalar_fields simp del: fld.simps fld_obj)

lemma isCredentialRecord_scalar:
  "isCredentialRecord v \<Longrightarrow>
     k \<in> {''tenantId'', ''credentialId'', ''identityId'', ''accountId'', ''methodId'', ''methodKind'', ''status'', ''version''}
     \<Longrightarrow> scalar (fld v k)"
  unfolding isCredentialRecord_def by (auto intro: scalar_fields simp del: fld.simps fld_obj)

lemma isChallengeRecord_scalar:
  "isChallengeRecord v \<Longrightarrow>
     k \<in> {''tenantId'', ''challengeId'', ''methodId'', ''methodKind'', ''status'', ''attempts'', ''maxAttempts'',
          ''version'', ''expiresAt''}
     \<Longrightarrow> scalar (fld v k)"
  unfolding isChallengeRecord_def by (auto intro: scalar_fields simp del: fld.simps fld_obj)


end
