(* ===== verification/AuthErrors.thy ===== *)
theory AuthErrors
  imports StoreValidation JsMonad
begin

text \<open>
  \<open>packages/core/src/shared/errors.ts\<close>, \<open>shared/context.ts\<close> and \<open>views/records.ts\<close>: the failures
  every operation of core returns, how internal reasons become public codes, the context that
  decision makers see, and the public views of the stored records.
\<close>

section \<open>Failures\<close>

text \<open>
  \<open>Result<T, AuthFailure>\<close>: \<open>Inl\<close> a failure, \<open>Inr\<close> a value. A failure has a fixed \<open>type\<close> and
  a fixed public message; \<open>requestId\<close> and \<open>retryAfterSeconds\<close> are copied from the caller.
\<close>

record authFailure =
  internalReason :: string
  publicCode :: string
  requestId :: jsv
  retryAfterSeconds :: jsv

type_synonym 'a res = "authFailure + 'a"

definition mapReason :: "string \<Rightarrow> string" where
  "mapReason reason =
     (if reason \<in> {''VALIDATION_FAILED'', ''SESSION_TTL_INVALID''} then ''INVALID_INPUT''
      else if reason \<in> {''IDENTITY_CONFLICT'', ''CREDENTIAL_CONFLICT''} then ''CONFLICT''
      else if reason \<in> {''ACCOUNT_DISABLED'', ''ACCOUNT_DELETED'', ''ACCOUNT_UNAVAILABLE''}
        then ''ACCOUNT_UNAVAILABLE''
      else if reason \<in> {''CHALLENGE_NOT_FOUND'', ''CHALLENGE_EXPIRED'', ''CHALLENGE_ALREADY_CONSUMED'',
        ''CHALLENGE_ATTEMPTS_EXCEEDED'', ''OTP_MISMATCH''} then ''CHALLENGE_FAILED''
      else if reason \<in> {''SESSION_NOT_FOUND'', ''SESSION_EXPIRED'', ''SESSION_REVOKED'', ''TOKEN_INVALID'',
        ''TOKEN_EXPIRED'', ''TOKEN_TENANT_MISMATCH'', ''TOKEN_HASH_NOT_FOUND''} then ''SESSION_INVALID''
      else if reason \<in> {''RATE_LIMITED'', ''LOCKED''} then ''RATE_LIMITED''
      else if reason \<in> {''POLICY_DENIED'', ''ACCOUNT_LINKING_DENIED''} then ''AUTHORIZATION_FAILED''
      else if reason \<in> {''STORE_UNAVAILABLE'', ''DELIVERY_FAILED'', ''SIDE_EFFECT_FAILED'',
        ''EVENT_SINK_FAILED''} then ''TEMPORARILY_UNAVAILABLE''
      else if reason \<in> {''PASSWORD_MISMATCH'', ''CREDENTIAL_NOT_FOUND'', ''IDENTITY_NOT_FOUND'',
        ''AUTHENTICATION_FAILED''} then ''AUTHENTICATION_FAILED''
      else ''INTERNAL'')"

fun normalizeInternalReason :: "jsv \<Rightarrow> string \<Rightarrow> string" where
  "normalizeInternalReason (JStr s) fallback =
     (if 0 < length s \<and> length s \<le> 512 \<and> no_control s then s else fallback)"
| "normalizeInternalReason _ fallback = fallback"

definition authErr :: "jsv \<Rightarrow> string \<Rightarrow> string option \<Rightarrow> jsv \<Rightarrow> authFailure" where
  "authErr context reason0 code retry =
     (let reason = normalizeInternalReason (JStr reason0) ''INTERNAL'' in
      \<lparr>internalReason = reason,
       publicCode = (case code of None \<Rightarrow> mapReason reason | Some c \<Rightarrow> c),
       requestId = fld context ''requestId'',
       retryAfterSeconds = retry\<rparr>)"

definition isStoreFailure :: "jsv \<Rightarrow> bool" where
  "isStoreFailure v =
     (isRecord v
      \<and> hasOnlyKeys v [''component'', ''details'', ''reason'', ''type'']
      \<and> fld v ''type'' = JStr ''component.failure''
      \<and> fld v ''component'' = JStr ''store''
      \<and> normalizeInternalReason (fld v ''reason'') '''' \<noteq> ''''
      \<and> (fld v ''details'' = JUndef \<or> isPublicData (fld v ''details'')))"

definition storeFailure :: "jsv \<Rightarrow> jsv \<Rightarrow> authFailure" where
  "storeFailure context failure =
     (let reason = if isStoreFailure failure
                   then normalizeInternalReason (fld failure ''reason'') ''STORE_UNAVAILABLE''
                   else ''STORE_UNAVAILABLE''
      in authErr context reason (Some (mapReason reason)) JUndef)"

text \<open>The failure as the value the transaction runner sees.\<close>

definition authFailure_js :: "authFailure \<Rightarrow> jsv" where
  "authFailure_js f =
     obj [(''type'', JStr ''auth.failure''),
          (''internalReason'', JStr (internalReason f)),
          (''publicError'', obj [
             (''code'', JStr (publicCode f)),
             (''message'', JStr ''Authentication request failed.''),
             (''requestId'', requestId f),
             (''retryAfterSeconds'', retryAfterSeconds f)])]"

text \<open>\<open>catchBoundary\<close>: a throw inside an operation becomes an \<open>INTERNAL\<close> failure.\<close>

definition catchBoundary :: "jsv \<Rightarrow> ('s, 'a res) M \<Rightarrow> ('s, 'a res) M" where
  "catchBoundary context fn =
     catchM fn (ret (Inl (authErr context ''INTERNAL'' (Some ''INTERNAL'') JUndef)))"

section \<open>Contexts and views\<close>

text \<open>\<open>None\<close> when \<open>structuredClone\<close> throws.\<close>

definition clone_if_truthy :: "jsv \<Rightarrow> jsv option" where
  "clone_if_truthy v = (if truthy v then structuredClone v else Some JUndef)"

definition decisionAuthContext :: "jsv \<Rightarrow> jsv option" where
  "decisionAuthContext context =
     (case (clone_if_truthy (fld context ''actor''), clone_if_truthy (fld context ''policyInput'')) of
        (Some actor, Some policyInput) \<Rightarrow>
          Some (obj [
            (''tenantId'', fld context ''tenantId''),
            (''requestId'', fld context ''requestId''),
            (''actor'', actor),
            (''ip'', fld context ''ip''),
            (''userAgent'', fld context ''userAgent''),
            (''locale'', fld context ''locale''),
            (''policyInput'', policyInput)])
      | _ \<Rightarrow> None)"

text \<open>\<open>new Date(d.getTime())\<close> of a valid date is the date; guarded reads test truthiness.\<close>

definition copy_date_opt :: "jsv \<Rightarrow> jsv" where
  "copy_date_opt v = (if truthy v then v else JUndef)"

definition toAccountView :: "jsv \<Rightarrow> jsv option" where
  "toAccountView r =
     map_option (\<lambda>publicData. obj [
       (''tenantId'', fld r ''tenantId''),
       (''accountId'', fld r ''accountId''),
       (''status'', fld r ''status''),
       (''publicData'', publicData)])
     (clone_if_truthy (fld r ''publicData''))"

definition toIdentityView :: "jsv \<Rightarrow> jsv" where
  "toIdentityView r = obj [
     (''tenantId'', fld r ''tenantId''),
     (''identityId'', fld r ''identityId''),
     (''accountId'', fld r ''accountId''),
     (''methodId'', fld r ''methodId''),
     (''methodKind'', fld r ''methodKind''),
     (''subject'', fld r ''subject''),
     (''subjectKind'', fld r ''subjectKind''),
     (''display'', fld r ''display''),
     (''verifiedAt'', copy_date_opt (fld r ''verifiedAt''))]"

definition toCredentialView :: "jsv \<Rightarrow> jsv" where
  "toCredentialView r = obj [
     (''tenantId'', fld r ''tenantId''),
     (''credentialId'', fld r ''credentialId''),
     (''accountId'', fld r ''accountId''),
     (''identityId'', fld r ''identityId''),
     (''methodId'', fld r ''methodId''),
     (''methodKind'', fld r ''methodKind''),
     (''status'', fld r ''status'')]"

definition toSessionView :: "jsv \<Rightarrow> jsv" where
  "toSessionView r = obj [
     (''tenantId'', fld r ''tenantId''),
     (''sessionId'', fld r ''sessionId''),
     (''accountId'', fld r ''accountId''),
     (''status'', fld r ''status''),
     (''issuedAt'', fld r ''issuedAt''),
     (''expiresAt'', fld r ''expiresAt''),
     (''revokedAt'', copy_date_opt (fld r ''revokedAt''))]"

section \<open>Lemmas\<close>

definition publicCodes :: "string list" where
  "publicCodes = [''ACCOUNT_UNAVAILABLE'', ''AUTHENTICATION_FAILED'', ''AUTHORIZATION_FAILED'',
     ''CHALLENGE_FAILED'', ''CONFLICT'', ''INTERNAL'', ''INVALID_INPUT'', ''RATE_LIMITED'',
     ''SESSION_INVALID'', ''TEMPORARILY_UNAVAILABLE'']"

lemma mapReason_public: "mapReason r \<in> set publicCodes"
  by (simp add: mapReason_def publicCodes_def)

definition safe_reason :: "string \<Rightarrow> bool" where
  "safe_reason s = (0 < length s \<and> length s \<le> 512 \<and> no_control s)"

lemma normalizeInternalReason_safe:
  "safe_reason fallback \<Longrightarrow> safe_reason (normalizeInternalReason v fallback)"
  by (cases v) (auto simp: safe_reason_def)

lemma normalizeInternalReason_idem [simp]:
  "normalizeInternalReason (JStr (normalizeInternalReason v ''INTERNAL'')) ''INTERNAL''
     = normalizeInternalReason v ''INTERNAL''"
  by (cases v) auto

lemma safe_reason_INTERNAL [simp]: "safe_reason ''INTERNAL''"
  by code_simp

lemma internalReason_authErr [simp]:
  "internalReason (authErr c r p t) = normalizeInternalReason (JStr r) ''INTERNAL''"
  by (simp add: authErr_def Let_def)

lemma publicCode_authErr_Some [simp]: "publicCode (authErr c r (Some p) t) = p"
  by (simp add: authErr_def Let_def)

lemma authErr_safe: "safe_reason (internalReason (authErr c r p t))"
  by (simp add: normalizeInternalReason_safe del: normalizeInternalReason.simps)

lemma storeFailure_safe:
  "safe_reason (internalReason (storeFailure c v)) \<and> publicCode (storeFailure c v) \<in> set publicCodes"
  by (auto simp: storeFailure_def Let_def mapReason_public normalizeInternalReason_safe
      simp del: normalizeInternalReason.simps)

lemma nothrow_catchBoundary [nothrow_rules]: "nothrow (catchBoundary c m)"
  unfolding catchBoundary_def by (intro nothrow_rules)

lemma catchBoundary_Inr:
  assumes "catchBoundary c m s = (Ret (Inr a), t)"
  shows "m s = (Ret (Inr a), t)"
  using assms by (auto simp: catchBoundary_def elim!: catchM_RetE)

lemma wp_catchBoundary [wp_rules]:
  "wp (catchBoundary c m) Q E s
     = wp m Q (Q (Inl (authErr c ''INTERNAL'' (Some ''INTERNAL'') JUndef))) s"
  by (simp add: catchBoundary_def wp_catch wp_ret_eq)

end
