(* ===== verification/Ports.thy ===== *)
theory Ports
  imports AuthErrors
begin

text \<open>
  The collaborators of core (\<open>CreateAuthConfig\<close> of \<open>packages/contracts/src/core.d.ts\<close>) as one
  function of the model's parameters, the state core runs in, and the small modules that only
  wrap one collaborator: \<open>shared/time.ts\<close>, \<open>shared/id.ts\<close>, \<open>events/emit.ts\<close> and
  \<open>policy/check.ts\<close>.

  A collaborator is called with values and answers with an arbitrary value or throws; it may
  change the world arbitrarily, which also accounts for everything that other requests do
  between two steps of this one. Every call is recorded, so that theorems can speak of which
  collaborators were asked, in which order, and what they answered.
\<close>

datatype port =
    ClockNow | IdGenerate | PolicyDecide | GuardBefore | GuardAfter | EventEmit | EffectsDispatch
  | TokenIssue | TokenIdentify
  | AccountsCreate | AccountsFindById
  | IdentitiesCreate | IdentitiesFindBySubject | IdentitiesMarkVerified
  | CredentialsCreate | CredentialsFindForIdentity | CredentialsReplaceMaterial
  | SessionsCreate | SessionsFindById | SessionsFindByTokenHash | SessionsRevoke
  | ChallengesCreate | ChallengesFindById | ChallengesRecordFailedAttempt | ChallengesConsumePending
  | MethodValidate string string | MethodRun string string

datatype event = Call port "jsv list" "jsv outcome"

record 'w st =
  world :: 'w
  trace :: "event list"

text \<open>
  What a transaction runner does with the callback it is given: it calls it with a transaction
  value, in a world of its making, any number of times, and ends with a value or a throw.
\<close>

datatype 'w txprog =
    TxDone "jsv outcome" 'w
  | TxCall jsv 'w "jsv outcome \<Rightarrow> 'w \<Rightarrow> 'w txprog"

text \<open>\<open>config.methods\<close>: a configured method and the operations it defines.\<close>

record methodConfig =
  methodId :: jsv
  methodKind :: jsv
  operations :: "string list"

record 'w cfg =
  call :: "port \<Rightarrow> jsv list \<Rightarrow> 'w \<Rightarrow> jsv outcome \<times> 'w"
  txRun :: "(jsv \<Rightarrow> 'w \<Rightarrow> 'w txprog) option"
  hasPolicy :: bool
  hasGuard :: bool
  hasAfterAttempt :: bool
  hasEventSink :: bool
  hasEffects :: bool
  hasChallenges :: bool
  transactionScopes :: jsv
  methods :: "(string \<times> methodConfig) list"
  defaultTtlSeconds :: jsv
  maxTtlSeconds :: jsv

type_synonym ('w, 'a) auth = "('w st, 'a) M"

definition callPort :: "'w cfg \<Rightarrow> port \<Rightarrow> jsv list \<Rightarrow> ('w, jsv) auth" where
  "callPort c p args =
     (\<lambda>s. case call c p args (world s) of
        (r, w) \<Rightarrow> (r, s\<lparr>world := w, trace := trace s @ [Call p args r]\<rparr>))"

text \<open>\<open>const r = ...; if (!r.ok) return r\<close>\<close>

definition bindR :: "('s, 'a res) M \<Rightarrow> ('a \<Rightarrow> ('s, 'b res) M) \<Rightarrow> ('s, 'b res) M" where
  "bindR m f = bindM m (\<lambda>r. case r of Inl e \<Rightarrow> ret (Inl e) | Inr a \<Rightarrow> f a)"

abbreviation okR :: "'a \<Rightarrow> ('s, 'a res) M" where
  "okR a \<equiv> ret (Inr a)"

definition errR :: "jsv \<Rightarrow> string \<Rightarrow> string option \<Rightarrow> ('s, 'a res) M" where
  "errR context reason code = ret (Inl (authErr context reason code JUndef))"

text \<open>Reading a property of a value the code did not check: \<open>null\<close> and \<open>undefined\<close> throw.\<close>

definition readProp :: "jsv \<Rightarrow> string \<Rightarrow> ('s, jsv) M" where
  "readProp v k = (if nullish v then throwM else ret (fld v k))"

text \<open>The result of a store call: \<open>Inl\<close> its \<open>error\<close> when \<open>ok\<close> is falsy, \<open>Inr\<close> its \<open>value\<close>.\<close>

definition storeCall :: "'w cfg \<Rightarrow> port \<Rightarrow> jsv list \<Rightarrow> ('w, jsv + jsv) auth" where
  "storeCall c p args =
     bindM (callPort c p args) (\<lambda>r.
     bindM (readProp r ''ok'') (\<lambda>ok.
     ret (if truthy ok then Inr (fld r ''value'') else Inl (fld r ''error''))))"

text \<open>\<open>if (!r.ok) return storeFailure(context, r.error)\<close>\<close>

definition storeR :: "jsv \<Rightarrow> 'w cfg \<Rightarrow> port \<Rightarrow> jsv list \<Rightarrow> ('w, jsv res) auth" where
  "storeR context c p args =
     bindM (storeCall c p args) (\<lambda>r. ret (case r of
        Inl e \<Rightarrow> Inl (storeFailure context e) | Inr v \<Rightarrow> Inr v))"

section \<open>Clock, identifiers, events\<close>

definition readNow :: "'w cfg \<Rightarrow> ('w, jsv option) auth" where
  "readNow c =
     bindM (attemptM (callPort c ClockNow [])) (\<lambda>r. ret (case r of
        Some v \<Rightarrow> if isValidDate v then Some v else None
      | None \<Rightarrow> None))"

definition generateCoreId :: "'w cfg \<Rightarrow> string \<Rightarrow> jsv \<Rightarrow> jsv \<Rightarrow> ('w, jsv option) auth" where
  "generateCoreId c kind tenantId now =
     (if \<not> isValidDate now then ret None
      else bindM (attemptM (callPort c IdGenerate
             [obj [(''kind'', JStr kind), (''tenantId'', tenantId), (''now'', now)]]))
           (\<lambda>r. ret (case r of
              Some v \<Rightarrow> if isNonEmptyString v then Some v else None
            | None \<Rightarrow> None)))"

text \<open>\<open>occurredAt = None\<close> stands for the omitted argument.\<close>

definition emitEvent :: "'w cfg \<Rightarrow> jsv \<Rightarrow> (string \<times> jsv) list \<Rightarrow> jsv option \<Rightarrow> ('w, unit) auth" where
  "emitEvent c context event occurredAt =
     (if \<not> hasEventSink c then ret ()
      else bindM (case occurredAt of
                    None \<Rightarrow> readNow c
                  | Some t \<Rightarrow> ret (if isValidDate t then Some t else None))
           (\<lambda>eventTime. case eventTime of
              None \<Rightarrow> ret ()
            | Some t \<Rightarrow>
                bindM (attemptM (callPort c EventEmit
                  [spread (obj event)
                     [(''tenantId'', fld context ''tenantId''),
                      (''requestId'', fld context ''requestId''),
                      (''occurredAt'', t)]]))
                (\<lambda>_. ret ())))"

section \<open>Policy\<close>

definition policyReasons :: "jsv list" where
  "policyReasons = [JStr ''ACCOUNT_LINKING_DENIED'', JStr ''ACCOUNT_RESOLUTION_DENIED'',
     JStr ''METHOD_DISABLED'', JStr ''POLICY_DENIED'', JStr ''SESSION_CREATION_DENIED'',
     JStr ''TENANT_DISABLED'']"

definition isPublicCode :: "jsv \<Rightarrow> bool" where
  "isPublicCode v = (v \<in> JStr ` set publicCodes)"

definition isPolicyDecision :: "jsv \<Rightarrow> bool" where
  "isPolicyDecision v =
     (if \<not> isRecord v then False
      else if fld v ''allow'' = JBool True then hasOnlyKeys v [''allow'']
      else fld v ''allow'' = JBool False
        \<and> hasOnlyKeys v [''allow'', ''publicCodeHint'', ''reason'']
        \<and> fld v ''reason'' \<in> set policyReasons
        \<and> (fld v ''publicCodeHint'' = JUndef \<or> isPublicCode (fld v ''publicCodeHint'')))"

text \<open>\<open>hint ?? fallback\<close> for a hint that is absent or a public code; the text of a string.\<close>

fun str_or :: "jsv \<Rightarrow> string \<Rightarrow> string" where
  "str_or (JStr s) _ = s"
| "str_or _ d = d"

text \<open>\<open>check\<close> is the policy question as an object; its \<open>context\<close> is replaced by the view of it
  that decision makers get.\<close>

definition policyInput :: "jsv \<Rightarrow> jsv option" where
  "policyInput check =
     (case (structuredClone check, decisionAuthContext (fld check ''context'')) of
        (Some cl, Some ctx) \<Rightarrow> Some (spread cl [(''context'', ctx)])
      | _ \<Rightarrow> None)"

definition policy :: "'w cfg \<Rightarrow> jsv \<Rightarrow> ('w, unit res) auth" where
  "policy c check =
     (if \<not> hasPolicy c then okR ()
      else bindM (attemptM (bindM (liftO (policyInput check)) (\<lambda>i. callPort c PolicyDecide [i])))
        (\<lambda>decision. case decision of
           None \<Rightarrow> errR (fld check ''context'') ''INTERNAL'' (Some ''TEMPORARILY_UNAVAILABLE'')
         | Some d \<Rightarrow>
             if \<not> isPolicyDecision d
             then errR (fld check ''context'') ''INTERNAL'' (Some ''TEMPORARILY_UNAVAILABLE'')
             else if truthy (fld d ''allow'') then okR ()
             else errR (fld check ''context'') (str_or (fld d ''reason'') '''')
                    (Some (str_or (fld d ''publicCodeHint'') ''AUTHORIZATION_FAILED''))))"

section \<open>Rules of the composition operators\<close>

lemma bindR_InrE:
  assumes "bindR m f s = (Ret (Inr b), t)"
  obtains a u where "m s = (Ret (Inr a), u)" and "f a u = (Ret (Inr b), t)"
  using assms unfolding bindR_def
  by (elim bindM_RetE) (auto split: sum.splits)

lemma wp_bindR [wp_rules]:
  "wp (bindR m f) Q E s
     = wp m (\<lambda>r. case r of Inl e \<Rightarrow> Q (Inl e) | Inr a \<Rightarrow> wp (f a) Q E) E s"
  by (auto simp: bindR_def wp_def bindM_def split: prod.splits outcome.splits sum.splits)

lemma wp_errR [wp_rules]: "wp (errR c r p) Q E s = Q (Inl (authErr c r p JUndef)) s"
  by (simp add: errR_def wp_rules)

lemma errR_not_Inr [simp]: "errR c r p s = (Ret (Inr a), t) \<longleftrightarrow> False"
  by (simp add: errR_def)

section \<open>Which collaborators a computation calls\<close>

fun event_port :: "event \<Rightarrow> port" where
  "event_port (Call p args r) = p"

text \<open>The calls made between two states, when the second follows the first.\<close>

definition follows :: "'w st \<Rightarrow> event list \<Rightarrow> 'w st \<Rightarrow> bool" where
  "follows s es t = (trace t = trace s @ es)"

definition only :: "port set \<Rightarrow> ('w, 'a) auth \<Rightarrow> bool" where
  "only A m = (\<forall>s r t. m s = (r, t) \<longrightarrow> (\<exists>es. follows s es t \<and> event_port ` set es \<subseteq> A))"

definition count_calls :: "port \<Rightarrow> 'w st \<Rightarrow> nat" where
  "count_calls p s = length (filter (\<lambda>e. event_port e = p) (trace s))"

named_theorems only_rules \<open>which collaborators a program calls\<close>

lemma onlyD:
  assumes "only A m" and "m s = (r, t)"
  obtains es where "follows s es t" and "event_port ` set es \<subseteq> A"
  using assms unfolding only_def by blast

lemma onlyI:
  assumes "\<And>s r t. m s = (r, t) \<Longrightarrow> \<exists>es. follows s es t \<and> event_port ` set es \<subseteq> A"
  shows "only A m"
  using assms unfolding only_def by blast

lemma follows_trans: "follows s es t \<Longrightarrow> follows t fs u \<Longrightarrow> follows s (es @ fs) u"
  by (simp add: follows_def)

lemma follows_refl [simp]: "follows s [] s"
  by (simp add: follows_def)

lemma only_mono: "only A m \<Longrightarrow> A \<subseteq> B \<Longrightarrow> only B m"
  unfolding only_def by (meson order_trans)

lemma only_ret [only_rules]: "only A (ret a)"
  by (rule onlyI) (auto intro: exI [of _ "[]"])

lemma only_throw [only_rules]: "only A throwM"
  by (rule onlyI) (auto intro: exI [of _ "[]"])

lemma only_errR [only_rules]: "only A (errR c r p)"
  by (simp add: errR_def only_ret)

lemma only_liftO [only_rules]: "only A (liftO x)"
  by (cases x) (simp_all add: only_ret only_throw)

lemma only_readProp [only_rules]: "only A (readProp v k)"
  by (simp add: readProp_def only_ret only_throw)

lemma only_callPort [only_rules]: "p \<in> A \<Longrightarrow> only A (callPort c p args)"
  by (rule onlyI) (auto simp: callPort_def follows_def split: prod.splits)

lemma only_bindM [only_rules]:
  assumes "only A m" and "\<And>a. only A (f a)"
  shows "only A (bindM m f)"
proof (rule onlyI)
  fix s r t
  assume eq: "bindM m f s = (r, t)"
  obtain x u where mu: "m s = (x, u)" by fastforce
  from onlyD [OF assms(1) mu] obtain es where es: "follows s es u" "event_port ` set es \<subseteq> A" .
  show "\<exists>es. follows s es t \<and> event_port ` set es \<subseteq> A"
  proof (cases x)
    case (Ret a)
    with eq mu have "f a u = (r, t)" by (simp add: bindM_def)
    from onlyD [OF assms(2) this] obtain fs where "follows u fs t" "event_port ` set fs \<subseteq> A" .
    with es have "follows s (es @ fs) t" "event_port ` set (es @ fs) \<subseteq> A"
      by (simp_all add: follows_trans image_Un)
    then show ?thesis by blast
  next
    case Throw
    with eq mu es show ?thesis by (auto simp: bindM_def)
  qed
qed

lemma only_catchM [only_rules]:
  assumes "only A m" and "only A h"
  shows "only A (catchM m h)"
proof (rule onlyI)
  fix s r t
  assume eq: "catchM m h s = (r, t)"
  obtain x u where mu: "m s = (x, u)" by fastforce
  from onlyD [OF assms(1) mu] obtain es where es: "follows s es u" "event_port ` set es \<subseteq> A" .
  show "\<exists>es. follows s es t \<and> event_port ` set es \<subseteq> A"
  proof (cases x)
    case Throw
    with eq mu have "h u = (r, t)" by (simp add: catchM_def)
    from onlyD [OF assms(2) this] obtain fs where "follows u fs t" "event_port ` set fs \<subseteq> A" .
    with es have "follows s (es @ fs) t" "event_port ` set (es @ fs) \<subseteq> A"
      by (simp_all add: follows_trans image_Un)
    then show ?thesis by blast
  next
    case (Ret a)
    with eq mu es show ?thesis by (auto simp: catchM_def)
  qed
qed

lemma only_attemptM [only_rules]:
  assumes "only A m" shows "only A (attemptM m)"
proof -
  have "attemptM m = catchM (bindM m (\<lambda>a. ret (Some a))) (ret None)"
    by (auto simp: attemptM_def catchM_def bindM_def fun_eq_iff split: prod.splits outcome.splits)
  with assms show ?thesis by (simp add: only_rules)
qed

lemma only_case_option [only_rules]:
  "only A m \<Longrightarrow> (\<And>a. only A (f a)) \<Longrightarrow> only A (case x of None \<Rightarrow> m | Some a \<Rightarrow> f a)"
  by (cases x) simp_all

lemma only_case_sum [only_rules]:
  "(\<And>a. only A (f a)) \<Longrightarrow> (\<And>b. only A (g b)) \<Longrightarrow> only A (case x of Inl a \<Rightarrow> f a | Inr b \<Rightarrow> g b)"
  by (cases x) simp_all

lemma only_if [only_rules]: "only A m \<Longrightarrow> only A n \<Longrightarrow> only A (if b then m else n)"
  by simp

lemma only_case_prod [only_rules]: "(\<And>a b. only A (f a b)) \<Longrightarrow> only A (case x of (a, b) \<Rightarrow> f a b)"
  by (cases x) simp

lemma only_Let [only_rules]: "(\<And>a. only A (f a)) \<Longrightarrow> only A (Let x f)"
  by (simp add: Let_def)

lemma only_bindR [only_rules]:
  "only A m \<Longrightarrow> (\<And>a. only A (f a)) \<Longrightarrow> only A (bindR m f)"
  unfolding bindR_def by (intro only_rules)

lemma only_storeCall [only_rules]: "p \<in> A \<Longrightarrow> only A (storeCall c p args)"
  unfolding storeCall_def by (intro only_rules)

lemma only_storeR [only_rules]: "p \<in> A \<Longrightarrow> only A (storeR context c p args)"
  unfolding storeR_def by (intro only_rules)

lemma only_readNow [only_rules]: "ClockNow \<in> A \<Longrightarrow> only A (readNow c)"
  unfolding readNow_def by (intro only_rules)

lemma only_generateCoreId [only_rules]: "IdGenerate \<in> A \<Longrightarrow> only A (generateCoreId c kind tn now)"
  unfolding generateCoreId_def by (intro only_rules)

lemma only_emitEvent [only_rules]:
  "ClockNow \<in> A \<Longrightarrow> EventEmit \<in> A \<Longrightarrow> only A (emitEvent c context ev t)"
  unfolding emitEvent_def by (intro only_rules)

lemma only_policy [only_rules]: "PolicyDecide \<in> A \<Longrightarrow> only A (policy c check)"
  unfolding policy_def by (intro only_rules)

lemma only_catchBoundary [only_rules]: "only A m \<Longrightarrow> only A (catchBoundary context m)"
  unfolding catchBoundary_def by (intro only_rules)

lemma count_calls_follows:
  "follows s es t \<Longrightarrow> count_calls p t = count_calls p s + length (filter (\<lambda>e. event_port e = p) es)"
  by (simp add: count_calls_def follows_def)

lemma only_count:
  assumes "only A m" and "p \<notin> A" and "m s = (r, t)"
  shows "count_calls p t = count_calls p s"
proof -
  from onlyD [OF assms(1,3)] obtain es where es: "follows s es t" "event_port ` set es \<subseteq> A" .
  with assms(2) have "filter (\<lambda>e. event_port e = p) es = []"
    by (auto simp: filter_empty_conv)
  with count_calls_follows [OF es(1), of p] show ?thesis by simp
qed

section \<open>What the small modules return\<close>

lemma callPort_traceD:
  "callPort c p args s = (r, t) \<Longrightarrow> follows s [Call p args r] t"
  by (auto simp: callPort_def follows_def split: prod.splits)

lemma readNow_valid: "readNow c s = (Ret (Some now), t) \<Longrightarrow> isValidDate now"
  by (auto simp: readNow_def elim!: bindM_RetE split: option.splits if_splits)

lemma nothrow_readNow [nothrow_rules]: "nothrow (readNow c)"
  unfolding readNow_def by (intro nothrow_rules)

lemma nothrow_generateCoreId [nothrow_rules]: "nothrow (generateCoreId c kind tn now)"
  unfolding generateCoreId_def by (intro nothrow_rules)

lemma nothrow_errR [nothrow_rules]: "nothrow (errR cx r p)"
  unfolding errR_def by (intro nothrow_rules)

lemma nothrow_bindR [nothrow_rules]:
  "nothrow m \<Longrightarrow> (\<And>a. nothrow (f a)) \<Longrightarrow> nothrow (bindR m f)"
  unfolding bindR_def by (intro nothrow_rules)

lemma nothrow_emitEvent [nothrow_rules]: "nothrow (emitEvent c cx ev at)"
  unfolding emitEvent_def by (intro nothrow_rules)

lemma nothrow_policy [nothrow_rules]: "nothrow (policy c check)"
  unfolding policy_def by (intro nothrow_rules)

lemma generateCoreId_SomeD:
  "generateCoreId c kind tn now s = (Ret (Some v), t) \<Longrightarrow> isNonEmptyString v"
  by (auto simp: generateCoreId_def elim!: bindM_RetE split: option.splits if_splits)

text \<open>Policy fails closed: it lets an operation go on only on an explicit \<open>allow: true\<close>.\<close>

lemma policy_okE:
  assumes "policy c check s = (Ret (Inr u), t)"
  obtains "\<not> hasPolicy c" and "s = t"
  | i d where "hasPolicy c" and "policyInput check = Some i"
      and "follows s [Call PolicyDecide [i] (Ret d)] t"
      and "isPolicyDecision d" and "fld d ''allow'' = JBool True"
proof (cases "hasPolicy c")
  case False
  with assms show ?thesis by (auto simp: policy_def intro: that(1))
next
  case True
  with assms obtain d where d: "attemptM (bindM (liftO (policyInput check)) (\<lambda>i. callPort c PolicyDecide [i])) s
      = (Ret (Some d), t)" "isPolicyDecision d" "truthy (fld d ''allow'')"
    by (auto simp: policy_def errR_def elim!: bindM_RetE split: option.splits if_splits)
  from d(1) obtain i where i: "policyInput check = Some i" "callPort c PolicyDecide [i] s = (Ret d, t)"
    by (cases "policyInput check")
      (auto simp: attemptM_def bindM_def split: prod.splits outcome.splits)
  from d(2,3) have "fld d ''allow'' = JBool True"
    by (auto simp: isPolicyDecision_def split: if_splits)
  with True i d(2) callPort_traceD [OF i(2)] that(2) show ?thesis by blast
qed

section \<open>The calls of the elementary steps\<close>

lemma attempt_callPort_SomeD:
  "attemptM (callPort c p args) s = (Ret (Some v), t) \<Longrightarrow> follows s [Call p args (Ret v)] t"
  by (auto simp: attemptM_def callPort_def follows_def split: prod.splits outcome.splits)

lemma readNow_SomeD:
  "readNow c s = (Ret (Some now), t) \<Longrightarrow> isValidDate now \<and> follows s [Call ClockNow [] (Ret now)] t"
  by (auto simp: readNow_def elim!: bindM_RetE dest!: attempt_callPort_SomeD
      split: option.splits if_splits)

lemma readProp_RetD: "readProp v k s = (Ret a, t) \<Longrightarrow> a = fld v k \<and> s = t"
  by (simp add: readProp_def del: fld.simps fld_obj split: if_splits)

lemma storeR_InrD:
  assumes "storeR cx c p args s = (Ret (Inr v), t)"
  obtains r where "follows s [Call p args (Ret r)] t" and "truthy (fld r ''ok'')" and "v = fld r ''value''"
proof -
  from assms obtain r u ok where r: "callPort c p args s = (Ret r, u)"
    and ok: "readProp r ''ok'' u = (Ret ok, t)"
    and v: "(if truthy ok then Inr (fld r ''value'') else Inl (fld r ''error'')) = (Inr v :: jsv + jsv)"
    by (auto simp: storeR_def storeCall_def simp del: fld.simps fld_obj elim!: bindM_RetE split: sum.splits)
  from readProp_RetD [OF ok] v have "u = t" and "truthy (fld r ''ok'')" and "v = fld r ''value''"
    by (simp_all del: fld.simps fld_obj split: if_splits)
  with callPort_traceD [OF r] that show ?thesis by blast
qed

section \<open>Reaching a call\<close>

text \<open>
  If a program calls a collaborator that its first part never calls, then the first part
  returned and the rest made the call. Peeling off the parts gives what held at the call.
\<close>

lemma reach_bindM:
  assumes "bindM m f s = (r, t)" and "count_calls p s < count_calls p t"
    and "only A m" and "p \<notin> A"
  obtains a u where "m s = (Ret a, u)" and "f a u = (r, t)" and "count_calls p u < count_calls p t"
proof -
  obtain x u where mu: "m s = (x, u)" by fastforce
  have c: "count_calls p u = count_calls p s" by (rule only_count [OF assms(3,4) mu])
  show ?thesis
  proof (cases x)
    case (Ret a)
    with assms(1,2) mu c that show ?thesis by (auto simp: bindM_def)
  next
    case Throw
    with assms(1,2) mu c show ?thesis by (simp add: bindM_def)
  qed
qed

lemma reach_bindR:
  assumes "bindR m f s = (r, t)" and "count_calls p s < count_calls p t"
    and "only A m" and "p \<notin> A"
  obtains a u where "m s = (Ret (Inr a), u)" and "f a u = (r, t)" and "count_calls p u < count_calls p t"
proof -
  obtain x u where m: "m s = (Ret x, u)" and c: "count_calls p u < count_calls p t"
    and rest: "(case x of Inl e \<Rightarrow> ret (Inl e) | Inr a \<Rightarrow> f a) u = (r, t)"
    by (rule reach_bindM [OF assms(1) [unfolded bindR_def] assms(2-4)])
  show ?thesis
  proof (cases x)
    case (Inl e)
    with c rest show ?thesis by simp
  next
    case (Inr a)
    with m c rest that show ?thesis by simp
  qed
qed

lemma reach_readNow:
  assumes "bindM (readNow c) f s = (r, t)" and "count_calls p s < count_calls p t" and "p \<noteq> ClockNow"
  obtains a u where "readNow c s = (Ret a, u)" and "f a u = (r, t)" and "count_calls p u < count_calls p t"
  by (rule reach_bindM [OF assms(1,2) only_readNow [of "{ClockNow}"]]) (use assms(3) in auto)

lemma reach_storeR:
  assumes "bindR (storeR cx c q args) f s = (r, t)" and "count_calls p s < count_calls p t" and "p \<noteq> q"
  obtains a u where "storeR cx c q args s = (Ret (Inr a), u)" and "f a u = (r, t)"
    and "count_calls p u < count_calls p t"
  by (rule reach_bindR [OF assms(1,2) only_storeR [of q "{q}"]]) (use assms(3) in auto)

lemma reach_policy:
  assumes "bindR (policy c check) f s = (r, t)" and "count_calls p s < count_calls p t"
    and "p \<noteq> PolicyDecide"
  obtains u where "policy c check s = (Ret (Inr ()), u)" and "f () u = (r, t)"
    and "count_calls p u < count_calls p t"
  by (rule reach_bindR [OF assms(1,2) only_policy [of "{PolicyDecide}"]]) (use assms(3) in auto)

lemma reach_generateCoreId:
  assumes "bindM (generateCoreId c kind tn now) f s = (r, t)" and "count_calls p s < count_calls p t"
    and "p \<noteq> IdGenerate"
  obtains a u where "generateCoreId c kind tn now s = (Ret a, u)" and "f a u = (r, t)"
    and "count_calls p u < count_calls p t"
  by (rule reach_bindM [OF assms(1,2) only_generateCoreId [of "{IdGenerate}"]]) (use assms(3) in auto)

lemma reach_attempt:
  assumes "bindM (attemptM (callPort c q args)) f s = (r, t)" and "count_calls p s < count_calls p t"
    and "p \<noteq> q"
  obtains a u where "attemptM (callPort c q args) s = (Ret a, u)" and "f a u = (r, t)"
    and "count_calls p u < count_calls p t"
  by (rule reach_bindM [OF assms(1,2) only_attemptM [OF only_callPort [of q "{q}"]]]) (use assms(3) in auto)

lemma reach_liftO:
  assumes "bindM (liftO x) f s = (r, t)" and "count_calls p s < count_calls p t"
  obtains a where "x = Some a" and "f a s = (r, t)"
  using assms by (cases x) auto

lemma errR_count: "errR cx e code s = (r, t) \<Longrightarrow> count_calls p t = count_calls p s"
  by (auto simp: errR_def)

lemmas reach_rules = reach_readNow reach_storeR reach_policy reach_generateCoreId reach_attempt reach_liftO


end
