(* ===== verification/ConfigValidation.thy ===== *)
theory ConfigValidation
  imports Ports
begin

text \<open>
  \<open>packages/core/src/config/validation.ts\<close>: what \<open>createAuth\<close> demands of its configuration. The
  configuration is a value whose collaborators are functions; \<open>represents\<close> says which record of
  the model's parameters stands for it.
\<close>

type_synonym issue = "string list \<times> string"

definition max_session_ttl_seconds :: int where
  "max_session_ttl_seconds = 3155760000"

definition isSessionTtl :: "jsv \<Rightarrow> bool" where
  "isSessionTtl v = (is_safe_integer v \<and> 0 < num_val v \<and> num_val v \<le> max_session_ttl_seconds)"

text \<open>\<open>n < v\<close> for a number \<open>v\<close>; a value that is not finite compares as \<open>NaN\<close>.\<close>

fun number_less :: "int \<Rightarrow> jsv \<Rightarrow> bool" where
  "number_less n (JNum m) = (n < m)"
| "number_less n (JFrac p q) = (n * int q < p)"
| "number_less n _ = False"

definition requireFunction :: "jsv \<Rightarrow> string \<Rightarrow> string list \<Rightarrow> issue list" where
  "requireFunction owner key path =
     (if \<not> isRecord owner \<or> \<not> is_fun (fld owner key) then [(path, ''function-required'')] else [])"

definition validateOptionalPort :: "jsv \<Rightarrow> string \<Rightarrow> string list \<Rightarrow> issue list" where
  "validateOptionalPort port meth path = (if port \<noteq> JUndef then requireFunction port meth path else [])"

fun valueAtPath :: "jsv \<Rightarrow> string list \<Rightarrow> jsv" where
  "valueAtPath v [] = v"
| "valueAtPath v (k # ks) = (if \<not> isRecord v then JUndef else valueAtPath (fld v k) ks)"

definition requiredStorePaths :: "string list list" where
  "requiredStorePaths =
     [[''durable'', ''accounts'', ''create''], [''durable'', ''accounts'', ''findById''],
      [''durable'', ''accounts'', ''updateStatus''],
      [''durable'', ''identities'', ''create''], [''durable'', ''identities'', ''findById''],
      [''durable'', ''identities'', ''findBySubject''], [''durable'', ''identities'', ''markVerified''],
      [''durable'', ''credentials'', ''create''], [''durable'', ''credentials'', ''findById''],
      [''durable'', ''credentials'', ''findForIdentity''], [''durable'', ''credentials'', ''replaceMaterial''],
      [''durable'', ''credentials'', ''updateStatus''],
      [''session'', ''sessions'', ''create''], [''session'', ''sessions'', ''findById''],
      [''session'', ''sessions'', ''findByTokenHash''], [''session'', ''sessions'', ''revoke''],
      [''session'', ''sessions'', ''cleanupExpired'']]"

definition challengeStoreOperations :: "string list" where
  "challengeStoreOperations =
     [''create'', ''findById'', ''recordFailedAttempt'', ''consumePending'', ''cleanupExpired'']"

text \<open>\<open>isRecord(store.ephemeral) ? ... : undefined\<close>\<close>

definition challengesOf :: "jsv \<Rightarrow> jsv" where
  "challengesOf store = (if isRecord (fld store ''ephemeral'') then fld (fld store ''ephemeral'') ''challenges'' else JUndef)"

definition validateStoreConfig :: "jsv \<Rightarrow> issue list" where
  "validateStoreConfig store =
     (if \<not> isRecord store then []
      else concat (map (\<lambda>path. requireFunction (valueAtPath store (butlast path)) (last path) (''store'' # path))
             requiredStorePaths)
        @ (if fld store ''transaction'' \<noteq> JUndef
           then requireFunction (fld store ''transaction'') ''run'' [''store'', ''transaction'', ''run''] else [])
        @ (if isRecord (challengesOf store)
           then concat (map (\<lambda>name. requireFunction (challengesOf store) name
                  [''store'', ''ephemeral'', ''challenges'', name]) challengeStoreOperations)
           else []))"

definition validateTransactionScopes :: "jsv \<Rightarrow> issue list" where
  "validateTransactionScopes effects =
     (if \<not> isRecord effects \<or> fld effects ''transactionScopes'' = JUndef then []
      else let scopes = fld effects ''transactionScopes''; xs = arr_elems scopes in
        if \<not> is_arr scopes \<or> length xs = 0 \<or> 1000 < length xs
           \<or> \<not> distinct (map read_elem xs)
           \<or> \<not> arr_every (\<lambda>scope. isSafeText scope 512 True) xs
        then [([''effects'', ''transactionScopes''], ''non-empty-unique-string-array-required'')] else [])"

definition operationNames :: "string list" where
  "operationNames = [''enroll'', ''authenticate'', ''begin'', ''complete'']"

definition validateMethod :: "string \<times> jsv \<Rightarrow> issue list" where
  "validateMethod kv = (case kv of (key, v) \<Rightarrow>
     if \<not> isRecord v then [([''methods'', key], ''object-required'')]
     else (if \<not> truthy (fld v ''methodId'') then [([''methods'', key, ''methodId''], ''required'')]
           else if \<not> isStableMethodId (fld v ''methodId'')
           then [([''methods'', key, ''methodId''], ''stable-dot-namespace-required'')] else [])
        @ (if JStr key \<noteq> fld v ''methodId'' then [([''methods'', key], ''method-id-mismatch'')] else [])
        @ (if \<not> isNonEmptyString (fld v ''methodKind'')
           then [([''methods'', key, ''methodKind''], ''required'')] else [])
        @ (if \<not> isRecord (fld v ''operations'') then [([''methods'', key, ''operations''], ''required'')]
           else concat (map (\<lambda>name.
             if fld (fld v ''operations'') name = JUndef then []
             else requireFunction (fld (fld v ''operations'') name) ''validate''
                    [''methods'', key, ''operations'', name, ''validate'']
               @ requireFunction (fld (fld v ''operations'') name) ''run''
                    [''methods'', key, ''operations'', name, ''run'']) operationNames)))"

definition methodsOf :: "jsv \<Rightarrow> (string \<times> jsv) list" where
  "methodsOf config = (if isPlainObject (fld config ''methods'') then obj_entries (fld config ''methods'') else [])"

definition needsChallengeStore :: "jsv \<Rightarrow> bool" where
  "needsChallengeStore config = list_ex (\<lambda>(key, m). isRecord m \<and> isRecord (fld m ''operations'')
     \<and> (fld (fld m ''operations'') ''begin'' \<noteq> JUndef \<or> fld (fld m ''operations'') ''complete'' \<noteq> JUndef))
     (methodsOf config)"

definition sessionOf :: "jsv \<Rightarrow> jsv" where
  "sessionOf config = (if isRecord (fld config ''session'') then fld config ''session'' else JUndef)"

definition configIssues :: "jsv \<Rightarrow> issue list" where
  "configIssues config =
     (let token = fld config ''token''; clock = fld config ''clock''; ids = fld config ''idGenerator'';
          dflt = fld (sessionOf config) ''defaultTtlSeconds''; mx = fld (sessionOf config) ''maxTtlSeconds'' in
      (if has_key ''carrier'' config then [([''carrier''], ''not-allowed-in-core-config'')] else [])
      @ (if \<not> isRecord (fld config ''store'') then [([''store''], ''required'')] else [])
      @ (if \<not> isPlainObject (fld config ''methods'') then [([''methods''], ''plain-object-required'')] else [])
      @ (if \<not> isRecord token then [([''token''], ''required'')]
         else requireFunction token ''issue'' [''token'', ''issue'']
           @ requireFunction token ''identify'' [''token'', ''identify''])
      @ (if \<not> isRecord clock \<or> \<not> is_fun (fld clock ''now'') then [([''clock''], ''required'')] else [])
      @ (if \<not> isRecord ids \<or> \<not> is_fun (fld ids ''generate'') then [([''idGenerator''], ''required'')] else [])
      @ (if \<not> isSessionTtl dflt then [([''session'', ''defaultTtlSeconds''], ''positive-number-required'')] else [])
      @ (if mx \<noteq> JUndef \<and> (\<not> isSessionTtl mx \<or> \<not> is_number dflt \<or> number_less (num_val mx) dflt)
         then [([''session'', ''maxTtlSeconds''], ''must-be-at-least-default'')] else [])
      @ validateStoreConfig (fld config ''store'')
      @ validateOptionalPort (fld config ''effects'') ''dispatch'' [''effects'', ''dispatch'']
      @ validateTransactionScopes (fld config ''effects'')
      @ validateOptionalPort (fld config ''guard'') ''beforeAttempt'' [''guard'', ''beforeAttempt'']
      @ validateOptionalPort (fld config ''guard'') ''afterAttempt'' [''guard'', ''afterAttempt'']
      @ validateOptionalPort (fld config ''eventSink'') ''emit'' [''eventSink'', ''emit'']
      @ (if fld config ''policy'' \<noteq> JUndef \<and> \<not> is_fun (fld config ''policy'')
         then [([''policy''], ''function-required'')] else [])
      @ concat (map validateMethod (methodsOf config))
      @ (if needsChallengeStore config
            \<and> \<not> isRecord (challengesOf (if isRecord (fld config ''store'') then fld config ''store'' else JUndef))
         then [([''store'', ''ephemeral'', ''challenges''], ''required-for-challenge-methods'')] else []))"

definition issue_js :: "issue \<Rightarrow> jsv" where
  "issue_js i = obj [(''path'', JArr (map JStr (fst i))), (''code'', JStr (snd i))]"

definition issues_js :: "issue list \<Rightarrow> jsv" where
  "issues_js is = obj [(''issues'', JArr (map issue_js is))]"

text \<open>\<open>None\<close> for the source's \<open>null\<close>: the configuration is accepted.\<close>

definition validateConfig :: "jsv \<Rightarrow> jsv option" where
  "validateConfig config =
     (if \<not> isRecord config then Some (issues_js [([''config''], ''required'')])
      else if configIssues config = [] then None else Some (issues_js (configIssues config)))"

end
