(* ===== verification/Attempts.thy ===== *)
theory Attempts
  imports Ports
begin

text \<open>
  \<open>packages/core/src/attempts/guard.ts\<close>: admission of an attempt by guard and policy, and the
  bookkeeping that follows it.
\<close>

section \<open>Shapes of guard answers\<close>

fun isSafeReason :: "jsv \<Rightarrow> bool" where
  "isSafeReason (JStr s) = (0 < length s \<and> length s \<le> 512 \<and> no_control s)"
| "isSafeReason _ = False"

definition isGuardDecision :: "jsv \<Rightarrow> bool" where
  "isGuardDecision v =
     (if \<not> isRecord v then False
      else if fld v ''allow'' = JBool True then hasOnlyKeys v [''allow'']
      else fld v ''allow'' = JBool False
        \<and> hasOnlyKeys v [''allow'', ''publicCodeHint'', ''reason'', ''retryAfterSeconds'']
        \<and> isSafeReason (fld v ''reason'')
        \<and> fld v ''publicCodeHint'' \<in> {JUndef, JStr ''RATE_LIMITED'', JStr ''TEMPORARILY_UNAVAILABLE''}
        \<and> (fld v ''retryAfterSeconds'' = JUndef \<or> isPositiveInteger (fld v ''retryAfterSeconds'')))"

definition isGuardFailure :: "jsv \<Rightarrow> bool" where
  "isGuardFailure v =
     (isRecord v
      \<and> hasOnlyKeys v [''component'', ''details'', ''reason'', ''type'']
      \<and> fld v ''type'' = JStr ''component.failure''
      \<and> fld v ''component'' = JStr ''guard''
      \<and> isSafeReason (fld v ''reason'')
      \<and> (fld v ''details'' = JUndef \<or> isPublicData (fld v ''details'')))"

definition isGuardResult :: "jsv \<Rightarrow> bool" where
  "isGuardResult v =
     (if \<not> isRecord v then False
      else if fld v ''ok'' = JBool True
        then hasOnlyKeys v [''ok'', ''value''] \<and> isGuardDecision (fld v ''value'')
      else fld v ''ok'' = JBool False \<and> hasOnlyKeys v [''error'', ''ok'']
        \<and> isGuardFailure (fld v ''error''))"

section \<open>After an attempt\<close>

definition countedReasons :: "jsv list" where
  "countedReasons = [JStr ''AUTHENTICATION_FAILED'', JStr ''CREDENTIAL_NOT_FOUND'',
     JStr ''IDENTITY_BINDING_MISMATCH'', JStr ''IDENTITY_NOT_FOUND'', JStr ''OTP_MISMATCH'',
     JStr ''PASSWORD_MISMATCH'']"

definition countsAsAuthenticationFailure :: "jsv \<Rightarrow> bool" where
  "countsAsAuthenticationFailure reason = (reason \<in> set countedReasons)"

definition attemptEventName :: "string \<Rightarrow> bool \<Rightarrow> string" where
  "attemptEventName op success =
     (if op = ''enroll'' then if success then ''auth.enroll.succeeded'' else ''auth.enroll.failed''
      else if op = ''authenticate''
        then if success then ''auth.authenticate.succeeded'' else ''auth.authenticate.failed''
      else if op = ''begin''
        then if success then ''auth.challenge.started'' else ''auth.challenge.failed''
      else if success then ''auth.challenge.completed'' else ''auth.challenge.failed'')"

text \<open>
  The optional arguments \<open>reason\<close> and \<open>countsAsAttempt\<close> are options; \<open>None\<close> takes the default
  of the source.
\<close>

definition attemptOutcome :: "bool \<Rightarrow> string option \<Rightarrow> bool \<Rightarrow> jsv" where
  "attemptOutcome success reason counts =
     (if success then obj [(''success'', JBool True)]
      else obj [(''success'', JBool False),
                (''reason'', JStr (case reason of None \<Rightarrow> ''INTERNAL'' | Some r \<Rightarrow> r)),
                (''countsAsAttempt'', JBool counts)])"

definition afterAttemptInput ::
  "jsv \<Rightarrow> jsv \<Rightarrow> string \<Rightarrow> jsv \<Rightarrow> jsv \<Rightarrow> jsv \<Rightarrow> jsv option" where
  "afterAttemptInput context method op lookup challengeId outcome =
     (case decisionAuthContext context of None \<Rightarrow> None
      | Some ctx \<Rightarrow> structuredClone (obj [
          (''context'', ctx), (''method'', method), (''operation'', JStr op),
          (''lookup'', lookup), (''challengeId'', challengeId), (''outcome'', outcome)]))"

definition afterAttempt ::
  "'w cfg \<Rightarrow> jsv \<Rightarrow> jsv \<Rightarrow> string \<Rightarrow> jsv \<Rightarrow> bool \<Rightarrow> string option \<Rightarrow> jsv \<Rightarrow> bool option \<Rightarrow> ('w, unit) auth"
  where
  "afterAttempt c context method op lookup success reason challengeId counts =
     (let counted = (case counts of Some b \<Rightarrow> b
                     | None \<Rightarrow> (case reason of None \<Rightarrow> False
                                | Some r \<Rightarrow> countsAsAuthenticationFailure (JStr r)));
          reasonText = (case reason of None \<Rightarrow> ''INTERNAL'' | Some r \<Rightarrow> r)
      in bindM (if hasGuard c \<and> hasAfterAttempt c
                then bindM (attemptM (bindM
                       (liftO (afterAttemptInput context method op lookup challengeId
                          (attemptOutcome success reason counted)))
                       (\<lambda>i. callPort c GuardAfter [i]))) (\<lambda>_. ret ())
                else ret ())
         (\<lambda>_. emitEvent c context
            [(''name'', JStr (attemptEventName op success)),
             (''methodId'', fld method ''methodId''),
             (''challengeId'', challengeId),
             (''outcome'', JStr (if success then ''success'' else ''failure'')),
             (''attributes'', if success then JUndef else obj [(''reason'', JStr reasonText)])] None))"

definition failAttempt ::
  "'w cfg \<Rightarrow> jsv \<Rightarrow> jsv \<Rightarrow> string \<Rightarrow> jsv \<Rightarrow> jsv \<Rightarrow> string option \<Rightarrow> jsv \<Rightarrow> bool option
     \<Rightarrow> ('w, 'a res) auth" where
  "failAttempt c context method op lookup reason code challengeId counts =
     (let counted = (case counts of Some b \<Rightarrow> b | None \<Rightarrow> countsAsAuthenticationFailure reason);
          safeReason = normalizeInternalReason reason ''INTERNAL''
      in bindM (afterAttempt c context method op lookup False (Some safeReason) challengeId (Some counted))
         (\<lambda>_. errR context safeReason code))"

section \<open>Admission\<close>

definition emitStartedEvent :: "'w cfg \<Rightarrow> jsv \<Rightarrow> jsv \<Rightarrow> string \<Rightarrow> ('w, unit) auth" where
  "emitStartedEvent c context method op =
     (if op = ''enroll'' \<or> op = ''authenticate''
      then emitEvent c context
             [(''name'', JStr (if op = ''enroll'' then ''auth.enroll.started'' else ''auth.authenticate.started'')),
              (''methodId'', fld method ''methodId''),
              (''outcome'', JStr ''success'')] None
      else ret ())"

definition beforeAttemptInput :: "jsv \<Rightarrow> jsv \<Rightarrow> string \<Rightarrow> jsv \<Rightarrow> jsv \<Rightarrow> jsv option" where
  "beforeAttemptInput context method op lookup challengeId =
     (case decisionAuthContext context of None \<Rightarrow> None
      | Some ctx \<Rightarrow> structuredClone (obj [
          (''context'', ctx), (''method'', method), (''operation'', JStr op),
          (''lookup'', lookup), (''challengeId'', challengeId)]))"

definition startPolicyCheck :: "jsv \<Rightarrow> jsv \<Rightarrow> string \<Rightarrow> jsv \<Rightarrow> jsv \<Rightarrow> jsv" where
  "startPolicyCheck context method op lookup publicData =
     obj [(''kind'', JStr ''start-attempt''), (''context'', context), (''method'', method),
          (''operation'', JStr op), (''lookup'', lookup), (''publicData'', publicData)]"

definition acceptStart ::
  "'w cfg \<Rightarrow> jsv \<Rightarrow> jsv \<Rightarrow> string \<Rightarrow> jsv \<Rightarrow> jsv \<Rightarrow> jsv \<Rightarrow> ('w, unit res) auth" where
  "acceptStart c context method op lookup challengeId publicData =
     (let check = startPolicyCheck context method op lookup publicData in
      if \<not> hasGuard c then
        bindM (policy c check) (\<lambda>policyResult.
          case policyResult of
            Inl e \<Rightarrow> ret (Inl e)
          | Inr _ \<Rightarrow> bindM (emitStartedEvent c context method op) (\<lambda>_. ret policyResult))
      else
        bindM (attemptM (bindM (liftO (beforeAttemptInput context method op lookup challengeId))
                 (\<lambda>i. callPort c GuardBefore [i])))
          (\<lambda>r. let guarded = (case r of None \<Rightarrow> JUndef | Some v \<Rightarrow> v) in
             if \<not> isGuardResult guarded then
               failAttempt c context method op lookup (JStr ''INTERNAL'')
                 (Some ''TEMPORARILY_UNAVAILABLE'') challengeId None
             else if fld guarded ''ok'' = JBool False then
               failAttempt c context method op lookup (fld (fld guarded ''error'') ''reason'')
                 (Some ''TEMPORARILY_UNAVAILABLE'') challengeId None
             else if \<not> truthy (fld (fld guarded ''value'') ''allow'') then
               let decision = fld guarded ''value''; reason = str_or (fld decision ''reason'') '''' in
               bindM (afterAttempt c context method op lookup False (Some reason) challengeId None)
                 (\<lambda>_. ret (Inl (authErr context reason
                    (Some (str_or (fld decision ''publicCodeHint'') ''RATE_LIMITED''))
                    (fld decision ''retryAfterSeconds''))))
             else
               bindM (policy c check) (\<lambda>policyResult.
                 case policyResult of
                   Inl e \<Rightarrow>
                     bindM (afterAttempt c context method op lookup False (Some (internalReason e))
                        challengeId None) (\<lambda>_. ret (Inl e))
                 | Inr _ \<Rightarrow> bindM (emitStartedEvent c context method op) (\<lambda>_. ret policyResult))))"

section \<open>Lemmas\<close>

lemma isSafeReason_iff: "isSafeReason v \<longleftrightarrow> (\<exists>s. v = JStr s \<and> safe_reason s)"
  by (cases v) (auto simp: safe_reason_def)

definition bookkeeping :: "port set" where
  "bookkeeping = {GuardAfter, ClockNow, EventEmit}"

lemma only_afterAttempt [only_rules]:
  "bookkeeping \<subseteq> A \<Longrightarrow> only A (afterAttempt c context m op l su r ch co)"
  unfolding afterAttempt_def Let_def bookkeeping_def by (intro only_rules) auto

lemma only_failAttempt [only_rules]:
  "bookkeeping \<subseteq> A \<Longrightarrow> only A (failAttempt c context m op l r p ch co)"
  unfolding failAttempt_def Let_def by (intro only_rules) auto

lemma only_emitStartedEvent [only_rules]:
  "ClockNow \<in> A \<Longrightarrow> EventEmit \<in> A \<Longrightarrow> only A (emitStartedEvent c context m op)"
  unfolding emitStartedEvent_def by (intro only_rules)

lemma only_acceptStart [only_rules]:
  "bookkeeping \<subseteq> A \<Longrightarrow> GuardBefore \<in> A \<Longrightarrow> PolicyDecide \<in> A \<Longrightarrow>
     only A (acceptStart c context m op l ch pd)"
  unfolding acceptStart_def Let_def
  by (intro only_rules) (auto simp: bookkeeping_def)

lemma nothrow_afterAttempt [nothrow_rules]: "nothrow (afterAttempt c cx m op l su r ch co)"
  unfolding afterAttempt_def Let_def by (intro nothrow_rules)

lemma nothrow_failAttempt [nothrow_rules]: "nothrow (failAttempt c cx m op l r p ch co)"
  unfolding failAttempt_def Let_def by (intro nothrow_rules)

lemma nothrow_acceptStart [nothrow_rules]: "nothrow (acceptStart c cx m op l ch pd)"
  unfolding acceptStart_def emitStartedEvent_def Let_def by (intro nothrow_rules)

lemma failAttempt_Ret:
  assumes "failAttempt c cx m op l r p ch co s = (x, t)"
  shows "x = Ret (Inl (authErr cx (normalizeInternalReason r ''INTERNAL'') p JUndef))"
proof -
  have "nothrow (afterAttempt c cx m op l False (Some (normalizeInternalReason r ''INTERNAL'')) ch
    (Some (case co of Some b \<Rightarrow> b | None \<Rightarrow> countsAsAuthenticationFailure r)))"
    by (rule nothrow_afterAttempt)
  then show ?thesis
    using assms by (elim nothrowE [of _ s]) (simp add: failAttempt_def Let_def errR_def bindM_step)
qed

lemma failAttempt_not_Inr [simp]: "failAttempt c cx m op l r p ch co s = (Ret (Inr a), t) \<longleftrightarrow> False"
  by (auto dest: failAttempt_Ret)

section \<open>Accounting\<close>

text \<open>The input of \<open>afterAttempt\<close> can be copied whenever the one of \<open>beforeAttempt\<close> can.\<close>

lemma attemptOutcome_clone: "structuredClone (attemptOutcome su r co) = Some (attemptOutcome su r co)"
  by (simp add: attemptOutcome_def)

lemma afterAttemptInput_None_iff:
  "afterAttemptInput cx m op l ch (attemptOutcome su r co) = None
     \<longleftrightarrow> beforeAttemptInput cx m op l ch = None"
  by (auto simp: afterAttemptInput_def beforeAttemptInput_def attemptOutcome_clone
      split: option.splits)

lemma emitEvent_count:
  assumes "emitEvent c cx ev at s = (r, t)" and "p \<noteq> ClockNow" and "p \<noteq> EventEmit"
  shows "count_calls p t = count_calls p s"
  using only_count [OF only_emitEvent [of "{ClockNow, EventEmit}"] _ assms(1)] assms(2,3) by simp

lemma count_callPort:
  "callPort c p args s = (r, t) \<Longrightarrow>
     count_calls q t = (if q = p then Suc (count_calls q s) else count_calls q s)"
  by (drule callPort_traceD, drule count_calls_follows [of _ _ _ q]) simp

lemma afterAttempt_count:
  assumes "afterAttempt c cx m op l su r ch co s = (x, t)"
    and "beforeAttemptInput cx m op l ch \<noteq> None"
  shows "count_calls GuardAfter t
    = count_calls GuardAfter s + (if hasGuard c \<and> hasAfterAttempt c then 1 else 0)"
proof (cases "hasGuard c \<and> hasAfterAttempt c")
  case False
  with assms(1) show ?thesis
    by (auto simp: afterAttempt_def Let_def dest: emitEvent_count [where p = GuardAfter])
next
  case True
  define counted where "counted = (case co of Some b \<Rightarrow> b
     | None \<Rightarrow> (case r of None \<Rightarrow> False | Some r \<Rightarrow> countsAsAuthenticationFailure (JStr r)))"
  obtain i where i: "afterAttemptInput cx m op l ch (attemptOutcome su r counted) = Some i"
    using assms(2) by (metis afterAttemptInput_None_iff option.exhaust)
  obtain y u where y: "callPort c GuardAfter [i] s = (y, u)" by fastforce
  from count_callPort [OF y] have "count_calls GuardAfter u = Suc (count_calls GuardAfter s)"
    by simp
  moreover from assms(1) True i y counted_def [symmetric]
  obtain ev at where "emitEvent c cx ev at u = (x, t)"
    by (cases y) (auto simp: afterAttempt_def Let_def bindM_def attemptM_def)
  ultimately show ?thesis
    using True by (auto dest: emitEvent_count [where p = GuardAfter])
qed

lemma failAttempt_count:
  assumes "failAttempt c cx m op l r p ch co s = (x, t)"
    and "beforeAttemptInput cx m op l ch \<noteq> None"
  shows "count_calls GuardAfter t
    = count_calls GuardAfter s + (if hasGuard c \<and> hasAfterAttempt c then 1 else 0)"
proof -
  obtain y u where y: "afterAttempt c cx m op l False (Some (normalizeInternalReason r ''INTERNAL'')) ch
    (Some (case co of Some b \<Rightarrow> b | None \<Rightarrow> countsAsAuthenticationFailure r)) s = (y, u)" by fastforce
  with assms(1) have "t = u"
    by (auto simp: failAttempt_def Let_def errR_def bindM_def split: outcome.splits)
  with afterAttempt_count [OF y assms(2)] show ?thesis by simp
qed

text \<open>An attempt that is not admitted has been accounted for, exactly once.\<close>

lemma policy_count:
  assumes "policy c check s = (r, t)" and "p \<noteq> PolicyDecide"
  shows "count_calls p t = count_calls p s"
  using only_count [OF only_policy [of "{PolicyDecide}"] _ assms(1)] assms(2) by simp

lemma emitStartedEvent_count:
  assumes "emitStartedEvent c cx m op s = (r, t)" and "p \<noteq> ClockNow" and "p \<noteq> EventEmit"
  shows "count_calls p t = count_calls p s"
  using only_count [OF only_emitStartedEvent [of "{ClockNow, EventEmit}"] _ assms(1)] assms(2,3)
  by simp

lemma guardBefore_count:
  assumes "attemptM (bindM (liftO x) (\<lambda>i. callPort c GuardBefore [i])) s = (r, t)" and "p \<noteq> GuardBefore"
  shows "count_calls p t = count_calls p s"
proof -
  have "only {GuardBefore} (attemptM (bindM (liftO x) (\<lambda>i. callPort c GuardBefore [i])))"
    by (intro only_rules) simp
  from only_count [OF this _ assms(1)] assms(2) show ?thesis by simp
qed

definition admissionGuard :: "'w cfg \<Rightarrow> jsv \<Rightarrow> jsv \<Rightarrow> string \<Rightarrow> jsv \<Rightarrow> jsv \<Rightarrow> ('w, jsv option) auth" where
  "admissionGuard c context method op lookup challengeId =
     attemptM (bindM (liftO (beforeAttemptInput context method op lookup challengeId))
       (\<lambda>i. callPort c GuardBefore [i]))"

lemma acceptStart_count:
  assumes "acceptStart c cx m op l ch pd s = (Ret r, t)"
    and "beforeAttemptInput cx m op l ch \<noteq> None" and "hasGuard c" and "hasAfterAttempt c"
  shows "count_calls GuardAfter t
    = count_calls GuardAfter s + (case r of Inl _ \<Rightarrow> 1 | Inr _ \<Rightarrow> 0)"
proof -
  obtain g u where g: "admissionGuard c cx m op l ch s = (Ret g, u)"
    unfolding admissionGuard_def using attemptM_total by fast
  have su: "count_calls GuardAfter u = count_calls GuardAfter s"
    using guardBefore_count g unfolding admissionGuard_def by blast
  define guarded where "guarded = (case g of None \<Rightarrow> JUndef | Some v \<Rightarrow> v)"
  note run = assms(1) [unfolded acceptStart_def Let_def, folded admissionGuard_def]
  consider "\<not> isGuardResult guarded" | "isGuardResult guarded" "fld guarded ''ok'' = JBool False"
    | "isGuardResult guarded" "fld guarded ''ok'' \<noteq> JBool False" "\<not> truthy (fld (fld guarded ''value'') ''allow'')"
    | "isGuardResult guarded" "fld guarded ''ok'' \<noteq> JBool False" "truthy (fld (fld guarded ''value'') ''allow'')"
    by blast
  then show ?thesis
  proof cases
    case 1
    with run g assms(3) have "failAttempt c cx m op l (JStr ''INTERNAL'')
        (Some ''TEMPORARILY_UNAVAILABLE'') ch None u = (Ret r, t)"
      by (simp add: bindM_step guarded_def [symmetric])
    with failAttempt_count [OF this assms(2)] failAttempt_Ret [OF this] su assms(3,4) show ?thesis
      by simp
  next
    case 2
    with run g assms(3) have "failAttempt c cx m op l (fld (fld guarded ''error'') ''reason'')
        (Some ''TEMPORARILY_UNAVAILABLE'') ch None u = (Ret r, t)"
      by (simp add: bindM_step guarded_def [symmetric])
    with failAttempt_count [OF this assms(2)] failAttempt_Ret [OF this] su assms(3,4) show ?thesis
      by simp
  next
    case 3
    with run g assms(3) show ?thesis
      by (auto simp: bindM_step guarded_def [symmetric] su assms(3,4)
          dest!: afterAttempt_count [OF _ assms(2)] elim!: bindM_RetE)
  next
    case 4
    with run g assms(3) show ?thesis
      by (auto simp: bindM_step guarded_def [symmetric] su assms(3,4)
          dest!: afterAttempt_count [OF _ assms(2)] policy_count [where p = GuardAfter]
            emitStartedEvent_count [where p = GuardAfter]
          elim!: bindM_RetE split: sum.splits)
  qed
qed

text \<open>The calls made since a state, and what it takes to be admitted.\<close>

definition since :: "'w st \<Rightarrow> 'w st \<Rightarrow> event list" where
  "since s t = drop (length (trace s)) (trace t)"

lemma since_follows: "follows s es t \<Longrightarrow> since s t = es"
  by (simp add: since_def follows_def)

definition guard_allowed :: "event list \<Rightarrow> jsv \<Rightarrow> bool" where
  "guard_allowed es i = (\<exists>d. Call GuardBefore [i] (Ret d) \<in> set es \<and> isGuardResult d
     \<and> fld d ''ok'' = JBool True \<and> fld (fld d ''value'') ''allow'' = JBool True)"

definition policy_allowed :: "event list \<Rightarrow> jsv \<Rightarrow> bool" where
  "policy_allowed es i = (\<exists>d. Call PolicyDecide [i] (Ret d) \<in> set es \<and> isPolicyDecision d
     \<and> fld d ''allow'' = JBool True)"

lemma policy_ok_allowed:
  assumes "policy c check s = (Ret (Inr u), t)" and "hasPolicy c"
  obtains i es where "policyInput check = Some i" and "follows s es t" and "policy_allowed es i"
  using assms by (elim policy_okE) (auto simp: policy_allowed_def)

lemma policy_allowed_append: "policy_allowed es i \<Longrightarrow> policy_allowed (fs @ es @ gs) i"
  by (auto simp: policy_allowed_def)

lemma guard_allowed_append: "guard_allowed es i \<Longrightarrow> guard_allowed (fs @ es @ gs) i"
  by (auto simp: guard_allowed_def)

lemma emitStartedEvent_follows:
  assumes "emitStartedEvent c cx m op s = (r, t)"
  obtains es where "follows s es t"
  using onlyD [OF only_emitStartedEvent [of UNIV] assms] by auto

lemma isGuardResult_okD:
  "isGuardResult v \<Longrightarrow> fld v ''ok'' \<noteq> JBool False \<Longrightarrow>
     fld v ''ok'' = JBool True \<and> isGuardDecision (fld v ''value'')"
  unfolding isGuardResult_def by metis

lemma isGuardDecision_allowD:
  assumes "isGuardDecision v" and "truthy (fld v ''allow'')"
  shows "fld v ''allow'' = JBool True"
proof (rule ccontr)
  assume "fld v ''allow'' \<noteq> JBool True"
  with assms(1) have "fld v ''allow'' = JBool False" unfolding isGuardDecision_def by metis
  with assms(2) show False by simp
qed

lemma acceptStart_admitted:
  assumes "acceptStart c cx m op l ch pd s = (Ret (Inr u), t)"
  shows "(hasGuard c \<longrightarrow> (\<exists>i. beforeAttemptInput cx m op l ch = Some i \<and> guard_allowed (since s t) i))
    \<and> (hasPolicy c \<longrightarrow> (\<exists>i. policyInput (startPolicyCheck cx m op l pd) = Some i
          \<and> policy_allowed (since s t) i))"
proof -
  let ?check = "startPolicyCheck cx m op l pd"
  have policy: "hasPolicy c \<longrightarrow> (\<exists>i. policyInput ?check = Some i \<and> policy_allowed (es @ since v t) i)"
    if "policy c ?check v = (Ret (Inr ()), w)" and "emitStartedEvent c cx m op w = (Ret y, t)"
    for v w y es
  proof
    assume "hasPolicy c"
    from policy_ok_allowed [OF that(1) this] obtain i fs
      where i: "policyInput ?check = Some i" "follows v fs w" "policy_allowed fs i" .
    from emitStartedEvent_follows [OF that(2)] obtain gs where "follows w gs t" .
    with i(2) have "since v t = fs @ gs" by (blast intro: since_follows follows_trans)
    with i show "\<exists>i. policyInput ?check = Some i \<and> policy_allowed (es @ since v t) i"
      by (auto intro: policy_allowed_append)
  qed
  show ?thesis
  proof (cases "hasGuard c")
    case False
    with assms obtain w y where "policy c ?check s = (Ret (Inr ()), w)"
      and "emitStartedEvent c cx m op w = (Ret y, t)"
      by (auto simp: acceptStart_def Let_def elim!: bindM_RetE split: sum.splits)
    from policy [OF this, of "[]"] False show ?thesis by simp
  next
    case True
    obtain g v where g: "admissionGuard c cx m op l ch s = (Ret g, v)"
      unfolding admissionGuard_def using attemptM_total by fast
    define guarded where "guarded = (case g of None \<Rightarrow> JUndef | Some x \<Rightarrow> x)"
    note run = assms [unfolded acceptStart_def Let_def, folded admissionGuard_def]
    from run g True have ok: "isGuardResult guarded" "fld guarded ''ok'' \<noteq> JBool False"
        "truthy (fld (fld guarded ''value'') ''allow'')"
      and rest: "\<exists>w y. policy c ?check v = (Ret (Inr ()), w) \<and> emitStartedEvent c cx m op w = (Ret y, t)"
      by (auto simp: bindM_step guarded_def [symmetric] elim!: bindM_RetE split: if_splits sum.splits)
    from ok have okv: "fld guarded ''ok'' = JBool True" "fld (fld guarded ''value'') ''allow'' = JBool True"
      using isGuardResult_okD isGuardDecision_allowD by blast+
    then obtain d where gd: "g = Some d" "guarded = d"
      by (cases g) (simp_all add: guarded_def)
    from g gd obtain i where i: "beforeAttemptInput cx m op l ch = Some i"
      and call: "callPort c GuardBefore [i] s = (Ret d, v)"
      by (cases "beforeAttemptInput cx m op l ch")
        (auto simp: admissionGuard_def attemptM_def bindM_def split: prod.splits outcome.splits)
    from rest obtain w y where w: "policy c ?check v = (Ret (Inr ()), w)"
      "emitStartedEvent c cx m op w = (Ret y, t)" by blast
    have v: "follows s [Call GuardBefore [i] (Ret d)] v" using call by (rule callPort_traceD)
    obtain es where "follows v es t"
    proof -
      obtain es1 where "follows v es1 w"
        by (rule onlyD [OF only_policy [OF UNIV_I] w(1)])
      moreover obtain es2 where "follows w es2 t" using w(2) by (rule emitStartedEvent_follows)
      ultimately show ?thesis using that follows_trans by blast
    qed
    with v have "since s t = [Call GuardBefore [i] (Ret d)] @ since v t"
      by (metis since_follows follows_trans)
    with policy [OF w, of "[Call GuardBefore [i] (Ret d)]"] True i okv ok gd
    show ?thesis by (auto simp: guard_allowed_def)
  qed
qed

end
