(* ===== verification/MethodInvoke.thy ===== *)
theory MethodInvoke
  imports Attempts
begin

text \<open>
  The boundary to plugged-in methods: \<open>packages/core/src/method/invoke.ts\<close> (calls of a method's
  validator and runner, whose answers are copied value by value within bounds),
  \<open>method/snapshot.ts\<close> (copies of accepted outputs), \<open>method/context.ts\<close> and \<open>method/proof.ts\<close>.
\<close>

section \<open>Bounded copies of method values (invoke.ts)\<close>

text \<open>\<open>None\<close> is \<open>invalidSnapshot\<close>; the traversal counts nodes and characters.\<close>

definition takeCharacters :: "nat \<Rightarrow> traversal \<Rightarrow> traversal option" where
  "takeCharacters n st =
     (let st' = st\<lparr>characters := characters st + n\<rparr>
      in if characters st' \<le> 1000000 then Some st' else None)"

definition isSecretWrapper :: "jsv \<Rightarrow> bool" where
  "isSecretWrapper v =
     (fld v ''type'' = JStr ''raw-secret'' \<and> is_fun (fld v ''reveal'')
      \<or> fld v ''type'' = JStr ''protected-value'' \<and> is_fun (fld v ''revealForPersistence'')
      \<or> fld v ''type'' = JStr ''sealed-secret'' \<and> is_fun (fld v ''revealCiphertextForPersistence''))"

definition snapshotOptionalDate :: "jsv \<Rightarrow> jsv" where
  "snapshotOptionalDate v = (if isValidDate v then v else JUndef)"

definition constant_fun :: "jsv \<Rightarrow> jsv" where
  "constant_fun v = JFun (Some v)"

definition snapshotSecretWrapper :: "jsv \<Rightarrow> traversal \<Rightarrow> (jsv \<times> traversal) option" where
  "snapshotSecretWrapper v st =
     (if fld v ''type'' = JStr ''raw-secret''
         \<and> hasOnlyKeys v [''redacted'', ''reveal'', ''toJSON'', ''type'']
         \<and> is_fun (fld v ''reveal'') \<and> is_fun (fld v ''toJSON'')
      then (case call_thunk (fld v ''reveal'') of
          Some (JStr s) \<Rightarrow>
            (case takeCharacters (length s) st of
               Some st' \<Rightarrow> if s = '''' then None else
                 Some (obj [(''type'', JStr ''raw-secret''), (''redacted'', redacted_text),
                   (''reveal'', constant_fun (JStr s)), (''toJSON'', constant_fun redacted_text)], st')
             | None \<Rightarrow> None)
        | Some (JBytes bs) \<Rightarrow>
            (case takeCharacters (length bs) st of
               Some st' \<Rightarrow> if bs = [] then None else
                 Some (obj [(''type'', JStr ''raw-secret''), (''redacted'', redacted_text),
                   (''reveal'', constant_fun (JBytes bs)), (''toJSON'', constant_fun redacted_text)], st')
             | None \<Rightarrow> None)
        | _ \<Rightarrow> None)
      else if fld v ''type'' = JStr ''protected-value''
         \<and> hasOnlyKeys v [''createdAt'', ''keyId'', ''redacted'', ''revealForPersistence'', ''scheme'',
             ''toJSON'', ''type'']
         \<and> isSafeText (fld v ''scheme'') 256 True
         \<and> (fld v ''keyId'' = JUndef \<or> isSafeText (fld v ''keyId'') 512 True)
         \<and> is_fun (fld v ''revealForPersistence'') \<and> is_fun (fld v ''toJSON'')
      then (let createdAt = snapshotOptionalDate (fld v ''createdAt'') in
        if fld v ''createdAt'' \<noteq> JUndef \<and> createdAt = JUndef then None
        else case call_thunk (fld v ''revealForPersistence'') of
          Some (JStr s) \<Rightarrow> if s = '''' then None else
            (case takeCharacters (length s) st of
               Some st' \<Rightarrow> Some (obj [(''type'', JStr ''protected-value''), (''scheme'', fld v ''scheme''),
                 (''redacted'', redacted_text), (''keyId'', fld v ''keyId''), (''createdAt'', createdAt),
                 (''revealForPersistence'', constant_fun (JStr s)),
                 (''toJSON'', constant_fun redacted_text)], st')
             | None \<Rightarrow> None)
        | _ \<Rightarrow> None)
      else if fld v ''type'' = JStr ''sealed-secret''
         \<and> hasOnlyKeys v [''algorithm'', ''expiresAt'', ''keyId'', ''redacted'',
             ''revealCiphertextForPersistence'', ''toJSON'', ''type'']
         \<and> isSafeText (fld v ''algorithm'') 256 True
         \<and> isSafeText (fld v ''keyId'') 512 True
         \<and> is_fun (fld v ''revealCiphertextForPersistence'') \<and> is_fun (fld v ''toJSON'')
      then (let expiresAt = snapshotOptionalDate (fld v ''expiresAt'') in
        if fld v ''expiresAt'' \<noteq> JUndef \<and> expiresAt = JUndef then None
        else case call_thunk (fld v ''revealCiphertextForPersistence'') of
          Some (JStr s) \<Rightarrow> if s = '''' then None else
            (case takeCharacters (length s) st of
               Some st' \<Rightarrow> Some (obj [(''type'', JStr ''sealed-secret''),
                 (''algorithm'', fld v ''algorithm''), (''keyId'', fld v ''keyId''),
                 (''redacted'', redacted_text), (''expiresAt'', expiresAt),
                 (''revealCiphertextForPersistence'', constant_fun (JStr s)),
                 (''toJSON'', constant_fun redacted_text)], st')
             | None \<Rightarrow> None)
        | _ \<Rightarrow> None)
      else None)"

fun snapshotMethodValue :: "jsv \<Rightarrow> nat \<Rightarrow> traversal \<Rightarrow> (jsv \<times> traversal) option"
  and snapshotMethodList :: "jsv list \<Rightarrow> nat \<Rightarrow> traversal \<Rightarrow> (jsv list \<times> traversal) option"
  and snapshotMethodFields ::
    "(string \<times> jsv) list \<Rightarrow> nat \<Rightarrow> traversal \<Rightarrow> ((string \<times> jsv) list \<times> traversal) option" where
  "snapshotMethodValue v depth st0 =
     (let st = st0\<lparr>nodes := nodes st0 + 1\<rparr> in
      if 10000 < nodes st \<or> 32 < depth then None
      else case v of
        JUndef \<Rightarrow> Some (v, st)
      | JNull \<Rightarrow> Some (v, st)
      | JBool _ \<Rightarrow> Some (v, st)
      | JNum _ \<Rightarrow> Some (v, st)
      | JFrac _ _ \<Rightarrow> Some (v, st)
      | JNonFin \<Rightarrow> None
      | JStr s \<Rightarrow> map_option (\<lambda>st'. (v, st')) (takeCharacters (length s) st)
      | JDate t \<Rightarrow> if t = None then None else Some (v, st)
      | JBytes bs \<Rightarrow> map_option (\<lambda>st'. (v, st')) (takeCharacters (length bs) st)
      | JArr xs \<Rightarrow>
          if JHole \<in> set xs then None
          else map_option (\<lambda>(ys, st'). (JArr ys, st')) (snapshotMethodList xs (depth + 1) st)
      | JObj plain kvs \<Rightarrow>
          if isSecretWrapper v then snapshotSecretWrapper v st
          else if \<not> plain then None
          else map_option (\<lambda>(lvs, st'). (JObj True lvs, st')) (snapshotMethodFields kvs (depth + 1) st)
      | _ \<Rightarrow> None)"
| "snapshotMethodList [] depth st = Some ([], st)"
| "snapshotMethodList (x # xs) depth st =
     (case snapshotMethodValue x depth st of
        None \<Rightarrow> None
      | Some (y, st') \<Rightarrow> map_option (\<lambda>(ys, st''). (y # ys, st'')) (snapshotMethodList xs depth st'))"
| "snapshotMethodFields [] depth st = Some ([], st)"
| "snapshotMethodFields ((k, x) # kvs) depth st =
     (case takeCharacters (length k) st of
        None \<Rightarrow> None
      | Some st1 \<Rightarrow>
          if k = '''' \<or> 512 < length k then None
          else case snapshotMethodValue x depth st1 of
            None \<Rightarrow> None
          | Some (y, st') \<Rightarrow>
              map_option (\<lambda>(lvs, st''). ((k, y) # lvs, st'')) (snapshotMethodFields kvs depth st'))"

definition snapshotValue :: "jsv \<Rightarrow> jsv option" where
  "snapshotValue v = map_option fst (snapshotMethodValue v 0 start_traversal)"

definition snapshotLookup :: "jsv \<Rightarrow> jsv option" where
  "snapshotLookup v =
     (if \<not> isRecord v then None
      else Some (obj ([(''methodId'', fld v ''methodId''), (''methodKind'', fld v ''methodKind''),
                       (''subject'', fld v ''subject''), (''subjectKind'', fld v ''subjectKind'')]
                      @ (if fld v ''display'' = JUndef then [] else [(''display'', fld v ''display'')]))))"

text \<open>\<open>None\<close> when the source returns \<open>null\<close> or a copy throws: the caller treats both alike.\<close>

definition snapshotValidatedMethodInput :: "jsv \<Rightarrow> jsv option" where
  "snapshotValidatedMethodInput v =
     (if \<not> isRecord v \<or> \<not> has_key ''value'' v
         \<or> \<not> hasOnlyKeys v [''lookup'', ''publicData'', ''value''] then None
      else case snapshotValue (fld v ''value'') of None \<Rightarrow> None | Some methodValue \<Rightarrow>
        (case (if fld v ''lookup'' = JUndef then Some []
               else map_option (\<lambda>l. [(''lookup'', l)]) (snapshotLookup (fld v ''lookup''))) of
           None \<Rightarrow> None
         | Some lookup \<Rightarrow>
        (case (if fld v ''publicData'' = JUndef then Some []
               else map_option (\<lambda>p. [(''publicData'', p)]) (structuredClone (fld v ''publicData''))) of
           None \<Rightarrow> None
         | Some publicData \<Rightarrow>
             let snapshot = obj ([(''value'', methodValue)] @ lookup @ publicData)
             in if isValidatedMethodInput snapshot then Some snapshot else None)))"

text \<open>\<open>invokeMethodValidation\<close>: \<open>None\<close> is the one validation failure it returns.\<close>

definition invokeMethodValidation ::
  "'w cfg \<Rightarrow> string \<Rightarrow> string \<Rightarrow> jsv \<Rightarrow> jsv \<Rightarrow> ('w, jsv option) auth" where
  "invokeMethodValidation c key op input context =
     bindM (attemptM (callPort c (MethodValidate key op) [input, context]))
       (\<lambda>r. ret (case r of
          None \<Rightarrow> None
        | Some result \<Rightarrow>
            if isRecord result \<and> fld result ''ok'' = JBool True
            then snapshotValidatedMethodInput (fld result ''value'') else None))"

definition isMethodFailure :: "jsv \<Rightarrow> bool" where
  "isMethodFailure v =
     (isRecord v
      \<and> fld v ''type'' = JStr ''component.failure''
      \<and> fld v ''component'' = JStr ''method''
      \<and> isSafeReason (fld v ''reason'')
      \<and> (fld v ''countsAsAttempt'' = JUndef \<or> is_bool (fld v ''countsAsAttempt''))
      \<and> (fld v ''safePublicCodeHint'' = JUndef \<or> isPublicCode (fld v ''safePublicCodeHint''))
      \<and> isPublicData (fld v ''details''))"

definition methodFailure :: jsv where
  "methodFailure = obj [(''type'', JStr ''component.failure''), (''component'', JStr ''method''),
     (''reason'', JStr ''INTERNAL'')]"

definition runOutcome :: "jsv \<Rightarrow> jsv + jsv" where
  "runOutcome result =
     (if \<not> isRecord result then Inl methodFailure
      else if fld result ''ok'' = JBool True then
        (case snapshotValue (fld result ''value'') of
           Some v \<Rightarrow> if isRecord v then Inr v else Inl methodFailure
         | None \<Rightarrow> Inl methodFailure)
      else if fld result ''ok'' = JBool False then
        (case snapshotValue (fld result ''error'') of
           Some e \<Rightarrow> if isMethodFailure e then Inl e else Inl methodFailure
         | None \<Rightarrow> Inl methodFailure)
      else Inl methodFailure)"

text \<open>\<open>invokeMethodRun\<close>: \<open>Inl\<close> a method failure, \<open>Inr\<close> a snapshot of the method's output.\<close>

definition invokeMethodRun ::
  "'w cfg \<Rightarrow> string \<Rightarrow> string \<Rightarrow> jsv \<Rightarrow> jsv \<Rightarrow> ('w, jsv + jsv) auth" where
  "invokeMethodRun c key op input context =
     bindM (attemptM (callPort c (MethodRun key op) [input, context]))
       (\<lambda>r. ret (case r of None \<Rightarrow> Inl methodFailure | Some result \<Rightarrow> runOutcome result))"

section \<open>What a copy is\<close>

text \<open>Copying a copy changes nothing and costs the same; no copy is itself a function.\<close>

lemma constant_fun_simps [simp]: "is_fun (constant_fun v)" "call_thunk (constant_fun v) = Some v"
  by (simp_all add: constant_fun_def)

lemma snapshotOptionalDate_idem [simp]:
  "snapshotOptionalDate (snapshotOptionalDate v) = snapshotOptionalDate v"
  by (simp add: snapshotOptionalDate_def)

lemma snapshotSecretWrapper_idem:
  assumes "snapshotSecretWrapper v st = Some (w, st')"
  shows "snapshotSecretWrapper w st = Some (w, st') \<and> isSecretWrapper w
    \<and> (\<exists>kvs. w = JObj True kvs)"
proof -
  note defs = snapshotSecretWrapper_def isSecretWrapper_def hasOnlyKeys_def Let_def
  consider (raw) "fld v ''type'' = JStr ''raw-secret''"
    | (protected) "fld v ''type'' = JStr ''protected-value''"
    | (sealed) "fld v ''type'' = JStr ''sealed-secret''"
    using assms unfolding snapshotSecretWrapper_def by (auto simp del: fld.simps fld_obj split: if_splits)
  then show ?thesis
  proof cases
    case raw
    with assms obtain r where r: "(\<exists>s. r = JStr s \<and> s \<noteq> '''' \<and> takeCharacters (length s) st = Some st')
        \<or> (\<exists>bs. r = JBytes bs \<and> bs \<noteq> [] \<and> takeCharacters (length bs) st = Some st')"
      "w = obj [(''type'', JStr ''raw-secret''), (''redacted'', redacted_text),
             (''reveal'', constant_fun r), (''toJSON'', constant_fun redacted_text)]"
      unfolding snapshotSecretWrapper_def
      by (auto simp del: fld.simps fld_obj split: if_splits option.splits jsv.splits)
    then show ?thesis by (auto simp: defs)
  next
    case protected
    with assms obtain s where s: "s \<noteq> ''''" "takeCharacters (length s) st = Some st'"
      and "isSafeText (fld v ''scheme'') 256 True"
      and "fld v ''keyId'' = JUndef \<or> isSafeText (fld v ''keyId'') 512 True"
      and "w = obj [(''type'', JStr ''protected-value''), (''scheme'', fld v ''scheme''),
                 (''redacted'', redacted_text), (''keyId'', fld v ''keyId''),
                 (''createdAt'', snapshotOptionalDate (fld v ''createdAt'')),
                 (''revealForPersistence'', constant_fun (JStr s)),
                 (''toJSON'', constant_fun redacted_text)]"
      unfolding snapshotSecretWrapper_def Let_def
      by (auto simp del: fld.simps fld_obj split: if_splits option.splits jsv.splits)
    then show ?thesis by (auto simp: defs)
  next
    case sealed
    with assms obtain s where s: "s \<noteq> ''''" "takeCharacters (length s) st = Some st'"
      and "isSafeText (fld v ''algorithm'') 256 True" "isSafeText (fld v ''keyId'') 512 True"
      and "w = obj [(''type'', JStr ''sealed-secret''),
                 (''algorithm'', fld v ''algorithm''), (''keyId'', fld v ''keyId''),
                 (''redacted'', redacted_text), (''expiresAt'', snapshotOptionalDate (fld v ''expiresAt'')),
                 (''revealCiphertextForPersistence'', constant_fun (JStr s)),
                 (''toJSON'', constant_fun redacted_text)]"
      unfolding snapshotSecretWrapper_def Let_def
      by (auto simp del: fld.simps fld_obj split: if_splits option.splits jsv.splits)
    then show ?thesis by (auto simp: defs)
  qed
qed


declare snapshotMethodValue.simps [simp del]

definition enter :: "traversal \<Rightarrow> traversal" where
  "enter st = st\<lparr>nodes := nodes st + 1\<rparr>"

lemma snapshotMethodValue_leaf:
  assumes "\<not> is_arr v" and "\<And>p kvs. v \<noteq> JObj p kvs" and "snapshotMethodValue v d st = Some (w, st')"
  shows "w = v" and "\<not> is_fun v" and "v \<noteq> JHole"
  using assms
  by (cases v; simp add: snapshotMethodValue.simps Let_def split: if_splits; blast)+

lemma snapshotMethodValue_JArr:
  "snapshotMethodValue (JArr xs) d st = Some (w, st') \<longleftrightarrow>
     nodes (enter st) \<le> 10000 \<and> d \<le> 32 \<and> JHole \<notin> set xs
     \<and> (\<exists>ys. w = JArr ys \<and> snapshotMethodList xs (d + 1) (enter st) = Some (ys, st'))"
  by (auto simp: snapshotMethodValue.simps Let_def enter_def)

lemma snapshotMethodValue_JObj:
  "snapshotMethodValue (JObj p kvs) d st = Some (w, st') \<longleftrightarrow>
     nodes (enter st) \<le> 10000 \<and> d \<le> 32
     \<and> (if isSecretWrapper (JObj p kvs) then snapshotSecretWrapper (JObj p kvs) (enter st) = Some (w, st')
        else p \<and> (\<exists>lvs. w = JObj True lvs \<and> snapshotMethodFields kvs (d + 1) (enter st) = Some (lvs, st')))"
  by (auto simp: snapshotMethodValue.simps Let_def enter_def)

lemma snapshotMethodValue_not_fun:
  assumes "snapshotMethodValue v d st = Some (w, st')"
  shows "\<not> is_fun w \<and> w \<noteq> JHole"
proof (cases v)
  case (JArr xs)
  with assms show ?thesis by (auto simp: snapshotMethodValue_JArr)
next
  case (JObj p kvs)
  with assms show ?thesis
    by (auto simp: snapshotMethodValue_JObj dest: snapshotSecretWrapper_idem split: if_splits)
qed (use snapshotMethodValue_leaf [of v, OF _ _ assms] in auto)

lemma snapshotMethodList_Cons:
  "snapshotMethodList (x # xs) d st = Some (zs, st') \<longleftrightarrow>
     (\<exists>y st1 ys. snapshotMethodValue x d st = Some (y, st1) \<and> snapshotMethodList xs d st1 = Some (ys, st')
        \<and> zs = y # ys)"
  by (auto split: option.splits)

lemma snapshotMethodFields_Cons:
  "snapshotMethodFields ((k, x) # kvs) d st = Some (zs, st') \<longleftrightarrow>
     (\<exists>st1 y st2 lvs. takeCharacters (length k) st = Some st1 \<and> k \<noteq> '''' \<and> length k \<le> 512
        \<and> snapshotMethodValue x d st1 = Some (y, st2) \<and> snapshotMethodFields kvs d st2 = Some (lvs, st')
        \<and> zs = (k, y) # lvs)"
  by (auto split: option.splits)

lemma snapshotMethodList_holes:
  "snapshotMethodList xs d st = Some (ys, st') \<Longrightarrow> JHole \<notin> set ys"
proof (induction xs arbitrary: ys st)
  case (Cons x xs)
  then show ?case
    unfolding snapshotMethodList_Cons by (fastforce dest: snapshotMethodValue_not_fun)
qed simp

lemma snapshotMethodFields_not_fun:
  "snapshotMethodFields kvs d st = Some (lvs, st') \<Longrightarrow> (k, x) \<in> set lvs \<Longrightarrow> \<not> is_fun x"
proof (induction kvs arbitrary: lvs st)
  case (Cons p kvs)
  obtain j y where p: "p = (j, y)" by (cases p)
  from Cons.prems(1) obtain st1 z st2 lvs' where "snapshotMethodValue y d st1 = Some (z, st2)"
    and "snapshotMethodFields kvs d st2 = Some (lvs', st')" and "lvs = (j, z) # lvs'"
    unfolding p snapshotMethodFields_Cons by blast
  with Cons.IH Cons.prems(2) snapshotMethodValue_not_fun show ?case by auto
qed simp

lemma no_fun_no_wrapper:
  assumes "\<And>k x. (k, x) \<in> set lvs \<Longrightarrow> \<not> is_fun x"
  shows "\<not> isSecretWrapper (JObj p lvs)"
proof -
  have "\<not> is_fun (fld (JObj p lvs) k)" for k
    using assms by (auto split: option.splits dest!: map_of_SomeD)
  then show ?thesis by (simp add: isSecretWrapper_def del: fld.simps fld_obj)
qed

lemma snapshotMethodValue_idem:
  "snapshotMethodValue v d st = Some (w, st') \<Longrightarrow> snapshotMethodValue w d st = Some (w, st')"
  "snapshotMethodList xs d st = Some (ys, st') \<Longrightarrow> snapshotMethodList ys d st = Some (ys, st')"
  "snapshotMethodFields kvs d st = Some (lvs, st') \<Longrightarrow> snapshotMethodFields lvs d st = Some (lvs, st')"
proof (induction v d st and xs d st and kvs d st arbitrary: w st' and ys st' and lvs st'
    rule: snapshotMethodValue_snapshotMethodList_snapshotMethodFields.induct)
  case (1 v d st)
  show ?case
  proof (cases v)
    case (JArr xs)
    with "1.prems" obtain ys where ys: "nodes (enter st) \<le> 10000" "d \<le> 32" "JHole \<notin> set xs" "w = JArr ys"
      and l: "snapshotMethodList xs (d + 1) (enter st) = Some (ys, st')"
      by (auto simp: snapshotMethodValue_JArr)
    have "snapshotMethodList ys (d + 1) (enter st) = Some (ys, st')"
      by (rule "1.IH"(1) [OF enter_def _ JArr]) (use ys l in simp_all)
    with ys snapshotMethodList_holes [OF l] show ?thesis by (simp add: snapshotMethodValue_JArr)
  next
    case (JObj p kvs)
    show ?thesis
    proof (cases "isSecretWrapper v")
      case True
      with "1.prems" JObj have w: "snapshotSecretWrapper v (enter st) = Some (w, st')"
        "nodes (enter st) \<le> 10000" "d \<le> 32"
        by (auto simp: snapshotMethodValue_JObj)
      from snapshotSecretWrapper_idem [OF w(1)] w(2,3) show ?thesis
        by (auto simp: snapshotMethodValue_JObj)
    next
      case False
      with "1.prems" JObj obtain lvs where lvs: "snapshotMethodFields kvs (d + 1) (enter st) = Some (lvs, st')"
        and w: "w = JObj True lvs" "p" "nodes (enter st) \<le> 10000" "d \<le> 32"
        by (auto simp: snapshotMethodValue_JObj)
      have "snapshotMethodFields lvs (d + 1) (enter st) = Some (lvs, st')"
        by (rule "1.IH"(2) [OF enter_def _ JObj]) (use False w lvs in simp_all)
      with no_fun_no_wrapper [OF snapshotMethodFields_not_fun [OF lvs]] w show ?thesis
        by (simp add: snapshotMethodValue_JObj)
    qed
  qed (use "1.prems" snapshotMethodValue_leaf [of v, OF _ _ "1.prems"] in auto)
next
  case (3 x xs d st)
  from "3.prems" obtain y st1 zs where y: "snapshotMethodValue x d st = Some (y, st1)"
    and zs: "snapshotMethodList xs d st1 = Some (zs, st')" "ys = y # zs"
    unfolding snapshotMethodList_Cons by blast
  have "snapshotMethodValue y d st = Some (y, st1)" by (rule "3.IH"(1) [OF y])
  moreover have "snapshotMethodList zs d st1 = Some (zs, st')"
    by (rule "3.IH"(2) [OF y refl zs(1)])
  ultimately show ?case unfolding zs(2) snapshotMethodList_Cons by blast
next
  case (5 k x kvs d st)
  from "5.prems" obtain st1 y st2 zs where k: "takeCharacters (length k) st = Some st1"
    "k \<noteq> ''''" "length k \<le> 512"
    and y: "snapshotMethodValue x d st1 = Some (y, st2)"
    and zs: "snapshotMethodFields kvs d st2 = Some (zs, st')" "lvs = (k, y) # zs"
    unfolding snapshotMethodFields_Cons by blast
  have short: "\<not> (k = '''' \<or> 512 < length k)" using k by simp
  have "snapshotMethodValue y d st1 = Some (y, st2)" by (rule "5.IH"(1) [OF k(1) short y])
  moreover have "snapshotMethodFields zs d st2 = Some (zs, st')"
    by (rule "5.IH"(2) [OF k(1) short y refl zs(1)])
  ultimately show ?case unfolding zs(2) snapshotMethodFields_Cons using k by blast
qed simp_all

lemma snapshotValue_idem: "snapshotValue v = Some w \<Longrightarrow> snapshotValue w = Some w"
  unfolding snapshotValue_def using snapshotMethodValue_idem(1) by fastforce

text \<open>The size of a copy: a secret wrapper counts once, every other value with its parts.\<close>

fun value_nodes :: "jsv \<Rightarrow> nat"
  and list_nodes :: "jsv list \<Rightarrow> nat"
  and fields_nodes :: "(string \<times> jsv) list \<Rightarrow> nat" where
  "value_nodes (JArr xs) = Suc (list_nodes xs)"
| "value_nodes (JObj p kvs) =
     (if isSecretWrapper (JObj p kvs) then 1 else Suc (fields_nodes kvs))"
| "value_nodes _ = 1"
| "list_nodes [] = 0"
| "list_nodes (x # xs) = value_nodes x + list_nodes xs"
| "fields_nodes [] = 0"
| "fields_nodes ((_, x) # kvs) = value_nodes x + fields_nodes kvs"

lemma takeCharacters_nodes: "takeCharacters n st = Some st' \<Longrightarrow> nodes st' = nodes st"
  by (auto simp: takeCharacters_def Let_def split: if_splits)

lemma snapshotSecretWrapper_nodes:
  "snapshotSecretWrapper v st = Some (w, st') \<Longrightarrow> nodes st' = nodes st"
  unfolding snapshotSecretWrapper_def Let_def
  by (auto simp del: fld.simps fld_obj dest: takeCharacters_nodes
      split: if_splits option.splits jsv.splits)

lemma snapshotMethodValue_leaf_nodes:
  assumes "\<not> is_arr v" and "\<And>p kvs. v \<noteq> JObj p kvs" and "snapshotMethodValue v d st = Some (w, st')"
  shows "nodes st' = Suc (nodes st) \<and> nodes st' \<le> 10000 \<and> value_nodes w = 1"
  using assms
  by (cases v; simp add: snapshotMethodValue.simps Let_def split: if_splits)
    (auto dest: takeCharacters_nodes)

lemma snapshotMethodValue_nodes:
  "snapshotMethodValue v d st = Some (w, st') \<Longrightarrow>
     nodes st' = nodes st + value_nodes w \<and> nodes st' \<le> 10000"
  "snapshotMethodList xs d st = Some (ys, st') \<Longrightarrow> nodes st \<le> 10000 \<Longrightarrow>
     nodes st' = nodes st + list_nodes ys \<and> nodes st' \<le> 10000"
  "snapshotMethodFields kvs d st = Some (lvs, st') \<Longrightarrow> nodes st \<le> 10000 \<Longrightarrow>
     nodes st' = nodes st + fields_nodes lvs \<and> nodes st' \<le> 10000"
proof (induction v d st and xs d st and kvs d st arbitrary: w st' and ys st' and lvs st'
    rule: snapshotMethodValue_snapshotMethodList_snapshotMethodFields.induct)
  case (1 v d st)
  have enter: "nodes (enter st) = Suc (nodes st)" by (simp add: enter_def)
  show ?case
  proof (cases v)
    case (JArr xs)
    with "1.prems" obtain ys where ys: "nodes (enter st) \<le> 10000" "d \<le> 32" "JHole \<notin> set xs" "w = JArr ys"
      and l: "snapshotMethodList xs (d + 1) (enter st) = Some (ys, st')"
      by (auto simp: snapshotMethodValue_JArr)
    have "nodes st' = nodes (enter st) + list_nodes ys \<and> nodes st' \<le> 10000"
      by (rule "1.IH"(1) [OF enter_def _ JArr]) (use ys l in simp_all)
    with ys enter show ?thesis by simp
  next
    case (JObj p kvs)
    show ?thesis
    proof (cases "isSecretWrapper v")
      case True
      with "1.prems" JObj have w: "snapshotSecretWrapper v (enter st) = Some (w, st')"
        "nodes (enter st) \<le> 10000"
        by (auto simp: snapshotMethodValue_JObj)
      from snapshotSecretWrapper_idem [OF w(1)] snapshotSecretWrapper_nodes [OF w(1)] w(2) enter
      show ?thesis by auto
    next
      case False
      with "1.prems" JObj obtain lvs where lvs: "snapshotMethodFields kvs (d + 1) (enter st) = Some (lvs, st')"
        and w: "w = JObj True lvs" "p" "nodes (enter st) \<le> 10000" "d \<le> 32"
        by (auto simp: snapshotMethodValue_JObj)
      have "nodes st' = nodes (enter st) + fields_nodes lvs \<and> nodes st' \<le> 10000"
        by (rule "1.IH"(2) [OF enter_def _ JObj]) (use False w lvs in simp_all)
      with no_fun_no_wrapper [OF snapshotMethodFields_not_fun [OF lvs]] w enter show ?thesis
        by simp
    qed
  qed (use "1.prems" snapshotMethodValue_leaf_nodes [of v, OF _ _ "1.prems"] in auto)
next
  case (3 x xs d st)
  from "3.prems"(1) obtain y st1 zs where y: "snapshotMethodValue x d st = Some (y, st1)"
    and zs: "snapshotMethodList xs d st1 = Some (zs, st')" "ys = y # zs"
    unfolding snapshotMethodList_Cons by blast
  have "nodes st1 = nodes st + value_nodes y \<and> nodes st1 \<le> 10000" by (rule "3.IH"(1) [OF y])
  with "3.IH"(2) [OF y refl zs(1)] zs(2) show ?case by simp
next
  case (5 k x kvs d st)
  from "5.prems"(1) obtain st1 y st2 zs where k: "takeCharacters (length k) st = Some st1"
    "k \<noteq> ''''" "length k \<le> 512"
    and y: "snapshotMethodValue x d st1 = Some (y, st2)"
    and zs: "snapshotMethodFields kvs d st2 = Some (zs, st')" "lvs = (k, y) # zs"
    unfolding snapshotMethodFields_Cons by blast
  have short: "\<not> (k = '''' \<or> 512 < length k)" using k by simp
  have "nodes st2 = nodes st1 + value_nodes y \<and> nodes st2 \<le> 10000"
    by (rule "5.IH"(1) [OF k(1) short y])
  with "5.IH"(2) [OF k(1) short y refl zs(1)] zs(2) takeCharacters_nodes [OF k(1)] show ?case by simp
qed simp_all

lemma snapshotValue_bounded: "snapshotValue v = Some w \<Longrightarrow> value_nodes w \<le> 10000"
  by (auto simp: snapshotValue_def start_traversal_def dest: snapshotMethodValue_nodes(1))


end
