(* ===== verification/MethodOutput.thy ===== *)
theory MethodOutput
  imports MethodInvoke
begin

text \<open>
  \<open>packages/core/src/method/context.ts\<close>, \<open>method/snapshot.ts\<close> and \<open>method/proof.ts\<close>: what a
  method is told, how its accepted output is copied, and when its proof is believed.
  Copies are options: \<open>None\<close> when the source throws.
\<close>

section \<open>Copies of accepted outputs (snapshot.ts)\<close>

definition utf8_length :: "string \<Rightarrow> nat" where
  "utf8_length s = sum_list (map (\<lambda>c. if of_char c < (128::nat) then 1 else 2) s)"

fun cloneSecretScalar :: "jsv \<Rightarrow> jsv option" where
  "cloneSecretScalar (JStr s) = (if utf8_length s \<le> 5000000 then Some (JStr s) else None)"
| "cloneSecretScalar (JBytes bs) = (if length bs \<le> 5000000 then Some (JBytes bs) else None)"
| "cloneSecretScalar _ = None"

definition deliverySecretSnapshot :: "jsv \<Rightarrow> jsv option" where
  "deliverySecretSnapshot v =
     (case call_thunk (fld v ''reveal'') of None \<Rightarrow> None
      | Some r \<Rightarrow> map_option (\<lambda>revealed. obj [(''type'', JStr ''raw-secret''), (''redacted'', redacted_text),
          (''reveal'', constant_fun revealed), (''toJSON'', constant_fun redacted_text)])
          (cloneSecretScalar r))"

definition protectedValueSnapshot :: "jsv \<Rightarrow> jsv option" where
  "protectedValueSnapshot v =
     (case call_thunk (fld v ''revealForPersistence'') of
        Some (JStr verifier) \<Rightarrow>
          if verifier = '''' \<or> 1000000 < length verifier then None
          else Some (obj [(''type'', JStr ''protected-value''), (''scheme'', fld v ''scheme''),
            (''redacted'', redacted_text), (''keyId'', fld v ''keyId''),
            (''createdAt'', copy_date_opt (fld v ''createdAt'')),
            (''revealForPersistence'', constant_fun (JStr verifier)),
            (''toJSON'', constant_fun redacted_text)])
      | _ \<Rightarrow> None)"

definition sealedValueSnapshot :: "jsv \<Rightarrow> jsv option" where
  "sealedValueSnapshot v =
     (case call_thunk (fld v ''revealCiphertextForPersistence'') of
        Some (JStr ciphertext) \<Rightarrow>
          if ciphertext = '''' \<or> 5000000 < length ciphertext then None
          else Some (obj [(''type'', JStr ''sealed-secret''), (''algorithm'', fld v ''algorithm''),
            (''keyId'', fld v ''keyId''), (''redacted'', redacted_text),
            (''expiresAt'', copy_date_opt (fld v ''expiresAt'')),
            (''revealCiphertextForPersistence'', constant_fun (JStr ciphertext)),
            (''toJSON'', constant_fun redacted_text)])
      | _ \<Rightarrow> None)"

fun mapO :: "('a \<Rightarrow> 'b option) \<Rightarrow> 'a list \<Rightarrow> 'b list option" where
  "mapO f [] = Some []"
| "mapO f (x # xs) = (case f x of None \<Rightarrow> None | Some y \<Rightarrow> map_option (\<lambda>ys. y # ys) (mapO f xs))"

text \<open>\<open>Object.fromEntries(Object.entries(data).map(...))\<close>\<close>

definition mapEntries :: "(jsv \<Rightarrow> jsv option) \<Rightarrow> jsv \<Rightarrow> jsv option" where
  "mapEntries f v =
     map_option (JObj True) (mapO (\<lambda>(k, x). map_option (\<lambda>y. (k, y)) (f x)) (obj_entries v))"

definition snapshotPrivateData :: "jsv \<Rightarrow> jsv option" where
  "snapshotPrivateData data =
     (if \<not> truthy data then Some JUndef
      else mapEntries (\<lambda>x.
        if fld x ''type'' = JStr ''protected-value'' then protectedValueSnapshot x
        else if fld x ''type'' = JStr ''sealed-secret'' then sealedValueSnapshot x
        else structuredClone x) data)"

definition snapshotDeliveryData :: "jsv \<Rightarrow> jsv option" where
  "snapshotDeliveryData data =
     (if \<not> truthy data then Some JUndef
      else mapEntries (\<lambda>x.
        if fld x ''type'' = JStr ''raw-secret'' then deliverySecretSnapshot x
        else structuredClone x) data)"

definition snapshotMaterial :: "jsv \<Rightarrow> jsv option" where
  "snapshotMaterial m =
     (case (clone_if_truthy (fld m ''publicData''), snapshotPrivateData (fld m ''privateData'')) of
        (Some publicData, Some privateData) \<Rightarrow>
          Some (obj [(''schemaVersion'', fld m ''schemaVersion''), (''publicData'', publicData),
                     (''privateData'', privateData)])
      | _ \<Rightarrow> None)"

definition snapshotDeliveryMessage :: "jsv \<Rightarrow> jsv option" where
  "snapshotDeliveryMessage m =
     (case (snapshotDeliveryData (fld m ''data''), clone_if_truthy (fld m ''metadata'')) of
        (Some data, Some metadata) \<Rightarrow>
          Some (obj [(''to'', spread (fld m ''to'') []), (''templateId'', fld m ''templateId''),
            (''data'', data), (''locale'', fld m ''locale''), (''metadata'', metadata)])
      | _ \<Rightarrow> None)"

definition snapshotSideEffect :: "jsv \<Rightarrow> jsv option" where
  "snapshotSideEffect effect =
     map_option (\<lambda>message. obj [
        (''type'', JStr ''delivery''),
        (''message'', message),
        (''expiresAt'', copy_date_opt (fld effect ''expiresAt'')),
        (''dispatchPolicy'', if fld effect ''dispatchPolicy'' = JStr ''required''
                           then JStr ''required'' else JStr ''best-effort''),
        (''idempotencyKey'', fld effect ''idempotencyKey'')])
     (snapshotDeliveryMessage (fld effect ''message''))"

text \<open>\<open>sideEffects?.map(snapshotSideEffect)\<close>: the list of effects, absent or an array.\<close>

definition snapshotSideEffects :: "jsv \<Rightarrow> jsv option" where
  "snapshotSideEffects v =
     (if nullish v then Some JUndef else map_option JArr (mapO snapshotSideEffect (arr_elems v)))"

definition snapshotIdentity :: "jsv \<Rightarrow> jsv" where
  "snapshotIdentity i = obj [
     (''methodId'', fld i ''methodId''), (''methodKind'', fld i ''methodKind''),
     (''subject'', fld i ''subject''), (''subjectKind'', fld i ''subjectKind''),
     (''display'', fld i ''display''), (''verifiedAt'', copy_date_opt (fld i ''verifiedAt''))]"

definition snapshot_opt :: "(jsv \<Rightarrow> jsv option) \<Rightarrow> jsv \<Rightarrow> jsv option" where
  "snapshot_opt f v = (if truthy v then f v else Some JUndef)"

definition snapshotEnrollResult :: "jsv \<Rightarrow> jsv option" where
  "snapshotEnrollResult v =
     (case (snapshot_opt snapshotMaterial (fld v ''credentialMaterial''),
            snapshot_opt structuredClone (fld v ''proof''),
            snapshotSideEffects (fld v ''sideEffects''),
            clone_if_truthy (fld v ''publicData'')) of
        (Some material, Some proof, Some effects, Some publicData) \<Rightarrow>
          Some (obj [(''identity'', snapshotIdentity (fld v ''identity'')),
            (''credentialMaterial'', material), (''proof'', proof),
            (''sideEffects'', effects), (''publicData'', publicData)])
      | _ \<Rightarrow> None)"

definition snapshotAuthenticateResult :: "jsv \<Rightarrow> jsv option" where
  "snapshotAuthenticateResult v =
     (case (structuredClone (fld v ''proof''),
            snapshot_opt snapshotMaterial (fld v ''credentialMaterial''),
            snapshotSideEffects (fld v ''sideEffects''),
            clone_if_truthy (fld v ''publicData'')) of
        (Some proof, Some material, Some effects, Some publicData) \<Rightarrow>
          Some (obj [(''proof'', proof), (''credentialMaterial'', material),
            (''sideEffects'', effects), (''publicData'', publicData)])
      | _ \<Rightarrow> None)"

definition snapshotBeginResult :: "jsv \<Rightarrow> jsv option" where
  "snapshotBeginResult v =
     (case (snapshotMaterial (fld v ''challengeMaterial''),
            snapshotSideEffects (fld v ''sideEffects''),
            clone_if_truthy (fld v ''publicData'')) of
        (Some material, Some effects, Some publicData) \<Rightarrow>
          Some (obj [(''challengeMaterial'', material), (''expiresAt'', fld v ''expiresAt''),
            (''maxAttempts'', fld v ''maxAttempts''), (''sideEffects'', effects),
            (''publicData'', publicData)])
      | _ \<Rightarrow> None)"

definition snapshotCompleteResult :: "jsv \<Rightarrow> jsv option" where
  "snapshotCompleteResult v =
     (case (structuredClone (fld v ''proof''),
            snapshotSideEffects (fld v ''sideEffects''),
            clone_if_truthy (fld v ''publicData'')) of
        (Some proof, Some effects, Some publicData) \<Rightarrow>
          Some (obj [(''proof'', proof), (''sideEffects'', effects), (''publicData'', publicData)])
      | _ \<Rightarrow> None)"

section \<open>What methods are told (context.ts)\<close>

definition validationContext :: "jsv \<Rightarrow> jsv \<Rightarrow> jsv \<Rightarrow> jsv option" where
  "validationContext method auth now =
     map_option (\<lambda>a. obj [(''method'', spread method []), (''auth'', a), (''now'', now)])
       (decisionAuthContext auth)"

text \<open>\<open>identity\<close>: the identifier of the identity, of its credential and the credential's material.\<close>

definition executionContext ::
  "jsv \<Rightarrow> jsv \<Rightarrow> jsv \<Rightarrow> jsv \<Rightarrow> (jsv \<times> jsv \<times> jsv) option \<Rightarrow> jsv option" where
  "executionContext method auth now lookup identity =
     (case (decisionAuthContext auth,
            (case identity of None \<Rightarrow> Some JUndef
             | Some (identityId, credentialId, material) \<Rightarrow>
                 map_option (\<lambda>m. obj [(''identityId'', identityId), (''credentialId'', credentialId),
                     (''credentialMaterial'', m)])
                   (snapshot_opt snapshotMaterial material))) of
        (Some a, Some i) \<Rightarrow>
          Some (obj [(''method'', spread method []), (''auth'', a), (''now'', now),
            (''lookup'', if truthy lookup then spread lookup [] else JUndef), (''identity'', i)])
      | _ \<Rightarrow> None)"

definition toMethodRef :: "methodConfig option \<Rightarrow> jsv" where
  "toMethodRef m =
     (case m of
        None \<Rightarrow> obj [(''methodId'', JStr ''unknown''), (''methodKind'', JStr ''unknown'')]
      | Some mc \<Rightarrow> obj [(''methodId'', methodId mc), (''methodKind'', methodKind mc)])"

section \<open>Proofs (proof.ts)\<close>

definition identityKeyForProof :: "jsv \<Rightarrow> string" where
  "identityKeyForProof identity =
     str_or (fld identity ''methodId'') ''undefined'' @ [char_of (0::nat)]
       @ str_or (fld identity ''subject'') ''undefined''"

definition isBoundedDenseArray :: "jsv \<Rightarrow> nat \<Rightarrow> bool" where
  "isBoundedDenseArray v n = (is_arr v \<and> length (arr_elems v) \<le> n \<and> JHole \<notin> set (arr_elems v))"

definition isEvidence :: "jsv \<Rightarrow> bool" where
  "isEvidence v =
     (isRecord v \<and> hasOnlyKeys v [''details'', ''kind'', ''method'']
      \<and> isRecord (fld v ''method'') \<and> hasOnlyKeys (fld v ''method'') [''methodId'', ''methodKind'']
      \<and> isNonEmptyString (fld v ''kind'')
      \<and> isStableMethodId (fld (fld v ''method'') ''methodId'')
      \<and> isNonEmptyString (fld (fld v ''method'') ''methodKind'')
      \<and> isPublicData (fld v ''details''))"

definition isAssurance :: "jsv \<Rightarrow> bool" where
  "isAssurance v =
     (isRecord v \<and> hasOnlyKeys v [''factors'', ''level'']
      \<and> fld v ''level'' \<in> {JStr ''low'', JStr ''medium'', JStr ''high''}
      \<and> (fld v ''factors'' = JUndef
         \<or> isBoundedDenseArray (fld v ''factors'') 32
           \<and> list_all isNonEmptyString (arr_elems (fld v ''factors''))))"

definition identityMatchesMethod :: "jsv \<Rightarrow> jsv \<Rightarrow> bool" where
  "identityMatchesMethod method identity =
     (truthy method \<and> truthy identity
      \<and> fld method ''methodId'' = fld identity ''methodId''
      \<and> fld method ''methodKind'' = fld identity ''methodKind'')"

definition identityMatches :: "jsv \<Rightarrow> jsv \<Rightarrow> bool" where
  "identityMatches left right =
     (if \<not> truthy left then True
      else if \<not> truthy right then False
      else fld left ''methodId'' = fld right ''methodId''
        \<and> fld left ''methodKind'' = fld right ''methodKind''
        \<and> fld left ''subject'' = fld right ''subject''
        \<and> fld left ''subjectKind'' = fld right ''subjectKind'')"

fun additionalIdentitiesOk :: "jsv \<Rightarrow> string list \<Rightarrow> jsv list \<Rightarrow> bool" where
  "additionalIdentitiesOk now seen [] = True"
| "additionalIdentitiesOk now seen (identity # rest) =
     (isIdentityClaim identity now
      \<and> identityKeyForProof identity \<notin> set seen
      \<and> additionalIdentitiesOk now (identityKeyForProof identity # seen) rest)"

definition proofKeys :: "string list" where
  "proofKeys = [''additionalIdentities'', ''assurance'', ''authTime'', ''claims'', ''evidence'',
     ''expiresAt'', ''primaryIdentity'', ''proofMethod'', ''type'']"

definition proofMatches :: "jsv \<Rightarrow> jsv \<Rightarrow> jsv \<Rightarrow> jsv \<Rightarrow> bool" where
  "proofMatches method lookup proof now =
     (if \<not> isRecord proof \<or> \<not> hasOnlyKeys proof proofKeys
         \<or> fld proof ''type'' \<noteq> JStr ''auth.proof'' then False
      else if \<not> isRecord (fld proof ''proofMethod'')
         \<or> \<not> hasOnlyKeys (fld proof ''proofMethod'') [''methodId'', ''methodKind''] then False
      else if fld (fld proof ''proofMethod'') ''methodId'' \<noteq> fld method ''methodId''
         \<or> fld (fld proof ''proofMethod'') ''methodKind'' \<noteq> fld method ''methodKind'' then False
      else if \<not> isValidDate (fld proof ''authTime'') \<or> date_less now (fld proof ''authTime'') then False
      else if fld proof ''expiresAt'' \<noteq> JUndef
         \<and> (\<not> isValidDate (fld proof ''expiresAt'') \<or> date_le (fld proof ''expiresAt'') now
            \<or> date_less (fld proof ''expiresAt'') (fld proof ''authTime'')) then False
      else if \<not> isIdentityClaim (fld proof ''primaryIdentity'') now
         \<or> \<not> identityMatchesMethod method (fld proof ''primaryIdentity'')
         \<or> \<not> identityMatches lookup (fld proof ''primaryIdentity'') then False
      else if fld proof ''additionalIdentities'' \<noteq> JUndef
         \<and> \<not> isBoundedDenseArray (fld proof ''additionalIdentities'') 100 then False
      else if \<not> additionalIdentitiesOk now [identityKeyForProof (fld proof ''primaryIdentity'')]
                (arr_elems (fld proof ''additionalIdentities'')) then False
      else if \<not> isBoundedDenseArray (fld proof ''evidence'') 100
         \<or> \<not> list_all isEvidence (arr_elems (fld proof ''evidence'')) then False
      else if \<not> isPublicData (fld proof ''claims'') then False
      else fld proof ''assurance'' = JUndef \<or> isAssurance (fld proof ''assurance''))"

definition isValidBeginOutput :: "jsv \<Rightarrow> jsv \<Rightarrow> bool" where
  "isValidBeginOutput v now =
     (isRecord v
      \<and> date_less now (fld v ''expiresAt'')
      \<and> is_safe_integer (fld v ''maxAttempts'')
      \<and> 0 < num_val (fld v ''maxAttempts'') \<and> num_val (fld v ''maxAttempts'') \<le> 1000000
      \<and> fld v ''challengeMaterial'' \<noteq> JUndef
      \<and> isMethodMaterial (fld v ''challengeMaterial'')
      \<and> isSideEffects (fld v ''sideEffects''))"

section \<open>What a believed proof says\<close>

lemma isIdentityClaim_mono:
  assumes "isIdentityClaim v t" and "date_le t u"
  shows "isIdentityClaim v u"
  using assms by (auto simp: isIdentityClaim_def date_le_iff)

lemma additionalIdentitiesOk_iff:
  "additionalIdentitiesOk now seen xs \<longleftrightarrow>
     list_all (\<lambda>x. isIdentityClaim x now) xs
     \<and> distinct (map identityKeyForProof xs)
     \<and> identityKeyForProof ` set xs \<inter> set seen = {}"
  by (induction now seen xs rule: additionalIdentitiesOk.induct) auto

text \<open>The parts of \<open>proofMatches\<close> that do not depend on the clock, and those that do.\<close>

definition proofShape :: "jsv \<Rightarrow> jsv \<Rightarrow> jsv \<Rightarrow> bool" where
  "proofShape method lookup proof =
     (isRecord proof \<and> hasOnlyKeys proof proofKeys \<and> fld proof ''type'' = JStr ''auth.proof''
      \<and> isRecord (fld proof ''proofMethod'')
      \<and> hasOnlyKeys (fld proof ''proofMethod'') [''methodId'', ''methodKind'']
      \<and> fld (fld proof ''proofMethod'') ''methodId'' = fld method ''methodId''
      \<and> fld (fld proof ''proofMethod'') ''methodKind'' = fld method ''methodKind''
      \<and> identityMatchesMethod method (fld proof ''primaryIdentity'')
      \<and> identityMatches lookup (fld proof ''primaryIdentity'')
      \<and> (fld proof ''additionalIdentities'' = JUndef
         \<or> isBoundedDenseArray (fld proof ''additionalIdentities'') 100)
      \<and> distinct (map identityKeyForProof
          (fld proof ''primaryIdentity'' # arr_elems (fld proof ''additionalIdentities'')))
      \<and> isBoundedDenseArray (fld proof ''evidence'') 100
      \<and> list_all isEvidence (arr_elems (fld proof ''evidence''))
      \<and> isPublicData (fld proof ''claims'')
      \<and> (fld proof ''assurance'' = JUndef \<or> isAssurance (fld proof ''assurance'')))"

definition proofTimely :: "jsv \<Rightarrow> jsv \<Rightarrow> bool" where
  "proofTimely proof now =
     (isValidDate (fld proof ''authTime'') \<and> \<not> date_less now (fld proof ''authTime'')
      \<and> (fld proof ''expiresAt'' = JUndef
         \<or> isValidDate (fld proof ''expiresAt'') \<and> \<not> date_le (fld proof ''expiresAt'') now
           \<and> \<not> date_less (fld proof ''expiresAt'') (fld proof ''authTime''))
      \<and> list_all (\<lambda>x. isIdentityClaim x now)
          (fld proof ''primaryIdentity'' # arr_elems (fld proof ''additionalIdentities'')))"

lemma proofMatches_iff:
  "proofMatches method lookup proof now \<longleftrightarrow> proofShape method lookup proof \<and> proofTimely proof now"
proof -
  have if_False: "(if P then False else Q) \<longleftrightarrow> \<not> P \<and> Q" for P Q by simp
  have disjoint: "f ` S \<inter> set [a] = {} \<longleftrightarrow> a \<notin> f ` S" for f :: "jsv \<Rightarrow> string" and S a by auto
  show ?thesis
    unfolding proofMatches_def proofShape_def proofTimely_def additionalIdentitiesOk_iff
    unfolding if_False disjoint de_Morgan_disj de_Morgan_conj not_not list.map distinct.simps
      list.pred_inject set_map
    by argo
qed

lemma proofTimely_between:
  assumes "proofTimely p t1" and "proofTimely p t2" and "date_le t1 t" and "date_le t t2"
  shows "proofTimely p t"
  using assms isIdentityClaim_mono [of _ t1 t] unfolding proofTimely_def
  by (auto simp: date_le_iff date_less_iff list_all_iff simp del: fld.simps fld_obj)


section \<open>A copy of valid material is valid material\<close>

lemma public_item:
  assumes "isPublicData (obj [(''value'', x)])"
  shows "structuredClone x = Some x" and "fld x ''type'' \<notin> set secretDescriptorTypes"
proof -
  from isPublicData_clone [OF assms] show "structuredClone x = Some x"
    by (auto split: option.splits)
  from assms obtain st where "isJsonFields [(''value'', x)] 0 start_traversal = Some st"
    by (auto simp: isPublicData_def simp del: isJsonFields.simps)
  from json_secret_free(3) [OF this] have "secret_free x" by simp
  then show "fld x ''type'' \<notin> set secretDescriptorTypes"
    by (cases x) (auto simp: secretDescriptorTypes_def)
qed

definition private_item :: "jsv \<Rightarrow> bool" where
  "private_item x = (isMaterialProtectedValue x \<or> isSealedValue x \<or> isPublicData (obj [(''value'', x)]))"

definition snapshot_private_item :: "jsv \<Rightarrow> jsv option" where
  "snapshot_private_item x =
     (if fld x ''type'' = JStr ''protected-value'' then protectedValueSnapshot x
      else if fld x ''type'' = JStr ''sealed-secret'' then sealedValueSnapshot x
      else structuredClone x)"

lemma redacted_safe: "isSafeText redacted_text 1024 False" and redacted_str: "is_str redacted_text"
  by code_simp+

lemma copy_date_opt_valid:
  "v = JUndef \<or> isValidDate v \<Longrightarrow> copy_date_opt v = v"
  by (auto simp: copy_date_opt_def isValidDate_iff)

lemma protectedValueSnapshot_valid:
  assumes "isMaterialProtectedValue x" and "protectedValueSnapshot x = Some y"
  shows "isMaterialProtectedValue y"
proof -
  from assms(1) have c: "copy_date_opt (fld x ''createdAt'') = fld x ''createdAt''"
    by (intro copy_date_opt_valid) (auto simp: isMaterialProtectedValue_def simp del: fld.simps fld_obj)
  from assms(2) c obtain s where y: "y = obj [(''type'', JStr ''protected-value''), (''scheme'', fld x ''scheme''),
            (''redacted'', redacted_text), (''keyId'', fld x ''keyId''), (''createdAt'', fld x ''createdAt''),
            (''revealForPersistence'', constant_fun (JStr s)), (''toJSON'', constant_fun redacted_text)]"
    by (auto simp: protectedValueSnapshot_def simp del: fld.simps fld_obj
        split: option.splits jsv.splits if_splits)
  have "hasOnlyKeys y protectedValueKeys" "isRecord y" "fld y ''type'' = JStr ''protected-value''"
    "isSafeText (fld y ''redacted'') 1024 False" "is_fun (fld y ''revealForPersistence'')" "is_fun (fld y ''toJSON'')"
    "fld y ''scheme'' = fld x ''scheme''" "fld y ''keyId'' = fld x ''keyId''"
    "fld y ''createdAt'' = fld x ''createdAt''"
    unfolding y hasOnlyKeys_def protectedValueKeys_def by (simp_all add: redacted_safe)
  with assms(1) show ?thesis by (simp add: isMaterialProtectedValue_def del: fld.simps fld_obj)
qed

lemma sealedValueSnapshot_valid:
  assumes "isSealedValue x" and "sealedValueSnapshot x = Some y"
  shows "isSealedValue y"
proof -
  from assms(1) have c: "copy_date_opt (fld x ''expiresAt'') = fld x ''expiresAt''"
    by (intro copy_date_opt_valid) (auto simp: isSealedValue_def simp del: fld.simps fld_obj)
  from assms(2) c obtain s where y: "y = obj [(''type'', JStr ''sealed-secret''), (''algorithm'', fld x ''algorithm''),
            (''keyId'', fld x ''keyId''), (''redacted'', redacted_text), (''expiresAt'', fld x ''expiresAt''),
            (''revealCiphertextForPersistence'', constant_fun (JStr s)), (''toJSON'', constant_fun redacted_text)]"
    by (auto simp: sealedValueSnapshot_def simp del: fld.simps fld_obj
        split: option.splits jsv.splits if_splits)
  have "hasOnlyKeys y sealedValueKeys" "isRecord y" "fld y ''type'' = JStr ''sealed-secret''"
    "isSafeText (fld y ''redacted'') 1024 False" "is_fun (fld y ''revealCiphertextForPersistence'')"
    "is_fun (fld y ''toJSON'')" "fld y ''algorithm'' = fld x ''algorithm''" "fld y ''keyId'' = fld x ''keyId''"
    "fld y ''expiresAt'' = fld x ''expiresAt''"
    unfolding y hasOnlyKeys_def sealedValueKeys_def by (simp_all add: redacted_safe)
  with assms(1) show ?thesis by (simp add: isSealedValue_def del: fld.simps fld_obj)
qed

lemma private_item_snapshot:
  assumes "private_item x" and "snapshot_private_item x = Some y"
  shows "private_item y"
proof -
  consider "isMaterialProtectedValue x" | "isSealedValue x" | "isPublicData (obj [(''value'', x)])"
    using assms(1) unfolding private_item_def by blast
  then show ?thesis
  proof cases
    case 1
    then have "fld x ''type'' = JStr ''protected-value''" by (simp add: isMaterialProtectedValue_def)
    with 1 assms(2) protectedValueSnapshot_valid show ?thesis
      by (simp add: snapshot_private_item_def private_item_def)
  next
    case 2
    then have "fld x ''type'' = JStr ''sealed-secret''" by (simp add: isSealedValue_def)
    with 2 assms(2) sealedValueSnapshot_valid show ?thesis
      by (simp add: snapshot_private_item_def private_item_def)
  next
    case 3
    with public_item [OF 3] assms show ?thesis
      by (simp add: snapshot_private_item_def secretDescriptorTypes_def)
  qed
qed

lemma mapO_entries:
  assumes "mapO (\<lambda>(k, x). map_option (\<lambda>y. (k, y)) (f x)) kvs = Some lvs"
    and "\<And>x y. P x \<Longrightarrow> f x = Some y \<Longrightarrow> P y"
    and "list_all (\<lambda>(k, x). Q k \<and> P x) kvs"
  shows "map fst lvs = map fst kvs \<and> list_all (\<lambda>(k, x). Q k \<and> P x) lvs"
  using assms(1,3)
proof (induction kvs arbitrary: lvs)
  case (Cons e kvs)
  obtain k x where e: "e = (k, x)" by (cases e)
  with Cons.prems obtain y rest where y: "f x = Some y" and lvs: "lvs = (k, y) # rest"
    and rest: "mapO (\<lambda>(k, x). map_option (\<lambda>y. (k, y)) (f x)) kvs = Some rest"
    by (auto split: option.splits)
  from Cons.prems(2) e have "P x" by simp
  from assms(2) [OF this y] Cons.IH [OF rest] Cons.prems(2) e lvs show ?case by simp
qed simp

lemma length_obj_keys: "isRecord v \<Longrightarrow> length (obj_keys v) = length (obj_entries v)"
  by (cases v) auto

lemma isPrivateData_snapshot:
  assumes "isPrivateData v" and "snapshotPrivateData v = Some w"
  shows "isPrivateData w"
proof (cases "v = JUndef")
  case True
  with assms(2) show ?thesis by (simp add: snapshotPrivateData_def isPrivateData_def)
next
  case False
  with assms(1) have v: "isRecord v" "length (obj_keys v) \<le> 1000"
    and items: "list_all (\<lambda>(k, x). isSafeKey k \<and> private_item x) (obj_entries v)"
    by (auto simp: isPrivateData_def private_item_def split: if_splits)
  with isRecord_truthy assms(2) obtain lvs where w: "w = JObj True lvs"
    and lvs: "mapO (\<lambda>(k, x). map_option (\<lambda>y. (k, y)) (snapshot_private_item x)) (obj_entries v) = Some lvs"
    by (auto simp: snapshotPrivateData_def mapEntries_def snapshot_private_item_def [abs_def]
        simp del: fld.simps fld_obj)
  from mapO_entries [OF lvs private_item_snapshot items]
  have "map fst lvs = map fst (obj_entries v)" "list_all (\<lambda>(k, x). isSafeKey k \<and> private_item x) lvs"
    by simp_all
  moreover from this(1) have "length lvs = length (obj_entries v)" by (metis length_map)
  ultimately show ?thesis
    using v length_obj_keys [OF v(1)] by (simp add: w isPrivateData_def private_item_def)
qed

lemma isPublicData_clone_truthy:
  "isPublicData v \<Longrightarrow> clone_if_truthy v = Some w \<Longrightarrow> isPublicData w"
  by (auto simp: clone_if_truthy_def isPublicData_clone split: if_splits)

lemma snapshotMaterial_valid:
  assumes "isMethodMaterial m" and "m \<noteq> JUndef" and "snapshotMaterial m = Some w"
  shows "isMethodMaterial w \<and> w \<noteq> JUndef"
proof -
  from assms(3) obtain pd priv where "clone_if_truthy (fld m ''publicData'') = Some pd"
    and "snapshotPrivateData (fld m ''privateData'') = Some priv"
    and w: "w = obj [(''schemaVersion'', fld m ''schemaVersion''), (''publicData'', pd), (''privateData'', priv)]"
    by (auto simp: snapshotMaterial_def simp del: fld.simps fld_obj split: option.splits)
  moreover from assms(1,2) have "isNonEmptyString (fld m ''schemaVersion'')"
    "isPublicData (fld m ''publicData'')" "isPrivateData (fld m ''privateData'')"
    by (simp_all add: isMethodMaterial_def)
  ultimately show ?thesis
    using isPublicData_clone_truthy isPrivateData_snapshot
    by (simp add: isMethodMaterial_def hasOnlyKeys_def materialKeys_def)
qed


end
