(* ===== verification/Effects.thy ===== *)
theory Effects
  imports MethodOutput
begin

text \<open>
  \<open>packages/core/src/effects/dispatch.ts\<close> and the transaction scopes of effects in
  \<open>validation/side-effects.ts\<close>: dispatching the side effects a method asked for, required ones
  inside the transaction and best-effort ones after it, and checking the dispatcher's account.
  A list of effects is \<open>arr_elems\<close> of the optional array of the source.
\<close>

section \<open>Which transaction effects need\<close>

definition is_required :: "jsv \<Rightarrow> bool" where
  "is_required effect = (fld effect ''dispatchPolicy'' = JStr ''required'')"

text \<open>\<open>[...new Set(scopes)]\<close>\<close>

fun unique :: "jsv list \<Rightarrow> jsv list \<Rightarrow> jsv list" where
  "unique seen [] = []"
| "unique seen (x # xs) = (if x \<in> set seen then unique seen xs else x # unique (x # seen) xs)"

definition sideEffectScopes :: "'w cfg \<Rightarrow> jsv list \<Rightarrow> jsv list" where
  "sideEffectScopes c effects =
     (if \<not> list_ex is_required effects then []
      else if \<not> hasEffects c \<or> \<not> is_arr (transactionScopes c) then []
      else unique [] (map read_elem (arr_elems (transactionScopes c))))"

definition requiredEffectsCanPersist :: "'w cfg \<Rightarrow> jsv list \<Rightarrow> bool \<Rightarrow> bool" where
  "requiredEffectsCanPersist c effects operationWrites =
     (if \<not> list_ex is_required effects then True
      else if \<not> hasEffects c then False
      else let scopes = sideEffectScopes c effects in
        if operationWrites \<and> scopes = [] then False
        else (\<not> operationWrites \<and> scopes = []) \<or> txRun c \<noteq> None)"

section \<open>The dispatcher's account\<close>

definition isDispatchItem :: "jsv \<Rightarrow> bool" where
  "isDispatchItem v =
     (isRecord v \<and> hasOnlyKeys v [''index'', ''type''] \<and> is_safe_integer (fld v ''index'')
      \<and> fld v ''type'' = JStr ''delivery'')"

definition isDispatchFailure :: "jsv \<Rightarrow> bool" where
  "isDispatchFailure v =
     (isRecord v \<and> hasOnlyKeys v [''details'', ''index'', ''reason'', ''type'']
      \<and> is_safe_integer (fld v ''index'')
      \<and> fld v ''type'' = JStr ''delivery''
      \<and> isSafeReason (fld v ''reason'')
      \<and> (fld v ''details'' = JUndef \<or> isPublicData (fld v ''details'')))"

definition isEffectsFailure :: "jsv \<Rightarrow> bool" where
  "isEffectsFailure v =
     (isRecord v \<and> hasOnlyKeys v [''component'', ''details'', ''reason'', ''type'']
      \<and> fld v ''type'' = JStr ''component.failure''
      \<and> fld v ''component'' = JStr ''effects''
      \<and> isSafeReason (fld v ''reason'')
      \<and> (fld v ''details'' = JUndef \<or> isPublicData (fld v ''details'')))"

text \<open>The loop over the items: \<open>None\<close> when it returns early, else the set of indexes.\<close>

fun collectIndexes :: "nat \<Rightarrow> jsv list \<Rightarrow> int list \<Rightarrow> int list option" where
  "collectIndexes n [] indexes = Some indexes"
| "collectIndexes n (item # rest) indexes =
     (if \<not> is_safe_integer (fld item ''index'')
         \<or> num_val (fld item ''index'') < 0
         \<or> int n \<le> num_val (fld item ''index'')
         \<or> num_val (fld item ''index'') \<in> set indexes then None
      else collectIndexes n rest (num_val (fld item ''index'') # indexes))"

definition isDispatchResult :: "jsv \<Rightarrow> jsv list \<Rightarrow> bool" where
  "isDispatchResult v effects =
     (if \<not> isRecord v \<or> \<not> hasOnlyKeys v [''deferred'', ''dispatched'', ''failed'']
         \<or> \<not> is_arr (fld v ''dispatched'')
         \<or> fld v ''deferred'' \<noteq> JUndef \<and> \<not> is_arr (fld v ''deferred'')
         \<or> fld v ''failed'' \<noteq> JUndef \<and> \<not> is_arr (fld v ''failed'') then False
      else
        let dispatched = arr_elems (fld v ''dispatched'');
            deferred = arr_elems (fld v ''deferred'');
            failed = arr_elems (fld v ''failed'')
        in if \<not> arr_every isDispatchItem dispatched \<or> \<not> arr_every isDispatchItem deferred
              \<or> \<not> arr_every isDispatchFailure failed then False
           else case collectIndexes (length effects) (dispatched @ deferred @ failed) [] of
                  None \<Rightarrow> False
                | Some indexes \<Rightarrow> length indexes = length effects
                    \<and> list_all (\<lambda>item. fld (effects ! nat (num_val (fld item ''index''))) ''dispatchPolicy''
                         = JStr ''best-effort'') failed)"

section \<open>Dispatch\<close>

definition toDispatchContext :: "jsv \<Rightarrow> jsv option" where
  "toDispatchContext context =
     map_option (\<lambda>metadata. obj [
        (''tenantId'', fld context ''tenantId''), (''requestId'', fld context ''requestId''),
        (''locale'', fld context ''locale''), (''metadata'', metadata)])
     (clone_if_truthy (fld context ''metadata''))"

definition dispatchFailure :: "'w cfg \<Rightarrow> jsv \<Rightarrow> bool \<Rightarrow> string \<Rightarrow> jsv \<Rightarrow> ('w, jsv res) auth" where
  "dispatchFailure c context required reason now =
     bindM (emitEvent c context
        [(''name'', JStr ''auth.side_effect.failed''), (''outcome'', JStr ''failure''),
         (''attributes'', obj [(''reason'', JStr reason)])] (Some now))
       (\<lambda>_. if required then errR context reason (Some ''TEMPORARILY_UNAVAILABLE'') else okR JUndef)"

definition dispatchInput :: "jsv \<Rightarrow> jsv list \<Rightarrow> jsv \<Rightarrow> jsv \<Rightarrow> jsv option" where
  "dispatchInput context effects now tx =
     (case (toDispatchContext context, mapO snapshotSideEffect effects) of
        (Some ctx, Some copies) \<Rightarrow>
          Some (obj [(''context'', ctx), (''effects'', JArr copies), (''now'', now), (''tx'', tx)])
      | _ \<Rightarrow> None)"

definition dispatchSideEffects ::
  "'w cfg \<Rightarrow> jsv \<Rightarrow> jsv list \<Rightarrow> jsv \<Rightarrow> jsv \<Rightarrow> ('w, jsv res) auth" where
  "dispatchSideEffects c context sideEffects now tx =
     (if sideEffects = [] then okR JUndef
      else
        let hasRequired = list_ex is_required sideEffects in
        if \<not> hasEffects c then dispatchFailure c context hasRequired ''SIDE_EFFECT_FAILED'' now
        else bindM (liftO (mapO snapshotSideEffect sideEffects)) (\<lambda>expectedEffects.
          bindM (attemptM (bindM (liftO (dispatchInput context expectedEffects now tx))
                   (\<lambda>i. callPort c EffectsDispatch [i])))
            (\<lambda>r. let result = (case r of None \<Rightarrow> JUndef | Some v \<Rightarrow> v) in
               if fld result ''ok'' = JBool True
                  \<and> isDispatchResult (fld result ''value'') expectedEffects
               then okR (fld result ''value'')
               else if fld result ''ok'' = JBool False \<and> isEffectsFailure (fld result ''error'')
               then dispatchFailure c context hasRequired
                      (str_or (fld (fld result ''error'') ''reason'') '''') now
               else dispatchFailure c context hasRequired ''SIDE_EFFECT_FAILED'' now)))"

definition index_at :: "nat list \<Rightarrow> jsv \<Rightarrow> jsv" where
  "index_at xs v =
     (if 0 \<le> num_val v \<and> nat (num_val v) < length xs then JNum (int (xs ! nat (num_val v)))
      else JUndef)"

definition remapItems :: "nat list \<Rightarrow> jsv \<Rightarrow> jsv" where
  "remapItems originalIndexes items =
     JArr (map (\<lambda>item. spread item [(''index'', index_at originalIndexes (fld item ''index''))])
             (arr_elems items))"

definition selectEffects :: "string \<Rightarrow> jsv list \<Rightarrow> (nat \<times> jsv) list" where
  "selectEffects p effects =
     filter (\<lambda>(i, effect). fld effect ''dispatchPolicy'' = JStr p) (enumerate 0 effects)"

definition remapResult :: "nat list \<Rightarrow> jsv \<Rightarrow> jsv" where
  "remapResult originalIndexes v =
     obj [(''dispatched'', remapItems originalIndexes (fld v ''dispatched'')),
          (''deferred'', if truthy (fld v ''deferred'')
             then remapItems originalIndexes (fld v ''deferred'') else JUndef),
          (''failed'', if truthy (fld v ''failed'')
             then remapItems originalIndexes (fld v ''failed'') else JUndef)]"

definition dispatchSelectedSideEffects ::
  "'w cfg \<Rightarrow> jsv \<Rightarrow> jsv list \<Rightarrow> string \<Rightarrow> jsv \<Rightarrow> jsv \<Rightarrow> ('w, jsv res) auth" where
  "dispatchSelectedSideEffects c context sideEffects p now tx =
     (let selected = selectEffects p sideEffects in
      if selected = [] then okR JUndef
      else bindR (dispatchSideEffects c context (map snd selected) now tx)
        (\<lambda>v. if \<not> truthy v then okR v else okR (remapResult (map fst selected) v)))"

definition dispatchRequiredSideEffects ::
  "'w cfg \<Rightarrow> jsv \<Rightarrow> jsv list \<Rightarrow> jsv \<Rightarrow> jsv \<Rightarrow> ('w, jsv res) auth" where
  "dispatchRequiredSideEffects c context sideEffects now tx =
     dispatchSelectedSideEffects c context sideEffects ''required'' now tx"

definition dispatchBestEffortSideEffects ::
  "'w cfg \<Rightarrow> jsv \<Rightarrow> jsv list \<Rightarrow> jsv \<Rightarrow> ('w, jsv res) auth" where
  "dispatchBestEffortSideEffects c context sideEffects now =
     dispatchSelectedSideEffects c context sideEffects ''best-effort'' now JUndef"

definition nonempty_arr :: "jsv list \<Rightarrow> jsv" where
  "nonempty_arr xs = (if xs = [] then JUndef else JArr xs)"

definition mergeSideEffectResults :: "jsv \<Rightarrow> jsv \<Rightarrow> jsv" where
  "mergeSideEffectResults first second =
     (if \<not> truthy first then second
      else if \<not> truthy second then first
      else obj [
        (''dispatched'', JArr (arr_elems (fld first ''dispatched'') @ arr_elems (fld second ''dispatched''))),
        (''deferred'', nonempty_arr (arr_elems (fld first ''deferred'') @ arr_elems (fld second ''deferred''))),
        (''failed'', nonempty_arr (arr_elems (fld first ''failed'') @ arr_elems (fld second ''failed'')))])"

section \<open>Events of what was persisted\<close>

text \<open>\<open>CreatedSession\<close> of \<open>operations/session.ts\<close>\<close>

record createdSession =
  sessionView :: jsv
  issuedToken :: jsv

fun forM :: "('a \<Rightarrow> ('s, unit) M) \<Rightarrow> 'a list \<Rightarrow> ('s, unit) M" where
  "forM f [] = ret ()"
| "forM f (x # xs) = bindM (f x) (\<lambda>_. forM f xs)"

definition emitSideEffectEvents :: "'w cfg \<Rightarrow> jsv \<Rightarrow> jsv \<Rightarrow> jsv \<Rightarrow> ('w, unit) auth" where
  "emitSideEffectEvents c context effects now =
     (if \<not> truthy effects then ret ()
      else bindM (forM (\<lambda>item. emitEvent c context
             [(''name'', JStr ''auth.side_effect.dispatched''), (''outcome'', JStr ''success''),
              (''attributes'', obj [(''index'', fld item ''index''), (''type'', fld item ''type'')])] (Some now))
             (arr_elems (fld effects ''dispatched'')))
      (\<lambda>_. bindM (forM (\<lambda>item. emitEvent c context
             [(''name'', JStr ''auth.side_effect.dispatched''), (''outcome'', JStr ''success''),
              (''attributes'', obj [(''index'', fld item ''index''), (''type'', fld item ''type''),
                 (''deferred'', JBool True)])] (Some now))
             (arr_elems (fld effects ''deferred'')))
      (\<lambda>_. forM (\<lambda>item. emitEvent c context
             [(''name'', JStr ''auth.side_effect.failed''), (''outcome'', JStr ''failure''),
              (''attributes'', obj [(''index'', fld item ''index''), (''type'', fld item ''type''),
                 (''reason'', fld item ''reason'')])] (Some now))
             (arr_elems (fld effects ''failed'')))))"

definition emitPersistedEvents ::
  "'w cfg \<Rightarrow> jsv \<Rightarrow> createdSession option \<Rightarrow> jsv \<Rightarrow> jsv \<Rightarrow> ('w, unit) auth" where
  "emitPersistedEvents c context session effects now =
     bindM (case session of None \<Rightarrow> ret ()
            | Some cs \<Rightarrow> emitEvent c context
                [(''name'', JStr ''auth.session.created''),
                 (''accountId'', fld (sessionView cs) ''accountId''),
                 (''sessionId'', fld (sessionView cs) ''sessionId''),
                 (''outcome'', JStr ''success'')] (Some now))
       (\<lambda>_. emitSideEffectEvents c context effects now)"

section \<open>What an accepted account says\<close>

definition item_indexes :: "jsv \<Rightarrow> string \<Rightarrow> int list" where
  "item_indexes v k = map (\<lambda>item. num_val (fld item ''index'')) (arr_elems (fld v k))"

definition all_indexes :: "jsv \<Rightarrow> int list" where
  "all_indexes v = item_indexes v ''dispatched'' @ item_indexes v ''deferred'' @ item_indexes v ''failed''"

lemma collectIndexes_SomeD:
  assumes "collectIndexes n items seen = Some indexes" and "distinct seen"
  shows "indexes = rev (map (\<lambda>item. num_val (fld item ''index'')) items) @ seen"
    and "distinct indexes"
    and "\<forall>item \<in> set items. 0 \<le> num_val (fld item ''index'') \<and> num_val (fld item ''index'') < int n"
  using assms
  by (induction n items seen rule: collectIndexes.induct)
    (auto simp del: fld.simps fld_obj split: if_splits)

lemma isDispatchResult_indexes:
  assumes "isDispatchResult v effects"
  shows "distinct (all_indexes v)" and "set (all_indexes v) = int ` {..<length effects}"
    and "\<forall>item \<in> set (arr_elems (fld v ''failed'')).
       fld (effects ! nat (num_val (fld item ''index''))) ''dispatchPolicy'' = JStr ''best-effort''"
proof -
  let ?items = "arr_elems (fld v ''dispatched'') @ arr_elems (fld v ''deferred'') @ arr_elems (fld v ''failed'')"
  from assms obtain indexes where c: "collectIndexes (length effects) ?items [] = Some indexes"
    and len: "length indexes = length effects"
    and best: "list_all (\<lambda>item. fld (effects ! nat (num_val (fld item ''index''))) ''dispatchPolicy''
                         = JStr ''best-effort'') (arr_elems (fld v ''failed''))"
    unfolding isDispatchResult_def Let_def
    by (auto simp del: fld.simps fld_obj split: if_splits option.splits)
  from collectIndexes_SomeD [OF c] have idx: "indexes = rev (all_indexes v)" "distinct indexes"
    and range: "\<forall>item \<in> set ?items. 0 \<le> num_val (fld item ''index'') \<and> num_val (fld item ''index'') < int (length effects)"
    by (auto simp: all_indexes_def item_indexes_def rev_map simp del: fld.simps fld_obj)
  from idx show d: "distinct (all_indexes v)" by simp
  have "set (all_indexes v) \<subseteq> int ` {..<length effects}"
  proof
    fix i assume "i \<in> set (all_indexes v)"
    with range have "0 \<le> i" "i < int (length effects)"
      by (auto simp: all_indexes_def item_indexes_def simp del: fld.simps fld_obj)
    then show "i \<in> int ` {..<length effects}" by (intro image_eqI [of _ _ "nat i"]) auto
  qed
  moreover have "card (set (all_indexes v)) = length effects"
    using distinct_card [OF d] len idx by simp
  ultimately show "set (all_indexes v) = int ` {..<length effects}"
    by (intro card_subset_eq) (auto simp: card_image)
  show "\<forall>item \<in> set (arr_elems (fld v ''failed'')).
       fld (effects ! nat (num_val (fld item ''index''))) ''dispatchPolicy'' = JStr ''best-effort''"
    using best by (simp add: list_all_iff)
qed


lemma mapO_length: "mapO f xs = Some ys \<Longrightarrow> length ys = length xs"
  by (induction xs arbitrary: ys) (auto split: option.splits)

lemma mapO_nth: "mapO f xs = Some ys \<Longrightarrow> i < length xs \<Longrightarrow> f (xs ! i) = Some (ys ! i)"
proof (induction xs arbitrary: ys i)
  case (Cons x xs)
  then show ?case by (cases i) (auto split: option.splits)
qed simp

lemma snapshotSideEffect_required:
  "snapshotSideEffect e = Some s \<Longrightarrow> is_required s = is_required e
     \<and> (fld s ''dispatchPolicy'' = JStr ''best-effort'') = (\<not> is_required e)"
  by (auto simp: snapshotSideEffect_def is_required_def split: if_splits)

lemma fld_spread_one: "fld (spread v [(k, x)]) k = x"
  by (simp add: map_of_set_field)

lemma index_at_val: "0 \<le> num_val v \<Longrightarrow> nat (num_val v) < length xs \<Longrightarrow>
    num_val (index_at xs v) = int (xs ! nat (num_val v))"
  by (simp add: index_at_def)

lemma item_indexes_remapItems:
  assumes "\<forall>item \<in> set (arr_elems (fld v k)). 0 \<le> num_val (fld item ''index'')
      \<and> num_val (fld item ''index'') < int (length xs)"
  shows "map (\<lambda>item. num_val (fld item ''index'')) (arr_elems (remapItems xs (fld v k)))
    = map (\<lambda>i. int (xs ! nat i)) (item_indexes v k)"
  using assms
  by (auto simp: remapItems_def item_indexes_def fld_spread_one index_at_def
      simp del: fld.simps fld_obj spread.simps)

lemma arr_elems_not_truthy: "\<not> truthy v \<Longrightarrow> arr_elems v = []"
  by (cases v) auto

lemma item_indexes_range:
  assumes "set (all_indexes v) = int ` {..<n}" and "k \<in> {''dispatched'', ''deferred'', ''failed''}"
    and "item \<in> set (arr_elems (fld v k))"
  shows "0 \<le> num_val (fld item ''index'') \<and> num_val (fld item ''index'') < int n"
proof -
  have "num_val (fld item ''index'') \<in> set (all_indexes v)"
    using assms(2,3) by (auto simp: all_indexes_def item_indexes_def simp del: fld.simps fld_obj)
  with assms(1) show ?thesis by auto
qed

lemma all_indexes_remapResult:
  assumes "set (all_indexes v) = int ` {..<length xs}"
  shows "all_indexes (remapResult xs v) = map (\<lambda>i. int (xs ! nat i)) (all_indexes v)"
proof -
  have eq: "item_indexes (remapResult xs v) k = map (\<lambda>i. int (xs ! nat i)) (item_indexes v k)"
    if "k \<in> {''dispatched'', ''deferred'', ''failed''}" for k
  proof -
    have "map (\<lambda>item. num_val (fld item ''index'')) (arr_elems (remapItems xs (fld v k)))
       = map (\<lambda>i. int (xs ! nat i)) (item_indexes v k)"
      using item_indexes_range [OF assms that] by (intro item_indexes_remapItems) blast
    moreover have "arr_elems (fld (remapResult xs v) k) = arr_elems (remapItems xs (fld v k))"
      using that by (auto simp: remapResult_def remapItems_def arr_elems_not_truthy)
    ultimately show ?thesis by (simp add: item_indexes_def)
  qed
  show ?thesis by (simp add: all_indexes_def eq)
qed

lemma selectEffects_nth:
  "i < length (selectEffects p es) \<Longrightarrow>
     map fst (selectEffects p es) ! i < length es
     \<and> map snd (selectEffects p es) ! i = es ! (map fst (selectEffects p es) ! i)
     \<and> fld (map snd (selectEffects p es) ! i) ''dispatchPolicy'' = JStr p"
proof -
  assume i: "i < length (selectEffects p es)"
  then have "selectEffects p es ! i \<in> set (selectEffects p es)" by simp
  then have "selectEffects p es ! i \<in> set (enumerate 0 es)
      \<and> fld (snd (selectEffects p es ! i)) ''dispatchPolicy'' = JStr p"
    by (auto simp: selectEffects_def simp del: fld.simps fld_obj)
  with i show ?thesis
    by (cases "selectEffects p es ! i") (auto simp: in_set_enumerate_eq simp del: fld.simps fld_obj)
qed

lemma selectEffects_fst:
  "set (map fst (selectEffects p es)) = {i. i < length es \<and> fld (es ! i) ''dispatchPolicy'' = JStr p}"
  by (auto simp: selectEffects_def in_set_enumerate_eq image_iff simp del: fld.simps fld_obj)

lemma selectEffects_distinct: "distinct (map fst (selectEffects p es))"
proof -
  have "distinct (map fst (filter Q (enumerate 0 es)))" for Q
    by (rule distinct_map_filter) simp
  then show ?thesis by (simp add: selectEffects_def)
qed

lemma dispatchSideEffects_accepted:
  assumes "dispatchSideEffects c cx es now tx s = (Ret (Inr v), t)" and "truthy v"
  obtains copies where "mapO snapshotSideEffect es = Some copies" and "isDispatchResult v copies"
  using assms
  by (auto simp: dispatchSideEffects_def dispatchFailure_def Let_def
      simp del: fld.simps fld_obj simp add: fld.simps(2)
      elim!: bindM_RetE split: if_splits option.splits)


text \<open>
  When the dispatch of the effects of a policy is accepted, every effect with that policy, and
  no other, has been accounted for exactly once, under its index in the method's list.
\<close>

lemma dispatchSelected_accounts:
  assumes "dispatchSelectedSideEffects c cx es p now tx s = (Ret (Inr v), t)" and "truthy v"
  shows "distinct (all_indexes v)
    \<and> set (all_indexes v) = int ` {i. i < length es \<and> fld (es ! i) ''dispatchPolicy'' = JStr p}"
    and "p = ''required'' \<Longrightarrow> arr_elems (fld v ''failed'') = []"
proof -
  let ?sel = "selectEffects p es"
  let ?idx = "map fst ?sel"
  from assms obtain w where d: "dispatchSideEffects c cx (map snd ?sel) now tx s = (Ret (Inr w), t)"
    and w: "truthy w" and v: "v = remapResult ?idx w"
    by (auto simp: dispatchSelectedSideEffects_def Let_def elim!: bindR_InrE split: if_splits)
  from dispatchSideEffects_accepted [OF d w] obtain copies
    where copies: "mapO snapshotSideEffect (map snd ?sel) = Some copies"
      and acc: "isDispatchResult w copies" .
  have len: "length copies = length ?idx" using mapO_length [OF copies] by simp
  note idx = isDispatchResult_indexes [OF acc, unfolded len]
  have all: "all_indexes v = map (\<lambda>i. int (?idx ! nat i)) (all_indexes w)"
    unfolding v using idx(2) by (rule all_indexes_remapResult)
  have img: "(\<lambda>i. int (xs ! nat i)) ` int ` {..<length xs} = int ` set xs" for xs :: "nat list"
    by (force simp: image_image set_conv_nth)
  have inj: "inj_on (\<lambda>i. int (xs ! nat i)) (int ` {..<length xs})" if "distinct xs" for xs :: "nat list"
    using that by (auto simp: inj_on_def nth_eq_iff_index_eq)
  from inj [OF selectEffects_distinct]
  have "inj_on (\<lambda>i. int (?idx ! nat i)) (int ` {..<length ?idx})" .
  then have "distinct (all_indexes v)"
    unfolding all distinct_map using idx(1,2) by simp
  moreover have "set (all_indexes v) = int ` set ?idx"
  proof -
    have "set (all_indexes v) = (\<lambda>i. int (?idx ! nat i)) ` set (all_indexes w)"
      unfolding all by (rule set_map)
    also have "\<dots> = int ` set ?idx" unfolding idx(2) by (rule img)
    finally show ?thesis .
  qed
  ultimately show "distinct (all_indexes v)
    \<and> set (all_indexes v) = int ` {i. i < length es \<and> fld (es ! i) ''dispatchPolicy'' = JStr p}"
    by (simp add: selectEffects_fst del: fld.simps fld_obj set_map)
  show "arr_elems (fld v ''failed'') = []" if "p = ''required''"
  proof (rule ccontr)
    assume "arr_elems (fld v ''failed'') \<noteq> []"
    then have "arr_elems (fld w ''failed'') \<noteq> []"
      by (auto simp: v remapResult_def remapItems_def split: if_splits)
    then obtain item where item: "item \<in> set (arr_elems (fld w ''failed''))"
      using that list.set_sel(1) by blast
    let ?i = "nat (num_val (fld item ''index''))"
    from item_indexes_range [OF idx(2) _ item] have i: "?i < length ?sel" by auto
    have "fld (copies ! ?i) ''dispatchPolicy'' = JStr ''best-effort''"
      using isDispatchResult_indexes(3) [OF acc] item by blast
    moreover have "snapshotSideEffect (map snd ?sel ! ?i) = Some (copies ! ?i)"
      using mapO_nth [OF copies, of ?i] i by simp
    ultimately have "\<not> is_required (map snd ?sel ! ?i)"
      using snapshotSideEffect_required by blast
    then have "fld (map snd ?sel ! ?i) ''dispatchPolicy'' \<noteq> JStr ''required''"
      unfolding is_required_def .
    with selectEffects_nth [OF i] that show False by blast
  qed
qed

lemma merge_indexes:
  assumes "truthy v" and "truthy w"
  shows "set (all_indexes (mergeSideEffectResults v w)) = set (all_indexes v) \<union> set (all_indexes w)"
  using assms
  by (auto simp: mergeSideEffectResults_def all_indexes_def item_indexes_def nonempty_arr_def)

lemma unique_props:
  "set (unique seen xs) = set xs - set seen \<and> distinct (unique seen xs)"
  by (induction seen xs rule: unique.induct) auto

section \<open>Calls and exceptions\<close>

definition effect_ports :: "port set" where
  "effect_ports = {EffectsDispatch, EventEmit, ClockNow}"

lemma only_dispatchFailure [only_rules]:
  "EventEmit \<in> A \<Longrightarrow> ClockNow \<in> A \<Longrightarrow> only A (dispatchFailure c cx r e now)"
  unfolding dispatchFailure_def by (intro only_rules)

lemma only_dispatchSelected [only_rules]:
  "effect_ports \<subseteq> A \<Longrightarrow> only A (dispatchSelectedSideEffects c cx es p now tx)"
  unfolding dispatchSelectedSideEffects_def dispatchSideEffects_def Let_def effect_ports_def
  by (intro only_rules) auto

lemma only_dispatchRequired [only_rules]:
  "effect_ports \<subseteq> A \<Longrightarrow> only A (dispatchRequiredSideEffects c cx es now tx)"
  unfolding dispatchRequiredSideEffects_def by (rule only_dispatchSelected)

lemma only_dispatchBestEffort [only_rules]:
  "effect_ports \<subseteq> A \<Longrightarrow> only A (dispatchBestEffortSideEffects c cx es now)"
  unfolding dispatchBestEffortSideEffects_def by (rule only_dispatchSelected)

lemma only_forM [only_rules]: "(\<And>x. only A (f x)) \<Longrightarrow> only A (forM f xs)"
  by (induction xs) (auto intro!: only_rules)

lemma only_emitPersistedEvents [only_rules]:
  "EventEmit \<in> A \<Longrightarrow> ClockNow \<in> A \<Longrightarrow> only A (emitPersistedEvents c cx se ef now)"
  unfolding emitPersistedEvents_def emitSideEffectEvents_def by (intro only_rules)

lemma nothrow_forM [nothrow_rules]: "(\<And>x. nothrow (f x)) \<Longrightarrow> nothrow (forM f xs)"
  by (induction xs) (auto intro!: nothrow_rules)

lemma nothrow_emitPersistedEvents [nothrow_rules]: "nothrow (emitPersistedEvents c cx se ef now)"
  unfolding emitPersistedEvents_def emitSideEffectEvents_def by (intro nothrow_rules)


end
