(* ===== verification/Transaction.thy ===== *)
theory Transaction
  imports Effects
begin

text \<open>
  \<open>packages/core/src/execution/transaction.ts\<close>: running the writes of an operation inside the
  store's transaction. The runner belongs to the store; core only believes its answer when the
  answer is consistent with what core itself saw happen in the callback.
\<close>

section \<open>Checks\<close>

definition transactionCovers :: "jsv \<Rightarrow> jsv list \<Rightarrow> bool" where
  "transactionCovers tx requiredScopes =
     (isRecord tx \<and> is_str (fld tx ''transactionId'') \<and> is_arr (fld tx ''covers'')
      \<and> isSafeText (fld tx ''transactionId'') 512 True
      \<and> length (arr_elems (fld tx ''covers'')) \<le> 1000
      \<and> arr_every (\<lambda>scope. is_str scope \<and> 0 < str_len scope \<and> str_len scope \<le> 512)
          (arr_elems (fld tx ''covers''))
      \<and> list_all (\<lambda>scope. scope \<in> set (arr_elems (fld tx ''covers''))) requiredScopes)"

definition isResult :: "jsv \<Rightarrow> bool" where
  "isResult v = (isRecord v \<and> (fld v ''ok'' = JBool True \<and> has_key ''value'' v
     \<or> fld v ''ok'' = JBool False \<and> has_key ''error'' v))"

definition isTransactionReceipt :: "jsv \<Rightarrow> jsv \<Rightarrow> bool" where
  "isTransactionReceipt v transactionId =
     (isRecord v \<and> length (obj_keys v) = 1 \<and> fld v ''transactionId'' = transactionId)"

definition isAuthFailure :: "jsv \<Rightarrow> bool" where
  "isAuthFailure v =
     (isRecord v
      \<and> hasOnlyKeys v [''internalDetails'', ''internalReason'', ''publicError'', ''type'']
      \<and> fld v ''type'' = JStr ''auth.failure''
      \<and> isSafeText (fld v ''internalReason'') 512 True
      \<and> isPublicData (fld v ''internalDetails'')
      \<and> isRecord (fld v ''publicError'')
      \<and> hasOnlyKeys (fld v ''publicError'')
           [''code'', ''message'', ''publicDetails'', ''requestId'', ''retryAfterSeconds'']
      \<and> isPublicCode (fld (fld v ''publicError'') ''code'')
      \<and> (fld (fld v ''publicError'') ''message'' = JUndef
         \<or> isSafeText (fld (fld v ''publicError'') ''message'') 4096 True)
      \<and> (fld (fld v ''publicError'') ''requestId'' = JUndef
         \<or> isSafeText (fld (fld v ''publicError'') ''requestId'') 512 True)
      \<and> (fld (fld v ''publicError'') ''retryAfterSeconds'' = JUndef
         \<or> isPositiveInteger (fld (fld v ''publicError'') ''retryAfterSeconds''))
      \<and> isPublicData (fld (fld v ''publicError'') ''publicDetails''))"

definition authFailuresMatch :: "jsv \<Rightarrow> jsv \<Rightarrow> bool" where
  "authFailuresMatch left right =
     (fld left ''type'' = fld right ''type''
      \<and> fld left ''internalReason'' = fld right ''internalReason''
      \<and> json_tree (fld left ''internalDetails'') = json_tree (fld right ''internalDetails'')
      \<and> json_tree (fld left ''publicError'') = json_tree (fld right ''publicError''))"

section \<open>The callback and the runner\<close>

text \<open>The variables the callback shares with its creator.\<close>

record 'a closure =
  callbackCalls :: nat
  callbackResult :: "'a res option"
  callbackReceipt :: "jsv option"

definition fresh_closure :: "'a closure" where
  "fresh_closure = \<lparr>callbackCalls = 0, callbackResult = None, callbackReceipt = None\<rparr>"

definition transactionFailed :: "jsv \<Rightarrow> authFailure" where
  "transactionFailed context =
     authErr context ''TRANSACTION_FAILED'' (Some ''TEMPORARILY_UNAVAILABLE'') JUndef"

definition failure_result :: "authFailure \<Rightarrow> jsv" where
  "failure_result e = obj [(''ok'', JBool False), (''error'', authFailure_js e)]"

definition receipt_result :: "jsv \<Rightarrow> jsv" where
  "receipt_result transactionId =
     obj [(''ok'', JBool True), (''value'', obj [(''transactionId'', transactionId)])]"

definition callback ::
  "jsv \<Rightarrow> jsv list \<Rightarrow> (jsv \<Rightarrow> ('w, 'a res) auth) \<Rightarrow> jsv \<Rightarrow> 'a closure \<Rightarrow> 'w st
     \<Rightarrow> jsv outcome \<times> 'a closure \<times> 'w st" where
  "callback context requiredScopes fn tx cl0 s =
     (let cl = cl0\<lparr>callbackCalls := callbackCalls cl0 + 1\<rparr> in
      if callbackCalls cl \<noteq> 1 then (Throw, cl, s)
      else if \<not> transactionCovers tx requiredScopes then
        (Ret (failure_result (transactionFailed context)),
         cl\<lparr>callbackResult := Some (Inl (transactionFailed context))\<rparr>, s)
      else case fn tx s of
          (Throw, t) \<Rightarrow> (Throw, cl, t)
        | (Ret (Inl e), t) \<Rightarrow> (Ret (failure_result e), cl\<lparr>callbackResult := Some (Inl e)\<rparr>, t)
        | (Ret (Inr a), t) \<Rightarrow>
            (Ret (receipt_result (fld tx ''transactionId'')),
             cl\<lparr>callbackResult := Some (Inr a), callbackReceipt := Some (fld tx ''transactionId'')\<rparr>, t))"

primrec exec_tx ::
  "'w txprog \<Rightarrow> (jsv \<Rightarrow> 'a closure \<Rightarrow> 'w st \<Rightarrow> jsv outcome \<times> 'a closure \<times> 'w st)
     \<Rightarrow> 'a closure \<Rightarrow> event list \<Rightarrow> jsv outcome \<times> 'a closure \<times> 'w st" where
  "exec_tx (TxDone r w) = (\<lambda>cb cl tr. (r, cl, \<lparr>world = w, trace = tr\<rparr>))"
| "exec_tx (TxCall tx w k) = (\<lambda>cb cl tr.
     case cb tx cl \<lparr>world = w, trace = tr\<rparr> of
       (r, cl', s) \<Rightarrow> exec_tx (k r (world s)) cb cl' (trace s))"

text \<open>What core concludes from the runner's answer and the shared variables.\<close>

definition settle :: "jsv \<Rightarrow> jsv outcome \<Rightarrow> 'a closure \<Rightarrow> 'a res" where
  "settle context answer cl =
     (case answer of
        Throw \<Rightarrow> Inl (transactionFailed context)
      | Ret result \<Rightarrow>
          (case callbackResult cl of
             None \<Rightarrow> Inl (transactionFailed context)
           | Some fromCallback \<Rightarrow>
               if callbackCalls cl \<noteq> 1 \<or> \<not> isResult result then Inl (transactionFailed context)
               else (case fromCallback of
                 Inl e \<Rightarrow>
                   if \<not> truthy (fld result ''ok'') \<and> isAuthFailure (fld result ''error'')
                      \<and> authFailuresMatch (authFailure_js e) (fld result ''error'')
                   then Inl e else Inl (transactionFailed context)
               | Inr a \<Rightarrow>
                   (case callbackReceipt cl of
                      None \<Rightarrow> Inl (transactionFailed context)
                    | Some receipt \<Rightarrow>
                        if \<not> truthy (fld result ''ok'')
                           \<or> \<not> isTransactionReceipt (fld result ''value'') receipt
                        then Inl (transactionFailed context) else Inr a))))"

definition runInStoreTransaction ::
  "'w cfg \<Rightarrow> jsv \<Rightarrow> jsv list \<Rightarrow> (jsv \<Rightarrow> ('w, 'a res) auth) \<Rightarrow> ('w, 'a res) auth" where
  "runInStoreTransaction c context requiredScopes fn =
     (if requiredScopes = [] then fn JUndef
      else case txRun c of
        None \<Rightarrow> ret (Inl (transactionFailed context))
      | Some run \<Rightarrow> (\<lambda>s.
          case exec_tx (run (obj [(''requiredScopes'', JArr requiredScopes)]) (world s))
                 (callback context requiredScopes fn) fresh_closure (trace s) of
            (answer, cl, t) \<Rightarrow> (Ret (settle context answer cl), t)))"

section \<open>Exactly one run of the callback\<close>

lemma callback_calls:
  "callback cx scopes fn tx cl s = (r, cl', t) \<Longrightarrow> callbackCalls cl' = callbackCalls cl + 1"
  by (auto simp: callback_def Let_def split: if_splits prod.splits outcome.splits sum.splits)

lemma exec_tx_calls:
  assumes "exec_tx p (callback cx scopes fn) cl tr = (r, cl', t)"
  shows "callbackCalls cl \<le> callbackCalls cl'
    \<and> (callbackCalls cl' = callbackCalls cl \<longrightarrow> cl' = cl \<and> trace t = tr)"
  using assms
proof (induction p arbitrary: cl tr)
  case (TxCall tx w k)
  obtain r1 cl1 s1 where cb: "callback cx scopes fn tx cl \<lparr>world = w, trace = tr\<rparr> = (r1, cl1, s1)"
    by (metis prod_cases3)
  with TxCall.prems have "exec_tx (k r1 (world s1)) (callback cx scopes fn) cl1 (trace s1) = (r, cl', t)"
    by simp
  with TxCall.IH have "callbackCalls cl1 \<le> callbackCalls cl'" by (meson rangeI)
  with callback_calls [OF cb] show ?case by simp
qed auto

lemma exec_tx_once:
  assumes "exec_tx p (callback cx scopes fn) cl tr = (r, cl', t)"
    and "callbackCalls cl = 0" and "callbackCalls cl' = 1"
  obtains tx s0 r0 s1 where "trace s0 = tr" and "callback cx scopes fn tx cl s0 = (r0, cl', s1)"
    and "trace t = trace s1"
proof (cases p)
  case (TxDone x w)
  with assms show ?thesis by simp
next
  case (TxCall tx w k)
  obtain r1 cl1 s1 where cb: "callback cx scopes fn tx cl \<lparr>world = w, trace = tr\<rparr> = (r1, cl1, s1)"
    by (metis prod_cases3)
  with assms(1) TxCall have rest: "exec_tx (k r1 (world s1)) (callback cx scopes fn) cl1 (trace s1) = (r, cl', t)"
    by simp
  from callback_calls [OF cb] assms(2,3) have "callbackCalls cl' = callbackCalls cl1" by simp
  with exec_tx_calls [OF rest] have "cl' = cl1" "trace t = trace s1" by simp_all
  with that [of "\<lparr>world = w, trace = tr\<rparr>" tx r1 s1] cb show ?thesis by simp
qed

lemma settle_Inr:
  assumes "settle cx answer cl = Inr a"
  shows "callbackCalls cl = 1 \<and> callbackResult cl = Some (Inr a)
    \<and> (\<exists>result receipt. answer = Ret result \<and> callbackReceipt cl = Some receipt
         \<and> isResult result \<and> truthy (fld result ''ok'')
         \<and> isTransactionReceipt (fld result ''value'') receipt)"
  using assms unfolding settle_def
  by (auto simp del: fld.simps fld_obj split: outcome.splits option.splits if_splits sum.splits)

lemma runInStoreTransaction_once:
  assumes "runInStoreTransaction c cx scopes fn s = (Ret (Inr a), t)" and "scopes \<noteq> []"
  obtains tx s0 s1 where "transactionCovers tx scopes" and "trace s0 = trace s"
    and "fn tx s0 = (Ret (Inr a), s1)" and "trace t = trace s1"
proof -
  from assms obtain run where run: "txRun c = Some run"
    by (cases "txRun c") (auto simp: runInStoreTransaction_def)
  define p where "p = run (obj [(''requiredScopes'', JArr scopes)]) (world s)"
  obtain answer cl u where ex: "exec_tx p (callback cx scopes fn) fresh_closure (trace s) = (answer, cl, u)"
    by (metis prod_cases3)
  with assms run have set: "settle cx answer cl = Inr a" and u: "u = t"
    by (auto simp: runInStoreTransaction_def p_def)
  note s = settle_Inr [OF set]
  obtain tx s0 r0 s1 where once: "trace s0 = trace s"
    "callback cx scopes fn tx fresh_closure s0 = (r0, cl, s1)" "trace u = trace s1"
    by (rule exec_tx_once [OF ex]) (use s in \<open>auto simp: fresh_closure_def\<close>)
  from once(2) s have "transactionCovers tx scopes \<and> fn tx s0 = (Ret (Inr a), s1)"
    by (auto simp: callback_def Let_def fresh_closure_def transactionFailed_def
        split: if_splits prod.splits outcome.splits sum.splits)
  with once(1,3) u that show ?thesis by blast
qed

section \<open>Failures and calls\<close>

lemma callback_follows:
  assumes "\<And>tx. only A (fn tx)" and "callback cx scopes fn tx cl s = (r, cl', t)"
  shows "\<exists>es. follows s es t \<and> event_port ` set es \<subseteq> A"
proof (cases "callbackCalls cl = 0 \<and> transactionCovers tx scopes")
  case True
  then obtain x where "fn tx s = (x, t)"
    using assms(2) by (auto simp: callback_def Let_def split: prod.splits outcome.splits sum.splits)
  with assms(1) [of tx] show ?thesis unfolding only_def by blast
next
  case False
  with assms(2) have "t = s" by (auto simp: callback_def Let_def split: if_splits)
  then show ?thesis by (auto intro: exI [of _ "[]"])
qed

lemma exec_tx_follows:
  assumes "\<And>tx. only A (fn tx)" and "exec_tx p (callback cx scopes fn) cl tr = (r, cl', t)"
  shows "\<exists>es. trace t = tr @ es \<and> event_port ` set es \<subseteq> A"
  using assms(2)
proof (induction p arbitrary: cl tr)
  case (TxCall tx w k)
  obtain r1 cl1 s1 where cb: "callback cx scopes fn tx cl \<lparr>world = w, trace = tr\<rparr> = (r1, cl1, s1)"
    by (metis prod_cases3)
  with TxCall.prems have "exec_tx (k r1 (world s1)) (callback cx scopes fn) cl1 (trace s1) = (r, cl', t)"
    by simp
  with TxCall.IH obtain fs where fs: "trace t = trace s1 @ fs" "event_port ` set fs \<subseteq> A"
    by (meson rangeI)
  obtain es where "trace s1 = tr @ es" "event_port ` set es \<subseteq> A"
    using callback_follows [OF assms(1) cb] by (auto simp: follows_def)
  with fs have "trace t = tr @ (es @ fs) \<and> event_port ` set (es @ fs) \<subseteq> A"
    by (simp add: image_Un)
  then show ?case by blast
qed auto

lemma only_runInStoreTransaction [only_rules]:
  assumes "\<And>tx. only A (fn tx)"
  shows "only A (runInStoreTransaction c cx scopes fn)"
proof (rule onlyI)
  fix s r t
  assume eq: "runInStoreTransaction c cx scopes fn s = (r, t)"
  show "\<exists>es. follows s es t \<and> event_port ` set es \<subseteq> A"
  proof (cases "scopes = [] \<or> txRun c = None")
    case True
    show ?thesis
    proof (cases "scopes = []")
      case True
      with eq have "fn JUndef s = (r, t)" by (simp add: runInStoreTransaction_def)
      with assms [of JUndef] show ?thesis unfolding only_def by blast
    next
      case False
      with True eq have "t = s" by (simp add: runInStoreTransaction_def)
      then show ?thesis by (auto intro: exI [of _ "[]"])
    qed
  next
    case False
    then obtain run where run: "txRun c = Some run" "scopes \<noteq> []" by auto
    obtain answer cl u where ex: "exec_tx (run (obj [(''requiredScopes'', JArr scopes)]) (world s))
        (callback cx scopes fn) fresh_closure (trace s) = (answer, cl, u)"
      by (metis prod_cases3)
    with eq run have "u = t" by (auto simp: runInStoreTransaction_def)
    with exec_tx_follows [OF assms ex] show ?thesis by (auto simp: follows_def)
  qed
qed

lemma runInStoreTransaction_Ret:
  "scopes \<noteq> [] \<Longrightarrow> nothrow (runInStoreTransaction c cx scopes fn)"
  by (auto simp: nothrow_def runInStoreTransaction_def split: option.splits prod.splits)

lemma authErr_TRANSACTION: "internalReason (transactionFailed cx) = ''TRANSACTION_FAILED''"
  by code_simp

text \<open>A failure core reports is the callback's own, or \<open>TRANSACTION_FAILED\<close>.\<close>

lemma settle_Inl:
  assumes "settle cx answer cl = Inl e"
  shows "e = transactionFailed cx \<or> callbackResult cl = Some (Inl e)"
  using assms unfolding settle_def
  by (auto simp del: fld.simps fld_obj split: outcome.splits option.splits if_splits sum.splits)

section \<open>Well-behaved runners\<close>

text \<open>
  The contract core expects of a store's transactions: when the runner can cover the requested
  scopes it calls the callback once with a transaction that covers them and, once the callback
  has returned a result, answers with that result (or fails to commit and answers with some
  other failure). Core needs no more than this to be transparent.
\<close>

definition requested_scopes :: "jsv list \<Rightarrow> jsv" where
  "requested_scopes scopes = obj [(''requiredScopes'', JArr scopes)]"

locale transaction_runner =
  fixes run :: "jsv \<Rightarrow> 'w \<Rightarrow> 'w txprog"
    and supported :: "jsv list \<Rightarrow> 'w \<Rightarrow> bool"
    and transaction :: "jsv list \<Rightarrow> 'w \<Rightarrow> jsv"
    and open_world :: "jsv list \<Rightarrow> 'w \<Rightarrow> 'w"
    and commits :: "jsv list \<Rightarrow> 'w \<Rightarrow> 'w \<Rightarrow> bool"
    and commit_world :: "jsv list \<Rightarrow> 'w \<Rightarrow> 'w \<Rightarrow> 'w"
    and abort_world :: "jsv list \<Rightarrow> 'w \<Rightarrow> 'w \<Rightarrow> 'w"
  assumes covered: "supported scopes w \<Longrightarrow> transactionCovers (transaction scopes w) scopes"
    and calls_once: "supported scopes w \<Longrightarrow>
      \<exists>k. run (requested_scopes scopes) w = TxCall (transaction scopes w) (open_world scopes w) k
        \<and> (\<forall>result w2. isResult result \<longrightarrow> truthy (fld result ''ok'') \<longrightarrow> commits scopes w w2 \<longrightarrow>
             k (Ret result) w2 = TxDone (Ret result) (commit_world scopes w w2))
        \<and> (\<forall>result w2. isResult result \<longrightarrow> \<not> truthy (fld result ''ok'') \<longrightarrow>
             k (Ret result) w2 = TxDone (Ret result) (abort_world scopes w w2))"
begin

text \<open>A transaction whose callback succeeds, and that can commit, is transparent to core.\<close>

lemma transparent_success:
  assumes "txRun c = Some run" and "supported scopes (world s)" and "scopes \<noteq> []"
    and fn: "fn (transaction scopes (world s)) \<lparr>world = open_world scopes (world s), trace = trace s\<rparr> = (Ret (Inr a), s1)"
    and commit: "commits scopes (world s) (world s1)"
  shows "runInStoreTransaction c cx scopes fn s
    = (Ret (Inr a), \<lparr>world = commit_world scopes (world s) (world s1), trace = trace s1\<rparr>)"
proof -
  let ?tx = "transaction scopes (world s)"
  let ?id = "fld ?tx ''transactionId''"
  have res: "isResult (receipt_result ?id)" "truthy (fld (receipt_result ?id) ''ok'')"
    by (simp_all add: isResult_def receipt_result_def)
  obtain k where run: "run (requested_scopes scopes) (world s) = TxCall ?tx (open_world scopes (world s)) k"
    and k: "k (Ret (receipt_result ?id)) (world s1) = TxDone (Ret (receipt_result ?id)) (commit_world scopes (world s) (world s1))"
    using calls_once [OF assms(2)] res commit by blast
  have "callback cx scopes fn ?tx fresh_closure \<lparr>world = open_world scopes (world s), trace = trace s\<rparr>
    = (Ret (receipt_result ?id), \<lparr>callbackCalls = 1, callbackResult = Some (Inr a), callbackReceipt = Some ?id\<rparr>, s1)"
    using covered [OF assms(2)] fn by (simp add: callback_def Let_def fresh_closure_def)
  with assms(1,3) run k show ?thesis
    by (simp add: runInStoreTransaction_def requested_scopes_def settle_def res
        isTransactionReceipt_def receipt_result_def isResult_def)
qed

text \<open>A transaction whose callback fails leaves the world the runner restores.\<close>

lemma failure_restores:
  assumes "txRun c = Some run" and "supported scopes (world s)" and "scopes \<noteq> []"
    and fn: "fn (transaction scopes (world s)) \<lparr>world = open_world scopes (world s), trace = trace s\<rparr> = (Ret (Inl e), s1)"
  shows "\<exists>e2. runInStoreTransaction c cx scopes fn s
    = (Ret (Inl e2), \<lparr>world = abort_world scopes (world s) (world s1), trace = trace s1\<rparr>)"
proof -
  let ?tx = "transaction scopes (world s)"
  have res: "isResult (failure_result e)" "\<not> truthy (fld (failure_result e) ''ok'')"
    by (simp_all add: isResult_def failure_result_def)
  obtain k where run: "run (requested_scopes scopes) (world s) = TxCall ?tx (open_world scopes (world s)) k"
    and k: "k (Ret (failure_result e)) (world s1) = TxDone (Ret (failure_result e)) (abort_world scopes (world s) (world s1))"
    using calls_once [OF assms(2)] res by blast
  have "callback cx scopes fn ?tx fresh_closure \<lparr>world = open_world scopes (world s), trace = trace s\<rparr>
    = (Ret (failure_result e), \<lparr>callbackCalls = 1, callbackResult = Some (Inl e), callbackReceipt = None\<rparr>, s1)"
    using covered [OF assms(2)] fn by (simp add: callback_def Let_def fresh_closure_def)
  with assms(1,3) run k show ?thesis
    by (simp add: runInStoreTransaction_def requested_scopes_def settle_def)
qed

end

end
