(* ===== verification/Accounts.thy ===== *)
theory Accounts
  imports Transaction
begin

text \<open>
  \<open>packages/core/src/accounts/resolve.ts\<close>: which account an identity belongs to, under the four
  account resolution modes, and the creation of accounts and identities. A store's answer is
  used only when it is a record for what was asked.
\<close>

record resolvedAccount =
  account :: jsv
  identity :: jsv

section \<open>Answers about the right record\<close>

definition accountFor :: "jsv \<Rightarrow> jsv \<Rightarrow> jsv \<Rightarrow> bool" where
  "accountFor context accountId v =
     (isAccountRecord v \<and> fld v ''tenantId'' = fld context ''tenantId''
      \<and> fld v ''accountId'' = accountId)"

definition identityFor :: "jsv \<Rightarrow> jsv \<Rightarrow> jsv \<Rightarrow> bool" where
  "identityFor context lookup v =
     (isIdentityRecord v \<and> fld v ''tenantId'' = fld context ''tenantId''
      \<and> fld v ''methodId'' = fld lookup ''methodId''
      \<and> fld v ''methodKind'' = fld lookup ''methodKind''
      \<and> fld v ''subject'' = fld lookup ''subject''
      \<and> fld v ''subjectKind'' = fld lookup ''subjectKind'')"

definition findIdentity :: "'w cfg \<Rightarrow> jsv \<Rightarrow> jsv \<Rightarrow> jsv \<Rightarrow> ('w, jsv res) auth" where
  "findIdentity c context lookup tx =
     (if \<not> truthy lookup then okR JNull
      else bindR (storeR context c IdentitiesFindBySubject
             [obj [(''tenantId'', fld context ''tenantId''),
                   (''methodId'', fld lookup ''methodId''),
                   (''subject'', fld lookup ''subject'')], tx])
        (\<lambda>v. if truthy v \<and> \<not> identityFor context lookup v
             then errR context ''INTERNAL'' (Some ''TEMPORARILY_UNAVAILABLE'')
             else okR v))"

text \<open>The steps both branches of \<open>resolveAccount\<close> take to load an active account.\<close>

definition activeAccount :: "'w cfg \<Rightarrow> jsv \<Rightarrow> jsv \<Rightarrow> jsv list \<Rightarrow> ('w, jsv res) auth" where
  "activeAccount c context accountId tx =
     bindR (storeR context c AccountsFindById
        (obj [(''tenantId'', fld context ''tenantId''), (''accountId'', accountId)] # tx))
       (\<lambda>v. if truthy v \<and> \<not> accountFor context accountId v
            then errR context ''INTERNAL'' (Some ''TEMPORARILY_UNAVAILABLE'')
            else if \<not> truthy v \<or> fld v ''status'' \<noteq> JStr ''active''
            then errR context ''ACCOUNT_UNAVAILABLE'' (Some ''ACCOUNT_UNAVAILABLE'')
            else okR v)"

definition newAccountRecord :: "jsv \<Rightarrow> jsv \<Rightarrow> jsv \<Rightarrow> jsv" where
  "newAccountRecord context accountId now =
     obj [(''tenantId'', fld context ''tenantId''), (''accountId'', accountId),
          (''status'', JStr ''active''), (''createdAt'', now), (''updatedAt'', now)]"

definition createAccount :: "'w cfg \<Rightarrow> jsv \<Rightarrow> jsv \<Rightarrow> jsv \<Rightarrow> ('w, resolvedAccount res) auth" where
  "createAccount c context now tx =
     bindM (generateCoreId c ''account'' (fld context ''tenantId'') now) (\<lambda>accountId.
       case accountId of
         None \<Rightarrow> errR context ''INTERNAL'' (Some ''INTERNAL'')
       | Some accountId \<Rightarrow>
           let accountRecord = newAccountRecord context accountId now in
           bindM (liftO (accountRecordFingerprint accountRecord)) (\<lambda>expectedAccount.
           bindR (storeR context c AccountsCreate [obj [(''record'', accountRecord)], tx]) (\<lambda>created.
           bindM (liftO (accountRecordFingerprint created)) (\<lambda>fp.
             if fp \<noteq> expectedAccount
             then errR context ''INTERNAL'' (Some ''TEMPORARILY_UNAVAILABLE'')
             else okR \<lparr>account = created, identity = JUndef\<rparr>))))"

definition resolvePolicyCheck :: "jsv \<Rightarrow> jsv \<Rightarrow> jsv \<Rightarrow> jsv \<Rightarrow> jsv" where
  "resolvePolicyCheck context mode claim proof =
     obj [(''kind'', JStr ''resolve-account''), (''context'', context), (''proof'', proof),
          (''identity'', claim), (''lookup'', claim), (''mode'', mode)]"

definition resolveAccount ::
  "'w cfg \<Rightarrow> jsv \<Rightarrow> jsv \<Rightarrow> jsv \<Rightarrow> jsv \<Rightarrow> jsv \<Rightarrow> jsv \<Rightarrow> ('w, resolvedAccount res) auth" where
  "resolveAccount c context mode claim proof now tx =
     bindR (policy c (resolvePolicyCheck context mode claim proof)) (\<lambda>_.
     bindR (findIdentity c context claim tx) (\<lambda>existing.
       if fld mode ''mode'' = JStr ''create-new-account'' \<and> truthy existing
       then errR context ''IDENTITY_CONFLICT'' (Some ''CONFLICT'')
       else if fld mode ''mode'' = JStr ''require-existing-identity'' \<and> \<not> truthy existing
       then errR context ''AUTHENTICATION_FAILED'' (Some ''AUTHENTICATION_FAILED'')
       else if fld mode ''mode'' = JStr ''link-to-actor-account'' then
         (let actor = fld context ''actor'' in
          if fld actor ''type'' \<noteq> JStr ''account''
          then errR context ''ACCOUNT_LINKING_DENIED'' (Some ''AUTHORIZATION_FAILED'')
          else if truthy existing \<and> fld existing ''accountId'' \<noteq> fld actor ''accountId''
          then errR context ''ACCOUNT_LINKING_DENIED'' (Some ''AUTHORIZATION_FAILED'')
          else bindR (activeAccount c context (fld actor ''accountId'') [tx])
                 (\<lambda>a. okR \<lparr>account = a, identity = coalesce existing JUndef\<rparr>))
       else if truthy existing then
         bindR (activeAccount c context (fld existing ''accountId'') [tx])
           (\<lambda>a. okR \<lparr>account = a, identity = existing\<rparr>)
       else createAccount c context now tx))"

definition newIdentityRecord :: "jsv \<Rightarrow> jsv \<Rightarrow> jsv \<Rightarrow> jsv \<Rightarrow> jsv \<Rightarrow> jsv" where
  "newIdentityRecord context identityId accountId claim now =
     obj [(''tenantId'', fld context ''tenantId''), (''identityId'', identityId),
          (''accountId'', accountId), (''methodId'', fld claim ''methodId''),
          (''methodKind'', fld claim ''methodKind''), (''subject'', fld claim ''subject''),
          (''subjectKind'', fld claim ''subjectKind''), (''display'', fld claim ''display''),
          (''verifiedAt'', fld claim ''verifiedAt''), (''createdAt'', now), (''updatedAt'', now)]"

definition createIdentityForClaim ::
  "'w cfg \<Rightarrow> jsv \<Rightarrow> jsv \<Rightarrow> jsv \<Rightarrow> jsv \<Rightarrow> jsv \<Rightarrow> ('w, jsv res) auth" where
  "createIdentityForClaim c context accountId claim now tx =
     bindM (generateCoreId c ''identity'' (fld context ''tenantId'') now) (\<lambda>identityId.
       case identityId of
         None \<Rightarrow> errR context ''INTERNAL'' (Some ''INTERNAL'')
       | Some identityId \<Rightarrow>
           let identityRecord = newIdentityRecord context identityId accountId claim now in
           bindM (liftO (identityRecordFingerprint identityRecord)) (\<lambda>expectedIdentity.
           bindR (storeR context c IdentitiesCreate [obj [(''record'', identityRecord)], tx]) (\<lambda>created.
           bindM (liftO (identityRecordFingerprint created)) (\<lambda>fp.
             if fp \<noteq> expectedIdentity
             then errR context ''INTERNAL'' (Some ''TEMPORARILY_UNAVAILABLE'')
             else okR created))))"

section \<open>What resolution guarantees\<close>

lemma findIdentity_found:
  assumes "findIdentity c cx lookup tx s = (Ret (Inr v), t)" and "truthy v"
  shows "identityFor cx lookup v"
  using assms by (auto simp: findIdentity_def elim!: bindR_InrE split: if_splits)

lemma activeAccount_found:
  assumes "activeAccount c cx aid tx s = (Ret (Inr v), t)"
  shows "accountFor cx aid v \<and> fld v ''status'' = JStr ''active''"
  using assms by (auto simp: activeAccount_def simp del: fld.simps fld_obj elim!: bindR_InrE split: if_splits)

text \<open>Records that pass the check of a store's answer are records for what core asked to store.\<close>

lemma accountRecordFingerprint_fields:
  assumes "accountRecordFingerprint v = Some f" and "accountRecordFingerprint w = Some f"
    and "isAccountRecord w"
  shows "isAccountRecord v" and "k \<in> {''tenantId'', ''accountId'', ''status''} \<Longrightarrow> fld v k = fld w k"
  using recordFingerprint_fields [of isAccountRecord v f w, OF assms [unfolded accountRecordFingerprint_def]]
    isAccountRecord_untagged isAccountRecord_scalar by blast+

lemma identityRecordFingerprint_fields:
  assumes "identityRecordFingerprint v = Some f" and "identityRecordFingerprint w = Some f"
    and "isIdentityRecord w"
  shows "isIdentityRecord v"
    and "k \<in> {''tenantId'', ''identityId'', ''accountId'', ''methodId'', ''methodKind'', ''subject'', ''subjectKind''}
      \<Longrightarrow> fld v k = fld w k"
  using recordFingerprint_fields [of isIdentityRecord v f w, OF assms [unfolded identityRecordFingerprint_def]]
    isIdentityRecord_untagged isIdentityRecord_scalar by blast+

lemma newAccountRecord_valid:
  assumes "isNonEmptyString (fld cx ''tenantId'')" and "isNonEmptyString aid" and "isValidDate now"
  shows "isAccountRecord (newAccountRecord cx aid now)"
  using assms
  by (auto simp: newAccountRecord_def isAccountRecord_def hasOnlyKeys_def accountKeys_def
      isDateOrder_def date_le_iff isPublicData_def simp del: fld.simps)

lemma createAccount_created:
  assumes "createAccount c cx now tx s = (Ret (Inr r), t)"
    and "isNonEmptyString (fld cx ''tenantId'')"
  shows "isAccountRecord (account r) \<and> fld (account r) ''tenantId'' = fld cx ''tenantId''
    \<and> fld (account r) ''status'' = JStr ''active'' \<and> identity r = JUndef"
proof -
  from assms(1) obtain aid u where gen: "generateCoreId c ''account'' (fld cx ''tenantId'') now s = (Ret (Some aid), u)"
    and rest: "\<exists>f. accountRecordFingerprint (newAccountRecord cx aid now) = Some f
        \<and> accountRecordFingerprint (account r) = Some f" and id: "identity r = JUndef"
    by (auto simp: createAccount_def Let_def elim!: bindM_RetE bindR_InrE
        split: option.splits if_splits)
  from gen have now: "isValidDate now"
    by (auto simp: generateCoreId_def split: if_splits)
  note valid = newAccountRecord_valid [OF assms(2) generateCoreId_SomeD [OF gen] now]
  from rest obtain f where f: "accountRecordFingerprint (account r) = Some f"
    "accountRecordFingerprint (newAccountRecord cx aid now) = Some f" by blast
  from accountRecordFingerprint_fields(1) [OF f valid] accountRecordFingerprint_fields(2) [OF f valid]
  show ?thesis using id by (auto simp: newAccountRecord_def)
qed

text \<open>What the account and identity of a resolution have in common with the request.\<close>

definition resolution_ok :: "jsv \<Rightarrow> jsv \<Rightarrow> jsv \<Rightarrow> resolvedAccount \<Rightarrow> bool" where
  "resolution_ok context mode claim r =
     (isAccountRecord (account r)
      \<and> fld (account r) ''tenantId'' = fld context ''tenantId''
      \<and> fld (account r) ''status'' = JStr ''active''
      \<and> (truthy (identity r) \<longrightarrow> identityFor context claim (identity r)
           \<and> fld (identity r) ''accountId'' = fld (account r) ''accountId'')
      \<and> (fld mode ''mode'' = JStr ''create-new-account'' \<longrightarrow> \<not> truthy (identity r))
      \<and> (fld mode ''mode'' = JStr ''require-existing-identity'' \<longrightarrow> truthy (identity r))
      \<and> (fld mode ''mode'' = JStr ''link-to-actor-account'' \<longrightarrow>
           fld (fld context ''actor'') ''type'' = JStr ''account''
           \<and> fld (account r) ''accountId'' = fld (fld context ''actor'') ''accountId''))"

lemma truthy_coalesce_JUndef [simp]: "truthy (coalesce v JUndef) = truthy v"
  by (cases v) (auto simp: coalesce_def nullish_def)

lemma coalesce_truthy: "truthy v \<Longrightarrow> coalesce v w = v"
  by (auto simp: coalesce_def nullish_def)

lemma resolveAccount_sound:
  assumes run: "resolveAccount c cx mode claim proof now tx s = (Ret (Inr r), t)"
    and tenant: "isNonEmptyString (fld cx ''tenantId'')"
  shows "resolution_ok cx mode claim r"
proof -
  let ?mode = "fld mode ''mode''"
  from run obtain existing u v
    where existing: "findIdentity c cx claim tx u = (Ret (Inr existing), v)"
      and rest: "(if ?mode = JStr ''create-new-account'' \<and> truthy existing
       then errR cx ''IDENTITY_CONFLICT'' (Some ''CONFLICT'')
       else if ?mode = JStr ''require-existing-identity'' \<and> \<not> truthy existing
       then errR cx ''AUTHENTICATION_FAILED'' (Some ''AUTHENTICATION_FAILED'')
       else if ?mode = JStr ''link-to-actor-account'' then
         (let actor = fld cx ''actor'' in
          if fld actor ''type'' \<noteq> JStr ''account''
          then errR cx ''ACCOUNT_LINKING_DENIED'' (Some ''AUTHORIZATION_FAILED'')
          else if truthy existing \<and> fld existing ''accountId'' \<noteq> fld actor ''accountId''
          then errR cx ''ACCOUNT_LINKING_DENIED'' (Some ''AUTHORIZATION_FAILED'')
          else bindR (activeAccount c cx (fld actor ''accountId'') [tx])
                 (\<lambda>a. okR \<lparr>account = a, identity = coalesce existing JUndef\<rparr>))
       else if truthy existing then
         bindR (activeAccount c cx (fld existing ''accountId'') [tx])
           (\<lambda>a. okR \<lparr>account = a, identity = existing\<rparr>)
       else createAccount c cx now tx) v = (Ret (Inr r), t)"
    unfolding resolveAccount_def by (elim bindR_InrE)
  note found = findIdentity_found [OF existing]
  note defs = resolution_ok_def accountFor_def Let_def
  consider (link) "?mode = JStr ''link-to-actor-account''"
    | (known) "?mode \<noteq> JStr ''link-to-actor-account''" "truthy existing"
    | (fresh) "?mode \<noteq> JStr ''link-to-actor-account''" "\<not> truthy existing"
    by blast
  then show ?thesis
  proof cases
    case link
    with rest obtain a where a: "activeAccount c cx (fld (fld cx ''actor'') ''accountId'') [tx] v = (Ret (Inr a), t)"
      and r: "r = \<lparr>account = a, identity = coalesce existing JUndef\<rparr>"
      and actor: "fld (fld cx ''actor'') ''type'' = JStr ''account''"
        "truthy existing \<longrightarrow> fld existing ''accountId'' = fld (fld cx ''actor'') ''accountId''"
      by (auto simp: Let_def simp del: fld.simps fld_obj elim!: bindR_InrE split: if_splits)
    from activeAccount_found [OF a] r actor link found show ?thesis
      by (auto simp: defs coalesce_truthy simp del: fld.simps fld_obj)
  next
    case known
    with rest obtain a where a: "activeAccount c cx (fld existing ''accountId'') [tx] v = (Ret (Inr a), t)"
      and r: "r = \<lparr>account = a, identity = existing\<rparr>"
      and mode: "?mode \<noteq> JStr ''create-new-account''"
      by (auto simp del: fld.simps fld_obj elim!: bindR_InrE split: if_splits)
    from activeAccount_found [OF a] r mode known found show ?thesis
      by (auto simp: defs simp del: fld.simps fld_obj)
  next
    case fresh
    with rest have a: "createAccount c cx now tx v = (Ret (Inr r), t)"
      and mode: "?mode \<noteq> JStr ''require-existing-identity''"
      by (auto simp del: fld.simps fld_obj split: if_splits)
    from createAccount_created [OF a tenant] mode fresh show ?thesis
      by (auto simp: defs simp del: fld.simps fld_obj)
  qed
qed

lemma resolveAccount_policy:
  assumes "resolveAccount c cx mode claim proof now tx s = (Ret (Inr r), t)" and "hasPolicy c"
  obtains i es u where "policyInput (resolvePolicyCheck cx mode claim proof) = Some i"
    and "follows s es u" and "policy_allowed es i"
  using assms unfolding resolveAccount_def
  by (elim bindR_InrE) (blast elim: policy_ok_allowed)

section \<open>Calls\<close>

definition resolve_ports :: "port set" where
  "resolve_ports = {PolicyDecide, IdentitiesFindBySubject, IdentitiesCreate, AccountsFindById,
     AccountsCreate, IdGenerate}"

lemma only_findIdentity [only_rules]:
  "IdentitiesFindBySubject \<in> A \<Longrightarrow> only A (findIdentity c cx lookup tx)"
  unfolding findIdentity_def by (intro only_rules)

lemma only_activeAccount [only_rules]:
  "AccountsFindById \<in> A \<Longrightarrow> only A (activeAccount c cx aid tx)"
  unfolding activeAccount_def by (intro only_rules)

lemma only_resolveAccount [only_rules]:
  "resolve_ports \<subseteq> A \<Longrightarrow> only A (resolveAccount c cx mode claim proof now tx)"
  unfolding resolveAccount_def createAccount_def Let_def resolve_ports_def
  by (intro only_rules) auto

lemma only_createIdentityForClaim [only_rules]:
  "resolve_ports \<subseteq> A \<Longrightarrow> only A (createIdentityForClaim c cx aid claim now tx)"
  unfolding createIdentityForClaim_def Let_def resolve_ports_def
  by (intro only_rules) auto


section \<open>Created identities\<close>

lemma newIdentityRecord_valid:
  assumes "isNonEmptyString (fld cx ''tenantId'')" and "isNonEmptyString iid" and "isNonEmptyString aid"
    and "isIdentityClaim claim t" and "isValidDate now"
  shows "isIdentityRecord (newIdentityRecord cx iid aid claim now)"
  using assms
  by (simp add: newIdentityRecord_def isIdentityRecord_def hasOnlyKeys_def identityKeys_def
      isDateOrder_def date_le_iff isIdentityClaim_def isSafeDisplay_def del: fld.simps) blast

lemma created_identity:
  assumes "identityRecordFingerprint created = Some f"
    and "identityRecordFingerprint (newIdentityRecord cx iid aid claim now) = Some f"
    and "isNonEmptyString (fld cx ''tenantId'')" and "isNonEmptyString iid" and "isNonEmptyString aid"
    and "isIdentityClaim claim t" and "isValidDate now"
  shows "identityFor cx claim created \<and> fld created ''accountId'' = aid \<and> fld created ''identityId'' = iid"
proof -
  note valid = newIdentityRecord_valid [OF assms(3-7)]
  have eq: "fld created k = fld (newIdentityRecord cx iid aid claim now) k"
    if "k \<in> {''tenantId'', ''identityId'', ''accountId'', ''methodId'', ''methodKind'', ''subject'', ''subjectKind''}" for k
    using identityRecordFingerprint_fields(2) [OF assms(1,2) valid that] .
  show ?thesis
    using identityRecordFingerprint_fields(1) [OF assms(1,2) valid] eq
    by (simp add: identityFor_def newIdentityRecord_def)
qed

lemma createIdentityForClaim_created:
  assumes "createIdentityForClaim c cx aid claim now tx s = (Ret (Inr v), t)"
    and "isNonEmptyString (fld cx ''tenantId'')" and "isNonEmptyString aid" and "isIdentityClaim claim t0"
  shows "identityFor cx claim v \<and> fld v ''accountId'' = aid"
proof -
  from assms(1) obtain iid u f where gen: "generateCoreId c ''identity'' (fld cx ''tenantId'') now s = (Ret (Some iid), u)"
    and f: "identityRecordFingerprint (newIdentityRecord cx iid aid claim now) = Some f"
      "identityRecordFingerprint v = Some f"
    by (auto simp: createIdentityForClaim_def Let_def elim!: bindM_RetE bindR_InrE
        split: option.splits if_splits)
  from gen have "isValidDate now" by (auto simp: generateCoreId_def split: if_splits)
  with created_identity [OF f(2,1) assms(2) generateCoreId_SomeD [OF gen] assms(3,4)] show ?thesis by blast
qed

lemma resolution_accountId: "resolution_ok cx mode claim r \<Longrightarrow> isNonEmptyString (fld (account r) ''accountId'')"
  by (auto simp: resolution_ok_def isAccountRecord_def simp del: fld.simps fld_obj)


end
