(* ===== verification/Sessions.thy ===== *)
theory Sessions
  imports Accounts
begin

text \<open>
  \<open>packages/core/src/operations/session.ts\<close>: reading a session from a presented token, revoking
  a session, and creating one at the end of an operation.
\<close>

section \<open>Checks\<close>

definition isGetSessionInput :: "jsv \<Rightarrow> bool" where
  "isGetSessionInput v =
     (isRecord v \<and> isAuthContext (fld v ''context'')
      \<and> (fld v ''token'' = JUndef \<or> isRawSecret (fld v ''token'')))"

definition isRevokeSessionInput :: "jsv \<Rightarrow> bool" where
  "isRevokeSessionInput v =
     (isRecord v \<and> isAuthContext (fld v ''context'') \<and> isNonEmptyString (fld v ''sessionId''))"

definition actorMayRevokeSession :: "jsv \<Rightarrow> jsv \<Rightarrow> bool" where
  "actorMayRevokeSession context session =
     (fld (fld context ''actor'') ''type'' = JStr ''system''
      \<or> fld (fld context ''actor'') ''type'' = JStr ''account''
        \<and> fld (fld context ''actor'') ''accountId'' = fld session ''accountId'')"

text \<open>A throwing \<open>revealForPersistence\<close> is caught: the values do not match.\<close>

definition protectedValuesMatch :: "jsv \<Rightarrow> jsv \<Rightarrow> bool" where
  "protectedValuesMatch left right =
     (truthy left \<and> truthy right
      \<and> fld left ''type'' = JStr ''protected-value''
      \<and> fld right ''type'' = JStr ''protected-value''
      \<and> fld left ''scheme'' = fld right ''scheme''
      \<and> fld left ''keyId'' = fld right ''keyId''
      \<and> is_fun (fld left ''revealForPersistence'')
      \<and> is_fun (fld right ''revealForPersistence'')
      \<and> (case (call_thunk (fld left ''revealForPersistence''),
                call_thunk (fld right ''revealForPersistence'')) of
           (Some a, Some b) \<Rightarrow> a = b
         | _ \<Rightarrow> False))"

definition sessionFor :: "jsv \<Rightarrow> jsv \<Rightarrow> jsv \<Rightarrow> bool" where
  "sessionFor context sessionId v =
     (isSessionRecord v \<and> fld v ''tenantId'' = fld context ''tenantId''
      \<and> fld v ''sessionId'' = sessionId)"

section \<open>Reading a session\<close>

definition getSession :: "'w cfg \<Rightarrow> jsv \<Rightarrow> ('w, jsv res) auth" where
  "getSession c input =
     (if \<not> isGetSessionInput input
      then errR (authContextFrom input) ''VALIDATION_FAILED'' (Some ''INVALID_INPUT'')
      else let context = fld input ''context''; token = fld input ''token'' in
      if \<not> truthy token then okR JNull
      else bindM (readNow c) (\<lambda>now. case now of
        None \<Rightarrow> errR context ''INTERNAL'' (Some ''INTERNAL'')
      | Some now \<Rightarrow>
      bindM (attemptM (callPort c TokenIdentify
               [obj [(''raw'', token), (''expectedTenantId'', fld context ''tenantId''), (''now'', now)]]))
        (\<lambda>call. case call of
        None \<Rightarrow> errR context ''INTERNAL'' (Some ''TEMPORARILY_UNAVAILABLE'')
      | Some identified \<Rightarrow>
      if \<not> isTokenIdentifyCallResult identified
      then errR context ''INTERNAL'' (Some ''TEMPORARILY_UNAVAILABLE'')
      else if \<not> truthy (fld identified ''ok'')
      then errR context (str_or (fld (fld identified ''error'') ''reason'') '''')
             (Some ''TEMPORARILY_UNAVAILABLE'')
      else let claim = fld identified ''value'' in
      if \<not> truthy claim then okR JNull
      else case snapshotProtectedValue (fld claim ''tokenHash'') of
        None \<Rightarrow> errR context ''INTERNAL'' (Some ''TEMPORARILY_UNAVAILABLE'')
      | Some tokenHash \<Rightarrow>
      let bySession = (fld claim ''kind'' = JStr ''by-session'') in
      if bySession \<and> fld claim ''tenantId'' \<noteq> fld context ''tenantId'' then okR JNull
      else bindR (if bySession
        then storeR context c SessionsFindById
          [obj [(''tenantId'', fld context ''tenantId''), (''sessionId'', fld claim ''sessionId'')]]
        else storeR context c SessionsFindByTokenHash
          [obj [(''tenantId'', fld context ''tenantId''), (''tokenHash'', tokenHash)]])
        (\<lambda>found.
      if truthy found \<and> (\<not> isSessionRecord found
          \<or> fld found ''tenantId'' \<noteq> fld context ''tenantId''
          \<or> bySession \<and> fld found ''sessionId'' \<noteq> fld claim ''sessionId'')
      then errR context ''INTERNAL'' (Some ''TEMPORARILY_UNAVAILABLE'')
      else if truthy found \<and> \<not> protectedValuesMatch (fld found ''tokenHash'') tokenHash
      then (if bySession then okR JNull
            else errR context ''INTERNAL'' (Some ''TEMPORARILY_UNAVAILABLE''))
      else if \<not> truthy found \<or> fld found ''status'' \<noteq> JStr ''active'' then okR JNull
      else bindR (storeR context c AccountsFindById
             [obj [(''tenantId'', fld context ''tenantId''), (''accountId'', fld found ''accountId'')]])
        (\<lambda>account.
      if truthy account \<and> \<not> accountFor context (fld found ''accountId'') account
      then errR context ''INTERNAL'' (Some ''TEMPORARILY_UNAVAILABLE'')
      else if \<not> truthy account \<or> fld account ''status'' \<noteq> JStr ''active'' then okR JNull
      else bindM (readNow c) (\<lambda>resolvedAt. case resolvedAt of
        None \<Rightarrow> errR context ''INTERNAL'' (Some ''INTERNAL'')
      | Some resolvedAt \<Rightarrow>
      if date_le (fld found ''expiresAt'') resolvedAt then okR JNull
      else okR (toSessionView found)))))))"

section \<open>Revoking a session\<close>

definition revokePolicyCheck :: "jsv \<Rightarrow> jsv \<Rightarrow> jsv \<Rightarrow> jsv" where
  "revokePolicyCheck context sessionId session =
     obj [(''kind'', JStr ''revoke-session''), (''context'', context), (''sessionId'', sessionId),
          (''session'', toSessionView session)]"

definition revokeSession :: "'w cfg \<Rightarrow> jsv \<Rightarrow> ('w, unit res) auth" where
  "revokeSession c input =
     (if \<not> isRevokeSessionInput input
      then errR (authContextFrom input) ''VALIDATION_FAILED'' (Some ''INVALID_INPUT'')
      else let context = fld input ''context''; sessionId = fld input ''sessionId'';
               query = [(''tenantId'', fld context ''tenantId''), (''sessionId'', sessionId)] in
      bindM (readNow c) (\<lambda>now. case now of
        None \<Rightarrow> errR context ''INTERNAL'' (Some ''INTERNAL'')
      | Some _ \<Rightarrow>
      bindR (storeR context c SessionsFindById [obj query]) (\<lambda>existing.
      if truthy existing \<and> \<not> sessionFor context sessionId existing
      then errR context ''INTERNAL'' (Some ''TEMPORARILY_UNAVAILABLE'')
      else if \<not> truthy existing \<or> \<not> actorMayRevokeSession context existing then okR ()
      else bindR (policy c (revokePolicyCheck context sessionId existing)) (\<lambda>_.
      bindM (readNow c) (\<lambda>revokedAt. case revokedAt of
        None \<Rightarrow> errR context ''INTERNAL'' (Some ''INTERNAL'')
      | Some revokedAt \<Rightarrow>
      bindR (storeR context c SessionsRevoke [obj (query @ [(''now'', revokedAt)])]) (\<lambda>revoked.
      if truthy revoked \<and> (\<not> sessionFor context sessionId revoked
          \<or> fld revoked ''status'' \<noteq> JStr ''revoked'')
      then errR context ''INTERNAL'' (Some ''TEMPORARILY_UNAVAILABLE'')
      else bindM (emitEvent c context
             [(''name'', JStr ''auth.session.revoked''), (''sessionId'', sessionId),
              (''outcome'', JStr ''success'')] (Some revokedAt))
        (\<lambda>_. okR ())))))))"

section \<open>Creating a session\<close>

text \<open>\<open>ttl > maxTtlSeconds\<close>, false when the bound is not a number.\<close>

fun exceeds :: "int \<Rightarrow> jsv \<Rightarrow> bool" where
  "exceeds n (JNum m) = (m < n)"
| "exceeds n _ = False"

definition resolveSessionTtl :: "'w cfg \<Rightarrow> jsv \<Rightarrow> int option" where
  "resolveSessionTtl c request =
     (let ttl = coalesce (fld request ''ttlSeconds'') (defaultTtlSeconds c) in
      if \<not> isPositiveInteger ttl then None
      else if maxTtlSeconds c \<noteq> JUndef \<and> exceeds (num_val ttl) (maxTtlSeconds c) then None
      else Some (num_val ttl))"

definition newSessionRecord :: "jsv \<Rightarrow> jsv \<Rightarrow> jsv \<Rightarrow> jsv \<Rightarrow> jsv \<Rightarrow> jsv \<Rightarrow> jsv" where
  "newSessionRecord context sessionId accountId tokenHash now expiresAt =
     obj [(''tenantId'', fld context ''tenantId''), (''sessionId'', sessionId),
          (''accountId'', accountId), (''tokenHash'', tokenHash), (''status'', JStr ''active''),
          (''issuedAt'', now), (''expiresAt'', expiresAt), (''createdAt'', now), (''updatedAt'', now)]"

text \<open>
  \<open>sessionRecordsMatch(value, expectedSessionRecord(record))\<close>; \<open>None\<close> when revealing the
  verifier of the answer throws, which happens only after the comparisons before it succeed.
\<close>

definition sessionRecordsMatch :: "jsv \<Rightarrow> jsv \<Rightarrow> bool option" where
  "sessionRecordsMatch v expected =
     (if isSessionRecord v
         \<and> fld v ''tenantId'' = fld expected ''tenantId''
         \<and> fld v ''sessionId'' = fld expected ''sessionId''
         \<and> fld v ''accountId'' = fld expected ''accountId''
         \<and> fld v ''status'' = fld expected ''status''
         \<and> fld (fld v ''tokenHash'') ''scheme'' = fld (fld expected ''tokenHash'') ''scheme''
         \<and> coalesce (fld (fld v ''tokenHash'') ''keyId'') (JStr '''')
           = coalesce (fld (fld expected ''tokenHash'') ''keyId'') (JStr '''')
      then (case call_thunk (fld (fld v ''tokenHash'') ''revealForPersistence'') of
              None \<Rightarrow> None
            | Some verifier \<Rightarrow> Some
                (Some verifier = call_thunk (fld (fld expected ''tokenHash'') ''revealForPersistence'')
                 \<and> date_ms (fld v ''issuedAt'') = date_ms (fld expected ''issuedAt'')
                 \<and> date_ms (fld v ''expiresAt'') = date_ms (fld expected ''expiresAt'')
                 \<and> nullish (fld v ''revokedAt'')
                 \<and> date_ms (fld v ''createdAt'') = date_ms (fld expected ''createdAt'')
                 \<and> date_ms (fld v ''updatedAt'') = date_ms (fld expected ''updatedAt'')))
      else Some False)"

definition createPolicyCheck :: "jsv \<Rightarrow> jsv \<Rightarrow> jsv \<Rightarrow> jsv \<Rightarrow> int \<Rightarrow> jsv \<Rightarrow> jsv" where
  "createPolicyCheck context accountId proof request ttl expiresAt =
     obj [(''kind'', JStr ''create-session''), (''context'', context), (''accountId'', accountId),
          (''proof'', proof), (''requestedTtlSeconds'', fld request ''ttlSeconds''),
          (''resolvedTtlSeconds'', JNum ttl), (''expiresAt'', expiresAt)]"

definition createSession ::
  "'w cfg \<Rightarrow> jsv \<Rightarrow> jsv \<Rightarrow> jsv \<Rightarrow> jsv \<Rightarrow> jsv \<Rightarrow> jsv \<Rightarrow> ('w, createdSession res) auth" where
  "createSession c context accountId proof request now tx =
     (if \<not> isValidDate now then errR context ''INTERNAL'' (Some ''INTERNAL'')
      else case resolveSessionTtl c request of
        None \<Rightarrow> errR context ''SESSION_TTL_INVALID'' (Some ''INVALID_INPUT'')
      | Some ttl \<Rightarrow>
      let expiresAt = new_date (date_ms now + ttl * 1000) in
      if \<not> isValidDate expiresAt then errR context ''SESSION_TTL_INVALID'' (Some ''INVALID_INPUT'')
      else bindR (policy c (createPolicyCheck context accountId proof request ttl expiresAt)) (\<lambda>_.
      bindM (generateCoreId c ''session'' (fld context ''tenantId'') now) (\<lambda>sessionId.
      case sessionId of
        None \<Rightarrow> errR context ''INTERNAL'' (Some ''INTERNAL'')
      | Some sessionId \<Rightarrow>
      bindM (attemptM (callPort c TokenIssue
         [obj [(''tenantId'', fld context ''tenantId''), (''accountId'', accountId),
               (''sessionId'', sessionId), (''issuedAt'', now), (''expiresAt'', expiresAt)]]))
        (\<lambda>call. case call of
        None \<Rightarrow> errR context ''INTERNAL'' (Some ''TEMPORARILY_UNAVAILABLE'')
      | Some token \<Rightarrow>
      if \<not> isTokenIssueCallResult token
      then errR context ''INTERNAL'' (Some ''TEMPORARILY_UNAVAILABLE'')
      else if \<not> truthy (fld token ''ok'')
      then errR context (str_or (fld (fld token ''error'') ''reason'') '''')
             (Some ''TEMPORARILY_UNAVAILABLE'')
      else case (snapshotRawSecret (fld (fld token ''value'') ''raw''),
                 snapshotProtectedValue (fld (fld token ''value'') ''tokenHash'')) of
        (Some rawToken, Some tokenHash) \<Rightarrow>
          let sessionRecord = newSessionRecord context sessionId accountId tokenHash now expiresAt in
          bindR (storeR context c SessionsCreate [obj [(''record'', sessionRecord)], tx]) (\<lambda>created.
          bindM (liftO (sessionRecordsMatch created sessionRecord)) (\<lambda>same.
          if \<not> same then errR context ''INTERNAL'' (Some ''TEMPORARILY_UNAVAILABLE'')
          else bindM (readNow c) (\<lambda>completedAt. case completedAt of
            None \<Rightarrow> errR context ''INTERNAL'' (Some ''INTERNAL'')
          | Some completedAt \<Rightarrow>
          if date_le (fld created ''expiresAt'') completedAt
          then errR context ''SESSION_EXPIRED'' (Some ''SESSION_INVALID'')
          else okR \<lparr>sessionView = toSessionView created,
                 issuedToken = obj [(''raw'', rawToken), (''issuedAt'', now), (''expiresAt'', expiresAt)]\<rparr>)))
      | _ \<Rightarrow> errR context ''INTERNAL'' (Some ''TEMPORARILY_UNAVAILABLE'')))))"

section \<open>A session is only read by whom it belongs to\<close>

text \<open>
  When \<open>getSession\<close> returns a view, it has asked exactly these questions, and the answers were
  a live session of the tenant whose token hash is the one the presented token stands for, an
  active account that owns it, and a moment before the session's end.
\<close>

definition sessionQuery :: "jsv \<Rightarrow> jsv \<Rightarrow> jsv \<Rightarrow> port \<times> jsv list" where
  "sessionQuery context claim tokenHash =
     (if fld claim ''kind'' = JStr ''by-session''
      then (SessionsFindById, [obj [(''tenantId'', fld context ''tenantId''), (''sessionId'', fld claim ''sessionId'')]])
      else (SessionsFindByTokenHash, [obj [(''tenantId'', fld context ''tenantId''), (''tokenHash'', tokenHash)]]))"

definition sessionProven :: "jsv \<Rightarrow> jsv \<Rightarrow> jsv \<Rightarrow> jsv \<Rightarrow> jsv \<Rightarrow> jsv \<Rightarrow> bool" where
  "sessionProven context claim tokenHash found acc at =
     (snapshotProtectedValue (fld claim ''tokenHash'') = Some tokenHash
      \<and> isSessionRecord found
      \<and> fld found ''tenantId'' = fld context ''tenantId''
      \<and> (fld claim ''kind'' = JStr ''by-session'' \<longrightarrow> fld found ''sessionId'' = fld claim ''sessionId''
           \<and> fld claim ''tenantId'' = fld context ''tenantId'')
      \<and> protectedValuesMatch (fld found ''tokenHash'') tokenHash
      \<and> fld found ''status'' = JStr ''active''
      \<and> accountFor context (fld found ''accountId'') acc
      \<and> fld acc ''status'' = JStr ''active''
      \<and> isValidDate at \<and> date_less at (fld found ''expiresAt''))"

lemma toSessionView_not_null: "toSessionView r \<noteq> JNull"
  by (simp add: toSessionView_def)

lemma getSession_steps:
  assumes "getSession c input s = (Ret (Inr v), t)" and "v \<noteq> JNull"
  obtains now identified tokenHash u1 u2 u3 u4 found account at
  where "isGetSessionInput input" and "truthy (fld input ''token'')"
    and "readNow c s = (Ret (Some now), u1)"
    and "attemptM (callPort c TokenIdentify
        [obj [(''raw'', fld input ''token''),
              (''expectedTenantId'', fld (fld input ''context'') ''tenantId''), (''now'', now)]]) u1
        = (Ret (Some identified), u2)"
    and "isTokenIdentifyCallResult identified" and "truthy (fld identified ''ok'')"
    and "storeR (fld input ''context'') c
        (fst (sessionQuery (fld input ''context'') (fld identified ''value'') tokenHash))
        (snd (sessionQuery (fld input ''context'') (fld identified ''value'') tokenHash)) u2 = (Ret (Inr found), u3)"
    and "storeR (fld input ''context'') c AccountsFindById
        [obj [(''tenantId'', fld (fld input ''context'') ''tenantId''), (''accountId'', fld found ''accountId'')]] u3
        = (Ret (Inr account), u4)"
    and "readNow c u4 = (Ret (Some at), t)"
    and "sessionProven (fld input ''context'') (fld identified ''value'') tokenHash found account at"
    and "v = toSessionView found"
proof -
  let ?cx = "fld input ''context''"
  from assms obtain now identified tokenHash u1 u2
    where 1: "isGetSessionInput input" "truthy (fld input ''token'')"
      "readNow c s = (Ret (Some now), u1)"
      "attemptM (callPort c TokenIdentify
        [obj [(''raw'', fld input ''token''), (''expectedTenantId'', fld ?cx ''tenantId''), (''now'', now)]]) u1
        = (Ret (Some identified), u2)"
      "isTokenIdentifyCallResult identified" "truthy (fld identified ''ok'')"
      "snapshotProtectedValue (fld (fld identified ''value'') ''tokenHash'') = Some tokenHash"
    and rest: "(let claim = fld identified ''value''; bySession = (fld claim ''kind'' = JStr ''by-session'') in
      if bySession \<and> fld claim ''tenantId'' \<noteq> fld ?cx ''tenantId'' then okR JNull
      else bindR (if bySession
        then storeR ?cx c SessionsFindById
          [obj [(''tenantId'', fld ?cx ''tenantId''), (''sessionId'', fld claim ''sessionId'')]]
        else storeR ?cx c SessionsFindByTokenHash
          [obj [(''tenantId'', fld ?cx ''tenantId''), (''tokenHash'', tokenHash)]])
        (\<lambda>found.
      if truthy found \<and> (\<not> isSessionRecord found
          \<or> fld found ''tenantId'' \<noteq> fld ?cx ''tenantId''
          \<or> bySession \<and> fld found ''sessionId'' \<noteq> fld claim ''sessionId'')
      then errR ?cx ''INTERNAL'' (Some ''TEMPORARILY_UNAVAILABLE'')
      else if truthy found \<and> \<not> protectedValuesMatch (fld found ''tokenHash'') tokenHash
      then (if bySession then okR JNull
            else errR ?cx ''INTERNAL'' (Some ''TEMPORARILY_UNAVAILABLE''))
      else if \<not> truthy found \<or> fld found ''status'' \<noteq> JStr ''active'' then okR JNull
      else bindR (storeR ?cx c AccountsFindById
             [obj [(''tenantId'', fld ?cx ''tenantId''), (''accountId'', fld found ''accountId'')]])
        (\<lambda>account.
      if truthy account \<and> \<not> accountFor ?cx (fld found ''accountId'') account
      then errR ?cx ''INTERNAL'' (Some ''TEMPORARILY_UNAVAILABLE'')
      else if \<not> truthy account \<or> fld account ''status'' \<noteq> JStr ''active'' then okR JNull
      else bindM (readNow c) (\<lambda>resolvedAt. case resolvedAt of
        None \<Rightarrow> errR ?cx ''INTERNAL'' (Some ''INTERNAL'')
      | Some resolvedAt \<Rightarrow>
      if date_le (fld found ''expiresAt'') resolvedAt then okR JNull
      else okR (toSessionView found))))) u2 = (Ret (Inr v), t)"
    unfolding getSession_def Let_def
    by (auto simp del: fld.simps fld_obj elim!: bindM_RetE split: if_splits option.splits)
  let ?claim = "fld identified ''value''"
  from rest assms(2) obtain found account at u3 u4
    where 2: "storeR ?cx c (fst (sessionQuery ?cx ?claim tokenHash)) (snd (sessionQuery ?cx ?claim tokenHash)) u2
        = (Ret (Inr found), u3)"
      "isSessionRecord found" "fld found ''tenantId'' = fld ?cx ''tenantId''"
      "fld ?claim ''kind'' = JStr ''by-session'' \<longrightarrow> fld found ''sessionId'' = fld ?claim ''sessionId''
        \<and> fld ?claim ''tenantId'' = fld ?cx ''tenantId''"
      "protectedValuesMatch (fld found ''tokenHash'') tokenHash" "fld found ''status'' = JStr ''active''"
    and 3: "storeR ?cx c AccountsFindById
        [obj [(''tenantId'', fld ?cx ''tenantId''), (''accountId'', fld found ''accountId'')]] u3
        = (Ret (Inr account), u4)"
      "accountFor ?cx (fld found ''accountId'') account" "fld account ''status'' = JStr ''active''"
    and 4: "readNow c u4 = (Ret (Some at), t)" "\<not> date_le (fld found ''expiresAt'') at"
      "v = toSessionView found"
    unfolding Let_def sessionQuery_def
    by (auto simp del: fld.simps fld_obj elim!: bindR_InrE bindM_RetE split: if_splits option.splits)
  have "isValidDate (fld found ''expiresAt'')" using 2(2) by (simp add: isSessionRecord_def)
  with 4(2) readNow_SomeD [OF 4(1)] have "isValidDate at" "date_less at (fld found ''expiresAt'')"
    by (auto simp: date_le_not_less simp del: fld.simps fld_obj)
  with 1(7) 2(2-6) 3(2,3) have "sessionProven ?cx ?claim tokenHash found account at"
    by (simp add: sessionProven_def del: fld.simps fld_obj)
  with that [OF 1(1-6) 2(1) 3(1) 4(1) _ 4(3)] show ?thesis .
qed


section \<open>Revocation needs the owner and the policy\<close>

lemma revokeSession_reaches:
  assumes "revokeSession c input s = (r, t)"
    and "count_calls SessionsRevoke s < count_calls SessionsRevoke t"
  obtains existing u1 u2 u3 u4 at where "isRevokeSessionInput input"
    and "storeR (fld input ''context'') c SessionsFindById
        [obj [(''tenantId'', fld (fld input ''context'') ''tenantId''), (''sessionId'', fld input ''sessionId'')]] u1
        = (Ret (Inr existing), u2)"
    and "sessionFor (fld input ''context'') (fld input ''sessionId'') existing"
    and "actorMayRevokeSession (fld input ''context'') existing"
    and "policy c (revokePolicyCheck (fld input ''context'') (fld input ''sessionId'') existing) u2
        = (Ret (Inr ()), u3)"
    and "readNow c u3 = (Ret (Some at), u4)"
proof -
  have ne: "SessionsRevoke \<noteq> ClockNow" "SessionsRevoke \<noteq> SessionsFindById"
    "SessionsRevoke \<noteq> PolicyDecide" by simp_all
  have "isRevokeSessionInput input"
    using assms by (auto simp: revokeSession_def errR_def split: if_splits)
  with assms that show ?thesis
    unfolding revokeSession_def Let_def
    by (auto simp: errR_def simp del: fld.simps fld_obj
        elim!: reach_readNow [where p = SessionsRevoke, OF _ _ ne(1)]
          reach_storeR [where p = SessionsRevoke, OF _ _ ne(2)]
          reach_policy [where p = SessionsRevoke, OF _ _ ne(3)] split: option.splits if_splits)
qed


section \<open>What a created session is\<close>

lemma resolveSessionTtl_bounds:
  assumes "resolveSessionTtl c request = Some ttl"
  shows "0 < ttl \<and> ttl \<le> max_safe_integer
    \<and> (\<forall>m. maxTtlSeconds c = JNum m \<longrightarrow> ttl \<le> m)
    \<and> JNum ttl = coalesce (fld request ''ttlSeconds'') (defaultTtlSeconds c)"
  using assms unfolding resolveSessionTtl_def Let_def
  by (auto simp: isPositiveInteger_iff simp del: fld.simps fld_obj split: if_splits)

text \<open>
  The session was created for this account, with the lifetime the configuration allows, with
  the hash of the token that is handed out, and it had not ended when creation was complete.
\<close>

definition sessionCreated ::
  "'w cfg \<Rightarrow> jsv \<Rightarrow> jsv \<Rightarrow> jsv \<Rightarrow> jsv \<Rightarrow> createdSession \<Rightarrow> int \<Rightarrow> jsv \<Rightarrow> bool" where
  "sessionCreated c context accountId request now cs ttl created =
     (resolveSessionTtl c request = Some ttl
      \<and> isSessionRecord created
      \<and> fld created ''tenantId'' = fld context ''tenantId''
      \<and> fld created ''accountId'' = accountId
      \<and> isNonEmptyString (fld created ''sessionId'')
      \<and> fld created ''status'' = JStr ''active''
      \<and> fld created ''revokedAt'' = JUndef
      \<and> fld created ''issuedAt'' = now
      \<and> fld created ''expiresAt'' = JDate (Some (date_ms now + ttl * 1000))
      \<and> time_valid (date_ms now + ttl * 1000)
      \<and> sessionView cs = toSessionView created
      \<and> fld (issuedToken cs) ''expiresAt'' = fld created ''expiresAt''
      \<and> isRawSecret (fld (issuedToken cs) ''raw''))"

lemma date_eqI: "isValidDate a \<Longrightarrow> isValidDate b \<Longrightarrow> date_ms a = date_ms b \<Longrightarrow> a = b"
  by (auto simp: isValidDate_iff)

lemma isRawSecret_snapshot: "snapshotRawSecret v = Some w \<Longrightarrow> isRawSecret w"
  by (elim snapshotRawSecret_SomeD)
    (simp add: isRawSecret_def hasOnlyKeys_def rawSecretKeys_def redacted_text_def)

lemma createSession_success:
  assumes "createSession c cx aid proof request now tx s = (Ret (Inr cs), t)"
  obtains ttl created where "sessionCreated c cx aid request now cs ttl created"
    and "hasPolicy c \<longrightarrow> (\<exists>i u es. follows s es u \<and> policyInput (createPolicyCheck cx aid proof request ttl
           (fld created ''expiresAt'')) = Some i \<and> policy_allowed es i)"
proof -
  from assms obtain ttl where now: "isValidDate now" and ttl: "resolveSessionTtl c request = Some ttl"
    and valid: "isValidDate (new_date (date_ms now + ttl * 1000))"
    by (auto simp: createSession_def Let_def split: if_splits option.splits)
  let ?exp = "new_date (date_ms now + ttl * 1000)"
  have tv: "time_valid (date_ms now + ttl * 1000)" using valid by (simp add: new_date_valid)
  then have exp: "?exp = JDate (Some (date_ms now + ttl * 1000))"
    by (simp add: new_date_def time_valid_def)
  from assms now ttl valid obtain u sid u2 token rawToken tokenHash created completedAt
    where pol: "policy c (createPolicyCheck cx aid proof request ttl ?exp) s = (Ret (Inr ()), u)"
      and sid: "generateCoreId c ''session'' (fld cx ''tenantId'') now u = (Ret (Some sid), u2)"
      and raw: "snapshotRawSecret (fld (fld token ''value'') ''raw'') = Some rawToken"
      and same: "sessionRecordsMatch created (newSessionRecord cx sid aid tokenHash now ?exp) = Some True"
      and cs: "cs = \<lparr>sessionView = toSessionView created,
         issuedToken = obj [(''raw'', rawToken), (''issuedAt'', now), (''expiresAt'', ?exp)]\<rparr>"
    unfolding createSession_def Let_def
    by (auto simp del: fld.simps fld_obj elim!: bindM_RetE bindR_InrE split: if_splits option.splits)
  note sid_ok = generateCoreId_SomeD [OF sid]
  from same have rec: "isSessionRecord created"
    and eqs: "fld created ''tenantId'' = fld cx ''tenantId''" "fld created ''sessionId'' = sid"
      "fld created ''accountId'' = aid" "fld created ''status'' = JStr ''active''"
      "nullish (fld created ''revokedAt'')"
      "date_ms (fld created ''issuedAt'') = date_ms now"
      "date_ms (fld created ''expiresAt'') = date_ms ?exp"
    by (auto simp: sessionRecordsMatch_def newSessionRecord_def simp del: fld.simps split: if_splits option.splits)
  from rec have dates: "isValidDate (fld created ''issuedAt'')" "isValidDate (fld created ''expiresAt'')"
    and rev: "fld created ''revokedAt'' = JUndef \<or> isValidDate (fld created ''revokedAt'')"
    by (simp_all add: isSessionRecord_def)
  have exp': "fld created ''expiresAt'' = ?exp" using dates valid eqs by (blast intro: date_eqI)
  have "fld created ''revokedAt'' = JUndef" using rev eqs(5) by (auto simp: nullish_def)
  then have "sessionCreated c cx aid request now cs ttl created"
    using ttl rec eqs sid_ok exp exp' tv cs isRawSecret_snapshot [OF raw] date_eqI [OF dates(1) now eqs(6)]
    by (simp add: sessionCreated_def)
  moreover have "hasPolicy c \<longrightarrow> (\<exists>i u es. follows s es u \<and> policyInput (createPolicyCheck cx aid proof request ttl
           (fld created ''expiresAt'')) = Some i \<and> policy_allowed es i)"
    using policy_ok_allowed [OF pol] exp' by (metis (no_types))
  ultimately show ?thesis by (rule that)
qed

section \<open>Calls\<close>

definition session_ports :: "port set" where
  "session_ports = {PolicyDecide, IdGenerate, TokenIssue, SessionsCreate, ClockNow}"

lemma only_createSession [only_rules]:
  "session_ports \<subseteq> A \<Longrightarrow> only A (createSession c cx aid proof request now tx)"
  unfolding createSession_def Let_def session_ports_def by (intro only_rules) auto

lemma only_getSession:
  "only {ClockNow, TokenIdentify, SessionsFindById, SessionsFindByTokenHash, AccountsFindById}
     (getSession c input)"
  unfolding getSession_def Let_def by (intro only_rules) simp_all


end
