(* ===== verification/Operations.thy ===== *)
theory Operations
  imports Sessions
begin

text \<open>
  Steps that the operations \<open>authenticate\<close>, \<open>enroll\<close>, \<open>begin\<close> and \<open>complete\<close> of
  \<open>packages/core/src/operations/\<close> write out in the same way: finding the method, failing an
  attempt with the reason of a store, accounting for a failure, and what follows the
  transaction.
\<close>

definition findMethod :: "'w cfg \<Rightarrow> jsv \<Rightarrow> methodConfig option" where
  "findMethod c mid = map_of (methods c) (str_or mid '''')"

definition mapReasonV :: "jsv \<Rightarrow> string" where
  "mapReasonV v = mapReason (str_or v '''')"

text \<open>\<open>if (!r.ok) return failAttempt(..., r.error.reason, mapReason(r.error.reason))\<close>\<close>

definition storeOrFail ::
  "'w cfg \<Rightarrow> jsv \<Rightarrow> jsv \<Rightarrow> string \<Rightarrow> jsv \<Rightarrow> jsv \<Rightarrow> port \<Rightarrow> jsv list \<Rightarrow> ('w, jsv res) auth" where
  "storeOrFail c context method op lookup challengeId p args =
     bindM (storeCall c p args) (\<lambda>r. case r of
        Inl e \<Rightarrow> bindM (readProp e ''reason'') (\<lambda>reason.
          failAttempt c context method op lookup reason (Some (mapReasonV reason)) challengeId None)
      | Inr v \<Rightarrow> okR v)"

text \<open>\<open>if (!r.ok) { await afterAttempt(..., false, r.error.internalReason); return r }\<close>\<close>

definition accounted ::
  "'w cfg \<Rightarrow> jsv \<Rightarrow> jsv \<Rightarrow> string \<Rightarrow> jsv \<Rightarrow> jsv \<Rightarrow> ('w, 'a res) auth \<Rightarrow> ('w, 'a res) auth" where
  "accounted c context method op lookup challengeId m =
     bindM m (\<lambda>r. case r of
        Inl e \<Rightarrow> bindM (afterAttempt c context method op lookup False (Some (internalReason e))
                     challengeId None) (\<lambda>_. ret (Inl e))
      | Inr a \<Rightarrow> okR a)"

text \<open>The same for the result of the transaction, which accounts for its own failures only.\<close>

definition accountedTransaction ::
  "'w cfg \<Rightarrow> jsv \<Rightarrow> jsv \<Rightarrow> string \<Rightarrow> jsv \<Rightarrow> jsv \<Rightarrow> ('w, 'a res) auth \<Rightarrow> ('w, 'a res) auth" where
  "accountedTransaction c context method op lookup challengeId m =
     bindM m (\<lambda>r. case r of
        Inl e \<Rightarrow>
          if internalReason e = ''TRANSACTION_FAILED''
          then bindM (afterAttempt c context method op lookup False (Some (internalReason e))
                 challengeId None) (\<lambda>_. ret (Inl e))
          else ret (Inl e)
      | Inr a \<Rightarrow> okR a)"

text \<open>\<open>if (!run.ok) return failAttempt(...)\<close> with the method's own failure.\<close>

definition failMethodRun ::
  "'w cfg \<Rightarrow> jsv \<Rightarrow> jsv \<Rightarrow> string \<Rightarrow> jsv \<Rightarrow> jsv \<Rightarrow> jsv \<Rightarrow> ('w, 'a res) auth" where
  "failMethodRun c context method op lookup challengeId e =
     failAttempt c context method op lookup (fld e ''reason'')
       (Some (str_or (fld e ''safePublicCodeHint'') (mapReasonV (fld e ''reason''))))
       challengeId (Some (fld e ''countsAsAttempt'' = JBool True))"

text \<open>What the persistence of an operation yields.\<close>

record persistedOperation =
  persistedAccount :: jsv
  persistedIdentity :: jsv
  persistedCredential :: jsv
  persistedSession :: "createdSession option"
  persistedEffects :: jsv

text \<open>\<open>wanted ? await createSession(...) : ok(undefined)\<close>\<close>

definition optionalSession ::
  "'w cfg \<Rightarrow> bool \<Rightarrow> jsv \<Rightarrow> jsv \<Rightarrow> jsv \<Rightarrow> jsv \<Rightarrow> jsv \<Rightarrow> jsv \<Rightarrow> ('w, createdSession option res) auth" where
  "optionalSession c wanted context accountId proof request now tx =
     (if wanted then bindR (createSession c context accountId proof request now tx) (\<lambda>cs. okR (Some cs))
      else okR None)"

text \<open>Best-effort effects, events and the final account of a successful attempt.\<close>

definition finishOperation ::
  "'w cfg \<Rightarrow> jsv \<Rightarrow> jsv \<Rightarrow> string \<Rightarrow> jsv \<Rightarrow> jsv \<Rightarrow> jsv list \<Rightarrow> createdSession option \<Rightarrow> jsv \<Rightarrow> jsv
     \<Rightarrow> ('w, unit) auth" where
  "finishOperation c context method op lookup challengeId sideEffects session effects completedAt =
     bindM (dispatchBestEffortSideEffects c context sideEffects completedAt) (\<lambda>bestEffort.
     bindM (emitPersistedEvents c context session
              (mergeSideEffectResults effects (case bestEffort of Inl _ \<Rightarrow> JUndef | Inr v \<Rightarrow> v)) completedAt) (\<lambda>_.
     afterAttempt c context method op lookup True None challengeId None))"

definition session_js :: "createdSession option \<Rightarrow> jsv" where
  "session_js s = (case s of None \<Rightarrow> JUndef | Some cs \<Rightarrow> sessionView cs)"

definition token_js :: "createdSession option \<Rightarrow> jsv" where
  "token_js s = (case s of None \<Rightarrow> JUndef | Some cs \<Rightarrow> issuedToken cs)"

definition authSuccess :: "jsv \<Rightarrow> jsv \<Rightarrow> createdSession option \<Rightarrow> jsv \<Rightarrow> jsv" where
  "authSuccess accountView proof session publicData =
     obj [(''account'', accountView), (''proof'', proof), (''session'', session_js session),
          (''token'', token_js session), (''publicData'', publicData)]"

section \<open>Rules\<close>

lemma only_storeOrFail [only_rules]:
  "p \<in> A \<Longrightarrow> bookkeeping \<subseteq> A \<Longrightarrow> only A (storeOrFail c cx m op l ch p args)"
  unfolding storeOrFail_def by (intro only_rules)

lemma only_accounted [only_rules]:
  "only A m \<Longrightarrow> bookkeeping \<subseteq> A \<Longrightarrow> only A (accounted c cx me op l ch m)"
  unfolding accounted_def by (intro only_rules)

lemma only_accountedTransaction [only_rules]:
  "only A m \<Longrightarrow> bookkeeping \<subseteq> A \<Longrightarrow> only A (accountedTransaction c cx me op l ch m)"
  unfolding accountedTransaction_def by (intro only_rules)

lemma only_failMethodRun [only_rules]:
  "bookkeeping \<subseteq> A \<Longrightarrow> only A (failMethodRun c cx m op l ch e)"
  unfolding failMethodRun_def by (intro only_rules)

lemma only_optionalSession [only_rules]:
  "session_ports \<subseteq> A \<Longrightarrow> only A (optionalSession c w cx aid p r now tx)"
  unfolding optionalSession_def by (intro only_rules)

lemma storeOrFail_InrE:
  assumes "storeOrFail c cx m op l ch p args s = (Ret (Inr v), t)"
  obtains r where "follows s [Call p args (Ret r)] t" and "truthy (fld r ''ok'')" and "v = fld r ''value''"
proof -
  from assms have "storeCall c p args s = (Ret (Inr v), t)"
    by (auto simp: storeOrFail_def elim!: bindM_RetE split: sum.splits)
  then have "storeR JUndef c p args s = (Ret (Inr v), t)"
    by (simp add: storeR_def bindM_def)
  then show ?thesis using that by (rule storeR_InrD)
qed

lemma accounted_InrD: "accounted c cx me op l ch m s = (Ret (Inr a), t) \<Longrightarrow> m s = (Ret (Inr a), t)"
  by (auto simp: accounted_def elim!: bindM_RetE split: sum.splits)

lemma accountedTransaction_InrD:
  "accountedTransaction c cx me op l ch m s = (Ret (Inr a), t) \<Longrightarrow> m s = (Ret (Inr a), t)"
  by (auto simp: accountedTransaction_def elim!: bindM_RetE split: sum.splits if_splits)

lemma failMethodRun_not_Inr [simp]: "failMethodRun c cx m op l ch e s = (Ret (Inr a), t) \<longleftrightarrow> False"
  by (simp add: failMethodRun_def)

lemma optionalSession_InrE:
  assumes "optionalSession c w cx aid p r now tx s = (Ret (Inr x), t)"
  obtains "\<not> w" and "x = None" | cs where "w" and "x = Some cs"
    and "createSession c cx aid p r now tx s = (Ret (Inr cs), t)"
  using assms by (auto simp: optionalSession_def elim!: bindR_InrE split: if_splits)

lemma findMethod_Some: "findMethod c mid = Some mc \<Longrightarrow> (str_or mid '''', mc) \<in> set (methods c)"
  by (auto simp: findMethod_def dest: map_of_SomeD)

end
