(* ===== verification/Authenticate.thy ===== *)
theory Authenticate
  imports Operations
begin

text \<open>
  \<open>packages/core/src/operations/authenticate.ts\<close>: authentication with an existing identity and
  credential. \<open>lookup\<close> is what the method's validator identified, JavaScript \<open>undefined\<close> when it
  identified nothing.
\<close>

section \<open>Persistence\<close>

definition credentialUnchanged :: "jsv \<Rightarrow> jsv \<Rightarrow> jsv \<Rightarrow> jsv \<Rightarrow> jsv \<Rightarrow> bool" where
  "credentialUnchanged context methodRef ident credential current =
     (truthy current \<and> isCredentialRecord current
      \<and> fld current ''tenantId'' = fld context ''tenantId''
      \<and> fld current ''credentialId'' = fld credential ''credentialId''
      \<and> fld current ''accountId'' = fld ident ''accountId''
      \<and> fld current ''identityId'' = fld ident ''identityId''
      \<and> fld current ''methodId'' = fld methodRef ''methodId''
      \<and> fld current ''methodKind'' = fld methodRef ''methodKind''
      \<and> fld current ''status'' = JStr ''active''
      \<and> fld current ''version'' = fld credential ''version'')"

definition credentialQuery :: "jsv \<Rightarrow> jsv \<Rightarrow> jsv \<Rightarrow> jsv" where
  "credentialQuery context methodRef ident =
     obj [(''tenantId'', fld context ''tenantId''), (''identityId'', fld ident ''identityId''),
          (''methodId'', fld methodRef ''methodId'')]"

definition replaceMaterial ::
  "'w cfg \<Rightarrow> jsv \<Rightarrow> jsv \<Rightarrow> jsv \<Rightarrow> jsv \<Rightarrow> jsv \<Rightarrow> jsv \<Rightarrow> jsv \<Rightarrow> ('w, unit res) auth" where
  "replaceMaterial c context methodRef lookup material current now tx =
     bindM (liftO (credentialRecordFingerprint (spread current
              [(''material'', material), (''version'', JNum (num_val (fld current ''version'') + 1)),
               (''updatedAt'', now)]))) (\<lambda>expectedCredential.
     bindR (storeOrFail c context methodRef ''authenticate'' lookup JUndef CredentialsReplaceMaterial
              [obj [(''tenantId'', fld context ''tenantId''),
                    (''credentialId'', fld current ''credentialId''),
                    (''expectedVersion'', fld current ''version''),
                    (''material'', material), (''now'', now)], tx]) (\<lambda>replaced.
     bindM (liftO (credentialRecordFingerprint replaced)) (\<lambda>fp.
       if fp \<noteq> expectedCredential
       then failAttempt c context methodRef ''authenticate'' lookup (JStr ''INTERNAL'')
              (Some ''TEMPORARILY_UNAVAILABLE'') JUndef None
       else okR ())))"

definition persistAuthentication ::
  "'w cfg \<Rightarrow> jsv \<Rightarrow> jsv \<Rightarrow> jsv \<Rightarrow> jsv \<Rightarrow> jsv \<Rightarrow> jsv \<Rightarrow> jsv \<Rightarrow> jsv \<Rightarrow> ('w, persistedOperation res) auth" where
  "persistAuthentication c input methodRef lookup output ident credential now tx =
     (let context = fld input ''context'';
          fail = failAttempt c context methodRef ''authenticate'' lookup;
          query = storeOrFail c context methodRef ''authenticate'' lookup JUndef
      in
      bindR (query CredentialsFindForIdentity [credentialQuery context methodRef ident, tx]) (\<lambda>current.
      if \<not> credentialUnchanged context methodRef ident credential current
      then fail (JStr ''AUTHENTICATION_FAILED'') (Some ''AUTHENTICATION_FAILED'') JUndef (Some True)
      else bindR (if truthy (fld output ''credentialMaterial'')
              then replaceMaterial c context methodRef lookup (fld output ''credentialMaterial'') current now tx
              else okR ()) (\<lambda>_.
      bindR (query AccountsFindById
          [obj [(''tenantId'', fld context ''tenantId''), (''accountId'', fld ident ''accountId'')], tx]) (\<lambda>acc.
      if truthy acc \<and> \<not> accountFor context (fld ident ''accountId'') acc
      then fail (JStr ''INTERNAL'') (Some ''TEMPORARILY_UNAVAILABLE'') JUndef None
      else if \<not> truthy acc \<or> fld acc ''status'' \<noteq> JStr ''active''
      then fail (JStr ''ACCOUNT_UNAVAILABLE'') (Some ''ACCOUNT_UNAVAILABLE'') JUndef None
      else
      bindR (accounted c context methodRef ''authenticate'' lookup JUndef
        (dispatchRequiredSideEffects c context (arr_elems (fld output ''sideEffects'')) now tx)) (\<lambda>effects.
      bindR (accounted c context methodRef ''authenticate'' lookup JUndef
        (optionalSession c (fld input ''session'' \<noteq> JUndef) context (fld acc ''accountId'')
           (fld output ''proof'') (fld input ''session'') now tx)) (\<lambda>session.
      okR \<lparr>persistedAccount = acc, persistedIdentity = ident, persistedCredential = current,
            persistedSession = session, persistedEffects = effects\<rparr>))))))"

text \<open>The callback of the transaction; it yields the persisted operation and its completion time.\<close>

definition authenticateInTransaction ::
  "'w cfg \<Rightarrow> jsv \<Rightarrow> jsv \<Rightarrow> jsv \<Rightarrow> jsv \<Rightarrow> jsv \<Rightarrow> jsv \<Rightarrow> jsv \<Rightarrow> ('w, (persistedOperation \<times> jsv) res) auth" where
  "authenticateInTransaction c input methodRef lookup output ident credential tx =
     (let context = fld input ''context'';
          fail = failAttempt c context methodRef ''authenticate'' lookup in
      bindM (readNow c) (\<lambda>t. case t of
        None \<Rightarrow> fail (JStr ''INTERNAL'') (Some ''INTERNAL'') JUndef None
      | Some persistenceNow \<Rightarrow>
      if \<not> proofMatches methodRef lookup (fld output ''proof'') persistenceNow
      then fail (JStr ''AUTHENTICATION_FAILED'') (Some ''AUTHENTICATION_FAILED'') JUndef (Some True)
      else bindR (persistAuthentication c input methodRef lookup output ident credential persistenceNow tx) (\<lambda>p.
      bindM (readNow c) (\<lambda>t. case t of
        None \<Rightarrow> fail (JStr ''INTERNAL'') (Some ''INTERNAL'') JUndef None
      | Some completedAt \<Rightarrow>
      if \<not> proofMatches methodRef lookup (fld output ''proof'') completedAt
      then fail (JStr ''AUTHENTICATION_FAILED'') (Some ''AUTHENTICATION_FAILED'') JUndef (Some True)
      else okR (p, completedAt)))))"

section \<open>The operation\<close>

definition credentialFor :: "jsv \<Rightarrow> jsv \<Rightarrow> jsv \<Rightarrow> jsv \<Rightarrow> bool" where
  "credentialFor context methodRef ident v =
     (isCredentialRecord v
      \<and> fld v ''tenantId'' = fld context ''tenantId''
      \<and> fld v ''identityId'' = fld ident ''identityId''
      \<and> fld v ''accountId'' = fld ident ''accountId''
      \<and> fld v ''methodId'' = fld methodRef ''methodId''
      \<and> fld v ''methodKind'' = fld methodRef ''methodKind'')"

text \<open>The active credential of the identity, if there is one (\<open>None\<close> for \<open>undefined\<close>).\<close>

definition findCredential ::
  "'w cfg \<Rightarrow> jsv \<Rightarrow> jsv \<Rightarrow> jsv \<Rightarrow> jsv option \<Rightarrow> ('w, jsv option res) auth" where
  "findCredential c context methodRef lookup ident =
     (case ident of
        None \<Rightarrow> okR None
      | Some ident \<Rightarrow>
          bindR (storeOrFail c context methodRef ''authenticate'' lookup JUndef CredentialsFindForIdentity
                   [credentialQuery context methodRef ident]) (\<lambda>v.
            if truthy v \<and> \<not> credentialFor context methodRef ident v
            then failAttempt c context methodRef ''authenticate'' lookup (JStr ''INTERNAL'')
                   (Some ''TEMPORARILY_UNAVAILABLE'') JUndef None
            else okR (if \<not> nullish v \<and> fld v ''status'' = JStr ''active'' then Some v else None)))"

definition authenticateScopes :: "'w cfg \<Rightarrow> jsv \<Rightarrow> jsv \<Rightarrow> jsv list" where
  "authenticateScopes c input output =
     [JStr ''accounts'', JStr ''credentials'']
     @ (if fld input ''session'' \<noteq> JUndef then [JStr ''sessions''] else [])
     @ sideEffectScopes c (arr_elems (fld output ''sideEffects''))"

definition acceptProofCheck :: "jsv \<Rightarrow> jsv \<Rightarrow> jsv" where
  "acceptProofCheck context proof =
     obj [(''kind'', JStr ''accept-proof''), (''context'', context), (''proof'', proof)]"

text \<open>From the method's output to the end of the operation.\<close>

definition authenticateOutput ::
  "'w cfg \<Rightarrow> jsv \<Rightarrow> jsv \<Rightarrow> jsv \<Rightarrow> jsv \<Rightarrow> jsv \<Rightarrow> jsv \<Rightarrow> jsv \<Rightarrow> ('w, jsv res) auth" where
  "authenticateOutput c input methodRef lookup now value ident credential =
     (let context = fld input ''context'';
          fail = failAttempt c context methodRef ''authenticate'' lookup in
      if \<not> isPublicData (fld value ''publicData'')
         \<or> \<not> isMethodMaterial (fld value ''credentialMaterial'')
         \<or> \<not> isSideEffects (fld value ''sideEffects'')
      then fail (JStr ''VALIDATION_FAILED'') (Some ''INVALID_INPUT'') JUndef None
      else if \<not> proofMatches methodRef lookup (fld value ''proof'') now
      then fail (JStr ''IDENTITY_BINDING_MISMATCH'') None JUndef None
      else bindM (liftO (snapshotAuthenticateResult value)) (\<lambda>output.
      let sideEffects = arr_elems (fld output ''sideEffects'') in
      if \<not> requiredEffectsCanPersist c sideEffects
             (truthy (fld output ''credentialMaterial'') \<or> fld input ''session'' \<noteq> JUndef)
      then fail (JStr ''SIDE_EFFECT_FAILED'') (Some ''TEMPORARILY_UNAVAILABLE'') JUndef None
      else bindR (accounted c context methodRef ''authenticate'' lookup JUndef
                    (policy c (acceptProofCheck context (fld output ''proof'')))) (\<lambda>_.
      bindR (accountedTransaction c context methodRef ''authenticate'' lookup JUndef
               (runInStoreTransaction c context (authenticateScopes c input output)
                  (authenticateInTransaction c input methodRef lookup output ident credential)))
        (\<lambda>(p, completedAt).
      bindM (finishOperation c context methodRef ''authenticate'' lookup JUndef sideEffects
               (persistedSession p) (persistedEffects p) completedAt) (\<lambda>_.
      bindM (liftO (toAccountView (persistedAccount p))) (\<lambda>view.
      okR (authSuccess view (fld output ''proof'') (persistedSession p) (fld output ''publicData'')))))))) "

definition identityContext :: "jsv option \<Rightarrow> jsv option \<Rightarrow> (jsv \<times> jsv \<times> jsv) option" where
  "identityContext ident credential =
     (case ident of None \<Rightarrow> None
      | Some i \<Rightarrow> Some (fld i ''identityId'',
          (case credential of None \<Rightarrow> JUndef | Some v \<Rightarrow> fld v ''credentialId''),
          (case credential of None \<Rightarrow> JUndef | Some v \<Rightarrow> fld v ''material'')))"

text \<open>From the admission of the attempt on.\<close>

definition authenticateAdmitted ::
  "'w cfg \<Rightarrow> jsv \<Rightarrow> jsv \<Rightarrow> jsv \<Rightarrow> jsv \<Rightarrow> ('w, jsv res) auth" where
  "authenticateAdmitted c input methodRef now validated =
     (let context = fld input ''context''; lookup = fld validated ''lookup'' in
      bindR (accounted c context methodRef ''authenticate'' lookup JUndef
               (findIdentity c context lookup JUndef)) (\<lambda>found.
      let ident = (if truthy found then Some found else None) in
      bindR (findCredential c context methodRef lookup ident) (\<lambda>credential.
      bindM (liftO (executionContext methodRef context now lookup (identityContext ident credential))) (\<lambda>ec.
      bindM (invokeMethodRun c (str_or (fld input ''methodId'') '''') ''authenticate''
               (fld validated ''value'') ec) (\<lambda>run. case run of
        Inl e \<Rightarrow> failMethodRun c context methodRef ''authenticate'' lookup JUndef e
      | Inr val \<Rightarrow>
      (case (ident, credential) of
        (Some i, Some cr) \<Rightarrow> authenticateOutput c input methodRef lookup now val i cr
      | _ \<Rightarrow> failAttempt c context methodRef ''authenticate'' lookup (JStr ''AUTHENTICATION_FAILED'')
               (Some ''AUTHENTICATION_FAILED'') JUndef (Some True)))))))"

definition authenticate :: "'w cfg \<Rightarrow> jsv \<Rightarrow> ('w, jsv res) auth" where
  "authenticate c input =
     (if \<not> isBaseOperationInput input
      then errR (authContextFrom input) ''VALIDATION_FAILED'' (Some ''INVALID_INPUT'')
      else let context = fld input ''context'' in
      case findMethod c (fld input ''methodId'') of
        None \<Rightarrow> errR context ''METHOD_NOT_CONFIGURED'' None
      | Some mc \<Rightarrow>
      if ''authenticate'' \<notin> set (operations mc) then errR context ''METHOD_OPERATION_UNSUPPORTED'' None
      else let methodRef = toMethodRef (Some mc) in
      bindM (readNow c) (\<lambda>t. case t of
        None \<Rightarrow> errR context ''INTERNAL'' (Some ''INTERNAL'')
      | Some now \<Rightarrow>
      bindM (liftO (validationContext methodRef context now)) (\<lambda>vc.
      bindM (invokeMethodValidation c (str_or (fld input ''methodId'') '''') ''authenticate''
               (fld input ''input'') vc) (\<lambda>validated.
      case validated of
        None \<Rightarrow> failAttempt c context methodRef ''authenticate'' JUndef (JStr ''VALIDATION_FAILED'')
                  (Some ''INVALID_INPUT'') JUndef None
      | Some validated \<Rightarrow>
      if \<not> isPublicData (fld validated ''publicData'')
      then failAttempt c context methodRef ''authenticate'' (fld validated ''lookup'')
             (JStr ''VALIDATION_FAILED'') (Some ''INVALID_INPUT'') JUndef None
      else bindR (acceptStart c context methodRef ''authenticate'' (fld validated ''lookup'') JUndef
                    (fld validated ''publicData'')) (\<lambda>_.
      authenticateAdmitted c input methodRef now validated)))))"

section \<open>What a successful authentication has established\<close>

text \<open>
  The session of the result, when one was asked for: created for this account with this proof.
\<close>

definition sessionOutcome :: "'w cfg \<Rightarrow> jsv \<Rightarrow> jsv \<Rightarrow> jsv \<Rightarrow> jsv \<Rightarrow> createdSession option \<Rightarrow> bool" where
  "sessionOutcome c context accountId request now session =
     (if request = JUndef then session = None
      else \<exists>cs ttl created. session = Some cs
             \<and> sessionCreated c context accountId request now cs ttl created)"

lemma optionalSession_outcome:
  assumes "optionalSession c (request \<noteq> JUndef) cx aid proof request now tx s = (Ret (Inr x), t)"
  shows "sessionOutcome c cx aid request now x"
  using assms
proof (cases rule: optionalSession_InrE)
  case (2 cs)
  from createSession_success [OF 2(3)] obtain ttl created
    where "sessionCreated c cx aid request now cs ttl created" .
  with 2 show ?thesis by (auto simp: sessionOutcome_def)
qed (auto simp: sessionOutcome_def)

definition authenticationPersisted ::
  "'w cfg \<Rightarrow> jsv \<Rightarrow> jsv \<Rightarrow> jsv \<Rightarrow> jsv \<Rightarrow> jsv \<Rightarrow> persistedOperation \<Rightarrow> bool" where
  "authenticationPersisted c input methodRef ident credential now p =
     (accountFor (fld input ''context'') (fld ident ''accountId'') (persistedAccount p)
      \<and> fld (persistedAccount p) ''status'' = JStr ''active''
      \<and> persistedIdentity p = ident
      \<and> credentialUnchanged (fld input ''context'') methodRef ident credential (persistedCredential p)
      \<and> sessionOutcome c (fld input ''context'') (fld (persistedAccount p) ''accountId'')
          (fld input ''session'') now (persistedSession p))"

lemma persistAuthentication_sound:
  assumes "persistAuthentication c input mref lookup output ident credential now tx s = (Ret (Inr p), t)"
  shows "authenticationPersisted c input mref ident credential now p"
proof -
  from assms obtain current acc effects session u v where
    unchanged: "credentialUnchanged (fld input ''context'') mref ident credential current"
    and acc: "accountFor (fld input ''context'') (fld ident ''accountId'') acc"
      "fld acc ''status'' = JStr ''active''"
    and session: "accounted c (fld input ''context'') mref ''authenticate'' lookup JUndef
        (optionalSession c (fld input ''session'' \<noteq> JUndef) (fld input ''context'') (fld acc ''accountId'')
           (fld output ''proof'') (fld input ''session'') now tx) u = (Ret (Inr session), v)"
    and p: "p = \<lparr>persistedAccount = acc, persistedIdentity = ident, persistedCredential = current,
            persistedSession = session, persistedEffects = effects\<rparr>"
    unfolding persistAuthentication_def Let_def
    by (auto simp del: fld.simps fld_obj elim!: bindR_InrE split: if_splits)
  from optionalSession_outcome [OF accounted_InrD [OF session]] unchanged acc p show ?thesis
    by (simp add: authenticationPersisted_def)
qed

lemma authenticateInTransaction_sound:
  assumes "authenticateInTransaction c input mref lookup output ident credential tx s = (Ret (Inr (p, at)), t)"
  obtains now where "proofMatches mref lookup (fld output ''proof'') now"
    and "proofMatches mref lookup (fld output ''proof'') at"
    and "authenticationPersisted c input mref ident credential now p"
  using assms unfolding authenticateInTransaction_def Let_def
  by (auto simp del: fld.simps fld_obj dest!: persistAuthentication_sound
      elim!: bindM_RetE bindR_InrE split: if_splits option.splits)

lemma findCredential_found:
  assumes "findCredential c cx mref lookup (Some ident) s = (Ret (Inr (Some cr)), t)"
  shows "credentialFor cx mref ident cr \<and> fld cr ''status'' = JStr ''active''"
proof -
  from assms have "(truthy cr \<longrightarrow> credentialFor cx mref ident cr) \<and> fld cr ''status'' = JStr ''active''"
    unfolding findCredential_def
    by (auto simp del: fld.simps fld_obj elim!: bindR_InrE split: if_splits)
  moreover from this have "truthy cr" by (cases cr) auto
  ultimately show ?thesis by blast
qed

definition authenticated ::
  "'w cfg \<Rightarrow> jsv \<Rightarrow> jsv \<Rightarrow> jsv \<Rightarrow> jsv \<Rightarrow> jsv \<Rightarrow> jsv \<Rightarrow> jsv \<Rightarrow> bool" where
  "authenticated c input methodRef lookup ident credential proof v =
     (\<exists>p now completed view publicData.
        proofMatches methodRef lookup proof now
        \<and> proofMatches methodRef lookup proof completed
        \<and> authenticationPersisted c input methodRef ident credential now p
        \<and> toAccountView (persistedAccount p) = Some view
        \<and> v = authSuccess view proof (persistedSession p) publicData)"

lemma authenticateScopes_not_Nil: "authenticateScopes c input out \<noteq> []"
  by (simp add: authenticateScopes_def)

lemma authenticateOutput_sound:
  assumes "authenticateOutput c input mref lookup now value ident credential s = (Ret (Inr v), t)"
  obtains out where "snapshotAuthenticateResult value = Some out"
    and "proofMatches mref lookup (fld value ''proof'') now"
    and "authenticated c input mref lookup ident credential (fld out ''proof'') v"
proof -
  from assms obtain out u1 u2 p at view where
    out: "snapshotAuthenticateResult value = Some out"
    and started: "proofMatches mref lookup (fld value ''proof'') now"
    and tx: "accountedTransaction c (fld input ''context'') mref ''authenticate'' lookup JUndef
        (runInStoreTransaction c (fld input ''context'') (authenticateScopes c input out)
          (authenticateInTransaction c input mref lookup out ident credential)) u1 = (Ret (Inr (p, at)), u2)"
    and view: "toAccountView (persistedAccount p) = Some view"
    and v: "v = authSuccess view (fld out ''proof'') (persistedSession p) (fld out ''publicData'')"
    unfolding authenticateOutput_def Let_def
    by (auto simp del: fld.simps fld_obj elim!: bindM_RetE bindR_InrE split: if_splits prod.splits)
  obtain tx0 s0 s1 where "authenticateInTransaction c input mref lookup out ident credential tx0 s0
      = (Ret (Inr (p, at)), s1)"
    using runInStoreTransaction_once [OF accountedTransaction_InrD [OF tx] authenticateScopes_not_Nil]
    by metis
  then obtain pnow where "proofMatches mref lookup (fld out ''proof'') pnow"
    "proofMatches mref lookup (fld out ''proof'') at"
    "authenticationPersisted c input mref ident credential pnow p"
    by (rule authenticateInTransaction_sound)
  with view v have "authenticated c input mref lookup ident credential (fld out ''proof'') v"
    unfolding authenticated_def by blast
  with out started show ?thesis by (rule that)
qed


lemma invokeMethodRun_InrD:
  assumes "invokeMethodRun c key op input ec s = (Ret (Inr v), t)"
  obtains result where "follows s [Call (MethodRun key op) [input, ec] (Ret result)] t"
    and "runOutcome result = Inr v"
  using assms
  by (auto simp: invokeMethodRun_def elim!: bindM_RetE dest!: attempt_callPort_SomeD
      split: option.splits)

lemma authenticateAdmitted_sound:
  assumes "authenticateAdmitted c input mref now validated s = (Ret (Inr v), t)"
  obtains ident cr ec val out u1 u2
  where "identityFor (fld input ''context'') (fld validated ''lookup'') ident"
    and "credentialFor (fld input ''context'') mref ident cr" and "fld cr ''status'' = JStr ''active''"
    and "executionContext mref (fld input ''context'') now (fld validated ''lookup'')
          (identityContext (Some ident) (Some cr)) = Some ec"
    and "invokeMethodRun c (str_or (fld input ''methodId'') '''') ''authenticate'' (fld validated ''value'') ec u1
          = (Ret (Inr val), u2)"
    and "snapshotAuthenticateResult val = Some out"
    and "authenticated c input mref (fld validated ''lookup'') ident cr (fld out ''proof'') v"
proof -
  let ?cx = "fld input ''context''"
  from assms obtain found u0 u3 u4 credential ec u1 u2 val cr where
    found: "accounted c ?cx mref ''authenticate'' (fld validated ''lookup'') JUndef
        (findIdentity c ?cx (fld validated ''lookup'') JUndef) s = (Ret (Inr found), u0)" "truthy found"
    and cred: "findCredential c ?cx mref (fld validated ''lookup'') (Some found) u0 = (Ret (Inr (Some cr)), u3)"
    and ec: "executionContext mref ?cx now (fld validated ''lookup'') (identityContext (Some found) (Some cr)) = Some ec"
    and run: "invokeMethodRun c (str_or (fld input ''methodId'') '''') ''authenticate'' (fld validated ''value'') ec u1
          = (Ret (Inr val), u2)"
    and rest: "authenticateOutput c input mref (fld validated ''lookup'') now val found cr u2 = (Ret (Inr v), t)"
    unfolding authenticateAdmitted_def Let_def
    by (auto simp del: fld.simps fld_obj elim!: bindM_RetE bindR_InrE
        split: if_splits option.splits sum.splits)
  from rest obtain out where out: "snapshotAuthenticateResult val = Some out"
    and auth: "authenticated c input mref (fld validated ''lookup'') found cr (fld out ''proof'') v"
    by (rule authenticateOutput_sound)
  note c = findCredential_found [OF cred]
  show ?thesis
    by (rule that [OF findIdentity_found [OF accounted_InrD [OF found(1)] found(2)] _ _ ec run out auth])
      (use c in blast)+
qed

lemma authenticate_sound:
  assumes "authenticate c input s = (Ret (Inr v), t)"
  obtains mc validated now u1 u2
  where "isBaseOperationInput input"
    and "findMethod c (fld input ''methodId'') = Some mc" and "''authenticate'' \<in> set (operations mc)"
    and "acceptStart c (fld input ''context'') (toMethodRef (Some mc)) ''authenticate''
          (fld validated ''lookup'') JUndef (fld validated ''publicData'') u1 = (Ret (Inr ()), u2)"
    and "authenticateAdmitted c input (toMethodRef (Some mc)) now validated u2 = (Ret (Inr v), t)"
  using assms unfolding authenticate_def Let_def
  by (auto simp del: fld.simps fld_obj elim!: bindM_RetE bindR_InrE split: if_splits option.splits)


end
