(* ===== verification/Enroll.thy ===== *)
theory Enroll
  imports Authenticate
begin

text \<open>
  \<open>packages/core/src/operations/enroll.ts\<close>: enrolling an identity, with a credential and a
  session where the method provides for them.
\<close>

section \<open>Persistence\<close>

definition isEnrollmentAccountMode :: "jsv \<Rightarrow> bool" where
  "isEnrollmentAccountMode v =
     (isRecord v \<and> hasOnlyKeys v [''mode'']
      \<and> fld v ''mode'' \<in> {JStr ''create-new-account'', JStr ''link-to-actor-account''})"

text \<open>The identity of the resolution, or a new one for the claim.\<close>

definition enrollIdentity ::
  "'w cfg \<Rightarrow> jsv \<Rightarrow> jsv \<Rightarrow> jsv \<Rightarrow> resolvedAccount \<Rightarrow> jsv \<Rightarrow> jsv \<Rightarrow> jsv \<Rightarrow> ('w, jsv res) auth" where
  "enrollIdentity c context methodRef lookup resolved claim now tx =
     (let fail = failAttempt c context methodRef ''enroll'' lookup in
      if truthy (identity resolved) then okR (identity resolved)
      else bindM (generateCoreId c ''identity'' (fld context ''tenantId'') now) (\<lambda>identityId.
        case identityId of
          None \<Rightarrow> fail (JStr ''INTERNAL'') (Some ''INTERNAL'') JUndef None
        | Some identityId \<Rightarrow>
        let identityRecord = newIdentityRecord context identityId
              (fld (account resolved) ''accountId'') claim now in
        bindM (liftO (identityRecordFingerprint identityRecord)) (\<lambda>expectedIdentity.
        bindR (storeOrFail c context methodRef ''enroll'' lookup JUndef IdentitiesCreate
                 [obj [(''record'', identityRecord)], tx]) (\<lambda>created.
        bindM (liftO (identityRecordFingerprint created)) (\<lambda>fp.
          if fp \<noteq> expectedIdentity
          then fail (JStr ''INTERNAL'') (Some ''TEMPORARILY_UNAVAILABLE'') JUndef None
          else okR created)))))"

definition newCredentialRecord :: "jsv \<Rightarrow> jsv \<Rightarrow> jsv \<Rightarrow> jsv \<Rightarrow> jsv \<Rightarrow> jsv \<Rightarrow> jsv \<Rightarrow> jsv" where
  "newCredentialRecord context methodRef credentialId accountId identityId material now =
     obj [(''tenantId'', fld context ''tenantId''), (''credentialId'', credentialId),
          (''accountId'', accountId), (''identityId'', identityId),
          (''methodId'', fld methodRef ''methodId''), (''methodKind'', fld methodRef ''methodKind''),
          (''status'', JStr ''active''), (''material'', material), (''version'', JNum 1),
          (''createdAt'', now), (''updatedAt'', now)]"

definition existingCredentialOk :: "jsv \<Rightarrow> jsv \<Rightarrow> jsv \<Rightarrow> jsv \<Rightarrow> jsv \<Rightarrow> bool" where
  "existingCredentialOk context methodRef ident accountId v =
     (isCredentialRecord v
      \<and> fld v ''tenantId'' = fld context ''tenantId''
      \<and> fld v ''identityId'' = fld ident ''identityId''
      \<and> fld v ''methodId'' = fld methodRef ''methodId''
      \<and> fld v ''accountId'' = accountId)"

text \<open>A new credential, if the method returned material for one; \<open>undefined\<close> otherwise.\<close>

definition enrollCredential ::
  "'w cfg \<Rightarrow> jsv \<Rightarrow> jsv \<Rightarrow> jsv \<Rightarrow> jsv \<Rightarrow> jsv \<Rightarrow> jsv \<Rightarrow> jsv \<Rightarrow> jsv \<Rightarrow> ('w, jsv res) auth" where
  "enrollCredential c context methodRef lookup material accountId ident now tx =
     (let fail = failAttempt c context methodRef ''enroll'' lookup;
          query = storeOrFail c context methodRef ''enroll'' lookup JUndef in
      if \<not> truthy material then okR JUndef
      else bindR (query CredentialsFindForIdentity [credentialQuery context methodRef ident, tx]) (\<lambda>existing.
      if truthy existing \<and> \<not> existingCredentialOk context methodRef ident accountId existing
      then fail (JStr ''INTERNAL'') (Some ''TEMPORARILY_UNAVAILABLE'') JUndef None
      else if truthy existing
      then fail (JStr ''IDENTITY_CONFLICT'') (Some ''CONFLICT'') JUndef None
      else bindM (generateCoreId c ''credential'' (fld context ''tenantId'') now) (\<lambda>credentialId.
        case credentialId of
          None \<Rightarrow> fail (JStr ''INTERNAL'') (Some ''INTERNAL'') JUndef None
        | Some credentialId \<Rightarrow>
        let credentialRecord = newCredentialRecord context methodRef credentialId accountId
              (fld ident ''identityId'') material now in
        bindM (liftO (credentialRecordFingerprint credentialRecord)) (\<lambda>expectedCredential.
        bindR (query CredentialsCreate [obj [(''record'', credentialRecord)], tx]) (\<lambda>created.
        bindM (liftO (credentialRecordFingerprint created)) (\<lambda>fp.
          if fp \<noteq> expectedCredential
          then fail (JStr ''INTERNAL'') (Some ''TEMPORARILY_UNAVAILABLE'') JUndef None
          else okR created))))))"

definition persistEnrollment ::
  "'w cfg \<Rightarrow> jsv \<Rightarrow> jsv \<Rightarrow> jsv \<Rightarrow> jsv \<Rightarrow> jsv \<Rightarrow> jsv \<Rightarrow> ('w, persistedOperation res) auth" where
  "persistEnrollment c input methodRef lookup out now tx =
     (let context = fld input ''context'' in
      bindR (accounted c context methodRef ''enroll'' lookup JUndef
        (resolveAccount c context (fld input ''account'') (fld out ''identity'') (fld out ''proof'') now tx)) (\<lambda>resolved.
      bindR (enrollIdentity c context methodRef lookup resolved (fld out ''identity'') now tx) (\<lambda>ident.
      bindR (enrollCredential c context methodRef lookup (fld out ''credentialMaterial'')
               (fld (account resolved) ''accountId'') ident now tx) (\<lambda>credential.
      bindR (accounted c context methodRef ''enroll'' lookup JUndef
        (dispatchRequiredSideEffects c context (arr_elems (fld out ''sideEffects'')) now tx)) (\<lambda>effects.
      bindR (accounted c context methodRef ''enroll'' lookup JUndef
        (optionalSession c (truthy (fld out ''proof'') \<and> fld input ''session'' \<noteq> JUndef) context
           (fld (account resolved) ''accountId'') (fld out ''proof'') (fld input ''session'') now tx)) (\<lambda>session.
      okR \<lparr>persistedAccount = account resolved, persistedIdentity = ident, persistedCredential = credential,
            persistedSession = session, persistedEffects = effects\<rparr>))))))"

definition proofStill :: "jsv \<Rightarrow> jsv \<Rightarrow> jsv \<Rightarrow> jsv \<Rightarrow> bool" where
  "proofStill methodRef lookup proof now = (truthy proof \<longrightarrow> proofMatches methodRef lookup proof now)"

definition enrollInTransaction ::
  "'w cfg \<Rightarrow> jsv \<Rightarrow> jsv \<Rightarrow> jsv \<Rightarrow> jsv \<Rightarrow> jsv \<Rightarrow> ('w, (persistedOperation \<times> jsv) res) auth" where
  "enrollInTransaction c input methodRef lookup out tx =
     (let context = fld input ''context'';
          fail = failAttempt c context methodRef ''enroll'' lookup in
      bindM (readNow c) (\<lambda>t. case t of
        None \<Rightarrow> fail (JStr ''INTERNAL'') (Some ''INTERNAL'') JUndef None
      | Some persistenceNow \<Rightarrow>
      if \<not> proofStill methodRef lookup (fld out ''proof'') persistenceNow
      then fail (JStr ''IDENTITY_BINDING_MISMATCH'') None JUndef None
      else bindR (persistEnrollment c input methodRef lookup out persistenceNow tx) (\<lambda>p.
      bindM (readNow c) (\<lambda>t. case t of
        None \<Rightarrow> fail (JStr ''INTERNAL'') (Some ''INTERNAL'') JUndef None
      | Some completedAt \<Rightarrow>
      if \<not> proofStill methodRef lookup (fld out ''proof'') completedAt
      then fail (JStr ''IDENTITY_BINDING_MISMATCH'') None JUndef None
      else okR (p, completedAt)))))"

section \<open>The operation\<close>

definition acceptEnrollmentCheck :: "jsv \<Rightarrow> jsv \<Rightarrow> jsv \<Rightarrow> jsv" where
  "acceptEnrollmentCheck context methodRef out =
     obj [(''kind'', JStr ''accept-enrollment''), (''context'', context), (''method'', methodRef),
          (''identity'', fld out ''identity''),
          (''hasCredentialMaterial'', JBool (truthy (fld out ''credentialMaterial''))),
          (''publicData'', fld out ''publicData'')]"

definition enrollScopes :: "'w cfg \<Rightarrow> jsv \<Rightarrow> jsv \<Rightarrow> jsv list" where
  "enrollScopes c input out =
     [JStr ''accounts'', JStr ''identities'']
     @ (if truthy (fld out ''credentialMaterial'') then [JStr ''credentials''] else [])
     @ (if truthy (fld out ''proof'') \<and> fld input ''session'' \<noteq> JUndef then [JStr ''sessions''] else [])
     @ sideEffectScopes c (arr_elems (fld out ''sideEffects''))"

definition enrollSuccess :: "jsv \<Rightarrow> persistedOperation \<Rightarrow> jsv \<Rightarrow> jsv" where
  "enrollSuccess accountView p out =
     obj [(''account'', accountView), (''identity'', toIdentityView (persistedIdentity p)),
          (''credential'', if truthy (persistedCredential p)
             then toCredentialView (persistedCredential p) else JUndef),
          (''proof'', fld out ''proof''), (''session'', session_js (persistedSession p)),
          (''token'', token_js (persistedSession p)), (''publicData'', fld out ''publicData'')]"

definition enrollOutput ::
  "'w cfg \<Rightarrow> jsv \<Rightarrow> jsv \<Rightarrow> jsv \<Rightarrow> jsv \<Rightarrow> jsv \<Rightarrow> ('w, jsv res) auth" where
  "enrollOutput c input methodRef lookup now val =
     (let context = fld input ''context'';
          fail = failAttempt c context methodRef ''enroll'' lookup in
      if \<not> isIdentityClaim (fld val ''identity'') now
         \<or> \<not> isMethodMaterial (fld val ''credentialMaterial'')
         \<or> \<not> isSideEffects (fld val ''sideEffects'')
      then fail (JStr ''VALIDATION_FAILED'') (Some ''INVALID_INPUT'') JUndef None
      else if \<not> identityMatchesMethod methodRef (fld val ''identity'')
         \<or> \<not> identityMatches lookup (fld val ''identity'')
      then fail (JStr ''IDENTITY_BINDING_MISMATCH'') None JUndef None
      else if \<not> isPublicData (fld val ''publicData'')
      then fail (JStr ''VALIDATION_FAILED'') (Some ''INVALID_INPUT'') JUndef None
      else if truthy (fld val ''proof'')
         \<and> (\<not> proofMatches methodRef lookup (fld val ''proof'') now
            \<or> \<not> identityMatches (fld val ''identity'') (fld (fld val ''proof'') ''primaryIdentity''))
      then fail (JStr ''IDENTITY_BINDING_MISMATCH'') None JUndef None
      else bindM (liftO (snapshotEnrollResult val)) (\<lambda>out.
      let sideEffects = arr_elems (fld out ''sideEffects'') in
      if \<not> requiredEffectsCanPersist c sideEffects True
      then fail (JStr ''SIDE_EFFECT_FAILED'') (Some ''TEMPORARILY_UNAVAILABLE'') JUndef None
      else bindR (accounted c context methodRef ''enroll'' lookup JUndef
                    (policy c (acceptEnrollmentCheck context methodRef out))) (\<lambda>_.
      bindR (accountedTransaction c context methodRef ''enroll'' lookup JUndef
               (runInStoreTransaction c context (enrollScopes c input out)
                  (enrollInTransaction c input methodRef lookup out)))
        (\<lambda>(p, completedAt).
      bindM (finishOperation c context methodRef ''enroll'' lookup JUndef sideEffects
               (persistedSession p) (persistedEffects p) completedAt) (\<lambda>_.
      bindM (liftO (toAccountView (persistedAccount p))) (\<lambda>view.
      okR (enrollSuccess view p out)))))))"

definition enrollAdmitted ::
  "'w cfg \<Rightarrow> jsv \<Rightarrow> jsv \<Rightarrow> jsv \<Rightarrow> jsv \<Rightarrow> ('w, jsv res) auth" where
  "enrollAdmitted c input methodRef now validated =
     (let context = fld input ''context''; lookup = fld validated ''lookup'' in
      bindM (liftO (executionContext methodRef context now lookup None)) (\<lambda>ec.
      bindM (invokeMethodRun c (str_or (fld input ''methodId'') '''') ''enroll''
               (fld validated ''value'') ec) (\<lambda>run. case run of
        Inl e \<Rightarrow> failMethodRun c context methodRef ''enroll'' lookup JUndef e
      | Inr val \<Rightarrow> enrollOutput c input methodRef lookup now val)))"

definition enroll :: "'w cfg \<Rightarrow> jsv \<Rightarrow> ('w, jsv res) auth" where
  "enroll c input =
     (if \<not> isBaseOperationInput input \<or> \<not> isEnrollmentAccountMode (fld input ''account'')
      then errR (authContextFrom input) ''VALIDATION_FAILED'' (Some ''INVALID_INPUT'')
      else let context = fld input ''context'' in
      case findMethod c (fld input ''methodId'') of
        None \<Rightarrow> errR context ''METHOD_NOT_CONFIGURED'' None
      | Some mc \<Rightarrow>
      if ''enroll'' \<notin> set (operations mc) then errR context ''METHOD_OPERATION_UNSUPPORTED'' None
      else let methodRef = toMethodRef (Some mc) in
      bindM (readNow c) (\<lambda>t. case t of
        None \<Rightarrow> errR context ''INTERNAL'' (Some ''INTERNAL'')
      | Some now \<Rightarrow>
      bindM (liftO (validationContext methodRef context now)) (\<lambda>vc.
      bindM (invokeMethodValidation c (str_or (fld input ''methodId'') '''') ''enroll''
               (fld input ''input'') vc) (\<lambda>validated.
      case validated of
        None \<Rightarrow> failAttempt c context methodRef ''enroll'' JUndef (JStr ''VALIDATION_FAILED'')
                  (Some ''INVALID_INPUT'') JUndef None
      | Some validated \<Rightarrow>
      if \<not> isPublicData (fld validated ''publicData'')
      then failAttempt c context methodRef ''enroll'' (fld validated ''lookup'')
             (JStr ''VALIDATION_FAILED'') (Some ''INVALID_INPUT'') JUndef None
      else bindR (acceptStart c context methodRef ''enroll'' (fld validated ''lookup'') JUndef
                    (fld validated ''publicData'')) (\<lambda>_.
      enrollAdmitted c input methodRef now validated)))))"

section \<open>What a successful enrollment has established\<close>

lemma enrollIdentity_sound:
  assumes "enrollIdentity c cx mref lookup resolved claim now tx s = (Ret (Inr v), t)"
    and "resolution_ok cx mode claim resolved"
    and "isNonEmptyString (fld cx ''tenantId'')" and "isIdentityClaim claim t0"
  shows "identityFor cx claim v \<and> fld v ''accountId'' = fld (account resolved) ''accountId''"
proof (cases "truthy (identity resolved)")
  case True
  with assms(1,2) show ?thesis
    by (simp add: enrollIdentity_def Let_def resolution_ok_def del: fld.simps fld_obj)
next
  case False
  with assms(1) obtain iid u f where
    gen: "generateCoreId c ''identity'' (fld cx ''tenantId'') now s = (Ret (Some iid), u)"
    and f: "identityRecordFingerprint (newIdentityRecord cx iid (fld (account resolved) ''accountId'') claim now) = Some f"
      "identityRecordFingerprint v = Some f"
    by (auto simp: enrollIdentity_def Let_def simp del: fld.simps fld_obj elim!: bindM_RetE bindR_InrE
        split: option.splits if_splits)
  from gen have "isValidDate now" by (auto simp: generateCoreId_def split: if_splits)
  with created_identity [OF f(2,1) assms(3) generateCoreId_SomeD [OF gen] resolution_accountId [OF assms(2)] assms(4)]
  show ?thesis by blast
qed

definition credentialEnrolled :: "jsv \<Rightarrow> jsv \<Rightarrow> jsv \<Rightarrow> jsv \<Rightarrow> jsv \<Rightarrow> bool" where
  "credentialEnrolled context methodRef ident accountId v =
     (isCredentialRecord v
      \<and> fld v ''tenantId'' = fld context ''tenantId''
      \<and> fld v ''accountId'' = accountId
      \<and> fld v ''identityId'' = fld ident ''identityId''
      \<and> fld v ''methodId'' = fld methodRef ''methodId''
      \<and> fld v ''status'' = JStr ''active''
      \<and> fld v ''version'' = JNum 1)"

lemma newCredentialRecord_valid:
  assumes "isNonEmptyString (fld cx ''tenantId'')" and "isNonEmptyString cid" and "isNonEmptyString aid"
    and "isNonEmptyString iid" and "isStableMethodId (fld mref ''methodId'')"
    and "isNonEmptyString (fld mref ''methodKind'')" and "isMethodMaterial material" and "material \<noteq> JUndef"
    and "isValidDate now"
  shows "isCredentialRecord (newCredentialRecord cx mref cid aid iid material now)"
  using assms
  by (simp add: newCredentialRecord_def isCredentialRecord_def hasOnlyKeys_def credentialKeys_def
      isDateOrder_def date_le_iff isPositiveInteger_iff max_safe_integer_def del: fld.simps)

lemma credentialRecordFingerprint_fields:
  assumes "credentialRecordFingerprint v = Some f" and "credentialRecordFingerprint w = Some f"
    and "isCredentialRecord w"
  shows "isCredentialRecord v"
    and "k \<in> {''tenantId'', ''credentialId'', ''identityId'', ''accountId'', ''methodId'', ''methodKind'', ''status'', ''version''}
      \<Longrightarrow> fld v k = fld w k"
  using recordFingerprint_fields [of isCredentialRecord v f w, OF assms [unfolded credentialRecordFingerprint_def]]
    isCredentialRecord_untagged isCredentialRecord_scalar by blast+

lemma enrollCredential_sound:
  assumes "enrollCredential c cx mref lookup material aid ident now tx s = (Ret (Inr v), t)"
    and "isNonEmptyString (fld cx ''tenantId'')" and "isNonEmptyString aid"
    and "isNonEmptyString (fld ident ''identityId'')" and "isStableMethodId (fld mref ''methodId'')"
    and "isNonEmptyString (fld mref ''methodKind'')" and "isMethodMaterial material"
  shows "if truthy material then credentialEnrolled cx mref ident aid v else v = JUndef"
proof (cases "truthy material")
  case True
  with assms(1) obtain cid u u' f where
    gen: "generateCoreId c ''credential'' (fld cx ''tenantId'') now u = (Ret (Some cid), u')"
    and f: "credentialRecordFingerprint (newCredentialRecord cx mref cid aid (fld ident ''identityId'') material now) = Some f"
      "credentialRecordFingerprint v = Some f"
    by (auto simp: enrollCredential_def Let_def simp del: fld.simps fld_obj elim!: bindM_RetE bindR_InrE
        split: option.splits if_splits)
  from gen have "isValidDate now" by (auto simp: generateCoreId_def split: if_splits)
  moreover have "material \<noteq> JUndef" using True by auto
  ultimately have valid: "isCredentialRecord (newCredentialRecord cx mref cid aid (fld ident ''identityId'') material now)"
    using assms generateCoreId_SomeD [OF gen] by (blast intro: newCredentialRecord_valid)
  have eq: "fld v k = fld (newCredentialRecord cx mref cid aid (fld ident ''identityId'') material now) k"
    if "k \<in> {''tenantId'', ''credentialId'', ''identityId'', ''accountId'', ''methodId'', ''methodKind'', ''status'', ''version''}" for k
    using credentialRecordFingerprint_fields(2) [OF f(2,1) valid that] .
  show ?thesis
    using True credentialRecordFingerprint_fields(1) [OF f(2,1) valid] eq
    by (simp add: credentialEnrolled_def newCredentialRecord_def)
next
  case False
  with assms(1) show ?thesis by (simp add: enrollCredential_def Let_def)
qed

definition enrollmentPersisted ::
  "'w cfg \<Rightarrow> jsv \<Rightarrow> jsv \<Rightarrow> jsv \<Rightarrow> jsv \<Rightarrow> persistedOperation \<Rightarrow> bool" where
  "enrollmentPersisted c input methodRef out now p =
     (let context = fld input ''context''; aid = fld (persistedAccount p) ''accountId'' in
      (\<exists>found. resolution_ok context (fld input ''account'') (fld out ''identity'')
          \<lparr>account = persistedAccount p, identity = found\<rparr>)
      \<and> identityFor context (fld out ''identity'') (persistedIdentity p)
      \<and> fld (persistedIdentity p) ''accountId'' = aid
      \<and> (if truthy (fld out ''credentialMaterial'')
         then credentialEnrolled context methodRef (persistedIdentity p) aid (persistedCredential p)
         else persistedCredential p = JUndef)
      \<and> (if truthy (fld out ''proof'')
         then sessionOutcome c context aid (fld input ''session'') now (persistedSession p)
         else persistedSession p = None))"

lemma identityFor_identityId: "identityFor cx claim v \<Longrightarrow> isNonEmptyString (fld v ''identityId'')"
  by (auto simp: identityFor_def isIdentityRecord_def simp del: fld.simps fld_obj)

lemma persistEnrollment_sound:
  assumes run: "persistEnrollment c input mref lookup out now tx s = (Ret (Inr p), t)"
    and tenant: "isNonEmptyString (fld (fld input ''context'') ''tenantId'')"
    and claim: "isIdentityClaim (fld out ''identity'') t0"
    and mref: "isStableMethodId (fld mref ''methodId'')" "isNonEmptyString (fld mref ''methodKind'')"
    and material: "isMethodMaterial (fld out ''credentialMaterial'')"
  shows "enrollmentPersisted c input mref out now p"
proof -
  let ?cx = "fld input ''context''"
  from run obtain resolved ident credential effects session u1 u2 u3 u4 u5 u6 where
    res: "resolveAccount c ?cx (fld input ''account'') (fld out ''identity'') (fld out ''proof'') now tx s = (Ret (Inr resolved), u1)"
    and ident: "enrollIdentity c ?cx mref lookup resolved (fld out ''identity'') now tx u1 = (Ret (Inr ident), u2)"
    and cred: "enrollCredential c ?cx mref lookup (fld out ''credentialMaterial'')
        (fld (account resolved) ''accountId'') ident now tx u2 = (Ret (Inr credential), u3)"
    and sess: "optionalSession c (truthy (fld out ''proof'') \<and> fld input ''session'' \<noteq> JUndef) ?cx
        (fld (account resolved) ''accountId'') (fld out ''proof'') (fld input ''session'') now tx u4 = (Ret (Inr session), u5)"
    and p: "p = \<lparr>persistedAccount = account resolved, persistedIdentity = ident, persistedCredential = credential,
            persistedSession = session, persistedEffects = effects\<rparr>"
    unfolding persistEnrollment_def Let_def
    by (auto simp del: fld.simps fld_obj elim!: bindR_InrE dest!: accounted_InrD)
  note ok = resolveAccount_sound [OF res tenant]
  note i = enrollIdentity_sound [OF ident ok tenant claim]
  note cr = enrollCredential_sound [OF cred tenant resolution_accountId [OF ok]
      identityFor_identityId [OF i [THEN conjunct1]] mref material]
  have "if truthy (fld out ''proof'')
         then sessionOutcome c ?cx (fld (account resolved) ''accountId'') (fld input ''session'') now session
         else session = None"
  proof (cases "truthy (fld out ''proof'')")
    case True
    with sess optionalSession_outcome show ?thesis by (simp del: fld.simps fld_obj) blast
  next
    case False
    with sess show ?thesis by (simp add: optionalSession_def del: fld.simps fld_obj)
  qed
  moreover have "resolution_ok ?cx (fld input ''account'') (fld out ''identity'')
          \<lparr>account = account resolved, identity = identity resolved\<rparr>"
    using ok by (simp add: resolution_ok_def)
  ultimately show ?thesis
    unfolding enrollmentPersisted_def Let_def p using i cr by auto
qed


lemma isAuthContext_tenant: "isAuthContext cx \<Longrightarrow> isNonEmptyString (fld cx ''tenantId'')"
  unfolding isAuthContext_def by (simp del: fld.simps fld_obj split: if_splits)

lemma snapshotIdentity_claim:
  assumes "isIdentityClaim v t" shows "isIdentityClaim (snapshotIdentity v) t"
proof -
  have "copy_date_opt (fld v ''verifiedAt'') = fld v ''verifiedAt''"
    using assms by (intro copy_date_opt_valid) (auto simp: isIdentityClaim_def simp del: fld.simps fld_obj)
  with assms show ?thesis
    by (simp add: snapshotIdentity_def isIdentityClaim_def hasOnlyKeys_def identityClaimKeys_def
        identityLookupKeys_def del: fld.simps)
qed

lemma isMethodMaterial_opt:
  assumes "isMethodMaterial m" and "snapshot_opt snapshotMaterial m = Some w"
  shows "isMethodMaterial w"
proof (cases "truthy m")
  case True
  then have "m \<noteq> JUndef" by auto
  with snapshotMaterial_valid [OF assms(1)] assms(2) True show ?thesis by (simp add: snapshot_opt_def)
next
  case False
  with assms(2) show ?thesis by (auto simp: snapshot_opt_def isMethodMaterial_def)
qed

lemma snapshotEnrollResult_SomeD:
  assumes "snapshotEnrollResult v = Some w"
  shows "fld w ''identity'' = snapshotIdentity (fld v ''identity'')
    \<and> snapshot_opt snapshotMaterial (fld v ''credentialMaterial'') = Some (fld w ''credentialMaterial'')"
  using assms by (auto simp: snapshotEnrollResult_def simp del: fld.simps split: option.splits)

lemma enrollInTransaction_sound:
  assumes "enrollInTransaction c input mref lookup out tx s = (Ret (Inr (p, at)), t)"
  obtains now u v where "persistEnrollment c input mref lookup out now tx u = (Ret (Inr p), v)"
    and "proofStill mref lookup (fld out ''proof'') now"
    and "proofStill mref lookup (fld out ''proof'') at"
  using assms unfolding enrollInTransaction_def Let_def
  by (auto simp del: fld.simps fld_obj elim!: bindM_RetE bindR_InrE split: if_splits option.splits)

definition enrolled :: "'w cfg \<Rightarrow> jsv \<Rightarrow> jsv \<Rightarrow> jsv \<Rightarrow> jsv \<Rightarrow> jsv \<Rightarrow> bool" where
  "enrolled c input methodRef lookup out v =
     (\<exists>p now completed view.
        proofStill methodRef lookup (fld out ''proof'') now
        \<and> proofStill methodRef lookup (fld out ''proof'') completed
        \<and> enrollmentPersisted c input methodRef out now p
        \<and> toAccountView (persistedAccount p) = Some view
        \<and> v = enrollSuccess view p out)"

lemma enrollOutput_sound:
  assumes run: "enrollOutput c input mref lookup now val s = (Ret (Inr v), t)"
    and tenant: "isNonEmptyString (fld (fld input ''context'') ''tenantId'')"
  obtains out where "snapshotEnrollResult val = Some out"
    and "identityMatches lookup (fld val ''identity'')"
    and "identityMatchesMethod mref (fld val ''identity'')"
    and "truthy (fld val ''proof'') \<longrightarrow> proofMatches mref lookup (fld val ''proof'') now"
    and "enrolled c input mref lookup out v"
proof -
  from run obtain out u1 u2 p at view where
    out: "snapshotEnrollResult val = Some out"
    and checks: "isIdentityClaim (fld val ''identity'') now" "isMethodMaterial (fld val ''credentialMaterial'')"
      "identityMatchesMethod mref (fld val ''identity'')" "identityMatches lookup (fld val ''identity'')"
      "truthy (fld val ''proof'') \<longrightarrow> proofMatches mref lookup (fld val ''proof'') now"
    and tx: "accountedTransaction c (fld input ''context'') mref ''enroll'' lookup JUndef
        (runInStoreTransaction c (fld input ''context'') (enrollScopes c input out)
          (enrollInTransaction c input mref lookup out)) u1 = (Ret (Inr (p, at)), u2)"
    and view: "toAccountView (persistedAccount p) = Some view"
    and v: "v = enrollSuccess view p out"
    unfolding enrollOutput_def Let_def
    by (auto simp del: fld.simps fld_obj elim!: bindM_RetE bindR_InrE split: if_splits prod.splits)
  have "enrollScopes c input out \<noteq> []" by (simp add: enrollScopes_def)
  from runInStoreTransaction_once [OF accountedTransaction_InrD [OF tx] this]
  obtain tx0 s0 s1 where "enrollInTransaction c input mref lookup out tx0 s0 = (Ret (Inr (p, at)), s1)"
    by metis
  then obtain pnow u3 u4 where persist: "persistEnrollment c input mref lookup out pnow tx0 u3 = (Ret (Inr p), u4)"
    and proofs: "proofStill mref lookup (fld out ''proof'') pnow" "proofStill mref lookup (fld out ''proof'') at"
    by (rule enrollInTransaction_sound)
  note snap = snapshotEnrollResult_SomeD [OF out]
  have claim: "isIdentityClaim (fld out ''identity'') now"
    using snap checks(1) by (simp add: snapshotIdentity_claim del: fld.simps fld_obj)
  have material: "isMethodMaterial (fld out ''credentialMaterial'')"
    using isMethodMaterial_opt [OF checks(2)] snap by blast
  have mref: "isStableMethodId (fld mref ''methodId'')" "isNonEmptyString (fld mref ''methodKind'')"
    using checks(1,3) by (simp_all add: identityMatchesMethod_def isIdentityClaim_def del: fld.simps fld_obj)
  have "enrolled c input mref lookup out v"
    unfolding enrolled_def
    using persistEnrollment_sound [OF persist tenant claim mref material] proofs view v by blast
  with out checks show ?thesis by (intro that)
qed

lemma enroll_sound:
  assumes "enroll c input s = (Ret (Inr v), t)"
  obtains mc validated now u1 u2 u3 u4 ec val out
  where "isBaseOperationInput input" and "isEnrollmentAccountMode (fld input ''account'')"
    and "findMethod c (fld input ''methodId'') = Some mc" and "''enroll'' \<in> set (operations mc)"
    and "acceptStart c (fld input ''context'') (toMethodRef (Some mc)) ''enroll''
          (fld validated ''lookup'') JUndef (fld validated ''publicData'') u1 = (Ret (Inr ()), u2)"
    and "invokeMethodRun c (str_or (fld input ''methodId'') '''') ''enroll'' (fld validated ''value'') ec u2
          = (Ret (Inr val), u3)"
    and "snapshotEnrollResult val = Some out"
    and "identityMatches (fld validated ''lookup'') (fld val ''identity'')"
    and "enrolled c input (toMethodRef (Some mc)) (fld validated ''lookup'') out v"
proof -
  from assms obtain mc validated now u1 u2 where
    base: "isBaseOperationInput input" "isEnrollmentAccountMode (fld input ''account'')"
      "findMethod c (fld input ''methodId'') = Some mc" "''enroll'' \<in> set (operations mc)"
    and start: "acceptStart c (fld input ''context'') (toMethodRef (Some mc)) ''enroll''
          (fld validated ''lookup'') JUndef (fld validated ''publicData'') u1 = (Ret (Inr ()), u2)"
    and rest: "enrollAdmitted c input (toMethodRef (Some mc)) now validated u2 = (Ret (Inr v), t)"
    unfolding enroll_def Let_def
    by (auto simp del: fld.simps fld_obj elim!: bindM_RetE bindR_InrE split: if_splits option.splits)
  have tenant: "isNonEmptyString (fld (fld input ''context'') ''tenantId'')"
    using base(1) isAuthContext_tenant by (simp add: isBaseOperationInput_def)
  from rest obtain ec val u3 where
    run: "invokeMethodRun c (str_or (fld input ''methodId'') '''') ''enroll'' (fld validated ''value'') ec u2
          = (Ret (Inr val), u3)"
    and last: "enrollOutput c input (toMethodRef (Some mc)) (fld validated ''lookup'') now val u3 = (Ret (Inr v), t)"
    unfolding enrollAdmitted_def Let_def
    by (auto simp del: fld.simps fld_obj elim!: bindM_RetE split: sum.splits)
  from last tenant obtain out where "snapshotEnrollResult val = Some out"
    "identityMatches (fld validated ''lookup'') (fld val ''identity'')"
    "enrolled c input (toMethodRef (Some mc)) (fld validated ''lookup'') out v"
    by (rule enrollOutput_sound)
  with base start run show ?thesis by (rule that)
qed


end
