(* ===== verification/ChallengeBegin.thy ===== *)
theory ChallengeBegin
  imports Enroll
begin

text \<open>
  \<open>packages/core/src/operations/challenge/preflight.ts\<close>, \<open>result.ts\<close> and \<open>begin.ts\<close>: starting a
  challenge, which binds the account mode, the session request and the actor that completion
  will use.
\<close>

section \<open>Preflight\<close>

definition isChallengeAccountMode :: "jsv \<Rightarrow> bool" where
  "isChallengeAccountMode v =
     (isRecord v \<and> hasOnlyKeys v [''mode'']
      \<and> fld v ''mode'' \<in> {JStr ''create-new-account'', JStr ''require-existing-identity'',
          JStr ''create-account-if-identity-missing'', JStr ''link-to-actor-account''})"

definition challengeActorBindingMatches :: "jsv \<Rightarrow> jsv \<Rightarrow> bool" where
  "challengeActorBindingMatches binding context =
     (if fld (fld binding ''account'') ''mode'' \<noteq> JStr ''link-to-actor-account'' then True
      else fld (fld binding ''startedByActor'') ''type'' = JStr ''account''
        \<and> fld (fld context ''actor'') ''type'' = JStr ''account''
        \<and> fld (fld binding ''startedByActor'') ''accountId'' = fld (fld context ''actor'') ''accountId'')"

definition beginAccountPreflight :: "'w cfg \<Rightarrow> jsv \<Rightarrow> jsv \<Rightarrow> jsv \<Rightarrow> ('w, unit res) auth" where
  "beginAccountPreflight c context mode lookup =
     (if \<not> truthy lookup then okR ()
      else bindR (findIdentity c context lookup JUndef) (\<lambda>existing.
        if fld mode ''mode'' = JStr ''require-existing-identity'' then
          (if truthy existing then okR ()
           else errR context ''AUTHENTICATION_FAILED'' (Some ''CHALLENGE_FAILED''))
        else if fld mode ''mode'' = JStr ''create-new-account'' then
          (if truthy existing then errR context ''IDENTITY_CONFLICT'' (Some ''CONFLICT'') else okR ())
        else if fld mode ''mode'' = JStr ''create-account-if-identity-missing'' then okR ()
        else if fld mode ''mode'' = JStr ''link-to-actor-account'' then
          (let actor = fld context ''actor'' in
           if fld actor ''type'' \<noteq> JStr ''account''
           then errR context ''ACCOUNT_LINKING_DENIED'' (Some ''AUTHORIZATION_FAILED'')
           else if truthy existing \<and> fld existing ''accountId'' \<noteq> fld actor ''accountId''
           then errR context ''IDENTITY_CONFLICT'' (Some ''CONFLICT'')
           else bindR (activeAccount c context (fld actor ''accountId'') []) (\<lambda>_. okR ()))
        else okR ()))"

section \<open>Reasons of challenge results\<close>

definition challengeResultToReason :: "jsv \<Rightarrow> string" where
  "challengeResultToReason v =
     (if v = JStr ''already-consumed'' then ''CHALLENGE_ALREADY_CONSUMED''
      else if v = JStr ''expired'' then ''CHALLENGE_EXPIRED''
      else if v = JStr ''attempts-exceeded'' then ''CHALLENGE_ATTEMPTS_EXCEEDED''
      else ''CHALLENGE_VERSION_CONFLICT'')"

definition challengeRecordFailedAttemptReason :: "jsv \<Rightarrow> string" where
  "challengeRecordFailedAttemptReason v =
     (if v = JStr ''attempts-exceeded'' then ''CHALLENGE_ATTEMPTS_EXCEEDED''
      else if v = JStr ''expired'' then ''CHALLENGE_EXPIRED''
      else ''CHALLENGE_VERSION_CONFLICT'')"

section \<open>Beginning a challenge\<close>

definition newChallengeRecord :: "jsv \<Rightarrow> jsv \<Rightarrow> jsv \<Rightarrow> jsv \<Rightarrow> jsv \<Rightarrow> jsv \<Rightarrow> jsv" where
  "newChallengeRecord input challengeId methodRef lookup out now =
     (let context = fld input ''context'' in
      obj [(''tenantId'', fld context ''tenantId''), (''challengeId'', challengeId),
           (''methodId'', fld methodRef ''methodId''), (''methodKind'', fld methodRef ''methodKind''),
           (''lookup'', lookup), (''status'', JStr ''pending''),
           (''material'', fld out ''challengeMaterial''),
           (''binding'', obj [(''account'', fld input ''account''), (''session'', fld input ''session''),
              (''startedByActor'', fld context ''actor'')]),
           (''attempts'', JNum 0), (''maxAttempts'', fld out ''maxAttempts''), (''version'', JNum 1),
           (''expiresAt'', fld out ''expiresAt''), (''createdAt'', now), (''updatedAt'', now)])"

text \<open>The callback of the transaction: the effects' account and the completion time.\<close>

definition beginInTransaction ::
  "'w cfg \<Rightarrow> jsv \<Rightarrow> jsv \<Rightarrow> jsv \<Rightarrow> jsv \<Rightarrow> jsv \<Rightarrow> jsv \<Rightarrow> ('w, (jsv \<times> jsv) res) auth" where
  "beginInTransaction c input methodRef lookup challengeId out tx =
     (let context = fld input ''context'';
          fail = (\<lambda>reason code. failAttempt c context methodRef ''begin'' lookup (JStr reason) code challengeId None) in
      bindM (readNow c) (\<lambda>t. case t of
        None \<Rightarrow> fail ''INTERNAL'' (Some ''INTERNAL'')
      | Some persistenceNow \<Rightarrow>
      if date_le (fld out ''expiresAt'') persistenceNow
      then fail ''CHALLENGE_EXPIRED'' (Some ''CHALLENGE_FAILED'')
      else let challenge = newChallengeRecord input challengeId methodRef lookup out persistenceNow in
      bindM (liftO (challengeRecordFingerprint challenge)) (\<lambda>expectedChallenge.
      bindR (storeOrFail c context methodRef ''begin'' lookup challengeId ChallengesCreate
               [obj [(''record'', challenge)], tx]) (\<lambda>created.
      bindM (liftO (challengeRecordFingerprint created)) (\<lambda>fp.
      if fp \<noteq> expectedChallenge then fail ''INTERNAL'' (Some ''TEMPORARILY_UNAVAILABLE'')
      else bindR (accounted c context methodRef ''begin'' lookup challengeId
             (dispatchRequiredSideEffects c context (arr_elems (fld out ''sideEffects'')) persistenceNow tx)) (\<lambda>effects.
      bindM (readNow c) (\<lambda>t. case t of
        None \<Rightarrow> fail ''INTERNAL'' (Some ''INTERNAL'')
      | Some completedAt \<Rightarrow>
      if date_le (fld out ''expiresAt'') completedAt
      then fail ''CHALLENGE_EXPIRED'' (Some ''CHALLENGE_FAILED'')
      else okR (effects, completedAt))))))))"

definition beginScopes :: "'w cfg \<Rightarrow> jsv \<Rightarrow> jsv list" where
  "beginScopes c out = JStr ''challenges'' # sideEffectScopes c (arr_elems (fld out ''sideEffects''))"

definition beginSuccess :: "jsv \<Rightarrow> jsv \<Rightarrow> jsv" where
  "beginSuccess challengeId out =
     obj [(''challengeId'', challengeId), (''expiresAt'', fld out ''expiresAt''),
          (''publicData'', fld out ''publicData'')]"

definition beginOutput ::
  "'w cfg \<Rightarrow> jsv \<Rightarrow> jsv \<Rightarrow> jsv \<Rightarrow> jsv \<Rightarrow> jsv \<Rightarrow> jsv \<Rightarrow> ('w, jsv res) auth" where
  "beginOutput c input methodRef lookup now challengeId val =
     (let context = fld input ''context'';
          fail = (\<lambda>reason code. failAttempt c context methodRef ''begin'' lookup (JStr reason) code challengeId None) in
      if \<not> isValidBeginOutput val now then fail ''VALIDATION_FAILED'' (Some ''INVALID_INPUT'')
      else if \<not> isPublicData (fld val ''publicData'') then fail ''VALIDATION_FAILED'' (Some ''INVALID_INPUT'')
      else bindM (liftO (snapshotBeginResult val)) (\<lambda>out.
      let sideEffects = arr_elems (fld out ''sideEffects'') in
      if \<not> requiredEffectsCanPersist c sideEffects True
      then fail ''SIDE_EFFECT_FAILED'' (Some ''TEMPORARILY_UNAVAILABLE'')
      else bindR (accountedTransaction c context methodRef ''begin'' lookup challengeId
               (runInStoreTransaction c context (beginScopes c out)
                  (beginInTransaction c input methodRef lookup challengeId out)))
        (\<lambda>(effects, completedAt).
      bindM (finishOperation c context methodRef ''begin'' lookup challengeId sideEffects None effects completedAt)
        (\<lambda>_. okR (beginSuccess challengeId out)))))"

definition beginAdmitted ::
  "'w cfg \<Rightarrow> jsv \<Rightarrow> jsv \<Rightarrow> jsv \<Rightarrow> jsv \<Rightarrow> ('w, jsv res) auth" where
  "beginAdmitted c input methodRef now validated =
     (let context = fld input ''context''; lookup = fld validated ''lookup'' in
      bindM (generateCoreId c ''challenge'' (fld context ''tenantId'') now) (\<lambda>challengeId.
      case challengeId of
        None \<Rightarrow> failAttempt c context methodRef ''begin'' lookup (JStr ''INTERNAL'') (Some ''INTERNAL'') JUndef None
      | Some challengeId \<Rightarrow>
      bindM (liftO (executionContext methodRef context now lookup None)) (\<lambda>ec.
      bindM (invokeMethodRun c (str_or (fld input ''methodId'') '''') ''begin'' (fld validated ''value'')
               (spread ec [(''challenge'', obj [(''challengeId'', challengeId)])])) (\<lambda>run. case run of
        Inl e \<Rightarrow> failMethodRun c context methodRef ''begin'' lookup challengeId e
      | Inr val \<Rightarrow> beginOutput c input methodRef lookup now challengeId val))))"

definition beginOp :: "'w cfg \<Rightarrow> jsv \<Rightarrow> ('w, jsv res) auth" where
  "beginOp c input =
     (if \<not> isBaseOperationInput input \<or> \<not> isChallengeAccountMode (fld input ''account'')
      then errR (authContextFrom input) ''VALIDATION_FAILED'' (Some ''INVALID_INPUT'')
      else let context = fld input ''context'' in
      case findMethod c (fld input ''methodId'') of
        None \<Rightarrow> errR context ''METHOD_NOT_CONFIGURED'' None
      | Some mc \<Rightarrow>
      if ''begin'' \<notin> set (operations mc) then errR context ''METHOD_OPERATION_UNSUPPORTED'' None
      else if \<not> hasChallenges c then errR context ''CHALLENGE_STORE_REQUIRED'' None
      else let methodRef = toMethodRef (Some mc) in
      bindM (readNow c) (\<lambda>t. case t of
        None \<Rightarrow> errR context ''INTERNAL'' (Some ''INTERNAL'')
      | Some now \<Rightarrow>
      bindM (liftO (validationContext methodRef context now)) (\<lambda>vc.
      bindM (invokeMethodValidation c (str_or (fld input ''methodId'') '''') ''begin''
               (fld input ''input'') vc) (\<lambda>validated.
      case validated of
        None \<Rightarrow> failAttempt c context methodRef ''begin'' JUndef (JStr ''VALIDATION_FAILED'')
                  (Some ''INVALID_INPUT'') JUndef None
      | Some validated \<Rightarrow>
      let lookup = fld validated ''lookup'' in
      if \<not> isPublicData (fld validated ''publicData'')
      then failAttempt c context methodRef ''begin'' lookup
             (JStr ''VALIDATION_FAILED'') (Some ''INVALID_INPUT'') JUndef None
      else bindR (accounted c context methodRef ''begin'' lookup JUndef
             (beginAccountPreflight c context (fld input ''account'') lookup)) (\<lambda>_.
      bindR (acceptStart c context methodRef ''begin'' lookup JUndef (fld validated ''publicData'')) (\<lambda>_.
      beginAdmitted c input methodRef now validated))))))"

section \<open>What a successful begin has stored\<close>

text \<open>
  What the configuration check establishes about the methods, and that an object has no two
  properties of one name (always so in JavaScript).
\<close>

definition methodsConfigured :: "'w cfg \<Rightarrow> bool" where
  "methodsConfigured c = list_all (\<lambda>(key, mc). methodId mc = JStr key
     \<and> isStableMethodId (methodId mc) \<and> isNonEmptyString (methodKind mc)) (methods c)"

definition js_object :: "jsv \<Rightarrow> bool" where
  "js_object v = distinct (obj_keys v)"

lemma methodsConfigured_ref:
  assumes "methodsConfigured c" and "findMethod c mid = Some mc"
  shows "isStableMethodId (fld (toMethodRef (Some mc)) ''methodId'')"
    and "isNonEmptyString (fld (toMethodRef (Some mc)) ''methodKind'')"
  using findMethod_Some [OF assms(2)] assms(1)
  by (auto simp: methodsConfigured_def list_all_iff toMethodRef_def)

lemma fld_in_keys: "fld v k \<noteq> JUndef \<Longrightarrow> k \<in> set (obj_keys v)"
  by (cases v) (auto split: option.splits dest: map_of_SomeD intro: rev_image_eqI)

lemma keys_card:
  assumes "js_object v" and "hasOnlyKeys v ks" and "\<And>k. k \<in> set ks \<Longrightarrow> fld v k \<noteq> JUndef"
  shows "length (obj_keys v) = card (set ks)"
proof -
  have "set (obj_keys v) = set ks"
    using assms(2) fld_in_keys assms(3) unfolding hasOnlyKeys_def list_all_iff by blast
  with assms(1) show ?thesis by (metis distinct_card js_object_def)
qed

lemma one_key:
  assumes "js_object v" and "hasOnlyKeys v [k]" and "fld v k \<noteq> JUndef"
  shows "length (obj_keys v) = 1"
  using keys_card [OF assms(1,2)] assms(3) by simp

lemma two_keys:
  assumes "js_object v" and "hasOnlyKeys v [j, k]" and "fld v j \<noteq> JUndef" and "fld v k \<noteq> JUndef" and "j \<noteq> k"
  shows "length (obj_keys v) = 2"
proof -
  have "fld v x \<noteq> JUndef" if "x \<in> set [j, k]" for x using that assms(3,4) by auto
  from keys_card [OF assms(1,2) this] assms(5) show ?thesis by simp
qed

lemma isBindingActor_actor:
  assumes "v \<noteq> JUndef \<longrightarrow> isActor v" and "js_object v"
  shows "isBindingActor v"
proof (cases "v = JUndef")
  case False
  with assms(1) have "isActor v" by simp
  then have rec: "isRecord v" and
    "fld v ''type'' = JStr ''anonymous'' \<and> hasOnlyKeys v [''type'']
     \<or> fld v ''type'' = JStr ''account'' \<and> hasOnlyKeys v [''accountId'', ''type''] \<and> isNonEmptyString (fld v ''accountId'')
     \<or> fld v ''type'' = JStr ''system'' \<and> hasOnlyKeys v [''name'', ''type''] \<and> isNonEmptyString (fld v ''name'')"
    by (auto simp: isActor_def simp del: fld.simps fld_obj split: if_splits)
  then consider "fld v ''type'' = JStr ''anonymous''" "hasOnlyKeys v [''type'']"
    | "fld v ''type'' = JStr ''account''" "hasOnlyKeys v [''accountId'', ''type'']" "isNonEmptyString (fld v ''accountId'')"
    | "fld v ''type'' = JStr ''system''" "hasOnlyKeys v [''name'', ''type'']" "isNonEmptyString (fld v ''name'')"
    by blast
  then show ?thesis
  proof cases
    case 1
    with rec one_key [OF assms(2) 1(2)] False show ?thesis by (simp add: isBindingActor_def)
  next
    case 2
    then have "fld v ''accountId'' \<noteq> JUndef" by (auto simp: isNonEmptyString_def simp del: fld.simps)
    with 2 rec two_keys [OF assms(2) 2(2)] False show ?thesis
      by (simp add: isBindingActor_def del: fld.simps)
  next
    case 3
    then have "fld v ''name'' \<noteq> JUndef" by (auto simp: isNonEmptyString_def simp del: fld.simps)
    with 3 rec two_keys [OF assms(2) 3(2)] False show ?thesis
      by (simp add: isBindingActor_def del: fld.simps)
  qed
qed (simp add: isBindingActor_def)

lemma isAccountMode_challenge:
  assumes "isChallengeAccountMode v" and "js_object v" shows "isAccountMode v"
  using assms one_key [OF assms(2), of "''mode''"]
  by (auto simp: isChallengeAccountMode_def isAccountMode_def simp del: fld.simps fld_obj)

text \<open>The record core asks the store to keep is a valid challenge record.\<close>

lemma newChallengeRecord_valid:
  assumes cx: "isAuthContext (fld input ''context'')" and mode: "isChallengeAccountMode (fld input ''account'')"
    and session: "isSessionRequest (fld input ''session'')"
    and objects: "js_object (fld input ''account'')" "js_object (fld (fld input ''context'') ''actor'')"
    and cid: "isNonEmptyString cid" and mref: "isStableMethodId (fld mref ''methodId'')" "isNonEmptyString (fld mref ''methodKind'')"
    and lookup: "isIdentityLookup lookup" and val: "isValidBeginOutput val t0" and out: "snapshotBeginResult val = Some out"
    and now: "isValidDate now"
  shows "isChallengeRecord (newChallengeRecord input cid mref lookup out now)"
proof -
  let ?cx = "fld input ''context''"
  have actor: "isBindingActor (fld ?cx ''actor'')"
    by (rule isBindingActor_actor) (use cx objects in
        \<open>auto simp: isAuthContext_def simp del: fld.simps fld_obj split: if_splits\<close>)
  from out have o: "snapshotMaterial (fld val ''challengeMaterial'') = Some (fld out ''challengeMaterial'')"
    "fld out ''maxAttempts'' = fld val ''maxAttempts''" "fld out ''expiresAt'' = fld val ''expiresAt''"
    by (auto simp: snapshotBeginResult_def simp del: fld.simps split: option.splits)
  from val have v: "isMethodMaterial (fld val ''challengeMaterial'')" "fld val ''challengeMaterial'' \<noteq> JUndef"
    "isValidDate (fld val ''expiresAt'')" "isPositiveInteger (fld val ''maxAttempts'')"
    by (auto simp: isValidBeginOutput_def date_less_iff isPositiveInteger_def simp del: fld.simps fld_obj)
  have "isChallengeBinding (obj [(''account'', fld input ''account''), (''session'', fld input ''session''),
              (''startedByActor'', fld ?cx ''actor'')])"
    using isAccountMode_challenge [OF mode objects(1)] session actor
    by (simp add: isChallengeBinding_def hasOnlyKeys_def bindingKeys_def del: fld.simps)
  then show ?thesis
    using isAuthContext_tenant [OF cx] cid mref lookup now o v snapshotMaterial_valid [OF v(1,2) o(1)]
    by (simp add: newChallengeRecord_def Let_def isChallengeRecord_def hasOnlyKeys_def challengeKeys_def
        isDateOrder_def date_le_iff isPositiveInteger_def isNonNegativeInteger_def max_safe_integer_def
        del: fld.simps)
qed

lemma challengeRecordFingerprint_fields:
  assumes "challengeRecordFingerprint v = Some f" and "challengeRecordFingerprint w = Some f"
    and "isChallengeRecord w"
  shows "isChallengeRecord v"
    and "k \<in> {''tenantId'', ''challengeId'', ''methodId'', ''methodKind'', ''status'', ''attempts'', ''maxAttempts'',
          ''version'', ''expiresAt''} \<Longrightarrow> fld v k = fld w k"
  using recordFingerprint_fields [of isChallengeRecord v f w, OF assms [unfolded challengeRecordFingerprint_def]]
    isChallengeRecord_untagged isChallengeRecord_scalar by blast+


lemma isChallengeRecord_expiresAt: "isChallengeRecord v \<Longrightarrow> isValidDate (fld v ''expiresAt'')"
  by (simp add: isChallengeRecord_def del: fld.simps fld_obj)

lemma invokeMethodValidation_valid:
  assumes "invokeMethodValidation c key op i cx s = (Ret (Some v), t)"
  shows "isValidatedMethodInput v"
  using assms
  by (auto simp: invokeMethodValidation_def snapshotValidatedMethodInput_def Let_def
      simp del: fld.simps fld_obj elim!: bindM_RetE split: option.splits if_splits)

text \<open>What the store answered when it was asked to keep the challenge.\<close>

definition challengeStored :: "jsv \<Rightarrow> jsv \<Rightarrow> jsv \<Rightarrow> jsv \<Rightarrow> jsv \<Rightarrow> bool" where
  "challengeStored input cid methodRef out v =
     (isChallengeRecord v
      \<and> fld v ''tenantId'' = fld (fld input ''context'') ''tenantId''
      \<and> fld v ''challengeId'' = cid
      \<and> fld v ''methodId'' = fld methodRef ''methodId''
      \<and> fld v ''methodKind'' = fld methodRef ''methodKind''
      \<and> fld v ''status'' = JStr ''pending''
      \<and> fld v ''attempts'' = JNum 0
      \<and> fld v ''version'' = JNum 1
      \<and> fld v ''maxAttempts'' = fld out ''maxAttempts''
      \<and> fld v ''expiresAt'' = fld out ''expiresAt'')"

definition challengeBegun :: "jsv \<Rightarrow> jsv \<Rightarrow> jsv \<Rightarrow> jsv \<Rightarrow> bool" where
  "challengeBegun input methodRef out v =
     (\<exists>cid created completed. isNonEmptyString cid
        \<and> challengeStored input cid methodRef out created
        \<and> date_less completed (fld out ''expiresAt'')
        \<and> v = beginSuccess cid out)"

lemma challengeStored_fingerprint:
  assumes "challengeRecordFingerprint v = Some f"
    and "challengeRecordFingerprint (newChallengeRecord input cid mref lookup out now) = Some f"
    and "isChallengeRecord (newChallengeRecord input cid mref lookup out now)"
  shows "challengeStored input cid mref out v"
proof -
  note eq = challengeRecordFingerprint_fields(2) [OF assms]
  show ?thesis
    using challengeRecordFingerprint_fields(1) [OF assms]
      eq [of "''tenantId''"] eq [of "''challengeId''"] eq [of "''methodId''"] eq [of "''methodKind''"]
      eq [of "''status''"] eq [of "''attempts''"] eq [of "''version''"] eq [of "''maxAttempts''"]
      eq [of "''expiresAt''"]
    by (simp add: challengeStored_def newChallengeRecord_def Let_def)
qed

lemma beginInTransaction_sound:
  assumes "beginInTransaction c input mref lookup cid out tx s = (Ret (Inr (eff, at)), t)"
  obtains now created f where "isValidDate now"
    and "challengeRecordFingerprint (newChallengeRecord input cid mref lookup out now) = Some f"
    and "challengeRecordFingerprint created = Some f"
    and "isValidDate at" and "\<not> date_le (fld out ''expiresAt'') at"
  using assms unfolding beginInTransaction_def Let_def
  by (auto simp del: fld.simps fld_obj dest!: readNow_valid elim!: bindM_RetE bindR_InrE
      split: if_splits option.splits)


text \<open>The request as JavaScript can pass it, with a lifetime that a store may keep.\<close>

definition beginRequest :: "jsv \<Rightarrow> bool" where
  "beginRequest input =
     (isAuthContext (fld input ''context'') \<and> isChallengeAccountMode (fld input ''account'')
      \<and> isSessionRequest (fld input ''session'')
      \<and> js_object (fld input ''account'') \<and> js_object (fld (fld input ''context'') ''actor''))"

lemma beginOutput_sound:
  assumes run: "beginOutput c input mref lookup now cid val s = (Ret (Inr v), t)"
    and request: "beginRequest input" and cid: "isNonEmptyString cid"
    and mref: "isStableMethodId (fld mref ''methodId'')" "isNonEmptyString (fld mref ''methodKind'')"
    and lookup: "isIdentityLookup lookup"
  obtains out where "snapshotBeginResult val = Some out" and "challengeBegun input mref out v"
proof -
  from run obtain out u1 u2 eff at where
    valid: "isValidBeginOutput val now" and out: "snapshotBeginResult val = Some out"
    and tx: "accountedTransaction c (fld input ''context'') mref ''begin'' lookup cid
        (runInStoreTransaction c (fld input ''context'') (beginScopes c out)
          (beginInTransaction c input mref lookup cid out)) u1 = (Ret (Inr (eff, at)), u2)"
    and v: "v = beginSuccess cid out"
    unfolding beginOutput_def Let_def
    by (auto simp del: fld.simps fld_obj elim!: bindM_RetE bindR_InrE split: if_splits prod.splits)
  have "beginScopes c out \<noteq> []" by (simp add: beginScopes_def)
  from runInStoreTransaction_once [OF accountedTransaction_InrD [OF tx] this]
  obtain tx0 s0 s1 where "beginInTransaction c input mref lookup cid out tx0 s0 = (Ret (Inr (eff, at)), s1)"
    by metis
  then obtain pnow created f where pnow: "isValidDate pnow"
    and f: "challengeRecordFingerprint (newChallengeRecord input cid mref lookup out pnow) = Some f"
      "challengeRecordFingerprint created = Some f"
    and at: "isValidDate at" "\<not> date_le (fld out ''expiresAt'') at"
    by (rule beginInTransaction_sound)
  have new: "isChallengeRecord (newChallengeRecord input cid mref lookup out pnow)"
    using newChallengeRecord_valid [OF _ _ _ _ _ cid mref lookup valid out pnow] request
    by (simp add: beginRequest_def)
  from isChallengeRecord_expiresAt [OF new] have "isValidDate (fld out ''expiresAt'')"
    by (simp add: newChallengeRecord_def Let_def)
  with at have "date_less at (fld out ''expiresAt'')" using date_le_not_less by blast
  with challengeStored_fingerprint [OF f(2,1) new] cid v have "challengeBegun input mref out v"
    unfolding challengeBegun_def by blast
  with out show ?thesis by (rule that)
qed

lemma beginOp_sound:
  assumes run: "beginOp c input s = (Ret (Inr v), t)" and cfg: "methodsConfigured c"
    and objects: "js_object (fld input ''account'')" "js_object (fld (fld input ''context'') ''actor'')"
    and session: "isSessionRequest (fld input ''session'')"
  obtains mc validated u1 u2 ec u3 u4 val out
  where "findMethod c (fld input ''methodId'') = Some mc" and "''begin'' \<in> set (operations mc)"
    and "hasChallenges c"
    and "acceptStart c (fld input ''context'') (toMethodRef (Some mc)) ''begin''
          (fld validated ''lookup'') JUndef (fld validated ''publicData'') u1 = (Ret (Inr ()), u2)"
    and "invokeMethodRun c (str_or (fld input ''methodId'') '''') ''begin'' (fld validated ''value'') ec u3
          = (Ret (Inr val), u4)"
    and "snapshotBeginResult val = Some out"
    and "challengeBegun input (toMethodRef (Some mc)) out v"
proof -
  from run obtain mc validated now u0 u1 u2 u6 vc where
    base: "isBaseOperationInput input" "isChallengeAccountMode (fld input ''account'')"
      "findMethod c (fld input ''methodId'') = Some mc" "''begin'' \<in> set (operations mc)" "hasChallenges c"
    and vld: "invokeMethodValidation c (str_or (fld input ''methodId'') '''') ''begin''
               (fld input ''input'') vc u0 = (Ret (Some validated), u1)"
    and start: "acceptStart c (fld input ''context'') (toMethodRef (Some mc)) ''begin''
          (fld validated ''lookup'') JUndef (fld validated ''publicData'') u6 = (Ret (Inr ()), u2)"
    and rest: "beginAdmitted c input (toMethodRef (Some mc)) now validated u2 = (Ret (Inr v), t)"
    unfolding beginOp_def Let_def
    by (auto simp del: fld.simps fld_obj elim!: bindM_RetE bindR_InrE split: if_splits option.splits)
  from rest obtain cid ec val u3 u4 u5 where
    cid: "generateCoreId c ''challenge'' (fld (fld input ''context'') ''tenantId'') now u2 = (Ret (Some cid), u3)"
    and run: "invokeMethodRun c (str_or (fld input ''methodId'') '''') ''begin'' (fld validated ''value'') ec u4
          = (Ret (Inr val), u5)"
    and last: "beginOutput c input (toMethodRef (Some mc)) (fld validated ''lookup'') now cid val u5 = (Ret (Inr v), t)"
    unfolding beginAdmitted_def Let_def
    by (auto simp del: fld.simps fld_obj elim!: bindM_RetE split: option.splits sum.splits)
  have request: "beginRequest input"
    using base(1,2) objects session by (simp add: beginRequest_def isBaseOperationInput_def del: fld.simps fld_obj)
  have lookup: "isIdentityLookup (fld validated ''lookup'')"
    using invokeMethodValidation_valid [OF vld] by (simp add: isValidatedMethodInput_def del: fld.simps fld_obj)
  from beginOutput_sound [OF last request generateCoreId_SomeD [OF cid] methodsConfigured_ref [OF cfg base(3)] lookup]
  obtain out where "snapshotBeginResult val = Some out" "challengeBegun input (toMethodRef (Some mc)) out v" .
  with base start run that show ?thesis by blast
qed


end
