(* ===== verification/Requirements.thy ===== *)
theory Requirements
  imports Operations
begin

text \<open>
  What must have happened for an operation to succeed. \<open>requires P m\<close>: whenever \<open>m\<close> ends with
  \<open>ok\<close>, one of the calls it made satisfies \<open>P\<close>. The rules follow the composition of the
  operations, so that a requirement of one step becomes a requirement of the whole operation.
\<close>

definition requires :: "(event \<Rightarrow> bool) \<Rightarrow> ('w, 'a res) auth \<Rightarrow> bool" where
  "requires P m = (\<forall>s a t. m s = (Ret (Inr a), t) \<longrightarrow> (\<exists>es. follows s es t \<and> (\<exists>e\<in>set es. P e)))"

named_theorems requires_rules \<open>steps that never succeed or pass a requirement on\<close>

lemma requiresI:
  assumes "\<And>s a t. m s = (Ret (Inr a), t) \<Longrightarrow> \<exists>es. follows s es t \<and> (\<exists>e\<in>set es. P e)"
  shows "requires P m"
  using assms unfolding requires_def by blast

lemma requiresE:
  assumes "requires P m" and "m s = (Ret (Inr a), t)"
  obtains es e where "follows s es t" and "e \<in> set es" and "P e"
  using assms unfolding requires_def by blast

lemma requires_since:
  assumes "requires P m" and "m s = (Ret (Inr a), t)"
  shows "\<exists>e\<in>set (since s t). P e"
  using assms by (elim requiresE) (auto simp: since_follows)

lemma follows_any:
  assumes "only UNIV m" and "m s = (r, t)"
  obtains es where "follows s es t"
  by (rule onlyD [OF assms])

section \<open>Rules\<close>

lemma requires_never:
  assumes "\<And>s a t. m s \<noteq> (Ret (Inr a), t)" shows "requires P m"
  using assms by (auto simp: requires_def)

lemma requires_errR [requires_rules]: "requires P (errR cx r p)"
  by (rule requires_never) simp

lemma requires_failAttempt [requires_rules]: "requires P (failAttempt c cx m op l r p ch co)"
  by (rule requires_never) simp

lemma requires_failMethodRun [requires_rules]: "requires P (failMethodRun c cx m op l ch e)"
  by (rule requires_never) simp

lemma requires_Inl [requires_rules]: "requires P (ret (Inl e))"
  by (rule requires_never) simp

lemma requires_later_M:
  assumes "only UNIV m" and "\<And>a s t. m s = (Ret a, t) \<Longrightarrow> requires P (f a)"
  shows "requires P (bindM m f)"
proof (rule requiresI)
  fix s a t
  assume "bindM m f s = (Ret (Inr a), t)"
  then obtain b u where u: "m s = (Ret b, u)" "f b u = (Ret (Inr a), t)" by (rule bindM_RetE)
  obtain es where es: "follows s es u" by (rule follows_any [OF assms(1) u(1)])
  obtain fs e where "follows u fs t" "e \<in> set fs" "P e" by (rule requiresE [OF assms(2) [OF u(1)] u(2)])
  with es have "follows s (es @ fs) t \<and> (\<exists>e\<in>set (es @ fs). P e)" using follows_trans by auto
  then show "\<exists>es. follows s es t \<and> (\<exists>e\<in>set es. P e)" by blast
qed

lemma requires_later:
  assumes "only UNIV m" and "\<And>a s t. m s = (Ret (Inr a), t) \<Longrightarrow> requires P (f a)"
  shows "requires P (bindR m f)"
  unfolding bindR_def
  by (rule requires_later_M [OF assms(1)]) (auto intro: assms(2) requires_Inl split: sum.split)

lemma requires_first:
  assumes "requires P m" and "\<And>a. only UNIV (f a)"
  shows "requires P (bindR m f)"
proof (rule requiresI)
  fix s a t
  assume "bindR m f s = (Ret (Inr a), t)"
  then obtain b u where u: "m s = (Ret (Inr b), u)" "f b u = (Ret (Inr a), t)" by (rule bindR_InrE)
  obtain es e where es: "follows s es u" "e \<in> set es" "P e" by (rule requiresE [OF assms(1) u(1)])
  obtain fs where "follows u fs t" by (rule follows_any [OF assms(2) u(2)])
  with es have "follows s (es @ fs) t \<and> (\<exists>e\<in>set (es @ fs). P e)" using follows_trans by auto
  then show "\<exists>es. follows s es t \<and> (\<exists>e\<in>set es. P e)" by blast
qed

lemma requires_if [requires_rules]:
  "(b \<Longrightarrow> requires P m) \<Longrightarrow> (\<not> b \<Longrightarrow> requires P n) \<Longrightarrow> requires P (if b then m else n)"
  by simp

lemma requires_case_option [requires_rules]:
  "(x = None \<Longrightarrow> requires P m) \<Longrightarrow> (\<And>a. x = Some a \<Longrightarrow> requires P (f a))
     \<Longrightarrow> requires P (case x of None \<Rightarrow> m | Some a \<Rightarrow> f a)"
  by (cases x) simp_all

lemma requires_case_sum [requires_rules]:
  "(\<And>a. x = Inl a \<Longrightarrow> requires P (f a)) \<Longrightarrow> (\<And>b. x = Inr b \<Longrightarrow> requires P (g b))
     \<Longrightarrow> requires P (case x of Inl a \<Rightarrow> f a | Inr b \<Rightarrow> g b)"
  by (cases x) simp_all

lemma requires_case_prod [requires_rules]:
  "(\<And>a b. requires P (f a b)) \<Longrightarrow> requires P (case x of (a, b) \<Rightarrow> f a b)"
  by (cases x) simp

lemma requires_Let [requires_rules]: "(\<And>a. a = x \<Longrightarrow> requires P (f a)) \<Longrightarrow> requires P (Let x f)"
  by (simp add: Let_def)

lemma requires_mono: "requires P m \<Longrightarrow> (\<And>e. P e \<Longrightarrow> Q e) \<Longrightarrow> requires Q m"
  unfolding requires_def by blast

section \<open>Steps of the operations\<close>

lemma requires_accounted: "requires P m \<Longrightarrow> requires P (accounted c cx me op l ch m)"
  unfolding requires_def by (blast dest: accounted_InrD)

lemma requires_accountedTransaction:
  "requires P m \<Longrightarrow> requires P (accountedTransaction c cx me op l ch m)"
  unfolding requires_def by (blast dest: accountedTransaction_InrD)

lemma requires_runInStoreTransaction:
  assumes "\<And>tx. requires P (fn tx)" and "scopes \<noteq> []"
  shows "requires P (runInStoreTransaction c cx scopes fn)"
proof (rule requiresI)
  fix s a t
  assume "runInStoreTransaction c cx scopes fn s = (Ret (Inr a), t)"
  then obtain tx s0 s1 where "trace s0 = trace s" "fn tx s0 = (Ret (Inr a), s1)" "trace t = trace s1"
    by (rule runInStoreTransaction_once [OF _ assms(2)])
  moreover from this obtain es e where "follows s0 es s1" "e \<in> set es" "P e"
    using requiresE [OF assms(1)] by metis
  ultimately show "\<exists>es. follows s es t \<and> (\<exists>e\<in>set es. P e)" by (auto simp: follows_def)
qed

text \<open>A store that answered \<open>ok\<close>, and a policy that allowed.\<close>

lemma requires_storeOrFail:
  assumes "\<And>r. truthy (fld r ''ok'') \<Longrightarrow> P (Call p args (Ret r))"
  shows "requires P (storeOrFail c cx m op l ch p args)"
  by (rule requiresI) (elim storeOrFail_InrE, auto intro!: exI assms)

lemma requires_storeR:
  assumes "\<And>r. truthy (fld r ''ok'') \<Longrightarrow> P (Call p args (Ret r))"
  shows "requires P (storeR cx c p args)"
  by (rule requiresI) (elim storeR_InrD, auto intro!: exI assms)

definition policy_said_yes :: "(jsv \<Rightarrow> bool) \<Rightarrow> event \<Rightarrow> bool" where
  "policy_said_yes Q e = (\<exists>i d. e = Call PolicyDecide [i] (Ret d) \<and> isPolicyDecision d
     \<and> fld d ''allow'' = JBool True \<and> Q i)"

lemma requires_policy:
  assumes "hasPolicy c" and "\<And>i. policyInput check = Some i \<Longrightarrow> Q i"
  shows "requires (policy_said_yes Q) (policy c check)"
proof (rule requiresI)
  fix s a t
  assume "policy c check s = (Ret (Inr a), t)"
  then show "\<exists>es. follows s es t \<and> (\<exists>e\<in>set es. policy_said_yes Q e)"
    by (rule policy_okE) (use assms in \<open>auto simp: policy_said_yes_def\<close>)
qed

section \<open>The calls of the remaining steps\<close>

lemma only_any_invokeMethodValidation [only_rules]: "only UNIV (invokeMethodValidation c key op i cx)"
  unfolding invokeMethodValidation_def by (intro only_rules) simp

lemma only_any_invokeMethodRun [only_rules]: "only UNIV (invokeMethodRun c key op i cx)"
  unfolding invokeMethodRun_def by (intro only_rules) simp

lemma only_any_finishOperation [only_rules]:
  "only UNIV (finishOperation c cx m op l ch es session effects at)"
  unfolding finishOperation_def by (intro only_rules) simp_all


text \<open>Steps that cannot be what is required: the requirement is one of what follows them.\<close>

lemma requires_liftO [requires_rules]:
  "(\<And>a. x = Some a \<Longrightarrow> requires P (f a)) \<Longrightarrow> requires P (bindM (liftO x) f)"
  by (rule requires_later_M) (simp_all add: only_rules)

lemma requires_readNow [requires_rules]:
  "(\<And>a s t. readNow c s = (Ret a, t) \<Longrightarrow> requires P (f a)) \<Longrightarrow> requires P (bindM (readNow c) f)"
  by (rule requires_later_M) (simp_all add: only_rules)

lemma requires_generateCoreId [requires_rules]:
  "(\<And>a s t. generateCoreId c k tn now s = (Ret a, t) \<Longrightarrow> requires P (f a)) \<Longrightarrow>
     requires P (bindM (generateCoreId c k tn now) f)"
  by (rule requires_later_M) (simp_all add: only_rules)

lemma requires_validation [requires_rules]:
  "(\<And>a. requires P (f a)) \<Longrightarrow> requires P (bindM (invokeMethodValidation c key op i cx) f)"
  by (rule requires_later_M) (simp_all add: only_rules)

lemma requires_run [requires_rules]:
  "(\<And>a. requires P (f a)) \<Longrightarrow> requires P (bindM (invokeMethodRun c key op i cx) f)"
  by (rule requires_later_M) (simp_all add: only_rules)


end
