(* ===== verification/ChallengeComplete.thy ===== *)
theory ChallengeComplete
  imports ChallengeBegin Requirements
begin

text \<open>
  \<open>packages/core/src/operations/challenge/complete.ts\<close> and \<open>persist-completion.ts\<close>: answering a
  challenge, which consumes it and signs in or creates the account its binding names.
\<close>

section \<open>Persistence\<close>

definition challengeKey :: "jsv \<Rightarrow> jsv \<Rightarrow> (string \<times> jsv) list" where
  "challengeKey context challengeId =
     [(''tenantId'', fld context ''tenantId''), (''challengeId'', challengeId)]"

text \<open>The identity of the resolution, a new one, or the resolved one marked as verified.\<close>

definition completionIdentity ::
  "'w cfg \<Rightarrow> jsv \<Rightarrow> jsv \<Rightarrow> jsv \<Rightarrow> jsv \<Rightarrow> resolvedAccount \<Rightarrow> jsv \<Rightarrow> jsv \<Rightarrow> jsv \<Rightarrow> ('w, jsv res) auth" where
  "completionIdentity c context methodRef lookup challengeId resolved claim now tx =
     (if \<not> truthy (identity resolved) then
        accounted c context methodRef ''complete'' lookup challengeId
          (createIdentityForClaim c context (fld (account resolved) ''accountId'') claim now tx)
      else if truthy (fld claim ''verifiedAt'') \<and> \<not> truthy (fld (identity resolved) ''verifiedAt'') then
        bindM (liftO (identityRecordFingerprint (spread (identity resolved)
                 [(''verifiedAt'', fld claim ''verifiedAt''), (''updatedAt'', now)]))) (\<lambda>expectedIdentity.
        bindR (storeOrFail c context methodRef ''complete'' lookup challengeId IdentitiesMarkVerified
                 [obj [(''tenantId'', fld context ''tenantId''),
                       (''identityId'', fld (identity resolved) ''identityId''),
                       (''verifiedAt'', fld claim ''verifiedAt''), (''now'', now)], tx]) (\<lambda>verified.
        bindM (liftO (identityRecordFingerprint verified)) (\<lambda>fp.
          if fp \<noteq> expectedIdentity
          then failAttempt c context methodRef ''complete'' lookup (JStr ''INTERNAL'')
                 (Some ''TEMPORARILY_UNAVAILABLE'') challengeId None
          else okR verified)))
      else okR (identity resolved))"

definition consumeChallenge :: "'w cfg \<Rightarrow> jsv \<Rightarrow> jsv \<Rightarrow> jsv \<Rightarrow> jsv \<Rightarrow> ('w, unit res) auth" where
  "consumeChallenge c context challenge now tx =
     bindR (storeR context c ChallengesConsumePending
              [obj (challengeKey context (fld challenge ''challengeId'')
                  @ [(''expectedVersion'', fld challenge ''version''), (''now'', now)]), tx]) (\<lambda>consumed.
       if \<not> isConsumePendingResult consumed
       then errR context ''INTERNAL'' (Some ''TEMPORARILY_UNAVAILABLE'')
       else if consumed \<noteq> JStr ''consumed''
       then errR context (challengeResultToReason consumed) (Some ''CHALLENGE_FAILED'')
       else okR ())"

definition persistCompletion ::
  "'w cfg \<Rightarrow> jsv \<Rightarrow> jsv \<Rightarrow> jsv \<Rightarrow> jsv \<Rightarrow> jsv \<Rightarrow> jsv \<Rightarrow> ('w, persistedOperation res) auth" where
  "persistCompletion c input methodRef challenge out now tx =
     (let context = fld input ''context''; lookup = fld challenge ''lookup'';
          proof = fld out ''proof''; claim = fld proof ''primaryIdentity'';
          binding = fld challenge ''binding'' in
      bindR (consumeChallenge c context challenge now tx) (\<lambda>_.
      bindR (accounted c context methodRef ''complete'' lookup (fld input ''challengeId'')
        (resolveAccount c context (fld binding ''account'') claim proof now tx)) (\<lambda>resolved.
      bindR (completionIdentity c context methodRef lookup (fld input ''challengeId'') resolved claim now tx) (\<lambda>ident.
      bindR (accounted c context methodRef ''complete'' lookup (fld input ''challengeId'')
        (dispatchRequiredSideEffects c context (arr_elems (fld out ''sideEffects'')) now tx)) (\<lambda>effects.
      bindR (accounted c context methodRef ''complete'' lookup (fld input ''challengeId'')
        (optionalSession c (fld binding ''session'' \<noteq> JUndef) context (fld (account resolved) ''accountId'')
           proof (fld binding ''session'') now tx)) (\<lambda>session.
      okR \<lparr>persistedAccount = account resolved, persistedIdentity = ident, persistedCredential = JUndef,
            persistedSession = session, persistedEffects = effects\<rparr>))))))"

section \<open>Loading the challenge\<close>

definition isCompleteInput :: "jsv \<Rightarrow> bool" where
  "isCompleteInput input =
     (isRecord input \<and> isAuthContext (fld input ''context'')
      \<and> isNonEmptyString (fld input ''challengeId'') \<and> has_key ''input'' input)"

definition challengeFor :: "jsv \<Rightarrow> jsv \<Rightarrow> jsv \<Rightarrow> bool" where
  "challengeFor context challengeId v =
     (isChallengeRecord v \<and> fld v ''tenantId'' = fld context ''tenantId''
      \<and> fld v ''challengeId'' = challengeId)"

text \<open>The steps from the lookup of the challenge to the check of who started it.\<close>

definition loadChallenge :: "'w cfg \<Rightarrow> jsv \<Rightarrow> jsv \<Rightarrow> ('w, jsv res) auth" where
  "loadChallenge c input now =
     (let context = fld input ''context'' in
      bindR (storeR context c ChallengesFindById [obj (challengeKey context (fld input ''challengeId''))]) (\<lambda>challenge.
      if truthy challenge \<and> \<not> challengeFor context (fld input ''challengeId'') challenge
      then errR context ''INTERNAL'' (Some ''TEMPORARILY_UNAVAILABLE'')
      else if \<not> truthy challenge then errR context ''CHALLENGE_NOT_FOUND'' (Some ''CHALLENGE_FAILED'')
      else if fld challenge ''status'' = JStr ''consumed''
      then errR context ''CHALLENGE_ALREADY_CONSUMED'' (Some ''CHALLENGE_FAILED'')
      else if fld challenge ''status'' = JStr ''failed''
        \<or> num_val (fld challenge ''maxAttempts'') \<le> num_val (fld challenge ''attempts'')
      then errR context ''CHALLENGE_ATTEMPTS_EXCEEDED'' (Some ''CHALLENGE_FAILED'')
      else if fld challenge ''status'' = JStr ''expired'' \<or> date_le (fld challenge ''expiresAt'') now
      then errR context ''CHALLENGE_EXPIRED'' (Some ''CHALLENGE_FAILED'')
      else if \<not> challengeActorBindingMatches (fld challenge ''binding'') context
      then errR context ''ACCOUNT_LINKING_DENIED'' (Some ''AUTHORIZATION_FAILED'')
      else okR challenge))"

section \<open>Failed answers\<close>

text \<open>
  The branch of a failed method run: a failure that counts is recorded in the challenge first,
  and may end it.
\<close>

definition failMethodComplete ::
  "'w cfg \<Rightarrow> jsv \<Rightarrow> jsv \<Rightarrow> jsv \<Rightarrow> jsv \<Rightarrow> ('w, jsv res) auth" where
  "failMethodComplete c input methodRef challenge e =
     (let context = fld input ''context''; lookup = fld challenge ''lookup''; cid = fld input ''challengeId'';
          fail = (\<lambda>reason code counts. failAttempt c context methodRef ''complete'' lookup reason code cid counts);
          failed = failMethodRun c context methodRef ''complete'' lookup cid e in
      if \<not> truthy (fld e ''countsAsAttempt'') then failed
      else bindM (readNow c) (\<lambda>t. case t of
        None \<Rightarrow> fail (JStr ''INTERNAL'') (Some ''INTERNAL'') None
      | Some failureNow \<Rightarrow>
      bindR (storeOrFail c context methodRef ''complete'' lookup cid ChallengesRecordFailedAttempt
               [obj (challengeKey context (fld challenge ''challengeId'')
                  @ [(''expectedVersion'', fld challenge ''version''), (''now'', failureNow),
                     (''reason'', fld e ''reason'')])]) (\<lambda>recorded.
      if \<not> isRecordFailedAttemptTransition challenge recorded failureNow
         \<or> (fld recorded ''status'' \<noteq> JStr ''version-conflict''
            \<and> (fld (fld recorded ''challenge'') ''tenantId'' \<noteq> fld context ''tenantId''
               \<or> fld (fld recorded ''challenge'') ''challengeId'' \<noteq> cid))
      then fail (JStr ''INTERNAL'') (Some ''TEMPORARILY_UNAVAILABLE'') None
      else if fld recorded ''status'' \<noteq> JStr ''recorded''
      then fail (JStr (challengeRecordFailedAttemptReason (fld recorded ''status''))) (Some ''CHALLENGE_FAILED'') (Some True)
      else failed)))"

section \<open>The operation\<close>

text \<open>The callback of the transaction.\<close>

definition completeInTransaction ::
  "'w cfg \<Rightarrow> jsv \<Rightarrow> jsv \<Rightarrow> jsv \<Rightarrow> jsv \<Rightarrow> jsv \<Rightarrow> jsv \<Rightarrow> ('w, (persistedOperation \<times> jsv) res) auth" where
  "completeInTransaction c input methodRef challenge lookup out tx =
     (let context = fld input ''context''; cid = fld input ''challengeId'';
          fail = (\<lambda>reason code. failAttempt c context methodRef ''complete'' (fld challenge ''lookup'')
                    (JStr reason) code cid None) in
      bindM (readNow c) (\<lambda>t. case t of
        None \<Rightarrow> fail ''INTERNAL'' (Some ''INTERNAL'')
      | Some persistenceNow \<Rightarrow>
      if date_le (fld challenge ''expiresAt'') persistenceNow
         \<or> \<not> proofMatches methodRef lookup (fld out ''proof'') persistenceNow
      then fail ''CHALLENGE_EXPIRED'' (Some ''CHALLENGE_FAILED'')
      else bindR (persistCompletion c input methodRef challenge out persistenceNow tx) (\<lambda>completion.
      bindM (readNow c) (\<lambda>t. case t of
        None \<Rightarrow> fail ''INTERNAL'' (Some ''INTERNAL'')
      | Some completedAt \<Rightarrow>
      if date_le (fld challenge ''expiresAt'') completedAt
         \<or> \<not> proofMatches methodRef lookup (fld out ''proof'') completedAt
      then fail ''CHALLENGE_EXPIRED'' (Some ''CHALLENGE_FAILED'')
      else okR (completion, completedAt)))))"

definition completeScopes :: "'w cfg \<Rightarrow> jsv \<Rightarrow> jsv \<Rightarrow> jsv list" where
  "completeScopes c challenge out =
     [JStr ''accounts'', JStr ''identities'', JStr ''challenges'']
     @ (if fld (fld challenge ''binding'') ''session'' \<noteq> JUndef then [JStr ''sessions''] else [])
     @ sideEffectScopes c (arr_elems (fld out ''sideEffects''))"

definition completeOutput ::
  "'w cfg \<Rightarrow> jsv \<Rightarrow> jsv \<Rightarrow> jsv \<Rightarrow> jsv \<Rightarrow> jsv \<Rightarrow> jsv \<Rightarrow> ('w, jsv res) auth" where
  "completeOutput c input methodRef challenge lookup now val =
     (let context = fld input ''context''; cid = fld input ''challengeId'';
          fail = (\<lambda>reason code. failAttempt c context methodRef ''complete'' (fld challenge ''lookup'')
                    (JStr reason) code cid None) in
      if \<not> isPublicData (fld val ''publicData'') \<or> \<not> isSideEffects (fld val ''sideEffects'')
      then fail ''VALIDATION_FAILED'' (Some ''INVALID_INPUT'')
      else if \<not> proofMatches methodRef lookup (fld val ''proof'') now
      then fail ''IDENTITY_BINDING_MISMATCH'' None
      else bindM (liftO (snapshotCompleteResult val)) (\<lambda>out.
      let sideEffects = arr_elems (fld out ''sideEffects'') in
      if \<not> requiredEffectsCanPersist c sideEffects True
      then fail ''SIDE_EFFECT_FAILED'' (Some ''TEMPORARILY_UNAVAILABLE'')
      else bindR (accounted c context methodRef ''complete'' (fld challenge ''lookup'') cid
                    (policy c (acceptProofCheck context (fld out ''proof'')))) (\<lambda>_.
      bindR (accountedTransaction c context methodRef ''complete'' (fld challenge ''lookup'') cid
               (runInStoreTransaction c context (completeScopes c challenge out)
                  (completeInTransaction c input methodRef challenge lookup out)))
        (\<lambda>(p, completedAt).
      bindM (finishOperation c context methodRef ''complete'' (fld challenge ''lookup'') cid sideEffects
               (persistedSession p) (persistedEffects p) completedAt) (\<lambda>_.
      bindM (liftO (toAccountView (persistedAccount p))) (\<lambda>view.
      okR (authSuccess view (fld out ''proof'') (persistedSession p) (fld out ''publicData''))))))))"

text \<open>What the method learns of the challenge, besides the execution context.\<close>

definition challengeContext :: "jsv \<Rightarrow> jsv \<Rightarrow> jsv \<Rightarrow> jsv \<Rightarrow> jsv \<Rightarrow> jsv option" where
  "challengeContext methodRef context now lookup challenge =
     (case (executionContext methodRef context now lookup None, snapshotMaterial (fld challenge ''material'')) of
        (Some ec, Some material) \<Rightarrow>
          Some (spread ec [(''challenge'', obj [(''challengeId'', fld challenge ''challengeId''),
             (''challengeMaterial'', material)])])
      | _ \<Rightarrow> None)"

text \<open>The validation of the answer and what follows, when the challenge and its method are known.\<close>

definition completeChallenge ::
  "'w cfg \<Rightarrow> jsv \<Rightarrow> jsv \<Rightarrow> jsv \<Rightarrow> jsv \<Rightarrow> ('w, jsv res) auth" where
  "completeChallenge c input methodRef challenge now =
     (let context = fld input ''context''; cid = fld input ''challengeId''; key = str_or (fld challenge ''methodId'') '''';
          fail = (\<lambda>reason code. failAttempt c context methodRef ''complete'' (fld challenge ''lookup'')
                    (JStr reason) code cid None) in
      bindM (liftO (validationContext methodRef context now)) (\<lambda>vc.
      bindM (invokeMethodValidation c key ''complete'' (fld input ''input'') vc) (\<lambda>validated. case validated of
        None \<Rightarrow> fail ''VALIDATION_FAILED'' (Some ''INVALID_INPUT'')
      | Some validated \<Rightarrow>
      if \<not> isPublicData (fld validated ''publicData'') then fail ''VALIDATION_FAILED'' (Some ''INVALID_INPUT'')
      else if truthy (fld validated ''lookup'')
        \<and> \<not> identityMatches (fld challenge ''lookup'') (fld validated ''lookup'')
      then fail ''IDENTITY_BINDING_MISMATCH'' None
      else let lookup = coalesce (fld challenge ''lookup'') (fld validated ''lookup'') in
      bindR (acceptStart c context methodRef ''complete'' lookup cid (fld validated ''publicData'')) (\<lambda>_.
      bindM (liftO (challengeContext methodRef context now lookup challenge)) (\<lambda>ec.
      bindM (invokeMethodRun c key ''complete'' (fld validated ''value'') ec) (\<lambda>run. case run of
        Inl e \<Rightarrow> failMethodComplete c input methodRef challenge e
      | Inr val \<Rightarrow> completeOutput c input methodRef challenge lookup now val))))))"

definition complete :: "'w cfg \<Rightarrow> jsv \<Rightarrow> ('w, jsv res) auth" where
  "complete c input =
     (if \<not> isCompleteInput input
      then errR (authContextFrom input) ''VALIDATION_FAILED'' (Some ''INVALID_INPUT'')
      else let context = fld input ''context'' in
      if \<not> hasChallenges c then errR context ''CHALLENGE_STORE_REQUIRED'' None
      else bindM (readNow c) (\<lambda>t. case t of
        None \<Rightarrow> errR context ''INTERNAL'' (Some ''INTERNAL'')
      | Some now \<Rightarrow>
      bindR (loadChallenge c input now) (\<lambda>challenge.
      case findMethod c (fld challenge ''methodId'') of
        None \<Rightarrow> errR context ''METHOD_NOT_CONFIGURED'' None
      | Some mc \<Rightarrow>
      if ''complete'' \<notin> set (operations mc) then errR context ''METHOD_OPERATION_UNSUPPORTED'' None
      else if methodKind mc \<noteq> fld challenge ''methodKind'' then errR context ''METHOD_NOT_CONFIGURED'' None
      else completeChallenge c input (toMethodRef (Some mc)) challenge now)))"


section \<open>What a successful completion has established\<close>

text \<open>The challenge that may be answered: the requested one, pending, unexpired, with attempts left.\<close>

definition challengeOpen :: "jsv \<Rightarrow> jsv \<Rightarrow> jsv \<Rightarrow> bool" where
  "challengeOpen input challenge now =
     (challengeFor (fld input ''context'') (fld input ''challengeId'') challenge
      \<and> fld challenge ''status'' = JStr ''pending''
      \<and> num_val (fld challenge ''attempts'') < num_val (fld challenge ''maxAttempts'')
      \<and> date_less now (fld challenge ''expiresAt'')
      \<and> challengeActorBindingMatches (fld challenge ''binding'') (fld input ''context''))"

lemma loadChallenge_open:
  assumes "loadChallenge c input now s = (Ret (Inr challenge), t)" and "isValidDate now"
  shows "challengeOpen input challenge now"
proof -
  from assms(1) have *: "challengeFor (fld input ''context'') (fld input ''challengeId'') challenge"
    "fld challenge ''status'' \<notin> {JStr ''consumed'', JStr ''failed'', JStr ''expired''}"
    "num_val (fld challenge ''attempts'') < num_val (fld challenge ''maxAttempts'')"
    "\<not> date_le (fld challenge ''expiresAt'') now"
    "challengeActorBindingMatches (fld challenge ''binding'') (fld input ''context'')"
    unfolding loadChallenge_def Let_def
    by (auto simp del: fld.simps fld_obj elim!: bindR_InrE split: if_splits)
  moreover from *(1) have "isValidDate (fld challenge ''expiresAt'')"
    "fld challenge ''status'' \<in> {JStr ''pending'', JStr ''consumed'', JStr ''expired'', JStr ''failed''}"
    by (simp_all add: challengeFor_def isChallengeRecord_def del: fld.simps fld_obj)
  ultimately show ?thesis
    using date_le_not_less [OF _ assms(2)] by (auto simp: challengeOpen_def simp del: fld.simps fld_obj)
qed

definition completionPersisted ::
  "'w cfg \<Rightarrow> jsv \<Rightarrow> jsv \<Rightarrow> jsv \<Rightarrow> jsv \<Rightarrow> persistedOperation \<Rightarrow> bool" where
  "completionPersisted c input challenge claim now p =
     (let context = fld input ''context''; binding = fld challenge ''binding'';
          aid = fld (persistedAccount p) ''accountId'' in
      \<exists>found. resolution_ok context (fld binding ''account'') claim
          \<lparr>account = persistedAccount p, identity = found\<rparr>
        \<and> (\<not> truthy found \<longrightarrow> identityFor context claim (persistedIdentity p)
             \<and> fld (persistedIdentity p) ''accountId'' = aid)
        \<and> sessionOutcome c context aid (fld binding ''session'') now (persistedSession p))"

lemma persistCompletion_sound:
  assumes run: "persistCompletion c input mref challenge out now tx s = (Ret (Inr p), t)"
    and tenant: "isNonEmptyString (fld (fld input ''context'') ''tenantId'')"
    and claim: "isIdentityClaim (fld (fld out ''proof'') ''primaryIdentity'') t0"
  shows "completionPersisted c input challenge (fld (fld out ''proof'') ''primaryIdentity'') now p"
proof -
  let ?cx = "fld input ''context''" and ?claim = "fld (fld out ''proof'') ''primaryIdentity''"
    and ?binding = "fld challenge ''binding''"
  from run obtain resolved ident effects session u0 u1 u2 u3 u4 where
    res: "resolveAccount c ?cx (fld ?binding ''account'') ?claim (fld out ''proof'') now tx u0 = (Ret (Inr resolved), u1)"
    and ident: "completionIdentity c ?cx mref (fld challenge ''lookup'') (fld input ''challengeId'') resolved ?claim now tx u1
        = (Ret (Inr ident), u2)"
    and sess: "optionalSession c (fld ?binding ''session'' \<noteq> JUndef) ?cx
        (fld (account resolved) ''accountId'') (fld out ''proof'') (fld ?binding ''session'') now tx u3 = (Ret (Inr session), u4)"
    and p: "p = \<lparr>persistedAccount = account resolved, persistedIdentity = ident, persistedCredential = JUndef,
            persistedSession = session, persistedEffects = effects\<rparr>"
    unfolding persistCompletion_def Let_def
    by (auto simp del: fld.simps fld_obj elim!: bindR_InrE dest!: accounted_InrD)
  note ok = resolveAccount_sound [OF res tenant]
  have "identityFor ?cx ?claim ident \<and> fld ident ''accountId'' = fld (account resolved) ''accountId''"
    if "\<not> truthy (identity resolved)"
    using createIdentityForClaim_created [OF _ tenant resolution_accountId [OF ok] claim] ident that
    by (simp add: completionIdentity_def del: fld.simps fld_obj) (blast dest: accounted_InrD)
  moreover have "resolution_ok ?cx (fld ?binding ''account'') ?claim
          \<lparr>account = account resolved, identity = identity resolved\<rparr>"
    using ok by (simp add: resolution_ok_def)
  ultimately show ?thesis
    unfolding completionPersisted_def Let_def p
    using optionalSession_outcome [OF sess] by auto
qed

definition completed ::
  "'w cfg \<Rightarrow> jsv \<Rightarrow> jsv \<Rightarrow> jsv \<Rightarrow> jsv \<Rightarrow> jsv \<Rightarrow> jsv \<Rightarrow> bool" where
  "completed c input methodRef challenge lookup proof v =
     (\<exists>p now done view publicData.
        \<not> date_le (fld challenge ''expiresAt'') now \<and> \<not> date_le (fld challenge ''expiresAt'') done
        \<and> proofMatches methodRef lookup proof now \<and> proofMatches methodRef lookup proof done
        \<and> completionPersisted c input challenge (fld proof ''primaryIdentity'') now p
        \<and> toAccountView (persistedAccount p) = Some view
        \<and> v = authSuccess view proof (persistedSession p) publicData)"

lemma proofMatches_claim: "proofMatches mref lookup proof now \<Longrightarrow> isIdentityClaim (fld proof ''primaryIdentity'') now"
  by (simp add: proofMatches_iff proofTimely_def)

lemma completeInTransaction_sound:
  assumes "completeInTransaction c input mref challenge lookup out tx s = (Ret (Inr (p, at)), t)"
    and "isNonEmptyString (fld (fld input ''context'') ''tenantId'')"
  obtains now where "\<not> date_le (fld challenge ''expiresAt'') now" and "\<not> date_le (fld challenge ''expiresAt'') at"
    and "proofMatches mref lookup (fld out ''proof'') now" and "proofMatches mref lookup (fld out ''proof'') at"
    and "completionPersisted c input challenge (fld (fld out ''proof'') ''primaryIdentity'') now p"
proof -
  from assms(1) obtain now u v where
    "\<not> date_le (fld challenge ''expiresAt'') now" "\<not> date_le (fld challenge ''expiresAt'') at"
    and proof_ok: "proofMatches mref lookup (fld out ''proof'') now" "proofMatches mref lookup (fld out ''proof'') at"
    and "persistCompletion c input mref challenge out now tx u = (Ret (Inr p), v)"
    unfolding completeInTransaction_def Let_def
    by (auto simp del: fld.simps fld_obj elim!: bindM_RetE bindR_InrE split: if_splits option.splits)
  with that persistCompletion_sound [OF _ assms(2) proofMatches_claim [OF proof_ok(1)]] show ?thesis by blast
qed


lemma completeOutput_sound:
  assumes run: "completeOutput c input mref challenge lookup now val s = (Ret (Inr v), t)"
    and tenant: "isNonEmptyString (fld (fld input ''context'') ''tenantId'')"
  obtains out where "snapshotCompleteResult val = Some out"
    and "proofMatches mref lookup (fld val ''proof'') now"
    and "completed c input mref challenge lookup (fld out ''proof'') v"
proof -
  from run obtain out u1 u2 p at view where
    out: "snapshotCompleteResult val = Some out"
    and started: "proofMatches mref lookup (fld val ''proof'') now"
    and tx: "accountedTransaction c (fld input ''context'') mref ''complete'' (fld challenge ''lookup'') (fld input ''challengeId'')
        (runInStoreTransaction c (fld input ''context'') (completeScopes c challenge out)
          (completeInTransaction c input mref challenge lookup out)) u1 = (Ret (Inr (p, at)), u2)"
    and view: "toAccountView (persistedAccount p) = Some view"
    and v: "v = authSuccess view (fld out ''proof'') (persistedSession p) (fld out ''publicData'')"
    unfolding completeOutput_def Let_def
    by (auto simp del: fld.simps fld_obj elim!: bindM_RetE bindR_InrE split: if_splits prod.splits)
  have "completeScopes c challenge out \<noteq> []" by (simp add: completeScopes_def)
  from runInStoreTransaction_once [OF accountedTransaction_InrD [OF tx] this]
  obtain tx0 s0 s1 where "completeInTransaction c input mref challenge lookup out tx0 s0 = (Ret (Inr (p, at)), s1)"
    by metis
  then obtain pnow where "\<not> date_le (fld challenge ''expiresAt'') pnow" "\<not> date_le (fld challenge ''expiresAt'') at"
    "proofMatches mref lookup (fld out ''proof'') pnow" "proofMatches mref lookup (fld out ''proof'') at"
    "completionPersisted c input challenge (fld (fld out ''proof'') ''primaryIdentity'') pnow p"
    by (rule completeInTransaction_sound [OF _ tenant])
  with view v have "completed c input mref challenge lookup (fld out ''proof'') v"
    unfolding completed_def by (intro exI conjI) assumption+
  with out started show ?thesis by (rule that)
qed

lemma failMethodComplete_not_Inr [simp]: "failMethodComplete c input mref challenge e s = (Ret (Inr v), t) \<longleftrightarrow> False"
  unfolding failMethodComplete_def Let_def
  by (auto simp del: fld.simps fld_obj elim!: bindM_RetE bindR_InrE split: if_splits option.splits)

lemma completeChallenge_sound:
  assumes run: "completeChallenge c input mref challenge now s = (Ret (Inr v), t)"
    and tenant: "isNonEmptyString (fld (fld input ''context'') ''tenantId'')"
  obtains validated lookup u1 u2 ec val u3 u4 out
  where "lookup = coalesce (fld challenge ''lookup'') (fld validated ''lookup'')"
    and "acceptStart c (fld input ''context'') mref ''complete'' lookup (fld input ''challengeId'')
          (fld validated ''publicData'') u1 = (Ret (Inr ()), u2)"
    and "invokeMethodRun c (str_or (fld challenge ''methodId'') '''') ''complete'' (fld validated ''value'') ec u3
          = (Ret (Inr val), u4)"
    and "snapshotCompleteResult val = Some out"
    and "proofMatches mref lookup (fld val ''proof'') now"
    and "completed c input mref challenge lookup (fld out ''proof'') v"
proof -
  from run obtain validated u1 u2 ec val u3 u4 where
    start: "acceptStart c (fld input ''context'') mref ''complete'' (coalesce (fld challenge ''lookup'') (fld validated ''lookup''))
        (fld input ''challengeId'') (fld validated ''publicData'') u1 = (Ret (Inr ()), u2)"
    and meth: "invokeMethodRun c (str_or (fld challenge ''methodId'') '''') ''complete'' (fld validated ''value'') ec u3
          = (Ret (Inr val), u4)"
    and last: "completeOutput c input mref challenge (coalesce (fld challenge ''lookup'') (fld validated ''lookup'')) now val u4
          = (Ret (Inr v), t)"
    unfolding completeChallenge_def Let_def
    by (auto simp del: fld.simps fld_obj elim!: bindM_RetE bindR_InrE
        split: if_splits option.splits sum.splits)
  from last tenant obtain out where "snapshotCompleteResult val = Some out"
    "proofMatches mref (coalesce (fld challenge ''lookup'') (fld validated ''lookup'')) (fld val ''proof'') now"
    "completed c input mref challenge (coalesce (fld challenge ''lookup'') (fld validated ''lookup'')) (fld out ''proof'') v"
    by (rule completeOutput_sound)
  with start meth show ?thesis using that by blast
qed

lemma complete_sound:
  assumes run: "complete c input s = (Ret (Inr v), t)"
  obtains now challenge mc u
  where "challengeOpen input challenge now"
    and "findMethod c (fld challenge ''methodId'') = Some mc" and "''complete'' \<in> set (operations mc)"
    and "methodKind mc = fld challenge ''methodKind''"
    and "isNonEmptyString (fld (fld input ''context'') ''tenantId'')"
    and "completeChallenge c input (toMethodRef (Some mc)) challenge now u = (Ret (Inr v), t)"
proof -
  from run obtain now u0 u1 u2 challenge mc where
    cx: "isAuthContext (fld input ''context'')"
    and load: "loadChallenge c input now u0 = (Ret (Inr challenge), u1)" and now: "readNow c s = (Ret (Some now), u0)"
    and rest: "findMethod c (fld challenge ''methodId'') = Some mc" "''complete'' \<in> set (operations mc)"
      "methodKind mc = fld challenge ''methodKind''"
      "completeChallenge c input (toMethodRef (Some mc)) challenge now u1 = (Ret (Inr v), t)"
    unfolding complete_def Let_def
    by (auto simp del: fld.simps fld_obj simp: isCompleteInput_def
        elim!: bindM_RetE bindR_InrE split: if_splits option.splits)
  from loadChallenge_open [OF load readNow_valid [OF now]] rest isAuthContext_tenant [OF cx] that show ?thesis by blast
qed

section \<open>A successful completion has consumed the challenge\<close>

definition challenge_consumed :: "jsv \<Rightarrow> jsv \<Rightarrow> event \<Rightarrow> bool" where
  "challenge_consumed context challenge e =
     (\<exists>now tx r. e = Call ChallengesConsumePending
          [obj (challengeKey context (fld challenge ''challengeId'')
             @ [(''expectedVersion'', fld challenge ''version''), (''now'', now)]), tx] (Ret r)
        \<and> truthy (fld r ''ok'') \<and> fld r ''value'' = JStr ''consumed'')"

lemma requires_consumeChallenge:
  "requires (challenge_consumed cx challenge) (consumeChallenge c cx challenge now tx)"
proof (rule requiresI)
  fix s a t
  assume "consumeChallenge c cx challenge now tx s = (Ret (Inr a), t)"
  then obtain v where "storeR cx c ChallengesConsumePending
              [obj (challengeKey cx (fld challenge ''challengeId'')
                  @ [(''expectedVersion'', fld challenge ''version''), (''now'', now)]), tx] s = (Ret (Inr v), t)"
    and "v = JStr ''consumed''"
    unfolding consumeChallenge_def by (auto simp del: fld.simps fld_obj elim!: bindR_InrE split: if_splits)
  then show "\<exists>es. follows s es t \<and> (\<exists>e\<in>set es. challenge_consumed cx challenge e)"
    by (elim storeR_InrD) (auto simp: challenge_consumed_def simp del: fld.simps fld_obj intro!: exI)
qed


lemma only_completionIdentity [only_rules]: "only UNIV (completionIdentity c cx mref lookup cid resolved claim now tx)"
  unfolding completionIdentity_def by (intro only_rules) auto

lemma requires_persistCompletion:
  "requires (challenge_consumed (fld input ''context'') challenge)
     (persistCompletion c input mref challenge out now tx)"
  unfolding persistCompletion_def Let_def
  by (rule requires_first [OF requires_consumeChallenge], intro only_rules) auto

lemma requires_completeInTransaction:
  "requires (challenge_consumed (fld input ''context'') challenge)
     (completeInTransaction c input mref challenge lookup out tx)"
  unfolding completeInTransaction_def Let_def
  by (intro requires_rules requires_first [OF requires_persistCompletion] only_rules) auto

lemma requires_completeOutput_tx:
  assumes "\<And>out tx. requires P (completeInTransaction c input mref challenge lookup out tx)"
  shows "requires P (completeOutput c input mref challenge lookup now val)"
proof -
  have tx: "requires P (runInStoreTransaction c (fld input ''context'') (completeScopes c challenge out)
                  (completeInTransaction c input mref challenge lookup out))" for out
    by (rule requires_runInStoreTransaction [OF assms]) (simp add: completeScopes_def)
  show ?thesis
    unfolding completeOutput_def Let_def
    by (intro requires_rules, rule requires_later, (intro only_rules; simp)[1],
        rule requires_first [OF requires_accountedTransaction [OF tx]], intro only_rules)
qed

lemma only_failMethodComplete [only_rules]: "only UNIV (failMethodComplete c input mref challenge e)"
  unfolding failMethodComplete_def Let_def by (intro only_rules) auto

lemma requires_failMethodComplete [requires_rules]: "requires P (failMethodComplete c input mref challenge e)"
  by (rule requires_never) simp

lemma only_consumeChallenge [only_rules]: "only UNIV (consumeChallenge c cx challenge now tx)"
  unfolding consumeChallenge_def by (intro only_rules) simp

lemma only_persistCompletion [only_rules]: "only UNIV (persistCompletion c input mref challenge out now tx)"
  unfolding persistCompletion_def Let_def by (intro only_rules) auto

lemma only_completeInTransaction [only_rules]:
  "only UNIV (completeInTransaction c input mref challenge lookup out tx)"
  unfolding completeInTransaction_def Let_def by (intro only_rules; simp)

lemma only_completeOutput [only_rules]: "only UNIV (completeOutput c input mref challenge lookup now val)"
  unfolding completeOutput_def Let_def by (intro only_rules; simp)

text \<open>The admission, or what follows the method's answer, meets the requirement.\<close>

lemma requires_completeChallenge_start:
  assumes "\<And>m l ch pd. requires P (acceptStart c (fld input ''context'') m ''complete'' l ch pd)"
  shows "requires P (completeChallenge c input mref challenge now)"
  unfolding completeChallenge_def Let_def
  by (intro requires_rules requires_first [OF assms] only_rules)

lemma requires_completeChallenge_output:
  assumes "\<And>mref lookup now val. requires P (completeOutput c input mref challenge lookup now val)"
  shows "requires P (completeChallenge c input mref challenge now)"
  unfolding completeChallenge_def Let_def
  by (intro requires_rules, rule requires_later, (intro only_rules; simp)[1])
    (intro requires_rules assms)

text \<open>The consumption names the challenge of the request and the version that was read.\<close>

definition consumption_of :: "jsv \<Rightarrow> event \<Rightarrow> bool" where
  "consumption_of input e = (\<exists>challenge. challenge_consumed (fld input ''context'') challenge e
     \<and> fld challenge ''challengeId'' = fld input ''challengeId'')"

lemma only_loadChallenge [only_rules]: "only UNIV (loadChallenge c input now)"
  unfolding loadChallenge_def Let_def by (intro only_rules) simp

lemma requires_complete_open:
  assumes "\<And>challenge mref now. challengeOpen input challenge now
    \<Longrightarrow> requires P (completeChallenge c input mref challenge now)"
  shows "requires P (complete c input)"
  unfolding complete_def Let_def
  by (intro requires_rules, rule requires_later, (intro only_rules)[1])
    (auto intro!: requires_rules assms dest: readNow_valid loadChallenge_open)

lemma requires_complete: "requires (consumption_of input) (complete c input)"
proof (rule requires_complete_open)
  fix challenge mref now
  assume "challengeOpen input challenge now"
  then have "fld challenge ''challengeId'' = fld input ''challengeId''"
    by (simp add: challengeOpen_def challengeFor_def del: fld.simps fld_obj)
  moreover have "requires (challenge_consumed (fld input ''context'') challenge)
      (completeChallenge c input mref challenge now)"
    by (intro requires_completeChallenge_output requires_completeOutput_tx requires_completeInTransaction)
  ultimately show "requires (consumption_of input) (completeChallenge c input mref challenge now)"
    by (auto elim!: requires_mono simp: consumption_of_def)
qed

end
