(* ===== verification/OperationChecks.thy ===== *)
theory OperationChecks
  imports ChallengeComplete
begin

text \<open>
  Which decisions an operation has obtained when it succeeds: the guard's and the policy's, for
  the kinds of questions core asks at that point. Everything here is about the operations of
  \<open>packages/core/src/operations/\<close> as wholes.
\<close>

definition policy_allowed_kind :: "string \<Rightarrow> event \<Rightarrow> bool" where
  "policy_allowed_kind k = policy_said_yes (\<lambda>i. fld i ''kind'' = JStr k)"

definition guard_said_yes :: "event \<Rightarrow> bool" where
  "guard_said_yes e = (\<exists>i d. e = Call GuardBefore [i] (Ret d) \<and> isGuardResult d
     \<and> fld d ''ok'' = JBool True \<and> fld (fld d ''value'') ''allow'' = JBool True)"

lemma fld_spread_other:
  "k \<noteq> j \<Longrightarrow> fld (spread (JObj p kvs) [(j, v)]) k = fld (JObj p kvs) k"
  by (simp add: map_of_set_field)

lemma policyInput_kind:
  assumes "policyInput (obj ((''kind'', JStr k) # kvs)) = Some i"
  shows "fld i ''kind'' = JStr k"
proof -
  from assms obtain lvs ctx where "i = spread (obj ((''kind'', JStr k) # lvs)) [(''context'', ctx)]"
    by (auto simp: policyInput_def simp del: fld.simps fld_obj split: option.splits)
  then show ?thesis using fld_spread_other [of "''kind''" "''context''"] by (simp del: spread.simps)
qed

lemmas policyKinds = startPolicyCheck_def acceptProofCheck_def acceptEnrollmentCheck_def resolvePolicyCheck_def

lemma requires_policy_kind:
  assumes "hasPolicy c" and "check = obj ((''kind'', JStr k) # kvs)"
  shows "requires (policy_allowed_kind k) (policy c check)"
  unfolding policy_allowed_kind_def
  by (rule requires_policy [OF assms(1)]) (use assms(2) in \<open>auto dest: policyInput_kind\<close>)

section \<open>Admission\<close>

lemma requires_acceptStart:
  fixes c :: "'w cfg"
  assumes "\<And>s t :: 'w st. (hasGuard c \<longrightarrow> (\<exists>i. beforeAttemptInput cx m op l ch = Some i \<and> guard_allowed (since s t) i))
    \<and> (hasPolicy c \<longrightarrow> (\<exists>i. policyInput (startPolicyCheck cx m op l pd) = Some i
          \<and> policy_allowed (since s t) i)) \<Longrightarrow> \<exists>e\<in>set (since s t). P e"
  shows "requires P (acceptStart c cx m op l ch pd)"
proof (rule requiresI)
  fix s a t
  assume run: "acceptStart c cx m op l ch pd s = (Ret (Inr a), t)"
  have o: "only UNIV (acceptStart c cx m op l ch pd)" by (intro only_rules) auto
  obtain es where es: "follows s es t" by (rule follows_any [OF o run])
  with assms [OF acceptStart_admitted [OF run]] show "\<exists>es. follows s es t \<and> (\<exists>e\<in>set es. P e)"
    by (auto simp: since_follows)
qed

lemma requires_acceptStart_policy:
  assumes "hasPolicy c"
  shows "requires (policy_allowed_kind ''start-attempt'') (acceptStart c cx m op l ch pd)"
  by (rule requires_acceptStart) (use assms in \<open>auto simp: policy_allowed_kind_def policy_said_yes_def
      policy_allowed_def startPolicyCheck_def dest!: policyInput_kind\<close>)

lemma requires_acceptStart_guard:
  assumes "hasGuard c"
  shows "requires guard_said_yes (acceptStart c cx m op l ch pd)"
  by (rule requires_acceptStart) (use assms in \<open>auto simp: guard_said_yes_def guard_allowed_def\<close>)

section \<open>The operations never skip the admission of an attempt\<close>

lemma only_any_authenticate_steps [only_rules]:
  "only UNIV (findCredential c cx mref lookup ident)"
  "only UNIV (persistAuthentication c input mref lookup out i cr now tx)"
  unfolding findCredential_def persistAuthentication_def replaceMaterial_def Let_def
  by (intro only_rules; simp)+

lemma only_any_authenticateInTransaction [only_rules]:
  "only UNIV (authenticateInTransaction c input mref lookup out i cr tx)"
  unfolding authenticateInTransaction_def Let_def by (intro only_rules; simp)

lemma only_any_authenticateOutput [only_rules]:
  "only UNIV (authenticateOutput c input mref lookup now val i cr)"
  unfolding authenticateOutput_def Let_def by (intro only_rules; simp)

lemma only_any_authenticateAdmitted [only_rules]:
  "only UNIV (authenticateAdmitted c input mref now validated)"
  unfolding authenticateAdmitted_def Let_def by (intro only_rules; simp)

lemma requires_authenticate_start:
  assumes "\<And>m l pd. requires P (acceptStart c (fld input ''context'') m ''authenticate'' l JUndef pd)"
  shows "requires P (authenticate c input)"
  unfolding authenticate_def Let_def
  by (intro requires_rules requires_first [OF assms] only_rules)

lemma requires_authenticate_output:
  assumes "\<And>mref lookup now val i cr. requires P (authenticateOutput c input mref lookup now val i cr)"
  shows "requires P (authenticate c input)"
  unfolding authenticate_def Let_def authenticateAdmitted_def
  by (intro requires_rules, (rule requires_later, (intro only_rules; simp)[1])+)
    (intro requires_rules assms)

lemma requires_authenticateOutput:
  assumes "hasPolicy c"
  shows "requires (policy_allowed_kind ''accept-proof'') (authenticateOutput c input mref lookup now val i cr)"
  unfolding authenticateOutput_def Let_def
  by (intro requires_rules requires_accounted requires_policy_kind [OF assms acceptProofCheck_def]
      requires_first only_rules) simp

section \<open>Completing a challenge\<close>

lemma requires_complete_start:
  assumes "\<And>m l ch pd. requires P (acceptStart c (fld input ''context'') m ''complete'' l ch pd)"
  shows "requires P (complete c input)"
  by (intro requires_complete_open requires_completeChallenge_start assms)

lemma requires_complete_output:
  assumes "\<And>challenge mref lookup now val. requires P (completeOutput c input mref challenge lookup now val)"
  shows "requires P (complete c input)"
  by (intro requires_complete_open requires_completeChallenge_output assms)

lemma requires_completeOutput_proof:
  assumes "hasPolicy c"
  shows "requires (policy_allowed_kind ''accept-proof'') (completeOutput c input mref challenge lookup now val)"
  unfolding completeOutput_def Let_def
  by (intro requires_rules requires_accounted requires_policy_kind [OF assms acceptProofCheck_def]
      requires_first only_rules) simp

lemma requires_resolveAccount:
  assumes "hasPolicy c"
  shows "requires (policy_allowed_kind ''resolve-account'') (resolveAccount c cx mode claim proof now tx)"
  unfolding resolveAccount_def
  by (intro requires_first [OF requires_policy_kind [OF assms resolvePolicyCheck_def]])
    (auto intro!: only_rules simp: createAccount_def Let_def)

lemma requires_completeOutput_resolve:
  assumes "hasPolicy c"
  shows "requires (policy_allowed_kind ''resolve-account'') (completeOutput c input mref challenge lookup now val)"
proof -
  have "requires (policy_allowed_kind ''resolve-account'') (persistCompletion c input mref challenge out now tx)" for out now tx
    unfolding persistCompletion_def Let_def
    by (rule requires_later, (intro only_rules)[1],
        intro requires_first [OF requires_accounted [OF requires_resolveAccount [OF assms]]] only_rules) auto
  then have "requires (policy_allowed_kind ''resolve-account'') (completeInTransaction c input mref challenge lookup out tx)" for out tx
    unfolding completeInTransaction_def Let_def by (intro requires_rules requires_first only_rules) simp_all
  then show ?thesis by (rule requires_completeOutput_tx)
qed

section \<open>Enrolling\<close>

lemma only_any_enroll_steps [only_rules]:
  "only UNIV (enrollIdentity c cx mref lookup resolved claim now tx)"
  "only UNIV (enrollCredential c cx mref lookup material aid ident now tx)"
  unfolding enrollIdentity_def enrollCredential_def Let_def
  by (intro only_rules; simp)+

lemma only_any_persistEnrollment [only_rules]: "only UNIV (persistEnrollment c input mref lookup out now tx)"
  unfolding persistEnrollment_def Let_def by (intro only_rules) auto

lemma only_any_enrollInTransaction [only_rules]:
  "only UNIV (enrollInTransaction c input mref lookup out tx)"
  unfolding enrollInTransaction_def Let_def by (intro only_rules; simp)

lemma only_any_enrollOutput [only_rules]: "only UNIV (enrollOutput c input mref lookup now val)"
  unfolding enrollOutput_def Let_def by (intro only_rules; simp)

lemma only_any_enrollAdmitted [only_rules]: "only UNIV (enrollAdmitted c input mref now validated)"
  unfolding enrollAdmitted_def Let_def by (intro only_rules; simp)

lemma requires_enroll_start:
  assumes "\<And>m l pd. requires P (acceptStart c (fld input ''context'') m ''enroll'' l JUndef pd)"
  shows "requires P (enroll c input)"
  unfolding enroll_def Let_def by (intro requires_rules requires_first [OF assms] only_rules)

lemma requires_enroll_output:
  assumes "\<And>mref lookup now val. requires P (enrollOutput c input mref lookup now val)"
  shows "requires P (enroll c input)"
  unfolding enroll_def Let_def enrollAdmitted_def
  by (intro requires_rules, (rule requires_later, (intro only_rules; simp)[1])+)
    (intro requires_rules assms)

lemma requires_enrollOutput_accept:
  assumes "hasPolicy c"
  shows "requires (policy_allowed_kind ''accept-enrollment'') (enrollOutput c input mref lookup now val)"
  unfolding enrollOutput_def Let_def
  by (intro requires_rules requires_accounted requires_policy_kind [OF assms acceptEnrollmentCheck_def]
      requires_first only_rules) simp

lemma requires_enrollOutput_tx:
  assumes "\<And>out tx. requires P (enrollInTransaction c input mref lookup out tx)"
  shows "requires P (enrollOutput c input mref lookup now val)"
proof -
  have tx: "requires P (runInStoreTransaction c (fld input ''context'') (enrollScopes c input out)
                  (enrollInTransaction c input mref lookup out))" for out
    by (rule requires_runInStoreTransaction [OF assms]) (simp add: enrollScopes_def)
  show ?thesis
    unfolding enrollOutput_def Let_def
    by (intro requires_rules, rule requires_later, (intro only_rules; simp)[1],
        rule requires_first [OF requires_accountedTransaction [OF tx]], intro only_rules)
qed

lemma requires_enrollOutput_resolve:
  assumes "hasPolicy c"
  shows "requires (policy_allowed_kind ''resolve-account'') (enrollOutput c input mref lookup now val)"
proof -
  have "requires (policy_allowed_kind ''resolve-account'') (persistEnrollment c input mref lookup out now tx)" for out now tx
    unfolding persistEnrollment_def Let_def
    by (intro requires_first [OF requires_accounted [OF requires_resolveAccount [OF assms]]] only_rules) auto
  then have "requires (policy_allowed_kind ''resolve-account'') (enrollInTransaction c input mref lookup out tx)" for out tx
    unfolding enrollInTransaction_def Let_def by (intro requires_rules requires_first only_rules) simp_all
  then show ?thesis by (rule requires_enrollOutput_tx)
qed

section \<open>Beginning a challenge\<close>

lemma only_any_beginPreflight [only_rules]: "only UNIV (beginAccountPreflight c cx mode lookup)"
  unfolding beginAccountPreflight_def Let_def by (intro only_rules; simp)

lemma only_any_beginInTransaction [only_rules]:
  "only UNIV (beginInTransaction c input mref lookup cid out tx)"
  unfolding beginInTransaction_def Let_def by (intro only_rules; simp)

lemma only_any_beginOutput [only_rules]: "only UNIV (beginOutput c input mref lookup now cid val)"
  unfolding beginOutput_def Let_def by (intro only_rules; simp)

lemma only_any_beginAdmitted [only_rules]: "only UNIV (beginAdmitted c input mref now validated)"
  unfolding beginAdmitted_def Let_def by (intro only_rules; simp)

lemma requires_begin_start:
  assumes "\<And>m l pd. requires P (acceptStart c (fld input ''context'') m ''begin'' l JUndef pd)"
  shows "requires P (beginOp c input)"
  unfolding beginOp_def Let_def
  by (intro requires_rules, rule requires_later, (intro only_rules; simp)[1])
    (intro requires_first [OF assms] only_rules)

end
