(* ===== verification/CreateAuth.thy ===== *)
theory CreateAuth
  imports ConfigValidation OperationChecks
begin

text \<open>
  \<open>packages/core/src/auth/create-auth.ts\<close>: \<open>createAuth\<close> checks its configuration and returns the
  six operations, each isolated from later changes of its input and closed against throws.
\<close>

datatype authOperation = OpEnroll | OpAuthenticate | OpBegin | OpComplete | OpGetSession | OpRevokeSession

definition contextFrom :: "jsv \<Rightarrow> jsv" where
  "contextFrom v =
     (if \<not> isRecord v \<or> \<not> has_key ''context'' v then JUndef
      else if isAuthContext (fld v ''context'')
      then (case structuredClone (fld v ''context'') of None \<Rightarrow> JUndef | Some cx \<Rightarrow> cx)
      else JUndef)"

text \<open>\<open>isolated.k = copy\<close>, if there is a copy to make; \<open>None\<close> is the throw of a copy.\<close>

definition isolateOperationInput :: "jsv \<Rightarrow> jsv option" where
  "isolateOperationInput v =
     (if \<not> isRecord v then Some v
      else case (if isAuthContext (fld v ''context'')
                 then map_option (\<lambda>cx. [(''context'', cx)]) (structuredClone (fld v ''context'')) else Some []) of
        None \<Rightarrow> None
      | Some context \<Rightarrow> Some (spread v (context
          @ (if isRecord (fld v ''account'') then [(''account'', spread (fld v ''account'') [])] else [])
          @ (if isRecord (fld v ''session'') then [(''session'', spread (fld v ''session'') [])] else []))))"

definition runOperation :: "authOperation \<Rightarrow> 'w cfg \<Rightarrow> jsv \<Rightarrow> ('w, jsv res) auth" where
  "runOperation op c input =
     (case op of
        OpEnroll \<Rightarrow> enroll c input
      | OpAuthenticate \<Rightarrow> authenticate c input
      | OpBegin \<Rightarrow> beginOp c input
      | OpComplete \<Rightarrow> complete c input
      | OpGetSession \<Rightarrow> getSession c input
      | OpRevokeSession \<Rightarrow> bindR (revokeSession c input) (\<lambda>_. okR JUndef))"

definition authCall :: "'w cfg \<Rightarrow> authOperation \<Rightarrow> jsv \<Rightarrow> ('w, jsv res) auth" where
  "authCall c op input =
     catchBoundary (contextFrom input)
       (bindM (liftO (isolateOperationInput input)) (runOperation op c))"

definition configFailure :: "jsv \<Rightarrow> jsv" where
  "configFailure details = obj [(''type'', JStr ''component.failure''), (''component'', JStr ''config''),
     (''reason'', JStr ''CONFIG_INVALID''), (''details'', details)]"

text \<open>\<open>c\<close> is the model's record for the value \<open>config\<close>; see \<open>represents\<close> below.\<close>

definition createAuth :: "jsv \<Rightarrow> 'w cfg \<Rightarrow> jsv + (authOperation \<Rightarrow> jsv \<Rightarrow> ('w, jsv res) auth)" where
  "createAuth config c =
     (case validateConfig config of
        Some details \<Rightarrow> Inl (configFailure details)
      | None \<Rightarrow> Inr (authCall c))"

section \<open>The configuration as the operations read it\<close>

definition methodConfigOf :: "jsv \<Rightarrow> methodConfig" where
  "methodConfigOf m =
     \<lparr>methodId = fld m ''methodId'', methodKind = fld m ''methodKind'',
      operations = filter (\<lambda>name. truthy (fld (fld m ''operations'') name)) operationNames\<rparr>"

definition represents :: "jsv \<Rightarrow> 'w cfg \<Rightarrow> bool" where
  "represents config c =
     (hasPolicy c = truthy (fld config ''policy'')
      \<and> hasGuard c = truthy (fld config ''guard'')
      \<and> hasAfterAttempt c = is_fun (fld (fld config ''guard'') ''afterAttempt'')
      \<and> hasEventSink c = (truthy (fld config ''eventSink'') \<and> is_fun (fld (fld config ''eventSink'') ''emit''))
      \<and> hasEffects c = truthy (fld config ''effects'')
      \<and> hasChallenges c = truthy (fld (fld (fld config ''store'') ''ephemeral'') ''challenges'')
      \<and> (txRun c \<noteq> None) = truthy (fld (fld config ''store'') ''transaction'')
      \<and> transactionScopes c = fld (fld config ''effects'') ''transactionScopes''
      \<and> methods c = map (\<lambda>(key, m). (key, methodConfigOf m)) (obj_entries (fld config ''methods''))
      \<and> defaultTtlSeconds c = fld (fld config ''session'') ''defaultTtlSeconds''
      \<and> maxTtlSeconds c = fld (fld config ''session'') ''maxTtlSeconds'')"

section \<open>What an accepted configuration provides\<close>

lemma validateConfig_None:
  assumes "validateConfig config = None"
  shows "isRecord config" and "configIssues config = []"
  using assms by (auto simp: validateConfig_def split: if_splits)

lemma requireFunction_Nil: "requireFunction owner key path = [] \<longleftrightarrow> isRecord owner \<and> is_fun (fld owner key)"
  by (simp add: requireFunction_def)

lemma validateOptionalPort_Nil:
  "validateOptionalPort port meth path = [] \<longleftrightarrow> port = JUndef \<or> isRecord port \<and> is_fun (fld port meth)"
  by (auto simp: validateOptionalPort_def requireFunction_Nil)

lemma if_Nil: "(if b then x # xs else []) = [] \<longleftrightarrow> \<not> b"
  by simp

text \<open>The single checks behind \<open>configIssues config = []\<close>.\<close>

lemma configIssues_Nil:
  assumes "configIssues config = []"
  shows "isSessionTtl (fld (sessionOf config) ''defaultTtlSeconds'')"
    and "fld (sessionOf config) ''maxTtlSeconds'' = JUndef
      \<or> isSessionTtl (fld (sessionOf config) ''maxTtlSeconds'')
        \<and> \<not> number_less (num_val (fld (sessionOf config) ''maxTtlSeconds'')) (fld (sessionOf config) ''defaultTtlSeconds'')"
    and "isPlainObject (fld config ''methods'')"
    and "isRecord (fld config ''store'')"
    and "validateStoreConfig (fld config ''store'') = []"
    and "validateOptionalPort (fld config ''guard'') ''afterAttempt'' [''guard'', ''afterAttempt''] = []"
    and "validateOptionalPort (fld config ''eventSink'') ''emit'' [''eventSink'', ''emit''] = []"
    and "validateTransactionScopes (fld config ''effects'') = []"
    and "fld config ''policy'' = JUndef \<or> is_fun (fld config ''policy'')"
    and "\<And>key m. (key, m) \<in> set (methodsOf config) \<Longrightarrow> validateMethod (key, m) = []"
    and "needsChallengeStore config \<Longrightarrow> isRecord (challengesOf (fld config ''store''))"
  using assms unfolding configIssues_def Let_def append_is_Nil_conv if_Nil concat_eq_Nil_conv
  by (auto simp del: fld.simps fld_obj)

lemma validateMethod_Nil:
  assumes "validateMethod (key, m) = []"
  shows "fld m ''methodId'' = JStr key" and "isStableMethodId (fld m ''methodId'')"
    and "isNonEmptyString (fld m ''methodKind'')" and "isRecord m" and "isRecord (fld m ''operations'')"
  using assms by (auto simp: validateMethod_def simp del: fld.simps fld_obj split: if_splits)

lemma fld_sessionOf [simp]: "fld (sessionOf config) k = fld (fld config ''session'') k"
  unfolding sessionOf_def by (cases "fld config ''session''") auto

lemma methodsOf_plain: "isPlainObject (fld config ''methods'') \<Longrightarrow> methodsOf config = obj_entries (fld config ''methods'')"
  by (simp add: methodsOf_def)

text \<open>The lifetimes an accepted configuration allows.\<close>

definition ttlConfigured :: "'w cfg \<Rightarrow> bool" where
  "ttlConfigured c = (\<exists>d. defaultTtlSeconds c = JNum d \<and> 0 < d \<and> d \<le> max_session_ttl_seconds
     \<and> (maxTtlSeconds c = JUndef
        \<or> (\<exists>m. maxTtlSeconds c = JNum m \<and> d \<le> m \<and> m \<le> max_session_ttl_seconds)))"

lemma isSessionTtl_iff: "isSessionTtl v \<longleftrightarrow> (\<exists>n. v = JNum n \<and> 0 < n \<and> n \<le> max_session_ttl_seconds)"
  by (cases v) (auto simp: isSessionTtl_def max_session_ttl_seconds_def max_safe_integer_def)

lemma represents_find:
  assumes "represents config c" and "findMethod c mid = Some mc"
  obtains key m where "(key, m) \<in> set (obj_entries (fld config ''methods''))" and "mc = methodConfigOf m"
proof -
  from assms have "(str_or mid '''', mc) \<in> set (map (\<lambda>(key, m). (key, methodConfigOf m)) (obj_entries (fld config ''methods'')))"
    using findMethod_Some [OF assms(2)] by (simp add: represents_def del: fld.simps fld_obj)
  with that show ?thesis by auto
qed

lemma accepted_methods:
  assumes "validateConfig config = None" and "represents config c"
  shows "methodsConfigured c"
proof -
  note ok = configIssues_Nil [OF validateConfig_None(2) [OF assms(1)]]
  have each: "methodId mc = JStr key \<and> isStableMethodId (methodId mc) \<and> isNonEmptyString (methodKind mc)"
    if "(key, m) \<in> set (obj_entries (fld config ''methods''))" "mc = methodConfigOf m" for key m mc
    using validateMethod_Nil [OF ok(10)] that methodsOf_plain [OF ok(3)]
    by (simp add: methodConfigOf_def del: fld.simps fld_obj)
  have "methods c = map (\<lambda>(key, m). (key, methodConfigOf m)) (obj_entries (fld config ''methods''))"
    using assms(2) unfolding represents_def by blast
  then show ?thesis
    unfolding methodsConfigured_def list_all_iff using each by (auto simp del: fld.simps fld_obj)
qed

lemma represents_ttl:
  assumes "represents config c"
  shows "defaultTtlSeconds c = fld (fld config ''session'') ''defaultTtlSeconds''"
    and "maxTtlSeconds c = fld (fld config ''session'') ''maxTtlSeconds''"
  using assms unfolding represents_def by blast+

lemma number_less_JNum: "\<not> number_less n (JNum m) \<longleftrightarrow> m \<le> n"
  by auto

lemma accepted_ttl:
  assumes "validateConfig config = None" and "represents config c"
  shows "ttlConfigured c"
proof -
  note ok = configIssues_Nil [OF validateConfig_None(2) [OF assms(1)]]
  from ok(1) obtain d where d: "defaultTtlSeconds c = JNum d" "0 < d" "d \<le> max_session_ttl_seconds"
    unfolding isSessionTtl_iff fld_sessionOf represents_ttl [OF assms(2)] by blast
  have "maxTtlSeconds c = JUndef \<or> (\<exists>m. maxTtlSeconds c = JNum m \<and> d \<le> m \<and> m \<le> max_session_ttl_seconds)"
    using ok(2) d(1) unfolding isSessionTtl_iff fld_sessionOf represents_ttl [OF assms(2), symmetric]
    by auto
  with d show ?thesis unfolding ttlConfigured_def by blast
qed

lemma accepted_guard:
  assumes "validateConfig config = None" and "represents config c" and "hasGuard c"
  shows "hasAfterAttempt c"
proof -
  note ok = configIssues_Nil [OF validateConfig_None(2) [OF assms(1)]]
  have "fld config ''guard'' \<noteq> JUndef" using assms(2,3) by (auto simp: represents_def simp del: fld.simps fld_obj)
  with ok(6) assms(2) show ?thesis
    by (simp add: validateOptionalPort_Nil represents_def del: fld.simps fld_obj)
qed

lemma challengesOf_truthy: "isRecord (challengesOf store) \<Longrightarrow> truthy (fld (fld store ''ephemeral'') ''challenges'')"
  by (auto simp: challengesOf_def isRecord_truthy simp del: fld.simps fld_obj split: if_splits)

lemma accepted_challenges:
  assumes "validateConfig config = None" and "represents config c" and "findMethod c mid = Some mc"
    and "''begin'' \<in> set (operations mc) \<or> ''complete'' \<in> set (operations mc)"
  shows "hasChallenges c"
proof -
  note ok = configIssues_Nil [OF validateConfig_None(2) [OF assms(1)]]
  from represents_find [OF assms(2,3)] obtain key m
    where m: "(key, m) \<in> set (methodsOf config)" "mc = methodConfigOf m"
    using methodsOf_plain [OF ok(3)] by metis
  have "fld (fld m ''operations'') ''begin'' \<noteq> JUndef \<or> fld (fld m ''operations'') ''complete'' \<noteq> JUndef"
    using assms(4) m(2) by (auto simp: methodConfigOf_def simp del: fld.simps fld_obj)
  with m validateMethod_Nil [OF ok(10) [OF m(1)]] have "needsChallengeStore config"
    unfolding needsChallengeStore_def list_ex_iff by blast
  with ok(11) challengesOf_truthy assms(2) show ?thesis
    by (simp add: represents_def del: fld.simps fld_obj)
qed

lemma authCall_Inr:
  assumes "authCall c op input s = (Ret (Inr v), t)"
  obtains isolated where "isolateOperationInput input = Some isolated"
    and "runOperation op c isolated s = (Ret (Inr v), t)"
  using catchBoundary_Inr [OF assms [unfolded authCall_def]] by (elim bindM_RetE) auto


end
