(* ===== verification/FailureSafety.thy ===== *)
theory FailureSafety
  imports CreateAuth
begin

text \<open>
  Every failure of every operation is safe to hand out: its public code is one of the ten codes
  of the contract and its internal reason is a short text without control characters, whatever
  the collaborators answered. The rules follow the composition of the operations.
\<close>

definition safe_failure :: "authFailure \<Rightarrow> bool" where
  "safe_failure e = (safe_reason (internalReason e) \<and> publicCode e \<in> set publicCodes)"

definition fails_safely :: "('s, 'a res) M \<Rightarrow> bool" where
  "fails_safely m = (\<forall>s e t. m s = (Ret (Inl e), t) \<longrightarrow> safe_failure e)"

named_theorems safe_rules \<open>steps that only fail safely\<close>

lemma safely_I: "(\<And>s e t. m s = (Ret (Inl e), t) \<Longrightarrow> safe_failure e) \<Longrightarrow> fails_safely m"
  by (auto simp: fails_safely_def)

lemma safely_D: "fails_safely m \<Longrightarrow> m s = (Ret (Inl e), t) \<Longrightarrow> safe_failure e"
  by (auto simp: fails_safely_def)

definition public_code :: "string option \<Rightarrow> bool" where
  "public_code code = (case code of None \<Rightarrow> True | Some p \<Rightarrow> p \<in> set publicCodes)"

lemma public_code_simps [simp]: "public_code None" "public_code (Some p) \<longleftrightarrow> p \<in> set publicCodes"
  by (simp_all add: public_code_def)

lemma safe_authErr: "public_code code \<Longrightarrow> safe_failure (authErr cx r code t)"
  using authErr_safe [of cx r code t] unfolding safe_failure_def
  by (cases code) (auto simp: authErr_def Let_def mapReason_public simp del: normalizeInternalReason.simps)

lemma safe_storeFailure: "safe_failure (storeFailure cx e)"
  using storeFailure_safe by (simp add: safe_failure_def)

lemma safe_transactionFailed: "safe_failure (transactionFailed cx)"
  unfolding transactionFailed_def by (rule safe_authErr) (simp add: publicCodes_def)

section \<open>Composition\<close>

lemma safely_okR [safe_rules]: "fails_safely (okR a)"
  by (simp add: fails_safely_def)

lemma safely_throw [safe_rules]: "fails_safely throwM"
  by (simp add: fails_safely_def)

lemma safely_errR [safe_rules]: "public_code code \<Longrightarrow> fails_safely (errR cx r code)"
  by (auto simp: fails_safely_def errR_def safe_authErr)

lemma safely_bindM [safe_rules]: "(\<And>a. fails_safely (f a)) \<Longrightarrow> fails_safely (bindM m f)"
  unfolding fails_safely_def by (auto elim!: bindM_RetE)

lemma safely_bindR [safe_rules]:
  assumes "fails_safely m" and "\<And>a. fails_safely (f a)" shows "fails_safely (bindR m f)"
proof (rule safely_I)
  fix s e t
  assume "bindR m f s = (Ret (Inl e), t)"
  then obtain r u where m: "m s = (Ret r, u)"
    and rest: "(case r of Inl e \<Rightarrow> ret (Inl e) | Inr a \<Rightarrow> f a) u = (Ret (Inl e), t)"
    unfolding bindR_def by (rule bindM_RetE)
  show "safe_failure e"
    using m rest safely_D [OF assms(1)] safely_D [OF assms(2)] by (cases r) auto
qed

lemma safely_if [safe_rules]:
  "(b \<Longrightarrow> fails_safely m) \<Longrightarrow> (\<not> b \<Longrightarrow> fails_safely n) \<Longrightarrow> fails_safely (if b then m else n)"
  by simp

lemma safely_case_option [safe_rules]:
  "fails_safely m \<Longrightarrow> (\<And>a. x = Some a \<Longrightarrow> fails_safely (f a))
     \<Longrightarrow> fails_safely (case x of None \<Rightarrow> m | Some a \<Rightarrow> f a)"
  by (cases x) simp_all

lemma safely_case_sum [safe_rules]:
  "(\<And>a. x = Inl a \<Longrightarrow> fails_safely (f a)) \<Longrightarrow> (\<And>b. x = Inr b \<Longrightarrow> fails_safely (g b))
     \<Longrightarrow> fails_safely (case x of Inl a \<Rightarrow> f a | Inr b \<Rightarrow> g b)"
  by (cases x) simp_all

lemma safely_case_prod [safe_rules]:
  "(\<And>a b. fails_safely (f a b)) \<Longrightarrow> fails_safely (case x of (a, b) \<Rightarrow> f a b)"
  by (cases x) simp

lemma safely_Let [safe_rules]: "(\<And>a. fails_safely (f a)) \<Longrightarrow> fails_safely (Let x f)"
  by (simp add: Let_def)

section \<open>Collaborators\<close>

lemma safely_storeR [safe_rules]: "fails_safely (storeR cx c p args)"
  unfolding storeR_def fails_safely_def
  by (auto elim!: bindM_RetE split: sum.splits simp: safe_storeFailure)

lemma isPublicCode_str: "isPublicCode v \<Longrightarrow> str_or v d \<in> set publicCodes"
  by (auto simp: isPublicCode_def)

lemma policy_hint_public:
  assumes "isPolicyDecision d" and "\<not> truthy (fld d ''allow'')"
  shows "str_or (fld d ''publicCodeHint'') ''AUTHORIZATION_FAILED'' \<in> set publicCodes"
proof -
  from assms have "fld d ''publicCodeHint'' = JUndef \<or> isPublicCode (fld d ''publicCodeHint'')"
    by (auto simp: isPolicyDecision_def simp del: fld.simps fld_obj split: if_splits)
  then show ?thesis
  proof
    assume "fld d ''publicCodeHint'' = JUndef"
    then show ?thesis by (simp add: publicCodes_def)
  qed (rule isPublicCode_str)
qed

lemma safely_policy [safe_rules]: "fails_safely (policy c check)"
  unfolding policy_def
  by (intro safe_rules) (auto simp: publicCodes_def dest: policy_hint_public)

lemma guard_hint_public:
  assumes "isGuardResult g" and "fld g ''ok'' \<noteq> JBool False" and "\<not> truthy (fld (fld g ''value'') ''allow'')"
  shows "str_or (fld (fld g ''value'') ''publicCodeHint'') ''RATE_LIMITED'' \<in> set publicCodes"
proof -
  from isGuardResult_okD [OF assms(1,2)] have "isGuardDecision (fld g ''value'')" by blast
  with assms(3) have "fld (fld g ''value'') ''publicCodeHint'' \<in> {JUndef, JStr ''RATE_LIMITED'', JStr ''TEMPORARILY_UNAVAILABLE''}"
    unfolding isGuardDecision_def by (simp del: fld.simps fld_obj split: if_splits)
  then show ?thesis by (auto simp: publicCodes_def simp del: fld.simps fld_obj)
qed

lemma safely_failAttempt [safe_rules]:
  "public_code code \<Longrightarrow> fails_safely (failAttempt c cx m op l r code ch co)"
  unfolding fails_safely_def by (auto dest!: failAttempt_Ret intro: safe_authErr)

lemma safely_ret_Inl: "safe_failure e \<Longrightarrow> fails_safely (ret (Inl e))"
  by (simp add: fails_safely_def)

lemma safely_then_fail:
  assumes "fails_safely m" and "\<And>e s r t. f e s = (Ret r, t) \<Longrightarrow> r = Inl e" and "\<And>a. fails_safely (g a)"
  shows "fails_safely (bindM m (\<lambda>r. case r of Inl e \<Rightarrow> f e | Inr a \<Rightarrow> g a))"
proof (rule safely_I)
  fix s e t
  assume "bindM m (\<lambda>r. case r of Inl e \<Rightarrow> f e | Inr a \<Rightarrow> g a) s = (Ret (Inl e), t)"
  then obtain r u where "m s = (Ret r, u)" "(case r of Inl e \<Rightarrow> f e | Inr a \<Rightarrow> g a) u = (Ret (Inl e), t)"
    by (rule bindM_RetE)
  with assms(2) safely_D [OF assms(1)] safely_D [OF assms(3)] show "safe_failure e"
    by (cases r) fastforce+
qed

lemma safely_accounted [safe_rules]: "fails_safely m \<Longrightarrow> fails_safely (accounted c cx me op l ch m)"
  unfolding accounted_def by (erule safely_then_fail) (auto elim!: bindM_RetE intro: safe_rules)

lemma safely_accountedTransaction [safe_rules]:
  "fails_safely m \<Longrightarrow> fails_safely (accountedTransaction c cx me op l ch m)"
  unfolding accountedTransaction_def
  by (erule safely_then_fail) (auto elim!: bindM_RetE intro: safe_rules split: if_splits)

lemma safely_storeOrFail [safe_rules]: "fails_safely (storeOrFail c cx m op l ch p args)"
  unfolding storeOrFail_def by (intro safe_rules) (simp add: mapReasonV_def mapReason_public)

lemma safely_acceptStart [safe_rules]: "fails_safely (acceptStart c cx m op l ch pd)"
proof -
  have p: "fails_safely (bindM (policy c check) (\<lambda>r. case r of
      Inl e \<Rightarrow> bindM (afterAttempt c cx m op l False (Some (internalReason e)) ch None) (\<lambda>_. ret (Inl e))
    | Inr _ \<Rightarrow> bindM (emitStartedEvent c cx m op) (\<lambda>_. ret r)))" for check
    by (rule safely_I, erule bindM_RetE)
      (auto elim!: bindM_RetE split: sum.splits dest: safely_D [OF safely_policy])
  have q: "fails_safely (bindM (policy c check) (\<lambda>r. case r of
      Inl e \<Rightarrow> ret (Inl e) | Inr _ \<Rightarrow> bindM (emitStartedEvent c cx m op) (\<lambda>_. ret r)))" for check
    by (rule safely_I, erule bindM_RetE)
      (auto elim!: bindM_RetE split: sum.splits dest: safely_D [OF safely_policy])
  show ?thesis
    unfolding acceptStart_def Let_def
    by (intro safe_rules p q safely_ret_Inl safe_authErr)
      (auto simp: publicCodes_def simp del: fld.simps fld_obj dest: guard_hint_public)
qed

section \<open>Transactions\<close>

definition safe_closure :: "'a closure \<Rightarrow> bool" where
  "safe_closure cl = (\<forall>e. callbackResult cl = Some (Inl e) \<longrightarrow> safe_failure e)"

lemma callback_safe:
  assumes "callback cx scopes fn tx cl s = (r, cl', t)" and "\<And>tx. fails_safely (fn tx)" and "safe_closure cl"
  shows "safe_closure cl'"
proof -
  have "safe_failure e" if "fn tx s = (Ret (Inl e), t)" for e
    using assms(2) that by (rule safely_D)
  with assms(1,3) safe_transactionFailed show ?thesis
    by (auto simp: callback_def Let_def safe_closure_def
        split: if_splits prod.splits outcome.splits sum.splits)
qed

lemma exec_tx_safe:
  assumes "exec_tx p (callback cx scopes fn) cl tr = (r, cl', t)" and "\<And>tx. fails_safely (fn tx)"
    and "safe_closure cl"
  shows "safe_closure cl'"
  using assms(1,3)
proof (induction p arbitrary: cl tr)
  case (TxCall tx w k)
  obtain r1 cl1 s1 where cb: "callback cx scopes fn tx cl \<lparr>world = w, trace = tr\<rparr> = (r1, cl1, s1)"
    by (metis prod_cases3)
  with TxCall.prems(1) have "exec_tx (k r1 (world s1)) (callback cx scopes fn) cl1 (trace s1) = (r, cl', t)"
    by simp
  with TxCall.IH callback_safe [OF cb assms(2) TxCall.prems(2)] show ?case by (meson rangeI)
qed auto

lemma safely_runInStoreTransaction [safe_rules]:
  assumes "\<And>tx. fails_safely (fn tx)"
  shows "fails_safely (runInStoreTransaction c cx scopes fn)"
proof (rule safely_I)
  fix s e t
  assume run: "runInStoreTransaction c cx scopes fn s = (Ret (Inl e), t)"
  show "safe_failure e"
  proof (cases "scopes = [] \<or> txRun c = None")
    case True
    with run assms safe_transactionFailed show ?thesis
      by (auto simp: runInStoreTransaction_def dest: safely_D split: if_splits)
  next
    case False
    then obtain tr where tr: "txRun c = Some tr" "scopes \<noteq> []" by auto
    obtain answer cl u where ex: "exec_tx (tr (obj [(''requiredScopes'', JArr scopes)]) (world s))
        (callback cx scopes fn) fresh_closure (trace s) = (answer, cl, u)"
      by (metis prod_cases3)
    with run tr have "settle cx answer cl = Inl e" by (auto simp: runInStoreTransaction_def)
    moreover have "safe_closure cl"
      by (rule exec_tx_safe [OF ex assms]) (simp add: safe_closure_def fresh_closure_def)
    ultimately show ?thesis
      using settle_Inl safe_transactionFailed by (fastforce simp: safe_closure_def)
  qed
qed

section \<open>The operations\<close>

lemma token_reason: "fails_safely (errR cx (str_or v '''') (Some ''TEMPORARILY_UNAVAILABLE''))"
  by (rule safely_errR) (simp add: publicCodes_def)

lemma isMethodFailure_hint: "isMethodFailure e \<Longrightarrow> public_code (Some (str_or (fld e ''safePublicCodeHint'') (mapReasonV v)))"
  by (cases "fld e ''safePublicCodeHint'' = JUndef")
    (auto simp: isMethodFailure_def mapReasonV_def mapReason_public isPublicCode_str simp del: fld.simps fld_obj)

lemma isMethodFailure_default: "isMethodFailure methodFailure"
  by code_simp

lemma runOutcome_Inl: "runOutcome v = Inl e \<Longrightarrow> isMethodFailure e"
  by (auto simp: runOutcome_def isMethodFailure_default simp del: fld.simps fld_obj split: if_splits option.splits)

lemma invokeMethodRun_Inl: "invokeMethodRun c key op i cx s = (Ret (Inl e), t) \<Longrightarrow> isMethodFailure e"
  by (auto simp: invokeMethodRun_def isMethodFailure_default elim!: bindM_RetE dest: runOutcome_Inl
      split: option.splits)

lemma safely_failMethodRun: "isMethodFailure e \<Longrightarrow> fails_safely (failMethodRun c cx m op l ch e)"
  unfolding failMethodRun_def by (intro safely_failAttempt isMethodFailure_hint)

lemma safely_run [safe_rules]:
  assumes "\<And>e. isMethodFailure e \<Longrightarrow> fails_safely (f (Inl e))" and "\<And>v. fails_safely (f (Inr v))"
  shows "fails_safely (bindM (invokeMethodRun c key op i cx) f)"
proof (rule safely_I)
  fix s e t
  assume "bindM (invokeMethodRun c key op i cx) f s = (Ret (Inl e), t)"
  then obtain r u where r: "invokeMethodRun c key op i cx s = (Ret r, u)" "f r u = (Ret (Inl e), t)"
    by (rule bindM_RetE)
  show "safe_failure e"
    using r safely_D [OF assms(1)] safely_D [OF assms(2)] invokeMethodRun_Inl by (cases r) blast+
qed

lemma safely_createSession [safe_rules]: "fails_safely (createSession c cx aid proof request now tx)"
  unfolding createSession_def by (intro safe_rules token_reason) (simp_all add: publicCodes_def)


lemma safely_getSession [safe_rules]: "fails_safely (getSession c input)"
  unfolding getSession_def Let_def by (intro safe_rules token_reason) (simp_all add: publicCodes_def)

lemma safely_revokeSession [safe_rules]: "fails_safely (revokeSession c input)"
  unfolding revokeSession_def Let_def by (intro safe_rules) (simp_all add: publicCodes_def)

lemma safely_findIdentity [safe_rules]: "fails_safely (findIdentity c cx lookup tx)"
  unfolding findIdentity_def by (intro safe_rules) (simp_all add: publicCodes_def)

lemma safely_activeAccount [safe_rules]: "fails_safely (activeAccount c cx aid tx)"
  unfolding activeAccount_def by (intro safe_rules) (simp_all add: publicCodes_def)

lemma safely_resolveAccount [safe_rules]: "fails_safely (resolveAccount c cx mode claim proof now tx)"
  unfolding resolveAccount_def createAccount_def Let_def by (intro safe_rules) (simp_all add: publicCodes_def)

lemma safely_createIdentityForClaim [safe_rules]: "fails_safely (createIdentityForClaim c cx aid claim now tx)"
  unfolding createIdentityForClaim_def Let_def by (intro safe_rules) (simp_all add: publicCodes_def)

lemma safely_dispatchRequiredSideEffects [safe_rules]:
  "fails_safely (dispatchRequiredSideEffects c cx effects now tx)"
  unfolding dispatchRequiredSideEffects_def dispatchSelectedSideEffects_def dispatchSideEffects_def
    dispatchFailure_def Let_def
  by (intro safe_rules) (simp_all add: publicCodes_def)

lemma safely_optionalSession [safe_rules]: "fails_safely (optionalSession c w cx aid p r now tx)"
  unfolding optionalSession_def by (intro safe_rules)

lemma safely_authenticate_steps [safe_rules]:
  "fails_safely (findCredential c cx mref lookup ident)"
  "fails_safely (authenticateInTransaction c input mref lookup out i cr tx)"
  unfolding findCredential_def authenticateInTransaction_def persistAuthentication_def replaceMaterial_def Let_def
  by (intro safe_rules; simp add: publicCodes_def)+

lemma safely_authenticate [safe_rules]: "fails_safely (authenticate c input)"
  unfolding authenticate_def authenticateAdmitted_def authenticateOutput_def Let_def
  by (intro safe_rules safely_failMethodRun) (simp_all add: publicCodes_def)

lemma safely_enroll_steps [safe_rules]:
  "fails_safely (enrollIdentity c cx mref lookup resolved claim now tx)"
  "fails_safely (enrollCredential c cx mref lookup material aid ident now tx)"
  unfolding enrollIdentity_def enrollCredential_def Let_def
  by (intro safe_rules; simp add: publicCodes_def)+

lemma safely_enroll [safe_rules]: "fails_safely (enroll c input)"
  unfolding enroll_def enrollAdmitted_def enrollOutput_def enrollInTransaction_def persistEnrollment_def Let_def
  by (intro safe_rules safely_failMethodRun) (simp_all add: publicCodes_def)

lemma safely_beginOp [safe_rules]: "fails_safely (beginOp c input)"
  unfolding beginOp_def beginAccountPreflight_def beginAdmitted_def beginOutput_def beginInTransaction_def Let_def
  by (intro safe_rules safely_failMethodRun) (simp_all add: publicCodes_def)

lemma safely_failMethodComplete:
  "isMethodFailure e \<Longrightarrow> fails_safely (failMethodComplete c input mref challenge e)"
  unfolding failMethodComplete_def Let_def
  by (intro safe_rules safely_failMethodRun) (simp_all add: publicCodes_def)

lemma safely_completion_steps [safe_rules]:
  "fails_safely (completionIdentity c cx mref lookup cid resolved claim now tx)"
  "fails_safely (consumeChallenge c cx challenge now tx)"
  "fails_safely (loadChallenge c input now)"
  unfolding completionIdentity_def consumeChallenge_def loadChallenge_def Let_def
  by (intro safe_rules; simp add: publicCodes_def)+

lemma safely_complete [safe_rules]: "fails_safely (complete c input)"
  unfolding complete_def completeChallenge_def completeOutput_def completeInTransaction_def persistCompletion_def Let_def
  by (intro safe_rules safely_failMethodComplete) (simp_all add: publicCodes_def)

lemma safely_runOperation: "fails_safely (runOperation op c input)"
  unfolding runOperation_def
  by (cases op) (simp_all only: authOperation.case, (intro safe_rules)+)

lemma safely_authCall: "fails_safely (authCall c op input)"
  unfolding authCall_def catchBoundary_def fails_safely_def
proof (intro allI impI)
  fix s e t
  assume "catchM (bindM (liftO (isolateOperationInput input)) (runOperation op c))
    (ret (Inl (authErr (contextFrom input) ''INTERNAL'' (Some ''INTERNAL'') JUndef))) s = (Ret (Inl e), t)"
  then show "safe_failure e"
    by (rule catchM_RetE) (auto elim!: bindM_RetE dest: safely_D [OF safely_runOperation]
        intro!: safe_authErr simp: publicCodes_def)
qed

lemma nothrow_authCall: "nothrow (authCall c op input)"
  unfolding authCall_def by (rule nothrow_catchBoundary)


end
