(* ===== verification/Scripted.thy ===== *)
theory Scripted
  imports FailureSafety
begin

text \<open>
  Concrete runs. The world of these examples is a script: the list of the calls that will be
  made and their outcomes. A call that is not the next one of the script throws, so a run that
  succeeds has made exactly the calls of its script. The transaction runner opens one
  transaction that covers what was asked for, runs the callback and hands its answer on.
\<close>

type_synonym script = "(port \<times> jsv outcome) list"

definition scripted :: "port \<Rightarrow> jsv list \<Rightarrow> script \<Rightarrow> jsv outcome \<times> script" where
  "scripted p args w = (case w of [] \<Rightarrow> (Throw, [])
     | (q, r) # rest \<Rightarrow> if p = q then (r, rest) else (Throw, w))"

definition scripted_tx :: "jsv \<Rightarrow> script \<Rightarrow> script txprog" where
  "scripted_tx request w =
     TxCall (obj [(''transactionId'', JStr ''tx-1''), (''covers'', fld request ''requiredScopes'')]) w
       (\<lambda>r w2. TxDone r w2)"

definition scripted_cfg :: "script cfg" where
  "scripted_cfg =
     \<lparr>call = scripted, txRun = Some scripted_tx, hasPolicy = True, hasGuard = True,
      hasAfterAttempt = True, hasEventSink = False, hasEffects = True, hasChallenges = True,
      transactionScopes = JArr [JStr ''effects''],
      methods = [(''email.otp'', \<lparr>methodId = JStr ''email.otp'', methodKind = JStr ''otp'',
        operations = [''enroll'', ''authenticate'', ''begin'', ''complete'']\<rparr>)],
      defaultTtlSeconds = JNum 3600, maxTtlSeconds = JNum 86400\<rparr>"

definition start :: "script \<Rightarrow> script st" where
  "start w = \<lparr>world = w, trace = []\<rparr>"

definition answer :: "jsv \<Rightarrow> jsv outcome" where
  "answer v = Ret (obj [(''ok'', JBool True), (''value'', v)])"

definition at :: "int \<Rightarrow> jsv" where
  "at ms = JDate (Some ms)"

section \<open>Records\<close>

definition demo_context :: jsv where
  "demo_context = obj [(''tenantId'', JStr ''t''),
     (''actor'', obj [(''type'', JStr ''account''), (''accountId'', JStr ''a1'')])]"

definition demo_account :: jsv where
  "demo_account = obj [(''tenantId'', JStr ''t''), (''accountId'', JStr ''a1''),
     (''status'', JStr ''active''), (''createdAt'', at 5), (''updatedAt'', at 5)]"

definition demo_hash :: jsv where
  "demo_hash = obj [(''type'', JStr ''protected-value''), (''scheme'', JStr ''sha256''),
     (''redacted'', redacted_text), (''revealForPersistence'', JFun (Some (JStr ''digest''))),
     (''toJSON'', JFun (Some redacted_text))]"

definition demo_token :: jsv where
  "demo_token = obj [(''type'', JStr ''raw-secret''), (''redacted'', redacted_text),
     (''reveal'', JFun (Some (JStr ''bearer''))), (''toJSON'', JFun (Some redacted_text))]"

definition demo_session :: jsv where
  "demo_session = obj [(''tenantId'', JStr ''t''), (''sessionId'', JStr ''s1''),
     (''accountId'', JStr ''a1''), (''tokenHash'', demo_hash), (''status'', JStr ''active''),
     (''issuedAt'', at 10), (''expiresAt'', at 3600010), (''createdAt'', at 10), (''updatedAt'', at 10)]"

section \<open>Running a script\<close>

text \<open>
  A run is evaluated by rewriting: one rule per construct, one per collaborator call, and weak
  congruences, so that what comes after a call is only looked at once the call has answered.
\<close>

lemma run_bind: "bindM m f s = (case m s of (Ret a, t) \<Rightarrow> f a t | (Throw, t) \<Rightarrow> (Throw, t))"
  by (simp add: bindM_def)

lemma run_bindR:
  "bindR m f s = (case m s of (Ret (Inr a), t) \<Rightarrow> f a t | (Ret (Inl e), t) \<Rightarrow> (Ret (Inl e), t)
     | (Throw, t) \<Rightarrow> (Throw, t))"
  by (auto simp add: bindM_def bindR_def split: prod.splits outcome.splits sum.splits)

lemma run_attempt:
  "attemptM m s = (case m s of (Ret a, t) \<Rightarrow> (Ret (Some a), t) | (Throw, t) \<Rightarrow> (Ret None, t))"
  by (simp add: attemptM_def)

lemma run_catch:
  "catchM m h s = (case m s of (Ret a, t) \<Rightarrow> (Ret a, t) | (Throw, t) \<Rightarrow> h t)"
  by (simp add: catchM_def)

lemma run_option: "case_option m f x s = (case x of None \<Rightarrow> m s | Some a \<Rightarrow> f a s)"
  by (cases x) simp_all

lemma run_sum: "case_sum m f x s = (case x of Inl a \<Rightarrow> m a s | Inr a \<Rightarrow> f a s)"
  by (cases x) simp_all

lemma run_call:
  "callPort scripted_cfg p args \<lparr>world = (p, r) # w, trace = tr\<rparr>
     = (r, \<lparr>world = w, trace = tr @ [Call p args r]\<rparr>)"
  by (simp add: callPort_def scripted_cfg_def scripted_def)

lemma run_now:
  "readNow scripted_cfg \<lparr>world = (ClockNow, Ret (at n)) # w, trace = tr\<rparr>
     = (Ret (Some (at n)), \<lparr>world = w, trace = tr @ [Call ClockNow [] (Ret (at n))]\<rparr>)"
  by (simp add: readNow_def bindM_def run_call attemptM_def at_def)

lemma run_store:
  "storeR cx scripted_cfg p args \<lparr>world = (p, answer v) # w, trace = tr\<rparr>
     = (Ret (Inr v), \<lparr>world = w, trace = tr @ [Call p args (answer v)]\<rparr>)"
  by (simp add: storeR_def storeCall_def bindM_def readProp_def run_call answer_def nullish_def)

lemma run_try:
  "attemptM (callPort scripted_cfg p args) \<lparr>world = (p, Ret v) # w, trace = tr\<rparr>
     = (Ret (Some v), \<lparr>world = w, trace = tr @ [Call p args (Ret v)]\<rparr>)"
  by (simp add: attemptM_def run_call)

lemma run_storeOrFail:
  "storeOrFail scripted_cfg cx m op l ch p args \<lparr>world = (p, answer v) # w, trace = tr\<rparr>
     = (Ret (Inr v), \<lparr>world = w, trace = tr @ [Call p args (answer v)]\<rparr>)"
  by (simp add: storeOrFail_def storeCall_def bindM_def readProp_def run_call answer_def nullish_def)

lemma run_id:
  "isValidDate now \<Longrightarrow> isNonEmptyString v \<Longrightarrow>
     generateCoreId scripted_cfg kind tn now \<lparr>world = (IdGenerate, Ret v) # w, trace = tr\<rparr>
     = (Ret (Some v), \<lparr>world = w, trace = tr @ [Call IdGenerate
          [obj [(''kind'', JStr kind), (''tenantId'', tn), (''now'', now)]] (Ret v)]\<rparr>)"
  by (simp add: generateCoreId_def bindM_def run_try)

definition allowed :: jsv where
  "allowed = obj [(''allow'', JBool True)]"

lemma allowed_facts: "isPolicyDecision allowed" "truthy (fld allowed ''allow'')"
  "isGuardResult (obj [(''ok'', JBool True), (''value'', allowed)])"
  by code_simp+

lemma run_policy:
  assumes "policyInput check \<noteq> None"
  shows "policy scripted_cfg check \<lparr>world = (PolicyDecide, Ret allowed) # w, trace = tr\<rparr>
     = (Ret (Inr ()), \<lparr>world = w, trace = tr @ [Call PolicyDecide [the (policyInput check)] (Ret allowed)]\<rparr>)"
proof -
  from assms obtain i where "policyInput check = Some i" by blast
  moreover have "hasPolicy scripted_cfg" by (simp add: scripted_cfg_def)
  ultimately show ?thesis
    using allowed_facts by (simp add: policy_def run_bind run_attempt run_call)
qed

lemma run_acceptStart:
  assumes "beforeAttemptInput cx m op l ch \<noteq> None" and "policyInput (startPolicyCheck cx m op l pd) \<noteq> None"
  shows "acceptStart scripted_cfg cx m op l ch pd
      \<lparr>world = (GuardBefore, answer allowed) # (PolicyDecide, Ret allowed) # w, trace = tr\<rparr>
    = (Ret (Inr ()), \<lparr>world = w, trace = tr @
        [Call GuardBefore [the (beforeAttemptInput cx m op l ch)] (answer allowed),
         Call PolicyDecide [the (policyInput (startPolicyCheck cx m op l pd))] (Ret allowed)]\<rparr>)"
proof -
  from assms(1) obtain i where "beforeAttemptInput cx m op l ch = Some i" by blast
  moreover have "hasGuard scripted_cfg" "\<not> hasEventSink scripted_cfg" by (simp_all add: scripted_cfg_def)
  ultimately show ?thesis
    using allowed_facts run_policy [OF assms(2)]
    by (simp add: acceptStart_def answer_def emitStartedEvent_def emitEvent_def
        run_bind run_attempt run_call Let_def)
qed

lemma run_afterAttempt:
  assumes "afterAttemptInput cx m op l ch (attemptOutcome True None False) \<noteq> None"
  shows "afterAttempt scripted_cfg cx m op l True None ch None \<lparr>world = (GuardAfter, Ret JUndef) # w, trace = tr\<rparr>
    = (Ret (), \<lparr>world = w, trace = tr @
        [Call GuardAfter [the (afterAttemptInput cx m op l ch (attemptOutcome True None False))] (Ret JUndef)]\<rparr>)"
proof -
  from assms obtain i where "afterAttemptInput cx m op l ch (attemptOutcome True None False) = Some i" by blast
  moreover have "hasGuard scripted_cfg" "hasAfterAttempt scripted_cfg" "\<not> hasEventSink scripted_cfg"
    by (simp_all add: scripted_cfg_def)
  ultimately show ?thesis
    by (simp add: afterAttempt_def emitEvent_def run_bind run_attempt run_call)
qed

text \<open>What decision makers are told, when it can be copied.\<close>

lemma decision_inputs:
  assumes "decisionAuthContext cx \<noteq> None" and "\<not> has_function (the (decisionAuthContext cx))"
    and "\<not> has_function m" and "\<not> has_function l" and "\<not> has_function ch"
  shows "beforeAttemptInput cx m op l ch \<noteq> None"
    and "\<not> has_function v \<Longrightarrow> afterAttemptInput cx m op l ch v \<noteq> None"
proof -
  obtain d where d: "decisionAuthContext cx = Some d" "\<not> has_function d"
    using assms(1,2) by auto
  with assms(3-5) show "beforeAttemptInput cx m op l ch \<noteq> None"
    unfolding beforeAttemptInput_def by (simp add: structuredClone_None_iff del: structuredClone.simps not_None_eq)
  show "\<not> has_function v \<Longrightarrow> afterAttemptInput cx m op l ch v \<noteq> None"
    unfolding afterAttemptInput_def using d assms(3-5)
    by (simp add: structuredClone_None_iff del: structuredClone.simps not_None_eq)
qed

lemma policyInput_ok:
  assumes "decisionAuthContext (fld check ''context'') \<noteq> None" and "\<not> has_function check"
  shows "policyInput check \<noteq> None"
proof -
  have "structuredClone check \<noteq> None" using assms(2) structuredClone_None_iff(1) by simp
  then show ?thesis using assms(1) by (auto simp: policyInput_def simp del: fld.simps fld_obj)
qed

lemma run_validation:
  "invokeMethodValidation scripted_cfg key op i cx \<lparr>world = (MethodValidate key op, answer v) # w, trace = tr\<rparr>
     = (Ret (snapshotValidatedMethodInput v),
        \<lparr>world = w, trace = tr @ [Call (MethodValidate key op) [i, cx] (answer v)]\<rparr>)"
  by (simp add: invokeMethodValidation_def bindM_def attemptM_def run_call answer_def)

lemma run_method:
  "invokeMethodRun scripted_cfg key op i cx \<lparr>world = (MethodRun key op, Ret v) # w, trace = tr\<rparr>
     = (Ret (runOutcome v), \<lparr>world = w, trace = tr @ [Call (MethodRun key op) [i, cx] (Ret v)]\<rparr>)"
  by (simp add: invokeMethodRun_def bindM_def run_try)

lemma run_liftO: "x \<noteq> None \<Longrightarrow> liftO x s = (Ret (the x), s)"
  by (cases x) simp_all

lemma run_accounted:
  "accounted scripted_cfg cx me op l ch m s = (case m s of
     (Ret (Inr a), t) \<Rightarrow> (Ret (Inr a), t)
   | (Ret (Inl e), t) \<Rightarrow> bindM (afterAttempt scripted_cfg cx me op l False (Some (internalReason e)) ch None)
        (\<lambda>_. ret (Inl e)) t
   | (Throw, t) \<Rightarrow> (Throw, t))"
  by (simp add: accounted_def bindM_def split: prod.splits outcome.splits sum.splits)

text \<open>A transaction of the scripted runner that ends well.\<close>

lemma run_transaction:
  assumes "scopes \<noteq> []" and "transactionCovers (obj [(''transactionId'', JStr ''tx-1''), (''covers'', JArr scopes)]) scopes"
    and "fn (obj [(''transactionId'', JStr ''tx-1''), (''covers'', JArr scopes)])
      \<lparr>world = w, trace = tr\<rparr> = (Ret (Inr a), \<lparr>world = w2, trace = tr2\<rparr>)"
  shows "runInStoreTransaction scripted_cfg cx scopes fn \<lparr>world = w, trace = tr\<rparr>
    = (Ret (Inr a), \<lparr>world = w2, trace = tr2\<rparr>)"
proof -
  have "txRun scripted_cfg = Some scripted_tx" by (simp add: scripted_cfg_def)
  moreover have "settle cx (Ret (receipt_result (JStr ''tx-1'')))
      \<lparr>callbackCalls = 1, callbackResult = Some (Inr a), callbackReceipt = Some (JStr ''tx-1'')\<rparr> = Inr a"
    by (simp add: settle_def receipt_result_def isResult_def isTransactionReceipt_def)
  ultimately show ?thesis
    using assms
    by (simp add: runInStoreTransaction_def scripted_tx_def callback_def fresh_closure_def Let_def)
qed

lemma bindM_lazy: "m = m' \<Longrightarrow> bindM m f = bindM m' f"
  by simp

lemma bindR_lazy: "m = m' \<Longrightarrow> bindR m f = bindR m' f"
  by simp

lemmas run_simps = run_bind run_bindR run_attempt run_catch run_option run_sum Let_def
  run_call run_now run_store run_try run_storeOrFail run_id run_policy run_acceptStart run_afterAttempt
  run_validation run_method run_liftO run_accounted start_def

lemmas lazily = bindM_lazy bindR_lazy if_weak_cong option.case_cong_weak sum.case_cong_weak
  outcome.case_cong_weak prod.case_cong_weak let_weak_cong

section \<open>Reading a session\<close>

definition session_input :: jsv where
  "session_input = obj [(''context'', demo_context), (''token'', demo_token)]"

definition session_claim :: jsv where
  "session_claim = obj [(''kind'', JStr ''by-token-hash''), (''tokenHash'', demo_hash)]"

definition session_identified :: jsv where
  "session_identified = obj [(''ok'', JBool True), (''value'', session_claim)]"

definition demo_hash_copy :: jsv where
  "demo_hash_copy = obj [(''type'', JStr ''protected-value''), (''scheme'', JStr ''sha256''),
     (''redacted'', redacted_text), (''keyId'', JUndef), (''createdAt'', JUndef),
     (''revealForPersistence'', JFun (Some (JStr ''digest''))), (''toJSON'', JFun (Some redacted_text))]"

definition session_script :: script where
  "session_script =
     [(ClockNow, Ret (at 20)), (TokenIdentify, Ret session_identified),
      (SessionsFindByTokenHash, answer demo_session), (AccountsFindById, answer demo_account),
      (ClockNow, Ret (at 30))]"

lemma demo_hash_snapshot: "snapshotProtectedValue demo_hash = Some demo_hash_copy"
proof -
  have "isProtectedValue demo_hash" by code_simp
  then show ?thesis
    by (simp add: snapshotProtectedValue_def) (simp add: demo_hash_def demo_hash_copy_def)
qed

lemma session_facts:
  "isGetSessionInput session_input" "truthy (fld session_input ''token'')"
  "fld session_input ''context'' = demo_context"
  "isTokenIdentifyCallResult session_identified" "truthy (fld session_identified ''ok'')"
  "fld session_identified ''value'' = session_claim" "truthy session_claim"
  "fld session_claim ''tokenHash'' = demo_hash"
  "fld session_claim ''kind'' \<noteq> JStr ''by-session''"
  "isSessionRecord demo_session" "truthy demo_session"
  "fld demo_session ''tenantId'' = fld demo_context ''tenantId''" "fld demo_session ''tokenHash'' = demo_hash"
  "fld demo_session ''status'' = JStr ''active''" "protectedValuesMatch demo_hash demo_hash_copy"
  "accountFor demo_context (fld demo_session ''accountId'') demo_account"
  "fld demo_account ''status'' = JStr ''active''" "truthy demo_account"
  "\<not> date_le (fld demo_session ''expiresAt'') (at 30)"
  by code_simp+

lemma session_run:
  "fst (getSession scripted_cfg session_input (start session_script)) = Ret (Inr (toSessionView demo_session))"
  by (simp add: getSession_def session_facts demo_hash_snapshot run_simps session_script_def
      cong: lazily del: fld.simps fld_obj)

end
