(* ===== verification/ScriptedOperations.thy ===== *)
theory ScriptedOperations
  imports Scripted
begin

text \<open>
  One successful run of each of \<open>begin\<close>, \<open>authenticate\<close>, \<open>enroll\<close> and \<open>complete\<close>, with a guard and
  a policy that are asked and say yes.
\<close>

definition otp_lookup :: jsv where
  "otp_lookup = obj [(''methodId'', JStr ''email.otp''), (''methodKind'', JStr ''otp''),
     (''subject'', JStr ''u''), (''subjectKind'', JStr ''email'')]"

definition otp_method :: methodConfig where
  "otp_method = the (findMethod scripted_cfg (JStr ''email.otp''))"

definition otp_ref :: jsv where
  "otp_ref = toMethodRef (Some otp_method)"

definition otp_validated :: jsv where
  "otp_validated = obj [(''value'', JStr ''x''), (''lookup'', otp_lookup)]"

definition demo_decision :: jsv where
  "demo_decision = the (decisionAuthContext demo_context)"

lemma demo_decision_facts:
  "decisionAuthContext demo_context = Some demo_decision"
  "\<not> has_function demo_decision" "\<not> has_function demo_context" "\<not> has_function otp_ref" "\<not> has_function otp_lookup"
  by code_simp+

section \<open>begin\<close>

definition begin_input :: jsv where
  "begin_input = obj [(''context'', demo_context), (''methodId'', JStr ''email.otp''), (''input'', JStr ''x''),
     (''account'', obj [(''mode'', JStr ''create-account-if-identity-missing'')])]"

definition begin_output :: jsv where
  "begin_output = obj [(''challengeMaterial'', obj [(''schemaVersion'', JStr ''1'')]),
     (''expiresAt'', at 1000), (''maxAttempts'', JNum 3)]"

definition begin_copy :: jsv where
  "begin_copy = the (snapshotBeginResult begin_output)"

definition begin_record :: jsv where
  "begin_record = newChallengeRecord begin_input (JStr ''c1'') otp_ref otp_lookup begin_copy (at 40)"

lemma begin_facts:
  "isBaseOperationInput begin_input" "isChallengeAccountMode (fld begin_input ''account'')"
  "fld begin_input ''context'' = demo_context" "fld begin_input ''methodId'' = JStr ''email.otp''"
  "isPublicData (fld otp_validated ''publicData'')"
  "fld (fld begin_input ''account'') ''mode'' = JStr ''create-account-if-identity-missing''"
  by code_simp+

definition begin_script :: script where
  "begin_script =
     [(ClockNow, Ret (at 10)), (MethodValidate ''email.otp'' ''begin'', answer otp_validated),
      (IdentitiesFindBySubject, answer JNull), (GuardBefore, answer allowed), (PolicyDecide, Ret allowed),
      (IdGenerate, Ret (JStr ''c1'')), (MethodRun ''email.otp'' ''begin'', answer begin_output),
      (ClockNow, Ret (at 40)), (ChallengesCreate, answer begin_record), (ClockNow, Ret (at 50)),
      (GuardAfter, Ret JUndef)]"

lemma method_facts:
  "findMethod scripted_cfg (JStr ''email.otp'') = Some otp_method" "toMethodRef (Some otp_method) = otp_ref"
  "operations otp_method = [''enroll'', ''authenticate'', ''begin'', ''complete'']"
  "hasChallenges scripted_cfg"
  by (simp_all add: otp_method_def findMethod_def scripted_cfg_def otp_ref_def)

lemma validationContext_ok:
  "decisionAuthContext cx \<noteq> None \<Longrightarrow> validationContext m cx now \<noteq> None"
  by (auto simp: validationContext_def)

lemma executionContext_ok:
  assumes "decisionAuthContext cx \<noteq> None"
  shows "executionContext m cx now l None \<noteq> None"
    and "snapshot_opt snapshotMaterial mat \<noteq> None \<Longrightarrow> executionContext m cx now l (Some (i, cr, mat)) \<noteq> None"
  using assms by (auto simp: executionContext_def)

lemma lookup_facts:
  "truthy otp_lookup" "fld otp_validated ''lookup'' = otp_lookup" "fld otp_validated ''publicData'' = JUndef"
  "fld otp_validated ''value'' = JStr ''x''"
  by code_simp+

lemma validated_snapshot: "snapshotValidatedMethodInput otp_validated = Some otp_validated"
proof -
  have "isValidatedMethodInput otp_validated" by code_simp
  moreover have "snapshotValue (JStr ''x'') = Some (JStr ''x'')"
    by (simp add: snapshotValue_def snapshotMethodValue.simps takeCharacters_def start_traversal_def)
  ultimately show ?thesis
    by (simp add: snapshotValidatedMethodInput_def otp_validated_def otp_lookup_def snapshotLookup_def
        hasOnlyKeys_def)
qed

lemma no_functions: "\<not> has_function (at n)" "\<not> has_function JUndef" "\<not> has_function (JStr x)"
  by (simp_all add: at_def)

lemma at_facts: "isValidDate (at n)" "date_le (at m) (at n) \<longleftrightarrow> m \<le> n"
  by (simp_all add: at_def)

lemma id_facts: "no_control ''c1''" "no_control ''a1''" "no_control ''i1''" "no_control ''s1''" "no_control ''k1''"
  by code_simp+

lemma begin_output_facts:
  "runOutcome (obj [(''ok'', JBool True), (''value'', begin_output)]) = Inr begin_output"
  "isValidBeginOutput begin_output (at 10)" "fld begin_output ''publicData'' = JUndef" "isPublicData JUndef"
  "snapshotBeginResult begin_output = Some begin_copy" "arr_elems (fld begin_copy ''sideEffects'') = []"
  "fld begin_copy ''expiresAt'' = at 1000"
  apply (simp add: runOutcome_def snapshotValue_def begin_output_def at_def takeCharacters_def start_traversal_def
    isSecretWrapper_def snapshotMethodValue.simps cong: lazily)
  by code_simp+

lemma no_effects: "requiredEffectsCanPersist c [] b" "sideEffectScopes c [] = []"
  "dispatchRequiredSideEffects c cx [] now tx = okR JUndef" "dispatchBestEffortSideEffects c cx [] now = okR JUndef"
  by (simp_all add: requiredEffectsCanPersist_def sideEffectScopes_def dispatchRequiredSideEffects_def
      dispatchBestEffortSideEffects_def dispatchSelectedSideEffects_def selectEffects_def)

lemma run_method_answer:
  "invokeMethodRun scripted_cfg key op i cx \<lparr>world = (MethodRun key op, answer v) # w, trace = tr\<rparr>
     = (Ret (runOutcome (obj [(''ok'', JBool True), (''value'', v)])),
        \<lparr>world = w, trace = tr @ [Call (MethodRun key op) [i, cx] (answer v)]\<rparr>)"
  by (simp add: answer_def run_method)

lemma run_transaction_step:
  assumes "scopes \<noteq> []" and "transactionCovers (obj [(''transactionId'', JStr ''tx-1''), (''covers'', JArr scopes)]) scopes"
  shows "accountedTransaction scripted_cfg cx m op l ch (runInStoreTransaction scripted_cfg cx scopes fn)
      \<lparr>world = w, trace = tr\<rparr>
    = (case fn (obj [(''transactionId'', JStr ''tx-1''), (''covers'', JArr scopes)]) \<lparr>world = w, trace = tr\<rparr> of
         (Ret (Inr a), t) \<Rightarrow> (Ret (Inr a), t)
       | _ \<Rightarrow> accountedTransaction scripted_cfg cx m op l ch
           (id (runInStoreTransaction scripted_cfg cx scopes fn)) \<lparr>world = w, trace = tr\<rparr>)"
proof -
  have "accountedTransaction scripted_cfg cx m op l ch (runInStoreTransaction scripted_cfg cx scopes fn)
      \<lparr>world = w, trace = tr\<rparr> = (Ret (Inr a), t)"
    if "fn (obj [(''transactionId'', JStr ''tx-1''), (''covers'', JArr scopes)]) \<lparr>world = w, trace = tr\<rparr>
      = (Ret (Inr a), t)" for a t
    using run_transaction [OF assms, of fn w tr a "world t" "trace t" cx] that
    by (simp add: accountedTransaction_def bindM_def)
  then show ?thesis by (auto split: prod.split outcome.split sum.split)
qed

lemma begin_record_fact:
  "newChallengeRecord begin_input (JStr ''c1'') otp_ref otp_lookup begin_copy (at 40) = begin_record"
  "challengeRecordFingerprint begin_record \<noteq> None"
  by (simp add: begin_record_def) code_simp

lemma no_events: "emitEvent scripted_cfg cx ev t = ret ()"
  by (simp add: emitEvent_def scripted_cfg_def)

lemmas operation_simps = no_events demo_decision_facts method_facts validationContext_ok executionContext_ok
  lookup_facts validated_snapshot findIdentity_def decision_inputs policyInput_ok startPolicyCheck_def
  no_functions at_facts id_facts no_effects run_method_answer run_transaction_step
  transactionCovers_def arr_every_def no_control_def is_control_def finishOperation_def
  emitPersistedEvents_def mergeSideEffectResults_def emitSideEffectEvents_def attemptOutcome_def

lemma begin_run:
  "fst (beginOp scripted_cfg begin_input (start begin_script)) = Ret (Inr (beginSuccess (JStr ''c1'') begin_copy))"
  by (simp add: beginOp_def beginAdmitted_def beginOutput_def begin_facts run_simps begin_script_def
      beginAccountPreflight_def begin_output_facts beginScopes_def beginInTransaction_def begin_record_fact operation_simps
      cong: lazily split del: if_split)

section \<open>The configuration of these runs\<close>

definition demo_function :: jsv where
  "demo_function = JFun (Some JUndef)"

definition functions_object :: "string list \<Rightarrow> jsv" where
  "functions_object names = obj (map (\<lambda>name. (name, demo_function)) names)"

definition demo_operation :: jsv where
  "demo_operation = functions_object [''validate'', ''run'']"

definition demo_store :: jsv where
  "demo_store = obj [
     (''durable'', obj [
        (''accounts'', functions_object [''create'', ''findById'', ''updateStatus'']),
        (''identities'', functions_object [''create'', ''findById'', ''findBySubject'', ''markVerified'']),
        (''credentials'', functions_object [''create'', ''findById'', ''findForIdentity'', ''replaceMaterial'', ''updateStatus''])]),
     (''session'', obj [(''sessions'', functions_object [''create'', ''findById'', ''findByTokenHash'', ''revoke'', ''cleanupExpired''])]),
     (''ephemeral'', obj [(''challenges'', functions_object challengeStoreOperations)]),
     (''transaction'', functions_object [''run''])]"

definition demo_config :: jsv where
  "demo_config = obj [
     (''store'', demo_store),
     (''methods'', obj [(''email.otp'', obj [(''methodId'', JStr ''email.otp''), (''methodKind'', JStr ''otp''),
        (''operations'', obj (map (\<lambda>name. (name, demo_operation)) operationNames))])]),
     (''token'', functions_object [''issue'', ''identify'']), (''clock'', functions_object [''now'']),
     (''idGenerator'', functions_object [''generate'']), (''policy'', demo_function),
     (''guard'', functions_object [''beforeAttempt'', ''afterAttempt'']),
     (''effects'', obj [(''dispatch'', demo_function), (''transactionScopes'', JArr [JStr ''effects''])]),
     (''session'', obj [(''defaultTtlSeconds'', JNum 3600), (''maxTtlSeconds'', JNum 86400)])]"

lemma demo_config_accepted: "validateConfig demo_config = None"
  by code_simp

lemma demo_config_represents: "represents demo_config scripted_cfg"
  unfolding represents_def
  by (simp add: demo_config_def demo_store_def functions_object_def demo_function_def demo_operation_def
      operationNames_def scripted_cfg_def methodConfigOf_def)

end
