(* ===== verification/ScriptedAuthenticate.thy ===== *)
theory ScriptedAuthenticate
  imports ScriptedOperations
begin

text \<open>A successful run of \<open>authenticate\<close> with a session, over the scripted collaborators.\<close>

definition auth_input :: jsv where
  "auth_input = obj [(''context'', demo_context), (''methodId'', JStr ''email.otp''), (''input'', JStr ''x''),
     (''session'', obj [])]"

definition demo_identity :: jsv where
  "demo_identity = obj [(''tenantId'', JStr ''t''), (''identityId'', JStr ''i1''), (''accountId'', JStr ''a1''),
     (''methodId'', JStr ''email.otp''), (''methodKind'', JStr ''otp''), (''subject'', JStr ''u''),
     (''subjectKind'', JStr ''email''), (''createdAt'', at 5), (''updatedAt'', at 5)]"

definition demo_material :: jsv where
  "demo_material = obj [(''schemaVersion'', JStr ''1'')]"

definition demo_credential :: jsv where
  "demo_credential = obj [(''tenantId'', JStr ''t''), (''credentialId'', JStr ''k1''), (''accountId'', JStr ''a1''),
     (''identityId'', JStr ''i1''), (''methodId'', JStr ''email.otp''), (''methodKind'', JStr ''otp''),
     (''status'', JStr ''active''), (''material'', demo_material), (''version'', JNum 1),
     (''createdAt'', at 5), (''updatedAt'', at 5)]"

definition demo_proof :: jsv where
  "demo_proof = obj [(''type'', JStr ''auth.proof''), (''proofMethod'', otp_ref), (''authTime'', at 10),
     (''primaryIdentity'', otp_lookup), (''evidence'', JArr [])]"

definition auth_output :: jsv where
  "auth_output = obj [(''proof'', demo_proof)]"

definition auth_copy :: jsv where
  "auth_copy = the (snapshotAuthenticateResult auth_output)"

definition issued :: jsv where
  "issued = obj [(''ok'', JBool True), (''value'', obj [(''raw'', demo_token), (''tokenHash'', demo_hash)])]"

definition demo_token_copy :: jsv where
  "demo_token_copy = obj [(''type'', JStr ''raw-secret''), (''redacted'', redacted_text),
     (''reveal'', JFun (Some (JStr ''bearer''))), (''toJSON'', JFun (Some redacted_text))]"

definition auth_session :: jsv where
  "auth_session = newSessionRecord demo_context (JStr ''s1'') (JStr ''a1'') demo_hash_copy (at 20) (at 3600020)"

definition auth_result :: jsv where
  "auth_result = authSuccess (the (toAccountView demo_account)) demo_proof
     (Some \<lparr>sessionView = toSessionView auth_session,
            issuedToken = obj [(''raw'', demo_token_copy), (''issuedAt'', at 20), (''expiresAt'', at 3600020)]\<rparr>)
     JUndef"

definition auth_script :: script where
  "auth_script =
     [(ClockNow, Ret (at 10)), (MethodValidate ''email.otp'' ''authenticate'', answer otp_validated),
      (GuardBefore, answer allowed), (PolicyDecide, Ret allowed),
      (IdentitiesFindBySubject, answer demo_identity), (CredentialsFindForIdentity, answer demo_credential),
      (MethodRun ''email.otp'' ''authenticate'', answer auth_output), (PolicyDecide, Ret allowed),
      (ClockNow, Ret (at 20)), (CredentialsFindForIdentity, answer demo_credential),
      (AccountsFindById, answer demo_account), (PolicyDecide, Ret allowed), (IdGenerate, Ret (JStr ''s1'')),
      (TokenIssue, Ret issued), (SessionsCreate, answer auth_session), (ClockNow, Ret (at 30)),
      (ClockNow, Ret (at 40)), (GuardAfter, Ret JUndef)]"

section \<open>Facts\<close>

lemma auth_input_facts:
  "isBaseOperationInput auth_input" "fld auth_input ''context'' = demo_context"
  "fld auth_input ''methodId'' = JStr ''email.otp''" "fld auth_input ''input'' = JStr ''x''"
  "fld auth_input ''session'' = obj []"
  by code_simp+

lemma identity_facts:
  "identityFor demo_context otp_lookup demo_identity" "truthy demo_identity"
  "fld demo_identity ''accountId'' = JStr ''a1''"
  by code_simp+

lemma credential_facts:
  "credentialFor demo_context otp_ref demo_identity demo_credential" "truthy demo_credential"
  "\<not> nullish demo_credential" "fld demo_credential ''status'' = JStr ''active''"
  "fld demo_credential ''material'' = demo_material"
  "credentialUnchanged demo_context otp_ref demo_identity demo_credential demo_credential"
  "snapshot_opt snapshotMaterial demo_material \<noteq> None"
  by code_simp+

lemma proof_facts:
  "proofMatches otp_ref otp_lookup demo_proof (at 10)" "proofMatches otp_ref otp_lookup demo_proof (at 20)"
  "proofMatches otp_ref otp_lookup demo_proof (at 40)" "\<not> has_function demo_proof"
  by code_simp+

lemma auth_output_facts:
  "fld auth_output ''proof'' = demo_proof" "fld auth_output ''publicData'' = JUndef"
  "fld auth_output ''credentialMaterial'' = JUndef" "fld auth_output ''sideEffects'' = JUndef"
  "isMethodMaterial JUndef" "isSideEffects JUndef"
  "snapshotAuthenticateResult auth_output = Some auth_copy"
  "fld auth_copy ''proof'' = demo_proof" "fld auth_copy ''publicData'' = JUndef"
  "fld auth_copy ''credentialMaterial'' = JUndef" "fld auth_copy ''sideEffects'' = JUndef"
  by code_simp+

lemma auth_outcome: "runOutcome (obj [(''ok'', JBool True), (''value'', auth_output)]) = Inr auth_output"
  by (simp add: runOutcome_def snapshotValue_def auth_output_def demo_proof_def at_def takeCharacters_def
      start_traversal_def isSecretWrapper_def snapshotMethodValue.simps otp_lookup_def otp_ref_def toMethodRef_def
      otp_method_def findMethod_def scripted_cfg_def cong: lazily)

lemma account_facts:
  "accountFor demo_context (JStr ''a1'') demo_account" "truthy demo_account"
  "fld demo_account ''status'' = JStr ''active''" "fld demo_account ''accountId'' = JStr ''a1''"
  "toAccountView demo_account \<noteq> None"
  by code_simp+

lemma token_snapshot: "snapshotRawSecret demo_token = Some demo_token_copy"
proof -
  have "isRawSecret demo_token" by code_simp
  then show ?thesis
    by (simp add: snapshotRawSecret_def) (simp add: demo_token_def demo_token_copy_def)
qed

lemma token_facts:
  "isTokenIssueCallResult issued" "truthy (fld issued ''ok'')"
  "fld (fld issued ''value'') ''raw'' = demo_token" "fld (fld issued ''value'') ''tokenHash'' = demo_hash"
  by code_simp+

lemma session_record_facts:
  "newSessionRecord demo_context (JStr ''s1'') (JStr ''a1'') demo_hash_copy (at 20) (at 3600020) = auth_session"
  "sessionRecordsMatch auth_session auth_session = Some True"
  "fld auth_session ''expiresAt'' = at 3600020"
  by (simp add: auth_session_def) code_simp+

lemma ttl_facts:
  "resolveSessionTtl scripted_cfg (obj []) = Some 3600" "new_date (date_ms (at 20) + 3600000) = at 3600020"
  by code_simp+


lemma auth_run:
  "fst (authenticate scripted_cfg auth_input (start auth_script)) = Ret (Inr auth_result)"
  by (simp add: authenticate_def authenticateAdmitted_def authenticateOutput_def authenticateInTransaction_def
      persistAuthentication_def findCredential_def authenticateScopes_def identityContext_def optionalSession_def
      auth_input_facts identity_facts credential_facts proof_facts auth_output_facts auth_outcome account_facts
      auth_script_def acceptProofCheck_def createSession_def createPolicyCheck_def ttl_facts token_facts
      token_snapshot demo_hash_snapshot session_record_facts auth_result_def
      run_simps operation_simps cong: lazily split del: if_split)

end
