(* ===== verification/ScriptedRuns.thy ===== *)
theory ScriptedRuns
  imports ScriptedAuthenticate
begin

text \<open>
  Successful runs of \<open>enroll\<close>, which creates an account, an identity and a credential, and of
  \<open>complete\<close>, which answers the challenge of the run of \<open>begin\<close> and creates account and identity.
\<close>

section \<open>enroll\<close>

definition enroll_input :: jsv where
  "enroll_input = obj [(''context'', demo_context), (''methodId'', JStr ''email.otp''), (''input'', JStr ''x''),
     (''account'', obj [(''mode'', JStr ''create-new-account'')])]"

definition enroll_output :: jsv where
  "enroll_output = obj [(''identity'', otp_lookup), (''credentialMaterial'', demo_material)]"

definition enroll_copy :: jsv where
  "enroll_copy = the (snapshotEnrollResult enroll_output)"

definition new_account :: "int \<Rightarrow> jsv" where
  "new_account t = newAccountRecord demo_context (JStr ''a1'') (at t)"

definition new_identity :: "jsv \<Rightarrow> int \<Rightarrow> jsv" where
  "new_identity claim t = newIdentityRecord demo_context (JStr ''i1'') (JStr ''a1'') claim (at t)"

definition new_credential :: jsv where
  "new_credential = newCredentialRecord demo_context otp_ref (JStr ''k1'') (JStr ''a1'') (JStr ''i1'')
     (fld enroll_copy ''credentialMaterial'') (at 20)"

definition enroll_result :: jsv where
  "enroll_result = enrollSuccess (the (toAccountView (new_account 20)))
     \<lparr>persistedAccount = new_account 20, persistedIdentity = new_identity (fld enroll_copy ''identity'') 20,
      persistedCredential = new_credential, persistedSession = None, persistedEffects = JUndef\<rparr> enroll_copy"

definition enroll_script :: script where
  "enroll_script =
     [(ClockNow, Ret (at 10)), (MethodValidate ''email.otp'' ''enroll'', answer otp_validated),
      (GuardBefore, answer allowed), (PolicyDecide, Ret allowed),
      (MethodRun ''email.otp'' ''enroll'', answer enroll_output), (PolicyDecide, Ret allowed),
      (ClockNow, Ret (at 20)), (PolicyDecide, Ret allowed), (IdentitiesFindBySubject, answer JNull),
      (IdGenerate, Ret (JStr ''a1'')), (AccountsCreate, answer (new_account 20)),
      (IdGenerate, Ret (JStr ''i1'')), (IdentitiesCreate, answer (new_identity (fld enroll_copy ''identity'') 20)),
      (CredentialsFindForIdentity, answer JNull), (IdGenerate, Ret (JStr ''k1'')),
      (CredentialsCreate, answer new_credential), (ClockNow, Ret (at 40)), (GuardAfter, Ret JUndef)]"

lemma enroll_input_facts:
  "isBaseOperationInput enroll_input" "isEnrollmentAccountMode (fld enroll_input ''account'')"
  "fld enroll_input ''context'' = demo_context" "fld enroll_input ''methodId'' = JStr ''email.otp''"
  "fld enroll_input ''input'' = JStr ''x''" "fld enroll_input ''session'' = JUndef"
  "fld (fld enroll_input ''account'') ''mode'' = JStr ''create-new-account''"
  "\<not> has_function (fld enroll_input ''account'')"
  by code_simp+

lemma enroll_output_facts:
  "isIdentityClaim (fld enroll_output ''identity'') (at 10)" "isMethodMaterial (fld enroll_output ''credentialMaterial'')"
  "identityMatchesMethod otp_ref (fld enroll_output ''identity'')"
  "identityMatches otp_lookup (fld enroll_output ''identity'')"
  "fld enroll_output ''sideEffects'' = JUndef" "fld enroll_output ''publicData'' = JUndef"
  "fld enroll_output ''proof'' = JUndef" "snapshotEnrollResult enroll_output = Some enroll_copy"
  "fld enroll_copy ''sideEffects'' = JUndef" "fld enroll_copy ''proof'' = JUndef"
  "truthy (fld enroll_copy ''credentialMaterial'')" "truthy (fld enroll_copy ''identity'')"
  "\<not> has_function (fld enroll_copy ''identity'')" "fld enroll_copy ''publicData'' = JUndef"
  by code_simp+

lemma enroll_outcome: "runOutcome (obj [(''ok'', JBool True), (''value'', enroll_output)]) = Inr enroll_output"
  by (simp add: runOutcome_def snapshotValue_def enroll_output_def demo_material_def takeCharacters_def
      start_traversal_def isSecretWrapper_def snapshotMethodValue.simps otp_lookup_def cong: lazily)

lemma new_record_facts:
  "newAccountRecord demo_context (JStr ''a1'') (at t) = new_account t"
  "newIdentityRecord demo_context (JStr ''i1'') (JStr ''a1'') claim (at t) = new_identity claim t"
  "newCredentialRecord demo_context otp_ref (JStr ''k1'') (JStr ''a1'') (JStr ''i1'')
     (fld enroll_copy ''credentialMaterial'') (at 20) = new_credential"
  "fld (new_account t) ''accountId'' = JStr ''a1''"
  "fld (new_identity claim t) ''identityId'' = JStr ''i1''"
  by (simp_all add: new_account_def new_identity_def new_credential_def newAccountRecord_def newIdentityRecord_def)

lemma enroll_record_facts:
  "accountRecordFingerprint (new_account 20) \<noteq> None"
  "identityRecordFingerprint (new_identity (fld enroll_copy ''identity'') 20) \<noteq> None"
  "credentialRecordFingerprint new_credential \<noteq> None"
  "truthy (new_identity (fld enroll_copy ''identity'') 20)" "toAccountView (new_account 20) \<noteq> None"
  by code_simp+

lemmas persistence_simps = resolveAccount_def createAccount_def resolvePolicyCheck_def optionalSession_def
  new_record_facts no_functions

lemma enroll_run:
  "fst (enroll scripted_cfg enroll_input (start enroll_script)) = Ret (Inr enroll_result)"
  by (simp add: enroll_def enrollAdmitted_def enrollOutput_def enrollInTransaction_def persistEnrollment_def
      enrollIdentity_def enrollCredential_def proofStill_def enrollScopes_def acceptEnrollmentCheck_def
      enroll_input_facts enroll_output_facts enroll_outcome enroll_record_facts persistence_simps
      enroll_script_def enroll_result_def run_simps operation_simps auth_output_facts(5,6) cong: lazily split del: if_split)

section \<open>complete\<close>

definition complete_input :: jsv where
  "complete_input = obj [(''context'', demo_context), (''challengeId'', JStr ''c1''), (''input'', JStr ''x'')]"

definition complete_copy :: jsv where
  "complete_copy = the (snapshotCompleteResult auth_output)"

definition complete_result :: jsv where
  "complete_result = authSuccess (the (toAccountView (new_account 110))) demo_proof None JUndef"

definition complete_script :: script where
  "complete_script =
     [(ClockNow, Ret (at 100)), (ChallengesFindById, answer begin_record),
      (MethodValidate ''email.otp'' ''complete'', answer otp_validated),
      (GuardBefore, answer allowed), (PolicyDecide, Ret allowed),
      (MethodRun ''email.otp'' ''complete'', answer auth_output), (PolicyDecide, Ret allowed),
      (ClockNow, Ret (at 110)), (ChallengesConsumePending, answer (JStr ''consumed'')),
      (PolicyDecide, Ret allowed), (IdentitiesFindBySubject, answer JNull),
      (IdGenerate, Ret (JStr ''a1'')), (AccountsCreate, answer (new_account 110)),
      (IdGenerate, Ret (JStr ''i1'')), (IdentitiesCreate, answer (new_identity otp_lookup 110)),
      (ClockNow, Ret (at 120)), (GuardAfter, Ret JUndef)]"

lemma complete_input_facts:
  "isCompleteInput complete_input" "fld complete_input ''context'' = demo_context"
  "fld complete_input ''challengeId'' = JStr ''c1''" "fld complete_input ''input'' = JStr ''x''"
  by code_simp+

lemma challenge_facts:
  "challengeFor demo_context (JStr ''c1'') begin_record" "truthy begin_record"
  "fld begin_record ''status'' = JStr ''pending''" "fld begin_record ''maxAttempts'' = JNum 3"
  "fld begin_record ''attempts'' = JNum 0" "fld begin_record ''expiresAt'' = at 1000"
  "challengeActorBindingMatches (fld begin_record ''binding'') demo_context"
  "fld begin_record ''methodId'' = JStr ''email.otp''" "methodKind otp_method = fld begin_record ''methodKind''"
  "fld begin_record ''lookup'' = otp_lookup" "fld begin_record ''challengeId'' = JStr ''c1''"
  "fld (fld (fld begin_record ''binding'') ''account'') ''mode'' = JStr ''create-account-if-identity-missing''"
  "fld (fld begin_record ''binding'') ''session'' = JUndef" "identityMatches otp_lookup otp_lookup"
  "\<not> has_function (fld (fld begin_record ''binding'') ''account'')" "\<not> nullish otp_lookup"
  "snapshotMaterial (fld begin_record ''material'') \<noteq> None" "isConsumePendingResult (JStr ''consumed'')"
  by code_simp+

lemma complete_output_facts:
  "snapshotCompleteResult auth_output = Some complete_copy" "fld complete_copy ''proof'' = demo_proof"
  "fld complete_copy ''sideEffects'' = JUndef" "fld complete_copy ''publicData'' = JUndef"
  "fld demo_proof ''primaryIdentity'' = otp_lookup"
  "proofMatches otp_ref otp_lookup demo_proof (at 100)" "proofMatches otp_ref otp_lookup demo_proof (at 110)"
  "proofMatches otp_ref otp_lookup demo_proof (at 120)"
  by code_simp+

lemma complete_record_facts:
  "accountRecordFingerprint (new_account 110) \<noteq> None" "identityRecordFingerprint (new_identity otp_lookup 110) \<noteq> None"
  "truthy (new_identity otp_lookup 110)" "toAccountView (new_account 110) \<noteq> None"
  by code_simp+

lemma challengeContext_ok:
  "executionContext m cx now l None \<noteq> None \<Longrightarrow> snapshotMaterial (fld ch ''material'') \<noteq> None
     \<Longrightarrow> challengeContext m cx now l ch \<noteq> None"
  by (auto simp: challengeContext_def simp del: fld.simps fld_obj)

lemma complete_run:
  "fst (complete scripted_cfg complete_input (start complete_script)) = Ret (Inr complete_result)"
  by (simp add: complete_def loadChallenge_def completeChallenge_def completeOutput_def completeInTransaction_def
      persistCompletion_def consumeChallenge_def completionIdentity_def createIdentityForClaim_def completeScopes_def
      acceptProofCheck_def coalesce_def challengeContext_ok complete_input_facts challenge_facts complete_output_facts
      complete_record_facts persistence_simps proof_facts auth_output_facts auth_outcome
      complete_script_def complete_result_def run_simps operation_simps cong: lazily split del: if_split)

end
