(* ===== verification/SessionProperties.thy ===== *)
theory SessionProperties
  imports Scripted
begin

text \<open>Properties of \<open>packages/core/src/operations/session.ts\<close>.\<close>

section \<open>Calls of a part are calls of the whole\<close>

definition extends :: "'w st \<Rightarrow> 'w st \<Rightarrow> bool" where
  "extends s t = (\<exists>es. follows s es t)"

lemma extends_refl: "extends s s"
  unfolding extends_def by (blast intro: follows_refl)









end
