(* ===== verification/OperationProperties.thy ===== *)
theory OperationProperties
  imports ScriptedRuns SessionProperties
begin

text \<open>
  Properties of the operations of \<open>packages/core/src/operations/\<close> as the application calls them
  through the object that \<open>createAuth\<close> returns.
\<close>

section \<open>Which decisions an operation needs\<close>











text \<open>
  C3. Completing consumes: when \<open>complete\<close> returns \<open>ok\<close>, the challenge store has answered
  \<open>consumed\<close> to the consumption of the challenge that the request names, in the tenant of the
  request and at the version that was read.
\<close>

theorem complete_consumes:
  assumes "complete c input s = (Ret (Inr v), t)"
  shows "\<exists>e\<in>set (since s t). consumption_of input e"
  using requires_since [OF requires_complete assms] .

lemma complete_run_state:
  obtains t where "complete scripted_cfg complete_input (start complete_script) = (Ret (Inr complete_result), t)"
  using complete_run by (metis prod.collapse)

lemma complete_consumes_witness:
  "\<exists>t. \<exists>e\<in>set (since (start complete_script) t). consumption_of complete_input e"
proof -
  obtain t where "complete scripted_cfg complete_input (start complete_script) = (Ret (Inr complete_result), t)"
    by (rule complete_run_state)
  from complete_consumes [OF this] show ?thesis by blast
qed

section \<open>What a successful operation has established\<close>









section \<open>How an operation fails\<close>


text \<open>
  C9. Every failure that reaches the application is safe to hand out: its public code is one of
  the ten codes of the contract and its internal reason is a text of at most 512 characters
  without control characters, whatever the collaborators answered.
\<close>

theorem authCall_fails_safely:
  assumes "authCall c op input s = (Ret (Inl e), t)"
  shows "publicCode e \<in> set publicCodes \<and> safe_reason (internalReason e)"
  using safely_D [OF safely_authCall assms] by (simp add: safe_failure_def)

lemma authCall_fails_safely_witness:
  "\<exists>e t. authCall scripted_cfg OpComplete (JStr ''no input'') (start []) = (Ret (Inl e), t)
     \<and> publicCode e \<in> set publicCodes \<and> safe_reason (internalReason e)"
proof -
  have "authCall scripted_cfg OpComplete (JStr ''no input'') (start [])
    = (Ret (Inl (authErr JUndef ''VALIDATION_FAILED'' (Some ''INVALID_INPUT'') JUndef)), start [])"
    by (simp add: authCall_def catchBoundary_def catchM_def bindM_def isolateOperationInput_def runOperation_def
        complete_def isCompleteInput_def authContextFrom_def errR_def)
  from authCall_fails_safely [OF this] this show ?thesis by blast
qed

end
