(* ===== verification/CoreProperties.thy ===== *)
theory CoreProperties
  imports ScriptedRuns SessionProperties
begin

text \<open>
  Properties of the modules the operations of core are made of: transactions, attempts, effects,
  what is copied from methods, proofs, stored records and the configuration.
\<close>

section \<open>Transactions\<close>

lemma callback_later:
  "callbackCalls cl \<noteq> 0 \<Longrightarrow> callback cx scopes fn tx cl s = (r, cl', t)
     \<Longrightarrow> callbackResult cl' = callbackResult cl \<and> callbackCalls cl' \<noteq> 0"
  by (auto simp: callback_def Let_def)

lemma exec_tx_later:
  assumes "exec_tx p (callback cx scopes fn) cl tr = (r, cl', t)" and "callbackCalls cl \<noteq> 0"
  shows "callbackResult cl' = callbackResult cl"
  using assms
proof (induction p arbitrary: cl tr)
  case (TxCall tx w k)
  obtain r1 cl1 s1 where cb: "callback cx scopes fn tx cl \<lparr>world = w, trace = tr\<rparr> = (r1, cl1, s1)"
    by (metis prod_cases3)
  with TxCall.prems have "exec_tx (k r1 (world s1)) (callback cx scopes fn) cl1 (trace s1) = (r, cl', t)" by simp
  with TxCall.IH callback_later [OF TxCall.prems(2) cb] show ?case by (metis rangeI)
qed auto

lemma exec_tx_first:
  assumes "exec_tx p (callback cx scopes fn) fresh_closure tr = (r, cl, t)" and "callbackResult cl = Some (Inl e)"
  shows "e = transactionFailed cx \<or> (\<exists>tx s0 s1. trace s0 = tr \<and> fn tx s0 = (Ret (Inl e), s1))"
proof (cases p)
  case (TxDone x w)
  with assms show ?thesis by (auto simp: fresh_closure_def)
next
  case (TxCall tx w k)
  let ?s0 = "\<lparr>world = w, trace = tr\<rparr>"
  obtain r1 cl1 s1 where cb: "callback cx scopes fn tx fresh_closure ?s0 = (r1, cl1, s1)"
    by (metis prod_cases3)
  with assms(1) TxCall have rest: "exec_tx (k r1 (world s1)) (callback cx scopes fn) cl1 (trace s1) = (r, cl, t)" by simp
  have "callbackCalls cl1 \<noteq> 0" using callback_calls [OF cb] by simp
  from exec_tx_later [OF rest this] assms(2) have "callbackResult cl1 = Some (Inl e)" by simp
  with cb show ?thesis
    by (auto simp: callback_def Let_def fresh_closure_def split: if_splits prod.splits outcome.splits sum.splits)
qed

text \<open>
  C17. What a transaction reports is what happened: core takes a transaction for committed only
  when the runner ran its callback exactly once, with a transaction that covers every requested
  scope, and the callback succeeded with the reported value; a reported failure is the callback's
  own or \<open>TRANSACTION_FAILED\<close>. This holds for every runner, however it behaves.
\<close>

theorem transaction_reports_callback:
  assumes "runInStoreTransaction c cx scopes fn s = (Ret r, t)" and "scopes \<noteq> []"
  shows "(\<forall>a. r = Inr a \<longrightarrow> (\<exists>tx s0 s1. transactionCovers tx scopes \<and> trace s0 = trace s
            \<and> fn tx s0 = (Ret (Inr a), s1) \<and> trace t = trace s1))
    \<and> (\<forall>e. r = Inl e \<longrightarrow> e = transactionFailed cx
            \<or> (\<exists>tx s0 s1. trace s0 = trace s \<and> fn tx s0 = (Ret (Inl e), s1)))"
proof (intro conjI allI impI)
  fix a assume "r = Inr a"
  with assms show "\<exists>tx s0 s1. transactionCovers tx scopes \<and> trace s0 = trace s
      \<and> fn tx s0 = (Ret (Inr a), s1) \<and> trace t = trace s1"
    by (metis runInStoreTransaction_once)
next
  fix e assume e: "r = Inl e"
  show "e = transactionFailed cx \<or> (\<exists>tx s0 s1. trace s0 = trace s \<and> fn tx s0 = (Ret (Inl e), s1))"
  proof (cases "txRun c")
    case None
    with assms e show ?thesis by (simp add: runInStoreTransaction_def)
  next
    case (Some run)
    obtain answer cl u where ex: "exec_tx (run (obj [(''requiredScopes'', JArr scopes)]) (world s))
        (callback cx scopes fn) fresh_closure (trace s) = (answer, cl, u)"
      by (metis prod_cases3)
    with assms Some e have "settle cx answer cl = Inl e" by (simp add: runInStoreTransaction_def)
    with settle_Inl exec_tx_first [OF ex] show ?thesis by blast
  qed
qed

lemma transaction_reports_callback_witness:
  "\<exists>tx s0 s1. transactionCovers tx [JStr ''sessions''] \<and> okR (7::nat) s0 = (Ret (Inr 7), s1 :: script st)"
proof -
  have "runInStoreTransaction scripted_cfg JUndef [JStr ''sessions''] (\<lambda>_. okR (7::nat)) (start [])
    = (Ret (Inr 7), start [])"
    unfolding start_def by (rule run_transaction) (simp_all add: transactionCovers_def arr_every_def no_control_def is_control_def)
  from transaction_reports_callback [OF this] show ?thesis by auto
qed

section \<open>Attempts\<close>

text \<open>
  C18. An attempt that is not admitted is accounted for exactly once: with a guard that has
  \<open>afterAttempt\<close>, and a context that can be copied for it, \<open>acceptStart\<close> calls \<open>afterAttempt\<close>
  once when it fails - whether guard, policy or a broken answer is the reason - and not at all
  when the attempt goes on.
\<close>

theorem refused_attempt_accounted_once:
  assumes "acceptStart c cx m op l ch pd s = (Ret r, t)"
    and "beforeAttemptInput cx m op l ch \<noteq> None" and "hasGuard c" and "hasAfterAttempt c"
  shows "count_calls GuardAfter t = count_calls GuardAfter s + (case r of Inl _ \<Rightarrow> 1 | Inr _ \<Rightarrow> 0)"
  by (rule acceptStart_count [OF assms])

lemma failAttempt_fails:
  "\<exists>e t. failAttempt c cx m op l r p ch co (s :: 's st) = (Ret (Inl e :: 'a res), t)"
proof (cases "failAttempt c cx m op l r p ch co s :: 'a res outcome \<times> 's st")
  case (Pair x t)
  with failAttempt_Ret [OF Pair] show ?thesis by simp
qed

lemma refused_attempt_accounted_once_witness:
  "\<exists>t :: script st. count_calls GuardAfter t = Suc (count_calls GuardAfter (start [(GuardBefore, Throw), (GuardAfter, Ret JUndef)]))"
proof -
  let ?s = "start [(GuardBefore, Throw), (GuardAfter, Ret JUndef)]"
  have input: "beforeAttemptInput demo_context otp_ref ''begin'' otp_lookup JUndef \<noteq> None"
    by (rule decision_inputs(1)) (simp_all add: demo_decision_facts)
  have caps: "hasGuard scripted_cfg" "hasAfterAttempt scripted_cfg" by (simp_all add: scripted_cfg_def)
  obtain e t where run: "acceptStart scripted_cfg demo_context otp_ref ''begin'' otp_lookup JUndef JUndef ?s = (Ret (Inl e), t)"
  proof -
    obtain i where "beforeAttemptInput demo_context otp_ref ''begin'' otp_lookup JUndef = Some i" using input by blast
    then have "\<exists>e t. acceptStart scripted_cfg demo_context otp_ref ''begin'' otp_lookup JUndef JUndef ?s = (Ret (Inl e), t)"
      using caps failAttempt_fails
      by (simp add: acceptStart_def run_bind run_attempt run_call start_def isGuardResult_def)
    then show ?thesis using that by blast
  qed
  from refused_attempt_accounted_once [OF run input caps] show ?thesis by (auto intro: exI [of _ t])
qed

section \<open>Effects\<close>

text \<open>
  C19. A dispatch of the required effects that core accepts accounts for every required effect
  exactly once: the indexes reported as dispatched, deferred or failed are, without repetition,
  the positions of the required effects in the list of the method, and none of them has failed.
\<close>

theorem required_effects_accounted:
  assumes "dispatchRequiredSideEffects c cx effects now tx s = (Ret (Inr v), t)" and "truthy v"
  shows "distinct (all_indexes v)
    \<and> set (all_indexes v) = int ` {i. i < length effects \<and> fld (effects ! i) ''dispatchPolicy'' = JStr ''required''}
    \<and> arr_elems (fld v ''failed'') = []"
  using dispatchSelected_accounts [OF assms [unfolded dispatchRequiredSideEffects_def]] by blast

definition demo_effect :: jsv where
  "demo_effect = obj [(''type'', JStr ''delivery''), (''message'', obj [
      (''to'', obj [(''channel'', JStr ''email''), (''target'', JStr ''u@example.org'')]),
      (''templateId'', JStr ''code''), (''metadata'', obj [])]),
     (''dispatchPolicy'', JStr ''required''), (''idempotencyKey'', JStr ''k'')]"

definition dispatched_first :: jsv where
  "dispatched_first = obj [(''dispatched'', JArr [obj [(''index'', JNum 0), (''type'', JStr ''delivery'')]])]"

lemma dispatch_facts:
  "fld demo_effect ''dispatchPolicy'' = JStr ''required''" "is_required demo_effect"
  "snapshotSideEffect demo_effect \<noteq> None"
  "isDispatchResult dispatched_first [the (snapshotSideEffect demo_effect)]"
  "dispatchInput demo_context [the (snapshotSideEffect demo_effect)] (at 20) JUndef \<noteq> None"
  "truthy (remapResult [0] dispatched_first)" "truthy dispatched_first"
  by code_simp+

lemma selected_effect: "selectEffects ''required'' [demo_effect] = [(0, demo_effect)]"
  by (simp add: selectEffects_def dispatch_facts(1) del: fld.simps fld_obj)

lemma required_effects_accounted_witness:
  "set (all_indexes (remapResult [0] dispatched_first)) = {0}"
proof -
  have caps: "hasEffects scripted_cfg" by (simp add: scripted_cfg_def)
  let ?s = "start [(EffectsDispatch, answer dispatched_first)]"
  have copies: "mapO snapshotSideEffect [demo_effect] = Some [the (snapshotSideEffect demo_effect)]"
    using dispatch_facts(3) by (auto simp del: fld.simps fld_obj)
  obtain t where run: "dispatchRequiredSideEffects scripted_cfg demo_context [demo_effect] (at 20) JUndef ?s
      = (Ret (Inr (remapResult [0] dispatched_first)), t)"
    using dispatch_facts
    by (simp add: dispatchRequiredSideEffects_def dispatchSelectedSideEffects_def selected_effect
        dispatchSideEffects_def caps copies answer_def run_simps del: mapO.simps)
  have "{i. i < length [demo_effect] \<and> fld ([demo_effect] ! i) ''dispatchPolicy'' = JStr ''required''} = {0}"
    using dispatch_facts(1) by (auto simp del: fld.simps fld_obj)
  with required_effects_accounted [OF run dispatch_facts(6)] show ?thesis by simp
qed

section \<open>What is taken over from a method\<close>

text \<open>
  The copy core keeps of a method's output is a fixed point: copying it again gives the same
  value, so nothing that was revealed for the copy can change later, and it has at most 10000
  parts.
\<close>

theorem method_snapshot_stable:
  assumes "snapshotValue v = Some w"
  shows "snapshotValue w = Some w \<and> value_nodes w \<le> 10000"
  using snapshotValue_idem [OF assms] snapshotValue_bounded [OF assms] by blast

lemma method_snapshot_stable_witness:
  "snapshotValue (JArr [JNum 1, JStr ''a'']) = Some (JArr [JNum 1, JStr ''a''])
    \<and> value_nodes (JArr [JNum 1, JStr ''a'']) \<le> 10000"
proof -
  have "snapshotValue (JArr [JNum 1, JStr ''a'']) = Some (JArr [JNum 1, JStr ''a''])"
    by (simp add: snapshotValue_def snapshotMethodValue.simps takeCharacters_def start_traversal_def)
  from method_snapshot_stable [OF this] show ?thesis .
qed

text \<open>
  Public data is safe to publish: what passes the check is copied unchanged by
  \<open>structuredClone\<close> (so it holds no function), no object below its root is shaped like a secret,
  and it has at most 1000 values.
\<close>

theorem public_data_is_public:
  assumes "isPublicData (JObj p kvs)"
  shows "structuredClone (JObj p kvs) = Some (JObj p kvs) \<and> secret_free_fields kvs
    \<and> node_count_fields kvs \<le> 1000"
proof -
  from assms obtain st where st: "isJsonFields kvs 0 start_traversal = Some st"
    by (auto simp: isPublicData_def split: if_splits option.splits)
  have "node_count_fields kvs \<le> nodes st" using json_node_count(3) [OF st] by simp
  moreover have "nodes st \<le> 1000"
    by (rule json_nodes_bound_aux(3) [OF st]) (simp add: start_traversal_def)
  ultimately show ?thesis
    using isPublicData_clone [OF assms] json_secret_free(3) [OF st] by simp
qed

lemma public_data_is_public_witness:
  "secret_free_fields [(''plan'', JStr ''free''), (''seats'', JNum 3)]
    \<and> node_count_fields [(''plan'', JStr ''free''), (''seats'', JNum 3)] \<le> 1000"
proof -
  have "isPublicData (JObj True [(''plan'', JStr ''free''), (''seats'', JNum 3)])"
    by (simp add: isPublicData_def isJsonValue.simps consumeText_def start_traversal_def
        isBoundedString_def no_control_def is_control_def Let_def)
  from public_data_is_public [OF this] show ?thesis by blast
qed

text \<open>
  Credential material stays valid when core copies it for storage: a copy of material that
  passed the check passes the check, so a credential made of it is a valid record.
\<close>

theorem material_copy_valid:
  assumes "isMethodMaterial m" and "m \<noteq> JUndef" and "snapshotMaterial m = Some w"
  shows "isMethodMaterial w \<and> w \<noteq> JUndef"
  by (rule snapshotMaterial_valid [OF assms])

lemma material_copy_valid_witness:
  "\<exists>w. snapshotMaterial demo_material = Some w \<and> isMethodMaterial w"
proof -
  have "isMethodMaterial demo_material" "demo_material \<noteq> JUndef" "snapshotMaterial demo_material \<noteq> None"
    by code_simp+
  with material_copy_valid show ?thesis by blast
qed

section \<open>Proofs\<close>

text \<open>
  A proof has no gap: if it matches method and lookup at two moments, it matches at every
  moment between them. So the two checks core makes in the transaction, before the writes and at
  completion, cover all of it.
\<close>

theorem proof_matches_between:
  assumes "proofMatches method lookup proof t1" and "proofMatches method lookup proof t2"
    and "date_le t1 t" and "date_le t t2"
  shows "proofMatches method lookup proof t"
  using assms proofTimely_between unfolding proofMatches_iff by blast

lemma proof_matches_between_witness: "proofMatches otp_ref otp_lookup demo_proof (at 25)"
  by (rule proof_matches_between [OF proof_facts(2,3)]) (simp_all add: at_def)

end
