(* ===== verification/RecordProperties.thy ===== *)
theory RecordProperties
  imports ScriptedRuns SessionProperties
begin

text \<open>
  Properties of what core takes over from the stores: the records it confirms, the account it
  resolves, the session it creates or revokes; and what an accepted configuration guarantees.
\<close>

section \<open>Records a store confirms\<close>

text \<open>
  An answer of the challenge store that has the fingerprint of the record core asked to
  store is a challenge record, and it agrees with that record in tenant, id, method, state,
  attempts, version and expiry.
\<close>

theorem stored_challenge_confirmed:
  assumes "challengeRecordFingerprint stored = Some f" and "challengeRecordFingerprint expected = Some f"
    and "isChallengeRecord expected"
  shows "isChallengeRecord stored
    \<and> (\<forall>k \<in> {''tenantId'', ''challengeId'', ''methodId'', ''methodKind'', ''status'', ''attempts'',
          ''maxAttempts'', ''version'', ''expiresAt''}. fld stored k = fld expected k)"
  using challengeRecordFingerprint_fields [OF assms] by blast

lemma stored_challenge_confirmed_witness:
  "isChallengeRecord begin_record \<and> fld begin_record ''version'' = fld begin_record ''version''"
proof -
  have "challengeRecordFingerprint begin_record \<noteq> None" and valid: "isChallengeRecord begin_record" by code_simp+
  then obtain f where "challengeRecordFingerprint begin_record = Some f" by blast
  from stored_challenge_confirmed [OF this this valid] show ?thesis by blast
qed



section \<open>Accounts\<close>

text \<open>
  C20. The account an operation goes on with is an active account of the request's tenant. An
  identity that is already stored is the one of the claim and belongs to that account; with
  \<open>create-new-account\<close> there is none, with \<open>require-existing-identity\<close> there is one, and with
  \<open>link-to-actor-account\<close> the account is the actor's.
\<close>

theorem resolved_account_authorized:
  assumes "resolveAccount c cx mode claim proof now tx s = (Ret (Inr r), t)"
    and "isNonEmptyString (fld cx ''tenantId'')"
  shows "isAccountRecord (account r)
      \<and> fld (account r) ''tenantId'' = fld cx ''tenantId''
      \<and> fld (account r) ''status'' = JStr ''active''
      \<and> (truthy (identity r) \<longrightarrow> identityFor cx claim (identity r)
           \<and> fld (identity r) ''accountId'' = fld (account r) ''accountId'')
      \<and> (fld mode ''mode'' = JStr ''create-new-account'' \<longrightarrow> \<not> truthy (identity r))
      \<and> (fld mode ''mode'' = JStr ''require-existing-identity'' \<longrightarrow> truthy (identity r))
      \<and> (fld mode ''mode'' = JStr ''link-to-actor-account'' \<longrightarrow>
           fld (fld cx ''actor'') ''type'' = JStr ''account''
           \<and> fld (account r) ''accountId'' = fld (fld cx ''actor'') ''accountId'')"
  using resolveAccount_sound [OF assms] unfolding resolution_ok_def .

definition new_account_run :: "resolvedAccount res outcome \<times> script st" where
  "new_account_run = resolveAccount scripted_cfg demo_context (obj [(''mode'', JStr ''create-new-account'')]) otp_lookup
     JUndef (at 20) JUndef (start [(PolicyDecide, Ret allowed), (IdentitiesFindBySubject, answer JNull),
       (IdGenerate, Ret (JStr ''a1'')), (AccountsCreate, answer (new_account 20))])"

lemma resolved_account_authorized_witness:
  "isAccountRecord (new_account 20) \<and> fld (new_account 20) ''tenantId'' = fld demo_context ''tenantId''
    \<and> fld (new_account 20) ''status'' = JStr ''active''"
proof -
  let ?mode = "obj [(''mode'', JStr ''create-new-account'')]"
  have mode: "fld ?mode ''mode'' = JStr ''create-new-account''" "\<not> has_function ?mode" by code_simp+
  have "fst new_account_run = Ret (Inr \<lparr>account = new_account 20, identity = JUndef\<rparr>)"
    unfolding new_account_run_def
    by (simp add: mode enroll_record_facts persistence_simps run_simps operation_simps
        cong: lazily split del: if_split)
  then have run: "new_account_run = (Ret (Inr \<lparr>account = new_account 20, identity = JUndef\<rparr>), snd new_account_run)"
    by (simp add: prod_eq_iff)
  have "isNonEmptyString (fld demo_context ''tenantId'')" by code_simp
  from resolved_account_authorized [OF run [unfolded new_account_run_def] this]
  show ?thesis by simp
qed

section \<open>Sessions\<close>

text \<open>
  Reading a session changes nothing: besides the clock and the token codec, \<open>getSession\<close>
  calls only the lookups of sessions and accounts.
\<close>

theorem getSession_reads_only:
  "only {ClockNow, TokenIdentify, SessionsFindById, SessionsFindByTokenHash, AccountsFindById}
     (getSession c input)"
  by (rule only_getSession)

text \<open>
  A session created under an accepted configuration lives as long as requested, and not
  longer than the configured maximum: it ends \<open>ttl\<close> seconds after the moment it is issued, the
  stored record and the token handed out agree on it, and what is shown of it is that record's.
\<close>

theorem session_lifetime_bounded:
  assumes "createSession c cx aid proof request now tx s = (Ret (Inr cs), t)"
    and "validateConfig config = None" and "represents config c"
  shows "\<exists>ttl created. JNum ttl = coalesce (fld request ''ttlSeconds'') (defaultTtlSeconds c)
    \<and> 0 < ttl \<and> (\<forall>m. maxTtlSeconds c = JNum m \<longrightarrow> ttl \<le> m)
    \<and> (\<exists>d. defaultTtlSeconds c = JNum d \<and> d \<le> max_session_ttl_seconds)
    \<and> fld created ''issuedAt'' = now
    \<and> fld created ''expiresAt'' = JDate (Some (date_ms now + ttl * 1000))
    \<and> fld created ''accountId'' = aid \<and> fld created ''tenantId'' = fld cx ''tenantId''
    \<and> sessionView cs = toSessionView created
    \<and> fld (issuedToken cs) ''expiresAt'' = fld created ''expiresAt''"
proof -
  from createSession_success [OF assms(1)] obtain ttl created
    where made: "sessionCreated c cx aid request now cs ttl created" .
  then have "resolveSessionTtl c request = Some ttl" by (simp add: sessionCreated_def)
  note bounds = resolveSessionTtl_bounds [OF this]
  from accepted_ttl [OF assms(2,3)] have "\<exists>d. defaultTtlSeconds c = JNum d \<and> d \<le> max_session_ttl_seconds"
    by (auto simp: ttlConfigured_def)
  with made bounds show ?thesis unfolding sessionCreated_def by blast
qed

definition create_run :: "createdSession res outcome \<times> script st" where
  "create_run = createSession scripted_cfg demo_context (JStr ''a1'') demo_proof (obj []) (at 20) JUndef
     (start [(PolicyDecide, Ret allowed), (IdGenerate, Ret (JStr ''s1'')),
      (TokenIssue, Ret issued), (SessionsCreate, answer auth_session), (ClockNow, Ret (at 30))])"

definition created_session :: createdSession where
  "created_session = \<lparr>sessionView = toSessionView auth_session,
     issuedToken = obj [(''raw'', demo_token_copy), (''issuedAt'', at 20), (''expiresAt'', at 3600020)]\<rparr>"

lemma create_run: "create_run = (Ret (Inr created_session), snd create_run)"
proof -
  have "fst create_run = Ret (Inr created_session)"
    unfolding create_run_def
    by (simp add: proof_facts createSession_def createPolicyCheck_def ttl_facts token_facts token_snapshot
        demo_hash_snapshot session_record_facts created_session_def run_simps operation_simps
        cong: lazily split del: if_split)
  then show ?thesis by (simp add: prod_eq_iff)
qed

lemma session_lifetime_bounded_witness:
  "\<exists>ttl. JNum ttl = JNum 3600 \<and> fld (issuedToken created_session) ''expiresAt'' = JDate (Some (20 + ttl * 1000))"
proof -
  have "fld (obj []) ''ttlSeconds'' = JUndef" "date_ms (at 20) = 20" by code_simp+
  moreover have "coalesce JUndef (defaultTtlSeconds scripted_cfg) = JNum 3600" by code_simp
  ultimately show ?thesis
    using session_lifetime_bounded [OF create_run [unfolded create_run_def] demo_config_accepted demo_config_represents]
    by (metis (no_types))
qed

text \<open>
  C21. A session is only revoked for somebody who may: before the store is asked to revoke, the
  session was read from it, it is the one of the request, its account is the actor's or the actor
  is the system, and the policy has allowed it.
\<close>

theorem revocation_authorized:
  assumes "revokeSession c input s = (r, t)"
    and "count_calls SessionsRevoke s < count_calls SessionsRevoke t"
  shows "\<exists>existing u1 u2 u3. storeR (fld input ''context'') c SessionsFindById
        [obj [(''tenantId'', fld (fld input ''context'') ''tenantId''), (''sessionId'', fld input ''sessionId'')]] u1
        = (Ret (Inr existing), u2)
    \<and> sessionFor (fld input ''context'') (fld input ''sessionId'') existing
    \<and> actorMayRevokeSession (fld input ''context'') existing
    \<and> policy c (revokePolicyCheck (fld input ''context'') (fld input ''sessionId'') existing) u2
        = (Ret (Inr ()), u3)"
proof -
  from revokeSession_reaches [OF assms] obtain existing u1 u2 u3 where
    "storeR (fld input ''context'') c SessionsFindById
        [obj [(''tenantId'', fld (fld input ''context'') ''tenantId''), (''sessionId'', fld input ''sessionId'')]] u1
        = (Ret (Inr existing), u2)"
    "sessionFor (fld input ''context'') (fld input ''sessionId'') existing"
    "actorMayRevokeSession (fld input ''context'') existing"
    "policy c (revokePolicyCheck (fld input ''context'') (fld input ''sessionId'') existing) u2
        = (Ret (Inr ()), u3)" .
  then show ?thesis by (intro exI conjI)
qed

definition revoke_input :: jsv where
  "revoke_input = obj [(''context'', demo_context), (''sessionId'', JStr ''s1'')]"

definition revoked_session :: jsv where
  "revoked_session = obj [(''tenantId'', JStr ''t''), (''sessionId'', JStr ''s1''),
     (''accountId'', JStr ''a1''), (''tokenHash'', demo_hash), (''status'', JStr ''revoked''),
     (''issuedAt'', at 10), (''expiresAt'', at 3600010), (''revokedAt'', at 30),
     (''createdAt'', at 10), (''updatedAt'', at 30)]"

definition revoke_script :: script where
  "revoke_script = [(ClockNow, Ret (at 20)), (SessionsFindById, answer demo_session), (PolicyDecide, Ret allowed),
     (ClockNow, Ret (at 30)), (SessionsRevoke, answer revoked_session)]"

lemma revoke_facts:
  "isRevokeSessionInput revoke_input" "fld revoke_input ''context'' = demo_context"
  "fld revoke_input ''sessionId'' = JStr ''s1''" "sessionFor demo_context (JStr ''s1'') demo_session"
  "truthy demo_session" "actorMayRevokeSession demo_context demo_session"
  "policyInput (revokePolicyCheck demo_context (JStr ''s1'') demo_session) \<noteq> None"
  "sessionFor demo_context (JStr ''s1'') revoked_session" "truthy revoked_session"
  "fld revoked_session ''status'' = JStr ''revoked''"
  by code_simp+

lemma no_sink: "emitEvent scripted_cfg cx ev t s = (Ret (), s)"
  by (simp add: emitEvent_def scripted_cfg_def)

lemma revoke_run:
  "revokeSession scripted_cfg revoke_input (start revoke_script) = (Ret (Inr ()), snd (revokeSession scripted_cfg revoke_input (start revoke_script)))
    \<and> count_calls SessionsRevoke (start revoke_script)
      < count_calls SessionsRevoke (snd (revokeSession scripted_cfg revoke_input (start revoke_script)))"
  by (simp add: revokeSession_def revoke_facts revoke_script_def no_sink count_calls_def run_simps
      cong: lazily split del: if_split)

lemma revocation_authorized_witness:
  "\<exists>existing. sessionFor demo_context (JStr ''s1'') existing \<and> actorMayRevokeSession demo_context existing"
  using revocation_authorized [OF conjunct1 [OF revoke_run] conjunct2 [OF revoke_run]]
  unfolding revoke_facts(2,3) by blast

section \<open>Configuration\<close>

text \<open>
  \<open>createAuth\<close> accepts only configurations the operations can rely on: every method is
  registered under its own id, lifetimes are positive and bounded, a guard can be told the outcome
  of an attempt, and a method with challenges has a challenge store.
\<close>

theorem accepted_configuration:
  assumes "validateConfig config = None" and "represents config c"
  shows "methodsConfigured c \<and> ttlConfigured c \<and> (hasGuard c \<longrightarrow> hasAfterAttempt c)
    \<and> (\<forall>mid mc. findMethod c mid = Some mc
         \<and> (''begin'' \<in> set (operations mc) \<or> ''complete'' \<in> set (operations mc)) \<longrightarrow> hasChallenges c)"
  using accepted_methods [OF assms] accepted_ttl [OF assms] accepted_guard [OF assms]
    accepted_challenges [OF assms] by blast

lemma accepted_configuration_witness:
  "methodsConfigured scripted_cfg \<and> ttlConfigured scripted_cfg \<and> hasAfterAttempt scripted_cfg \<and> hasChallenges scripted_cfg"
proof -
  have "hasGuard scripted_cfg" "findMethod scripted_cfg (JStr ''email.otp'') = Some otp_method"
    "''begin'' \<in> set (operations otp_method)"
    by code_simp+
  with accepted_configuration [OF demo_config_accepted demo_config_represents] show ?thesis by blast
qed

end
