(* ===== verification/ExpirationHeap.thy ===== *)
theory ExpirationHeap
  imports JsValue "HOL-Library.Multiset"
begin

text \<open>
  The binary heap of \<open>packages/guard-memory/src/guard/create-memory-attempt-guard.ts\<close>
  (\<open>heapPush\<close>, \<open>heapPop\<close>), an array ordered by \<open>expiresAt\<close>. The interface its client relies on is
  the locale \<open>expiry_queue\<close>: a bag of entries with a least one, which the heap provides.
\<close>

section \<open>Operations\<close>

record expiration =
  exKey :: jsv
  expiresAt :: int

abbreviation parent :: "nat \<Rightarrow> nat" where
  "parent i \<equiv> (i - 1) div 2"

text \<open>The loop of \<open>heapPush\<close>: \<open>i\<close> is the hole the value rises to.\<close>

function siftUp :: "expiration list \<Rightarrow> nat \<Rightarrow> expiration \<Rightarrow> expiration list" where
  "siftUp heap i v =
     (if i = 0 then heap[i := v]
      else if expiresAt (heap ! parent i) \<le> expiresAt v then heap[i := v]
      else siftUp (heap[i := heap ! parent i]) (parent i) v)"
  by pat_completeness auto
termination by (relation "measure (\<lambda>(heap, i, v). i)") auto

definition heapPush :: "expiration list \<Rightarrow> expiration \<Rightarrow> expiration list" where
  "heapPush heap v = siftUp (heap @ [v]) (length heap) v"

text \<open>The loop of \<open>heapPop\<close>: the hole sinks along the smaller children.\<close>

definition smallerChild :: "expiration list \<Rightarrow> nat \<Rightarrow> nat" where
  "smallerChild heap i =
     (if i * 2 + 2 < length heap \<and> expiresAt (heap ! (i * 2 + 2)) < expiresAt (heap ! (i * 2 + 1))
      then i * 2 + 2 else i * 2 + 1)"

function siftDown :: "expiration list \<Rightarrow> nat \<Rightarrow> expiration \<Rightarrow> expiration list" where
  "siftDown heap i v =
     (if length heap \<le> i * 2 + 1 then heap[i := v]
      else if expiresAt v \<le> expiresAt (heap ! smallerChild heap i) then heap[i := v]
      else siftDown (heap[i := heap ! smallerChild heap i]) (smallerChild heap i) v)"
  by pat_completeness auto
termination
  by (relation "measure (\<lambda>(heap, i, v). length heap - i)") (auto simp: smallerChild_def)

definition heapPop :: "expiration list \<Rightarrow> (expiration \<times> expiration list) option" where
  "heapPop heap =
     (case heap of
        [] \<Rightarrow> None
      | first # _ \<Rightarrow>
          let rest = butlast heap in
          if rest = [] then Some (first, [])
          else Some (first, siftDown rest 0 (last heap)))"

declare siftUp.simps [simp del] siftDown.simps [simp del]

section \<open>The bag of entries\<close>

lemma mset_move_hole:
  assumes "i < length h" and "j < length h" and "i \<noteq> j"
  shows "mset (h[i := h ! j, j := v]) = mset (h[i := v])"
proof -
  let ?g = "h[i := v]"
  have "h[i := h ! j, j := v] = ?g[j := ?g ! i, i := ?g ! j]"
    using assms by (subst list_update_swap) simp_all
  then show ?thesis using assms by (simp only: mset_swap length_list_update)
qed

lemma length_siftUp [simp]: "length (siftUp h i v) = length h"
  by (induction h i v rule: siftUp.induct) (subst siftUp.simps, simp)

lemma length_siftDown [simp]: "length (siftDown h i v) = length h"
  by (induction h i v rule: siftDown.induct) (subst siftDown.simps, simp)

lemma mset_siftUp: "i < length h \<Longrightarrow> mset (siftUp h i v) = mset (h[i := v])"
proof (induction h i v rule: siftUp.induct)
  case (1 heap i v)
  show ?case
  proof (cases "i = 0 \<or> expiresAt (heap ! parent i) \<le> expiresAt v")
    case False
    with 1 have "mset (siftUp heap i v) = mset (heap[i := heap ! parent i, parent i := v])"
      by (subst siftUp.simps) simp
    moreover have "parent i < length heap" "i \<noteq> parent i" using False 1(2) by auto
    ultimately show ?thesis using mset_move_hole [OF 1(2)] by metis
  qed (subst siftUp.simps, auto)
qed

lemma smallerChild_child:
  "i * 2 + 1 < length h \<Longrightarrow> smallerChild h i < length h \<and> i < smallerChild h i \<and> parent (smallerChild h i) = i"
  by (auto simp: smallerChild_def)

lemma mset_siftDown: "i < length h \<Longrightarrow> mset (siftDown h i v) = mset (h[i := v])"
proof (induction h i v rule: siftDown.induct)
  case (1 heap i v)
  let ?c = "smallerChild heap i"
  show ?case
  proof (cases "length heap \<le> i * 2 + 1 \<or> expiresAt v \<le> expiresAt (heap ! ?c)")
    case False
    with smallerChild_child have c: "?c < length heap" "i < ?c" by simp_all
    with False 1 have "mset (siftDown heap i v) = mset (heap[i := heap ! ?c, ?c := v])"
      by (subst siftDown.simps) simp
    with c 1(2) show ?thesis by (simp add: mset_move_hole)
  qed (subst siftDown.simps, auto)
qed

lemma mset_heapPush: "mset (heapPush h v) = add_mset v (mset h)"
  by (simp add: heapPush_def mset_siftUp)

lemma heapPop_cases:
  obtains "h = []" "heapPop h = None"
  | e where "h = [e]" "heapPop h = Some (e, [])"
  | e rest l where "h = e # rest @ [l]" "heapPop h = Some (e, siftDown (e # rest) 0 l)"
proof (cases h)
  case (Cons e t)
  then show ?thesis
    by (cases t rule: rev_cases) (auto simp: heapPop_def intro: that)
qed (simp add: heapPop_def that)

lemma mset_heapPop: "heapPop h = Some (e, h') \<Longrightarrow> mset h = add_mset e (mset h')"
  by (cases h rule: heapPop_cases) (auto simp: mset_siftDown)

section \<open>The heap order\<close>

definition is_heap :: "expiration list \<Rightarrow> bool" where
  "is_heap h \<longleftrightarrow> (\<forall>j < length h. 0 < j \<longrightarrow> expiresAt (h ! parent j) \<le> expiresAt (h ! j))"

text \<open>A heap with a hole: the order holds on all edges that do not touch \<open>i\<close>, and across it.\<close>

definition heap_but :: "expiration list \<Rightarrow> nat \<Rightarrow> bool" where
  "heap_but h i \<longleftrightarrow>
     (\<forall>j < length h. 0 < j \<longrightarrow> j \<noteq> i \<longrightarrow> parent j \<noteq> i \<longrightarrow> expiresAt (h ! parent j) \<le> expiresAt (h ! j))
     \<and> (\<forall>j < length h. 0 < j \<longrightarrow> parent j = i \<longrightarrow> 0 < i \<longrightarrow> expiresAt (h ! parent i) \<le> expiresAt (h ! j))"

definition below_children :: "expiration list \<Rightarrow> nat \<Rightarrow> expiration \<Rightarrow> bool" where
  "below_children h i v \<longleftrightarrow> (\<forall>j < length h. 0 < j \<longrightarrow> parent j = i \<longrightarrow> expiresAt v \<le> expiresAt (h ! j))"

lemma heap_fill:
  assumes "heap_but h i" and "i < length h" and "below_children h i v"
    and "i = 0 \<or> expiresAt (h ! parent i) \<le> expiresAt v"
  shows "is_heap (h[i := v])"
  unfolding is_heap_def
proof (intro allI impI)
  fix j assume j: "j < length (h[i := v])" "0 < j"
  then have "parent j < j" by auto
  with assms j show "expiresAt (h[i := v] ! parent j) \<le> expiresAt (h[i := v] ! j)"
    by (cases "j = i"; cases "parent j = i") (auto simp: heap_but_def below_children_def)
qed

lemma heap_rise:
  assumes "heap_but h i" and "i < length h" and "0 < i" and "below_children h i v"
    and "expiresAt v < expiresAt (h ! parent i)"
  shows "heap_but (h[i := h ! parent i]) (parent i)"
    and "below_children (h[i := h ! parent i]) (parent i) v"
proof -
  let ?p = "parent i"
  have p: "?p < i" using assms(3) by auto
  have sibling: "expiresAt (h ! ?p) \<le> expiresAt (h ! j)" if "j < length h" "0 < j" "parent j = ?p" "j \<noteq> i" for j
    using assms(1) that p unfolding heap_but_def by (metis less_irrefl)
  show "heap_but (h[i := h ! ?p]) ?p"
    unfolding heap_but_def
  proof (intro conjI allI impI)
    fix j assume j: "j < length (h[i := h ! ?p])" "0 < j" "j \<noteq> ?p" "parent j \<noteq> ?p"
    then have "j \<noteq> i" by auto
    with assms(1) j p show "expiresAt (h[i := h ! ?p] ! parent j) \<le> expiresAt (h[i := h ! ?p] ! j)"
      by (cases "parent j = i") (auto simp: heap_but_def assms(2,3))
  next
    fix j assume j: "j < length (h[i := h ! ?p])" "0 < j" "parent j = ?p" "0 < ?p"
    have up: "expiresAt (h ! parent ?p) \<le> expiresAt (h ! ?p)"
    proof -
      have "parent ?p \<noteq> i" using p by auto
      with assms(1,2) p j(4) show ?thesis by (auto simp: heap_but_def)
    qed
    have "parent ?p \<noteq> i" using p by auto
    with up sibling [of j] j assms(2) show "expiresAt (h[i := h ! ?p] ! parent ?p) \<le> expiresAt (h[i := h ! ?p] ! j)"
      by (cases "j = i") auto
  qed
  show "below_children (h[i := h ! ?p]) ?p v"
    unfolding below_children_def
  proof (intro allI impI)
    fix j assume "j < length (h[i := h ! ?p])" "0 < j" "parent j = ?p"
    with sibling [of j] assms(2,5) show "expiresAt v \<le> expiresAt (h[i := h ! ?p] ! j)"
      by (cases "j = i") auto
  qed
qed

lemma is_heap_siftUp:
  "heap_but h i \<Longrightarrow> i < length h \<Longrightarrow> below_children h i v \<Longrightarrow> is_heap (siftUp h i v)"
proof (induction h i v rule: siftUp.induct)
  case (1 h i v)
  show ?case
  proof (cases "i = 0 \<or> expiresAt (h ! parent i) \<le> expiresAt v")
    case True
    with heap_fill [OF 1(2-4) True] show ?thesis by (subst siftUp.simps) auto
  next
    case False
    then have i: "0 < i" "\<not> expiresAt (h ! parent i) \<le> expiresAt v" by simp_all
    with heap_rise [OF 1(2,3) i(1) 1(4)] have "is_heap (siftUp (h[i := h ! parent i]) (parent i) v)"
      using 1(3) by (intro 1(1)) auto
    with i show ?thesis by (subst siftUp.simps) simp
  qed
qed

lemma is_heap_push: "is_heap h \<Longrightarrow> is_heap (heapPush h v)"
  unfolding heapPush_def
  by (intro is_heap_siftUp) (auto simp: heap_but_def below_children_def is_heap_def nth_append)

lemma smallerChild_least:
  assumes "j < length h" and "0 < j" and "parent j = i"
  shows "expiresAt (h ! smallerChild h i) \<le> expiresAt (h ! j)"
proof -
  have "j = i * 2 + 1 \<or> j = i * 2 + 2" using assms(2,3) by presburger
  then show ?thesis using assms(1) by (auto simp: smallerChild_def)
qed

lemma heap_sink:
  assumes "heap_but h i" and "i * 2 + 1 < length h"
    and "i = 0 \<or> expiresAt (h ! parent i) \<le> expiresAt v"
  defines "c \<equiv> smallerChild h i"
  assumes "expiresAt (h ! c) < expiresAt v"
  shows "heap_but (h[i := h ! c]) c" and "expiresAt (h[i := h ! c] ! parent c) \<le> expiresAt v"
proof -
  have c: "c < length h" "i < c" "parent c = i" using smallerChild_child [OF assms(2)] by (simp_all add: c_def)
  show "expiresAt (h[i := h ! c] ! parent c) \<le> expiresAt v" using c assms(5) by simp
  show "heap_but (h[i := h ! c]) c"
    unfolding heap_but_def
  proof (intro conjI allI impI)
    fix j assume j: "j < length (h[i := h ! c])" "0 < j" "j \<noteq> c" "parent j \<noteq> c"
    then have "parent j < j" by auto
    show "expiresAt (h[i := h ! c] ! parent j) \<le> expiresAt (h[i := h ! c] ! j)"
    proof (cases "j = i")
      case True
      with assms(1) c j have "expiresAt (h ! parent i) \<le> expiresAt (h ! c)" by (auto simp: heap_but_def)
      with True c \<open>parent j < j\<close> show ?thesis by simp
    next
      case False
      with assms(1) j c smallerChild_least [of j h i] show ?thesis
        by (cases "parent j = i") (auto simp: heap_but_def c_def)
    qed
  next
    fix j assume j: "j < length (h[i := h ! c])" "0 < j" "parent j = c" "0 < c"
    then have "j \<noteq> i" "j \<noteq> c" using c by auto
    with assms(1) j c show "expiresAt (h[i := h ! c] ! parent c) \<le> expiresAt (h[i := h ! c] ! j)"
      by (auto simp: heap_but_def)
  qed
qed

lemma is_heap_siftDown:
  "heap_but h i \<Longrightarrow> i < length h \<Longrightarrow> i = 0 \<or> expiresAt (h ! parent i) \<le> expiresAt v
     \<Longrightarrow> is_heap (siftDown h i v)"
proof (induction h i v rule: siftDown.induct)
  case (1 h i v)
  let ?c = "smallerChild h i"
  show ?case
  proof (cases "length h \<le> i * 2 + 1 \<or> expiresAt v \<le> expiresAt (h ! ?c)")
    case True
    have "below_children h i v"
      unfolding below_children_def
    proof (intro allI impI)
      fix j assume j: "j < length h" "0 < j" "parent j = i"
      then have "i * 2 + 1 \<le> j" by presburger
      with True j smallerChild_least [OF j] show "expiresAt v \<le> expiresAt (h ! j)" by auto
    qed
    with heap_fill [OF 1(2,3) this 1(4)] True show ?thesis by (subst siftDown.simps) auto
  next
    case False
    then have n: "\<not> length h \<le> i * 2 + 1" "\<not> expiresAt v \<le> expiresAt (h ! ?c)" by simp_all
    have "i * 2 + 1 < length h" "expiresAt (h ! ?c) < expiresAt v" using n by simp_all
    note sink = heap_sink [OF 1(2) this(1) 1(4) this(2)]
    have "is_heap (siftDown (h[i := h ! ?c]) ?c v)"
      using 1(1) [OF n sink(1)] sink(2) smallerChild_child [of i h] n(1) by simp
    with n show ?thesis by (subst siftDown.simps) simp
  qed
qed

lemma is_heap_pop: "is_heap h \<Longrightarrow> heapPop h = Some (e, h') \<Longrightarrow> is_heap h'"
proof (cases h rule: heapPop_cases)
  case (3 e' rest l)
  assume "is_heap h" and pop: "heapPop h = Some (e, h')"
  have "heap_but (e' # rest) 0"
    unfolding heap_but_def
  proof (intro conjI allI impI)
    fix j assume j: "j < length (e' # rest)" "0 < j"
    have "h ! k = (e' # rest) ! k" if "k < length (e' # rest)" for k
      using that 3(1) by (metis append_Cons nth_append)
    with \<open>is_heap h\<close> j 3(1) show "expiresAt ((e' # rest) ! parent j) \<le> expiresAt ((e' # rest) ! j)"
      unfolding is_heap_def by (metis (no_types, lifting) append_Cons div_le_dividend
        diff_le_self le_trans length_append_singleton less_Suc_eq le_less_trans)
  qed simp
  then have "is_heap (siftDown (e' # rest) 0 l)" by (rule is_heap_siftDown) simp_all
  with 3 pop show ?thesis by clarsimp
qed (auto simp: is_heap_def)

lemma is_heap_root_least:
  assumes "is_heap h" and "j < length h"
  shows "expiresAt (h ! 0) \<le> expiresAt (h ! j)"
  using assms(2)
proof (induction j rule: less_induct)
  case (less j)
  show ?case
  proof (cases "j = 0")
    case False
    then have "parent j < j" by auto
    with less have "expiresAt (h ! 0) \<le> expiresAt (h ! parent j)" by simp
    also have "\<dots> \<le> expiresAt (h ! j)" using assms(1) less.prems False by (simp add: is_heap_def)
    finally show ?thesis .
  qed simp
qed

lemma heapPop_first: "heapPop h = Some (e, h') \<Longrightarrow> h ! 0 = e"
  by (cases h rule: heapPop_cases) auto

lemma heapPop_least:
  assumes "is_heap h" and "heapPop h = Some (e, h')" and "x = e \<or> x \<in> set h'"
  shows "expiresAt e \<le> expiresAt x"
proof -
  have "set h = insert e (set h')"
    using mset_heapPop [OF assms(2)] by (metis set_mset_add_mset_insert set_mset_mset)
  with assms(3) have "x \<in> set h" by auto
  then obtain j where "j < length h" "x = h ! j" by (auto simp: in_set_conv_nth)
  with is_heap_root_least [OF assms(1)] heapPop_first [OF assms(2)] show ?thesis by simp
qed

lemma is_heap_Nil: "is_heap []"
  by (simp add: is_heap_def)

lemma heapPop_None: "heapPop h = None \<longleftrightarrow> h = []"
  by (cases h rule: heapPop_cases) simp_all

end
