(* ===== verification/GuardMemory.thy ===== *)
theory GuardMemory
  imports ExpirationHeap "HOL-Library.AList"
begin

text \<open>
  \<open>packages/guard-memory\<close>: the attempt guard that keeps, in memory, the failures of the last
  window per attempt key, and refuses an attempt when there are \<open>maxFailures\<close> of them. The map
  \<open>attempts\<close> is an association list in insertion order, as a JavaScript \<open>Map\<close> is; \<open>expirations\<close>
  is the heap of \<open>ExpirationHeap\<close>. Time is in whole milliseconds; the provider of the time is an
  argument of every operation. Getters that throw have no counterpart in the values of the model.
\<close>

section \<open>Interface of the queue\<close>

locale expiry_queue =
  fixes empty :: 'q and push :: "'q \<Rightarrow> 'e \<Rightarrow> 'q" and pop :: "'q \<Rightarrow> ('e \<times> 'q) option"
    and entries :: "'q \<Rightarrow> 'e multiset" and due :: "'e \<Rightarrow> int" and valid :: "'q \<Rightarrow> bool"
  assumes valid_empty: "valid empty"
    and valid_push: "valid q \<Longrightarrow> valid (push q e)"
    and valid_pop: "valid q \<Longrightarrow> pop q = Some (e, q') \<Longrightarrow> valid q'"
    and entries_empty: "entries empty = {#}"
    and entries_push: "entries (push q e) = add_mset e (entries q)"
    and entries_pop: "pop q = Some (e, q') \<Longrightarrow> entries q = add_mset e (entries q')"
    and pop_None: "pop q = None \<Longrightarrow> entries q = {#}"
    and pop_least: "valid q \<Longrightarrow> pop q = Some (e, q') \<Longrightarrow> x \<in># entries q \<Longrightarrow> due e \<le> due x"
begin

lemma pop_lowers_due:
  "pop q = Some (e, q') \<Longrightarrow> due e \<le> now
     \<Longrightarrow> size {#x \<in># entries q'. due x \<le> now#} < size {#x \<in># entries q. due x \<le> now#}"
  by (simp add: entries_pop)

lemma push_keeps_due:
  "now < due e \<Longrightarrow> {#x \<in># entries (push q e). due x \<le> now#} = {#x \<in># entries q. due x \<le> now#}"
  by (simp add: entries_push)

lemma nothing_due:
  "valid q \<Longrightarrow> pop q = Some (e, q') \<Longrightarrow> now < due e \<Longrightarrow> x \<in># entries q \<Longrightarrow> now < due x"
  using pop_least by (meson less_le_trans)

lemma fill:
  "valid q \<Longrightarrow> valid (fold (\<lambda>e q. push q e) es q)
     \<and> entries (fold (\<lambda>e q. push q e) es q) = mset es + entries q"
  by (induction es arbitrary: q) (simp_all add: valid_push entries_push)

end

interpretation heap: expiry_queue "[]" heapPush heapPop mset expiresAt is_heap
  by unfold_locales
    (simp_all add: is_heap_Nil is_heap_push mset_heapPush mset_heapPop is_heap_pop heapPop_None heapPop_least)

section \<open>Options\<close>

text \<open>What the option \<open>now\<close> answers: a date, a number (\<open>None\<close>: not finite), or it throws.\<close>

datatype clock = ClockDate "int option" | ClockNumber "int option" | ClockThrows

fun nowMilliseconds :: "clock \<Rightarrow> int option" where
  "nowMilliseconds (ClockDate t) = t"
| "nowMilliseconds (ClockNumber n) = n"
| "nowMilliseconds ClockThrows = None"

record guardOptions =
  maxFailures :: nat
  windowMs :: int
  configuredRetryAfterSeconds :: "int option"
  maxKeys :: nat

text \<open>\<open>v * 1000\<close> on numbers; anything else is taken as \<open>NaN\<close>.\<close>

fun times_1000 :: "jsv \<Rightarrow> jsv" where
  "times_1000 (JNum n) = JNum (n * 1000)"
| "times_1000 (JFrac p q) =
     (if q \<noteq> 0 \<and> p * 1000 mod int q = 0 then JNum (p * 1000 div int q) else JFrac (p * 1000) q)"
| "times_1000 _ = JNonFin"

definition optionsOk :: "jsv \<Rightarrow> jsv \<Rightarrow> jsv \<Rightarrow> jsv \<Rightarrow> jsv \<Rightarrow> bool" where
  "optionsOk failures window retry keys nowProvider =
     (isPositiveInteger failures \<and> num_val failures \<le> 1000
      \<and> isPositiveInteger window
      \<and> (retry = JUndef \<or> isPositiveInteger retry)
      \<and> isPositiveInteger keys \<and> num_val keys \<le> 100000
      \<and> is_fun nowProvider)"

definition resolveGuardOptions :: "jsv \<Rightarrow> guardOptions option" where
  "resolveGuardOptions options =
     (let failures = coalesce (fld options ''maxFailures'') (JNum 5);
          window = times_1000 (coalesce (fld options ''windowSeconds'') (JNum 60));
          retry = fld options ''retryAfterSeconds'';
          keys = coalesce (fld options ''maxKeys'') (JNum 10000);
          nowProvider = coalesce (fld options ''now'') (JFun None)
      in if options = JNull \<or> \<not> optionsOk failures window retry keys nowProvider then None
         else Some \<lparr>maxFailures = nat (num_val failures), windowMs = num_val window,
                configuredRetryAfterSeconds = (if retry = JUndef then None else Some (num_val retry)),
                maxKeys = nat (num_val keys)\<rparr>)"

section \<open>Inputs and keys\<close>

definition isAttemptInput :: "jsv \<Rightarrow> bool" where
  "isAttemptInput input =
     (truthy input
      \<and> isSafeText (fld (fld input ''context'') ''tenantId'') 512 True
      \<and> fld input ''operation'' \<in> set [JStr ''enroll'', JStr ''authenticate'', JStr ''begin'', JStr ''complete'']
      \<and> (fld input ''challengeId'' = JUndef \<or> isSafeText (fld input ''challengeId'') 512 True)
      \<and> isSafeText (fld (fld input ''method'') ''methodId'') 512 True
      \<and> isSafeText (fld (fld input ''method'') ''methodKind'') 512 True
      \<and> (fld input ''lookup'' = JUndef
         \<or> isRecord (fld input ''lookup'')
           \<and> isSafeText (fld (fld input ''lookup'') ''methodId'') 512 True
           \<and> isSafeText (fld (fld input ''lookup'') ''methodKind'') 512 True
           \<and> isSafeText (fld (fld input ''lookup'') ''subjectKind'') 512 True
           \<and> isSafeText (fld (fld input ''lookup'') ''subject'') 2048 True))"

definition isAttemptOutcome :: "jsv \<Rightarrow> bool" where
  "isAttemptOutcome outcome =
     (truthy outcome \<and> is_bool (fld outcome ''success'')
      \<and> (truthy (fld outcome ''success'')
         \<or> isSafeText (fld outcome ''reason'') 512 True \<and> is_bool (fld outcome ''countsAsAttempt'')))"

text \<open>\<open>JSON.stringify\<close> of the parts, as the tree that the text denotes.\<close>

definition attemptKey :: "jsv \<Rightarrow> jsv" where
  "attemptKey input = JArr (json_list
     [fld (fld input ''context'') ''tenantId'', fld input ''operation'', fld input ''challengeId'',
      fld (fld input ''method'') ''methodId'', fld (fld input ''method'') ''methodKind'',
      fld (fld input ''lookup'') ''methodId'', fld (fld input ''lookup'') ''methodKind'',
      fld (fld input ''lookup'') ''subjectKind'', fld (fld input ''lookup'') ''subject''])"

section \<open>Expiry\<close>

record guardState =
  attempts :: "(jsv \<times> int list) list"
  expirations :: "expiration list"

definition noAttempts :: guardState where
  "noAttempts = \<lparr>attempts = [], expirations = []\<rparr>"

definition recentOf :: "guardState \<Rightarrow> jsv \<Rightarrow> int list" where
  "recentOf st key = (case map_of (attempts st) key of None \<Rightarrow> [] | Some timestamps \<Rightarrow> timestamps)"

text \<open>The body of the loop of \<open>pruneExpired\<close>, after an entry was popped.\<close>

definition dropExpired :: "int \<Rightarrow> int \<Rightarrow> expiration \<Rightarrow> guardState \<Rightarrow> guardState" where
  "dropExpired now window expired st =
     (case map_of (attempts st) (exKey expired) of
        None \<Rightarrow> st
      | Some timestamps \<Rightarrow>
          if timestamps \<noteq> [] \<and> now < hd timestamps + window then st
          else let recent = filter (\<lambda>t. now - t < window) timestamps in
            if recent = [] then st\<lparr>attempts := AList.delete (exKey expired) (attempts st)\<rparr>
            else st\<lparr>attempts := AList.update (exKey expired) recent (attempts st),
                    expirations := heapPush (expirations st)
                      \<lparr>exKey = exKey expired, expiresAt = hd recent + window\<rparr>\<rparr>)"

lemma recent_later:
  assumes "filter (\<lambda>t. now - t < window) ts \<noteq> []"
  shows "now < hd (filter (\<lambda>t. now - t < (window :: int)) ts) + window"
  using hd_in_set [OF assms] by simp

lemma dropExpired_due:
  "{#e \<in># mset (expirations (dropExpired now window expired st)). expiresAt e \<le> now#}
     = {#e \<in># mset (expirations st). expiresAt e \<le> now#}"
  by (auto simp: dropExpired_def Let_def mset_heapPush not_le dest: recent_later split: option.splits)

function pruneExpired :: "int \<Rightarrow> int \<Rightarrow> guardState \<Rightarrow> guardState" where
  "pruneExpired now window st =
     (case heapPop (expirations st) of
        None \<Rightarrow> st
      | Some (expired, rest) \<Rightarrow>
          if \<not> expiresAt (expirations st ! 0) \<le> now then st
          else pruneExpired now window (dropExpired now window expired (st\<lparr>expirations := rest\<rparr>)))"
  by pat_completeness auto

termination
proof (relation "measure (\<lambda>(now, window, st). size {#e \<in># mset (expirations st). expiresAt e \<le> now#})")
  fix now window :: int and st :: guardState and p expired rest
  assume pop: "heapPop (expirations st) = Some p" "(expired, rest) = p"
    and due: "\<not> \<not> expiresAt (expirations st ! 0) \<le> now"
  then have "expiresAt expired \<le> now" using heapPop_first by force
  with pop show "((now, window, dropExpired now window expired (st\<lparr>expirations := rest\<rparr>)), now, window, st)
      \<in> measure (\<lambda>(now, window, st). size {#e \<in># mset (expirations st). expiresAt e \<le> now#})"
    using heap.pop_lowers_due [of "expirations st" expired rest now] by (simp add: dropExpired_due)
qed simp

definition rebuildExpirations :: "(jsv \<times> int list) list \<Rightarrow> int \<Rightarrow> expiration list" where
  "rebuildExpirations atts window =
     fold (\<lambda>e heap. heapPush heap e)
       (map (\<lambda>(key, timestamps). \<lparr>exKey = key, expiresAt = hd timestamps + window\<rparr>)
         (filter (\<lambda>(key, timestamps). 0 < length timestamps) atts)) []"

definition ensureCapacity :: "(jsv \<times> int list) list \<Rightarrow> jsv \<Rightarrow> nat \<Rightarrow> (jsv \<times> int list) list" where
  "ensureCapacity atts key limit =
     (if map_of atts key \<noteq> None \<or> length atts < limit then atts
      else case atts of [] \<Rightarrow> [] | (oldestKey, _) # _ \<Rightarrow> AList.delete oldestKey atts)"

section \<open>The guard\<close>

definition guardErr :: "string \<Rightarrow> jsv" where
  "guardErr reason = obj [(''ok'', JBool False), (''error'', obj [(''type'', JStr ''component.failure''),
     (''component'', JStr ''guard''), (''reason'', JStr reason)])]"

definition guardOk :: "jsv \<Rightarrow> jsv" where
  "guardOk v = obj [(''ok'', JBool True), (''value'', v)]"

text \<open>\<open>Math.max(1, Math.ceil(ms / 1000))\<close>\<close>

definition remainingSeconds :: "int \<Rightarrow> int" where
  "remainingSeconds ms = max 1 (- ((- ms) div 1000))"

definition rateLimited :: "int \<Rightarrow> jsv" where
  "rateLimited seconds = obj [(''allow'', JBool False), (''reason'', JStr ''RATE_LIMITED''),
     (''publicCodeHint'', JStr ''RATE_LIMITED''), (''retryAfterSeconds'', JNum seconds)]"

definition guardBeforeAttempt :: "guardOptions \<Rightarrow> jsv \<Rightarrow> clock \<Rightarrow> guardState \<Rightarrow> jsv \<times> guardState" where
  "guardBeforeAttempt opts input clk st =
     (if \<not> isAttemptInput input then (guardErr ''VALIDATION_FAILED'', st)
      else case nowMilliseconds clk of
        None \<Rightarrow> (guardErr ''INTERNAL'', st)
      | Some now \<Rightarrow>
          let st' = pruneExpired now (windowMs opts) st;
              recent = recentOf st' (attemptKey input)
          in if maxFailures opts \<le> length recent then
               (guardOk (rateLimited (case configuredRetryAfterSeconds opts of
                    Some s \<Rightarrow> s | None \<Rightarrow> remainingSeconds (hd recent + windowMs opts - now))), st')
             else (guardOk (obj [(''allow'', JBool True)]), st'))"

text \<open>A counted failure at \<open>now\<close>; \<open>slice(-maxFailures)\<close> keeps the last ones.\<close>

definition recordFailure :: "guardOptions \<Rightarrow> jsv \<Rightarrow> int \<Rightarrow> guardState \<Rightarrow> guardState" where
  "recordFailure opts key now st0 =
     (let st = pruneExpired now (windowMs opts) st0;
          atts = ensureCapacity (attempts st) key (maxKeys opts);
          recent = (case map_of atts key of None \<Rightarrow> [] | Some timestamps \<Rightarrow> timestamps);
          all = recent @ [now];
          updated = drop (length all - maxFailures opts) all;
          atts' = AList.update key updated (AList.delete key atts);
          heap = heapPush (expirations st) \<lparr>exKey = key, expiresAt = hd updated + windowMs opts\<rparr>
      in \<lparr>attempts = atts',
          expirations = (if maxKeys opts * 4 < length heap then rebuildExpirations atts' (windowMs opts)
                         else heap)\<rparr>)"

definition guardAfterAttempt :: "guardOptions \<Rightarrow> jsv \<Rightarrow> clock \<Rightarrow> guardState \<Rightarrow> jsv \<times> guardState" where
  "guardAfterAttempt opts input clk st =
     (if \<not> isAttemptInput input \<or> \<not> isAttemptOutcome (fld input ''outcome'')
      then (guardErr ''VALIDATION_FAILED'', st)
      else if truthy (fld (fld input ''outcome'') ''success'')
      then (guardOk JUndef, st\<lparr>attempts := AList.delete (attemptKey input) (attempts st)\<rparr>)
      else if \<not> truthy (fld (fld input ''outcome'') ''countsAsAttempt'') then (guardOk JUndef, st)
      else case nowMilliseconds clk of
        None \<Rightarrow> (guardErr ''INTERNAL'', st)
      | Some now \<Rightarrow> (guardOk JUndef, recordFailure opts (attemptKey input) now st))"

declare pruneExpired.simps [simp del]

end
