(* ===== verification/GuardProperties.thy ===== *)
theory GuardProperties
  imports GuardMemory Attempts
begin

text \<open>
  Properties of the memory guard: the invariant of its state and the bound on its memory, and the
  abstract guard it implements, which remembers every failure and counts those of the last window.
\<close>

section \<open>The invariant\<close>

definition guardInv :: "guardOptions \<Rightarrow> guardState \<Rightarrow> bool" where
  "guardInv opts st \<longleftrightarrow>
     distinct (map fst (attempts st))
     \<and> length (attempts st) \<le> maxKeys opts
     \<and> is_heap (expirations st)
     \<and> length (expirations st) \<le> maxKeys opts * 4
     \<and> (\<forall>(key, ts) \<in> set (attempts st). ts \<noteq> [] \<and> length ts \<le> maxFailures opts
          \<and> \<lparr>exKey = key, expiresAt = hd ts + windowMs opts\<rparr> \<in> set (expirations st))"

definition optionsValid :: "guardOptions \<Rightarrow> bool" where
  "optionsValid opts \<longleftrightarrow> 0 < maxFailures opts \<and> 0 < windowMs opts \<and> 0 < maxKeys opts"

text \<open>What is kept while entries are popped: the map has an entry of the heap, or of \<open>rest\<close>.\<close>

lemma set_heapPush [simp]: "set (heapPush h v) = insert v (set h)"
  by (metis mset_heapPush set_mset_add_mset_insert set_mset_mset)

lemma length_heapPush [simp]: "length (heapPush h v) = Suc (length h)"
  by (simp add: heapPush_def)

lemma set_heapPop: "heapPop h = Some (e, h') \<Longrightarrow> set h = insert e (set h')"
  by (metis mset_heapPop set_mset_add_mset_insert set_mset_mset)

lemma length_heapPop: "heapPop h = Some (e, h') \<Longrightarrow> length h = Suc (length h')"
  by (metis mset_heapPop size_add_mset size_mset)

lemma length_update: "length (AList.update k v al) = (if k \<in> fst ` set al then length al else Suc (length al))"
  by (induction al) auto

lemma length_delete_le: "length (AList.delete k al) \<le> length al"
  by (simp add: AList.delete_eq)

lemma set_update_distinct:
  "distinct (map fst al) \<Longrightarrow> set (AList.update k v al) = insert (k, v) {p \<in> set al. fst p \<noteq> k}"
  by (induction al) (auto simp: image_iff)

lemma set_delete: "set (AList.delete k al) = {p \<in> set al. fst p \<noteq> k}"
  by (auto simp: AList.delete_eq)

lemma guardInv_dropExpired:
  assumes "guardInv opts st" and "heapPop (expirations st) = Some (expired, rest)"
    and "expiresAt expired \<le> now"
  shows "guardInv opts (dropExpired now (windowMs opts) expired (st\<lparr>expirations := rest\<rparr>))"
proof -
  let ?W = "windowMs opts" and ?k = "exKey expired"
  note popped = set_heapPop [OF assms(2)] length_heapPop [OF assms(2)]
  have heap: "is_heap rest" using assms(1,2) is_heap_pop by (auto simp: guardInv_def)
  have dist: "distinct (map fst (attempts st))" using assms(1) by (simp add: guardInv_def)
  have others: "\<lparr>exKey = key, expiresAt = hd ts + ?W\<rparr> \<in> set rest"
    if "(key, ts) \<in> set (attempts st)" "key \<noteq> ?k \<or> now < hd ts + ?W" for key ts
    using assms(1,3) that popped(1) by (auto simp: guardInv_def)
  have keep: "guardInv opts (st\<lparr>expirations := rest\<rparr>)"
    if "\<And>key ts. (key, ts) \<in> set (attempts st) \<Longrightarrow> key \<noteq> ?k \<or> now < hd ts + ?W"
  proof -
    have "\<forall>(key, ts) \<in> set (attempts st). ts \<noteq> [] \<and> length ts \<le> maxFailures opts
        \<and> \<lparr>exKey = key, expiresAt = hd ts + ?W\<rparr> \<in> set rest"
      using assms(1) others that unfolding guardInv_def by blast
    with assms(1) heap popped(2) show ?thesis by (simp add: guardInv_def)
  qed
  show ?thesis
  proof (cases "map_of (attempts st) ?k")
    case None
    then have "key \<noteq> ?k" if "(key, ts) \<in> set (attempts st)" for key ts
      using that by (auto simp: map_of_eq_None_iff rev_image_eqI)
    with keep None show ?thesis by (simp add: dropExpired_def)
  next
    case (Some ts)
    then have mem: "(?k, ts) \<in> set (attempts st)" by (rule map_of_SomeD)
    let ?recent = "filter (\<lambda>t. now - t < ?W) ts"
    consider "ts \<noteq> []" "now < hd ts + ?W" | "\<not> (ts \<noteq> [] \<and> now < hd ts + ?W)" "?recent = []"
      | "\<not> (ts \<noteq> [] \<and> now < hd ts + ?W)" "?recent \<noteq> []" by blast
    then show ?thesis
    proof cases
      case 1
      have "key \<noteq> ?k \<or> now < hd us + ?W" if "(key, us) \<in> set (attempts st)" for key us
        using that mem 1(2) dist by (metis eq_key_imp_eq_value)
      with keep 1 Some show ?thesis by (simp add: dropExpired_def)
    next
      case 2
      with Some have eq: "dropExpired now ?W expired (st\<lparr>expirations := rest\<rparr>)
        = st\<lparr>attempts := AList.delete ?k (attempts st), expirations := rest\<rparr>"
        by (auto simp: dropExpired_def)
      have "guardInv opts (st\<lparr>attempts := AList.delete ?k (attempts st), expirations := rest\<rparr>)"
        using assms(1) heap popped(2) others length_delete_le [of ?k "attempts st"]
        by (auto simp: guardInv_def set_delete distinct_delete)
      then show ?thesis unfolding eq .
    next
      case 3
      with Some have eq: "dropExpired now ?W expired (st\<lparr>expirations := rest\<rparr>)
        = st\<lparr>attempts := AList.update ?k ?recent (attempts st),
             expirations := heapPush rest \<lparr>exKey = ?k, expiresAt = hd ?recent + ?W\<rparr>\<rparr>"
        by (auto simp: dropExpired_def Let_def)
      have inv: "\<forall>(key, ts) \<in> set (attempts st). ts \<noteq> [] \<and> length ts \<le> maxFailures opts"
        using assms(1) by (auto simp: guardInv_def)
      then have "length ts \<le> maxFailures opts" using mem by blast
      then have len: "length ?recent \<le> maxFailures opts" by (rule le_trans [OF length_filter_le])
      let ?atts = "AList.update ?k ?recent (attempts st)"
      have entries: "\<forall>(key, ts) \<in> set ?atts. ts \<noteq> [] \<and> length ts \<le> maxFailures opts
          \<and> \<lparr>exKey = key, expiresAt = hd ts + ?W\<rparr> \<in> set (heapPush rest \<lparr>exKey = ?k, expiresAt = hd ?recent + ?W\<rparr>)"
        using inv others len 3(2) by (auto simp: set_update_distinct [OF dist])
      have "?k \<in> fst ` set (attempts st)" using mem by force
      then have "length ?atts = length (attempts st)" by (simp add: length_update)
      with assms(1) heap popped(2) entries show ?thesis
        unfolding eq guardInv_def by (simp add: distinct_update is_heap_push)
    qed
  qed
qed

lemma guardInv_prune: "guardInv opts st \<Longrightarrow> guardInv opts (pruneExpired now (windowMs opts) st)"
proof (induction now "windowMs opts" st rule: pruneExpired.induct)
  case (1 now st)
  show ?case
  proof (cases "heapPop (expirations st)")
    case None
    with 1(2) show ?thesis by (subst pruneExpired.simps) simp
  next
    case (Some p)
    obtain expired rest where p: "p = (expired, rest)" by (cases p)
    note pop = Some [unfolded p]
    show ?thesis
    proof (cases "expiresAt (expirations st ! 0) \<le> now")
      case True
      with heapPop_first [OF pop] have "expiresAt expired \<le> now" by simp
      with 1(1) [OF Some p [symmetric]] True guardInv_dropExpired [OF 1(2) pop]
      have "guardInv opts (pruneExpired now (windowMs opts) (dropExpired now (windowMs opts) expired
          (st\<lparr>expirations := rest\<rparr>)))" by blast
      with pop True show ?thesis by (subst pruneExpired.simps) simp
    qed (use 1(2) pop in \<open>subst pruneExpired.simps, simp\<close>)
  qed
qed

lemma set_rebuild:
  "set (rebuildExpirations atts W) = {\<lparr>exKey = key, expiresAt = hd ts + W\<rparr> | key ts. (key, ts) \<in> set atts \<and> ts \<noteq> []}"
  "is_heap (rebuildExpirations atts W)" "length (rebuildExpirations atts W) \<le> length atts"
proof -
  let ?es = "map (\<lambda>(key, timestamps). \<lparr>exKey = key, expiresAt = hd timestamps + W\<rparr>)
         (filter (\<lambda>(key, timestamps). 0 < length timestamps) atts)"
  have eq: "mset (rebuildExpirations atts W) = mset ?es" "is_heap (rebuildExpirations atts W)"
    using heap.fill [OF is_heap_Nil, of ?es] by (simp_all add: rebuildExpirations_def)
  show "is_heap (rebuildExpirations atts W)" by (rule eq(2))
  have "set (rebuildExpirations atts W) = set ?es" using eq(1) by (metis set_mset_mset)
  then show "set (rebuildExpirations atts W)
      = {\<lparr>exKey = key, expiresAt = hd ts + W\<rparr> | key ts. (key, ts) \<in> set atts \<and> ts \<noteq> []}"
    by (force simp: image_iff)
  have "length (rebuildExpirations atts W) = length ?es" using eq(1) by (metis size_mset)
  then show "length (rebuildExpirations atts W) \<le> length atts" by (simp add: length_filter_le)
qed

lemma ensureCapacity_facts:
  assumes "distinct (map fst atts)" and "length atts \<le> limit" and "0 < limit"
  shows "distinct (map fst (ensureCapacity atts key limit))"
    and "set (ensureCapacity atts key limit) \<subseteq> set atts"
    and "length (AList.update key v (AList.delete key (ensureCapacity atts key limit))) \<le> limit"
proof -
  let ?new = "ensureCapacity atts key limit"
  show d: "distinct (map fst ?new)"
    using assms(1) by (auto simp: ensureCapacity_def distinct_delete split: list.splits)
  show "set ?new \<subseteq> set atts" by (auto simp: ensureCapacity_def set_delete split: list.splits)
  have removed: "length (AList.delete k al) < length al" if "k \<in> fst ` set al" for k and al :: "(jsv \<times> int list) list"
    using that by (induction al) (auto simp: length_delete_le less_Suc_eq_le Suc_le_eq intro: rev_image_eqI)
  have "length (AList.delete key ?new) < limit"
  proof (cases "key \<in> fst ` set atts")
    case True
    then have "?new = atts" by (auto simp: ensureCapacity_def map_of_eq_None_iff)
    with removed [OF True] assms(2) show ?thesis by simp
  next
    case False
    then have none: "map_of atts key = None" by (simp add: map_of_eq_None_iff)
    have "length ?new < limit"
    proof (cases atts)
      case (Cons p rest)
      obtain k ts where p: "p = (k, ts)" by (cases p)
      have "length (AList.delete k atts) < length atts" using Cons p by (intro removed) simp
      then show ?thesis using none assms(2) Cons p by (auto simp: ensureCapacity_def)
    qed (use assms(3) none in \<open>simp add: ensureCapacity_def\<close>)
    with length_delete_le [of key ?new] show ?thesis by simp
  qed
  then show "length (AList.update key v (AList.delete key ?new)) \<le> limit"
    by (simp add: length_update set_delete image_iff)
qed

lemma guardInv_recordFailure:
  assumes "guardInv opts st0" and "optionsValid opts"
  shows "guardInv opts (recordFailure opts key now st0)"
proof -
  let ?W = "windowMs opts" and ?M = "maxFailures opts"
  let ?st = "pruneExpired now ?W st0"
  let ?atts = "ensureCapacity (attempts ?st) key (maxKeys opts)"
  let ?all = "(case map_of ?atts key of None \<Rightarrow> [] | Some ts \<Rightarrow> ts) @ [now]"
  let ?updated = "drop (length ?all - ?M) ?all"
  let ?atts' = "AList.update key ?updated (AList.delete key ?atts)"
  let ?heap = "heapPush (expirations ?st) \<lparr>exKey = key, expiresAt = hd ?updated + ?W\<rparr>"
  have inv: "guardInv opts ?st" using assms(1) by (rule guardInv_prune)
  have "distinct (map fst (attempts ?st))" "length (attempts ?st) \<le> maxKeys opts" "0 < maxKeys opts"
    using inv assms(2) by (simp_all add: guardInv_def optionsValid_def)
  note cap = ensureCapacity_facts [OF this, of key]
  have eq: "recordFailure opts key now st0 = \<lparr>attempts = ?atts',
      expirations = (if maxKeys opts * 4 < length ?heap then rebuildExpirations ?atts' ?W else ?heap)\<rparr>"
    by (simp add: recordFailure_def Let_def)
  have dist: "distinct (map fst ?atts')" using cap(1) by (simp add: distinct_update distinct_delete)
  have sub: "set ?atts' \<subseteq> insert (key, ?updated) (set (attempts ?st))"
    using cap(1,2) by (auto simp: set_update_distinct distinct_delete set_delete)
  have upd: "?updated \<noteq> [] \<and> length ?updated \<le> ?M" using assms(2) by (auto simp: optionsValid_def)
  have lists: "ts \<noteq> [] \<and> length ts \<le> ?M" if "(k, ts) \<in> set ?atts'" for k ts
    using that sub upd inv by (auto simp: guardInv_def)
  have inheap: "\<lparr>exKey = k, expiresAt = hd ts + ?W\<rparr> \<in> set ?heap" if "(k, ts) \<in> set ?atts'" for k ts
    using that sub inv by (auto simp: guardInv_def)
  have rebuilt: "\<lparr>exKey = k, expiresAt = hd ts + ?W\<rparr> \<in> set (rebuildExpirations ?atts' ?W)" if "(k, ts) \<in> set ?atts'" for k ts
    using that lists by (auto simp: set_rebuild(1))
  have len: "length (rebuildExpirations ?atts' ?W) \<le> maxKeys opts * 4"
    using set_rebuild(3) [of ?atts' ?W] cap(3) [of ?updated] by simp
  have hp: "is_heap ?heap" using inv by (simp add: guardInv_def is_heap_push)
  show ?thesis
    unfolding eq guardInv_def guardState.simps
    using dist cap(3) [of ?updated] lists inheap rebuilt len hp set_rebuild(2) [of ?atts' ?W] by auto
qed

section \<open>Pruning is filtering\<close>

text \<open>The abstract guard only counts what is still in the window.\<close>

abbreviation alive :: "int \<Rightarrow> int \<Rightarrow> int list \<Rightarrow> int list" where
  "alive now window \<equiv> filter (\<lambda>t. now - t < window)"

lemma recentOf_dropExpired:
  "recentOf (dropExpired now W expired st) key
     \<in> {recentOf st key, alive now W (recentOf st key)}"
  by (auto simp: dropExpired_def recentOf_def Let_def update_conv' delete_conv' split: option.splits)

lemma recentOf_prune:
  "recentOf (pruneExpired now W st) key \<in> {recentOf st key, alive now W (recentOf st key)}"
proof (induction now W st rule: pruneExpired.induct)
  case (1 now W st)
  show ?case
  proof (cases "heapPop (expirations st)")
    case None
    then show ?thesis by (subst pruneExpired.simps) simp
  next
    case (Some p)
    obtain expired rest where p: "p = (expired, rest)" by (cases p)
    show ?thesis
    proof (cases "expiresAt (expirations st ! 0) \<le> now")
      case True
      let ?st = "dropExpired now W expired (st\<lparr>expirations := rest\<rparr>)"
      have "pruneExpired now W st = pruneExpired now W ?st"
        using Some p True by (subst pruneExpired.simps) simp
      moreover have "recentOf ?st key \<in> {recentOf st key, alive now W (recentOf st key)}"
        using recentOf_dropExpired [of now W expired "st\<lparr>expirations := rest\<rparr>" key] by (simp add: recentOf_def)
      moreover have "recentOf (pruneExpired now W ?st) key \<in> {recentOf ?st key, alive now W (recentOf ?st key)}"
        using 1 Some p True by blast
      ultimately show ?thesis by auto
    qed (use Some p in \<open>subst pruneExpired.simps, simp\<close>)
  qed
qed

lemma prune_nothing_due:
  "is_heap (expirations st) \<Longrightarrow> e \<in> set (expirations (pruneExpired now W st)) \<Longrightarrow> now < expiresAt e"
proof (induction now W st rule: pruneExpired.induct)
  case (1 now W st)
  show ?case
  proof (cases "heapPop (expirations st)")
    case None
    with 1(3) show ?thesis by (simp add: pruneExpired.simps heapPop_None)
  next
    case (Some p)
    obtain expired rest where p: "p = (expired, rest)" by (cases p)
    note pop = Some [unfolded p]
    show ?thesis
    proof (cases "expiresAt (expirations st ! 0) \<le> now")
      case True
      let ?st = "dropExpired now W expired (st\<lparr>expirations := rest\<rparr>)"
      have eq: "pruneExpired now W st = pruneExpired now W ?st"
        using Some p True by (subst pruneExpired.simps) simp
      have "is_heap (expirations ?st)"
        using is_heap_pop [OF 1(2) pop] by (auto simp: dropExpired_def Let_def is_heap_push split: option.splits)
      with 1(1) [OF Some p [symmetric]] 1(3) True show ?thesis unfolding eq by blast
    next
      case False
      with pop 1(3) have "e \<in> set (expirations st)" by (simp add: pruneExpired.simps)
      with heap.nothing_due [OF 1(2) pop] heapPop_first [OF pop] False show ?thesis by simp
    qed
  qed
qed

lemma sorted_all_alive: "sorted ts \<Longrightarrow> now < hd ts + W \<Longrightarrow> alive now W ts = ts"
  by (cases ts) (auto simp: filter_id_conv)

lemma prune_filters:
  assumes "guardInv opts st" and "sorted (recentOf st key)"
  shows "recentOf (pruneExpired now (windowMs opts) st) key = alive now (windowMs opts) (recentOf st key)"
proof -
  let ?W = "windowMs opts"
  let ?st = "pruneExpired now ?W st"
  let ?ts = "recentOf ?st key"
  have "alive now ?W ?ts = ?ts"
  proof (cases "?ts = []")
    case False
    then have "(key, ?ts) \<in> set (attempts ?st)"
      by (auto simp: recentOf_def dest: map_of_SomeD split: option.splits)
    with guardInv_prune [OF assms(1)]
    have "\<lparr>exKey = key, expiresAt = hd ?ts + ?W\<rparr> \<in> set (expirations ?st)" unfolding guardInv_def by blast
    with prune_nothing_due [of st _ now ?W] assms(1) have "now < hd ?ts + ?W" by (fastforce simp: guardInv_def)
    moreover have "sorted ?ts" using recentOf_prune [of now ?W st key] assms(2) by (auto simp: sorted_wrt_filter)
    ultimately show ?thesis by (rule sorted_all_alive [rotated])
  qed simp
  with recentOf_prune [of now ?W st key] show ?thesis by auto
qed

end
