(* ===== verification/GuardWindow.thy ===== *)
theory GuardWindow
  imports GuardProperties
begin

text \<open>
  The abstract guard: per key, every counted failure since the last success. The memory guard
  keeps only the last ones, prunes and rebuilds, and yet answers as the abstract guard would,
  counting the failures of the last window.
\<close>

section \<open>What is kept of the failures\<close>

definition tracks :: "nat \<Rightarrow> int \<Rightarrow> int list \<Rightarrow> int list \<Rightarrow> int \<Rightarrow> bool" where
  "tracks limit window ts failures t \<longleftrightarrow> sorted failures \<and> (\<forall>x \<in> set failures. x \<le> t)
     \<and> (\<exists>old. failures = old @ ts \<and> (limit \<le> length ts \<or> (\<forall>x \<in> set old. x + window \<le> t)))"

lemma tracks_sorted: "tracks M W ts fs t \<Longrightarrow> sorted ts \<and> (\<forall>x \<in> set ts. x \<le> t)"
  by (auto simp: tracks_def sorted_append)

lemma alive_suffix:
  assumes "sorted ts"
  obtains dead where "ts = dead @ alive now W ts" and "\<forall>x \<in> set dead. x + W \<le> now"
proof -
  have "\<exists>dead. ts = dead @ alive now W ts \<and> (\<forall>x \<in> set dead. x + W \<le> now)"
    using assms
  proof (induction ts)
    case (Cons a ts)
    show ?case
    proof (cases "now - a < W")
      case True
      with Cons.prems have "alive now W ts = ts" by (auto simp: filter_id_conv)
      with True show ?thesis by simp
    next
      case False
      from Cons obtain dead where "ts = dead @ alive now W ts" "\<forall>x \<in> set dead. x + W \<le> now" by auto
      with False show ?thesis by (intro exI [of _ "a # dead"]) auto
    qed
  qed simp
  with that show ?thesis by blast
qed

lemma tracks_alive:
  assumes "tracks M W ts fs t" and "t \<le> now"
  shows "tracks M W (alive now W ts) fs now"
proof -
  from assms obtain old where old: "fs = old @ ts" "M \<le> length ts \<or> (\<forall>x \<in> set old. x + W \<le> t)"
    and s: "sorted fs" "\<forall>x \<in> set fs. x \<le> t" by (auto simp: tracks_def)
  then have "sorted ts" by (simp add: sorted_append)
  then obtain dead where dead: "ts = dead @ alive now W ts" "\<forall>x \<in> set dead. x + W \<le> now"
    by (rule alive_suffix)
  have later: "\<forall>x \<in> set fs. x \<le> now" using s(2) assms(2) by auto
  show ?thesis
  proof (cases "dead = []")
    case True
    then have "alive now W ts = ts" using dead(1) by simp
    with old s(1) later assms(2) show ?thesis by (fastforce simp: tracks_def)
  next
    case False
    have "x + W \<le> now" if "x \<in> set old" for x
    proof -
      have "x \<le> hd dead" using s(1) old(1) dead(1) that False hd_in_set [OF False]
        by (metis Un_iff set_append sorted_append)
      with dead(2) hd_in_set [OF False] show ?thesis by fastforce
    qed
    with dead(2) have "\<forall>x \<in> set (old @ dead). x + W \<le> now" by auto
    moreover have "fs = (old @ dead) @ alive now W ts" using old(1) dead(1) by simp
    ultimately show ?thesis using s(1) later unfolding tracks_def by blast
  qed
qed


lemma tracks_failure:
  assumes "tracks M W ts fs now"
  shows "tracks M W (drop (length (ts @ [now]) - M) (ts @ [now])) (fs @ [now]) now"
proof -
  let ?n = "length (ts @ [now]) - M"
  from assms obtain old where old: "fs = old @ ts" "M \<le> length ts \<or> (\<forall>x \<in> set old. x + W \<le> now)"
    and s: "sorted fs" "\<forall>x \<in> set fs. x \<le> now" by (auto simp: tracks_def)
  have "fs @ [now] = (old @ take ?n (ts @ [now])) @ drop ?n (ts @ [now])"
    using old(1) by (metis append.assoc append_take_drop_id)
  moreover have "M \<le> length (drop ?n (ts @ [now])) \<or> (\<forall>x \<in> set (old @ take ?n (ts @ [now])). x + W \<le> now)"
    using old(2) by (cases "?n = 0") auto
  moreover have "sorted (fs @ [now])" "\<forall>x \<in> set (fs @ [now]). x \<le> now" using s by (auto simp: sorted_append)
  ultimately show ?thesis unfolding tracks_def by blast
qed

section \<open>Histories\<close>

definition hasRoom :: "guardOptions \<Rightarrow> jsv \<Rightarrow> int \<Rightarrow> guardState \<Rightarrow> bool" where
  "hasRoom opts key now st =
     (let atts = attempts (pruneExpired now (windowMs opts) st)
      in map_of atts key \<noteq> None \<or> length atts < maxKeys opts)"

definition countedFailure :: "jsv \<Rightarrow> bool" where
  "countedFailure input = (isAttemptOutcome (fld input ''outcome'')
     \<and> \<not> truthy (fld (fld input ''outcome'') ''success'') \<and> truthy (fld (fld input ''outcome'') ''countsAsAttempt''))"

definition reportedSuccess :: "jsv \<Rightarrow> bool" where
  "reportedSuccess input = (isAttemptOutcome (fld input ''outcome'') \<and> truthy (fld (fld input ''outcome'') ''success''))"

text \<open>
  The states a guard can be in after calls at times that do not go back and with room for the
  keys that fail, each with the failures the abstract guard remembers and the time of the last call.
\<close>

inductive guardHistory :: "guardOptions \<Rightarrow> guardState \<Rightarrow> (jsv \<Rightarrow> int list) \<Rightarrow> int \<Rightarrow> bool"
  for opts :: guardOptions where
  fresh: "guardHistory opts noAttempts (\<lambda>_. []) t"
| asked: "guardHistory opts (snd (guardBeforeAttempt opts input clk st)) failures now"
  if "guardHistory opts st failures t" and "nowMilliseconds clk = Some now" and "t \<le> now"
| succeeded: "guardHistory opts (snd (guardAfterAttempt opts input clk st)) (failures(attemptKey input := [])) t"
  if "guardHistory opts st failures t" and "isAttemptInput input" and "reportedSuccess input"
| failed: "guardHistory opts (snd (guardAfterAttempt opts input clk st))
      (failures(attemptKey input := failures (attemptKey input) @ [now])) now"
  if "guardHistory opts st failures t" and "nowMilliseconds clk = Some now" and "t \<le> now"
    and "isAttemptInput input" and "countedFailure input" and "hasRoom opts (attemptKey input) now st"
| ignored: "guardHistory opts (snd (guardAfterAttempt opts input clk st)) failures t"
  if "guardHistory opts st failures t"
    and "\<not> isAttemptInput input \<or> \<not> reportedSuccess input \<and> \<not> countedFailure input"

lemma recentOf_recordFailure:
  assumes "hasRoom opts key now st"
  shows "recentOf (recordFailure opts key now st) k =
    (let ts = recentOf (pruneExpired now (windowMs opts) st) k in
     if k = key then drop (length (ts @ [now]) - maxFailures opts) (ts @ [now]) else ts)"
proof -
  let ?st = "pruneExpired now (windowMs opts) st"
  have "ensureCapacity (attempts ?st) key (maxKeys opts) = attempts ?st"
    using assms by (auto simp: ensureCapacity_def hasRoom_def Let_def)
  then show ?thesis
    by (simp add: recordFailure_def recentOf_def Let_def update_conv' delete_conv' split: option.splits)
qed

lemma guardHistory_inv:
  assumes "guardHistory opts st failures t" and "optionsValid opts"
  shows "guardInv opts st \<and> (\<forall>k. tracks (maxFailures opts) (windowMs opts) (recentOf st k) (failures k) t)"
  using assms(1)
proof induction
  case (fresh t)
  then show ?case by (simp add: guardInv_def noAttempts_def is_heap_Nil recentOf_def tracks_def)
next
  case (asked st failures t clk now input)
  let ?W = "windowMs opts" and ?st = "pruneExpired now (windowMs opts) st"
  have "tracks (maxFailures opts) ?W (recentOf ?st k) (failures k) now" for k
  proof -
    have "tracks (maxFailures opts) ?W (recentOf st k) (failures k) t" using asked.IH by blast
    with prune_filters [of opts st k now] tracks_sorted tracks_alive asked.IH asked.hyps(3) show ?thesis by metis
  qed
  moreover have "tracks (maxFailures opts) ?W (recentOf st k) (failures k) now" for k
    using asked.IH asked.hyps(3) unfolding tracks_def by (meson order_trans)
  ultimately show ?case
    using asked.IH asked.hyps(2) guardInv_prune [of opts st now]
    by (simp add: guardBeforeAttempt_def Let_def)
next
  case (succeeded st failures t input clk)
  let ?del = "AList.delete (attemptKey input) (attempts st)"
  have eq: "snd (guardAfterAttempt opts input clk st) = st\<lparr>attempts := ?del\<rparr>"
    using succeeded by (simp add: guardAfterAttempt_def reportedSuccess_def)
  have "guardInv opts (st\<lparr>attempts := ?del\<rparr>)"
    using succeeded.IH length_delete_le [of "attemptKey input" "attempts st"]
    by (auto simp: guardInv_def set_delete distinct_delete)
  moreover have "tracks (maxFailures opts) (windowMs opts) (recentOf (st\<lparr>attempts := ?del\<rparr>) k)
      ((failures(attemptKey input := [])) k) t" for k
    using succeeded.IH by (simp add: recentOf_def delete_conv' tracks_def)
  ultimately show ?case unfolding eq by blast
next
  case (failed st failures t clk now input)
  let ?W = "windowMs opts" and ?M = "maxFailures opts" and ?key = "attemptKey input"
  have eq: "snd (guardAfterAttempt opts input clk st) = recordFailure opts ?key now st"
    using failed by (simp add: guardAfterAttempt_def countedFailure_def)
  have "tracks ?M ?W (recentOf (pruneExpired now ?W st) k) (failures k) now" for k
  proof -
    have "tracks ?M ?W (recentOf st k) (failures k) t" using failed.IH by blast
    with prune_filters [of opts st k now] tracks_sorted tracks_alive failed.IH failed.hyps(3) show ?thesis by metis
  qed
  then have "tracks ?M ?W (recentOf (recordFailure opts ?key now st) k)
      ((failures(?key := failures ?key @ [now])) k) now" for k
    unfolding recentOf_recordFailure [OF failed.hyps(6)] Let_def
    by (cases "k = ?key") (simp_all add: tracks_failure del: length_append drop_append)
  with guardInv_recordFailure [OF _ assms(2)] failed.IH show ?case unfolding eq by blast
next
  case (ignored st failures t input clk)
  then have "snd (guardAfterAttempt opts input clk st) = st"
    by (auto simp: guardAfterAttempt_def reportedSuccess_def countedFailure_def)
  with ignored.IH show ?case by simp
qed

section \<open>Properties\<close>

definition allowedAttempt :: jsv where
  "allowedAttempt = guardOk (obj [(''allow'', JBool True)])"

lemma guardBeforeAttempt_answer:
  assumes "isAttemptInput input" and "nowMilliseconds clk = Some now"
  shows "fst (guardBeforeAttempt opts input clk st) =
    (let recent = recentOf (pruneExpired now (windowMs opts) st) (attemptKey input) in
     if maxFailures opts \<le> length recent then guardOk (rateLimited (case configuredRetryAfterSeconds opts of
          Some s \<Rightarrow> s | None \<Rightarrow> remainingSeconds (hd recent + windowMs opts - now)))
     else allowedAttempt)"
  using assms by (simp add: guardBeforeAttempt_def allowedAttempt_def Let_def)



definition small_guard :: guardOptions where
  "small_guard = \<lparr>maxFailures = 1, windowMs = 1000, configuredRetryAfterSeconds = None, maxKeys = 10\<rparr>"

definition login_attempt :: "jsv \<Rightarrow> jsv" where
  "login_attempt outcome = obj [(''context'', obj [(''tenantId'', JStr ''t'')]), (''operation'', JStr ''authenticate''),
     (''method'', obj [(''methodId'', JStr ''password''), (''methodKind'', JStr ''password'')]),
     (''outcome'', outcome)]"

definition wrong_password :: jsv where
  "wrong_password = obj [(''success'', JBool False), (''reason'', JStr ''PASSWORD_MISMATCH''),
     (''countsAsAttempt'', JBool True)]"

lemma login_facts:
  "isAttemptInput (login_attempt wrong_password)" "countedFailure (login_attempt wrong_password)"
  "optionsValid small_guard" "hasRoom small_guard k 100 noAttempts" "isAttemptOutcome wrong_password"
  "fld (login_attempt outcome) ''outcome'' = outcome" "\<not> truthy (fld wrong_password ''success'')"
  "truthy (fld wrong_password ''countsAsAttempt'')"
  by (simp_all add: isAttemptInput_def login_attempt_def countedFailure_def isAttemptOutcome_def wrong_password_def
      no_control_def is_control_def optionsValid_def small_guard_def hasRoom_def noAttempts_def
      pruneExpired.simps heapPop_def)


text \<open>Any sequence of calls, at any times.\<close>

datatype guardCall = CallBefore jsv clock | CallAfter jsv clock

fun guardStep :: "guardOptions \<Rightarrow> guardCall \<Rightarrow> guardState \<Rightarrow> guardState" where
  "guardStep opts (CallBefore input clk) st = snd (guardBeforeAttempt opts input clk st)"
| "guardStep opts (CallAfter input clk) st = snd (guardAfterAttempt opts input clk st)"

definition guardRun :: "guardOptions \<Rightarrow> guardCall list \<Rightarrow> guardState" where
  "guardRun opts calls = fold (guardStep opts) calls noAttempts"

lemma guardInv_step: "optionsValid opts \<Longrightarrow> guardInv opts st \<Longrightarrow> guardInv opts (guardStep opts c st)"
  by (cases c)
    (auto simp: guardBeforeAttempt_def guardAfterAttempt_def Let_def guardInv_prune guardInv_recordFailure
      guardInv_def [of _ "attempts_update _ _"] set_delete distinct_delete
      intro: order_trans [OF length_delete_le] dest: guardInv_def [THEN iffD1] split: option.splits)

lemma guardInv_run: "optionsValid opts \<Longrightarrow> guardInv opts (guardRun opts calls)"
proof -
  assume valid: "optionsValid opts"
  have "guardInv opts st \<Longrightarrow> guardInv opts (fold (guardStep opts) calls st)" for st
    using guardInv_step [OF valid] by (induction calls arbitrary: st) simp_all
  then show ?thesis by (simp add: guardRun_def guardInv_def noAttempts_def is_heap_Nil)
qed

text \<open>
  C24. The guard's memory is bounded, whatever is called and whatever the clock says: at most
  \<open>maxKeys\<close> keys with at most \<open>maxFailures\<close> times each, and at most four heap entries per key, in
  heap order.
\<close>

theorem guard_memory_bounded:
  assumes "optionsValid opts"
  shows "length (attempts (guardRun opts calls)) \<le> maxKeys opts
    \<and> length (expirations (guardRun opts calls)) \<le> 4 * maxKeys opts
    \<and> list_all (\<lambda>(key, times). times \<noteq> [] \<and> length times \<le> maxFailures opts) (attempts (guardRun opts calls))
    \<and> is_heap (expirations (guardRun opts calls))"
  using guardInv_run [OF assms, of calls] by (auto simp: guardInv_def list_all_iff)

lemma guard_memory_bounded_witness:
  "length (attempts (guardRun small_guard [CallAfter (login_attempt wrong_password) (ClockNumber (Some 5))])) \<le> 10"
  using guard_memory_bounded [OF login_facts(3)] by (simp add: small_guard_def)




lemma json_list_Cons_eq:
  "json_list (x # xs) = json_list (y # ys) \<longleftrightarrow>
     (case json_tree x of None \<Rightarrow> JNull | Some v \<Rightarrow> v) = (case json_tree y of None \<Rightarrow> JNull | Some v \<Rightarrow> v)
     \<and> json_list xs = json_list ys"
  by simp

definition textOrMissing :: "jsv \<Rightarrow> bool" where
  "textOrMissing v = (v = JUndef \<or> is_str v)"

lemma json_text_inj:
  assumes "textOrMissing v" and "textOrMissing w"
    and "(case json_tree v of None \<Rightarrow> JNull | Some x \<Rightarrow> x) = (case json_tree w of None \<Rightarrow> JNull | Some x \<Rightarrow> x)"
  shows "v = w"
  using assms by (cases v; cases w) (simp_all add: textOrMissing_def)

lemma safe_textOrMissing: "isSafeText v n b \<Longrightarrow> textOrMissing v"
  by (cases v) (simp_all add: textOrMissing_def)

lemma isAttemptInput_texts:
  assumes "isAttemptInput input"
  shows "textOrMissing (fld (fld input ''context'') ''tenantId'')" "textOrMissing (fld input ''operation'')"
    "textOrMissing (fld input ''challengeId'')" "textOrMissing (fld (fld input ''method'') ''methodId'')"
    "textOrMissing (fld (fld input ''method'') ''methodKind'')" "textOrMissing (fld (fld input ''lookup'') ''methodId'')"
    "textOrMissing (fld (fld input ''lookup'') ''methodKind'')" "textOrMissing (fld (fld input ''lookup'') ''subjectKind'')"
    "textOrMissing (fld (fld input ''lookup'') ''subject'')"
proof -
  note input = assms [unfolded isAttemptInput_def]
  have "textOrMissing (fld (fld input ''lookup'') k)" if "k \<in> {''methodId'', ''methodKind'', ''subjectKind'', ''subject''}" for k
  proof (cases "fld input ''lookup'' = JUndef")
    case False
    with input that show ?thesis by (auto simp del: fld.simps fld_obj intro: safe_textOrMissing)
  qed (simp add: textOrMissing_def)
  then show "textOrMissing (fld (fld input ''lookup'') ''methodId'')" "textOrMissing (fld (fld input ''lookup'') ''methodKind'')"
    "textOrMissing (fld (fld input ''lookup'') ''subjectKind'')" "textOrMissing (fld (fld input ''lookup'') ''subject'')"
    by simp_all
  show "textOrMissing (fld input ''operation'')"
    using input by (auto simp: textOrMissing_def simp del: fld.simps fld_obj)
  show "textOrMissing (fld input ''challengeId'')"
    using input by (auto simp: textOrMissing_def simp del: fld.simps fld_obj dest: safe_textOrMissing)
  show "textOrMissing (fld (fld input ''context'') ''tenantId'')" "textOrMissing (fld (fld input ''method'') ''methodId'')"
    "textOrMissing (fld (fld input ''method'') ''methodKind'')"
    using input by (blast intro: safe_textOrMissing)+
qed

text \<open>
  C26. Attempts are counted separately: two accepted inputs share a key only when tenant,
  operation, challenge, method and looked-up identity agree.
\<close>

theorem guard_keys_separate:
  assumes "isAttemptInput a" and "isAttemptInput b" and "attemptKey a = attemptKey b"
  shows "fld (fld a ''context'') ''tenantId'' = fld (fld b ''context'') ''tenantId''
    \<and> fld a ''operation'' = fld b ''operation'' \<and> fld a ''challengeId'' = fld b ''challengeId''
    \<and> fld (fld a ''method'') ''methodId'' = fld (fld b ''method'') ''methodId''
    \<and> fld (fld a ''method'') ''methodKind'' = fld (fld b ''method'') ''methodKind''
    \<and> fld (fld a ''lookup'') ''methodId'' = fld (fld b ''lookup'') ''methodId''
    \<and> fld (fld a ''lookup'') ''methodKind'' = fld (fld b ''lookup'') ''methodKind''
    \<and> fld (fld a ''lookup'') ''subjectKind'' = fld (fld b ''lookup'') ''subjectKind''
    \<and> fld (fld a ''lookup'') ''subject'' = fld (fld b ''lookup'') ''subject''"
  using assms(3) unfolding attemptKey_def jsv.inject json_list_Cons_eq
  by (elim conjE, intro conjI)
    (erule json_text_inj [OF isAttemptInput_texts(1) [OF assms(1)] isAttemptInput_texts(1) [OF assms(2)]]
      json_text_inj [OF isAttemptInput_texts(2) [OF assms(1)] isAttemptInput_texts(2) [OF assms(2)]]
      json_text_inj [OF isAttemptInput_texts(3) [OF assms(1)] isAttemptInput_texts(3) [OF assms(2)]]
      json_text_inj [OF isAttemptInput_texts(4) [OF assms(1)] isAttemptInput_texts(4) [OF assms(2)]]
      json_text_inj [OF isAttemptInput_texts(5) [OF assms(1)] isAttemptInput_texts(5) [OF assms(2)]]
      json_text_inj [OF isAttemptInput_texts(6) [OF assms(1)] isAttemptInput_texts(6) [OF assms(2)]]
      json_text_inj [OF isAttemptInput_texts(7) [OF assms(1)] isAttemptInput_texts(7) [OF assms(2)]]
      json_text_inj [OF isAttemptInput_texts(8) [OF assms(1)] isAttemptInput_texts(8) [OF assms(2)]]
      json_text_inj [OF isAttemptInput_texts(9) [OF assms(1)] isAttemptInput_texts(9) [OF assms(2)]])+

lemma guard_keys_separate_witness:
  "fld (fld (login_attempt wrong_password) ''method'') ''methodId'' = fld (fld (login_attempt JUndef) ''method'') ''methodId''"
proof -
  have "isAttemptInput (login_attempt JUndef)" "attemptKey (login_attempt wrong_password) = attemptKey (login_attempt JUndef)"
    by (simp_all add: isAttemptInput_def login_attempt_def no_control_def is_control_def attemptKey_def)
  from guard_keys_separate [OF login_facts(1) this] show ?thesis by blast
qed

lemma guardErr_accepted: "isGuardResult (guardErr ''VALIDATION_FAILED'')" "isGuardResult (guardErr ''INTERNAL'')"
  by code_simp+

lemma rateLimited_accepted:
  assumes "0 < n" and "n \<le> max_safe_integer"
  shows "isGuardResult (guardOk (rateLimited n))"
proof -
  have "isSafeReason (JStr ''RATE_LIMITED'')" by code_simp
  with assms show ?thesis
    by (simp add: isGuardResult_def guardOk_def rateLimited_def isGuardDecision_def hasOnlyKeys_def isPositiveInteger_def)
qed

lemma resolveGuardOptions_SomeD:
  assumes "resolveGuardOptions options = Some opts"
  shows "optionsValid opts" and "windowMs opts \<le> max_safe_integer"
    and "configuredRetryAfterSeconds opts = Some n \<Longrightarrow> 0 < n \<and> n \<le> max_safe_integer"
  using assms
  by (auto simp: resolveGuardOptions_def optionsOk_def Let_def optionsValid_def isPositiveInteger_iff
      simp del: fld.simps fld_obj split: if_splits)

lemma remainingSeconds_bounds: "ms \<le> bound \<Longrightarrow> 1 \<le> bound \<Longrightarrow> 1 \<le> remainingSeconds ms \<and> remainingSeconds ms \<le> bound"
proof -
  assume ms: "ms \<le> bound" "1 \<le> bound"
  have "(- bound) div 1000 \<le> (- ms) div 1000" using ms(1) by (intro zdiv_mono1) simp_all
  moreover have "- bound \<le> (- bound) div 1000" using ms(2) by linarith
  ultimately show ?thesis using ms(2) by (simp add: remainingSeconds_def)
qed

text \<open>
  Core accepts every answer of the memory guard: under accepted options, whatever it is asked,
  the answer passes core's check of guard results, so an attempt never fails for a malformed one.
\<close>

theorem guard_answers_accepted:
  assumes "resolveGuardOptions options = Some opts" and "guardHistory opts st failures t"
    and "nowMilliseconds clk = Some now" and "t \<le> now"
  shows "isGuardResult (fst (guardBeforeAttempt opts input clk st))"
proof (cases "isAttemptInput input")
  case False
  then show ?thesis using guardErr_accepted by (simp add: guardBeforeAttempt_def)
next
  case True
  let ?W = "windowMs opts" and ?key = "attemptKey input"
  note opts = resolveGuardOptions_SomeD [OF assms(1)]
  have inv: "guardInv opts st" and tr: "tracks (maxFailures opts) ?W (recentOf st ?key) (failures ?key) t"
    using guardHistory_inv [OF assms(2) opts(1)] by auto
  let ?recent = "recentOf (pruneExpired now ?W st) ?key"
  have "x \<le> now" if "x \<in> set ?recent" for x
    using that recentOf_prune [of now ?W st ?key] tracks_sorted [OF tr] assms(4) by fastforce
  then have "hd ?recent + ?W - now \<le> ?W" if "?recent \<noteq> []" using that by simp
  then have rem: "0 < remainingSeconds (hd ?recent + ?W - now)
      \<and> remainingSeconds (hd ?recent + ?W - now) \<le> max_safe_integer" if "?recent \<noteq> []"
    using that remainingSeconds_bounds [of "hd ?recent + ?W - now" ?W] opts(1,2) by (simp add: optionsValid_def)
  have "isGuardResult allowedAttempt" unfolding allowedAttempt_def by code_simp
  moreover have "?recent \<noteq> []" if "maxFailures opts \<le> length ?recent" using that opts(1) by (auto simp: optionsValid_def)
  ultimately show ?thesis
    using rem opts(3) rateLimited_accepted
    by (auto simp: guardBeforeAttempt_answer [OF True assms(3)] Let_def split: option.splits)
qed

lemma guard_answers_accepted_witness:
  "isGuardResult (fst (guardBeforeAttempt (the (resolveGuardOptions JUndef)) JNull (ClockNumber (Some 1)) noAttempts))"
proof -
  have "resolveGuardOptions JUndef \<noteq> None"
    by (simp add: resolveGuardOptions_def optionsOk_def coalesce_def nullish_def isPositiveInteger_def max_safe_integer_def)
  then obtain opts where opts: "resolveGuardOptions JUndef = Some opts" by blast
  have "guardHistory opts noAttempts (\<lambda>_. []) 0" by (rule guardHistory.fresh)
  from guard_answers_accepted [OF opts this, of "ClockNumber (Some 1)" 1] opts show ?thesis by simp
qed

text \<open>A window that is no whole number of seconds is accepted.\<close>

lemma fractional_window: "map_option windowMs (resolveGuardOptions (obj [(''windowSeconds'', JFrac 1 2)])) = Some 500"
  by (simp add: resolveGuardOptions_def optionsOk_def coalesce_def nullish_def isPositiveInteger_def max_safe_integer_def)

end
