(* ===== verification/MemoryRecords.thy ===== *)
theory MemoryRecords
  imports StoreValidation
begin

text \<open>
  What the memory stores of \<open>packages/testkit\<close> keep: \<open>secrets/factory.ts\<close>, the copies of
  \<open>stores/state.ts\<close> (\<open>cloneRecord\<close>, \<open>snapshotRecord\<close>) and the record checks of
  \<open>stores/record-validation.ts\<close>. Its \<open>isJsonValue\<close> is line by line the check of core, so the
  function \<open>isJsonValue\<close> of \<open>InputValidation\<close> stands for it; \<open>isSafeText\<close> and the key sets that
  are the same are shared as well.
\<close>

section \<open>Secret values\<close>

text \<open>
  \<open>makeProtectedValue\<close> and \<open>makeSealedSecretValue\<close>. The redaction the store gives is the default
  text, which \<open>normalizeRedaction\<close> returns in every case.
\<close>

definition makeProtectedValue :: "jsv \<Rightarrow> string \<Rightarrow> jsv \<Rightarrow> jsv \<Rightarrow> jsv" where
  "makeProtectedValue scheme v keyId createdAt =
     obj [(''type'', JStr ''protected-value''), (''scheme'', scheme), (''redacted'', redacted_text),
       (''keyId'', keyId), (''createdAt'', createdAt),
       (''revealForPersistence'', JFun (Some (JStr v))), (''toJSON'', JFun (Some redacted_text))]"

definition makeSealedSecretValue :: "string \<Rightarrow> jsv \<Rightarrow> jsv \<Rightarrow> jsv \<Rightarrow> jsv" where
  "makeSealedSecretValue ciphertext algorithm keyId expiresAt =
     obj [(''type'', JStr ''sealed-secret''), (''algorithm'', algorithm), (''keyId'', keyId),
       (''redacted'', redacted_text), (''expiresAt'', expiresAt),
       (''revealCiphertextForPersistence'', JFun (Some (JStr ciphertext))), (''toJSON'', JFun (Some redacted_text))]"

section \<open>Copies\<close>

definition optionalText :: "jsv \<Rightarrow> bool" where
  "optionalText v = (v = JUndef \<or> is_str v)"

definition optionalDate :: "jsv \<Rightarrow> bool" where
  "optionalDate v = (v = JUndef \<or> isValidDate v)"

definition persistedText :: "jsv option \<Rightarrow> bool" where
  "persistedText r = (case r of Some (JStr s) \<Rightarrow> 0 < length s \<and> length s \<le> 5000000 | _ \<Rightarrow> False)"

definition text_of :: "jsv option \<Rightarrow> string" where
  "text_of r = (case r of Some (JStr s) \<Rightarrow> s | _ \<Rightarrow> '''')"

text \<open>The two branches of \<open>cloneRecord\<close> for secret values; \<open>None\<close> is the thrown \<open>TypeError\<close>.\<close>

definition cloneProtected :: "jsv \<Rightarrow> jsv option" where
  "cloneProtected v =
     (let verifier = call_thunk (fld v ''revealForPersistence'') in
      if \<not> hasOnlyKeys v protectedValueKeys then None
      else if \<not> is_str (fld v ''scheme'') \<or> \<not> optionalText (fld v ''keyId'')
         \<or> \<not> optionalDate (fld v ''createdAt'')
         \<or> \<not> is_fun (fld v ''revealForPersistence'') \<or> \<not> is_fun (fld v ''toJSON'') then None
      else if \<not> persistedText verifier then None
      else Some (makeProtectedValue (fld v ''scheme'') (text_of verifier) (fld v ''keyId'') (fld v ''createdAt'')))"

definition cloneSealed :: "jsv \<Rightarrow> jsv option" where
  "cloneSealed v =
     (let ciphertext = call_thunk (fld v ''revealCiphertextForPersistence'') in
      if \<not> hasOnlyKeys v sealedValueKeys then None
      else if \<not> is_str (fld v ''algorithm'') \<or> \<not> is_str (fld v ''keyId'')
         \<or> \<not> optionalDate (fld v ''expiresAt'')
         \<or> \<not> is_fun (fld v ''revealCiphertextForPersistence'') \<or> \<not> is_fun (fld v ''toJSON'') then None
      else if \<not> persistedText ciphertext then None
      else Some (makeSealedSecretValue (text_of ciphertext) (fld v ''algorithm'') (fld v ''keyId'') (fld v ''expiresAt'')))"

fun cloneRecord :: "jsv \<Rightarrow> jsv option"
  and cloneItems :: "jsv list \<Rightarrow> jsv list option"
  and cloneEntries :: "(string \<times> jsv) list \<Rightarrow> (string \<times> jsv) list option" where
  "cloneRecord (JArr xs) = map_option JArr (cloneItems xs)"
| "cloneRecord (JBytes bs) = Some (JObj True (obj_entries (JBytes bs)))"
| "cloneRecord (JObj p kvs) =
     (let v = JObj p kvs; kind = fld v ''type'' in
      if kind = JStr ''protected-value'' then cloneProtected v
      else if kind = JStr ''sealed-secret'' then cloneSealed v
      else if kind = JStr ''raw-secret'' then Some (obj [(''type'', JStr ''raw-secret'')])
      else map_option (JObj True) (cloneEntries kvs))"
| "cloneRecord v = Some v"
| "cloneItems [] = Some []"
| "cloneItems (x # xs) =
     (case cloneRecord x of None \<Rightarrow> None | Some y \<Rightarrow> map_option (\<lambda>ys. y # ys) (cloneItems xs))"
| "cloneEntries [] = Some []"
| "cloneEntries ((k, x) # kvs) =
     (case cloneRecord x of None \<Rightarrow> None | Some y \<Rightarrow> map_option (\<lambda>ys. (k, y) # ys) (cloneEntries kvs))"

definition snapshotRecord :: "jsv \<Rightarrow> (jsv \<Rightarrow> bool) \<Rightarrow> jsv option" where
  "snapshotRecord v validator =
     (case cloneRecord v of
        None \<Rightarrow> None
      | Some snapshot \<Rightarrow> if validator snapshot then Some snapshot else None)"

definition snapshotDate :: "jsv \<Rightarrow> jsv option" where
  "snapshotDate v = (if isValidDate v then Some v else None)"

section \<open>Record checks\<close>

definition isIdentifier :: "jsv \<Rightarrow> bool" where
  "isIdentifier v = isSafeText v 512 True"

definition memPublicData :: "jsv \<Rightarrow> bool" where
  "memPublicData v = (v = JUndef \<or> isPlainObject v \<and> isJsonValue v 0 start_traversal \<noteq> None)"

definition isRuntimeProtectedValue :: "jsv \<Rightarrow> bool" where
  "isRuntimeProtectedValue v =
     (isRecord v \<and> hasOnlyKeys v protectedValueKeys
      \<and> fld v ''type'' = JStr ''protected-value''
      \<and> isSafeText (fld v ''scheme'') 256 True
      \<and> is_str (fld v ''redacted'')
      \<and> (fld v ''keyId'' = JUndef \<or> isSafeText (fld v ''keyId'') 512 False)
      \<and> (fld v ''createdAt'' = JUndef \<or> isValidDate (fld v ''createdAt''))
      \<and> is_fun (fld v ''revealForPersistence'')
      \<and> is_fun (fld v ''toJSON'')
      \<and> \<not> hasFunction v ''reveal'' \<and> \<not> hasFunction v ''revealCiphertextForPersistence'')"

definition isRuntimeSealedValue :: "jsv \<Rightarrow> bool" where
  "isRuntimeSealedValue v =
     (isRecord v \<and> hasOnlyKeys v sealedValueKeys
      \<and> fld v ''type'' = JStr ''sealed-secret''
      \<and> isSafeText (fld v ''algorithm'') 256 True
      \<and> isSafeText (fld v ''keyId'') 512 True
      \<and> is_str (fld v ''redacted'')
      \<and> (fld v ''expiresAt'' = JUndef \<or> isValidDate (fld v ''expiresAt''))
      \<and> is_fun (fld v ''revealCiphertextForPersistence'')
      \<and> is_fun (fld v ''toJSON'')
      \<and> \<not> hasFunction v ''reveal'' \<and> \<not> hasFunction v ''revealForPersistence'')"

text \<open>The entries of private data, with the budget shared by those that are JSON.\<close>

fun memPrivateEntries :: "(string \<times> jsv) list \<Rightarrow> traversal \<Rightarrow> bool" where
  "memPrivateEntries [] st = True"
| "memPrivateEntries ((key, item) # rest) st =
     (isSafeText (JStr key) 512 True
      \<and> (if isRuntimeProtectedValue item \<or> isRuntimeSealedValue item then memPrivateEntries rest st
         else case isJsonValue item 0 st of None \<Rightarrow> False | Some st' \<Rightarrow> memPrivateEntries rest st'))"

definition memPrivateData :: "jsv \<Rightarrow> bool" where
  "memPrivateData v =
     (v = JUndef \<or> isRecord v \<and> length (obj_keys v) \<le> 1000 \<and> memPrivateEntries (obj_entries v) start_traversal)"

definition memMethodMaterial :: "jsv \<Rightarrow> bool" where
  "memMethodMaterial v =
     (isRecord v \<and> hasOnlyKeys v materialKeys
      \<and> isIdentifier (fld v ''schemaVersion'')
      \<and> memPublicData (fld v ''publicData'')
      \<and> memPrivateData (fld v ''privateData''))"

definition memIdentityLookup :: "jsv \<Rightarrow> bool" where
  "memIdentityLookup v =
     (v = JUndef \<or> isRecord v \<and> hasOnlyKeys v [''display'', ''methodId'', ''methodKind'', ''subject'', ''subjectKind'']
      \<and> isIdentifier (fld v ''methodId'') \<and> isIdentifier (fld v ''methodKind'')
      \<and> isSafeText (fld v ''subject'') 2048 True \<and> isIdentifier (fld v ''subjectKind'')
      \<and> (fld v ''display'' = JUndef \<or> isSafeText (fld v ''display'') 512 False))"

definition memAccountMode :: "jsv \<Rightarrow> bool" where
  "memAccountMode v =
     (isRecord v \<and> hasOnlyKeys v [''mode'']
      \<and> fld v ''mode'' \<in> {JStr ''create-new-account'', JStr ''require-existing-identity'',
          JStr ''create-account-if-identity-missing'', JStr ''link-to-actor-account''})"

definition memSessionRequest :: "jsv \<Rightarrow> bool" where
  "memSessionRequest v =
     (v = JUndef \<or> isRecord v \<and> hasOnlyKeys v [''ttlSeconds'']
      \<and> (fld v ''ttlSeconds'' = JUndef \<or> is_safe_integer (fld v ''ttlSeconds'') \<and> 0 < num_val (fld v ''ttlSeconds'')))"

definition memActor :: "jsv \<Rightarrow> bool" where
  "memActor v =
     (if v = JUndef then True
      else if \<not> isRecord v then False
      else if fld v ''type'' = JStr ''anonymous'' then hasOnlyKeys v [''type'']
      else if fld v ''type'' = JStr ''account'' then
        hasOnlyKeys v [''accountId'', ''type''] \<and> isIdentifier (fld v ''accountId'')
      else if fld v ''type'' = JStr ''system'' then
        hasOnlyKeys v [''name'', ''type''] \<and> isIdentifier (fld v ''name'')
      else False)"

definition memChallengeBinding :: "jsv \<Rightarrow> bool" where
  "memChallengeBinding v =
     (isRecord v \<and> hasOnlyKeys v bindingKeys
      \<and> memAccountMode (fld v ''account'')
      \<and> memSessionRequest (fld v ''session'')
      \<and> memActor (fld v ''startedByActor''))"

definition memAccountRecord :: "jsv \<Rightarrow> bool" where
  "memAccountRecord v =
     (isRecord v \<and> hasOnlyKeys v accountKeys
      \<and> isIdentifier (fld v ''tenantId'') \<and> isIdentifier (fld v ''accountId'')
      \<and> fld v ''status'' \<in> {JStr ''active'', JStr ''disabled'', JStr ''deleted''}
      \<and> memPublicData (fld v ''publicData'')
      \<and> isValidDate (fld v ''createdAt'') \<and> isValidDate (fld v ''updatedAt''))"

definition memIdentityRecord :: "jsv \<Rightarrow> bool" where
  "memIdentityRecord v =
     (isRecord v \<and> hasOnlyKeys v identityKeys
      \<and> isIdentifier (fld v ''tenantId'') \<and> isIdentifier (fld v ''identityId'')
      \<and> isIdentifier (fld v ''accountId'') \<and> isIdentifier (fld v ''methodId'')
      \<and> isIdentifier (fld v ''methodKind'')
      \<and> isSafeText (fld v ''subject'') 2048 True
      \<and> isIdentifier (fld v ''subjectKind'')
      \<and> (fld v ''display'' = JUndef \<or> isSafeText (fld v ''display'') 2048 False)
      \<and> (fld v ''verifiedAt'' = JUndef \<or> isValidDate (fld v ''verifiedAt''))
      \<and> isValidDate (fld v ''createdAt'') \<and> isValidDate (fld v ''updatedAt''))"

definition memCredentialRecord :: "jsv \<Rightarrow> bool" where
  "memCredentialRecord v =
     (isRecord v \<and> hasOnlyKeys v credentialKeys
      \<and> isIdentifier (fld v ''tenantId'') \<and> isIdentifier (fld v ''credentialId'')
      \<and> isIdentifier (fld v ''accountId'') \<and> isIdentifier (fld v ''identityId'')
      \<and> isIdentifier (fld v ''methodId'') \<and> isIdentifier (fld v ''methodKind'')
      \<and> fld v ''status'' \<in> {JStr ''active'', JStr ''disabled''}
      \<and> memMethodMaterial (fld v ''material'')
      \<and> isPositiveInteger (fld v ''version'')
      \<and> isValidDate (fld v ''createdAt'') \<and> isValidDate (fld v ''updatedAt''))"

definition memSessionRecord :: "jsv \<Rightarrow> bool" where
  "memSessionRecord v =
     (isRecord v \<and> hasOnlyKeys v sessionKeys
      \<and> isIdentifier (fld v ''tenantId'') \<and> isIdentifier (fld v ''sessionId'')
      \<and> isIdentifier (fld v ''accountId'')
      \<and> isRuntimeProtectedValue (fld v ''tokenHash'')
      \<and> fld v ''status'' \<in> {JStr ''active'', JStr ''revoked'', JStr ''expired''}
      \<and> isValidDate (fld v ''issuedAt'') \<and> isValidDate (fld v ''expiresAt'')
      \<and> date_less (fld v ''issuedAt'') (fld v ''expiresAt'')
      \<and> (fld v ''revokedAt'' = JUndef \<or> isValidDate (fld v ''revokedAt''))
      \<and> (fld v ''status'' = JStr ''revoked'') = (fld v ''revokedAt'' \<noteq> JUndef)
      \<and> isValidDate (fld v ''createdAt'') \<and> isValidDate (fld v ''updatedAt''))"

definition memChallengeRecord :: "jsv \<Rightarrow> bool" where
  "memChallengeRecord v =
     (isRecord v \<and> hasOnlyKeys v challengeKeys
      \<and> isIdentifier (fld v ''tenantId'') \<and> isIdentifier (fld v ''challengeId'')
      \<and> isIdentifier (fld v ''methodId'') \<and> isIdentifier (fld v ''methodKind'')
      \<and> memIdentityLookup (fld v ''lookup'')
      \<and> fld v ''status'' \<in> {JStr ''pending'', JStr ''consumed'', JStr ''expired'', JStr ''failed''}
      \<and> memMethodMaterial (fld v ''material'')
      \<and> memChallengeBinding (fld v ''binding'')
      \<and> isNonNegativeInteger (fld v ''attempts'')
      \<and> isPositiveInteger (fld v ''maxAttempts'')
      \<and> num_val (fld v ''attempts'') \<le> num_val (fld v ''maxAttempts'')
      \<and> isPositiveInteger (fld v ''version'')
      \<and> isValidDate (fld v ''expiresAt'')
      \<and> (fld v ''consumedAt'' = JUndef \<or> isValidDate (fld v ''consumedAt''))
      \<and> (fld v ''status'' = JStr ''consumed'') = (fld v ''consumedAt'' \<noteq> JUndef)
      \<and> isValidDate (fld v ''createdAt'') \<and> isValidDate (fld v ''updatedAt''))"

section \<open>Copies of copies\<close>

text \<open>A copy is a fixed point, so what a store hands out is what it has stored.\<close>

lemma persistedText_Some: "persistedText r \<Longrightarrow> r = Some (JStr (text_of r))"
  by (auto simp: persistedText_def text_of_def split: option.splits jsv.splits)

lemma cloneProtected_idem: "cloneProtected v = Some w \<Longrightarrow> cloneRecord w = Some w"
  by (auto simp: cloneProtected_def makeProtectedValue_def Let_def hasOnlyKeys_def protectedValueKeys_def
      persistedText_def text_of_def optionalText_def split: if_splits option.splits jsv.splits)

lemma cloneSealed_idem: "cloneSealed v = Some w \<Longrightarrow> cloneRecord w = Some w"
  by (auto simp: cloneSealed_def makeSealedSecretValue_def Let_def hasOnlyKeys_def sealedValueKeys_def
      persistedText_def text_of_def split: if_splits option.splits jsv.splits)

lemma cloneRecord_text: "cloneRecord x = Some (JStr s) \<longleftrightarrow> x = JStr s"
  by (cases x) (auto simp: cloneProtected_def cloneSealed_def makeProtectedValue_def makeSealedSecretValue_def
      Let_def split: if_splits)

lemma cloneEntries_fld:
  "cloneEntries kvs = Some lvs \<Longrightarrow>
     fld (JObj p kvs) k = JStr s \<longleftrightarrow> fld (JObj q lvs) k = JStr s"
  by (induction kvs arbitrary: lvs) (auto simp: cloneRecord_text split: option.splits if_splits)

lemma cloneEntries_map_of:
  "cloneEntries kvs = Some lvs \<Longrightarrow> map_of kvs k = Some v \<Longrightarrow> \<exists>w. cloneRecord v = Some w \<and> map_of lvs k = Some w"
  by (induction kvs arbitrary: lvs) (auto split: option.splits if_splits)

lemma cloneEntries_keys: "cloneEntries kvs = Some lvs \<Longrightarrow> map fst lvs = map fst kvs"
  by (induction kvs arbitrary: lvs) (auto split: option.splits)

lemma cloneItems_numbers: "cloneEntries (map (\<lambda>(i, b). (f i, JNum (g b))) xs) = Some (map (\<lambda>(i, b). (f i, JNum (g b))) xs)"
  by (induction xs) auto

lemma number_entries_no_text: "map_of (map (\<lambda>(i, b). (f i, JNum (g b))) xs) k \<noteq> Some (JStr s)"
  by (induction xs) auto

lemma clone_bytes: "cloneRecord (JObj True (obj_entries (JBytes bs))) = Some (JObj True (obj_entries (JBytes bs)))"
proof -
  have "fld (JObj True (obj_entries (JBytes bs))) ''type'' \<noteq> JStr s" for s
    using number_entries_no_text [of js_string_of_nat int "enumerate 0 bs" "''type''" s]
    by (auto split: option.splits)
  then show ?thesis using cloneItems_numbers [of js_string_of_nat int "enumerate 0 bs"]
    by (simp add: Let_def del: fld.simps fld_obj)
qed

lemma clone_idem:
  "cloneRecord v = Some w \<Longrightarrow> cloneRecord w = Some w"
  "cloneItems xs = Some ys \<Longrightarrow> cloneItems ys = Some ys"
  "cloneEntries kvs = Some lvs \<Longrightarrow> cloneEntries lvs = Some lvs"
proof (induction v and xs and kvs arbitrary: w and ys and lvs rule: cloneRecord_cloneItems_cloneEntries.induct)
  case (2 bs)
  then have "w = JObj True (obj_entries (JBytes bs))" by (simp del: obj_entries.simps)
  then show ?case by (simp only: clone_bytes)
next
  case (3 p kvs)
  let ?kind = "fld (JObj p kvs) ''type''"
  show ?case
  proof (cases "?kind \<in> {JStr ''protected-value'', JStr ''sealed-secret'', JStr ''raw-secret''}")
    case True
    with 3(2) show ?thesis
      by (auto simp: Let_def simp del: fld.simps fld_obj dest: cloneProtected_idem cloneSealed_idem) (simp_all add: Let_def)
  next
    case False
    with 3(2) obtain lvs where lvs: "cloneEntries kvs = Some lvs" "w = JObj True lvs"
      by (auto simp: Let_def simp del: fld.simps fld_obj)
    with False cloneEntries_fld [OF lvs(1), of p "''type''" _ True] 3(1) show ?thesis
      by (auto simp: Let_def simp del: fld.simps fld_obj)
  qed
qed (auto split: option.splits)

lemma snapshotRecord_SomeD:
  "snapshotRecord v validator = Some r \<Longrightarrow> validator r \<and> cloneRecord r = Some r"
  by (auto simp: snapshotRecord_def dest: clone_idem(1) split: option.splits if_splits)

end
