(* ===== verification/MemoryState.thy ===== *)
theory MemoryState
  imports MemoryRecords Transaction "HOL-Library.AList"
begin

text \<open>
  \<open>packages/testkit/src/stores/state.ts\<close> and \<open>transaction.ts\<close>: the maps of the memory store and
  its transactions, for a store without outbox. A \<open>Map\<close> is an association list in insertion
  order. What it holds is compared by reference in the source: every stored object carries the
  number of its creation, and two are the same object when the numbers are; the strings of the
  index maps have the number 0 and are compared by value. Stored objects are never modified.
\<close>

section \<open>Maps\<close>

datatype stateKey = SAccounts | SIdentities | SIdentitySubjects | SCredentials | SCredentialsByIdentity
  | SSessions | SSessionsByTokenHash | SChallenges

type_synonym cell = "nat \<times> jsv"
type_synonym cells = "(jsv \<times> cell) list"
type_synonym memoryState = "stateKey \<Rightarrow> cells"

definition stateKeys :: "stateKey list" where
  "stateKeys = [SAccounts, SIdentities, SIdentitySubjects, SCredentials, SCredentialsByIdentity, SSessions,
     SSessionsByTokenHash, SChallenges]"

fun scopeStateKeys :: "jsv \<Rightarrow> stateKey list" where
  "scopeStateKeys (JStr s) =
     (if s = ''accounts'' then [SAccounts]
      else if s = ''identities'' then [SIdentities, SIdentitySubjects]
      else if s = ''credentials'' then [SCredentials, SCredentialsByIdentity]
      else if s = ''sessions'' then [SSessions, SSessionsByTokenHash]
      else if s = ''challenges'' then [SChallenges]
      else [])"
| "scopeStateKeys _ = []"

definition emptyState :: memoryState where
  "emptyState = (\<lambda>_. [])"

fun same_object :: "cell \<Rightarrow> cell \<Rightarrow> bool" where
  "same_object (i, v) (j, w) = (i = j \<and> (i = 0 \<longrightarrow> v = w))"

definition entryMatches :: "cells \<Rightarrow> cells \<Rightarrow> jsv \<Rightarrow> bool" where
  "entryMatches left right key =
     (case (map_of left key, map_of right key) of
        (None, None) \<Rightarrow> True
      | (Some a, Some b) \<Rightarrow> same_object a b
      | _ \<Rightarrow> False)"

definition mapsMatch :: "cells \<Rightarrow> cells \<Rightarrow> bool" where
  "mapsMatch left right =
     (length left = length right \<and> list_all (entryMatches left right) (map fst left))"

text \<open>\<open>new Set([...before.keys(), ...working.keys()])\<close>\<close>

definition unionKeys :: "cells \<Rightarrow> cells \<Rightarrow> jsv list" where
  "unionKeys before working = map fst before @ filter (\<lambda>k. k \<notin> fst ` set before) (map fst working)"

definition hasConflict :: "cells \<Rightarrow> cells \<Rightarrow> cells \<Rightarrow> bool" where
  "hasConflict base before working =
     list_ex (\<lambda>key. \<not> entryMatches before working key \<and> \<not> entryMatches before base key)
       (unionKeys before working)"

definition applyChange :: "cells \<Rightarrow> cells \<Rightarrow> jsv \<Rightarrow> cells \<Rightarrow> cells" where
  "applyChange before working key base =
     (if entryMatches before working key then base
      else case map_of working key of
             Some v \<Rightarrow> AList.update key v base
           | None \<Rightarrow> AList.delete key base)"

definition applyChanges :: "cells \<Rightarrow> cells \<Rightarrow> cells \<Rightarrow> cells" where
  "applyChanges base before working = fold (applyChange before working) (unionKeys before working) base"

definition canCommitTransactionState :: "memoryState \<Rightarrow> memoryState \<Rightarrow> memoryState \<Rightarrow> jsv list \<Rightarrow> bool" where
  "canCommitTransactionState state before working scopes =
     (list_all (\<lambda>key. mapsMatch (state key) (before key)) (concat (map scopeStateKeys scopes))
      \<and> \<not> list_ex (\<lambda>key. hasConflict (state key) (before key) (working key)) stateKeys)"

definition applyTransactionState :: "memoryState \<Rightarrow> memoryState \<Rightarrow> memoryState \<Rightarrow> memoryState" where
  "applyTransactionState state before working =
     fold (\<lambda>key st. st(key := applyChanges (st key) (before key) (working key))) stateKeys state"

section \<open>Keys\<close>

text \<open>A template literal; other values than these never reach a key of the stores.\<close>

fun template :: "jsv \<Rightarrow> string" where
  "template (JStr s) = s"
| "template JUndef = ''undefined''"
| "template JNull = ''null''"
| "template (JBool True) = ''true''"
| "template (JBool False) = ''false''"
| "template (JNum n) = (if n < 0 then CHR ''-'' # js_string_of_nat (nat (- n)) else js_string_of_nat (nat n))"
| "template _ = ''[object Object]''"

fun joinKey :: "jsv list \<Rightarrow> string" where
  "joinKey [] = ''''"
| "joinKey [p] = template p"
| "joinKey (p # q # ps) = template p @ CHR 0x00 # joinKey (q # ps)"

definition accountKey :: "jsv \<Rightarrow> jsv \<Rightarrow> jsv" where
  "accountKey tenantId accountId = JStr (joinKey [tenantId, accountId])"

definition identityKey :: "jsv \<Rightarrow> jsv \<Rightarrow> jsv" where
  "identityKey tenantId identityId = JStr (joinKey [tenantId, identityId])"

definition identitySubjectKey :: "jsv \<Rightarrow> jsv \<Rightarrow> jsv \<Rightarrow> jsv" where
  "identitySubjectKey tenantId mid subject = JStr (joinKey [tenantId, mid, subject])"

definition credentialKey :: "jsv \<Rightarrow> jsv \<Rightarrow> jsv" where
  "credentialKey tenantId credentialId = JStr (joinKey [tenantId, credentialId])"

definition credentialIdentityKey :: "jsv \<Rightarrow> jsv \<Rightarrow> jsv \<Rightarrow> jsv" where
  "credentialIdentityKey tenantId identityId mid = JStr (joinKey [tenantId, identityId, mid])"

definition sessionKey :: "jsv \<Rightarrow> jsv \<Rightarrow> jsv" where
  "sessionKey tenantId sessionId = JStr (joinKey [tenantId, sessionId])"

definition challengeKey :: "jsv \<Rightarrow> jsv \<Rightarrow> jsv" where
  "challengeKey tenantId challengeId = JStr (joinKey [tenantId, challengeId])"

fun non_empty_text :: "jsv \<Rightarrow> bool" where
  "non_empty_text (JStr s) = (s \<noteq> '''')"
| "non_empty_text _ = False"

text \<open>The JSON text of the parts, as the tree it denotes; \<open>None\<close> is \<open>null\<close>.\<close>

definition tokenHashKey :: "jsv \<Rightarrow> jsv \<Rightarrow> jsv option" where
  "tokenHashKey tenantId tokenHash =
     (let scheme = fld tokenHash ''scheme'';
          keyId = coalesce (fld tokenHash ''keyId'') (JStr '''')
      in case call_thunk (fld tokenHash ''revealForPersistence'') of
           None \<Rightarrow> None
         | Some verifier \<Rightarrow>
             if \<not> non_empty_text tenantId \<or> \<not> non_empty_text scheme \<or> \<not> is_str keyId
                \<or> \<not> non_empty_text verifier then None
             else Some (JArr [tenantId, scheme, keyId, verifier]))"

section \<open>The world of a memory store\<close>

text \<open>
  \<open>state\<close> of the store, the transactions that are running (the weak map \<open>transactionStates\<close>; a
  transaction is known by its object, which carries its number), the number of the last
  transaction and of the last object that was stored.
\<close>

record memoryWorld =
  baseState :: memoryState
  transactionStates :: "(jsv \<times> memoryState) list"
  transactionSequence :: nat
  allocated :: nat

definition emptyWorld :: memoryWorld where
  "emptyWorld = \<lparr>baseState = emptyState, transactionStates = [], transactionSequence = 0, allocated = 0\<rparr>"

definition memoryStateFor :: "memoryWorld \<Rightarrow> string \<Rightarrow> jsv \<Rightarrow> memoryState option" where
  "memoryStateFor w scope tx =
     (if \<not> truthy tx then Some (baseState w)
      else case map_of (transactionStates w) tx of
             None \<Rightarrow> None
           | Some working \<Rightarrow> if JStr scope \<in> set (arr_elems (fld tx ''covers'')) then Some working else None)"

text \<open>Writing to the maps that \<open>memoryStateFor\<close> returned.\<close>

definition putState :: "jsv \<Rightarrow> memoryState \<Rightarrow> memoryWorld \<Rightarrow> memoryWorld" where
  "putState tx st w =
     (if \<not> truthy tx then w\<lparr>baseState := st\<rparr>
      else w\<lparr>transactionStates := AList.update tx st (transactionStates w)\<rparr>)"

section \<open>Transactions\<close>

definition supportedScopes :: "jsv list" where
  "supportedScopes = [JStr ''accounts'', JStr ''identities'', JStr ''credentials'', JStr ''sessions'', JStr ''challenges'']"

definition isTransactionRequest :: "jsv \<Rightarrow> bool" where
  "isTransactionRequest v =
     (isRecord v \<and> length (obj_keys v) = 1
      \<and> is_arr (fld v ''requiredScopes'')
      \<and> (let scopes = arr_elems (fld v ''requiredScopes'') in
           scopes \<noteq> [] \<and> length scopes \<le> 1000 \<and> distinct (map read_elem scopes)
           \<and> arr_every (\<lambda>scope. isSafeText scope 512 True \<and> scope \<in> set supportedScopes) scopes))"

definition transactionError :: jsv where
  "transactionError = obj [(''ok'', JBool False), (''error'', obj [(''type'', JStr ''component.failure''),
     (''component'', JStr ''transaction''), (''reason'', JStr ''TRANSACTION_FAILED'')])]"

definition newTransaction :: "nat \<Rightarrow> jsv list \<Rightarrow> jsv" where
  "newTransaction n scopes = obj [(''transactionId'', JStr (''tx_'' @ js_string_of_nat n)),
     (''covers'', JArr (map read_elem scopes))]"

definition beginTransaction :: "jsv list \<Rightarrow> memoryWorld \<Rightarrow> jsv \<times> memoryWorld" where
  "beginTransaction scopes w =
     (let n = transactionSequence w + 1; tx = newTransaction n scopes
      in (tx, w\<lparr>transactionSequence := n,
                transactionStates := AList.update tx (baseState w) (transactionStates w)\<rparr>))"

text \<open>What happens once the callback has answered, in the world it left behind.\<close>

definition settleTransaction ::
  "jsv \<Rightarrow> memoryState \<Rightarrow> jsv outcome \<Rightarrow> memoryWorld \<Rightarrow> jsv \<times> memoryWorld" where
  "settleTransaction tx before answer w =
     (let closed = w\<lparr>transactionStates := AList.delete tx (transactionStates w)\<rparr>;
          working = (case map_of (transactionStates w) tx of None \<Rightarrow> before | Some st \<Rightarrow> st)
      in case answer of
           Throw \<Rightarrow> (transactionError, closed)
         | Ret result \<Rightarrow>
             if nullish result then (transactionError, closed)
             else if truthy (fld result ''ok'') then
               (if canCommitTransactionState (baseState w) before working (arr_elems (fld tx ''covers''))
                then (result, closed\<lparr>baseState := applyTransactionState (baseState w) before working\<rparr>)
                else (transactionError, closed))
             else (result, closed))"

text \<open>
  \<open>run\<close>. The queue lets one transaction in at a time; whoever waits does so before \<open>before\<close> is
  read, so the world given here is the one in which it is its turn.
\<close>

definition memoryRun :: "jsv \<Rightarrow> memoryWorld \<Rightarrow> memoryWorld txprog" where
  "memoryRun request w =
     (if \<not> isTransactionRequest request then TxDone (Ret transactionError) w
      else case beginTransaction (arr_elems (fld request ''requiredScopes'')) w of
        (tx, opened) \<Rightarrow> TxCall tx opened (\<lambda>answer w2.
          case settleTransaction tx (baseState w) answer w2 of (result, closed) \<Rightarrow> TxDone (Ret result) closed))"

end
