(* ===== verification/MemoryStores.thy ===== *)
theory MemoryStores
  imports MemoryState
begin

text \<open>
  The operations of the memory stores, \<open>packages/testkit/src/stores/accounts.ts\<close>,
  \<open>identities.ts\<close>, \<open>credentials.ts\<close>, \<open>sessions.ts\<close> and \<open>challenges.ts\<close>, each from the input
  object (which callers always give), the transaction or \<open>undefined\<close>, and the world to the
  outcome of the call and the new world.
\<close>

section \<open>Results\<close>

definition memOk :: "jsv \<Rightarrow> jsv" where
  "memOk v = obj [(''ok'', JBool True), (''value'', v)]"

definition memErr :: "jsv \<Rightarrow> jsv" where
  "memErr e = obj [(''ok'', JBool False), (''error'', e)]"

definition memStoreFailure :: "string \<Rightarrow> jsv \<Rightarrow> jsv" where
  "memStoreFailure reason details = obj [(''type'', JStr ''component.failure''), (''component'', JStr ''store''),
     (''reason'', JStr reason), (''details'', details)]"

abbreviation refuse :: "string \<Rightarrow> memoryWorld \<Rightarrow> jsv outcome \<times> memoryWorld" where
  "refuse reason w \<equiv> (Ret (memErr (memStoreFailure reason JUndef)), w)"

text \<open>\<open>ok(cloneRecord(record))\<close> and \<open>ok(cloneRecord(map.get(key)) ?? null)\<close>.\<close>

definition answerRecord :: "jsv \<Rightarrow> jsv outcome" where
  "answerRecord v = (case cloneRecord v of None \<Rightarrow> Throw | Some c \<Rightarrow> Ret (memOk c))"

definition contentOf :: "cell option \<Rightarrow> jsv" where
  "contentOf c = (case c of None \<Rightarrow> JUndef | Some (_, v) \<Rightarrow> v)"

definition answerFound :: "cell option \<Rightarrow> jsv outcome" where
  "answerFound c = (case cloneRecord (contentOf c) of None \<Rightarrow> Throw | Some v \<Rightarrow> Ret (memOk (coalesce v JNull)))"

text \<open>A new object in a map, and a string in an index.\<close>

definition setCell :: "stateKey \<Rightarrow> jsv \<Rightarrow> nat \<Rightarrow> jsv \<Rightarrow> memoryState \<Rightarrow> memoryState" where
  "setCell k key n v st = st(k := AList.update key (n, v) (st k))"

definition fresh :: "memoryWorld \<Rightarrow> nat" where
  "fresh w = Suc (allocated w)"

definition putFresh :: "jsv \<Rightarrow> memoryState \<Rightarrow> memoryWorld \<Rightarrow> memoryWorld" where
  "putFresh tx st w = putState tx st (w\<lparr>allocated := fresh w\<rparr>)"

section \<open>Accounts\<close>

definition canTransitionAccountStatus :: "jsv \<Rightarrow> jsv \<Rightarrow> bool" where
  "canTransitionAccountStatus from to =
     (if from = JStr ''active'' then to = JStr ''disabled'' \<or> to = JStr ''deleted''
      else if from = JStr ''disabled'' then to = JStr ''active'' \<or> to = JStr ''deleted''
      else False)"

definition accountsCreate :: "jsv \<Rightarrow> jsv \<Rightarrow> memoryWorld \<Rightarrow> jsv outcome \<times> memoryWorld" where
  "accountsCreate input tx w =
     (case memoryStateFor w ''accounts'' tx of
        None \<Rightarrow> refuse ''STORE_UNAVAILABLE'' w
      | Some current \<Rightarrow>
      case snapshotRecord (fld input ''record'') memAccountRecord of
        None \<Rightarrow> refuse ''STORE_UNAVAILABLE'' w
      | Some rec \<Rightarrow>
      let key = accountKey (fld rec ''tenantId'') (fld rec ''accountId'') in
      if map_of (current SAccounts) key \<noteq> None then refuse ''STORE_UNAVAILABLE'' w
      else (answerRecord rec, putFresh tx (setCell SAccounts key (fresh w) rec current) w))"

definition accountsFindById :: "jsv \<Rightarrow> jsv \<Rightarrow> memoryWorld \<Rightarrow> jsv outcome \<times> memoryWorld" where
  "accountsFindById input tx w =
     (case memoryStateFor w ''accounts'' tx of
        None \<Rightarrow> refuse ''STORE_UNAVAILABLE'' w
      | Some current \<Rightarrow>
          (answerFound (map_of (current SAccounts) (accountKey (fld input ''tenantId'') (fld input ''accountId''))), w))"

definition accountsUpdateStatus :: "jsv \<Rightarrow> jsv \<Rightarrow> memoryWorld \<Rightarrow> jsv outcome \<times> memoryWorld" where
  "accountsUpdateStatus input tx w =
     (case memoryStateFor w ''accounts'' tx of
        None \<Rightarrow> refuse ''STORE_UNAVAILABLE'' w
      | Some current \<Rightarrow>
      case snapshotDate (fld input ''now'') of
        None \<Rightarrow> refuse ''STORE_UNAVAILABLE'' w
      | Some now \<Rightarrow>
      let key = accountKey (fld input ''tenantId'') (fld input ''accountId'') in
      case map_of (current SAccounts) key of
        None \<Rightarrow> refuse ''ACCOUNT_NOT_FOUND'' w
      | Some (_, rec) \<Rightarrow>
      if \<not> canTransitionAccountStatus (fld rec ''status'') (fld input ''status'') then refuse ''STORE_UNAVAILABLE'' w
      else let updated = spread rec [(''status'', fld input ''status''), (''updatedAt'', now)] in
        (answerRecord updated, putFresh tx (setCell SAccounts key (fresh w) updated current) w))"

section \<open>Identities\<close>

definition identitiesCreate :: "jsv \<Rightarrow> jsv \<Rightarrow> memoryWorld \<Rightarrow> jsv outcome \<times> memoryWorld" where
  "identitiesCreate input tx w =
     (case (memoryStateFor w ''identities'' tx, memoryStateFor w ''accounts'' tx) of
        (Some current, Some accounts) \<Rightarrow>
          (case snapshotRecord (fld input ''record'') memIdentityRecord of
             None \<Rightarrow> refuse ''STORE_UNAVAILABLE'' w
           | Some rec \<Rightarrow>
          if map_of (accounts SAccounts) (accountKey (fld rec ''tenantId'') (fld rec ''accountId'')) = None
          then refuse ''ACCOUNT_NOT_FOUND'' w
          else let key = identityKey (fld rec ''tenantId'') (fld rec ''identityId'');
                   subjectKey = identitySubjectKey (fld rec ''tenantId'') (fld rec ''methodId'') (fld rec ''subject'')
            in if map_of (current SIdentities) key \<noteq> None \<or> map_of (current SIdentitySubjects) subjectKey \<noteq> None
            then refuse ''IDENTITY_CONFLICT'' w
            else (answerRecord rec, putFresh tx
                   (setCell SIdentitySubjects subjectKey 0 (fld rec ''identityId'')
                     (setCell SIdentities key (fresh w) rec current)) w))
      | _ \<Rightarrow> refuse ''STORE_UNAVAILABLE'' w)"

definition identitiesFindById :: "jsv \<Rightarrow> jsv \<Rightarrow> memoryWorld \<Rightarrow> jsv outcome \<times> memoryWorld" where
  "identitiesFindById input tx w =
     (case memoryStateFor w ''identities'' tx of
        None \<Rightarrow> refuse ''STORE_UNAVAILABLE'' w
      | Some current \<Rightarrow>
          (answerFound (map_of (current SIdentities) (identityKey (fld input ''tenantId'') (fld input ''identityId''))), w))"

definition identitiesFindBySubject :: "jsv \<Rightarrow> jsv \<Rightarrow> memoryWorld \<Rightarrow> jsv outcome \<times> memoryWorld" where
  "identitiesFindBySubject input tx w =
     (case memoryStateFor w ''identities'' tx of
        None \<Rightarrow> refuse ''STORE_UNAVAILABLE'' w
      | Some current \<Rightarrow>
      let identityId = contentOf (map_of (current SIdentitySubjects)
            (identitySubjectKey (fld input ''tenantId'') (fld input ''methodId'') (fld input ''subject'')))
      in if \<not> truthy identityId then (Ret (memOk JNull), w)
         else (answerFound (map_of (current SIdentities) (identityKey (fld input ''tenantId'') identityId)), w))"

definition identitiesMarkVerified :: "jsv \<Rightarrow> jsv \<Rightarrow> memoryWorld \<Rightarrow> jsv outcome \<times> memoryWorld" where
  "identitiesMarkVerified input tx w =
     (case memoryStateFor w ''identities'' tx of
        None \<Rightarrow> refuse ''STORE_UNAVAILABLE'' w
      | Some current \<Rightarrow>
      case (snapshotDate (fld input ''verifiedAt''), snapshotDate (fld input ''now'')) of
        (Some verifiedAt, Some now) \<Rightarrow>
          (let key = identityKey (fld input ''tenantId'') (fld input ''identityId'') in
           case map_of (current SIdentities) key of
             None \<Rightarrow> refuse ''IDENTITY_NOT_FOUND'' w
           | Some (_, rec) \<Rightarrow>
               let updated = spread rec [(''verifiedAt'', verifiedAt), (''updatedAt'', now)] in
               (answerRecord updated, putFresh tx (setCell SIdentities key (fresh w) updated current) w))
      | _ \<Rightarrow> refuse ''STORE_UNAVAILABLE'' w)"

section \<open>Credentials\<close>

definition canTransitionCredentialStatus :: "jsv \<Rightarrow> jsv \<Rightarrow> bool" where
  "canTransitionCredentialStatus from to =
     (if from = JStr ''active'' then to = JStr ''disabled''
      else if from = JStr ''disabled'' then to = JStr ''active''
      else False)"

definition credentialsCreate :: "jsv \<Rightarrow> jsv \<Rightarrow> memoryWorld \<Rightarrow> jsv outcome \<times> memoryWorld" where
  "credentialsCreate input tx w =
     (case (memoryStateFor w ''credentials'' tx, memoryStateFor w ''accounts'' tx, memoryStateFor w ''identities'' tx) of
        (Some current, Some accounts, Some identities) \<Rightarrow>
          (case snapshotRecord (fld input ''record'') memCredentialRecord of
             None \<Rightarrow> refuse ''STORE_UNAVAILABLE'' w
           | Some rec \<Rightarrow>
          let tenant = fld rec ''tenantId'';
              identity = contentOf (map_of (identities SIdentities) (identityKey tenant (fld rec ''identityId'')))
          in if map_of (accounts SAccounts) (accountKey tenant (fld rec ''accountId'')) = None
                \<or> \<not> truthy identity
                \<or> fld identity ''accountId'' \<noteq> fld rec ''accountId''
                \<or> fld identity ''methodId'' \<noteq> fld rec ''methodId''
                \<or> fld identity ''methodKind'' \<noteq> fld rec ''methodKind''
          then refuse ''CREDENTIAL_CONFLICT'' w
          else let key = credentialKey tenant (fld rec ''credentialId'');
                   recordIdentityKey = credentialIdentityKey tenant (fld rec ''identityId'') (fld rec ''methodId'')
            in if map_of (current SCredentials) key \<noteq> None
                  \<or> map_of (current SCredentialsByIdentity) recordIdentityKey \<noteq> None
            then refuse ''CREDENTIAL_CONFLICT'' w
            else (answerRecord rec, putFresh tx
                   (setCell SCredentialsByIdentity recordIdentityKey 0 (fld rec ''credentialId'')
                     (setCell SCredentials key (fresh w) rec current)) w))
      | _ \<Rightarrow> refuse ''STORE_UNAVAILABLE'' w)"

definition credentialsFindById :: "jsv \<Rightarrow> jsv \<Rightarrow> memoryWorld \<Rightarrow> jsv outcome \<times> memoryWorld" where
  "credentialsFindById input tx w =
     (case memoryStateFor w ''credentials'' tx of
        None \<Rightarrow> refuse ''STORE_UNAVAILABLE'' w
      | Some current \<Rightarrow> (answerFound (map_of (current SCredentials)
            (credentialKey (fld input ''tenantId'') (fld input ''credentialId''))), w))"

definition credentialsFindForIdentity :: "jsv \<Rightarrow> jsv \<Rightarrow> memoryWorld \<Rightarrow> jsv outcome \<times> memoryWorld" where
  "credentialsFindForIdentity input tx w =
     (case memoryStateFor w ''credentials'' tx of
        None \<Rightarrow> refuse ''STORE_UNAVAILABLE'' w
      | Some current \<Rightarrow>
      let credentialId = contentOf (map_of (current SCredentialsByIdentity)
            (credentialIdentityKey (fld input ''tenantId'') (fld input ''identityId'') (fld input ''methodId'')))
      in if \<not> truthy credentialId then (Ret (memOk JNull), w)
         else (answerFound (map_of (current SCredentials) (credentialKey (fld input ''tenantId'') credentialId)), w))"

definition versionMismatch :: "jsv \<Rightarrow> memoryWorld \<Rightarrow> jsv outcome \<times> memoryWorld" where
  "versionMismatch expectedVersion w = (Ret (memErr (memStoreFailure ''TRANSACTION_FAILED''
     (obj [(''expectedVersion'', expectedVersion)]))), w)"

definition credentialsReplaceMaterial :: "jsv \<Rightarrow> jsv \<Rightarrow> memoryWorld \<Rightarrow> jsv outcome \<times> memoryWorld" where
  "credentialsReplaceMaterial input tx w =
     (case memoryStateFor w ''credentials'' tx of
        None \<Rightarrow> refuse ''STORE_UNAVAILABLE'' w
      | Some current \<Rightarrow>
      case (snapshotDate (fld input ''now''), snapshotRecord (fld input ''material'') memMethodMaterial) of
        (Some now, Some material) \<Rightarrow>
          (let key = credentialKey (fld input ''tenantId'') (fld input ''credentialId'') in
           case map_of (current SCredentials) key of
             None \<Rightarrow> refuse ''CREDENTIAL_NOT_FOUND'' w
           | Some (_, rec) \<Rightarrow>
               if fld rec ''version'' \<noteq> fld input ''expectedVersion''
               then versionMismatch (fld input ''expectedVersion'') w
               else let updated = spread rec [(''material'', material),
                          (''version'', JNum (num_val (fld rec ''version'') + 1)), (''updatedAt'', now)]
                 in (answerRecord updated, putFresh tx (setCell SCredentials key (fresh w) updated current) w))
      | _ \<Rightarrow> refuse ''STORE_UNAVAILABLE'' w)"

definition credentialsUpdateStatus :: "jsv \<Rightarrow> jsv \<Rightarrow> memoryWorld \<Rightarrow> jsv outcome \<times> memoryWorld" where
  "credentialsUpdateStatus input tx w =
     (case memoryStateFor w ''credentials'' tx of
        None \<Rightarrow> refuse ''STORE_UNAVAILABLE'' w
      | Some current \<Rightarrow>
      case snapshotDate (fld input ''now'') of
        None \<Rightarrow> refuse ''STORE_UNAVAILABLE'' w
      | Some now \<Rightarrow>
      let key = credentialKey (fld input ''tenantId'') (fld input ''credentialId'') in
      case map_of (current SCredentials) key of
        None \<Rightarrow> refuse ''CREDENTIAL_NOT_FOUND'' w
      | Some (_, rec) \<Rightarrow>
      if fld rec ''version'' \<noteq> fld input ''expectedVersion''
      then versionMismatch (fld input ''expectedVersion'') w
      else if \<not> canTransitionCredentialStatus (fld rec ''status'') (fld input ''status'')
      then refuse ''STORE_UNAVAILABLE'' w
      else let updated = spread rec [(''status'', fld input ''status''),
                 (''version'', JNum (num_val (fld rec ''version'') + 1)), (''updatedAt'', now)]
        in (answerRecord updated, putFresh tx (setCell SCredentials key (fresh w) updated current) w))"

end
