(* ===== verification/MemoryChallenges.thy ===== *)
theory MemoryChallenges
  imports MemoryStores
begin

text \<open>
  The stores with a lifetime: \<open>packages/testkit/src/stores/sessions.ts\<close> and \<open>challenges.ts\<close>, and
  the store calls of core answered by the memory stores.
\<close>

section \<open>Cleaning up\<close>

definition cleanupLimit :: "jsv \<Rightarrow> nat option" where
  "cleanupLimit v =
     (if v = JUndef then Some 1000
      else if is_safe_integer v \<and> 0 < num_val v \<and> num_val v \<le> 1000 then Some (nat (num_val v))
      else None)"

text \<open>The loop over the map: the entries it leaves, how many it changed, the last object.\<close>

fun expireEntries :: "nat \<Rightarrow> (jsv \<Rightarrow> bool) \<Rightarrow> (jsv \<Rightarrow> jsv) \<Rightarrow> nat \<Rightarrow> nat \<Rightarrow> cells \<Rightarrow> cells \<times> nat \<times> nat" where
  "expireEntries limit due change count n [] = ([], count, n)"
| "expireEntries limit due change count n ((key, i, rec) # rest) =
     (if \<not> due rec then
        (case expireEntries limit due change count n rest of (r, c, m) \<Rightarrow> ((key, i, rec) # r, c, m))
      else if limit \<le> count then ((key, i, rec) # rest, count, n)
      else (case expireEntries limit due change (count + 1) (n + 1) rest of
              (r, c, m) \<Rightarrow> ((key, n + 1, change rec) # r, c, m)))"

definition cleanup :: "string \<Rightarrow> stateKey \<Rightarrow> jsv \<Rightarrow> (jsv \<Rightarrow> jsv \<Rightarrow> jsv) \<Rightarrow> jsv \<Rightarrow> jsv \<Rightarrow> memoryWorld
     \<Rightarrow> jsv outcome \<times> memoryWorld" where
  "cleanup scope k openStatus change input tx w =
     (case memoryStateFor w scope tx of
        None \<Rightarrow> refuse ''STORE_UNAVAILABLE'' w
      | Some current \<Rightarrow>
      case (cleanupLimit (fld input ''limit''), snapshotDate (fld input ''now'')) of
        (Some limit, Some now) \<Rightarrow>
          (case expireEntries limit (\<lambda>rec. fld rec ''tenantId'' = fld input ''tenantId''
                  \<and> fld rec ''status'' = openStatus \<and> \<not> date_less now (fld rec ''expiresAt''))
                (change now) 0 (allocated w) (current k) of
             (cells, count, n) \<Rightarrow>
               (Ret (memOk (JNum (int count))), putState tx (current(k := cells)) (w\<lparr>allocated := n\<rparr>)))
      | _ \<Rightarrow> refuse ''STORE_UNAVAILABLE'' w)"

section \<open>Sessions\<close>

definition sessionsCreate :: "jsv \<Rightarrow> jsv \<Rightarrow> memoryWorld \<Rightarrow> jsv outcome \<times> memoryWorld" where
  "sessionsCreate input tx w =
     (case (memoryStateFor w ''sessions'' tx, memoryStateFor w ''accounts'' tx) of
        (Some current, Some accounts) \<Rightarrow>
          (case snapshotRecord (fld input ''record'') memSessionRecord of
             None \<Rightarrow> refuse ''STORE_UNAVAILABLE'' w
           | Some rec \<Rightarrow>
          if map_of (accounts SAccounts) (accountKey (fld rec ''tenantId'') (fld rec ''accountId'')) = None
          then refuse ''ACCOUNT_NOT_FOUND'' w
          else let key = sessionKey (fld rec ''tenantId'') (fld rec ''sessionId'') in
          case tokenHashKey (fld rec ''tenantId'') (fld rec ''tokenHash'') of
            None \<Rightarrow> refuse ''STORE_UNAVAILABLE'' w
          | Some hashKey \<Rightarrow>
          if map_of (current SSessions) key \<noteq> None \<or> map_of (current SSessionsByTokenHash) hashKey \<noteq> None
          then refuse ''STORE_UNAVAILABLE'' w
          else (answerRecord rec, putFresh tx
                 (setCell SSessionsByTokenHash hashKey 0 (fld rec ''sessionId'')
                   (setCell SSessions key (fresh w) rec current)) w))
      | _ \<Rightarrow> refuse ''STORE_UNAVAILABLE'' w)"

definition sessionsFindById :: "jsv \<Rightarrow> jsv \<Rightarrow> memoryWorld \<Rightarrow> jsv outcome \<times> memoryWorld" where
  "sessionsFindById input tx w =
     (case memoryStateFor w ''sessions'' tx of
        None \<Rightarrow> refuse ''STORE_UNAVAILABLE'' w
      | Some current \<Rightarrow>
          (answerFound (map_of (current SSessions) (sessionKey (fld input ''tenantId'') (fld input ''sessionId''))), w))"

definition sessionsFindByTokenHash :: "jsv \<Rightarrow> jsv \<Rightarrow> memoryWorld \<Rightarrow> jsv outcome \<times> memoryWorld" where
  "sessionsFindByTokenHash input tx w =
     (case memoryStateFor w ''sessions'' tx of
        None \<Rightarrow> refuse ''STORE_UNAVAILABLE'' w
      | Some current \<Rightarrow>
      case tokenHashKey (fld input ''tenantId'') (fld input ''tokenHash'') of
        None \<Rightarrow> refuse ''STORE_UNAVAILABLE'' w
      | Some hashKey \<Rightarrow>
      let sessionId = contentOf (map_of (current SSessionsByTokenHash) hashKey) in
      if \<not> truthy sessionId then (Ret (memOk JNull), w)
      else (answerFound (map_of (current SSessions) (sessionKey (fld input ''tenantId'') sessionId)), w))"

definition revokedSession :: "jsv \<Rightarrow> jsv \<Rightarrow> jsv" where
  "revokedSession rec now = spread rec [(''status'', JStr ''revoked''), (''revokedAt'', now), (''updatedAt'', now)]"

definition sessionsRevoke :: "jsv \<Rightarrow> jsv \<Rightarrow> memoryWorld \<Rightarrow> jsv outcome \<times> memoryWorld" where
  "sessionsRevoke input tx w =
     (case memoryStateFor w ''sessions'' tx of
        None \<Rightarrow> refuse ''STORE_UNAVAILABLE'' w
      | Some current \<Rightarrow>
      case snapshotDate (fld input ''now'') of
        None \<Rightarrow> refuse ''STORE_UNAVAILABLE'' w
      | Some now \<Rightarrow>
      let key = sessionKey (fld input ''tenantId'') (fld input ''sessionId'') in
      case map_of (current SSessions) key of
        None \<Rightarrow> (Ret (memOk JNull), w)
      | Some (_, rec) \<Rightarrow>
      if fld rec ''status'' \<noteq> JStr ''active'' then (answerRecord rec, w)
      else (answerRecord (revokedSession rec now),
            putFresh tx (setCell SSessions key (fresh w) (revokedSession rec now) current) w))"

definition sessionsCleanupExpired :: "jsv \<Rightarrow> jsv \<Rightarrow> memoryWorld \<Rightarrow> jsv outcome \<times> memoryWorld" where
  "sessionsCleanupExpired = cleanup ''sessions'' SSessions (JStr ''active'')
     (\<lambda>now rec. spread rec [(''status'', JStr ''expired''), (''updatedAt'', now)])"

section \<open>Challenges\<close>

definition challengesCreate :: "jsv \<Rightarrow> jsv \<Rightarrow> memoryWorld \<Rightarrow> jsv outcome \<times> memoryWorld" where
  "challengesCreate input tx w =
     (case memoryStateFor w ''challenges'' tx of
        None \<Rightarrow> refuse ''STORE_UNAVAILABLE'' w
      | Some current \<Rightarrow>
      case snapshotRecord (fld input ''record'') memChallengeRecord of
        None \<Rightarrow> refuse ''STORE_UNAVAILABLE'' w
      | Some rec \<Rightarrow>
      let key = challengeKey (fld rec ''tenantId'') (fld rec ''challengeId'') in
      if map_of (current SChallenges) key \<noteq> None then refuse ''STORE_UNAVAILABLE'' w
      else (answerRecord rec, putFresh tx (setCell SChallenges key (fresh w) rec current) w))"

definition challengesFindById :: "jsv \<Rightarrow> jsv \<Rightarrow> memoryWorld \<Rightarrow> jsv outcome \<times> memoryWorld" where
  "challengesFindById input tx w =
     (case memoryStateFor w ''challenges'' tx of
        None \<Rightarrow> refuse ''STORE_UNAVAILABLE'' w
      | Some current \<Rightarrow>
          (answerFound (map_of (current SChallenges) (challengeKey (fld input ''tenantId'') (fld input ''challengeId''))), w))"

text \<open>
  What the two operations make of a stored challenge: the record they put in its place, if they
  do, and what they report.
\<close>

definition nextVersion :: "jsv \<Rightarrow> jsv" where
  "nextVersion rec = JNum (num_val (fld rec ''version'') + 1)"

definition exhausted :: "jsv \<Rightarrow> bool" where
  "exhausted rec = (fld rec ''status'' = JStr ''failed'' \<or> num_val (fld rec ''maxAttempts'') \<le> num_val (fld rec ''attempts''))"

definition failedAttempt :: "jsv \<Rightarrow> jsv \<Rightarrow> jsv \<Rightarrow> jsv option \<times> string" where
  "failedAttempt rec expectedVersion now =
     (if fld rec ''version'' \<noteq> expectedVersion then (None, ''version-conflict'')
      else if fld rec ''status'' = JStr ''consumed'' then (None, ''version-conflict'')
      else if exhausted rec then (None, ''attempts-exceeded'')
      else if fld rec ''status'' = JStr ''expired'' then (None, ''expired'')
      else if date_le (fld rec ''expiresAt'') now then
        (Some (spread rec [(''status'', JStr ''expired''), (''updatedAt'', now), (''version'', nextVersion rec)]), ''expired'')
      else let attempts = num_val (fld rec ''attempts'') + 1;
               status = (if num_val (fld rec ''maxAttempts'') \<le> attempts then JStr ''failed'' else fld rec ''status'')
        in (Some (spread rec [(''attempts'', JNum attempts), (''status'', status), (''updatedAt'', now),
              (''version'', nextVersion rec)]),
            if status = JStr ''failed'' then ''attempts-exceeded'' else ''recorded''))"

definition consumption :: "jsv \<Rightarrow> jsv \<Rightarrow> jsv \<Rightarrow> jsv option \<times> string" where
  "consumption rec expectedVersion now =
     (if fld rec ''version'' \<noteq> expectedVersion then (None, ''version-conflict'')
      else if fld rec ''status'' = JStr ''consumed'' then (None, ''already-consumed'')
      else if fld rec ''status'' = JStr ''expired'' then (None, ''expired'')
      else if date_le (fld rec ''expiresAt'') now then
        (Some (spread rec [(''status'', JStr ''expired''), (''version'', nextVersion rec), (''updatedAt'', now)]), ''expired'')
      else if exhausted rec then (None, ''attempts-exceeded'')
      else (Some (spread rec [(''status'', JStr ''consumed''), (''consumedAt'', now), (''version'', nextVersion rec),
              (''updatedAt'', now)]), ''consumed''))"

definition changeChallenge :: "(jsv \<Rightarrow> jsv \<Rightarrow> jsv \<Rightarrow> jsv option \<times> string) \<Rightarrow> (jsv \<Rightarrow> string \<Rightarrow> jsv outcome)
     \<Rightarrow> jsv \<Rightarrow> jsv \<Rightarrow> memoryWorld \<Rightarrow> jsv outcome \<times> memoryWorld" where
  "changeChallenge change report input tx w =
     (case memoryStateFor w ''challenges'' tx of
        None \<Rightarrow> refuse ''STORE_UNAVAILABLE'' w
      | Some current \<Rightarrow>
      case snapshotDate (fld input ''now'') of
        None \<Rightarrow> refuse ''STORE_UNAVAILABLE'' w
      | Some now \<Rightarrow>
      let key = challengeKey (fld input ''tenantId'') (fld input ''challengeId'') in
      case map_of (current SChallenges) key of
        None \<Rightarrow> refuse ''CHALLENGE_NOT_FOUND'' w
      | Some (_, rec) \<Rightarrow>
      case change rec (fld input ''expectedVersion'') now of
        (None, status) \<Rightarrow> (report rec status, w)
      | (Some changed, status) \<Rightarrow>
          (report changed status, putFresh tx (setCell SChallenges key (fresh w) changed current) w))"

definition reportAttempt :: "jsv \<Rightarrow> string \<Rightarrow> jsv outcome" where
  "reportAttempt challenge status =
     (if status = ''version-conflict'' then Ret (memOk (obj [(''status'', JStr status)]))
      else case cloneRecord challenge of
        None \<Rightarrow> Throw
      | Some c \<Rightarrow> Ret (memOk (obj [(''status'', JStr status), (''challenge'', c)])))"

definition challengesRecordFailedAttempt :: "jsv \<Rightarrow> jsv \<Rightarrow> memoryWorld \<Rightarrow> jsv outcome \<times> memoryWorld" where
  "challengesRecordFailedAttempt = changeChallenge failedAttempt reportAttempt"

definition challengesConsumePending :: "jsv \<Rightarrow> jsv \<Rightarrow> memoryWorld \<Rightarrow> jsv outcome \<times> memoryWorld" where
  "challengesConsumePending = changeChallenge consumption (\<lambda>_ status. Ret (memOk (JStr status)))"

definition challengesCleanupExpired :: "jsv \<Rightarrow> jsv \<Rightarrow> memoryWorld \<Rightarrow> jsv outcome \<times> memoryWorld" where
  "challengesCleanupExpired = cleanup ''challenges'' SChallenges (JStr ''pending'')
     (\<lambda>now rec. spread rec [(''status'', JStr ''expired''), (''updatedAt'', now), (''version'', nextVersion rec)])"

section \<open>The store calls of core\<close>

definition argument :: "jsv list \<Rightarrow> nat \<Rightarrow> jsv" where
  "argument args i = (if i < length args then args ! i else JUndef)"

text \<open>The calls a store answers; \<open>None\<close> for those of other collaborators.\<close>

definition storeOperation :: "port \<Rightarrow> (jsv \<Rightarrow> jsv \<Rightarrow> memoryWorld \<Rightarrow> jsv outcome \<times> memoryWorld) option" where
  "storeOperation p = (case p of
       AccountsCreate \<Rightarrow> Some accountsCreate
     | AccountsFindById \<Rightarrow> Some accountsFindById
     | IdentitiesCreate \<Rightarrow> Some identitiesCreate
     | IdentitiesFindBySubject \<Rightarrow> Some identitiesFindBySubject
     | IdentitiesMarkVerified \<Rightarrow> Some identitiesMarkVerified
     | CredentialsCreate \<Rightarrow> Some credentialsCreate
     | CredentialsFindForIdentity \<Rightarrow> Some credentialsFindForIdentity
     | CredentialsReplaceMaterial \<Rightarrow> Some credentialsReplaceMaterial
     | SessionsCreate \<Rightarrow> Some sessionsCreate
     | SessionsFindById \<Rightarrow> Some sessionsFindById
     | SessionsFindByTokenHash \<Rightarrow> Some sessionsFindByTokenHash
     | SessionsRevoke \<Rightarrow> Some sessionsRevoke
     | ChallengesCreate \<Rightarrow> Some challengesCreate
     | ChallengesFindById \<Rightarrow> Some challengesFindById
     | ChallengesRecordFailedAttempt \<Rightarrow> Some challengesRecordFailedAttempt
     | ChallengesConsumePending \<Rightarrow> Some challengesConsumePending
     | _ \<Rightarrow> None)"

text \<open>\<open>createMemoryAuthStore\<close>: core over the memory stores; \<open>others\<close> answers the other calls.\<close>

primrec withOthers :: "'e \<Rightarrow> memoryWorld txprog \<Rightarrow> (memoryWorld \<times> 'e) txprog" where
  "withOthers e (TxDone r w) = TxDone r (w, e)"
| "withOthers e (TxCall tx w k) = TxCall tx (w, e) (\<lambda>r we. withOthers (snd we) (k r (fst we)))"

definition memoryConfig :: "'e cfg \<Rightarrow> (memoryWorld \<times> 'e) cfg" where
  "memoryConfig others =
     \<lparr>call = (\<lambda>p args (w, e). case storeOperation p of
          Some operation \<Rightarrow> (case operation (argument args 0) (argument args 1) w of (r, w2) \<Rightarrow> (r, (w2, e)))
        | None \<Rightarrow> (case call others p args e of (r, e2) \<Rightarrow> (r, (w, e2)))),
      txRun = Some (\<lambda>request (w, e). withOthers e (memoryRun request w)),
      hasPolicy = hasPolicy others, hasGuard = hasGuard others, hasAfterAttempt = hasAfterAttempt others,
      hasEventSink = hasEventSink others, hasEffects = hasEffects others, hasChallenges = True,
      transactionScopes = transactionScopes others, methods = methods others,
      defaultTtlSeconds = defaultTtlSeconds others, maxTtlSeconds = maxTtlSeconds others\<rparr>"

end
