(* ===== verification/MemoryTransactions.thy ===== *)
theory MemoryTransactions
  imports MemoryChallenges
begin

text \<open>
  Transactions of the memory store: what a commit does to the maps, that operations in a
  transaction do not touch the store before it commits, and the contract core expects of a
  store's transactions, which the memory runner fulfils.
\<close>

section \<open>What a commit does\<close>

lemma same_object_refl [simp]: "same_object c c"
  by (cases c) simp

lemma entryMatches_refl [simp]: "entryMatches m m k"
  by (simp add: entryMatches_def split: option.splits)

lemma map_of_applyChange:
  "map_of (applyChange before working k base) =
     (if entryMatches before working k then map_of base else (map_of base)(k := map_of working k))"
  by (auto simp: applyChange_def update_conv' delete_conv' fun_upd_idem_iff split: option.splits)

lemma map_of_fold_applyChange:
  "map_of (fold (applyChange before working) ks base) k =
     (if k \<in> set ks \<and> \<not> entryMatches before working k then map_of working k else map_of base k)"
  by (induction ks arbitrary: base) (auto simp: map_of_applyChange)

lemma not_in_unionKeys: "k \<notin> set (unionKeys before working) \<Longrightarrow> map_of before k = None \<and> map_of working k = None"
  by (auto simp: unionKeys_def map_of_eq_None_iff)

lemma map_of_applyChanges:
  "map_of (applyChanges base before working) k =
     (if entryMatches before working k then map_of base k else map_of working k)"
proof (cases "k \<in> set (unionKeys before working)")
  case False
  then have "entryMatches before working k" using not_in_unionKeys by (simp add: entryMatches_def)
  then show ?thesis by (simp add: applyChanges_def map_of_fold_applyChange)
qed (simp add: applyChanges_def map_of_fold_applyChange)

lemma stateKeys_all: "k \<in> set stateKeys" "distinct stateKeys"
  by (cases k) (simp_all add: stateKeys_def)

lemma applyTransactionState_key:
  "applyTransactionState state before working k = applyChanges (state k) (before k) (working k)"
proof -
  have "distinct ks \<Longrightarrow> (fold (\<lambda>key st. st(key := applyChanges (st key) (before key) (working key))) ks st) k
    = (if k \<in> set ks then applyChanges (st k) (before k) (working k) else st k)" for ks st
    by (induction ks arbitrary: st) auto
  with stateKeys_all show ?thesis by (simp add: applyTransactionState_def)
qed

lemma canCommit_no_conflict:
  assumes "canCommitTransactionState state before working scopes"
  shows "entryMatches (before k) (working k) key \<or> entryMatches (before k) (state k) key"
proof -
  have "\<not> hasConflict (state k) (before k) (working k)"
    using assms stateKeys_all by (auto simp: canCommitTransactionState_def list_ex_iff)
  then have "entryMatches (before k) (working k) key \<or> entryMatches (before k) (state k) key"
    if "key \<in> set (unionKeys (before k) (working k))"
    using that by (auto simp: hasConflict_def list_ex_iff)
  then show ?thesis using not_in_unionKeys by (fastforce simp: entryMatches_def)
qed

lemma canCommit_unchanged: "canCommitTransactionState before before working scopes"
  by (auto simp: canCommitTransactionState_def mapsMatch_def list_all_iff list_ex_iff hasConflict_def)

lemma applyTransactionState_unchanged:
  "map_of (applyTransactionState before before working k) key =
     (if entryMatches (before k) (working k) key then map_of (before k) key else map_of (working k) key)"
  by (simp add: applyTransactionState_key map_of_applyChanges)

section \<open>Isolation\<close>

definition isolated :: "(jsv \<Rightarrow> jsv \<Rightarrow> memoryWorld \<Rightarrow> jsv outcome \<times> memoryWorld) \<Rightarrow> bool" where
  "isolated operation \<longleftrightarrow> (\<forall>input tx w r w2. operation input tx w = (r, w2) \<longrightarrow>
     (truthy tx \<longrightarrow> baseState w2 = baseState w)
     \<and> (\<not> truthy tx \<longrightarrow> transactionStates w2 = transactionStates w)
     \<and> (\<forall>other. other \<noteq> tx \<longrightarrow> map_of (transactionStates w2) other = map_of (transactionStates w) other)
     \<and> transactionSequence w2 = transactionSequence w \<and> allocated w \<le> allocated w2)"

definition untouched :: "jsv \<Rightarrow> memoryWorld \<Rightarrow> memoryWorld \<Rightarrow> bool" where
  "untouched tx w w2 \<longleftrightarrow> (truthy tx \<longrightarrow> baseState w2 = baseState w)
     \<and> (\<not> truthy tx \<longrightarrow> transactionStates w2 = transactionStates w)
     \<and> (\<forall>other. other \<noteq> tx \<longrightarrow> map_of (transactionStates w2) other = map_of (transactionStates w) other)
     \<and> transactionSequence w2 = transactionSequence w \<and> allocated w \<le> allocated w2"

lemma isolatedI: "(\<And>input tx w. untouched tx w (snd (operation input tx w))) \<Longrightarrow> isolated operation"
  unfolding isolated_def untouched_def by (metis snd_conv)

lemma untouched_refl [simp]: "untouched tx w w"
  by (simp add: untouched_def)

lemma untouched_putState [simp]: "allocated w \<le> n \<Longrightarrow> untouched tx w (putState tx st (w\<lparr>allocated := n\<rparr>))"
  by (simp add: untouched_def putState_def update_conv')

lemma untouched_putFresh [simp]: "untouched tx w (putFresh tx st w)"
  by (simp add: putFresh_def fresh_def)

lemma expireEntries_allocates: "expireEntries limit due change count n cells = (cells', count', n') \<Longrightarrow> n \<le> n'"
  by (induction limit due change count n cells arbitrary: cells' count' n' rule: expireEntries.induct)
    (auto split: if_splits prod.splits)

lemmas store_operation_defs =
  accountsCreate_def accountsFindById_def accountsUpdateStatus_def
  identitiesCreate_def identitiesFindById_def identitiesFindBySubject_def identitiesMarkVerified_def
  credentialsCreate_def credentialsFindById_def credentialsFindForIdentity_def credentialsReplaceMaterial_def
  credentialsUpdateStatus_def versionMismatch_def
  sessionsCreate_def sessionsFindById_def sessionsFindByTokenHash_def sessionsRevoke_def
  challengesCreate_def challengesFindById_def

lemma isolated_operations:
  "isolated accountsCreate" "isolated accountsFindById" "isolated accountsUpdateStatus"
  "isolated identitiesCreate" "isolated identitiesFindById" "isolated identitiesFindBySubject" "isolated identitiesMarkVerified"
  "isolated credentialsCreate" "isolated credentialsFindById" "isolated credentialsFindForIdentity"
  "isolated credentialsReplaceMaterial" "isolated credentialsUpdateStatus"
  "isolated sessionsCreate" "isolated sessionsFindById" "isolated sessionsFindByTokenHash" "isolated sessionsRevoke"
  "isolated challengesCreate" "isolated challengesFindById"
  by (rule isolatedI, simp add: store_operation_defs Let_def del: fld.simps fld_obj
      split: option.splits prod.splits if_splits)+

lemma isolated_changeChallenge: "isolated (changeChallenge change report)"
  by (rule isolatedI) (simp add: changeChallenge_def Let_def split: option.splits prod.splits)

lemma isolated_cleanup: "isolated (cleanup scope k st change)"
  by (rule isolatedI) (auto simp: cleanup_def Let_def dest: expireEntries_allocates split: option.splits prod.splits)

lemma isolated_storeOperation: "storeOperation p = Some operation \<Longrightarrow> isolated operation"
  using isolated_operations isolated_changeChallenge
  by (auto simp: storeOperation_def challengesRecordFailedAttempt_def challengesConsumePending_def split: port.splits)

section \<open>The contract core expects\<close>

text \<open>The number of a transaction is far below the bound on identifiers.\<close>

lemma digits_aux_length: "n < 10 ^ k \<Longrightarrow> 0 < k \<Longrightarrow> length (digits_aux f n) \<le> k"
proof (induction f n arbitrary: k rule: digits_aux.induct)
  case (2 f n)
  show ?case
  proof (cases "n < 10")
    case False
    with 2(2,3) obtain j where k: "k = Suc j" "0 < j"
      by (cases k; cases "k - 1") auto
    with 2(2) have "n div 10 < 10 ^ j" by (simp add: less_mult_imp_div_less mult.commute)
    with 2(1) [OF False] k False show ?thesis by simp
  qed (use 2 in simp)
qed simp

lemma digits_aux_no_control: "no_control (digits_aux f n)"
proof -
  have "list_all (\<lambda>c. \<not> is_control c) (digits_aux f n)"
  proof (induction f n rule: digits_aux.induct)
    case (2 f n)
    then show ?case by (auto simp: is_control_def)
  qed simp
  then show ?thesis by (simp add: no_control_def)
qed

lemma transaction_id_safe:
  assumes "n < 10 ^ 16"
  shows "isSafeText (JStr (''tx_'' @ js_string_of_nat n)) 512 True"
proof -
  have "length (js_string_of_nat n) \<le> 16"
    unfolding js_string_of_nat_def by (rule digits_aux_length [OF assms]) simp
  moreover have "no_control (js_string_of_nat n)"
    unfolding js_string_of_nat_def by (rule digits_aux_no_control)
  ultimately show ?thesis by (simp add: no_control_def is_control_def)
qed

text \<open>
  The runner of \<open>memoryConfig\<close>: it covers requests for distinct scopes of the store. While a
  transaction runs, the world has it open on a copy of the maps; it ends closed, with the merged
  maps when it commits.
\<close>

definition memoryTxRun :: "jsv \<Rightarrow> memoryWorld \<times> 'e \<Rightarrow> (memoryWorld \<times> 'e) txprog" where
  "memoryTxRun request = (\<lambda>(w, e). withOthers e (memoryRun request w))"

definition memorySupports :: "jsv list \<Rightarrow> memoryWorld \<times> 'e \<Rightarrow> bool" where
  "memorySupports scopes we =
     (isTransactionRequest (requested_scopes scopes) \<and> JHole \<notin> set scopes \<and> transactionSequence (fst we) + 1 < 10 ^ 16)"

definition memoryTransaction :: "jsv list \<Rightarrow> memoryWorld \<times> 'e \<Rightarrow> jsv" where
  "memoryTransaction scopes we = newTransaction (transactionSequence (fst we) + 1) scopes"

definition memoryOpened :: "jsv list \<Rightarrow> memoryWorld \<times> 'e \<Rightarrow> memoryWorld \<times> 'e" where
  "memoryOpened scopes we = (snd (beginTransaction scopes (fst we)), snd we)"

definition workingState :: "jsv list \<Rightarrow> memoryWorld \<times> 'e \<Rightarrow> memoryWorld \<times> 'e \<Rightarrow> memoryState" where
  "workingState scopes we we2 =
     (case map_of (transactionStates (fst we2)) (memoryTransaction scopes we) of
        None \<Rightarrow> baseState (fst we) | Some st \<Rightarrow> st)"

definition memoryCommits :: "jsv list \<Rightarrow> memoryWorld \<times> 'e \<Rightarrow> memoryWorld \<times> 'e \<Rightarrow> bool" where
  "memoryCommits scopes we we2 =
     canCommitTransactionState (baseState (fst we2)) (baseState (fst we)) (workingState scopes we we2) scopes"

definition memoryAborted :: "jsv list \<Rightarrow> memoryWorld \<times> 'e \<Rightarrow> memoryWorld \<times> 'e \<Rightarrow> memoryWorld \<times> 'e" where
  "memoryAborted scopes we we2 =
     ((fst we2)\<lparr>transactionStates := AList.delete (memoryTransaction scopes we) (transactionStates (fst we2))\<rparr>, snd we2)"

definition memoryCommitted :: "jsv list \<Rightarrow> memoryWorld \<times> 'e \<Rightarrow> memoryWorld \<times> 'e \<Rightarrow> memoryWorld \<times> 'e" where
  "memoryCommitted scopes we we2 =
     ((fst (memoryAborted scopes we we2))\<lparr>baseState :=
        applyTransactionState (baseState (fst we2)) (baseState (fst we)) (workingState scopes we we2)\<rparr>, snd we2)"

lemma map_read_elem: "JHole \<notin> set xs \<Longrightarrow> map read_elem xs = xs"
  by (induction xs) (auto simp: read_elem_def)

lemma arr_every_noHole: "arr_every P xs \<Longrightarrow> JHole \<notin> set xs \<Longrightarrow> x \<in> set xs \<Longrightarrow> P x"
  by (auto simp: arr_every_def list_all_iff)

lemma isResult_not_nullish: "isResult v \<Longrightarrow> \<not> nullish v"
  by (cases v) (auto simp: isResult_def nullish_def)

interpretation memory_tx: transaction_runner memoryTxRun memorySupports memoryTransaction memoryOpened
  memoryCommits memoryCommitted memoryAborted
proof (unfold_locales, goal_cases)
  case (1 scopes w)
  then have read: "map read_elem scopes = scopes" by (simp add: memorySupports_def map_read_elem)
  from 1 have scopes: "length scopes \<le> 1000"
    "arr_every (\<lambda>scope. isSafeText scope 512 True \<and> scope \<in> set supportedScopes) scopes"
    and n: "transactionSequence (fst w) + 1 < 10 ^ 16"
    by (simp_all add: memorySupports_def isTransactionRequest_def requested_scopes_def map_read_elem Let_def)
  have every: "list_all (\<lambda>scope. is_str scope \<and> 0 < str_len scope \<and> str_len scope \<le> 512) scopes"
    unfolding list_all_iff
  proof
    fix scope
    assume "scope \<in> set scopes"
    with 1 arr_every_noHole [OF scopes(2)] have "scope \<in> set supportedScopes"
      by (simp add: memorySupports_def del: isSafeText.simps)
    then show "is_str scope \<and> 0 < str_len scope \<and> str_len scope \<le> 512"
      by (simp add: supportedScopes_def) (elim disjE; simp)
  qed
  show ?case
    unfolding transactionCovers_def
  proof (intro conjI)
    show "isSafeText (fld (memoryTransaction scopes w) ''transactionId'') 512 True"
      using transaction_id_safe [OF n]
      by (simp del: isSafeText.simps add: memoryTransaction_def newTransaction_def)
  qed (use every scopes(1) in \<open>simp_all add: memoryTransaction_def newTransaction_def read arr_every_def list_all_iff\<close>)
next
  case (2 scopes w)
  obtain m e where w: "w = (m, e)" by fastforce
  from 2 have req: "isTransactionRequest (requested_scopes scopes)" and hole: "map read_elem scopes = scopes"
    by (simp_all add: memorySupports_def map_read_elem)
  have elems: "arr_elems (fld (requested_scopes scopes) ''requiredScopes'') = scopes"
    by (simp add: requested_scopes_def)
  show ?case
    by (rule exI [of _ "\<lambda>r we. withOthers (snd we) (case settleTransaction (memoryTransaction scopes w) (baseState m) r (fst we)
          of (result, closed) \<Rightarrow> TxDone (Ret result) closed)"])
      (simp add: w memoryTxRun_def memoryRun_def req elems memoryTransaction_def beginTransaction_def Let_def memoryOpened_def
        memoryCommits_def memoryCommitted_def memoryAborted_def workingState_def settleTransaction_def isResult_not_nullish
        newTransaction_def hole split: option.splits)
qed

end
