(* ===== verification/MemoryLifecycle.thy ===== *)
theory MemoryLifecycle
  imports MemoryTransactions
begin

text \<open>
  An abstract account of the memory stores: a record is added under its key, with its index entry
  and next to the records it refers to, and from then on only moves along the life cycle of its
  kind. Every operation of the five stores is a sequence of such steps.
\<close>

section \<open>Records, keys and references\<close>

definition recordMaps :: "stateKey list" where
  "recordMaps = [SAccounts, SIdentities, SCredentials, SSessions, SChallenges]"

fun keyOf :: "stateKey \<Rightarrow> jsv \<Rightarrow> jsv" where
  "keyOf SAccounts r = accountKey (fld r ''tenantId'') (fld r ''accountId'')"
| "keyOf SIdentities r = identityKey (fld r ''tenantId'') (fld r ''identityId'')"
| "keyOf SCredentials r = credentialKey (fld r ''tenantId'') (fld r ''credentialId'')"
| "keyOf SSessions r = sessionKey (fld r ''tenantId'') (fld r ''sessionId'')"
| "keyOf SChallenges r = challengeKey (fld r ''tenantId'') (fld r ''challengeId'')"
| "keyOf _ r = JUndef"

text \<open>The index entry of a record: the map, the key in it and the identifier it holds.\<close>

fun indexEntry :: "stateKey \<Rightarrow> jsv \<Rightarrow> (stateKey \<times> jsv \<times> jsv) option" where
  "indexEntry SIdentities r = Some (SIdentitySubjects,
     identitySubjectKey (fld r ''tenantId'') (fld r ''methodId'') (fld r ''subject''), fld r ''identityId'')"
| "indexEntry SCredentials r = Some (SCredentialsByIdentity,
     credentialIdentityKey (fld r ''tenantId'') (fld r ''identityId'') (fld r ''methodId''), fld r ''credentialId'')"
| "indexEntry SSessions r = map_option (\<lambda>h. (SSessionsByTokenHash, h, fld r ''sessionId''))
     (tokenHashKey (fld r ''tenantId'') (fld r ''tokenHash''))"
| "indexEntry _ r = None"

definition accountExists :: "memoryState \<Rightarrow> jsv \<Rightarrow> bool" where
  "accountExists st r = (map_of (st SAccounts) (accountKey (fld r ''tenantId'') (fld r ''accountId'')) \<noteq> None)"

definition identityExists :: "memoryState \<Rightarrow> jsv \<Rightarrow> bool" where
  "identityExists st r =
     (case map_of (st SIdentities) (identityKey (fld r ''tenantId'') (fld r ''identityId'')) of
        None \<Rightarrow> False
      | Some (_, ident) \<Rightarrow> fld ident ''accountId'' = fld r ''accountId''
          \<and> fld ident ''methodId'' = fld r ''methodId'' \<and> fld ident ''methodKind'' = fld r ''methodKind'')"

fun owned :: "memoryState \<Rightarrow> stateKey \<Rightarrow> jsv \<Rightarrow> bool" where
  "owned st SIdentities r = accountExists st r"
| "owned st SCredentials r = (accountExists st r \<and> identityExists st r)"
| "owned st SSessions r = accountExists st r"
| "owned st _ r = True"

fun is_obj :: "jsv \<Rightarrow> bool" where
  "is_obj (JObj _ _) = True"
| "is_obj _ = False"

definition storedOk :: "stateKey \<Rightarrow> jsv \<Rightarrow> bool" where
  "storedOk k r = (is_obj r
     \<and> (k = SChallenges \<longrightarrow> fld r ''status'' \<in> {JStr ''pending'', JStr ''consumed'', JStr ''expired'', JStr ''failed''}
          \<and> num_val (fld r ''attempts'') \<le> num_val (fld r ''maxAttempts'')))"

section \<open>Life cycles\<close>

definition sameExcept :: "string list \<Rightarrow> jsv \<Rightarrow> jsv \<Rightarrow> bool" where
  "sameExcept ks r r' = (is_obj r' \<and> (\<forall>k. k \<notin> set ks \<longrightarrow> fld r' k = fld r k))"

definition challengeMoves :: "jsv \<Rightarrow> jsv \<Rightarrow> bool" where
  "challengeMoves r r' =
     (let status = fld r' ''status''; attempts = num_val (fld r ''attempts''); most = num_val (fld r ''maxAttempts'') in
      fld r' ''version'' = JNum (num_val (fld r ''version'') + 1)
      \<and> (fld r ''status'' \<in> {JStr ''pending'', JStr ''failed''} \<and> status = JStr ''expired''
           \<and> fld r' ''attempts'' = fld r ''attempts''
         \<or> fld r ''status'' = JStr ''pending'' \<and> status = JStr ''consumed'' \<and> fld r' ''attempts'' = fld r ''attempts''
           \<and> attempts < most
         \<or> fld r ''status'' = JStr ''pending'' \<and> fld r' ''attempts'' = JNum (attempts + 1) \<and> attempts < most
           \<and> status = (if attempts + 1 = most then JStr ''failed'' else JStr ''pending'')))"

fun lifecycle :: "stateKey \<Rightarrow> jsv \<Rightarrow> jsv \<Rightarrow> bool" where
  "lifecycle SAccounts r r' = (sameExcept [''status'', ''updatedAt''] r r'
     \<and> canTransitionAccountStatus (fld r ''status'') (fld r' ''status''))"
| "lifecycle SIdentities r r' = sameExcept [''verifiedAt'', ''updatedAt''] r r'"
| "lifecycle SCredentials r r' = (sameExcept [''status'', ''material'', ''version'', ''updatedAt''] r r'
     \<and> fld r' ''version'' = JNum (num_val (fld r ''version'') + 1)
     \<and> (fld r' ''status'' = fld r ''status''
        \<or> fld r' ''material'' = fld r ''material'' \<and> canTransitionCredentialStatus (fld r ''status'') (fld r' ''status'')))"
| "lifecycle SSessions r r' = (sameExcept [''status'', ''revokedAt'', ''updatedAt''] r r'
     \<and> fld r ''status'' = JStr ''active'' \<and> fld r' ''status'' \<in> {JStr ''revoked'', JStr ''expired''})"
| "lifecycle SChallenges r r' = (sameExcept [''attempts'', ''status'', ''consumedAt'', ''version'', ''updatedAt''] r r'
     \<and> challengeMoves r r')"
| "lifecycle _ r r' = False"

section \<open>Steps\<close>

definition addIndex :: "(stateKey \<times> jsv \<times> jsv) option \<Rightarrow> memoryState \<Rightarrow> memoryState" where
  "addIndex e st = (case e of None \<Rightarrow> st | Some (m, i, v) \<Rightarrow> setCell m i 0 v st)"

inductive storeStep :: "string \<Rightarrow> nat \<times> memoryState \<Rightarrow> nat \<times> memoryState \<Rightarrow> bool" for scope where
  create: "k \<in> set recordMaps \<Longrightarrow> k \<in> set (scopeStateKeys (JStr scope)) \<Longrightarrow> storedOk k r
    \<Longrightarrow> map_of (st k) (keyOf k r) = None
    \<Longrightarrow> (\<And>m i v. indexEntry k r = Some (m, i, v) \<Longrightarrow> map_of (st m) i = None) \<Longrightarrow> owned st k r
    \<Longrightarrow> storeStep scope (n, st) (Suc n, addIndex (indexEntry k r) (setCell k (keyOf k r) (Suc n) r st))"
| change: "k \<in> set recordMaps \<Longrightarrow> k \<in> set (scopeStateKeys (JStr scope)) \<Longrightarrow> map_of (st k) key = Some (m, r)
    \<Longrightarrow> lifecycle k r r' \<Longrightarrow> storeStep scope (n, st) (Suc n, setCell k key (Suc n) r' st)"

inductive_cases storeStepE: "storeStep scope (n, st) (n', st')"

section \<open>Invariants of a state\<close>

definition storeInv :: "memoryState \<Rightarrow> bool" where
  "storeInv st \<longleftrightarrow> (\<forall>k. distinct (map fst (st k)))
     \<and> (\<forall>k key n r. k \<in> set recordMaps \<longrightarrow> map_of (st k) key = Some (n, r) \<longrightarrow>
          key = keyOf k r \<and> storedOk k r \<and> owned st k r
          \<and> (\<forall>m i v. indexEntry k r = Some (m, i, v) \<longrightarrow> map_of (st m) i = Some (0, v)))"

text \<open>Every record of the first state is in the second, further along its life cycle.\<close>

definition movesOnly :: "memoryState \<Rightarrow> memoryState \<Rightarrow> bool" where
  "movesOnly st st' \<longleftrightarrow> (\<forall>k key n r. k \<in> set recordMaps \<longrightarrow> map_of (st k) key = Some (n, r) \<longrightarrow>
     (\<exists>n' r'. map_of (st' k) key = Some (n', r') \<and> (lifecycle k)\<^sup>*\<^sup>* r r'))"

lemma storeInvD:
  assumes "storeInv st" and "k \<in> set recordMaps" and "map_of (st k) key = Some (n, r)"
  shows "key = keyOf k r" and "storedOk k r" and "owned st k r"
    and "indexEntry k r = Some (m, i, v) \<Longrightarrow> map_of (st m) i = Some (0, v)"
  using assms unfolding storeInv_def by blast+

lemma movesOnlyE:
  assumes "movesOnly st st'" and "k \<in> set recordMaps" and "map_of (st k) key = Some (n, r)"
  obtains n' r' where "map_of (st' k) key = Some (n', r')" and "(lifecycle k)\<^sup>*\<^sup>* r r'"
  using assms unfolding movesOnly_def by blast

lemma recordMaps_simps [simp]:
  "SAccounts \<in> set recordMaps" "SIdentities \<in> set recordMaps" "SCredentials \<in> set recordMaps"
  "SSessions \<in> set recordMaps" "SChallenges \<in> set recordMaps"
  "SIdentitySubjects \<notin> set recordMaps" "SCredentialsByIdentity \<notin> set recordMaps" "SSessionsByTokenHash \<notin> set recordMaps"
  by (simp_all add: recordMaps_def)

lemma movesOnly_refl [simp]: "movesOnly st st"
  unfolding movesOnly_def by blast

lemma movesOnly_trans: "movesOnly a b \<Longrightarrow> movesOnly b c \<Longrightarrow> movesOnly a c"
  unfolding movesOnly_def by (meson rtranclp_trans)

lemma sameExcept_fld: "sameExcept ks r r' \<Longrightarrow> k \<notin> set ks \<Longrightarrow> fld r' k = fld r k"
  by (simp add: sameExcept_def)

lemma sameExcept_mono: "sameExcept ks r r' \<Longrightarrow> set ks \<subseteq> set js \<Longrightarrow> sameExcept js r r'"
  unfolding sameExcept_def by blast

definition movingFields :: "string list" where
  "movingFields = [''status'', ''updatedAt'', ''verifiedAt'', ''material'', ''version'', ''revokedAt'', ''attempts'', ''consumedAt'']"

lemma lifecycle_moving: "lifecycle k r r' \<Longrightarrow> sameExcept movingFields r r'"
  by (cases k) (auto simp: movingFields_def elim!: sameExcept_mono)

lemma sameExcept_fixed:
  assumes "sameExcept movingFields r r'"
  shows "fld r' ''tenantId'' = fld r ''tenantId''" "fld r' ''accountId'' = fld r ''accountId''"
    "fld r' ''identityId'' = fld r ''identityId''" "fld r' ''methodId'' = fld r ''methodId''"
    "fld r' ''methodKind'' = fld r ''methodKind''" "fld r' ''subject'' = fld r ''subject''"
    "fld r' ''credentialId'' = fld r ''credentialId''" "fld r' ''sessionId'' = fld r ''sessionId''"
    "fld r' ''challengeId'' = fld r ''challengeId''" "fld r' ''tokenHash'' = fld r ''tokenHash''"
    "fld r' ''maxAttempts'' = fld r ''maxAttempts''"
  by (rule sameExcept_fld [OF assms], simp add: movingFields_def)+

lemmas lifecycle_fixed = sameExcept_fixed [OF lifecycle_moving]

lemma lifecycles_moving: "(lifecycle k)\<^sup>*\<^sup>* r r' \<Longrightarrow> is_obj r \<Longrightarrow> sameExcept movingFields r r'"
proof (induction rule: rtranclp_induct)
  case (step b c)
  with lifecycle_moving [OF step(2)] show ?case by (simp add: sameExcept_def)
qed (simp add: sameExcept_def)

lemmas lifecycles_fixed = sameExcept_fixed [OF lifecycles_moving]

lemma lifecycle_same:
  assumes "lifecycle k r r'"
  shows "keyOf k r' = keyOf k r" and "indexEntry k r' = indexEntry k r" and "owned st k r' = owned st k r"
proof -
  note same = lifecycle_fixed [OF assms]
  show "keyOf k r' = keyOf k r" by (cases k) (simp_all only: keyOf.simps same)
  show "indexEntry k r' = indexEntry k r" by (cases k) (simp_all only: indexEntry.simps same)
  show "owned st k r' = owned st k r"
    by (cases k) (simp_all only: owned.simps accountExists_def identityExists_def same)
qed

lemma challengeMoves_ok:
  assumes "challengeMoves r r'" and "fld r' ''maxAttempts'' = fld r ''maxAttempts''"
    and "num_val (fld r ''attempts'') \<le> num_val (fld r ''maxAttempts'')"
  shows "fld r' ''status'' \<in> {JStr ''pending'', JStr ''consumed'', JStr ''expired'', JStr ''failed''}
    \<and> num_val (fld r' ''attempts'') \<le> num_val (fld r' ''maxAttempts'')"
  using assms unfolding challengeMoves_def Let_def
  by (elim conjE disjE) (simp_all del: fld.simps fld_obj)

lemma lifecycle_storedOk:
  assumes "lifecycle k r r'" and "storedOk k r" shows "storedOk k r'"
proof (cases "k = SChallenges")
  case True
  with assms(1) have "challengeMoves r r'" by simp
  from challengeMoves_ok [OF this lifecycle_fixed(11) [OF assms(1)]] lifecycle_moving [OF assms(1)] assms(2) True
  show ?thesis unfolding storedOk_def sameExcept_def by blast
next
  case False
  with lifecycle_moving [OF assms(1)] show ?thesis unfolding storedOk_def sameExcept_def by blast
qed

lemma owned_movesOnly:
  assumes "owned st k r" and "movesOnly st st'" and "storeInv st" shows "owned st' k r"
proof -
  have acc: "accountExists st' r" if "accountExists st r"
    using that movesOnlyE [OF assms(2), of SAccounts] unfolding accountExists_def
    by (metis not_Some_eq prod.collapse recordMaps_simps(1))
  have ident: "identityExists st' r" if identity: "identityExists st r"
  proof -
    from identity obtain n i where i: "map_of (st SIdentities) (identityKey (fld r ''tenantId'') (fld r ''identityId'')) = Some (n, i)"
      and same: "fld i ''accountId'' = fld r ''accountId''" "fld i ''methodId'' = fld r ''methodId''"
        "fld i ''methodKind'' = fld r ''methodKind''"
      by (auto simp: identityExists_def simp del: fld.simps fld_obj split: option.splits)
    obtain n' i' where "map_of (st' SIdentities) (identityKey (fld r ''tenantId'') (fld r ''identityId'')) = Some (n', i')"
      and "(lifecycle SIdentities)\<^sup>*\<^sup>* i i'"
      by (rule movesOnlyE [OF assms(2) _ i]) simp_all
    note path = this
    have "is_obj i" using storeInvD(2) [OF assms(3) _ i] by (simp add: storedOk_def)
    note moved = lifecycles_fixed [OF path(2) this]
    show ?thesis unfolding identityExists_def path(1) by (simp only: option.case prod.case moved same simp_thms)
  qed
  show ?thesis using assms(1) acc ident by (cases k) simp_all
qed

section \<open>Steps preserve the invariant\<close>

lemma map_of_setCell: "map_of (setCell k key n v st j) = (if j = k then (map_of (st k))(key \<mapsto> (n, v)) else map_of (st j))"
  by (simp add: setCell_def update_conv')

lemma distinct_setCell: "distinct (map fst (st j)) \<Longrightarrow> distinct (map fst (setCell k key n v st j))"
  by (cases "j = k") (simp_all add: setCell_def distinct_update)

lemma indexEntry_map: "indexEntry k r = Some (m, i, v) \<Longrightarrow> m \<notin> set recordMaps"
  by (cases k) auto

lemma indexEntry_own_map: "indexEntry k r = Some (m, i, v) \<Longrightarrow> indexEntry k' r' = Some (m, i', v') \<Longrightarrow> k' = k"
  by (cases k; cases k') auto

lemma addIndex_record: "j \<in> set recordMaps \<Longrightarrow> addIndex (indexEntry k r) st j = st j"
  using indexEntry_map by (fastforce simp: addIndex_def setCell_def split: option.splits)

lemma storeStep_movesOnly: "storeStep scope (n, st) (n', st') \<Longrightarrow> movesOnly st st'"
proof (erule storeStepE)
  fix k r
  assume "map_of (st k) (keyOf k r) = None"
    and "st' = addIndex (indexEntry k r) (setCell k (keyOf k r) (Suc n) r st)"
  then show ?thesis
    unfolding movesOnly_def by (auto simp: addIndex_record map_of_setCell)
next
  fix k key m r r'
  assume "map_of (st k) key = Some (m, r)" "lifecycle k r r'" "st' = setCell k key (Suc n) r' st"
  then show ?thesis unfolding movesOnly_def by (auto simp: map_of_setCell)
qed

lemma storeStep_inv:
  assumes step: "storeStep scope (n, st) (n', st')" and inv: "storeInv st"
  shows "storeInv st'"
proof -
  note ext = storeStep_movesOnly [OF step]
  have dist: "distinct (map fst (st' j))" for j
    using step inv unfolding storeInv_def
    by (auto elim!: storeStepE simp: addIndex_def distinct_setCell split: option.splits)
  have "key = keyOf j q \<and> storedOk j q \<and> owned st' j q
      \<and> (\<forall>m i v. indexEntry j q = Some (m, i, v) \<longrightarrow> map_of (st' m) i = Some (0, v))"
    if j: "j \<in> set recordMaps" and q: "map_of (st' j) key = Some (b, q)" for j key b q
    using step
  proof (rule storeStepE)
    fix k r
    assume k: "k \<in> set recordMaps" "storedOk k r" "map_of (st k) (keyOf k r) = None" "owned st k r"
      and new: "\<And>m i v. indexEntry k r = Some (m, i, v) \<Longrightarrow> map_of (st m) i = None"
      and st': "st' = addIndex (indexEntry k r) (setCell k (keyOf k r) (Suc n) r st)"
    have idx: "map_of (st' m) i = Some (0, v)" if "indexEntry k r = Some (m, i, v)" for m i v
      using that by (simp add: st' addIndex_def map_of_setCell)
    have old: "map_of (st' m) i = Some (0, v)" if "map_of (st m) i = Some (0, v)" and "m \<notin> set recordMaps" for m i v
      using that k(1) new by (cases "indexEntry k r") (auto simp: st' addIndex_def map_of_setCell)
    show ?thesis
    proof (cases "j = k \<and> key = keyOf k r")
      case True
      with q j have "q = r" by (simp add: st' addIndex_record map_of_setCell)
      with True k idx owned_movesOnly [OF k(4) ext inv] show ?thesis by blast
    next
      case False
      with q j have "map_of (st j) key = Some (b, q)" by (auto simp: st' addIndex_record map_of_setCell split: if_splits)
      note was = storeInvD [OF inv j this]
      show ?thesis using was(1,2) owned_movesOnly [OF was(3) ext inv] was(4) old indexEntry_map by blast
    qed
  next
    fix k kk m r r'
    assume k: "k \<in> set recordMaps" "map_of (st k) kk = Some (m, r)" "lifecycle k r r'"
      and st': "st' = setCell k kk (Suc n) r' st"
    have idx: "map_of (st' m) i = map_of (st m) i" if "m \<notin> set recordMaps" for m i
      using that k(1) by (auto simp: st' map_of_setCell)
    note r = storeInvD [OF inv k(1,2)]
    show ?thesis
    proof (cases "j = k \<and> key = kk")
      case True
      with q have q: "q = r'" by (simp add: st' map_of_setCell)
      have "owned st' k r'" using owned_movesOnly [OF r(3) ext inv] lifecycle_same(3) [OF k(3)] by blast
      moreover have "map_of (st' m) i = Some (0, v)" if "indexEntry k r' = Some (m, i, v)" for m i v
        using that r(4) idx indexEntry_map lifecycle_same(2) [OF k(3)] by metis
      ultimately show ?thesis
        using True q r(1) lifecycle_same(1) [OF k(3)] lifecycle_storedOk [OF k(3) r(2)] by metis
    next
      case False
      with q j have "map_of (st j) key = Some (b, q)" by (auto simp: st' map_of_setCell split: if_splits)
      note was = storeInvD [OF inv j this]
      show ?thesis using was(1,2) owned_movesOnly [OF was(3) ext inv] was(4) idx indexEntry_map by metis
    qed
  qed
  with dist show ?thesis unfolding storeInv_def by blast
qed

end
