(* ===== verification/MemoryRefinement.thy ===== *)
theory MemoryRefinement
  imports MemoryLifecycle
begin

text \<open>
  The operations of the memory stores implement the steps of \<open>MemoryLifecycle\<close>: what an operation
  writes, it writes to the maps of its transaction, or to those of the store without one.
\<close>

definition refines :: "string \<Rightarrow> (jsv \<Rightarrow> jsv \<Rightarrow> memoryWorld \<Rightarrow> jsv outcome \<times> memoryWorld) \<Rightarrow> bool" where
  "refines scope operation \<longleftrightarrow> (\<forall>input tx w r w'. operation input tx w = (r, w')
     \<longrightarrow> (\<forall>st. memoryStateFor w scope tx = Some st \<longrightarrow> storeInv st) \<longrightarrow>
     w' = w \<or> (\<exists>st n st'. memoryStateFor w scope tx = Some st \<and> (storeStep scope)\<^sup>*\<^sup>* (allocated w, st) (n, st')
       \<and> w' = putState tx st' (w\<lparr>allocated := n\<rparr>)))"

lemma refinesI:
  assumes "\<And>input tx w st. memoryStateFor w scope tx = Some st \<Longrightarrow> storeInv st \<Longrightarrow>
      snd (operation input tx w) = w
      \<or> (\<exists>st'. storeStep scope (allocated w, st) (Suc (allocated w), st') \<and> snd (operation input tx w) = putFresh tx st' w)"
    and "\<And>input tx w. memoryStateFor w scope tx = None \<Longrightarrow> snd (operation input tx w) = w"
  shows "refines scope operation"
  unfolding refines_def
proof (intro allI impI)
  fix input tx w r w'
  assume eq: "operation input tx w = (r, w')" and inv: "\<forall>st. memoryStateFor w scope tx = Some st \<longrightarrow> storeInv st"
  show "w' = w \<or> (\<exists>st n st'. memoryStateFor w scope tx = Some st \<and> (storeStep scope)\<^sup>*\<^sup>* (allocated w, st) (n, st')
       \<and> w' = putState tx st' (w\<lparr>allocated := n\<rparr>))"
  proof (cases "memoryStateFor w scope tx")
    case None
    with assms(2) [OF this, of input] eq show ?thesis by simp
  next
    case (Some st)
    with inv have "storeInv st" by blast
    from assms(1) [OF Some this, of input] eq
    consider "w' = w" | st' where "storeStep scope (allocated w, st) (Suc (allocated w), st')" "w' = putFresh tx st' w"
      by auto
    then show ?thesis
    proof cases
      case 2
      then have "w' = putState tx st' (w\<lparr>allocated := Suc (allocated w)\<rparr>)" by (simp add: putFresh_def fresh_def)
      with 2(1) Some show ?thesis by blast
    qed simp
  qed
qed

lemma memoryStateFor_same: "memoryStateFor w a tx = Some x \<Longrightarrow> memoryStateFor w b tx = Some y \<Longrightarrow> y = x"
  by (auto simp: memoryStateFor_def split: if_splits option.splits)

lemma is_obj_fld: "fld v k \<noteq> JUndef \<Longrightarrow> is_obj v"
  by (cases v) auto

lemma identifier_is_obj: "isIdentifier (fld v k) \<Longrightarrow> is_obj v"
  by (rule is_obj_fld [of v k]) (auto simp: isIdentifier_def simp del: fld.simps)

lemma map_of_fold_set_field:
  "map_of (fold (\<lambda>(k, x). set_field k x) ups kvs) f
    = (case map_of (rev ups) f of None \<Rightarrow> map_of kvs f | Some x \<Rightarrow> Some x)"
proof (induction ups arbitrary: kvs)
  case (Cons u ups)
  obtain k x where u: "u = (k, x)" by fastforce
  show ?case using Cons [of "set_field k x kvs"] by (auto simp: u map_of_set_field map_add_def split: option.splits)
qed simp

lemma fld_spread:
  assumes "is_obj r"
  shows "fld (spread r ups) f = (case map_of (rev ups) f of None \<Rightarrow> fld r f | Some x \<Rightarrow> x)"
  using assms by (cases r) (simp_all add: map_of_fold_set_field split: option.split)

lemma sameExcept_spread:
  assumes "is_obj r" and "fst ` set ups \<subseteq> set ks" shows "sameExcept ks r (spread r ups)"
proof -
  have "map_of (rev ups) k = None" if "k \<notin> set ks" for k
    using that assms(2) by (auto simp: map_of_eq_None_iff)
  with fld_spread [OF assms(1), of ups] show ?thesis by (simp add: sameExcept_def)
qed

section \<open>Creating records\<close>

text \<open>A record that was accepted is created next to what it refers to.\<close>

lemma create_step:
  assumes "k \<in> set recordMaps" and "k \<in> set (scopeStateKeys (JStr scope))" and "storedOk k r"
    and "map_of (st k) (keyOf k r) = None" and "owned st k r" and "indexEntry k r = None"
  shows "storeStep scope (n, st) (Suc n, setCell k (keyOf k r) (Suc n) r st)"
  using storeStep.create [of k scope r st n] assms by (simp add: addIndex_def)

lemma create_indexed_step:
  assumes "k \<in> set recordMaps" and "k \<in> set (scopeStateKeys (JStr scope))" and "storedOk k r"
    and "map_of (st k) (keyOf k r) = None" and "owned st k r" and "indexEntry k r = Some (m, i, v)"
    and "map_of (st m) i = None"
  shows "storeStep scope (n, st) (Suc n, setCell m i 0 v (setCell k (keyOf k r) (Suc n) r st))"
  using storeStep.create [of k scope r st n] assms by (auto simp: addIndex_def)

lemma snapshotRecord_valid: "snapshotRecord v p = Some r \<Longrightarrow> p r"
  by (simp add: snapshotRecord_SomeD)

lemma memRecords_stored:
  "memAccountRecord r \<Longrightarrow> storedOk SAccounts r" "memIdentityRecord r \<Longrightarrow> storedOk SIdentities r"
  "memCredentialRecord r \<Longrightarrow> storedOk SCredentials r" "memSessionRecord r \<Longrightarrow> storedOk SSessions r"
  "memChallengeRecord r \<Longrightarrow> storedOk SChallenges r"
  unfolding memAccountRecord_def memIdentityRecord_def memCredentialRecord_def memSessionRecord_def
    memChallengeRecord_def storedOk_def using identifier_is_obj by blast+

lemma refines_accountsCreate: "refines ''accounts'' accountsCreate"
proof (rule refinesI)
  fix input tx w st
  assume st: "memoryStateFor w ''accounts'' tx = Some st"
  show "snd (accountsCreate input tx w) = w
      \<or> (\<exists>st'. storeStep ''accounts'' (allocated w, st) (Suc (allocated w), st') \<and> snd (accountsCreate input tx w) = putFresh tx st' w)"
  proof (cases "snapshotRecord (fld input ''record'') memAccountRecord")
    case (Some r)
    show ?thesis
    proof (cases "map_of (st SAccounts) (keyOf SAccounts r)")
      case None
      have "storeStep ''accounts'' (allocated w, st) (Suc (allocated w), setCell SAccounts (keyOf SAccounts r) (Suc (allocated w)) r st)"
        by (rule create_step) (use None memRecords_stored(1) [OF snapshotRecord_valid [OF Some]] in simp_all)
      with st Some None show ?thesis by (auto simp: accountsCreate_def Let_def fresh_def simp del: fld.simps fld_obj)
    qed (use st Some in \<open>simp add: accountsCreate_def Let_def del: fld.simps fld_obj\<close>)
  qed (use st in \<open>simp add: accountsCreate_def\<close>)
qed (simp add: accountsCreate_def)

lemma refines_challengesCreate: "refines ''challenges'' challengesCreate"
proof (rule refinesI)
  fix input tx w st
  assume st: "memoryStateFor w ''challenges'' tx = Some st"
  show "snd (challengesCreate input tx w) = w
      \<or> (\<exists>st'. storeStep ''challenges'' (allocated w, st) (Suc (allocated w), st') \<and> snd (challengesCreate input tx w) = putFresh tx st' w)"
  proof (cases "snapshotRecord (fld input ''record'') memChallengeRecord")
    case (Some r)
    show ?thesis
    proof (cases "map_of (st SChallenges) (keyOf SChallenges r)")
      case None
      have "storeStep ''challenges'' (allocated w, st) (Suc (allocated w), setCell SChallenges (keyOf SChallenges r) (Suc (allocated w)) r st)"
        by (rule create_step) (use None memRecords_stored(5) [OF snapshotRecord_valid [OF Some]] in simp_all)
      with st Some None show ?thesis by (auto simp: challengesCreate_def Let_def fresh_def simp del: fld.simps fld_obj)
    qed (use st Some in \<open>simp add: challengesCreate_def Let_def del: fld.simps fld_obj\<close>)
  qed (use st in \<open>simp add: challengesCreate_def\<close>)
qed (simp add: challengesCreate_def)

lemma refines_identitiesCreate: "refines ''identities'' identitiesCreate"
proof (rule refinesI)
  fix input tx w st
  assume st: "memoryStateFor w ''identities'' tx = Some st"
  show "snd (identitiesCreate input tx w) = w
      \<or> (\<exists>st'. storeStep ''identities'' (allocated w, st) (Suc (allocated w), st') \<and> snd (identitiesCreate input tx w) = putFresh tx st' w)"
  proof (cases "memoryStateFor w ''accounts'' tx")
    case (Some acc)
    with st have acc: "memoryStateFor w ''accounts'' tx = Some st" by (simp add: memoryStateFor_same)
    show ?thesis
    proof (cases "snapshotRecord (fld input ''record'') memIdentityRecord")
      case (Some r)
      let ?i = "identitySubjectKey (fld r ''tenantId'') (fld r ''methodId'') (fld r ''subject'')"
      show ?thesis
      proof (cases "accountExists st r \<and> map_of (st SIdentities) (keyOf SIdentities r) = None \<and> map_of (st SIdentitySubjects) ?i = None")
        case True
        have "storeStep ''identities'' (allocated w, st) (Suc (allocated w),
            setCell SIdentitySubjects ?i 0 (fld r ''identityId'') (setCell SIdentities (keyOf SIdentities r) (Suc (allocated w)) r st))"
          by (rule create_indexed_step) (use True memRecords_stored(2) [OF snapshotRecord_valid [OF Some]] in simp_all)
        with st acc Some True show ?thesis
          by (auto simp: identitiesCreate_def accountExists_def Let_def fresh_def simp del: fld.simps fld_obj)
      next
        case False
        then show ?thesis using st acc Some
          by (simp add: identitiesCreate_def accountExists_def Let_def del: fld.simps fld_obj) blast
      qed
    qed (use st acc in \<open>simp add: identitiesCreate_def\<close>)
  qed (use st in \<open>simp add: identitiesCreate_def\<close>)
qed (simp add: identitiesCreate_def)

lemma refines_sessionsCreate: "refines ''sessions'' sessionsCreate"
proof (rule refinesI)
  fix input tx w st
  assume st: "memoryStateFor w ''sessions'' tx = Some st"
  show "snd (sessionsCreate input tx w) = w
      \<or> (\<exists>st'. storeStep ''sessions'' (allocated w, st) (Suc (allocated w), st') \<and> snd (sessionsCreate input tx w) = putFresh tx st' w)"
  proof (cases "memoryStateFor w ''accounts'' tx")
    case (Some acc)
    with st have acc: "memoryStateFor w ''accounts'' tx = Some st" by (simp add: memoryStateFor_same)
    show ?thesis
    proof (cases "snapshotRecord (fld input ''record'') memSessionRecord")
      case (Some r)
      show ?thesis
      proof (cases "accountExists st r \<and> map_of (st SSessions) (keyOf SSessions r) = None
          \<and> (\<exists>h. tokenHashKey (fld r ''tenantId'') (fld r ''tokenHash'') = Some h \<and> map_of (st SSessionsByTokenHash) h = None)")
        case True
        then obtain h where h: "tokenHashKey (fld r ''tenantId'') (fld r ''tokenHash'') = Some h" "map_of (st SSessionsByTokenHash) h = None"
          by blast
        have "storeStep ''sessions'' (allocated w, st) (Suc (allocated w),
            setCell SSessionsByTokenHash h 0 (fld r ''sessionId'') (setCell SSessions (keyOf SSessions r) (Suc (allocated w)) r st))"
          by (rule create_indexed_step) (use True h memRecords_stored(4) [OF snapshotRecord_valid [OF Some]] in simp_all)
        with st acc Some True h show ?thesis
          by (auto simp: sessionsCreate_def accountExists_def Let_def fresh_def simp del: fld.simps fld_obj)
      next
        case False
        then show ?thesis using st acc Some
          by (auto simp: sessionsCreate_def accountExists_def Let_def simp del: fld.simps fld_obj split: option.split)
      qed
    qed (use st acc in \<open>simp add: sessionsCreate_def\<close>)
  qed (use st in \<open>simp add: sessionsCreate_def\<close>)
qed (simp add: sessionsCreate_def)

lemma refines_credentialsCreate: "refines ''credentials'' credentialsCreate"
proof (rule refinesI)
  fix input tx w st
  assume st: "memoryStateFor w ''credentials'' tx = Some st"
  show "snd (credentialsCreate input tx w) = w
      \<or> (\<exists>st'. storeStep ''credentials'' (allocated w, st) (Suc (allocated w), st') \<and> snd (credentialsCreate input tx w) = putFresh tx st' w)"
  proof (cases "memoryStateFor w ''accounts'' tx = None \<or> memoryStateFor w ''identities'' tx = None")
    case True
    then show ?thesis by (auto simp: credentialsCreate_def split: option.split)
  next
    case False
    then have more: "memoryStateFor w ''accounts'' tx = Some st" "memoryStateFor w ''identities'' tx = Some st"
      using memoryStateFor_same [OF st] by auto
    show ?thesis
    proof (cases "snapshotRecord (fld input ''record'') memCredentialRecord")
      case (Some r)
      let ?i = "credentialIdentityKey (fld r ''tenantId'') (fld r ''identityId'') (fld r ''methodId'')"
      show ?thesis
      proof (cases "snd (credentialsCreate input tx w) = w")
        case False
        then have True: "accountExists st r" "identityExists st r" "map_of (st SCredentials) (keyOf SCredentials r) = None"
          "map_of (st SCredentialsByIdentity) ?i = None"
          and result: "snd (credentialsCreate input tx w) = putFresh tx (setCell SCredentialsByIdentity ?i 0 (fld r ''credentialId'')
             (setCell SCredentials (keyOf SCredentials r) (Suc (allocated w)) r st)) w"
          using st more Some
          by (auto simp: credentialsCreate_def accountExists_def identityExists_def contentOf_def Let_def fresh_def
              simp del: fld.simps fld_obj not_None_eq split: if_splits option.splits)
        have "storeStep ''credentials'' (allocated w, st) (Suc (allocated w),
            setCell SCredentialsByIdentity ?i 0 (fld r ''credentialId'') (setCell SCredentials (keyOf SCredentials r) (Suc (allocated w)) r st))"
          by (rule create_indexed_step) (use True memRecords_stored(3) [OF snapshotRecord_valid [OF Some]] in simp_all)
        with result show ?thesis by blast
      qed simp
    qed (use st more in \<open>simp add: credentialsCreate_def\<close>)
  qed
qed (simp add: credentialsCreate_def)

section \<open>Changing records\<close>

lemma change_step:
  assumes "storeInv st" and "k \<in> set recordMaps" and "k \<in> set (scopeStateKeys (JStr scope))"
    and "map_of (st k) key = Some (m, r)" and "storedOk k r \<Longrightarrow> lifecycle k r r'"
  shows "storeStep scope (n, st) (Suc n, setCell k key (Suc n) r' st)"
  using storeStep.change [of k scope st key m r r' n] storeInvD(2) [OF assms(1,2,4)] assms by blast

text \<open>A lookup followed by a change of the record, as the operations write it.\<close>

definition changesRecord ::
  "string \<Rightarrow> stateKey \<Rightarrow> (jsv \<Rightarrow> jsv \<Rightarrow> memoryWorld \<Rightarrow> jsv outcome \<times> memoryWorld) \<Rightarrow> bool" where
  "changesRecord scope k operation \<longleftrightarrow> (\<forall>input tx w st. memoryStateFor w scope tx = Some st \<longrightarrow>
     snd (operation input tx w) = w
     \<or> (\<exists>key m r r'. map_of (st k) key = Some (m, r) \<and> (storedOk k r \<longrightarrow> lifecycle k r r')
          \<and> snd (operation input tx w) = putFresh tx (setCell k key (Suc (allocated w)) r' st) w))
   \<and> (\<forall>input tx w. memoryStateFor w scope tx = None \<longrightarrow> snd (operation input tx w) = w)"

lemma refines_change:
  assumes "changesRecord scope k operation" and "k \<in> set recordMaps" and "k \<in> set (scopeStateKeys (JStr scope))"
  shows "refines scope operation"
proof (rule refinesI)
  fix input tx w st
  assume st: "memoryStateFor w scope tx = Some st" "storeInv st"
  with assms(1) consider "snd (operation input tx w) = w"
    | key m r r' where "map_of (st k) key = Some (m, r)" "storedOk k r \<longrightarrow> lifecycle k r r'"
        "snd (operation input tx w) = putFresh tx (setCell k key (Suc (allocated w)) r' st) w"
    unfolding changesRecord_def by blast
  then show "snd (operation input tx w) = w
      \<or> (\<exists>st'. storeStep scope (allocated w, st) (Suc (allocated w), st') \<and> snd (operation input tx w) = putFresh tx st' w)"
    by cases (use change_step [OF st(2) assms(2,3)] in blast)+
qed (use assms(1) in \<open>simp add: changesRecord_def\<close>)

lemma changesRecordI:
  assumes "\<And>input tx w st. memoryStateFor w scope tx = Some st \<Longrightarrow> snd (operation input tx w) \<noteq> w \<Longrightarrow>
     \<exists>key m r r'. map_of (st k) key = Some (m, r) \<and> (storedOk k r \<longrightarrow> lifecycle k r r')
          \<and> snd (operation input tx w) = putFresh tx (setCell k key (Suc (allocated w)) r' st) w"
    and "\<And>input tx w. memoryStateFor w scope tx = None \<Longrightarrow> snd (operation input tx w) = w"
  shows "changesRecord scope k operation"
  using assms unfolding changesRecord_def by blast

lemma changes_accountsUpdateStatus: "changesRecord ''accounts'' SAccounts accountsUpdateStatus"
proof (rule changesRecordI)
  fix input tx w st
  let ?key = "accountKey (fld input ''tenantId'') (fld input ''accountId'')"
  let ?up = "\<lambda>r. spread r [(''status'', fld input ''status''), (''updatedAt'', fld input ''now'')]"
  assume "memoryStateFor w ''accounts'' tx = Some st" and "snd (accountsUpdateStatus input tx w) \<noteq> w"
  then obtain m r where r: "map_of (st SAccounts) ?key = Some (m, r)"
    and may: "canTransitionAccountStatus (fld r ''status'') (fld input ''status'')"
    and result: "snd (accountsUpdateStatus input tx w) = putFresh tx (setCell SAccounts ?key (Suc (allocated w)) (?up r) st) w"
    by (auto simp: accountsUpdateStatus_def Let_def fresh_def snapshotDate_def simp del: fld.simps fld_obj spread.simps
        split: if_splits option.splits)
  have "lifecycle SAccounts r (?up r)" if "storedOk SAccounts r"
    using that may by (simp add: storedOk_def fld_spread sameExcept_spread del: fld.simps fld_obj spread.simps)
  with r result show "\<exists>key m r r'. map_of (st SAccounts) key = Some (m, r) \<and> (storedOk SAccounts r \<longrightarrow> lifecycle SAccounts r r')
      \<and> snd (accountsUpdateStatus input tx w) = putFresh tx (setCell SAccounts key (Suc (allocated w)) r' st) w"
    by blast
qed (simp add: accountsUpdateStatus_def)

lemma changes_identitiesMarkVerified: "changesRecord ''identities'' SIdentities identitiesMarkVerified"
proof (rule changesRecordI)
  fix input tx w st
  let ?key = "identityKey (fld input ''tenantId'') (fld input ''identityId'')"
  assume "memoryStateFor w ''identities'' tx = Some st" and "snd (identitiesMarkVerified input tx w) \<noteq> w"
  then obtain m r v n where r: "map_of (st SIdentities) ?key = Some (m, r)"
    and result: "snd (identitiesMarkVerified input tx w) = putFresh tx (setCell SIdentities ?key (Suc (allocated w)) (spread r [(''verifiedAt'', v), (''updatedAt'', n)]) st) w"
    by (auto simp: identitiesMarkVerified_def Let_def fresh_def  simp del: fld.simps fld_obj spread.simps
        split: if_splits option.splits)
  have "lifecycle SIdentities r (spread r [(''verifiedAt'', v), (''updatedAt'', n)])" if "storedOk SIdentities r"
    using that by (simp add: storedOk_def fld_spread sameExcept_spread del: fld.simps fld_obj spread.simps)
  with r result show "\<exists>key m r r'. map_of (st SIdentities) key = Some (m, r) \<and> (storedOk SIdentities r \<longrightarrow> lifecycle SIdentities r r')
      \<and> snd (identitiesMarkVerified input tx w) = putFresh tx (setCell SIdentities key (Suc (allocated w)) r' st) w"
    by blast
qed (simp add: identitiesMarkVerified_def)

lemma changes_credentialsReplaceMaterial: "changesRecord ''credentials'' SCredentials credentialsReplaceMaterial"
proof (rule changesRecordI)
  fix input tx w st
  let ?key = "credentialKey (fld input ''tenantId'') (fld input ''credentialId'')"
  assume "memoryStateFor w ''credentials'' tx = Some st" and "snd (credentialsReplaceMaterial input tx w) \<noteq> w"
  then obtain m r v n where r: "map_of (st SCredentials) ?key = Some (m, r)"
    and result: "snd (credentialsReplaceMaterial input tx w) = putFresh tx (setCell SCredentials ?key (Suc (allocated w)) (spread r [(''material'', v), (''version'', JNum (num_val (fld r ''version'') + 1)), (''updatedAt'', n)]) st) w"
    by (auto simp: credentialsReplaceMaterial_def Let_def fresh_def versionMismatch_def simp del: fld.simps fld_obj spread.simps
        split: if_splits option.splits)
  have "lifecycle SCredentials r (spread r [(''material'', v), (''version'', JNum (num_val (fld r ''version'') + 1)), (''updatedAt'', n)])" if "storedOk SCredentials r"
    using that by (simp add: storedOk_def fld_spread sameExcept_spread del: fld.simps fld_obj spread.simps)
  with r result show "\<exists>key m r r'. map_of (st SCredentials) key = Some (m, r) \<and> (storedOk SCredentials r \<longrightarrow> lifecycle SCredentials r r')
      \<and> snd (credentialsReplaceMaterial input tx w) = putFresh tx (setCell SCredentials key (Suc (allocated w)) r' st) w"
    by blast
qed (simp add: credentialsReplaceMaterial_def)

lemma changes_credentialsUpdateStatus: "changesRecord ''credentials'' SCredentials credentialsUpdateStatus"
proof (rule changesRecordI)
  fix input tx w st
  let ?key = "credentialKey (fld input ''tenantId'') (fld input ''credentialId'')"
  assume "memoryStateFor w ''credentials'' tx = Some st" and "snd (credentialsUpdateStatus input tx w) \<noteq> w"
  then obtain m r n where r: "map_of (st SCredentials) ?key = Some (m, r)"
    and may: "canTransitionCredentialStatus (fld r ''status'') (fld input ''status'')"
    and result: "snd (credentialsUpdateStatus input tx w) = putFresh tx (setCell SCredentials ?key (Suc (allocated w)) (spread r [(''status'', fld input ''status''), (''version'', JNum (num_val (fld r ''version'') + 1)), (''updatedAt'', n)]) st) w"
    by (auto simp: credentialsUpdateStatus_def Let_def fresh_def versionMismatch_def simp del: fld.simps fld_obj spread.simps
        split: if_splits option.splits)
  have "lifecycle SCredentials r (spread r [(''status'', fld input ''status''), (''version'', JNum (num_val (fld r ''version'') + 1)), (''updatedAt'', n)])" if "storedOk SCredentials r"
    using that may by (simp add: storedOk_def fld_spread sameExcept_spread del: fld.simps fld_obj spread.simps)
  with r result show "\<exists>key m r r'. map_of (st SCredentials) key = Some (m, r) \<and> (storedOk SCredentials r \<longrightarrow> lifecycle SCredentials r r')
      \<and> snd (credentialsUpdateStatus input tx w) = putFresh tx (setCell SCredentials key (Suc (allocated w)) r' st) w"
    by blast
qed (simp add: credentialsUpdateStatus_def)

lemma changes_sessionsRevoke: "changesRecord ''sessions'' SSessions sessionsRevoke"
proof (rule changesRecordI)
  fix input tx w st
  let ?key = "sessionKey (fld input ''tenantId'') (fld input ''sessionId'')"
  assume "memoryStateFor w ''sessions'' tx = Some st" and "snd (sessionsRevoke input tx w) \<noteq> w"
  then obtain m r n where r: "map_of (st SSessions) ?key = Some (m, r)"
    and may: "fld r ''status'' = JStr ''active''"
    and result: "snd (sessionsRevoke input tx w) = putFresh tx (setCell SSessions ?key (Suc (allocated w)) (revokedSession r n) st) w"
    by (auto simp: sessionsRevoke_def Let_def fresh_def  simp del: fld.simps fld_obj spread.simps
        split: if_splits option.splits)
  have "lifecycle SSessions r (revokedSession r n)" if "storedOk SSessions r"
    using that may by (simp add: storedOk_def fld_spread sameExcept_spread revokedSession_def del: fld.simps fld_obj spread.simps)
  with r result show "\<exists>key m r r'. map_of (st SSessions) key = Some (m, r) \<and> (storedOk SSessions r \<longrightarrow> lifecycle SSessions r r')
      \<and> snd (sessionsRevoke input tx w) = putFresh tx (setCell SSessions key (Suc (allocated w)) r' st) w"
    by blast
qed (simp add: sessionsRevoke_def)

lemma challenge_lifecycle_spread:
  assumes "storedOk SChallenges r" and "challengeMoves r (spread r ups)"
    and "fst ` set ups \<subseteq> {''attempts'', ''status'', ''consumedAt'', ''version'', ''updatedAt''}"
  shows "lifecycle SChallenges r (spread r ups)"
  using assms sameExcept_spread [of r ups] by (simp add: storedOk_def del: spread.simps)

lemma failedAttempt_moves:
  assumes "failedAttempt r v n = (Some r', status)" and "storedOk SChallenges r"
  shows "lifecycle SChallenges r r'"
proof -
  from assms obtain ups where r': "r' = spread r ups"
    and ups: "fst ` set ups \<subseteq> {''attempts'', ''status'', ''consumedAt'', ''version'', ''updatedAt''}"
    unfolding failedAttempt_def Let_def by (auto simp del: fld.simps fld_obj spread.simps split: if_splits)
  have "challengeMoves r r'"
    using assms unfolding failedAttempt_def challengeMoves_def storedOk_def exhausted_def nextVersion_def Let_def
    by (auto simp: fld_spread simp del: fld.simps fld_obj spread.simps split: if_splits)
  with challenge_lifecycle_spread [OF assms(2)] ups r' show ?thesis by blast
qed

lemma consumption_moves:
  assumes "consumption r v n = (Some r', status)" and ok: "storedOk SChallenges r"
  shows "lifecycle SChallenges r r'"
proof -
  have obj: "is_obj r" using ok by (simp add: storedOk_def)
  have st: "fld r ''status'' \<in> {JStr ''pending'', JStr ''failed''}"
    using assms unfolding consumption_def storedOk_def by (auto simp del: fld.simps fld_obj spread.simps split: if_splits)
  from assms(1) consider
    "r' = spread r [(''status'', JStr ''expired''), (''version'', nextVersion r), (''updatedAt'', n)]"
  | "\<not> exhausted r"
    "r' = spread r [(''status'', JStr ''consumed''), (''consumedAt'', n), (''version'', nextVersion r), (''updatedAt'', n)]"
    unfolding consumption_def by (auto simp del: fld.simps fld_obj spread.simps split: if_splits)
  then show ?thesis
  proof cases
    case 1
    have "challengeMoves r r'"
      using st by (simp add: 1 challengeMoves_def nextVersion_def fld_spread [OF obj] del: fld.simps fld_obj spread.simps)
    with 1 show ?thesis by (simp add: challenge_lifecycle_spread [OF ok] del: spread.simps lifecycle.simps)
  next
    case 2
    have "challengeMoves r r'"
      using st 2(1) unfolding 2(2) challengeMoves_def Let_def exhausted_def nextVersion_def
      by (auto simp: fld_spread [OF obj] simp del: fld.simps fld_obj spread.simps)
    with 2 show ?thesis by (simp add: challenge_lifecycle_spread [OF ok] del: spread.simps lifecycle.simps)
  qed
qed

lemma changes_changeChallenge:
  assumes "\<And>r v n r' status. change r v n = (Some r', status) \<Longrightarrow> storedOk SChallenges r \<Longrightarrow> lifecycle SChallenges r r'"
  shows "changesRecord ''challenges'' SChallenges (changeChallenge change report)"
proof (rule changesRecordI)
  fix input tx w st
  let ?key = "challengeKey (fld input ''tenantId'') (fld input ''challengeId'')"
  assume "memoryStateFor w ''challenges'' tx = Some st" and "snd (changeChallenge change report input tx w) \<noteq> w"
  then obtain m r n r' status where r: "map_of (st SChallenges) ?key = Some (m, r)"
    and step: "change r (fld input ''expectedVersion'') n = (Some r', status)"
    and result: "snd (changeChallenge change report input tx w) = putFresh tx (setCell SChallenges ?key (Suc (allocated w)) r' st) w"
    by (auto simp: changeChallenge_def Let_def fresh_def simp del: fld.simps fld_obj
        split: if_splits option.splits prod.splits)
  with assms [OF step] show "\<exists>key m r r'. map_of (st SChallenges) key = Some (m, r) \<and> (storedOk SChallenges r \<longrightarrow> lifecycle SChallenges r r')
      \<and> snd (changeChallenge change report input tx w) = putFresh tx (setCell SChallenges key (Suc (allocated w)) r' st) w"
    by blast
qed (simp add: changeChallenge_def)

section \<open>Cleaning up\<close>

lemma update_middle:
  "key \<notin> fst ` set pre \<Longrightarrow> AList.update key v (pre @ (key, x) # rest) = pre @ (key, v) # rest"
  by (induction pre) auto

lemma map_of_middle: "key \<notin> fst ` set pre \<Longrightarrow> map_of (pre @ (key, x) # rest) key = Some x"
  by (induction pre) auto

text \<open>The loop over the map changes one record after the other, in place.\<close>

lemma expireEntries_steps:
  assumes "expireEntries limit due change count n cells = (cells', count', n')"
    and "distinct (map fst (pre @ cells))"
    and "k \<in> set recordMaps" and "k \<in> set (scopeStateKeys (JStr scope))"
    and "\<And>i r key. (key, i, r) \<in> set cells \<Longrightarrow> due r \<Longrightarrow> lifecycle k r (change r)"
  shows "(storeStep scope)\<^sup>*\<^sup>* (n, st(k := pre @ cells)) (n', st(k := pre @ cells'))"
  using assms(1,2,5)
proof (induction limit due change count n cells arbitrary: pre cells' count' n' rule: expireEntries.induct)
  case (2 limit due change count n key i r rest)
  show ?case
  proof (cases "\<not> due r")
    case True
    with 2(3) obtain cells2 where rest: "expireEntries limit due change count n rest = (cells2, count', n')"
      "cells' = (key, i, r) # cells2"
      by (auto split: prod.splits)
    have "(storeStep scope)\<^sup>*\<^sup>* (n, st(k := (pre @ [(key, i, r)]) @ rest)) (n', st(k := (pre @ [(key, i, r)]) @ cells2))"
      by (rule 2(1) [OF True rest(1)]) (use 2(4,5) in auto)
    then show ?thesis by (simp only: rest(2) append_assoc append_Cons append_Nil)
  next
    case False
    show ?thesis
    proof (cases "limit \<le> count")
      case True
      with 2(3) False show ?thesis by simp
    next
      case less: False
      with False 2(3) obtain cells2 where rest: "expireEntries limit due change (count + 1) (n + 1) rest = (cells2, count', n')"
        "cells' = (key, n + 1, change r) # cells2"
        by (auto split: prod.splits)
      have key: "key \<notin> fst ` set pre" using 2(4) by auto
      have "storeStep scope (n, st(k := pre @ (key, i, r) # rest))
          (Suc n, setCell k key (Suc n) (change r) (st(k := pre @ (key, i, r) # rest)))"
        by (rule storeStep.change [of _ _ _ _ i r, OF assms(3,4)])
          (use map_of_middle [OF key] 2(5) [of key i r] False in simp_all)
      then have one: "storeStep scope (n, st(k := pre @ (key, i, r) # rest))
          (Suc n, st(k := (pre @ [(key, Suc n, change r)]) @ rest))"
        using update_middle [OF key] by (simp add: setCell_def)
      have "(storeStep scope)\<^sup>*\<^sup>* (n + 1, st(k := (pre @ [(key, Suc n, change r)]) @ rest))
          (n', st(k := (pre @ [(key, Suc n, change r)]) @ cells2))"
        by (rule 2(2) [OF False less rest(1)]) (use 2(4,5) in auto)
      then have more: "(storeStep scope)\<^sup>*\<^sup>* (Suc n, st(k := (pre @ [(key, Suc n, change r)]) @ rest)) (n', st(k := pre @ cells'))"
        by (simp only: rest(2) Suc_eq_plus1 append_assoc append_Cons append_Nil)
      show ?thesis by (rule converse_rtranclp_into_rtranclp [where r = "storeStep scope", OF one more])
    qed
  qed
qed simp

lemma refines_cleanup:
  assumes k: "k \<in> set recordMaps" "k \<in> set (scopeStateKeys (JStr scope))"
    and change: "\<And>now r. fld r ''status'' = openStatus \<Longrightarrow> storedOk k r \<Longrightarrow> lifecycle k r (change now r)"
  shows "refines scope (cleanup scope k openStatus change)"
  unfolding refines_def
proof (intro allI impI)
  fix input tx w r w'
  assume eq: "cleanup scope k openStatus change input tx w = (r, w')"
    and inv: "\<forall>st. memoryStateFor w scope tx = Some st \<longrightarrow> storeInv st"
  show "w' = w \<or> (\<exists>st n st'. memoryStateFor w scope tx = Some st \<and> (storeStep scope)\<^sup>*\<^sup>* (allocated w, st) (n, st')
       \<and> w' = putState tx st' (w\<lparr>allocated := n\<rparr>))"
  proof (cases "w' = w")
    case False
    with eq obtain st limit now cells count n where st: "memoryStateFor w scope tx = Some st"
      and ex: "expireEntries limit (\<lambda>rec. fld rec ''tenantId'' = fld input ''tenantId'' \<and> fld rec ''status'' = openStatus
          \<and> \<not> date_less now (fld rec ''expiresAt'')) (change now) 0 (allocated w) (st k) = (cells, count, n)"
      and w': "w' = putState tx (st(k := cells)) (w\<lparr>allocated := n\<rparr>)"
      by (auto simp: cleanup_def simp del: fld.simps fld_obj split: option.splits prod.splits)
    from inv st have sinv: "storeInv st" by blast
    then have dist: "distinct (map fst ([] @ st k))" by (simp add: storeInv_def)
    have "(storeStep scope)\<^sup>*\<^sup>* (allocated w, st(k := [] @ st k)) (n, st(k := [] @ cells))"
    proof (rule expireEntries_steps [OF ex dist k])
      fix i rec key
      assume "(key, i, rec) \<in> set (st k)" and due: "fld rec ''tenantId'' = fld input ''tenantId'' \<and> fld rec ''status'' = openStatus
          \<and> \<not> date_less now (fld rec ''expiresAt'')"
      then have "map_of (st k) key = Some (i, rec)" using dist by (simp add: map_of_is_SomeI)
      from storeInvD(2) [OF sinv k(1) this] due change show "lifecycle k rec (change now rec)" by blast
    qed
    with st w' show ?thesis by auto
  qed simp
qed

lemma refines_sessionsCleanupExpired: "refines ''sessions'' sessionsCleanupExpired"
  unfolding sessionsCleanupExpired_def
  by (rule refines_cleanup) (simp_all add: storedOk_def fld_spread sameExcept_spread del: fld.simps fld_obj spread.simps)

lemma refines_challengesCleanupExpired: "refines ''challenges'' challengesCleanupExpired"
  unfolding challengesCleanupExpired_def
proof (rule refines_cleanup)
  fix now r
  assume "fld r ''status'' = JStr ''pending''" and ok: "storedOk SChallenges r"
  then show "lifecycle SChallenges r (spread r [(''status'', JStr ''expired''), (''updatedAt'', now), (''version'', nextVersion r)])"
    by (intro challenge_lifecycle_spread)
      (simp_all add: challengeMoves_def nextVersion_def storedOk_def fld_spread del: fld.simps fld_obj spread.simps)
qed simp_all

section \<open>Every operation\<close>

lemma refines_lookup: "(\<And>input tx w. snd (operation input tx w) = w) \<Longrightarrow> refines scope operation"
  unfolding refines_def by (metis snd_conv)

text \<open>All operations of the five stores, with the scope whose maps they write.\<close>

definition memoryOperations :: "(string \<times> (jsv \<Rightarrow> jsv \<Rightarrow> memoryWorld \<Rightarrow> jsv outcome \<times> memoryWorld)) set" where
  "memoryOperations =
     {(''accounts'', accountsCreate), (''accounts'', accountsFindById), (''accounts'', accountsUpdateStatus),
      (''identities'', identitiesCreate), (''identities'', identitiesFindById),
      (''identities'', identitiesFindBySubject), (''identities'', identitiesMarkVerified),
      (''credentials'', credentialsCreate), (''credentials'', credentialsFindById),
      (''credentials'', credentialsFindForIdentity), (''credentials'', credentialsReplaceMaterial),
      (''credentials'', credentialsUpdateStatus),
      (''sessions'', sessionsCreate), (''sessions'', sessionsFindById), (''sessions'', sessionsFindByTokenHash),
      (''sessions'', sessionsRevoke), (''sessions'', sessionsCleanupExpired),
      (''challenges'', challengesCreate), (''challenges'', challengesFindById),
      (''challenges'', challengesRecordFailedAttempt), (''challenges'', challengesConsumePending),
      (''challenges'', challengesCleanupExpired)}"

lemma refines_lookups:
  "refines scope accountsFindById" "refines scope identitiesFindById" "refines scope identitiesFindBySubject"
  "refines scope credentialsFindById" "refines scope credentialsFindForIdentity"
  "refines scope sessionsFindById" "refines scope sessionsFindByTokenHash" "refines scope challengesFindById"
  by (rule refines_lookup, simp add: store_operation_defs Let_def del: fld.simps fld_obj split: option.split)+

lemma refines_changes:
  "refines ''accounts'' accountsUpdateStatus" "refines ''identities'' identitiesMarkVerified"
  "refines ''credentials'' credentialsReplaceMaterial" "refines ''credentials'' credentialsUpdateStatus"
  "refines ''sessions'' sessionsRevoke"
  "refines ''challenges'' challengesRecordFailedAttempt" "refines ''challenges'' challengesConsumePending"
  unfolding challengesRecordFailedAttempt_def challengesConsumePending_def
  by (rule refines_change [OF changes_accountsUpdateStatus] refines_change [OF changes_identitiesMarkVerified]
      refines_change [OF changes_credentialsReplaceMaterial] refines_change [OF changes_credentialsUpdateStatus]
      refines_change [OF changes_sessionsRevoke]
      refines_change [OF changes_changeChallenge [OF failedAttempt_moves]]
      refines_change [OF changes_changeChallenge [OF consumption_moves]]; simp)+

lemma memoryOperations_refine: "(scope, operation) \<in> memoryOperations \<Longrightarrow> refines scope operation"
  unfolding memoryOperations_def
  using refines_lookups refines_changes refines_accountsCreate refines_identitiesCreate refines_credentialsCreate
    refines_sessionsCreate refines_challengesCreate refines_sessionsCleanupExpired refines_challengesCleanupExpired
  by auto

end
