(* ===== verification/MemoryRuns.thy ===== *)
theory MemoryRuns
  imports MemoryRefinement
begin

text \<open>
  Runs of a memory store: operations in any order, with or without the running transaction, and
  transactions one after the other, as the queue of \<open>createMemoryTransaction\<close> lets them in.
\<close>

section \<open>Steps of the whole store\<close>

text \<open>A world, and the running transaction with the maps it began with.\<close>

type_synonym memorySystem = "memoryWorld \<times> (jsv \<times> memoryState) option"

inductive memoryStep :: "memorySystem \<Rightarrow> memorySystem \<Rightarrow> bool" where
  operation: "(scope, operation) \<in> memoryOperations \<Longrightarrow> operation input tx w = (r, w')
    \<Longrightarrow> memoryStep (w, running) (w', running)"
| open_tx: "isTransactionRequest request \<Longrightarrow> beginTransaction (arr_elems (fld request ''requiredScopes'')) w = (tx, w')
    \<Longrightarrow> memoryStep (w, None) (w', Some (tx, baseState w))"
| settle: "settleTransaction tx before answer w = (result, w') \<Longrightarrow> memoryStep (w, Some (tx, before)) (w', None)"

inductive memoryReachable :: "memorySystem \<Rightarrow> bool" where
  start: "memoryReachable (emptyWorld, None)"
| step: "memoryReachable s \<Longrightarrow> memoryStep s s' \<Longrightarrow> memoryReachable s'"

section \<open>Objects are known by their number\<close>

definition numbered :: "(nat \<Rightarrow> jsv) \<Rightarrow> nat \<Rightarrow> memoryState \<Rightarrow> bool" where
  "numbered heap n st \<longleftrightarrow> (\<forall>k key m v. map_of (st k) key = Some (m, v) \<longrightarrow>
     (if k \<in> set recordMaps then 0 < m \<and> m \<le> n \<and> heap m = v else m = 0))"

lemma numberedI:
  "(\<And>k key m v. map_of (st k) key = Some (m, v) \<Longrightarrow>
     if k \<in> set recordMaps then 0 < m \<and> m \<le> n \<and> heap m = v else m = 0) \<Longrightarrow> numbered heap n st"
  unfolding numbered_def by blast

lemma numberedD:
  "numbered heap n st \<Longrightarrow> map_of (st k) key = Some (m, v) \<Longrightarrow>
     if k \<in> set recordMaps then 0 < m \<and> m \<le> n \<and> heap m = v else m = 0"
  unfolding numbered_def by blast

lemma numbered_setCell:
  assumes "numbered heap n st" and "if j \<in> set recordMaps then 0 < m \<and> m \<le> n \<and> heap m = v else m = 0"
  shows "numbered heap n (setCell j key m v st)"
proof (rule numberedI)
  fix k key' m' v'
  assume "map_of (setCell j key m v st k) key' = Some (m', v')"
  then show "if k \<in> set recordMaps then 0 < m' \<and> m' \<le> n \<and> heap m' = v' else m' = 0"
    using numberedD [OF assms(1), of k key' m' v'] assms(2) by (auto simp: map_of_setCell split: if_splits)
qed

lemma numbered_addIndex: "numbered heap n st \<Longrightarrow> numbered heap n (addIndex (indexEntry j r) st)"
  using indexEntry_map [of j r] by (auto simp: addIndex_def intro!: numbered_setCell split: option.splits)

lemma numbered_mono:
  assumes "numbered heap n st" and "n \<le> n'" and "\<forall>m\<le>n. heap' m = heap m"
  shows "numbered heap' n' st"
  unfolding numbered_def
proof (intro allI impI)
  fix k key m v
  assume "map_of (st k) key = Some (m, v)"
  with assms show "if k \<in> set recordMaps then 0 < m \<and> m \<le> n' \<and> heap' m = v else m = 0"
    unfolding numbered_def by (metis order_trans)
qed

lemma numbered_matches:
  assumes "numbered heap n st" and "numbered heap n st'"
  shows "entryMatches (st k) (st' k) key \<longleftrightarrow> map_of (st k) key = map_of (st' k) key"
  using assms unfolding entryMatches_def numbered_def
  by (fastforce split: option.splits prod.splits if_splits)

lemma indexEntry_scope:
  "indexEntry k r = Some (m, i, v) \<Longrightarrow> m \<in> set (scopeStateKeys s) \<longleftrightarrow> k \<in> set (scopeStateKeys s)"
  by (cases k; cases s) (auto split: if_splits)

lemma storeStep_numbered:
  assumes "storeStep scope (n, st) (n', st')" and "numbered heap n st"
  shows "\<exists>r. numbered (heap(Suc n := r)) (Suc n) st'" and "n' = Suc n"
    and "k \<notin> set (scopeStateKeys (JStr scope)) \<Longrightarrow> st' k = st k"
proof -
  have "numbered (heap(Suc n := r)) (Suc n) (setCell j key (Suc n) r st)" if "j \<in> set recordMaps" for j key r
    by (rule numbered_setCell) (use that numbered_mono [OF assms(2), of "Suc n"] in auto)
  note set = this
  show "\<exists>r. numbered (heap(Suc n := r)) (Suc n) st'" "n' = Suc n"
    using assms(1) by (auto elim!: storeStepE intro: set numbered_addIndex)
  show "st' k = st k" if k: "k \<notin> set (scopeStateKeys (JStr scope))"
    using assms(1)
  proof (cases rule: storeStep.cases)
    case (create j r)
    have "m \<noteq> k" if "indexEntry j r = Some (m, i, v)" for m i v
      using indexEntry_scope [OF that] create(4) k by metis
    moreover have "j \<noteq> k" using create(4) k by blast
    ultimately show ?thesis using create(2) by (auto simp: setCell_def addIndex_def split: option.split)
  next
    case (change j key m r r')
    then have "j \<noteq> k" using k by blast
    with change(2) show ?thesis by (simp add: setCell_def)
  qed
qed

lemma storeSteps:
  assumes "(storeStep scope)\<^sup>*\<^sup>* (n, st) (n', st')" and "storeInv st" and "numbered heap n st"
  shows "storeInv st' \<and> movesOnly st st' \<and> n \<le> n' \<and> (\<forall>k. k \<notin> set (scopeStateKeys (JStr scope)) \<longrightarrow> st' k = st k)
    \<and> (\<exists>heap'. (\<forall>m\<le>n. heap' m = heap m) \<and> numbered heap' n' st')"
  using assms(1)
proof (induction "(n', st')" arbitrary: n' st' rule: rtranclp_induct)
  case base
  with assms(2,3) show ?case by auto
next
  case (step mid)
  obtain n1 st1 where mid: "mid = (n1, st1)" by fastforce
  from step.hyps(3) [OF mid] obtain heap1 where
    ih: "storeInv st1" "movesOnly st st1" "n \<le> n1" "\<forall>k. k \<notin> set (scopeStateKeys (JStr scope)) \<longrightarrow> st1 k = st k"
      "\<forall>m\<le>n. heap1 m = heap m" "numbered heap1 n1 st1" by blast
  from step.hyps(2) mid have one: "storeStep scope (n1, st1) (n', st')" by simp
  note s = storeStep_numbered [OF one ih(6)]
  from s(1) obtain r where r: "numbered (heap1(Suc n1 := r)) n' st'" using s(2) by blast
  have "\<forall>m\<le>n. (heap1(Suc n1 := r)) m = heap m" using ih(3,5) by auto
  with r have heap: "\<exists>heap'. (\<forall>m\<le>n. heap' m = heap m) \<and> numbered heap' n' st'" by blast
  have "\<forall>k. k \<notin> set (scopeStateKeys (JStr scope)) \<longrightarrow> st' k = st k" using ih(4) s(3) by metis
  moreover have "n \<le> n'" using ih(3) s(2) by simp
  ultimately show ?case
    using storeStep_inv [OF one ih(1)] movesOnly_trans [OF ih(2) storeStep_movesOnly [OF one]] heap by blast
qed

section \<open>Merging\<close>

lemma storeInv_maps:
  assumes "\<And>k key. map_of (st' k) key = map_of (st k) key" and "\<And>k. distinct (map fst (st' k))" and "storeInv st"
  shows "storeInv st'"
proof -
  have "owned st' k r = owned st k r" for k r
    by (cases k) (simp_all only: owned.simps accountExists_def identityExists_def assms(1))
  with assms show ?thesis unfolding storeInv_def by simp
qed

text \<open>
  What a commit installs: the maps of the covered scopes come from the transaction, the others
  from the store. The references between them stay intact, since records only move on.
\<close>

lemma storeInv_merge:
  assumes inv: "storeInv A" "storeInv B" and ext: "movesOnly before A" "movesOnly before B"
    and off: "\<And>k. k \<notin> C \<Longrightarrow> A k = before k"
    and on: "\<And>k key. k \<in> C \<Longrightarrow> map_of (B k) key = map_of (before k) key"
    and closed: "\<And>k r m i v. indexEntry k r = Some (m, i, v) \<Longrightarrow> m \<in> C \<longleftrightarrow> k \<in> C"
    and M: "\<And>k key. map_of (M k) key = (if k \<in> C then map_of (A k) key else map_of (B k) key)"
    and dist: "\<And>k. distinct (map fst (M k))"
  shows "storeInv M" and "movesOnly B M" and "movesOnly A M"
proof -
  show eB: "movesOnly B M"
    unfolding movesOnly_def
  proof (intro allI impI)
    fix k key n r
    assume k: "k \<in> set recordMaps" and r: "map_of (B k) key = Some (n, r)"
    show "\<exists>n' r'. map_of (M k) key = Some (n', r') \<and> (lifecycle k)\<^sup>*\<^sup>* r r'"
    proof (cases "k \<in> C")
      case True
      with on r have "map_of (before k) key = Some (n, r)" by simp
      then show ?thesis using ext(1) k True unfolding movesOnly_def by (simp add: M)
    qed (use r in \<open>auto simp: M\<close>)
  qed
  show eA: "movesOnly A M"
    unfolding movesOnly_def
  proof (intro allI impI)
    fix k key n r
    assume k: "k \<in> set recordMaps" and r: "map_of (A k) key = Some (n, r)"
    show "\<exists>n' r'. map_of (M k) key = Some (n', r') \<and> (lifecycle k)\<^sup>*\<^sup>* r r'"
    proof (cases "k \<in> C")
      case False
      with off r have "map_of (before k) key = Some (n, r)" by simp
      then show ?thesis using ext(2) k False unfolding movesOnly_def by (simp add: M)
    qed (use r in \<open>auto simp: M\<close>)
  qed
  have "key = keyOf k r \<and> storedOk k r \<and> owned M k r
      \<and> (\<forall>m i v. indexEntry k r = Some (m, i, v) \<longrightarrow> map_of (M m) i = Some (0, v))"
    if k: "k \<in> set recordMaps" and r: "map_of (M k) key = Some (n, r)" for k key n r
  proof (cases "k \<in> C")
    case True
    with r have "map_of (A k) key = Some (n, r)" by (simp add: M)
    note a = storeInvD [OF inv(1) k this]
    have "map_of (M m) i = Some (0, v)" if e: "indexEntry k r = Some (m, i, v)" for m i v
      using a(4) [OF e] closed [OF e] True by (simp add: M)
    with a(1,2) owned_movesOnly [OF a(3) eA inv(1)] show ?thesis by blast
  next
    case False
    with r have "map_of (B k) key = Some (n, r)" by (simp add: M)
    note a = storeInvD [OF inv(2) k this]
    have "map_of (M m) i = Some (0, v)" if e: "indexEntry k r = Some (m, i, v)" for m i v
      using a(4) [OF e] closed [OF e] False by (simp add: M)
    with a(1,2) owned_movesOnly [OF a(3) eB inv(2)] show ?thesis by blast
  qed
  with dist show "storeInv M" unfolding storeInv_def by blast
qed

lemma distinct_applyChanges: "distinct (map fst base) \<Longrightarrow> distinct (map fst (applyChanges base before working))"
proof -
  have "distinct (map fst (fold (applyChange before working) ks b))" if "distinct (map fst b)" for ks b
    using that
  proof (induction ks arbitrary: b)
    case (Cons k ks)
    then have "distinct (map fst (applyChange before working k b))"
      by (auto simp: applyChange_def distinct_update distinct_delete split: option.splits)
    with Cons.IH show ?case by simp
  qed simp
  then show "distinct (map fst base) \<Longrightarrow> distinct (map fst (applyChanges base before working))"
    by (simp add: applyChanges_def)
qed

lemma mapsMatch_same:
  assumes "mapsMatch (st k) (st' k)" and "numbered heap n st" and "numbered heap n st'"
    and "distinct (map fst (st k))" and "distinct (map fst (st' k))"
  shows "map_of (st k) key = map_of (st' k) key"
proof -
  have eq: "map_of (st k) x = map_of (st' k) x" if "x \<in> fst ` set (st k)" for x
    using assms(1) that numbered_matches [OF assms(2,3)]
    by (auto simp: mapsMatch_def list_all_iff)
  have sub: "fst ` set (st k) \<subseteq> fst ` set (st' k)"
    using eq by (metis map_of_eq_None_iff subsetI)
  moreover have "card (fst ` set (st k)) = card (fst ` set (st' k))"
    using assms(1) distinct_card [OF assms(4)] distinct_card [OF assms(5)] by (simp add: mapsMatch_def)
  ultimately have "fst ` set (st k) = fst ` set (st' k)" by (simp add: card_subset_eq)
  with eq show ?thesis by (metis map_of_eq_None_iff)
qed

definition coveredKeys :: "jsv \<Rightarrow> stateKey set" where
  "coveredKeys tx = set (concat (map scopeStateKeys (arr_elems (fld tx ''covers''))))"

lemma coveredKeys_index: "indexEntry k r = Some (m, i, v) \<Longrightarrow> m \<in> coveredKeys tx \<longleftrightarrow> k \<in> coveredKeys tx"
  using indexEntry_scope by (simp add: coveredKeys_def)

lemma coveredKeys_scope: "JStr scope \<in> set (arr_elems (fld tx ''covers'')) \<Longrightarrow> set (scopeStateKeys (JStr scope)) \<subseteq> coveredKeys tx"
  unfolding coveredKeys_def by (auto simp del: scopeStateKeys.simps fld.simps fld_obj)

section \<open>The invariant of a run\<close>

definition runningInv :: "(nat \<Rightarrow> jsv) \<Rightarrow> memoryWorld \<Rightarrow> jsv \<Rightarrow> memoryState \<Rightarrow> memoryState \<Rightarrow> bool" where
  "runningInv heap w tx before working \<longleftrightarrow>
     transactionStates w = [(tx, working)] \<and> truthy tx \<and> storeInv before \<and> storeInv working
     \<and> numbered heap (allocated w) before \<and> numbered heap (allocated w) working
     \<and> movesOnly before (baseState w) \<and> movesOnly before working \<and> (\<forall>k. k \<notin> coveredKeys tx \<longrightarrow> working k = before k)"

definition systemInv :: "memorySystem \<Rightarrow> bool" where
  "systemInv s \<longleftrightarrow> (\<exists>heap. storeInv (baseState (fst s)) \<and> numbered heap (allocated (fst s)) (baseState (fst s))
     \<and> (case snd s of None \<Rightarrow> transactionStates (fst s) = []
        | Some (tx, before) \<Rightarrow> \<exists>working. runningInv heap (fst s) tx before working))"

lemma systemInv_start: "systemInv (emptyWorld, None)"
  by (simp add: systemInv_def emptyWorld_def storeInv_def numbered_def emptyState_def)

lemma systemInv_operation:
  assumes inv: "systemInv (w, running)" and op: "(scope, operation) \<in> memoryOperations" "operation input tx w = (r, w')"
  shows "systemInv (w', running) \<and> movesOnly (baseState w) (baseState w')"
proof -
  from inv obtain heap where heap: "storeInv (baseState w)" "numbered heap (allocated w) (baseState w)"
    and run: "case running of None \<Rightarrow> transactionStates w = [] | Some (tx, before) \<Rightarrow> \<exists>working. runningInv heap w tx before working"
    unfolding systemInv_def fst_conv snd_conv by blast
  have found: "\<exists>before. running = Some (tx, before) \<and> runningInv heap w tx before st \<and> JStr scope \<in> set (arr_elems (fld tx ''covers''))"
    if "memoryStateFor w scope tx = Some st" "truthy tx" for st
    using that run
    by (auto simp: memoryStateFor_def runningInv_def simp del: fld.simps fld_obj split: option.splits if_splits)
  have stInv: "storeInv st \<and> numbered heap (allocated w) st" if "memoryStateFor w scope tx = Some st" for st
  proof (cases "truthy tx")
    case True
    from found [OF that this] show ?thesis by (auto simp: runningInv_def)
  next
    case False
    with that heap show ?thesis by (simp add: memoryStateFor_def)
  qed
  from memoryOperations_refine [OF op(1)] op(2) stInv
  consider "w' = w" | st n st' where "memoryStateFor w scope tx = Some st"
      "(storeStep scope)\<^sup>*\<^sup>* (allocated w, st) (n, st')" "w' = putState tx st' (w\<lparr>allocated := n\<rparr>)"
    unfolding refines_def by blast
  then show ?thesis
  proof cases
    case 2
    from stInv [OF 2(1)] storeSteps [OF 2(2)] obtain heap' where
      st': "storeInv st'" "movesOnly st st'" "allocated w \<le> n" "\<forall>k. k \<notin> set (scopeStateKeys (JStr scope)) \<longrightarrow> st' k = st k"
      and heap': "\<forall>m\<le>allocated w. heap' m = heap m" "numbered heap' n st'" by blast
    note up = numbered_mono [OF _ st'(3) heap'(1)]
    show ?thesis
    proof (cases "truthy tx")
      case True
      with 2(1) found obtain before where b: "running = Some (tx, before)" "runningInv heap w tx before st"
        and covers: "JStr scope \<in> set (arr_elems (fld tx ''covers''))" by blast
      have "\<forall>k. k \<notin> coveredKeys tx \<longrightarrow> st' k = before k"
        using st'(4) b(2) coveredKeys_scope [OF covers] unfolding runningInv_def by (metis subsetD)
      then have "runningInv heap' w' tx before st'"
        using b(2) st' heap' up movesOnly_trans True unfolding runningInv_def
        by (simp add: 2(3) putState_def) blast
      then show ?thesis
        using heap up [OF heap(2)] b(1) True by (auto simp: systemInv_def 2(3) putState_def)
    next
      case False
      with 2(1) have base: "st = baseState w" by (simp add: memoryStateFor_def)
      have "case running of None \<Rightarrow> transactionStates w' = [] | Some (tx, before) \<Rightarrow> \<exists>working. runningInv heap' w' tx before working"
      proof (cases running)
        case (Some tb)
        with run obtain working where r: "runningInv heap w (fst tb) (snd tb) working" by (cases tb) auto
        have "movesOnly (snd tb) st'" using r st'(2) base movesOnly_trans unfolding runningInv_def by blast
        with r up False have "runningInv heap' w' (fst tb) (snd tb) working"
          unfolding runningInv_def by (simp add: 2(3) putState_def)
        then show ?thesis using Some by (auto simp: case_prod_beta)
      qed (use run False in \<open>simp add: 2(3) putState_def\<close>)
      moreover have "baseState w' = st'" "allocated w' = n" using False by (simp_all add: 2(3) putState_def)
      ultimately show ?thesis
        using st'(1,2) heap'(2) base unfolding systemInv_def fst_conv snd_conv by auto
    qed
  qed (use inv in simp)
qed

lemma systemInv_open:
  assumes "systemInv (w, None)" and "beginTransaction scopes w = (tx, w')"
  shows "systemInv (w', Some (tx, baseState w)) \<and> baseState w' = baseState w"
proof -
  from assms(1) obtain heap where "storeInv (baseState w)" "numbered heap (allocated w) (baseState w)" "transactionStates w = []"
    by (auto simp: systemInv_def)
  with assms(2) have "runningInv heap w' tx (baseState w) (baseState w)" "baseState w' = baseState w" "allocated w' = allocated w"
    by (auto simp: runningInv_def beginTransaction_def newTransaction_def Let_def)
  moreover have "storeInv (baseState w)" "numbered heap (allocated w) (baseState w)" by fact+
  ultimately show ?thesis by (auto simp: systemInv_def)
qed

text \<open>Committing: the maps of the covered scopes are those of the transaction.\<close>

lemma commit_maps:
  assumes run: "runningInv heap w tx before working" and base: "storeInv (baseState w)" "numbered heap (allocated w) (baseState w)"
    and can: "canCommitTransactionState (baseState w) before working (arr_elems (fld tx ''covers''))"
  shows "map_of (applyTransactionState (baseState w) before working k) key
    = (if k \<in> coveredKeys tx then map_of (working k) key else map_of (baseState w k) key)"
    and "k \<in> coveredKeys tx \<Longrightarrow> map_of (baseState w k) key = map_of (before k) key"
proof -
  have dist: "distinct (map fst (before j))" "distinct (map fst (baseState w j))" for j
    using run base unfolding runningInv_def storeInv_def by blast+
  show on: "map_of (baseState w k) key = map_of (before k) key" if "k \<in> coveredKeys tx" for k key
  proof -
    from that can have "mapsMatch (baseState w k) (before k)"
      unfolding canCommitTransactionState_def list_all_iff coveredKeys_def by blast
    moreover have "numbered heap (allocated w) before" using run by (simp add: runningInv_def)
    ultimately show ?thesis
      by (rule mapsMatch_same [where st = "baseState w" and st' = before, OF _ base(2) _ dist(2,1)])
  qed
  show "map_of (applyTransactionState (baseState w) before working k) key
    = (if k \<in> coveredKeys tx then map_of (working k) key else map_of (baseState w k) key)"
    using run on numbered_matches [of heap "allocated w" before working k key]
    by (simp add: applyTransactionState_key map_of_applyChanges runningInv_def)
qed

lemma systemInv_settle:
  assumes inv: "systemInv (w, Some (tx, before))" and settle: "settleTransaction tx before answer w = (r, w')"
  shows "systemInv (w', None) \<and> movesOnly (baseState w) (baseState w')"
proof -
  from inv obtain heap working where base: "storeInv (baseState w)" "numbered heap (allocated w) (baseState w)"
    and run: "runningInv heap w tx before working"
    unfolding systemInv_def by auto
  from settle run have closed: "transactionStates w' = []" "allocated w' = allocated w"
    and "baseState w' = baseState w \<or> canCommitTransactionState (baseState w) before working (arr_elems (fld tx ''covers''))
      \<and> baseState w' = applyTransactionState (baseState w) before working"
    by (auto simp: settleTransaction_def runningInv_def Let_def simp del: fld.simps fld_obj split: outcome.splits if_splits)
  then show ?thesis
  proof (elim disjE conjE)
    assume "baseState w' = baseState w"
    with base closed show ?thesis by (auto simp: systemInv_def)
  next
    let ?M = "applyTransactionState (baseState w) before working"
    assume can: "canCommitTransactionState (baseState w) before working (arr_elems (fld tx ''covers''))"
      and M: "baseState w' = ?M"
    note maps = commit_maps [OF run base can]
    have "distinct (map fst (?M k))" for k
      using base(1) distinct_applyChanges by (simp add: storeInv_def applyTransactionState_key)
    with storeInv_merge [of working "baseState w" before "coveredKeys tx" ?M] run base maps coveredKeys_index
    have "storeInv ?M" "movesOnly (baseState w) ?M" unfolding runningInv_def by blast+
    moreover have "numbered heap (allocated w) ?M"
    proof (rule numberedI)
      fix k key m v
      assume "map_of (?M k) key = Some (m, v)"
      with maps(1) have "map_of (working k) key = Some (m, v) \<or> map_of (baseState w k) key = Some (m, v)" by (metis)
      then show "if k \<in> set recordMaps then 0 < m \<and> m \<le> allocated w \<and> heap m = v else m = 0"
        using numberedD base(2) run unfolding runningInv_def by blast
    qed
    ultimately show ?thesis using M closed by (auto simp: systemInv_def)
  qed
qed

lemma systemInv_step:
  assumes "memoryStep s s'" and "systemInv s"
  shows "systemInv s' \<and> movesOnly (baseState (fst s)) (baseState (fst s'))"
  using assms
proof (cases rule: memoryStep.cases)
  case (operation scope op input tx w r w' running)
  with systemInv_operation assms(2) show ?thesis by simp
next
  case (open_tx request w tx w')
  with systemInv_open [of w _ tx w'] assms(2) show ?thesis by simp
next
  case (settle tx before answer w result w')
  with systemInv_settle assms(2) show ?thesis by simp
qed

lemma systemInv_reachable: "memoryReachable s \<Longrightarrow> systemInv s"
  by (induction rule: memoryReachable.induct) (use systemInv_start systemInv_step in blast)+

lemma movesOnly_steps:
  "memoryStep\<^sup>*\<^sup>* s s' \<Longrightarrow> systemInv s \<Longrightarrow> systemInv s' \<and> movesOnly (baseState (fst s)) (baseState (fst s'))"
  by (induction rule: rtranclp_induct) (use systemInv_step movesOnly_trans in auto)

end
