(* ===== verification/MemoryAtomicity.thy ===== *)
theory MemoryAtomicity
  imports MemoryTransactions OperationChecks
begin

text \<open>
  Core over the memory stores: which steps of an operation leave the maps of the store alone, and
  that an operation whose only writes are in a transaction leaves them alone when it fails.
\<close>

section \<open>Steps that leave the store alone\<close>

definition storeMaps :: "(memoryWorld \<times> 'e) st \<Rightarrow> memoryState" where
  "storeMaps s = baseState (fst (world s))"

definition leaves_store :: "(memoryWorld \<times> 'e, 'a) auth \<Rightarrow> bool" where
  "leaves_store m \<longleftrightarrow> (\<forall>s r t. m s = (r, t) \<longrightarrow> storeMaps t = storeMaps s)"

named_theorems leaves_rules \<open>steps that leave the maps of the memory store as they are\<close>

lemma leavesI: "(\<And>s r t. m s = (r, t) \<Longrightarrow> storeMaps t = storeMaps s) \<Longrightarrow> leaves_store m"
  by (simp add: leaves_store_def)

lemma leavesD: "leaves_store m \<Longrightarrow> m s = (r, t) \<Longrightarrow> storeMaps t = storeMaps s"
  by (simp add: leaves_store_def)

lemma leaves_ret [leaves_rules]: "leaves_store (ret a)"
  by (simp add: leaves_store_def)

lemma leaves_throw [leaves_rules]: "leaves_store throwM"
  by (simp add: leaves_store_def)

lemma leaves_bindM [leaves_rules]:
  assumes "leaves_store m" and "\<And>a. leaves_store (f a)" shows "leaves_store (bindM m f)"
proof (rule leavesI)
  fix s r t
  assume eq: "bindM m f s = (r, t)"
  obtain x u where m: "m s = (x, u)" by fastforce
  with leavesD [OF assms(1)] have "storeMaps u = storeMaps s" by blast
  with eq m leavesD [OF assms(2)] show "storeMaps t = storeMaps s"
    by (auto simp: bindM_def split: outcome.splits)
qed

lemma leaves_catchM [leaves_rules]:
  assumes "leaves_store m" and "leaves_store h" shows "leaves_store (catchM m h)"
proof (rule leavesI)
  fix s r t
  assume eq: "catchM m h s = (r, t)"
  obtain x u where m: "m s = (x, u)" by fastforce
  with leavesD [OF assms(1)] have "storeMaps u = storeMaps s" by blast
  with eq m leavesD [OF assms(2)] show "storeMaps t = storeMaps s"
    by (auto simp: catchM_def split: outcome.splits)
qed

lemma leaves_attemptM [leaves_rules]:
  assumes "leaves_store m" shows "leaves_store (attemptM m)"
proof -
  have "attemptM m = catchM (bindM m (\<lambda>a. ret (Some a))) (ret None)"
    by (auto simp: attemptM_def catchM_def bindM_def fun_eq_iff split: prod.splits outcome.splits)
  with assms show ?thesis by (simp add: leaves_rules)
qed

lemma leaves_liftO [leaves_rules]: "leaves_store (liftO x)"
  by (cases x) (simp_all add: leaves_rules)

lemma leaves_readProp [leaves_rules]: "leaves_store (readProp v k)"
  by (simp add: readProp_def leaves_rules)

lemma leaves_errR [leaves_rules]: "leaves_store (errR cx r p)"
  by (simp add: errR_def leaves_rules)

lemma leaves_case_option [leaves_rules]:
  "leaves_store m \<Longrightarrow> (\<And>a. leaves_store (f a)) \<Longrightarrow> leaves_store (case x of None \<Rightarrow> m | Some a \<Rightarrow> f a)"
  by (cases x) simp_all

lemma leaves_case_sum [leaves_rules]:
  "(\<And>a. leaves_store (f a)) \<Longrightarrow> (\<And>b. leaves_store (g b)) \<Longrightarrow> leaves_store (case x of Inl a \<Rightarrow> f a | Inr b \<Rightarrow> g b)"
  by (cases x) simp_all

lemma leaves_if [leaves_rules]: "leaves_store m \<Longrightarrow> leaves_store n \<Longrightarrow> leaves_store (if b then m else n)"
  by simp

lemma leaves_case_prod [leaves_rules]: "(\<And>a b. leaves_store (f a b)) \<Longrightarrow> leaves_store (case x of (a, b) \<Rightarrow> f a b)"
  by (cases x) simp

lemma leaves_Let [leaves_rules]: "(\<And>a. leaves_store (f a)) \<Longrightarrow> leaves_store (Let x f)"
  by (simp add: Let_def)

lemma leaves_bindR [leaves_rules]: "leaves_store m \<Longrightarrow> (\<And>a. leaves_store (f a)) \<Longrightarrow> leaves_store (bindR m f)"
  unfolding bindR_def by (intro leaves_rules)

lemma leaves_forM [leaves_rules]: "(\<And>x. leaves_store (f x)) \<Longrightarrow> leaves_store (forM f xs)"
  by (induction xs) (auto intro!: leaves_rules)

section \<open>Calls that leave the store alone\<close>

text \<open>A lookup, a call of another collaborator, or a call in a transaction.\<close>

definition lookups :: "port set" where
  "lookups = {AccountsFindById, IdentitiesFindBySubject, CredentialsFindForIdentity, SessionsFindById,
     SessionsFindByTokenHash, ChallengesFindById}"

definition quiet :: "port \<Rightarrow> jsv list \<Rightarrow> bool" where
  "quiet p args \<longleftrightarrow> storeOperation p = None \<or> p \<in> lookups \<or> truthy (argument args 1)"

lemma lookups_read:
  assumes "p \<in> lookups" and "storeOperation p = Some operation"
  shows "snd (operation input tx w) = w"
proof -
  have "snd (accountsFindById input tx w) = w" "snd (identitiesFindBySubject input tx w) = w"
    "snd (credentialsFindForIdentity input tx w) = w" "snd (sessionsFindById input tx w) = w"
    "snd (sessionsFindByTokenHash input tx w) = w" "snd (challengesFindById input tx w) = w"
    by (simp_all add: store_operation_defs Let_def del: fld.simps fld_obj split: option.splits)
  with assms show ?thesis by (auto simp: lookups_def storeOperation_def)
qed

lemma leaves_callPort [leaves_rules]:
  assumes "quiet p args"
  shows "leaves_store (callPort (memoryConfig others) p args)"
proof (rule leavesI)
  fix s r and t :: "(memoryWorld \<times> 'a) st"
  assume eq: "callPort (memoryConfig others) p args s = (r, t)"
  obtain w e where w: "world s = (w, e)" by fastforce
  show "storeMaps t = storeMaps s"
  proof (cases "storeOperation p")
    case None
    with eq w show ?thesis by (auto simp: callPort_def memoryConfig_def storeMaps_def split: prod.splits)
  next
    case (Some operation)
    obtain x w2 where op: "operation (argument args 0) (argument args 1) w = (x, w2)" by fastforce
    have "baseState w2 = baseState w"
    proof (cases "p \<in> lookups")
      case True
      from lookups_read [OF this Some, of "argument args 0" "argument args 1" w] op show ?thesis by simp
    next
      case False
      with assms Some have "truthy (argument args 1)" by (simp add: quiet_def)
      with isolated_storeOperation [OF Some] op show ?thesis unfolding isolated_def by blast
    qed
    with Some eq w op show ?thesis by (auto simp: callPort_def memoryConfig_def storeMaps_def)
  qed
qed

lemma quiet_others [leaves_rules]:
  "quiet ClockNow args" "quiet IdGenerate args" "quiet EventEmit args" "quiet PolicyDecide args"
  "quiet GuardBefore args" "quiet GuardAfter args" "quiet EffectsDispatch args" "quiet TokenIssue args"
  "quiet (MethodValidate k op) args" "quiet (MethodRun k op) args"
  "quiet AccountsFindById args" "quiet IdentitiesFindBySubject args" "quiet CredentialsFindForIdentity args"
  by (simp_all add: quiet_def storeOperation_def lookups_def)

lemma quiet_tx: "truthy tx \<Longrightarrow> quiet p [x, tx]"
  by (simp add: quiet_def argument_def)

section \<open>The small modules\<close>

lemma leaves_storeCall [leaves_rules]: "quiet p args \<Longrightarrow> leaves_store (storeCall (memoryConfig others) p args)"
  unfolding storeCall_def by (intro leaves_rules)

lemma leaves_storeR [leaves_rules]: "quiet p args \<Longrightarrow> leaves_store (storeR cx (memoryConfig others) p args)"
  unfolding storeR_def by (intro leaves_rules)

lemma leaves_readNow [leaves_rules]: "leaves_store (readNow (memoryConfig others))"
  unfolding readNow_def by (intro leaves_rules)

lemma leaves_generateCoreId [leaves_rules]: "leaves_store (generateCoreId (memoryConfig others) kind tn now)"
  unfolding generateCoreId_def by (intro leaves_rules)

lemma leaves_emitEvent [leaves_rules]: "leaves_store (emitEvent (memoryConfig others) cx ev at)"
  unfolding emitEvent_def by (intro leaves_rules)

lemma leaves_policy [leaves_rules]: "leaves_store (policy (memoryConfig others) check)"
  unfolding policy_def by (intro leaves_rules)

lemma leaves_afterAttempt [leaves_rules]: "leaves_store (afterAttempt (memoryConfig others) cx m op l su r ch co)"
  unfolding afterAttempt_def Let_def by (intro leaves_rules)

lemma leaves_failAttempt [leaves_rules]: "leaves_store (failAttempt (memoryConfig others) cx m op l r p ch co)"
  unfolding failAttempt_def Let_def by (intro leaves_rules)

lemma leaves_emitStartedEvent [leaves_rules]: "leaves_store (emitStartedEvent (memoryConfig others) cx m op)"
  unfolding emitStartedEvent_def by (intro leaves_rules)

lemma leaves_acceptStart [leaves_rules]: "leaves_store (acceptStart (memoryConfig others) cx m op l ch pd)"
  unfolding acceptStart_def Let_def by (intro leaves_rules)

lemma leaves_invokeMethodValidation [leaves_rules]: "leaves_store (invokeMethodValidation (memoryConfig others) key op i cx)"
  unfolding invokeMethodValidation_def by (intro leaves_rules)

lemma leaves_invokeMethodRun [leaves_rules]: "leaves_store (invokeMethodRun (memoryConfig others) key op i cx)"
  unfolding invokeMethodRun_def by (intro leaves_rules)

lemma leaves_storeOrFail [leaves_rules]: "quiet p args \<Longrightarrow> leaves_store (storeOrFail (memoryConfig others) cx m op l ch p args)"
  unfolding storeOrFail_def by (intro leaves_rules)

lemma leaves_accounted [leaves_rules]: "leaves_store m \<Longrightarrow> leaves_store (accounted (memoryConfig others) cx me op l ch m)"
  unfolding accounted_def by (intro leaves_rules)

lemma leaves_failMethodRun [leaves_rules]: "leaves_store (failMethodRun (memoryConfig others) cx m op l ch e)"
  unfolding failMethodRun_def by (intro leaves_rules)

lemma leaves_dispatchSelected [leaves_rules]:
  "leaves_store (dispatchSelectedSideEffects (memoryConfig others) cx es p now tx)"
  unfolding dispatchSelectedSideEffects_def dispatchSideEffects_def dispatchFailure_def Let_def
  by (intro leaves_rules)

lemma leaves_dispatch [leaves_rules]:
  "leaves_store (dispatchRequiredSideEffects (memoryConfig others) cx es now tx)"
  "leaves_store (dispatchBestEffortSideEffects (memoryConfig others) cx es now)"
  unfolding dispatchRequiredSideEffects_def dispatchBestEffortSideEffects_def by (rule leaves_dispatchSelected)+

lemma leaves_findIdentity [leaves_rules]: "leaves_store (findIdentity (memoryConfig others) cx lookup tx)"
  unfolding findIdentity_def by (intro leaves_rules)

lemma leaves_activeAccount [leaves_rules]: "leaves_store (activeAccount (memoryConfig others) cx aid tx)"
  unfolding activeAccount_def by (intro leaves_rules)

section \<open>Writing in a transaction\<close>

lemma leaves_resolveAccount [leaves_rules]:
  "truthy tx \<Longrightarrow> leaves_store (resolveAccount (memoryConfig others) cx mode claim proof now tx)"
  unfolding resolveAccount_def createAccount_def Let_def by (intro leaves_rules quiet_tx)

lemma leaves_optionalSession [leaves_rules]:
  "truthy tx \<Longrightarrow> leaves_store (optionalSession (memoryConfig others) w cx aid p r now tx)"
  unfolding optionalSession_def createSession_def Let_def by (intro leaves_rules quiet_tx)

lemma leaves_persistAuthentication [leaves_rules]:
  "truthy tx \<Longrightarrow> leaves_store (persistAuthentication (memoryConfig others) input mref lookup out i cr now tx)"
  unfolding persistAuthentication_def replaceMaterial_def Let_def by (intro leaves_rules quiet_tx)

lemma leaves_authenticateInTransaction [leaves_rules]:
  "truthy tx \<Longrightarrow> leaves_store (authenticateInTransaction (memoryConfig others) input mref lookup out i cr tx)"
  unfolding authenticateInTransaction_def Let_def by (intro leaves_rules)

lemma leaves_enroll_steps [leaves_rules]:
  "truthy tx \<Longrightarrow> leaves_store (enrollIdentity (memoryConfig others) cx mref lookup resolved claim now tx)"
  "truthy tx \<Longrightarrow> leaves_store (enrollCredential (memoryConfig others) cx mref lookup material aid ident now tx)"
  unfolding enrollIdentity_def enrollCredential_def Let_def by (intro leaves_rules quiet_tx; simp)+

lemma leaves_enrollInTransaction [leaves_rules]:
  "truthy tx \<Longrightarrow> leaves_store (enrollInTransaction (memoryConfig others) input mref lookup out tx)"
  unfolding enrollInTransaction_def persistEnrollment_def Let_def by (intro leaves_rules)

lemma leaves_beginInTransaction [leaves_rules]:
  "truthy tx \<Longrightarrow> leaves_store (beginInTransaction (memoryConfig others) input mref lookup cid out tx)"
  unfolding beginInTransaction_def Let_def by (intro leaves_rules quiet_tx)

section \<open>A transaction that fails\<close>

definition atomic :: "(memoryWorld \<times> 'e, 'a res) auth \<Rightarrow> bool" where
  "atomic m \<longleftrightarrow> (\<forall>s e t. m s = (Ret (Inl e), t) \<longrightarrow> storeMaps t = storeMaps s)"

definition never_fails :: "('w, 'a res) auth \<Rightarrow> bool" where
  "never_fails m \<longleftrightarrow> (\<forall>s e t. m s \<noteq> (Ret (Inl e), t))"

named_theorems atomic_rules \<open>operations that leave the store as it was when they fail\<close>

lemma atomic_leaves: "leaves_store m \<Longrightarrow> atomic m"
  by (simp add: atomic_def leaves_store_def)

lemma atomic_bindM [atomic_rules]:
  assumes "leaves_store m" and "\<And>a. atomic (f a)" shows "atomic (bindM m f)"
  unfolding atomic_def
proof (intro allI impI)
  fix s e t
  assume "bindM m f s = (Ret (Inl e), t)"
  then obtain a u where "m s = (Ret a, u)" "f a u = (Ret (Inl e), t)" by (rule bindM_RetE)
  with leavesD [OF assms(1)] assms(2) show "storeMaps t = storeMaps s" unfolding atomic_def by metis
qed

lemma atomic_bindR [atomic_rules]:
  assumes "leaves_store m" and "\<And>a. atomic (f a)" shows "atomic (bindR m f)"
  unfolding bindR_def
  by (rule atomic_bindM [OF assms(1)]) (use assms(2) in \<open>auto split: sum.splits intro: atomic_leaves leaves_rules\<close>)

lemma atomic_then:
  assumes "atomic m" and "\<And>a. never_fails (f a)" shows "atomic (bindR m f)"
  using assms unfolding atomic_def never_fails_def bindR_def
  by (fastforce simp: ret_def elim!: bindM_RetE split: sum.splits)

lemma atomic_case [atomic_rules]:
  "atomic m \<Longrightarrow> (\<And>a. atomic (f a)) \<Longrightarrow> atomic (case x of None \<Rightarrow> m | Some a \<Rightarrow> f a)"
  "(\<And>a. atomic (g a)) \<Longrightarrow> (\<And>b. atomic (h b)) \<Longrightarrow> atomic (case y of Inl a \<Rightarrow> g a | Inr b \<Rightarrow> h b)"
  "(\<And>a b. atomic (k a b)) \<Longrightarrow> atomic (case z of (a, b) \<Rightarrow> k a b)"
  by (auto split: option.splits sum.splits prod.splits)

lemma atomic_if [atomic_rules]: "atomic m \<Longrightarrow> atomic n \<Longrightarrow> atomic (if b then m else n)"
  by simp

lemma atomic_accountedTransaction [atomic_rules]:
  assumes "atomic m" shows "atomic (accountedTransaction (memoryConfig others) cx me op l ch m)"
  unfolding atomic_def
proof (intro allI impI)
  fix s e t
  assume "accountedTransaction (memoryConfig others) cx me op l ch m s = (Ret (Inl e), t)"
  then obtain u where "m s = (Ret (Inl e), u)"
    and "t = u \<or> (\<exists>r. afterAttempt (memoryConfig others) cx me op l False (Some (internalReason e)) ch None u = (r, t))"
    unfolding accountedTransaction_def
    by (auto elim!: bindM_RetE split: sum.splits if_splits)
  with assms leavesD [OF leaves_afterAttempt] show "storeMaps t = storeMaps s"
    unfolding atomic_def by metis
qed

text \<open>
  The runner calls the callback once; unless core sees it commit, the maps are those from before.
\<close>

lemma settleTransaction_restores:
  assumes "settleTransaction tx before answer w = (result, w2)" and "baseState w2 \<noteq> baseState w"
  shows "answer = Ret result \<and> truthy (fld result ''ok'')"
  using assms by (auto simp: settleTransaction_def Let_def simp del: fld.simps fld_obj split: outcome.splits if_splits)

lemma runInStoreTransaction_atomic [atomic_rules]:
  fixes others :: "'e cfg"
  assumes "scopes \<noteq> []" and fn: "\<And>tx. truthy tx \<Longrightarrow> leaves_store (fn tx)"
  shows "atomic (runInStoreTransaction (memoryConfig others) cx scopes fn)"
  unfolding atomic_def
proof (intro allI impI)
  fix s :: "(memoryWorld \<times> 'e) st" and err t
  let ?request = "obj [(''requiredScopes'', JArr scopes)]"
  assume run: "runInStoreTransaction (memoryConfig others) cx scopes fn s = (Ret (Inl err), t)"
  obtain w e where w: "world s = (w, e)" by fastforce
  have txr: "txRun (memoryConfig others) = Some (\<lambda>request (w, e). withOthers e (memoryRun request w))"
    by (simp add: memoryConfig_def)
  show "storeMaps t = storeMaps s"
  proof (cases "isTransactionRequest ?request")
    case False
    with run assms(1) w txr show ?thesis
      by (auto simp: runInStoreTransaction_def memoryRun_def storeMaps_def)
  next
    case True
    obtain tx opened where begun: "beginTransaction (arr_elems (fld ?request ''requiredScopes'')) w = (tx, opened)" by fastforce
    then have tx: "truthy tx" "baseState opened = baseState w"
      by (auto simp: beginTransaction_def Let_def newTransaction_def)
    obtain r cl s1 where cb: "callback cx scopes fn tx fresh_closure \<lparr>world = (opened, e), trace = trace s\<rparr> = (r, cl, s1)"
      by (metis prod_cases3)
    obtain result closed where settled: "settleTransaction tx (baseState w) r (fst (world s1)) = (result, closed)" by fastforce
    have res: "settle cx (Ret result) cl = Inl err" and t: "world t = (closed, snd (world s1))"
      using run assms(1) w txr True begun cb settled
      by (auto simp: runInStoreTransaction_def memoryRun_def simp del: arr_elems.simps fld_obj)
    have "storeMaps s1 = baseState w"
      using cb leavesD [OF fn [OF tx(1)]] tx(2)
      by (fastforce simp: callback_def Let_def storeMaps_def fresh_closure_def split: if_splits prod.splits outcome.splits sum.splits)
    moreover have "baseState closed = baseState (fst (world s1))"
    proof (rule ccontr)
      assume "baseState closed \<noteq> baseState (fst (world s1))"
      from settleTransaction_restores [OF settled this] have "r = Ret result" "truthy (fld result ''ok'')" by simp_all
      with cb res show False
        by (auto simp: callback_def Let_def fresh_closure_def settle_def failure_result_def receipt_result_def
            isResult_def isTransactionReceipt_def split: if_splits prod.splits outcome.splits sum.splits)
    qed
    ultimately show ?thesis using t w by (simp add: storeMaps_def)
  qed
qed

section \<open>The operations\<close>

lemma never_fails_finish:
  "never_fails (bindM m (\<lambda>_. bindM (liftO v) (\<lambda>view. okR (f view))))" "never_fails (bindM m (\<lambda>_. okR a))"
  by (auto simp: never_fails_def ret_def elim!: bindM_RetE)

lemma never_fails_case_prod: "(\<And>a b. never_fails (f a b)) \<Longrightarrow> never_fails (case x of (a, b) \<Rightarrow> f a b)"
  by (cases x) simp

lemmas atomic_steps = atomic_if atomic_bindM atomic_bindR atomic_then atomic_rules never_fails_case_prod
  never_fails_finish leaves_rules atomic_leaves [OF leaves_failAttempt] atomic_leaves [OF leaves_failMethodRun]
  atomic_leaves [OF leaves_errR]

lemma atomic_outputs [atomic_rules]:
  "atomic (authenticateOutput (memoryConfig others) input mref lookup now val i cr)"
  "atomic (enrollOutput (memoryConfig others) input mref lookup now val)"
  "atomic (beginOutput (memoryConfig others) input mref lookup now cid val)"
  unfolding authenticateOutput_def enrollOutput_def beginOutput_def Let_def
  by (intro atomic_steps; simp add: authenticateScopes_def enrollScopes_def beginScopes_def)+

lemma leaves_findCredential [leaves_rules]:
  "leaves_store (findCredential (memoryConfig others) cx mref lookup ident)"
  unfolding findCredential_def by (intro leaves_rules)

lemma leaves_beginAccountPreflight [leaves_rules]:
  "leaves_store (beginAccountPreflight (memoryConfig others) cx mode lookup)"
  unfolding beginAccountPreflight_def Let_def by (intro leaves_rules)

lemma atomic_admitted [atomic_rules]:
  "atomic (authenticateAdmitted (memoryConfig others) input mref now validated)"
  "atomic (enrollAdmitted (memoryConfig others) input mref now validated)"
  "atomic (beginAdmitted (memoryConfig others) input mref now validated)"
  unfolding authenticateAdmitted_def enrollAdmitted_def beginAdmitted_def Let_def
  by (intro atomic_steps leaves_rules atomic_rules; simp)+

lemma atomic_operations:
  "atomic (authenticate (memoryConfig others) input)"
  "atomic (enroll (memoryConfig others) input)"
  "atomic (beginOp (memoryConfig others) input)"
  unfolding authenticate_def enroll_def beginOp_def Let_def
  by (intro atomic_steps leaves_rules atomic_rules; simp)+

end
