(* ===== verification/MemoryProperties.thy ===== *)
theory MemoryProperties
  imports MemoryRuns MemoryAtomicity
begin

text \<open>
  What the memory stores guarantee: transactions, the agreement of maps and indices in every run,
  and the life of a challenge.
\<close>

section \<open>A challenge in use\<close>

definition pendingChallenge :: jsv where
  "pendingChallenge = obj [(''tenantId'', JStr ''t''), (''challengeId'', JStr ''c''), (''methodId'', JStr ''otp''),
     (''methodKind'', JStr ''otp''), (''status'', JStr ''pending''),
     (''material'', obj [(''schemaVersion'', JStr ''1'')]),
     (''binding'', obj [(''account'', obj [(''mode'', JStr ''create-new-account'')])]),
     (''attempts'', JNum 0), (''maxAttempts'', JNum 3), (''version'', JNum 1),
     (''expiresAt'', JDate (Some 900)), (''createdAt'', JDate (Some 10)), (''updatedAt'', JDate (Some 10))]"

definition challengeWorld :: memoryWorld where
  "challengeWorld = emptyWorld\<lparr>baseState := setCell SChallenges (JStr [CHR ''t'', CHR 0x00, CHR ''c'']) 1 pendingChallenge emptyState,
     allocated := 1\<rparr>"


lemma pendingChallenge_copy: "snapshotRecord pendingChallenge memChallengeRecord = Some pendingChallenge"
  by code_simp

lemma challengeWorld_created:
  "challengesCreate (obj [(''record'', pendingChallenge)]) JUndef emptyWorld = (Ret (memOk pendingChallenge), challengeWorld)"
  using snapshotRecord_SomeD [OF pendingChallenge_copy] pendingChallenge_copy
  by (simp add: challengesCreate_def memoryStateFor_def emptyWorld_def emptyState_def putFresh_def putState_def fresh_def
      answerRecord_def challengeWorld_def MemoryState.challengeKey_def pendingChallenge_def Let_def)


lemma challengeWorld_reachable: "memoryReachable (challengeWorld, None)"
proof -
  have "(''challenges'', challengesCreate) \<in> memoryOperations" by (simp add: memoryOperations_def)
  from memoryStep.operation [OF this challengeWorld_created, of None] memoryReachable.start
  show ?thesis by (blast intro: memoryReachable.step)
qed

section \<open>Transactions\<close>

text \<open>
  C27. A commit of the memory transaction (\<open>canCommitTransactionState\<close>, \<open>applyTransactionState\<close>) is
  a merge without lost updates: at every key of every map it installs the entry of the transaction
  where the transaction changed it, and then nobody else has since, and else the entry of the store.
\<close>

theorem memory_commit_merges:
  assumes "canCommitTransactionState state before working scopes"
  shows "entryMatches (before k) (working k) key
      \<and> map_of (applyTransactionState state before working k) key = map_of (state k) key
    \<or> entryMatches (before k) (state k) key
      \<and> map_of (applyTransactionState state before working k) key = map_of (working k) key"
  using canCommit_no_conflict [OF assms, of k key]
  by (auto simp: applyTransactionState_key map_of_applyChanges)

theorem memory_commit_merges_witness:
  "map_of (applyTransactionState (setCell SSessions JNull 1 (JNum 1) emptyState) emptyState
     (setCell SChallenges JNull 2 (JNum 2) emptyState) SChallenges) JNull = Some (2, JNum 2)"
proof -
  have "canCommitTransactionState (setCell SSessions JNull 1 (JNum 1) emptyState) emptyState
     (setCell SChallenges JNull 2 (JNum 2) emptyState) [JStr ''challenges'']"
    by (simp add: canCommitTransactionState_def stateKeys_def hasConflict_def unionKeys_def mapsMatch_def setCell_def
        emptyState_def entryMatches_def)
  from memory_commit_merges [OF this, of SChallenges JNull] show ?thesis
    by (simp add: setCell_def emptyState_def entryMatches_def)
qed

text \<open>
  C28. Core over the memory stores (\<open>createMemoryAuthStore\<close> as the store of \<open>createAuth\<close>): when
  \<open>authenticate\<close>, \<open>enroll\<close> or \<open>begin\<close> answers with a failure, whatever the method, the policy, the
  guard and the effects did, the maps of the store are those from before the call.
\<close>

theorem memory_operations_atomic:
  "atomic (authenticate (memoryConfig others) input) \<and> atomic (enroll (memoryConfig others) input)
   \<and> atomic (beginOp (memoryConfig others) input)"
  using atomic_operations by blast

text \<open>
  Core's \<open>runInStoreTransaction\<close> over the memory transaction is transparent: for supported
  scopes it runs the callback once on a transaction that sees the maps of the store, and when the
  callback succeeds and the maps can be committed it answers the callback's result, with the
  merged maps installed and the transaction closed.
\<close>

theorem memory_transaction_transparent:
  assumes "memorySupports scopes (world s)" and "scopes \<noteq> []"
    and "fn (memoryTransaction scopes (world s)) \<lparr>world = memoryOpened scopes (world s), trace = trace s\<rparr> = (Ret (Inr a), s1)"
    and "memoryCommits scopes (world s) (world s1)"
  shows "runInStoreTransaction (memoryConfig others) cx scopes fn s
    = (Ret (Inr a), \<lparr>world = memoryCommitted scopes (world s) (world s1), trace = trace s1\<rparr>)"
proof -
  have "txRun (memoryConfig others) = Some memoryTxRun" by (simp add: memoryConfig_def memoryTxRun_def fun_eq_iff)
  then show ?thesis by (rule memory_tx.transparent_success) (fact assms)+
qed

theorem memory_transaction_transparent_witness:
  "fst (runInStoreTransaction (memoryConfig (undefined :: unit cfg)) JUndef [JStr ''accounts''] (\<lambda>tx. okR tx)
     \<lparr>world = (emptyWorld, ()), trace = []\<rparr>) = Ret (Inr (newTransaction 1 [JStr ''accounts'']))"
proof -
  let ?s = "\<lparr>world = (emptyWorld, ()), trace = []\<rparr>"
  have can: "canCommitTransactionState emptyState emptyState emptyState [JStr ''accounts'']"
    by (rule canCommit_unchanged)
  have "memorySupports [JStr ''accounts''] (world ?s)"
    by (simp add: memorySupports_def isTransactionRequest_def requested_scopes_def Let_def read_elem_def arr_every_def
        supportedScopes_def emptyWorld_def no_control_def is_control_def)
  moreover have "memoryCommits [JStr ''accounts''] (world ?s) (memoryOpened [JStr ''accounts''] (world ?s))"
    using can by (simp add: memoryCommits_def workingState_def memoryOpened_def beginTransaction_def Let_def
        memoryTransaction_def emptyWorld_def)
  ultimately show ?thesis
    using memory_transaction_transparent [of "[JStr ''accounts'']" ?s "\<lambda>tx. okR tx" "memoryTransaction [JStr ''accounts''] (world ?s)"
        "\<lparr>world = memoryOpened [JStr ''accounts''] (world ?s), trace = []\<rparr>" undefined JUndef]
    by (simp add: memoryTransaction_def emptyWorld_def)
qed

section \<open>Runs\<close>




lemma memory_moves:
  assumes "memoryReachable s" and "memoryStep\<^sup>*\<^sup>* s s'" shows "movesOnly (baseState (fst s)) (baseState (fst s'))"
  using movesOnly_steps [OF assms(2) systemInv_reachable [OF assms(1)]] by blast

text \<open>
  C30. Records never leave the memory stores and only move on: from a reachable state on, every
  record found in a map is found there in every later state, further along the life cycle of its
  kind (its key fields kept, versions counted up by one, a challenge only from \<open>pending\<close>, or from
  \<open>failed\<close> to \<open>expired\<close>, a session only from \<open>active\<close>).
\<close>

theorem memory_records_move_on:
  assumes "memoryReachable s" and "memoryStep\<^sup>*\<^sup>* s s'" and "k \<in> set recordMaps"
    and "map_of (baseState (fst s) k) key = Some (n, r)"
  shows "\<exists>n' r'. map_of (baseState (fst s') k) key = Some (n', r') \<and> (lifecycle k)\<^sup>*\<^sup>* r r'"
  using memory_moves [OF assms(1,2)] assms(3,4) unfolding movesOnly_def by blast

theorem memory_records_move_on_witness:
  "\<exists>n r. map_of (baseState challengeWorld SChallenges) (JStr [CHR ''t'', CHR 0x00, CHR ''c'']) = Some (n, r)
     \<and> (lifecycle SChallenges)\<^sup>*\<^sup>* pendingChallenge r"
  using memory_records_move_on [OF challengeWorld_reachable, of "(challengeWorld, None)" SChallenges
      "JStr [CHR ''t'', CHR 0x00, CHR ''c'']" 1 pendingChallenge]
  by (simp add: challengeWorld_def setCell_def emptyWorld_def emptyState_def)





end
