(* ===== verification/OutboxValidation.thy ===== *)
theory OutboxValidation
  imports MemoryStores
begin

text \<open>
  \<open>packages/testkit/src/stores/outbox-validation.ts\<close>: what the memory outbox accepts as a new
  message and as the input of its operations, and the size of a message. \<open>isRecord\<close>,
  \<open>hasOnlyKeys\<close>, \<open>isPlainObject\<close>, \<open>isSafeText\<close>, \<open>isPositiveInteger\<close> and \<open>isSecretDescriptor\<close> are
  line by line the functions of the other packages and are shared with them.
\<close>

section \<open>JSON text\<close>

text \<open>
  \<open>JSON.stringify\<close> as a text, for values without \<open>toJSON\<close> property; \<open>None\<close> is \<open>undefined\<close>. The
  argument \<open>scalarText\<close> renders the scalars whose text the language leaves to its number and date
  formatting: fractions, integers from \<open>10^21\<close> on, and dates.
\<close>

definition hexDigit :: "nat \<Rightarrow> char" where
  "hexDigit n = (if n < 10 then char_of (48 + n) else char_of (87 + n))"

definition escapeChar :: "char \<Rightarrow> string" where
  "escapeChar c =
     (if c = CHR 0x22 \<or> c = CHR 0x5C then [CHR 0x5C, c]
      else if c = CHR 0x08 then [CHR 0x5C, CHR ''b'']
      else if c = CHR 0x09 then [CHR 0x5C, CHR ''t'']
      else if c = CHR 0x0A then [CHR 0x5C, CHR ''n'']
      else if c = CHR 0x0C then [CHR 0x5C, CHR ''f'']
      else if c = CHR 0x0D then [CHR 0x5C, CHR ''r'']
      else if of_char c < (32::nat) then
        [CHR 0x5C, CHR ''u'', CHR ''0'', CHR ''0'', hexDigit (of_char c div 16), hexDigit (of_char c mod 16)]
      else [c])"

definition quoteText :: "string \<Rightarrow> string" where
  "quoteText s = CHR 0x22 # concat (map escapeChar s) @ [CHR 0x22]"

fun commaSeparated :: "string list \<Rightarrow> string" where
  "commaSeparated [] = ''''"
| "commaSeparated [s] = s"
| "commaSeparated (s # t # ss) = s @ CHR '','' # commaSeparated (t # ss)"

fun jsonText :: "(jsv \<Rightarrow> string) \<Rightarrow> jsv \<Rightarrow> string option"
  and jsonItems :: "(jsv \<Rightarrow> string) \<Rightarrow> jsv list \<Rightarrow> string list"
  and jsonMembers :: "(jsv \<Rightarrow> string) \<Rightarrow> (string \<times> jsv) list \<Rightarrow> string list" where
  "jsonText scalarText (JStr s) = Some (quoteText s)"
| "jsonText scalarText (JNum n) =
     Some (if \<bar>n\<bar> < 10 ^ 21 then template (JNum n) else scalarText (JNum n))"
| "jsonText scalarText (JFrac p q) = Some (scalarText (JFrac p q))"
| "jsonText scalarText (JDate d) = Some (if d = None then ''null'' else scalarText (JDate d))"
| "jsonText scalarText (JBool b) = Some (template (JBool b))"
| "jsonText scalarText JNull = Some ''null''"
| "jsonText scalarText JNonFin = Some ''null''"
| "jsonText scalarText (JArr xs) = Some (''['' @ commaSeparated (jsonItems scalarText xs) @ '']'')"
| "jsonText scalarText (JObj p kvs) = Some (''{'' @ commaSeparated (jsonMembers scalarText kvs) @ ''}'')"
| "jsonText scalarText (JBytes bs) = Some (''{'' @ commaSeparated
     (map (\<lambda>(i, b). quoteText (js_string_of_nat i) @ '':'' @ js_string_of_nat b) (enumerate 0 bs)) @ ''}'')"
| "jsonText scalarText JUndef = None"
| "jsonText scalarText JHole = None"
| "jsonText scalarText (JFun r) = None"
| "jsonItems scalarText [] = []"
| "jsonItems scalarText (x # xs) =
     (case jsonText scalarText x of None \<Rightarrow> ''null'' | Some t \<Rightarrow> t) # jsonItems scalarText xs"
| "jsonMembers scalarText [] = []"
| "jsonMembers scalarText ((k, x) # kvs) =
     (case jsonText scalarText x of
        None \<Rightarrow> jsonMembers scalarText kvs
      | Some t \<Rightarrow> (quoteText k @ '':'' @ t) # jsonMembers scalarText kvs)"

definition outboxSecretPurpose :: "string \<Rightarrow> string \<Rightarrow> string" where
  "outboxSecretPurpose tenantId messageId =
     ''['' @ commaSeparated [quoteText ''authmodules.outbox.delivery'', quoteText tenantId, quoteText messageId] @ '']''"

section \<open>JSON values\<close>

definition consumeOutboxText :: "jsv \<Rightarrow> nat \<Rightarrow> traversal \<Rightarrow> bool \<Rightarrow> traversal option" where
  "consumeOutboxText v maxLength st requireNonEmpty =
     (if \<not> isSafeText v maxLength requireNonEmpty then None
      else let st' = st\<lparr>characters := characters st + str_len v\<rparr>
           in if characters st' \<le> 1000000 then Some st' else None)"

fun outboxJsonValue :: "jsv \<Rightarrow> nat \<Rightarrow> traversal \<Rightarrow> traversal option"
  and outboxJsonList :: "jsv list \<Rightarrow> nat \<Rightarrow> traversal \<Rightarrow> traversal option"
  and outboxJsonFields :: "(string \<times> jsv) list \<Rightarrow> nat \<Rightarrow> traversal \<Rightarrow> traversal option" where
  "outboxJsonValue v depth st0 =
     (let st = st0\<lparr>nodes := nodes st0 + 1\<rparr> in
      if 1000 < nodes st then None
      else case v of
        JNull \<Rightarrow> Some st
      | JBool _ \<Rightarrow> Some st
      | JStr _ \<Rightarrow> consumeOutboxText v 65536 st False
      | JNum _ \<Rightarrow> Some st
      | JFrac _ _ \<Rightarrow> Some st
      | JArr xs \<Rightarrow>
          if 16 \<le> depth then None
          else if isDenseJsonArray xs then outboxJsonList xs (depth + 1) st else None
      | JObj plain kvs \<Rightarrow>
          if 16 \<le> depth then None
          else if isSecretDescriptor v then None
          else if has_key ''reveal'' v \<or> has_key ''revealForPersistence'' v
             \<or> has_key ''revealCiphertextForPersistence'' v then None
          else if plain then outboxJsonFields kvs (depth + 1) st else None
      | _ \<Rightarrow> None)"
| "outboxJsonList [] depth st = Some st"
| "outboxJsonList (x # xs) depth st =
     (case outboxJsonValue x depth st of None \<Rightarrow> None | Some st' \<Rightarrow> outboxJsonList xs depth st')"
| "outboxJsonFields [] depth st = Some st"
| "outboxJsonFields ((k, x) # kvs) depth st =
     (case consumeOutboxText (JStr k) 512 st True of
        None \<Rightarrow> None
      | Some st' \<Rightarrow>
          (case outboxJsonValue x depth st' of None \<Rightarrow> None | Some st'' \<Rightarrow> outboxJsonFields kvs depth st''))"

definition outboxJsonObject :: "jsv \<Rightarrow> bool" where
  "outboxJsonObject v = (isPlainObject v \<and> outboxJsonValue v 0 start_traversal \<noteq> None)"

section \<open>Messages\<close>

definition outboxKeys :: "string list" where
  "outboxKeys = [''attempts'', ''availableAt'', ''context'', ''createdAt'', ''dispatchPolicy'', ''expiresAt'',
     ''idempotencyKey'', ''lastFailureReason'', ''maxAttempts'', ''message'', ''messageId'', ''secretPurpose'',
     ''status'', ''tenantId'', ''type'', ''updatedAt'']"

definition isSealedSecret :: "jsv \<Rightarrow> bool" where
  "isSealedSecret v =
     (isRecord v \<and> hasOnlyKeys v sealedValueKeys
      \<and> fld v ''type'' = JStr ''sealed-secret''
      \<and> isSafeText (fld v ''algorithm'') 256 True
      \<and> isSafeText (fld v ''keyId'') 512 True
      \<and> is_str (fld v ''redacted'')
      \<and> is_fun (fld v ''revealCiphertextForPersistence'')
      \<and> is_fun (fld v ''toJSON'')
      \<and> (fld v ''expiresAt'' = JUndef \<or> isValidDate (fld v ''expiresAt''))
      \<and> \<not> has_key ''reveal'' v \<and> \<not> has_key ''revealForPersistence'' v)"

definition consumeSealedSecret :: "jsv \<Rightarrow> traversal \<Rightarrow> traversal option" where
  "consumeSealedSecret v st =
     (case call_thunk (fld v ''revealCiphertextForPersistence'') of
        None \<Rightarrow> None
      | Some ciphertext \<Rightarrow> consumeOutboxText ciphertext 1000000 st True)"

fun persistableEntries :: "(string \<times> jsv) list \<Rightarrow> traversal \<Rightarrow> bool" where
  "persistableEntries [] st = True"
| "persistableEntries ((key, item) # kvs) st =
     (case consumeOutboxText (JStr key) 512 st True of
        None \<Rightarrow> False
      | Some st' \<Rightarrow>
          (case (if isSealedSecret item then consumeSealedSecret item st' else outboxJsonValue item 0 st') of
             None \<Rightarrow> False
           | Some st'' \<Rightarrow> persistableEntries kvs st''))"

definition isPersistableDeliveryData :: "jsv \<Rightarrow> bool" where
  "isPersistableDeliveryData v =
     (isRecord v \<and> length (obj_keys v) \<le> 1000 \<and> persistableEntries (obj_entries v) start_traversal)"

definition isPersistableDeliveryMessage :: "jsv \<Rightarrow> bool" where
  "isPersistableDeliveryMessage v =
     (isRecord v \<and> hasOnlyKeys v messageKeys
      \<and> isRecord (fld v ''to'') \<and> hasOnlyKeys (fld v ''to'') addressKeys
      \<and> isSafeText (fld (fld v ''to'') ''channel'') 64 True
      \<and> isSafeText (fld (fld v ''to'') ''target'') 2048 True
      \<and> (fld (fld v ''to'') ''display'' = JUndef \<or> isSafeText (fld (fld v ''to'') ''display'') 512 False)
      \<and> isSafeText (fld v ''templateId'') 256 True
      \<and> (fld v ''locale'' = JUndef \<or> isSafeText (fld v ''locale'') 128 True)
      \<and> (fld v ''metadata'' = JUndef \<or> outboxJsonObject (fld v ''metadata''))
      \<and> (fld v ''data'' = JUndef \<or> isPersistableDeliveryData (fld v ''data'')))"

definition isDispatchContext :: "jsv \<Rightarrow> jsv \<Rightarrow> bool" where
  "isDispatchContext v tenantId =
     (isRecord v \<and> hasOnlyKeys v [''locale'', ''metadata'', ''requestId'', ''tenantId'']
      \<and> fld v ''tenantId'' = tenantId
      \<and> (fld v ''requestId'' = JUndef \<or> isSafeText (fld v ''requestId'') 512 True)
      \<and> (fld v ''locale'' = JUndef \<or> isSafeText (fld v ''locale'') 128 True)
      \<and> (fld v ''metadata'' = JUndef \<or> outboxJsonObject (fld v ''metadata'')))"

definition isNewPersistableOutboxMessage :: "jsv \<Rightarrow> bool" where
  "isNewPersistableOutboxMessage v =
     (isRecord v \<and> hasOnlyKeys v outboxKeys
      \<and> isSafeText (fld v ''tenantId'') 512 True
      \<and> isSafeText (fld v ''messageId'') 512 True
      \<and> isDispatchContext (fld v ''context'') (fld v ''tenantId'')
      \<and> isSafeText (fld v ''secretPurpose'') 4096 True
      \<and> fld v ''secretPurpose'' = JStr (outboxSecretPurpose (template (fld v ''tenantId'')) (template (fld v ''messageId'')))
      \<and> fld v ''type'' = JStr ''delivery''
      \<and> isPersistableDeliveryMessage (fld v ''message'')
      \<and> (fld v ''dispatchPolicy'' = JStr ''required'' \<or> fld v ''dispatchPolicy'' = JStr ''best-effort'')
      \<and> fld v ''status'' = JStr ''pending''
      \<and> fld v ''attempts'' = JNum 0
      \<and> fld v ''lastFailureReason'' = JUndef
      \<and> isPositiveInteger (fld v ''maxAttempts'')
      \<and> (if fld v ''idempotencyKey'' = JUndef then fld v ''dispatchPolicy'' = JStr ''best-effort''
         else isSafeText (fld v ''idempotencyKey'') 512 True)
      \<and> (fld v ''expiresAt'' = JUndef \<or> isValidDate (fld v ''expiresAt''))
      \<and> isValidDate (fld v ''availableAt'')
      \<and> isValidDate (fld v ''createdAt'')
      \<and> isValidDate (fld v ''updatedAt''))"

section \<open>Sizes\<close>

definition textLength :: "(jsv \<Rightarrow> string) \<Rightarrow> jsv \<Rightarrow> nat option" where
  "textLength scalarText v = map_option length (jsonText scalarText v)"

fun dataCharacters :: "(jsv \<Rightarrow> string) \<Rightarrow> (string \<times> jsv) list \<Rightarrow> nat \<Rightarrow> nat option" where
  "dataCharacters scalarText [] n = Some n"
| "dataCharacters scalarText ((key, item) # kvs) n =
     (case (if isSealedSecret item
            then map_option (length \<circ> template) (call_thunk (fld item ''revealCiphertextForPersistence''))
            else textLength scalarText item) of
        None \<Rightarrow> None
      | Some m \<Rightarrow> dataCharacters scalarText kvs (n + length key + m))"

text \<open>\<open>None\<close> is the \<open>Infinity\<close> returned when something throws.\<close>

definition outboxMessageCharacterCount :: "(jsv \<Rightarrow> string) \<Rightarrow> jsv \<Rightarrow> nat option" where
  "outboxMessageCharacterCount scalarText v =
     (let m = fld v ''message'' in
      case (textLength scalarText (fld v ''context''), textLength scalarText (coalesce (fld m ''metadata'') JNull)) of
        (Some context, Some metadata) \<Rightarrow>
          dataCharacters scalarText (obj_entries (fld m ''data''))
            (context + str_len (fld v ''tenantId'') + str_len (fld v ''messageId'') + str_len (fld v ''secretPurpose'')
             + str_len (fld v ''idempotencyKey'') + str_len (fld v ''lastFailureReason'')
             + str_len (fld (fld m ''to'') ''channel'') + str_len (fld (fld m ''to'') ''target'')
             + str_len (fld (fld m ''to'') ''display'') + str_len (fld m ''templateId'') + str_len (fld m ''locale'')
             + metadata)
      | _ \<Rightarrow> None)"

section \<open>Inputs\<close>

definition isOutboxClaimInput :: "jsv \<Rightarrow> bool" where
  "isOutboxClaimInput v =
     (isRecord v \<and> isValidDate (fld v ''now'')
      \<and> isPositiveInteger (fld v ''limit'') \<and> num_val (fld v ''limit'') \<le> 1000
      \<and> isSafeText (fld v ''workerId'') 512 True
      \<and> isPositiveInteger (fld v ''leaseSeconds'') \<and> num_val (fld v ''leaseSeconds'') \<le> 86400
      \<and> (fld v ''tenantId'' = JUndef \<or> isSafeText (fld v ''tenantId'') 512 True))"

definition isLeaseMutationInput :: "jsv \<Rightarrow> bool" where
  "isLeaseMutationInput v =
     (isRecord v \<and> isSafeText (fld v ''tenantId'') 512 True \<and> isSafeText (fld v ''messageId'') 512 True
      \<and> isSafeText (fld v ''workerId'') 512 True \<and> isSafeText (fld v ''leaseId'') 512 True
      \<and> isValidDate (fld v ''now''))"

definition isOutboxRenewLeaseInput :: "jsv \<Rightarrow> bool" where
  "isOutboxRenewLeaseInput v =
     (isLeaseMutationInput v \<and> isRecord v
      \<and> isPositiveInteger (fld v ''leaseSeconds'') \<and> num_val (fld v ''leaseSeconds'') \<le> 86400)"

definition isOutboxMarkDispatchedInput :: "jsv \<Rightarrow> bool" where
  "isOutboxMarkDispatchedInput v = isLeaseMutationInput v"

definition isOutboxMarkFailedInput :: "jsv \<Rightarrow> bool" where
  "isOutboxMarkFailedInput v =
     (isRecord v \<and> isLeaseMutationInput v
      \<and> isSafeText (fld v ''reason'') 512 True
      \<and> (fld v ''retryAt'' = JUndef \<or> isValidDate (fld v ''retryAt''))
      \<and> (fld v ''terminal'' = JUndef \<or> is_bool (fld v ''terminal'')))"

definition isOutboxCleanupTerminalInput :: "jsv \<Rightarrow> bool" where
  "isOutboxCleanupTerminalInput v =
     (isRecord v \<and> isValidDate (fld v ''before'')
      \<and> isPositiveInteger (fld v ''limit'') \<and> num_val (fld v ''limit'') \<le> 1000
      \<and> is_arr (fld v ''statuses'')
      \<and> (let statuses = arr_elems (fld v ''statuses'') in
           0 < length statuses \<and> length statuses \<le> 2 \<and> JHole \<notin> set statuses \<and> distinct statuses
           \<and> list_all (\<lambda>status. status = JStr ''dispatched'' \<or> status = JStr ''dead'') statuses)
      \<and> (fld v ''tenantId'' = JUndef \<or> isSafeText (fld v ''tenantId'') 512 True))"

end
