(* ===== verification/MemoryOutbox.thy ===== *)
theory MemoryOutbox
  imports OutboxValidation
begin

text \<open>
  \<open>packages/testkit/src/stores/memory-outbox-store.ts\<close>: the memory outbox, its leases and its
  part of a transaction. As in \<open>MemoryState\<close> a \<open>Map\<close> is an association list in insertion order
  and a stored object carries the number of its creation (0 for the strings of the index), which
  is how the source compares entries. \<open>scalarText\<close> is the number and date formatting that
  \<open>OutboxValidation\<close> takes as an argument, \<open>localeCompare\<close> the collation of
  \<open>String.prototype.localeCompare\<close>.
\<close>

section \<open>State\<close>

record outboxState =
  messages :: cells
  idempotencyKeys :: cells
  leaseSequence :: nat

definition createEmptyMemoryOutboxState :: outboxState where
  "createEmptyMemoryOutboxState = \<lparr>messages = [], idempotencyKeys = [], leaseSequence = 0\<rparr>"

text \<open>
  The state of one store, its entries of the weak map \<open>memoryOutboxTransactions\<close> (those with
  another owner are as good as absent), and the number of the last object stored.
\<close>

record outboxWorld =
  outboxBase :: outboxState
  outboxTransactions :: "(jsv \<times> outboxState) list"
  outboxAllocated :: nat

definition emptyOutboxWorld :: outboxWorld where
  "emptyOutboxWorld = \<lparr>outboxBase = createEmptyMemoryOutboxState, outboxTransactions = [], outboxAllocated = 0\<rparr>"

definition memoryOutboxStateFor :: "outboxWorld \<Rightarrow> jsv \<Rightarrow> outboxState option" where
  "memoryOutboxStateFor w tx =
     (if \<not> truthy tx then Some (outboxBase w)
      else case map_of (outboxTransactions w) tx of
             None \<Rightarrow> None
           | Some working \<Rightarrow> if JStr ''outbox'' \<in> set (arr_elems (fld tx ''covers'')) then Some working else None)"

definition putOutboxState :: "jsv \<Rightarrow> outboxState \<Rightarrow> nat \<Rightarrow> outboxWorld \<Rightarrow> outboxWorld" where
  "putOutboxState tx st n w =
     (if \<not> truthy tx then w\<lparr>outboxBase := st, outboxAllocated := n\<rparr>
      else w\<lparr>outboxTransactions := AList.update tx st (outboxTransactions w), outboxAllocated := n\<rparr>)"

definition outboxKey :: "jsv \<Rightarrow> jsv \<Rightarrow> jsv" where
  "outboxKey tenantId value = JStr (joinKey [tenantId, value])"

abbreviation refuseOutbox :: "string \<Rightarrow> outboxWorld \<Rightarrow> jsv outcome \<times> outboxWorld" where
  "refuseOutbox reason w \<equiv> (Ret (memErr (memStoreFailure reason JUndef)), w)"

section \<open>enqueueBatch\<close>

fun snapshotMessages :: "jsv list \<Rightarrow> jsv list option" where
  "snapshotMessages [] = Some []"
| "snapshotMessages (m # ms) =
     (case snapshotRecord (read_elem m) isNewPersistableOutboxMessage of
        None \<Rightarrow> None
      | Some s \<Rightarrow> map_option (\<lambda>ss. s # ss) (snapshotMessages ms))"

fun payloadWithin :: "(jsv \<Rightarrow> string) \<Rightarrow> nat \<Rightarrow> jsv list \<Rightarrow> bool" where
  "payloadWithin scalarText acc [] = True"
| "payloadWithin scalarText acc (m # ms) =
     (case outboxMessageCharacterCount scalarText m of
        None \<Rightarrow> False
      | Some n \<Rightarrow> acc + n \<le> 10000000 \<and> payloadWithin scalarText (acc + n) ms)"

text \<open>The local variables of the loop that decides what to store.\<close>

record staging =
  seenMessageIds :: "jsv list"
  seenIdempotencyKeys :: "jsv list"
  stagedMessages :: "(jsv \<times> jsv) list"
  stagedIdempotencyKeys :: "(jsv \<times> jsv) list"
  stagedResult :: "jsv list"

definition startStaging :: staging where
  "startStaging = \<lparr>seenMessageIds = [], seenIdempotencyKeys = [], stagedMessages = [],
     stagedIdempotencyKeys = [], stagedResult = []\<rparr>"

text \<open>\<open>const { lease, ...rest } = record\<close>\<close>

definition withoutLease :: "jsv \<Rightarrow> jsv" where
  "withoutLease v = JObj True (filter (\<lambda>(k, _). k \<noteq> ''lease'') (obj_entries v))"

text \<open>The end of the loop's body: store a new message.\<close>

definition stageNew :: "outboxState \<Rightarrow> jsv \<Rightarrow> jsv \<Rightarrow> staging \<Rightarrow> staging option outcome" where
  "stageNew current key message st =
     (if map_of (messages current) key \<noteq> None then Ret None
      else case cloneRecord message of
             None \<Rightarrow> Throw
           | Some copy \<Rightarrow> Ret (Some (st\<lparr>stagedMessages := stagedMessages st @ [(key, message)],
                               stagedResult := stagedResult st @ [copy]\<rparr>)))"

text \<open>One round of the loop; \<open>Ret None\<close> is the refusal of the whole batch.\<close>

definition stageMessage :: "outboxState \<Rightarrow> jsv \<Rightarrow> staging \<Rightarrow> staging option outcome" where
  "stageMessage current message st0 =
     (let key = outboxKey (fld message ''tenantId'') (fld message ''messageId'') in
      if key \<in> set (seenMessageIds st0) then Ret None
      else let st1 = st0\<lparr>seenMessageIds := seenMessageIds st0 @ [key]\<rparr> in
      if fld message ''idempotencyKey'' = JUndef then stageNew current key message st1
      else let idempotencyKey = outboxKey (fld message ''tenantId'') (fld message ''idempotencyKey'') in
        if idempotencyKey \<in> set (seenIdempotencyKeys st1) then Ret None
        else let st2 = st1\<lparr>seenIdempotencyKeys := seenIdempotencyKeys st1 @ [idempotencyKey]\<rparr>;
                 existingId = contentOf (map_of (idempotencyKeys current) idempotencyKey)
             in if truthy existingId then
                  (case map_of (messages current) (outboxKey (fld message ''tenantId'') existingId) of
                     None \<Rightarrow> Ret None
                   | Some (_, existing) \<Rightarrow>
                       (case cloneRecord existing of
                          None \<Rightarrow> Throw
                        | Some copy \<Rightarrow> Ret (Some (st2\<lparr>stagedResult := stagedResult st2 @ [withoutLease copy]\<rparr>))))
                else stageNew current key message
                  (st2\<lparr>stagedIdempotencyKeys := stagedIdempotencyKeys st2 @ [(idempotencyKey, fld message ''messageId'')]\<rparr>))"

fun stageMessages :: "outboxState \<Rightarrow> jsv list \<Rightarrow> staging \<Rightarrow> staging option outcome" where
  "stageMessages current [] st = Ret (Some st)"
| "stageMessages current (m # ms) st =
     (case stageMessage current m st of
        Ret (Some st') \<Rightarrow> stageMessages current ms st'
      | r \<Rightarrow> r)"

fun storeIndex :: "(jsv \<times> jsv) list \<Rightarrow> cells \<Rightarrow> cells" where
  "storeIndex [] cs = cs"
| "storeIndex ((key, messageId) # rest) cs = storeIndex rest (AList.update key (0, messageId) cs)"

text \<open>Storing a copy of each staged message; the answer says whether all copies were made.\<close>

fun storeMessages :: "(jsv \<times> jsv) list \<Rightarrow> nat \<Rightarrow> cells \<Rightarrow> bool \<times> nat \<times> cells" where
  "storeMessages [] n cs = (True, n, cs)"
| "storeMessages ((key, message) # rest) n cs =
     (case cloneRecord message of
        None \<Rightarrow> (False, n, cs)
      | Some copy \<Rightarrow> storeMessages rest (Suc n) (AList.update key (Suc n, copy) cs))"

definition outboxEnqueueBatch ::
  "(jsv \<Rightarrow> string) \<Rightarrow> jsv \<Rightarrow> jsv \<Rightarrow> outboxWorld \<Rightarrow> jsv outcome \<times> outboxWorld" where
  "outboxEnqueueBatch scalarText input tx w =
     (case memoryOutboxStateFor w tx of
        None \<Rightarrow> refuseOutbox ''OUTBOX_ENQUEUE_FAILED'' w
      | Some current \<Rightarrow>
      if \<not> is_arr (fld input ''messages'') \<or> 1000 < length (arr_elems (fld input ''messages''))
      then refuseOutbox ''OUTBOX_ENQUEUE_FAILED'' w
      else case snapshotMessages (arr_elems (fld input ''messages'')) of
        None \<Rightarrow> refuseOutbox ''OUTBOX_ENQUEUE_FAILED'' w
      | Some new \<Rightarrow>
      if \<not> payloadWithin scalarText 0 new then refuseOutbox ''OUTBOX_ENQUEUE_FAILED'' w
      else case stageMessages current new startStaging of
        Throw \<Rightarrow> (Throw, w)
      | Ret None \<Rightarrow> refuseOutbox ''OUTBOX_ENQUEUE_FAILED'' w
      | Ret (Some st) \<Rightarrow>
          (let index = storeIndex (stagedIdempotencyKeys st) (idempotencyKeys current) in
           case storeMessages (stagedMessages st) (outboxAllocated w) (messages current) of
             (complete, n, stored) \<Rightarrow>
               (if complete then Ret (memOk (JArr (stagedResult st))) else Throw,
                putOutboxState tx (current\<lparr>messages := stored, idempotencyKeys := index\<rparr>) n w)))"

text \<open>\<open>'message' in input\<close> throws on a primitive value.\<close>

definition is_primitive :: "jsv \<Rightarrow> bool" where
  "is_primitive v = (is_str v \<or> is_number v \<or> is_bool v)"

definition outboxEnqueue ::
  "(jsv \<Rightarrow> string) \<Rightarrow> jsv \<Rightarrow> jsv \<Rightarrow> outboxWorld \<Rightarrow> jsv outcome \<times> outboxWorld" where
  "outboxEnqueue scalarText input tx w =
     (if \<not> truthy input then refuseOutbox ''OUTBOX_ENQUEUE_FAILED'' w
      else if is_primitive input then (Throw, w)
      else if \<not> has_key ''message'' input then refuseOutbox ''OUTBOX_ENQUEUE_FAILED'' w
      else case outboxEnqueueBatch scalarText (obj [(''messages'', JArr [fld input ''message''])]) tx w of
        (Throw, w2) \<Rightarrow> (Throw, w2)
      | (Ret result, w2) \<Rightarrow>
          (Ret (if truthy (fld result ''ok'') then memOk (hd (arr_elems (fld result ''value''))) else result), w2))"

section \<open>Leases\<close>

text \<open>What \<open>claimBatch\<close> does with one message: nothing, replace it, or lease it.\<close>

datatype claimStep = Skip | Replace jsv | Lease jsv

definition deadMessage :: "jsv \<Rightarrow> jsv \<Rightarrow> jsv" where
  "deadMessage now message =
     spread message [(''status'', JStr ''dead''), (''lease'', JUndef), (''updatedAt'', now)]"

definition reclaimable :: "jsv \<Rightarrow> jsv \<Rightarrow> bool" where
  "reclaimable now message =
     (fld message ''status'' = JStr ''claimed'' \<and> fld message ''lease'' \<noteq> JUndef
      \<and> date_le (fld (fld message ''lease'') ''leaseUntil'') now)"

definition leaseUntil :: "jsv \<Rightarrow> jsv" where
  "leaseUntil input = new_date (date_ms (fld input ''now'') + num_val (fld input ''leaseSeconds'') * 1000)"

definition leaseName :: "nat \<Rightarrow> string" where
  "leaseName n = ''lease_'' @ js_string_of_nat n"

text \<open>The last lines of the loop's body, for a message that may be leased.\<close>

definition leaseMessage :: "jsv \<Rightarrow> nat \<Rightarrow> jsv \<Rightarrow> claimStep" where
  "leaseMessage input sequence message =
     (let now = fld input ''now'' in
      if date_less now (fld message ''availableAt'') \<or> num_val (fld message ''maxAttempts'') \<le> num_val (fld message ''attempts'')
      then Skip
      else Lease (spread message [(''status'', JStr ''claimed''),
             (''lease'', obj [(''leaseId'', JStr (leaseName (Suc sequence))), (''workerId'', fld input ''workerId''),
                              (''leaseUntil'', leaseUntil input)]),
             (''updatedAt'', now)]))"

definition claimMessage :: "jsv \<Rightarrow> nat \<Rightarrow> jsv \<Rightarrow> claimStep" where
  "claimMessage input sequence message =
     (let now = fld input ''now'' in
      if truthy (fld input ''tenantId'') \<and> fld message ''tenantId'' \<noteq> fld input ''tenantId'' then Skip
      else if truthy (fld message ''expiresAt'') \<and> date_le (fld message ''expiresAt'') now
      then Replace (deadMessage now message)
      else if reclaimable now message then
        (let attempts = JNum (num_val (fld message ''attempts'') + 1) in
         if num_val (fld message ''maxAttempts'') \<le> num_val attempts
         then Replace (spread message [(''attempts'', attempts), (''status'', JStr ''dead''),
                (''lastFailureReason'', JStr ''OUTBOX_LEASE_CONFLICT''), (''lease'', JUndef), (''updatedAt'', now)])
         else leaseMessage input sequence (spread message [(''attempts'', attempts), (''status'', JStr ''failed''),
                (''lastFailureReason'', JStr ''OUTBOX_LEASE_CONFLICT''), (''lease'', JUndef),
                (''availableAt'', now), (''updatedAt'', now)]))
      else if fld message ''status'' = JStr ''pending'' \<or> fld message ''status'' = JStr ''failed''
      then leaseMessage input sequence message
      else Skip)"

text \<open>
  The loop over the entries; \<open>quota\<close> counts the leases that are still allowed. It answers whether
  it ran to its end, the entries, the leased messages, the lease sequence and the object number.
\<close>

fun claimEntries ::
  "jsv \<Rightarrow> cells \<Rightarrow> nat \<Rightarrow> nat \<Rightarrow> nat \<Rightarrow> bool \<times> cells \<times> jsv list \<times> nat \<times> nat" where
  "claimEntries input [] quota sequence n = (True, [], [], sequence, n)"
| "claimEntries input ((key, (i, message)) # rest) quota sequence n =
     (if quota = 0 then (True, (key, (i, message)) # rest, [], sequence, n)
      else case claimMessage input sequence message of
        Skip \<Rightarrow>
          (case claimEntries input rest quota sequence n of
             (complete, cs, claimed, sequence', n') \<Rightarrow> (complete, (key, (i, message)) # cs, claimed, sequence', n'))
      | Replace updated \<Rightarrow>
          (case claimEntries input rest quota sequence (Suc n) of
             (complete, cs, claimed, sequence', n') \<Rightarrow> (complete, (key, (Suc n, updated)) # cs, claimed, sequence', n'))
      | Lease leased \<Rightarrow>
          (case cloneRecord leased of
             None \<Rightarrow> (False, (key, (i, message)) # rest, [], Suc sequence, n)
           | Some copy \<Rightarrow>
               (case claimEntries input rest (quota - 1) (Suc sequence) (Suc n) of
                  (complete, cs, claimed, sequence', n') \<Rightarrow>
                    (complete, (key, (Suc n, copy)) # cs, copy # claimed, sequence', n'))))"

definition outboxClaimBatch :: "jsv \<Rightarrow> outboxWorld \<Rightarrow> jsv outcome \<times> outboxWorld" where
  "outboxClaimBatch input w =
     (if \<not> isOutboxClaimInput input then refuseOutbox ''OUTBOX_LEASE_CONFLICT'' w
      else let st = outboxBase w in
        case claimEntries input (messages st) (nat (num_val (fld input ''limit''))) (leaseSequence st) (outboxAllocated w) of
          (complete, cs, claimed, sequence, n) \<Rightarrow>
            (if complete then Ret (memOk (JArr claimed)) else Throw,
             w\<lparr>outboxBase := st\<lparr>messages := cs, leaseSequence := sequence\<rparr>, outboxAllocated := n\<rparr>))"

definition validOutboxLease :: "cell option \<Rightarrow> jsv \<Rightarrow> bool" where
  "validOutboxLease current input =
     (let message = contentOf current; lease = fld message ''lease'' in
      fld message ''status'' = JStr ''claimed''
      \<and> isRecord lease
      \<and> fld message ''tenantId'' = fld input ''tenantId''
      \<and> fld message ''messageId'' = fld input ''messageId''
      \<and> fld lease ''workerId'' = fld input ''workerId''
      \<and> fld lease ''leaseId'' = fld input ''leaseId''
      \<and> is_date (fld lease ''leaseUntil'')
      \<and> date_less (fld input ''now'') (fld lease ''leaseUntil''))"

text \<open>
  The common course of the three operations on a lease: check the input and the lease, replace the
  message, answer.
\<close>

definition onLease ::
  "(jsv \<Rightarrow> bool) \<Rightarrow> (jsv \<Rightarrow> jsv \<Rightarrow> jsv) \<Rightarrow> (jsv \<Rightarrow> jsv) \<Rightarrow> jsv \<Rightarrow> outboxWorld \<Rightarrow> jsv outcome \<times> outboxWorld" where
  "onLease valid change answer input w =
     (if \<not> valid input then refuseOutbox ''OUTBOX_LEASE_CONFLICT'' w
      else let st = outboxBase w;
               key = outboxKey (fld input ''tenantId'') (fld input ''messageId'');
               current = map_of (messages st) key
        in if \<not> validOutboxLease current input then refuseOutbox ''OUTBOX_LEASE_CONFLICT'' w
        else let n = Suc (outboxAllocated w) in
          (Ret (memOk (answer input)),
           w\<lparr>outboxBase := st\<lparr>messages := AList.update key (n, change input (contentOf current)) (messages st)\<rparr>,
             outboxAllocated := n\<rparr>))"

definition renewedLease :: "jsv \<Rightarrow> jsv" where
  "renewedLease input = obj [(''leaseId'', fld input ''leaseId''), (''workerId'', fld input ''workerId''),
     (''leaseUntil'', leaseUntil input)]"

definition renewMessage :: "jsv \<Rightarrow> jsv \<Rightarrow> jsv" where
  "renewMessage input message =
     spread message [(''lease'', renewedLease input), (''updatedAt'', fld input ''now'')]"

definition outboxRenewLease :: "jsv \<Rightarrow> outboxWorld \<Rightarrow> jsv outcome \<times> outboxWorld" where
  "outboxRenewLease = onLease isOutboxRenewLeaseInput renewMessage renewedLease"

definition dispatchMessage :: "jsv \<Rightarrow> jsv \<Rightarrow> jsv" where
  "dispatchMessage input message =
     spread message [(''status'', JStr ''dispatched''), (''lastFailureReason'', JUndef), (''lease'', JUndef),
       (''updatedAt'', fld input ''now'')]"

definition outboxMarkDispatched :: "jsv \<Rightarrow> outboxWorld \<Rightarrow> jsv outcome \<times> outboxWorld" where
  "outboxMarkDispatched = onLease isOutboxMarkDispatchedInput dispatchMessage (\<lambda>_. JUndef)"

definition failMessage :: "jsv \<Rightarrow> jsv \<Rightarrow> jsv" where
  "failMessage input message =
     (let attempts = num_val (fld message ''attempts'') + 1 in
      spread message [(''attempts'', JNum attempts),
        (''status'', JStr (if truthy (fld input ''terminal'') \<or> num_val (fld message ''maxAttempts'') \<le> attempts
                         then ''dead'' else ''failed'')),
        (''lastFailureReason'', fld input ''reason''), (''lease'', JUndef),
        (''availableAt'', coalesce (fld input ''retryAt'') (fld input ''now'')),
        (''updatedAt'', fld input ''now'')])"

definition outboxMarkFailed :: "jsv \<Rightarrow> outboxWorld \<Rightarrow> jsv outcome \<times> outboxWorld" where
  "outboxMarkFailed = onLease isOutboxMarkFailedInput failMessage (\<lambda>_. JUndef)"

section \<open>cleanupTerminal\<close>

text \<open>A stable sort by a comparison function, as \<open>Array.prototype.sort\<close>.\<close>

fun insertSorted :: "('a \<Rightarrow> 'a \<Rightarrow> int) \<Rightarrow> 'a \<Rightarrow> 'a list \<Rightarrow> 'a list" where
  "insertSorted compare x [] = [x]"
| "insertSorted compare x (y # ys) = (if compare x y \<le> 0 then x # y # ys else y # insertSorted compare x ys)"

definition sortStable :: "('a \<Rightarrow> 'a \<Rightarrow> int) \<Rightarrow> 'a list \<Rightarrow> 'a list" where
  "sortStable compare xs = foldr (insertSorted compare) xs []"

definition compareTerminal :: "(string \<Rightarrow> string \<Rightarrow> int) \<Rightarrow> jsv \<times> cell \<Rightarrow> jsv \<times> cell \<Rightarrow> int" where
  "compareTerminal localeCompare left right =
     (let l = snd (snd left); r = snd (snd right);
          byDate = date_ms (fld l ''updatedAt'') - date_ms (fld r ''updatedAt'');
          byTenant = localeCompare (template (fld l ''tenantId'')) (template (fld r ''tenantId''))
      in if byDate \<noteq> 0 then byDate
         else if byTenant \<noteq> 0 then byTenant
         else localeCompare (template (fld l ''messageId'')) (template (fld r ''messageId'')))"

definition eligibleForCleanup :: "jsv \<Rightarrow> jsv \<Rightarrow> bool" where
  "eligibleForCleanup input message =
     (fld message ''status'' \<in> set (arr_elems (fld input ''statuses''))
      \<and> date_le (fld message ''updatedAt'') (fld input ''before'')
      \<and> (fld input ''tenantId'' = JUndef \<or> fld message ''tenantId'' = fld input ''tenantId''))"

definition removeMessage :: "jsv \<times> cell \<Rightarrow> outboxState \<Rightarrow> outboxState" where
  "removeMessage entry st =
     (let message = snd (snd entry);
          st' = st\<lparr>messages := AList.delete (fst entry) (messages st)\<rparr>;
          idempotencyKey = outboxKey (fld message ''tenantId'') (fld message ''idempotencyKey'')
      in if fld message ''idempotencyKey'' \<noteq> JUndef
            \<and> contentOf (map_of (idempotencyKeys st') idempotencyKey) = fld message ''messageId''
         then st'\<lparr>idempotencyKeys := AList.delete idempotencyKey (idempotencyKeys st')\<rparr>
         else st')"

definition outboxCleanupTerminal ::
  "(string \<Rightarrow> string \<Rightarrow> int) \<Rightarrow> jsv \<Rightarrow> outboxWorld \<Rightarrow> jsv outcome \<times> outboxWorld" where
  "outboxCleanupTerminal localeCompare input w =
     (if \<not> isOutboxCleanupTerminalInput input then refuseOutbox ''OUTBOX_LEASE_CONFLICT'' w
      else let st = outboxBase w;
               eligible = take (nat (num_val (fld input ''limit'')))
                 (sortStable (compareTerminal localeCompare)
                   (filter (\<lambda>(_, (_, message)). eligibleForCleanup input message) (messages st)))
        in (Ret (memOk (JNum (int (length eligible)))), w\<lparr>outboxBase := fold removeMessage eligible st\<rparr>))"

section \<open>Transactions\<close>

text \<open>
  The private copies of \<open>mapsMatch\<close>, \<open>mapHasConflict\<close>, \<open>applyMapChanges\<close> and \<open>mapEntryMatches\<close> are
  those of \<open>state.ts\<close>.
\<close>

definition canCommitMemoryOutboxState :: "outboxState \<Rightarrow> outboxState \<Rightarrow> outboxState \<Rightarrow> bool" where
  "canCommitMemoryOutboxState state before working =
     (mapsMatch (messages state) (messages before)
      \<and> mapsMatch (idempotencyKeys state) (idempotencyKeys before)
      \<and> leaseSequence state = leaseSequence before
      \<and> \<not> hasConflict (messages state) (messages before) (messages working)
      \<and> \<not> hasConflict (idempotencyKeys state) (idempotencyKeys before) (idempotencyKeys working)
      \<and> (leaseSequence working = leaseSequence before \<or> leaseSequence state = leaseSequence before))"

definition applyMemoryOutboxState :: "outboxState \<Rightarrow> outboxState \<Rightarrow> outboxState \<Rightarrow> outboxState" where
  "applyMemoryOutboxState state before working =
     \<lparr>messages = applyChanges (messages state) (messages before) (messages working),
      idempotencyKeys = applyChanges (idempotencyKeys state) (idempotencyKeys before) (idempotencyKeys working),
      leaseSequence = (if leaseSequence working \<noteq> leaseSequence before then leaseSequence working
                       else leaseSequence state)\<rparr>"

end
