(* ===== verification/OutboxMessages.thy ===== *)
theory OutboxMessages
  imports MemoryOutbox MemoryRuns
begin

text \<open>
  The life of one message of the memory outbox: what is true of every stored message, and the
  moves its operations make: leased, given back, delivered, failed or buried. Each operation
  replaces a message only by one a move leads to.
\<close>

section \<open>Copies\<close>

lemma cloneEntries_set_field:
  "cloneEntries kvs = Some kvs \<Longrightarrow> cloneRecord x = Some x \<Longrightarrow> cloneEntries (set_field k x kvs) = Some (set_field k x kvs)"
  by (induction k x kvs rule: set_field.induct) (auto split: option.splits)

lemma cloneEntries_fold_set_field:
  "cloneEntries kvs = Some kvs \<Longrightarrow> \<forall>(k, x) \<in> set ups. cloneRecord x = Some x \<Longrightarrow>
     cloneEntries (fold (\<lambda>(k, x). set_field k x) ups kvs) = Some (fold (\<lambda>(k, x). set_field k x) ups kvs)"
  by (induction ups arbitrary: kvs) (auto intro: cloneEntries_set_field)

lemma clone_ordinary:
  assumes "fld (JObj p kvs) ''type'' = JStr ''delivery''"
  shows "cloneRecord (JObj p kvs) = map_option (JObj True) (cloneEntries kvs)"
  using assms by (simp add: Let_def del: fld.simps fld_obj)

section \<open>Stored messages\<close>

definition changing :: "string list" where
  "changing = [''attempts'', ''status'', ''lastFailureReason'', ''lease'', ''availableAt'', ''updatedAt'']"

text \<open>What never changes of a message stored under \<open>key\<close>.\<close>

definition identityOk :: "jsv \<Rightarrow> jsv \<Rightarrow> bool" where
  "identityOk key m \<longleftrightarrow> fld m ''type'' = JStr ''delivery''
     \<and> key = outboxKey (fld m ''tenantId'') (fld m ''messageId'')
     \<and> isSafeText (fld m ''tenantId'') 512 True \<and> isSafeText (fld m ''messageId'') 512 True
     \<and> (fld m ''idempotencyKey'' \<noteq> JUndef \<longrightarrow> isSafeText (fld m ''idempotencyKey'') 512 True)
     \<and> isPositiveInteger (fld m ''maxAttempts'')"

definition tries :: "jsv \<Rightarrow> int" where
  "tries m = num_val (fld m ''attempts'')"

definition mostTries :: "jsv \<Rightarrow> int" where
  "mostTries m = num_val (fld m ''maxAttempts'')"

definition heldAs :: "nat \<Rightarrow> jsv \<Rightarrow> bool" where
  "heldAs k m \<longleftrightarrow> fld m ''status'' = JStr ''claimed'' \<and> is_obj (fld m ''lease'')
     \<and> fld (fld m ''lease'') ''leaseId'' = JStr (leaseName k)"

definition unheld :: "string \<Rightarrow> jsv \<Rightarrow> bool" where
  "unheld status m \<longleftrightarrow> fld m ''status'' = JStr status \<and> fld m ''lease'' = JUndef"

definition progressOk :: "nat \<Rightarrow> jsv \<Rightarrow> bool" where
  "progressOk sequence m \<longleftrightarrow> is_safe_integer (fld m ''attempts'') \<and> 0 \<le> tries m \<and> tries m \<le> mostTries m
     \<and> (unheld ''pending'' m \<and> tries m = 0
        \<or> unheld ''failed'' m \<and> 0 < tries m \<and> tries m < mostTries m
        \<or> unheld ''dispatched'' m \<and> tries m < mostTries m
        \<or> unheld ''dead'' m
        \<or> (\<exists>k. heldAs k m \<and> 0 < k \<and> k \<le> sequence) \<and> tries m < mostTries m)"

definition messageOk :: "nat \<Rightarrow> jsv \<Rightarrow> jsv \<Rightarrow> bool" where
  "messageOk sequence key m \<longleftrightarrow> is_obj m \<and> cloneRecord m = Some m \<and> identityOk key m \<and> progressOk sequence m"

lemma messageOk_later: "messageOk s key m \<Longrightarrow> s \<le> t \<Longrightarrow> messageOk t key m"
  unfolding messageOk_def progressOk_def by (meson order_trans)

text \<open>A change of the changing fields, to values that are their own copies.\<close>

definition progressUps :: "(string \<times> jsv) list \<Rightarrow> bool" where
  "progressUps ups \<longleftrightarrow> fst ` set ups \<subseteq> set changing \<and> (\<forall>(k, x) \<in> set ups. cloneRecord x = Some x)"

lemma spread_fixed:
  assumes "is_obj m" and "progressUps ups" and "k \<notin> set changing"
  shows "fld (spread m ups) k = fld m k"
proof -
  have "map_of (rev ups) k = None"
    using assms(2,3) by (auto simp: progressUps_def map_of_eq_None_iff)
  with fld_spread [OF assms(1), of ups k] show ?thesis by simp
qed

lemma changing_fixed [simp]:
  "''type'' \<notin> set changing" "''tenantId'' \<notin> set changing" "''messageId'' \<notin> set changing"
  "''idempotencyKey'' \<notin> set changing" "''maxAttempts'' \<notin> set changing" "''expiresAt'' \<notin> set changing"
  "''message'' \<notin> set changing" "''context'' \<notin> set changing" "''secretPurpose'' \<notin> set changing"
  "''dispatchPolicy'' \<notin> set changing" "''createdAt'' \<notin> set changing"
  by (simp_all add: changing_def)

lemma spread_clone:
  assumes "is_obj m" and "cloneRecord m = Some m" and "fld m ''type'' = JStr ''delivery''" and "progressUps ups"
  shows "cloneRecord (spread m ups) = Some (spread m ups)" and "is_obj (spread m ups)"
proof -
  obtain p kvs where m: "m = JObj p kvs" using assms(1) by (cases m) auto
  from assms(2,3) have kvs: "cloneEntries kvs = Some kvs"
    unfolding m by (simp add: clone_ordinary del: fld.simps fld_obj cloneRecord.simps)
  have e: "spread m ups = JObj True (fold (\<lambda>(k, x). set_field k x) ups kvs)" by (simp add: m)
  have "fld (spread m ups) ''type'' = JStr ''delivery''"
    using spread_fixed [OF assms(1,4), of "''type''"] assms(3) by (simp del: spread.simps)
  then have "fld (JObj True (fold (\<lambda>(k, x). set_field k x) ups kvs)) ''type'' = JStr ''delivery''"
    unfolding e .
  from clone_ordinary [OF this] cloneEntries_fold_set_field [OF kvs] assms(4)
  show "cloneRecord (spread m ups) = Some (spread m ups)"
    unfolding e progressUps_def by (simp del: cloneRecord.simps)
  show "is_obj (spread m ups)" by simp
qed

lemma messageOk_spread:
  assumes "messageOk s key m" and "progressUps ups" and "progressOk t (spread m ups)"
  shows "messageOk t key (spread m ups)"
proof -
  from assms(1) have m: "is_obj m" "cloneRecord m = Some m" "identityOk key m" by (simp_all add: messageOk_def)
  then have "identityOk key (spread m ups)"
    using spread_fixed [OF m(1) assms(2)] by (simp add: identityOk_def del: spread.simps)
  moreover have "fld m ''type'' = JStr ''delivery''" using m(3) by (simp add: identityOk_def)
  ultimately show ?thesis using spread_clone [OF m(1,2) _ assms(2)] assms(3) by (simp add: messageOk_def del: spread.simps)
qed

lemma isValidDate_clone: "isValidDate v \<Longrightarrow> cloneRecord v = Some v"
  by (auto simp: isValidDate_iff)

lemma isSafeText_clone: "isSafeText v n b \<Longrightarrow> cloneRecord v = Some v"
  by (drule isSafeText_JStr) auto

lemma new_date_clone: "cloneRecord (new_date t) = Some (new_date t)"
  by (simp add: new_date_def)

section \<open>Changes\<close>

text \<open>Reading a rewritten message.\<close>

lemma spread_progress:
  assumes "is_obj m" and "progressUps ups"
  shows "fld (spread m ups) k = (case map_of (rev ups) k of None \<Rightarrow> fld m k | Some x \<Rightarrow> x)"
    and "mostTries (spread m ups) = mostTries m"
  using fld_spread [OF assms(1)] spread_fixed [OF assms] by (simp_all add: mostTries_def del: spread.simps)

lemma maxAttempts_safe: "messageOk s key m \<Longrightarrow> 0 < mostTries m \<and> mostTries m \<le> max_safe_integer"
  by (auto simp: messageOk_def identityOk_def isPositiveInteger_iff mostTries_def)

lemma tries_cases:
  assumes "messageOk s key m"
  shows "0 \<le> tries m" and "tries m \<le> mostTries m"
  using assms by (simp_all add: messageOk_def progressOk_def)

lemma safe_tries: "messageOk s key m \<Longrightarrow> 0 \<le> n \<Longrightarrow> n \<le> mostTries m \<Longrightarrow> is_safe_integer (JNum n)"
  using maxAttempts_safe by fastforce

lemma heldAs_tries: "messageOk s key m \<Longrightarrow> fld m ''status'' = JStr ''claimed'' \<Longrightarrow> tries m < mostTries m \<and> (\<exists>k. heldAs k m \<and> 0 < k \<and> k \<le> s)"
  by (auto simp: messageOk_def progressOk_def unheld_def)

text \<open>A message in another state than \<open>claimed\<close> has no lease.\<close>

lemma not_held: "unheld status m \<Longrightarrow> status \<noteq> ''claimed'' \<Longrightarrow> \<not> heldAs k m"
  by (auto simp: unheld_def heldAs_def)

lemma isOutboxClaimInputD:
  assumes "isOutboxClaimInput input"
  shows "isValidDate (fld input ''now'')" and "isSafeText (fld input ''workerId'') 512 True"
  using assms by (simp_all add: isOutboxClaimInput_def del: isSafeText.simps)

lemma isLeaseMutationInputD:
  assumes "isLeaseMutationInput input"
  shows "isValidDate (fld input ''now'')" and "isSafeText (fld input ''workerId'') 512 True"
    and "isSafeText (fld input ''leaseId'') 512 True"
  using assms by (simp_all add: isLeaseMutationInput_def del: isSafeText.simps)

lemma lease_clone:
  assumes "isSafeText w 512 True" and "isSafeText l 512 True"
  shows "cloneRecord (obj [(''leaseId'', l), (''workerId'', w), (''leaseUntil'', new_date t)])
    = Some (obj [(''leaseId'', l), (''workerId'', w), (''leaseUntil'', new_date t)])"
  using isSafeText_clone [OF assms(1)] isSafeText_clone [OF assms(2)] new_date_clone [of t]
  by (simp add: Let_def)

definition leasedUps :: "jsv \<Rightarrow> nat \<Rightarrow> (string \<times> jsv) list" where
  "leasedUps input sequence = [(''status'', JStr ''claimed''),
     (''lease'', obj [(''leaseId'', JStr (leaseName (Suc sequence))), (''workerId'', fld input ''workerId''),
                      (''leaseUntil'', leaseUntil input)]),
     (''updatedAt'', fld input ''now'')]"

lemma leaseUps_progress:
  assumes "isOutboxClaimInput input" shows "progressUps (leasedUps input sequence)"
proof -
  have "cloneRecord (obj [(''leaseId'', JStr x), (''workerId'', fld input ''workerId''), (''leaseUntil'', leaseUntil input)])
    = Some (obj [(''leaseId'', JStr x), (''workerId'', fld input ''workerId''), (''leaseUntil'', leaseUntil input)])" for x
    using isSafeText_clone [OF isOutboxClaimInputD(2) [OF assms]] new_date_clone
    by (simp add: leaseUntil_def Let_def del: fld.simps)
  then show ?thesis
    using isValidDate_clone [OF isOutboxClaimInputD(1) [OF assms]]
    by (simp add: progressUps_def leasedUps_def changing_def del: cloneRecord.simps(3) fld.simps fld_obj)
qed

text \<open>A message that may be leased: it waits, or has just been taken back.\<close>

definition waiting :: "jsv \<Rightarrow> bool" where
  "waiting m \<longleftrightarrow> unheld ''pending'' m \<or> unheld ''failed'' m"

lemma leaseMessage_ok:
  assumes "leaseMessage input sequence m = Lease m'" and "isOutboxClaimInput input" and "messageOk s key m"
    and "s \<le> sequence"
  shows "messageOk (Suc sequence) key m'" and "heldAs (Suc sequence) m'" and "tries m' = tries m"
proof -
  have m': "m' = spread m (leasedUps input sequence)" and less: "tries m < mostTries m"
    using assms(1) by (auto simp: leaseMessage_def leasedUps_def tries_def mostTries_def Let_def
        simp del: spread.simps fld.simps fld_obj split: if_splits)
  note ups = leaseUps_progress [OF assms(2), of sequence]
  have m: "is_obj m" using assms(3) by (simp add: messageOk_def)
  note read = spread_progress [OF m ups]
  have held: "heldAs (Suc sequence) (spread m (leasedUps input sequence))"
    unfolding heldAs_def read(1) by (simp add: leasedUps_def)
  have att: "fld (spread m (leasedUps input sequence)) ''attempts'' = fld m ''attempts''"
    unfolding read(1) by (simp add: leasedUps_def del: fld.simps)
  with held less tries_cases [OF assms(3)] assms(3)
  have "progressOk (Suc sequence) (spread m (leasedUps input sequence))"
    unfolding progressOk_def read(2) by (auto simp: tries_def messageOk_def progressOk_def simp del: spread.simps)
  with messageOk_spread [OF assms(3) ups] show "messageOk (Suc sequence) key m'" unfolding m' by blast
  show "heldAs (Suc sequence) m'" unfolding m' by (rule held)
  show "tries m' = tries m" unfolding m' tries_def att ..
qed

lemma progressUpsI:
  assumes "\<And>k x. (k, x) \<in> set ups \<Longrightarrow> k \<in> set changing \<and> cloneRecord x = Some x"
  shows "progressUps ups"
  using assms unfolding progressUps_def by force

definition takenBack :: "jsv \<Rightarrow> jsv \<Rightarrow> (string \<times> jsv) list" where
  "takenBack now m = [(''attempts'', JNum (tries m + 1)), (''status'', JStr ''failed''),
     (''lastFailureReason'', JStr ''OUTBOX_LEASE_CONFLICT''), (''lease'', JUndef),
     (''availableAt'', now), (''updatedAt'', now)]"

definition buried :: "jsv \<Rightarrow> jsv \<Rightarrow> (string \<times> jsv) list" where
  "buried now m = [(''attempts'', JNum (tries m + 1)), (''status'', JStr ''dead''),
     (''lastFailureReason'', JStr ''OUTBOX_LEASE_CONFLICT''), (''lease'', JUndef), (''updatedAt'', now)]"

definition expired :: "jsv \<Rightarrow> (string \<times> jsv) list" where
  "expired now = [(''status'', JStr ''dead''), (''lease'', JUndef), (''updatedAt'', now)]"

lemma claim_progress:
  assumes "isValidDate now"
  shows "progressUps (takenBack now m)" and "progressUps (buried now m)" and "progressUps (expired now)"
  using isValidDate_clone [OF assms]
  by (auto simp: progressUps_def takenBack_def buried_def expired_def changing_def)

lemma retry_ok:
  assumes m: "messageOk s key m" and less: "tries m < mostTries m" and ups: "progressUps ups"
    and read: "map_of (rev ups) ''attempts'' = Some (JNum (tries m + 1))" "map_of (rev ups) ''lease'' = Some JUndef"
      "map_of (rev ups) ''status'' = Some (JStr status)"
    and status: "status = ''dead'' \<or> status = ''failed'' \<and> tries m + 1 < mostTries m"
  shows "messageOk s key (spread m ups)" and "unheld status (spread m ups)" and "tries (spread m ups) = tries m + 1"
proof -
  have "is_obj m" using m by (simp add: messageOk_def)
  note r = spread_progress [OF this ups]
  have f: "fld (spread m ups) ''attempts'' = JNum (tries m + 1)" "fld (spread m ups) ''lease'' = JUndef"
    "fld (spread m ups) ''status'' = JStr status"
    unfolding r(1) read by simp_all
  then show u: "unheld status (spread m ups)" and t: "tries (spread m ups) = tries m + 1"
    by (simp_all add: unheld_def tries_def del: fld.simps spread.simps)
  have "is_safe_integer (JNum (tries m + 1))" using safe_tries [OF m] tries_cases [OF m] less by simp
  then have "progressOk s (spread m ups)"
    unfolding progressOk_def t r(2) f(1) using status u tries_cases [OF m] less by auto
  from messageOk_spread [OF m ups this] show "messageOk s key (spread m ups)" .
qed

lemma expire_ok:
  assumes m: "messageOk s key m" and now: "isValidDate now"
  shows "messageOk s key (spread m (expired now))" and "unheld ''dead'' (spread m (expired now))"
    and "tries (spread m (expired now)) = tries m"
proof -
  have "is_obj m" using m by (simp add: messageOk_def)
  note r = spread_progress [OF this claim_progress(3) [OF now]]
  have f: "fld (spread m (expired now)) ''attempts'' = fld m ''attempts''" "fld (spread m (expired now)) ''lease'' = JUndef"
    "fld (spread m (expired now)) ''status'' = JStr ''dead''"
    unfolding r(1) by (simp_all add: expired_def del: fld.simps)
  then show u: "unheld ''dead'' (spread m (expired now))" and t: "tries (spread m (expired now)) = tries m"
    by (simp_all add: unheld_def tries_def del: fld.simps spread.simps)
  have "progressOk s (spread m (expired now))"
    using m u unfolding progressOk_def messageOk_def t r(2) f(1) by auto
  from messageOk_spread [OF m claim_progress(3) [OF now] this] show "messageOk s key (spread m (expired now))" .
qed

lemma claim_branches:
  fixes mx t :: int
  assumes "x = (if a then s else if b1 \<and> b then r1 else if c then (if mx \<le> t then r2 else l1) else if e then l2 else s)"
  obtains "x = s" | "x = r1" "b" | "x = r2" "c" "mx \<le> t" | "x = l1" "c" "t < mx" | "x = l2" "e"
  using assms by (auto split: if_splits)

text \<open>The five outcomes of \<open>claimMessage\<close>.\<close>

lemma claimMessage_cases:
  obtains (skip) "claimMessage input n m = Skip"
  | (expire) "claimMessage input n m = Replace (spread m (expired (fld input ''now'')))"
      "date_le (fld m ''expiresAt'') (fld input ''now'')"
  | (bury) "claimMessage input n m = Replace (spread m (buried (fld input ''now'') m))"
      "reclaimable (fld input ''now'') m" "mostTries m \<le> tries m + 1"
  | (retake) "claimMessage input n m = leaseMessage input n (spread m (takenBack (fld input ''now'') m))"
      "reclaimable (fld input ''now'') m" "tries m + 1 < mostTries m"
  | (lease) "claimMessage input n m = leaseMessage input n m"
      "fld m ''status'' = JStr ''pending'' \<or> fld m ''status'' = JStr ''failed''"
proof -
  let ?now = "fld input ''now''"
  let ?foreign = "truthy (fld input ''tenantId'') \<and> fld m ''tenantId'' \<noteq> fld input ''tenantId''"
  let ?late = "truthy (fld m ''expiresAt'') \<and> date_le (fld m ''expiresAt'') ?now"
  let ?ready = "fld m ''status'' = JStr ''pending'' \<or> fld m ''status'' = JStr ''failed''"
  have e: "claimMessage input n m =
     (if ?foreign then Skip
      else if ?late then Replace (spread m (expired ?now))
      else if reclaimable ?now m then
        (if mostTries m \<le> tries m + 1 then Replace (spread m (buried ?now m))
         else leaseMessage input n (spread m (takenBack ?now m)))
      else if ?ready then leaseMessage input n m
      else Skip)"
    unfolding claimMessage_def expired_def buried_def takenBack_def deadMessage_def tries_def mostTries_def Let_def
    by (simp del: fld.simps fld_obj spread.simps)
  show thesis
    by (rule claim_branches [OF e]) (fact skip, fact expire, fact bury, fact retake, fact lease)
qed

lemma reclaimable_claimed: "reclaimable now m \<Longrightarrow> fld m ''status'' = JStr ''claimed''"
  by (simp add: reclaimable_def)

lemma claim_lease_ok:
  assumes c: "claimMessage input n m = Lease m'" and input: "isOutboxClaimInput input" and m: "messageOk s key m" and "s \<le> n"
  shows "messageOk (Suc n) key m'" and "heldAs (Suc n) m'" and "tries m \<le> tries m'"
proof -
  let ?now = "fld input ''now''"
  have "messageOk (Suc n) key m' \<and> heldAs (Suc n) m' \<and> tries m \<le> tries m'"
  proof (cases rule: claimMessage_cases [of input n m])
    case retake
    have "tries m < mostTries m" using retake(3) by simp
    from retry_ok [OF m this claim_progress(1) [OF isOutboxClaimInputD(1) [OF input]]]
    have m2: "messageOk s key (spread m (takenBack ?now m))" "tries (spread m (takenBack ?now m)) = tries m + 1"
      using retake(3) by (simp_all add: takenBack_def)
    with leaseMessage_ok [OF _ input m2(1) assms(4)] c retake(1) show ?thesis by auto
  next
    case lease
    with leaseMessage_ok [OF _ input m assms(4)] c show ?thesis by auto
  qed (use c in simp_all)
  then show "messageOk (Suc n) key m'" "heldAs (Suc n) m'" "tries m \<le> tries m'" by blast+
qed

lemma leaseMessage_not_replace: "leaseMessage input n m \<noteq> Replace m'"
  by (simp add: leaseMessage_def Let_def)

lemma claim_replace_ok:
  assumes c: "claimMessage input n m = Replace m'" and input: "isOutboxClaimInput input" and m: "messageOk s key m"
  shows "messageOk s key m'" and "unheld ''dead'' m'" and "tries m \<le> tries m'"
proof -
  have "messageOk s key m' \<and> unheld ''dead'' m' \<and> tries m \<le> tries m'"
  proof (cases rule: claimMessage_cases [of input n m])
    case expire
    with expire_ok [OF m isOutboxClaimInputD(1) [OF input]] c show ?thesis by simp
  next
    case bury
    from heldAs_tries [OF m reclaimable_claimed [OF bury(2)]] have "tries m < mostTries m" by blast
    from retry_ok [OF m this claim_progress(2) [OF isOutboxClaimInputD(1) [OF input]]] bury(1) c show ?thesis
      by (simp add: buried_def)
  next
    case retake
    then show ?thesis using c leaseMessage_not_replace by metis
  next
    case lease
    then show ?thesis using c leaseMessage_not_replace by metis
  qed (use c in simp)
  then show "messageOk s key m'" "unheld ''dead'' m'" "tries m \<le> tries m'" by blast+
qed

text \<open>A live lease is left alone, unless the message itself has run out of time.\<close>

definition liveLease :: "jsv \<Rightarrow> jsv \<Rightarrow> bool" where
  "liveLease now m \<longleftrightarrow> fld m ''status'' = JStr ''claimed'' \<and> date_less now (fld (fld m ''lease'') ''leaseUntil'')"

lemma claim_live_skip:
  assumes "liveLease (fld input ''now'') m" and "\<not> date_le (fld m ''expiresAt'') (fld input ''now'')"
  shows "claimMessage input n m = Skip"
proof (cases rule: claimMessage_cases [of input n m])
  case bury
  with assms(1) show ?thesis by (auto simp: reclaimable_def liveLease_def date_le_iff date_less_iff simp del: fld.simps)
next
  case retake
  with assms(1) show ?thesis by (auto simp: reclaimable_def liveLease_def date_le_iff date_less_iff simp del: fld.simps)
next
  case lease
  with assms(1) show ?thesis by (simp add: liveLease_def)
qed (use assms(2) in simp_all)

text \<open>Only a message that waits or whose lease ran out is leased.\<close>

lemma claim_lease_from:
  assumes "claimMessage input n m = Lease m'"
  shows "fld m ''status'' = JStr ''pending'' \<or> fld m ''status'' = JStr ''failed'' \<or> reclaimable (fld input ''now'') m"
proof (cases rule: claimMessage_cases [of input n m])
  case lease
  then show ?thesis by blast
qed (use assms in simp_all)

section \<open>The changes of the holder\<close>

lemma validOutboxLease_current:
  assumes "validOutboxLease (map_of cs key) input"
  obtains i m where "map_of cs key = Some (i, m)" and "liveLease (fld input ''now'') m"
    and "fld (fld m ''lease'') ''workerId'' = fld input ''workerId''"
    and "fld (fld m ''lease'') ''leaseId'' = fld input ''leaseId''"
proof (cases "map_of cs key")
  case None
  with assms show ?thesis by (simp add: validOutboxLease_def contentOf_def Let_def)
next
  case (Some c)
  with assms that show ?thesis
    by (cases c) (simp add: validOutboxLease_def contentOf_def Let_def liveLease_def del: fld.simps)
qed

lemma renew_ok:
  assumes input: "isOutboxRenewLeaseInput input" and m: "messageOk s key m" and held: "heldAs k m"
    and lease: "fld (fld m ''lease'') ''leaseId'' = fld input ''leaseId''"
  shows "messageOk s key (renewMessage input m)" and "heldAs k (renewMessage input m)"
    and "tries (renewMessage input m) = tries m"
proof -
  let ?ups = "[(''lease'', renewedLease input), (''updatedAt'', fld input ''now'')]"
  have i: "isLeaseMutationInput input" using input by (simp add: isOutboxRenewLeaseInput_def)
  have obj: "is_obj m" using m by (simp add: messageOk_def)
  have ups: "progressUps ?ups"
    using lease_clone [OF isLeaseMutationInputD(2,3) [OF i]] isValidDate_clone [OF isLeaseMutationInputD(1) [OF i]]
    unfolding progressUps_def renewedLease_def leaseUntil_def
    by (simp add: changing_def del: cloneRecord.simps(3) fld.simps fld_obj)
  note r = spread_progress [OF obj ups]
  have f: "fld (spread m ?ups) ''attempts'' = fld m ''attempts''" "fld (spread m ?ups) ''lease'' = renewedLease input"
    "fld (spread m ?ups) ''status'' = fld m ''status''"
    unfolding r(1) by (simp_all del: fld.simps)
  have h: "heldAs k (spread m ?ups)"
    unfolding heldAs_def f using held lease by (simp add: renewedLease_def heldAs_def)
  have t: "tries (spread m ?ups) = tries m" by (simp add: tries_def f(1) del: fld.simps spread.simps)
  have st: "fld m ''status'' = JStr ''claimed''" using held by (simp add: heldAs_def)
  have k: "0 < j \<and> j \<le> s \<and> heldAs j (spread m ?ups)" if "heldAs j m" "0 < j" "j \<le> s" for j
    using that lease unfolding heldAs_def f by (simp add: renewedLease_def)
  have "progressOk s (spread m ?ups)"
    using m heldAs_tries [OF m st] k unfolding progressOk_def messageOk_def t r(2) f(1) by blast
  from messageOk_spread [OF m ups this] h t
  show "messageOk s key (renewMessage input m)" "heldAs k (renewMessage input m)" "tries (renewMessage input m) = tries m"
    unfolding renewMessage_def by blast+
qed

lemma dispatch_ok:
  assumes now: "isValidDate (fld input ''now'')" and m: "messageOk s key m" and claimed: "fld m ''status'' = JStr ''claimed''"
  shows "messageOk s key (dispatchMessage input m)" and "unheld ''dispatched'' (dispatchMessage input m)"
    and "tries (dispatchMessage input m) = tries m"
proof -
  let ?ups = "[(''status'', JStr ''dispatched''), (''lastFailureReason'', JUndef), (''lease'', JUndef),
       (''updatedAt'', fld input ''now'')]"
  have obj: "is_obj m" using m by (simp add: messageOk_def)
  have ups: "progressUps ?ups"
    using isValidDate_clone [OF now] unfolding progressUps_def by (simp add: changing_def del: fld.simps)
  note r = spread_progress [OF obj ups]
  have f: "fld (spread m ?ups) ''attempts'' = fld m ''attempts''" "fld (spread m ?ups) ''lease'' = JUndef"
    "fld (spread m ?ups) ''status'' = JStr ''dispatched''"
    unfolding r(1) by (simp_all del: fld.simps)
  have u: "unheld ''dispatched'' (spread m ?ups)" by (simp add: unheld_def f del: fld.simps spread.simps)
  have t: "tries (spread m ?ups) = tries m" by (simp add: tries_def f(1) del: fld.simps spread.simps)
  have "progressOk s (spread m ?ups)"
    using m heldAs_tries [OF m claimed] u unfolding progressOk_def messageOk_def t r(2) f(1) by blast
  from messageOk_spread [OF m ups this] u t
  show "messageOk s key (dispatchMessage input m)" "unheld ''dispatched'' (dispatchMessage input m)"
    "tries (dispatchMessage input m) = tries m"
    unfolding dispatchMessage_def by blast+
qed

lemma fail_ok:
  assumes input: "isOutboxMarkFailedInput input" and m: "messageOk s key m" and claimed: "fld m ''status'' = JStr ''claimed''"
  shows "messageOk s key (failMessage input m)" and "\<exists>status. status \<noteq> ''claimed'' \<and> unheld status (failMessage input m)"
    and "tries (failMessage input m) = tries m + 1"
proof -
  let ?status = "if truthy (fld input ''terminal'') \<or> mostTries m \<le> tries m + 1 then ''dead'' else ''failed''"
  let ?ups = "[(''attempts'', JNum (tries m + 1)), (''status'', JStr ?status), (''lastFailureReason'', fld input ''reason''),
    (''lease'', JUndef), (''availableAt'', coalesce (fld input ''retryAt'') (fld input ''now'')),
    (''updatedAt'', fld input ''now'')]"
  have i: "isValidDate (fld input ''now'')" "isSafeText (fld input ''reason'') 512 True"
    "fld input ''retryAt'' = JUndef \<or> isValidDate (fld input ''retryAt'')"
    using input by (simp_all add: isOutboxMarkFailedInput_def isLeaseMutationInput_def del: isSafeText.simps)
  have at: "cloneRecord (coalesce (fld input ''retryAt'') (fld input ''now'')) = Some (coalesce (fld input ''retryAt'') (fld input ''now''))"
    using isValidDate_clone [OF i(1)] isValidDate_clone [of "fld input ''retryAt''"] i(3)
    by (auto simp: coalesce_def nullish_def simp del: fld.simps)
  have ups: "progressUps ?ups"
    using isValidDate_clone [OF i(1)] isSafeText_clone [OF i(2)] at
    unfolding progressUps_def by (simp add: changing_def del: fld.simps)
  from heldAs_tries [OF m claimed] have less: "tries m < mostTries m" by blast
  have e: "failMessage input m = spread m ?ups"
    unfolding failMessage_def tries_def mostTries_def Let_def by (simp del: spread.simps fld.simps)
  have "?status = ''dead'' \<or> ?status = ''failed'' \<and> tries m + 1 < mostTries m" by simp
  from retry_ok [OF m less ups _ _ _ this]
  have k: "messageOk s key (spread m ?ups)" "unheld ?status (spread m ?ups)" "tries (spread m ?ups) = tries m + 1"
    by (simp_all del: spread.simps)
  show "messageOk s key (failMessage input m)" "tries (failMessage input m) = tries m + 1"
    unfolding e by (fact k(1), fact k(3))
  have "?status \<noteq> ''claimed''" by simp
  with k(2) show "\<exists>status. status \<noteq> ''claimed'' \<and> unheld status (failMessage input m)" unfolding e by blast
qed

end
