(* ===== verification/OutboxInvariant.thy ===== *)
theory OutboxInvariant
  imports OutboxMessages
begin

text \<open>
  The invariant of the memory outbox: every message is well formed under its key, no lease is held
  twice, and the index of idempotency keys lists exactly the messages that have one. Every
  operation preserves it; what each does to the messages is stated by key.
\<close>

section \<open>Names of leases\<close>

definition digitsValue :: "string \<Rightarrow> nat" where
  "digitsValue s = foldl (\<lambda>a c. a * 10 + (of_char c - 48)) 0 s"

lemma digitsValue_digits: "n < 10 ^ f \<Longrightarrow> 0 < f \<Longrightarrow> digitsValue (digits_aux f n) = n"
proof (induction f n rule: digits_aux.induct)
  case (2 f n)
  show ?case
  proof (cases "n < 10")
    case False
    with 2(2) have "0 < f" "n div 10 < 10 ^ f"
      by (cases f; simp add: less_mult_imp_div_less mult.commute)+
    with 2(1) [OF False] False show ?thesis by (simp add: digitsValue_def)
  qed (simp add: digitsValue_def)
qed simp

lemma js_string_of_nat_inject: "js_string_of_nat m = js_string_of_nat n \<longleftrightarrow> m = n"
proof -
  have "k < 10 ^ Suc k" for k :: nat by (induction k) auto
  then have "digitsValue (js_string_of_nat k) = k" for k
    using digitsValue_digits [of k "Suc k"] by (simp add: js_string_of_nat_def del: power_Suc)
  then show ?thesis by metis
qed

lemma heldAs_inject: "heldAs j m \<Longrightarrow> heldAs k m \<Longrightarrow> j = k"
  by (simp add: heldAs_def leaseName_def js_string_of_nat_inject)

section \<open>Claiming\<close>

text \<open>The fields that are fixed stay the same, and the count of attempts never falls.\<close>

definition movesOn :: "jsv \<Rightarrow> jsv \<Rightarrow> bool" where
  "movesOn m m' \<longleftrightarrow> sameExcept changing m m' \<and> tries m \<le> tries m'"

lemma movesOn_refl: "is_obj m \<Longrightarrow> movesOn m m"
  by (simp add: movesOn_def sameExcept_def)

lemma movesOn_trans: "movesOn m m' \<Longrightarrow> movesOn m' m'' \<Longrightarrow> movesOn m m''"
  by (auto simp: movesOn_def sameExcept_def)

lemma same_spread: "is_obj m \<Longrightarrow> fst ` set ups \<subseteq> set changing \<Longrightarrow> sameExcept changing m (spread m ups)"
  by (rule sameExcept_spread)

lemma leaseMessage_same: "leaseMessage input n m = Lease m' \<Longrightarrow> is_obj m \<Longrightarrow> sameExcept changing m m'"
  by (auto simp: leaseMessage_def Let_def changing_def simp del: spread.simps fld.simps fld_obj split: if_splits
      intro!: sameExcept_spread)

lemma claimMessage_same:
  assumes "claimMessage input n m = Lease m' \<or> claimMessage input n m = Replace m'" and "is_obj m"
  shows "sameExcept changing m m'"
proof (cases rule: claimMessage_cases [of input n m])
  case retake
  then have l: "leaseMessage input n (spread m (takenBack (fld input ''now'') m)) = Lease m'"
    using assms(1) leaseMessage_not_replace by metis
  have "sameExcept changing m (spread m (takenBack (fld input ''now'') m))"
    by (rule same_spread [OF assms(2)]) (simp add: takenBack_def changing_def)
  with leaseMessage_same [OF l] show ?thesis by (simp add: sameExcept_def)
next
  case lease
  then show ?thesis using assms leaseMessage_not_replace leaseMessage_same by metis
next
  case expire
  have "sameExcept changing m (spread m (expired (fld input ''now'')))"
    by (rule same_spread [OF assms(2)]) (simp add: expired_def changing_def)
  with expire(1) assms(1) show ?thesis by (simp del: spread.simps)
next
  case bury
  have "sameExcept changing m (spread m (buried (fld input ''now'') m))"
    by (rule same_spread [OF assms(2)]) (simp add: buried_def changing_def)
  with bury(1) assms(1) show ?thesis by (simp del: spread.simps)
qed (use assms in simp)

text \<open>What becomes of an entry: nothing, or it is replaced by a new object.\<close>

definition entryClaimed :: "jsv \<Rightarrow> nat \<Rightarrow> nat \<Rightarrow> jsv \<times> cell \<Rightarrow> jsv \<times> cell \<Rightarrow> bool" where
  "entryClaimed input low high e e' \<longleftrightarrow> fst e' = fst e
     \<and> (e' = e \<or> (\<exists>k. low \<le> k \<and> k < high \<and> claimMessage input k (snd (snd e)) = Lease (snd (snd e')))
        \<or> (\<exists>k. claimMessage input k (snd (snd e)) = Replace (snd (snd e'))))"

lemma entryClaimed_refl [simp]: "entryClaimed input low high e e"
  by (simp add: entryClaimed_def)

lemma entryClaimed_weaken: "entryClaimed input low high e e' \<Longrightarrow> low' \<le> low \<Longrightarrow> high \<le> high' \<Longrightarrow> entryClaimed input low' high' e e'"
  unfolding entryClaimed_def by (meson order_trans less_le_trans)

definition cellsOk :: "nat \<Rightarrow> cells \<Rightarrow> bool" where
  "cellsOk s cs \<longleftrightarrow> (\<forall>e \<in> set cs. messageOk s (fst e) (snd (snd e)))"

text \<open>Every message of the outbox has an object number of its own.\<close>

definition cellsNumbered :: "(nat \<Rightarrow> jsv) \<Rightarrow> nat \<Rightarrow> cells \<Rightarrow> bool" where
  "cellsNumbered heap n cs \<longleftrightarrow> (\<forall>e \<in> set cs. 0 < fst (snd e) \<and> fst (snd e) \<le> n \<and> heap (fst (snd e)) = snd (snd e))"

definition heldOnce :: "cells \<Rightarrow> bool" where
  "heldOnce cs \<longleftrightarrow> (\<forall>e \<in> set cs. \<forall>e' \<in> set cs. \<forall>k. heldAs k (snd (snd e)) \<longrightarrow> heldAs k (snd (snd e')) \<longrightarrow> fst e = fst e')"

lemma heldOnce_Cons: "heldOnce (e # cs) \<Longrightarrow> heldOnce cs"
  unfolding heldOnce_def by (meson list.set_intros(2))

lemma heldOnce_ConsI:
  assumes "heldOnce cs" and "\<And>k x. heldAs k (snd (snd e)) \<Longrightarrow> x \<in> set cs \<Longrightarrow> \<not> heldAs k (snd (snd x))"
  shows "heldOnce (e # cs)"
  unfolding heldOnce_def
proof (intro ballI allI impI)
  fix a b k
  assume "a \<in> set (e # cs)" "b \<in> set (e # cs)" and h: "heldAs k (snd (snd a))" "heldAs k (snd (snd b))"
  then consider "a = e" "b = e" | "a = e" "b \<in> set cs" | "a \<in> set cs" "b = e" | "a \<in> set cs" "b \<in> set cs" by auto
  then show "fst a = fst b"
    by cases (use assms(2) h in blast, use assms(2) h in blast, use assms(2) h in blast, use assms(1) h in \<open>unfold heldOnce_def, blast\<close>)
qed

lemma claimEntries_spec:
  assumes "claimEntries input cs quota sequence n = (ok, cs', claimed, sequence', n')"
    and "isOutboxClaimInput input" and "cellsOk s cs" and "s \<le> sequence"
  shows "ok \<and> sequence' = sequence + length claimed \<and> length claimed \<le> quota \<and> n \<le> n'
     \<and> list_all2 (entryClaimed input sequence sequence') cs cs' \<and> cellsOk sequence' cs'
     \<and> (\<forall>m \<in> set claimed. \<exists>e \<in> set cs'. snd (snd e) = m \<and> (\<exists>k. sequence < k \<and> heldAs k m))"
  using assms
proof (induction input cs quota sequence n arbitrary: ok cs' claimed sequence' n' s rule: claimEntries.induct)
  case (2 input key i m rest quota sequence n)
  have m: "messageOk s key m" and rest: "cellsOk s rest" using 2(6) by (simp_all add: cellsOk_def)
  show ?case
  proof (cases "quota = 0")
    case True
    then have e: "cs' = (key, i, m) # rest" "claimed = []" "sequence' = sequence" "n' = n" "ok"
      using 2(4) by (simp_all del: claimEntries.simps add: claimEntries.simps(2))
    have "list_all2 (entryClaimed input sequence sequence) xs xs" for xs
      by (induction xs) simp_all
    moreover have "cellsOk sequence cs'" using 2(6,7) messageOk_later e(1) unfolding cellsOk_def by blast
    ultimately show ?thesis using e by simp
  next
    case False
    show ?thesis
    proof (cases "claimMessage input sequence m")
      case Skip
      obtain o1 c1 l1 s1 n1 where r: "claimEntries input rest quota sequence n = (o1, c1, l1, s1, n1)" by (rule prod_cases5)
      with 2(4) False Skip have e: "cs' = (key, i, m) # c1" "claimed = l1" "sequence' = s1" "n' = n1" "ok = o1" by simp_all
      from 2(1) [OF False Skip r 2(5) rest 2(7)] messageOk_later [OF m, of s1] 2(7)
      show ?thesis unfolding e by (auto simp: cellsOk_def entryClaimed_def)
    next
      case (Replace u)
      obtain o1 c1 l1 s1 n1 where r: "claimEntries input rest quota sequence (Suc n) = (o1, c1, l1, s1, n1)" by (rule prod_cases5)
      with 2(4) False Replace have e: "cs' = (key, Suc n, u) # c1" "claimed = l1" "sequence' = s1" "n' = n1" "ok = o1" by simp_all
      have "messageOk s1 key u" if "sequence \<le> s1"
        using messageOk_later [OF claim_replace_ok(1) [OF Replace 2(5) m]] that 2(7) by simp
      with 2(2) [OF False Replace r 2(5) rest 2(7)] Replace
      show ?thesis unfolding e by (auto simp: cellsOk_def entryClaimed_def)
    next
      case (Lease u)
      note u = claim_lease_ok [OF Lease 2(5) m 2(7)]
      have copy: "cloneRecord u = Some u" using u(1) by (simp add: messageOk_def)
      obtain o1 c1 l1 s1 n1 where r: "claimEntries input rest (quota - 1) (Suc sequence) (Suc n) = (o1, c1, l1, s1, n1)"
        by (rule prod_cases5)
      with 2(4) False Lease copy have e: "cs' = (key, Suc n, u) # c1" "claimed = u # l1" "sequence' = s1" "n' = n1" "ok = o1"
        by simp_all
      have "s \<le> Suc sequence" using 2(7) by simp
      note ih = 2(3) [OF False Lease copy r 2(5) rest this]
      have "list_all2 (entryClaimed input sequence s1) rest c1"
        using ih entryClaimed_weaken [of input "Suc sequence" s1 _ _ sequence s1] by (auto elim: list_all2_mono)
      moreover have "messageOk s1 key u" using messageOk_later [OF u(1)] ih by simp
      moreover have "entryClaimed input sequence s1 (key, i, m) (key, Suc n, u)"
        unfolding entryClaimed_def using Lease ih by auto
      moreover have "\<forall>m \<in> set (u # l1). \<exists>e \<in> set cs'. snd (snd e) = m \<and> (\<exists>k. sequence < k \<and> heldAs k m)"
        using ih u(2) unfolding e by (auto dest: Suc_lessD)
      ultimately show ?thesis using ih False unfolding e by (auto simp: cellsOk_def)
    qed
  qed
qed (auto simp: cellsOk_def)

lemma claimEntries_held:
  assumes "claimEntries input cs quota sequence n = (ok, cs', claimed, sequence', n')"
    and "isOutboxClaimInput input" and "cellsOk s cs" and "s \<le> sequence" and "heldOnce cs" and "distinct (map fst cs)"
  shows "heldOnce cs'" and "\<forall>e \<in> set cs'. \<forall>k. heldAs k (snd (snd e)) \<longrightarrow> e \<in> set cs \<or> sequence < k"
proof -
  have "heldOnce cs' \<and> (\<forall>e \<in> set cs'. \<forall>k. heldAs k (snd (snd e)) \<longrightarrow> e \<in> set cs \<or> sequence < k)"
    using assms
  proof (induction input cs quota sequence n arbitrary: ok cs' claimed sequence' n' s rule: claimEntries.induct)
    case (2 input key i m rest quota sequence n)
    have m: "messageOk s key m" and rest: "cellsOk s rest" using 2(6) by (simp_all add: cellsOk_def)
    have once: "heldOnce rest" using 2(8) by (rule heldOnce_Cons)
    have dist: "distinct (map fst rest)" using 2(9) by simp
    have bound: "k \<le> sequence" if "heldAs k m" for k
      using m that heldAs_inject 2(7) unfolding messageOk_def progressOk_def
      by (auto dest: heldAs_inject simp: unheld_def) (auto simp: heldAs_def)
    have apart: "\<not> heldAs k (snd (snd e))" if "heldAs k m" "e \<in> set rest" for k e
    proof
      assume "heldAs k (snd (snd e))"
      with 2(8) that have "fst e = key" unfolding heldOnce_def by (metis fst_conv list.set_intros snd_conv)
      with that(2) 2(9) show False by (metis distinct.simps(2) fst_conv image_eqI list.set_map list.simps(9))
    qed
    show ?case
    proof (cases "quota = 0")
      case True
      then have "cs' = (key, i, m) # rest" using 2(4) by (simp del: claimEntries.simps add: claimEntries.simps(2))
      then show ?thesis using 2(8) by blast
    next
      case False
      show ?thesis
      proof (cases "claimMessage input sequence m")
        case Skip
        obtain o1 c1 l1 s1 n1 where r: "claimEntries input rest quota sequence n = (o1, c1, l1, s1, n1)" by (rule prod_cases5)
        with 2(4) False Skip have e: "cs' = (key, i, m) # c1" by simp
        note ih = 2(1) [OF False Skip r 2(5) rest 2(7) once dist]
        have "\<not> heldAs k (snd (snd x))" if "heldAs k m" "x \<in> set c1" for k x
          using ih that apart bound by (meson not_le)
        then have "heldOnce cs'" unfolding e using ih by (intro heldOnce_ConsI) auto
        with ih show ?thesis unfolding e by auto
      next
        case (Replace u)
        obtain o1 c1 l1 s1 n1 where r: "claimEntries input rest quota sequence (Suc n) = (o1, c1, l1, s1, n1)" by (rule prod_cases5)
        with 2(4) False Replace have e: "cs' = (key, Suc n, u) # c1" by simp
        note ih = 2(2) [OF False Replace r 2(5) rest 2(7) once dist]
        have none: "\<not> heldAs k u" for k
          using claim_replace_ok(2) [OF Replace 2(5) m] by (rule not_held) simp
        then have "heldOnce cs'" unfolding e using ih by (intro heldOnce_ConsI) auto
        with ih none show ?thesis unfolding e by auto
      next
        case (Lease u)
        note u = claim_lease_ok [OF Lease 2(5) m 2(7)]
        have copy: "cloneRecord u = Some u" using u(1) by (simp add: messageOk_def)
        obtain o1 c1 l1 s1 n1 where r: "claimEntries input rest (quota - 1) (Suc sequence) (Suc n) = (o1, c1, l1, s1, n1)"
          by (rule prod_cases5)
        with 2(4) False Lease copy have e: "cs' = (key, Suc n, u) # c1" by simp
        have "s \<le> Suc sequence" using 2(7) by simp
        note ih = 2(3) [OF False Lease copy r 2(5) rest this once dist]
        have small: "k \<le> sequence" if "heldAs k (snd (snd x))" "x \<in> set rest" for k x
        proof -
          have "messageOk s (fst x) (snd (snd x))" using rest that(2) by (simp add: cellsOk_def)
          moreover from that(1) have "fld (snd (snd x)) ''status'' = JStr ''claimed''" by (simp add: heldAs_def)
          ultimately show ?thesis using heldAs_tries heldAs_inject that(1) 2(7) by (metis order_trans)
        qed
        have "\<not> heldAs k (snd (snd x))" if "heldAs k u" "x \<in> set c1" for k x
        proof
          assume h: "heldAs k (snd (snd x))"
          have k: "k = Suc sequence" using that(1) u(2) by (rule heldAs_inject)
          with h ih that(2) have "x \<in> set rest" by (metis less_irrefl)
          with small [OF h] k show False by simp
        qed
        then have "heldOnce cs'" unfolding e using ih by (intro heldOnce_ConsI) auto
        moreover have "k = Suc sequence" if "heldAs k u" for k using that u(2) by (rule heldAs_inject)
        moreover have "x \<in> set rest \<or> sequence < k" if "x \<in> set c1" "heldAs k (snd (snd x))" for k x
          using ih that by (auto dest: Suc_lessD)
        ultimately show ?thesis unfolding e by auto
      qed
    qed
  qed (auto simp: heldOnce_def)
  then show "heldOnce cs'" "\<forall>e \<in> set cs'. \<forall>k. heldAs k (snd (snd e)) \<longrightarrow> e \<in> set cs \<or> sequence < k" by blast+
qed

lemma claimEntries_numbered:
  assumes "claimEntries input cs quota sequence n = (ok, cs', claimed, sequence', n')" and "cellsNumbered heap n cs"
  shows "\<exists>heap'. (\<forall>m \<le> n. heap' m = heap m) \<and> cellsNumbered heap' n' cs' \<and> n \<le> n'"
  using assms
proof (induction input cs quota sequence n arbitrary: heap ok cs' claimed sequence' n' rule: claimEntries.induct)
  case (2 input key i m rest quota sequence n)
  have head: "0 < i" "i \<le> n" "heap i = m" and rest: "cellsNumbered heap n rest" using 2(5) by (simp_all add: cellsNumbered_def)
  have new: "cellsNumbered (heap(Suc n := u)) (Suc n) rest" for u
    using rest unfolding cellsNumbered_def by auto
  have join: "\<exists>heap'. (\<forall>m \<le> n. heap' m = heap m) \<and> cellsNumbered heap' n1 ((key, Suc n, u) # c1) \<and> n \<le> n1"
    if r: "\<exists>heap'. (\<forall>m \<le> Suc n. heap' m = (heap(Suc n := u)) m) \<and> cellsNumbered heap' n1 c1 \<and> Suc n \<le> n1" for u n1 c1
  proof -
    from r obtain heap' where h: "\<forall>m \<le> Suc n. heap' m = (heap(Suc n := u)) m" "cellsNumbered heap' n1 c1" "Suc n \<le> n1" by blast
    have "\<forall>m \<le> n. heap' m = heap m" using h(1) by auto
    moreover have "cellsNumbered heap' n1 ((key, Suc n, u) # c1)" using h unfolding cellsNumbered_def by auto
    ultimately show ?thesis using h(3) by auto
  qed
  show ?case
  proof (cases "quota = 0")
    case True
    then have "cs' = (key, i, m) # rest \<and> n' = n" using 2(4) by (simp del: claimEntries.simps add: claimEntries.simps(2))
    then show ?thesis using 2(5) by blast
  next
    case False
    show ?thesis
    proof (cases "claimMessage input sequence m")
      case Skip
      obtain o1 c1 l1 s1 n1 where r: "claimEntries input rest quota sequence n = (o1, c1, l1, s1, n1)" by (rule prod_cases5)
      with 2(4) False Skip have e: "cs' = (key, i, m) # c1" "n' = n1" by simp_all
      from 2(1) [OF False Skip r rest] head show ?thesis
        unfolding e cellsNumbered_def by auto
    next
      case (Replace u)
      obtain o1 c1 l1 s1 n1 where r: "claimEntries input rest quota sequence (Suc n) = (o1, c1, l1, s1, n1)" by (rule prod_cases5)
      with 2(4) False Replace have e: "cs' = (key, Suc n, u) # c1" "n' = n1" by simp_all
      show ?thesis unfolding e by (rule join) (rule 2(2) [OF False Replace r new])
    next
      case (Lease u)
      show ?thesis
      proof (cases "cloneRecord u")
        case None
        with 2(4) False Lease have "cs' = (key, i, m) # rest" "n' = n" by simp_all
        then show ?thesis using 2(5) by blast
      next
        case (Some copy)
        obtain o1 c1 l1 s1 n1 where r: "claimEntries input rest (quota - 1) (Suc sequence) (Suc n) = (o1, c1, l1, s1, n1)"
          by (rule prod_cases5)
        with 2(4) False Lease Some have e: "cs' = (key, Suc n, copy) # c1" "n' = n1" by simp_all
        show ?thesis unfolding e by (rule join) (rule 2(3) [OF False Lease Some r new])
      qed
    qed
  qed
qed (auto simp: cellsNumbered_def)

section \<open>The invariant\<close>

definition idempotencyKeyOf :: "jsv \<Rightarrow> jsv" where
  "idempotencyKeyOf m = outboxKey (fld m ''tenantId'') (fld m ''idempotencyKey'')"

definition indexOk :: "cells \<Rightarrow> cells \<Rightarrow> bool" where
  "indexOk ms index \<longleftrightarrow>
     (\<forall>key i m. map_of ms key = Some (i, m) \<longrightarrow> fld m ''idempotencyKey'' \<noteq> JUndef \<longrightarrow>
        map_of index (idempotencyKeyOf m) = Some (0, fld m ''messageId''))
     \<and> (\<forall>k c. map_of index k = Some c \<longrightarrow> (\<exists>key i m. map_of ms key = Some (i, m) \<and> fld m ''idempotencyKey'' \<noteq> JUndef
          \<and> k = idempotencyKeyOf m \<and> c = (0, fld m ''messageId'')))"

definition outboxInv :: "outboxState \<Rightarrow> bool" where
  "outboxInv st \<longleftrightarrow> distinct (map fst (messages st)) \<and> distinct (map fst (idempotencyKeys st))
     \<and> cellsOk (leaseSequence st) (messages st) \<and> heldOnce (messages st)
     \<and> indexOk (messages st) (idempotencyKeys st)"

lemma cellsOkD: "cellsOk s cs \<Longrightarrow> map_of cs key = Some (i, m) \<Longrightarrow> messageOk s key m"
  unfolding cellsOk_def by (drule map_of_SomeD) (metis fst_conv snd_conv)

lemma cellsOkI: "(\<And>key i m. (key, (i, m)) \<in> set cs \<Longrightarrow> messageOk s key m) \<Longrightarrow> cellsOk s cs"
  unfolding cellsOk_def by auto

text \<open>A change of the messages that keeps their fixed fields.\<close>

definition movesEach :: "cells \<Rightarrow> cells \<Rightarrow> bool" where
  "movesEach cs cs' \<longleftrightarrow> (\<forall>key. rel_option (\<lambda>c c'. movesOn (snd c) (snd c')) (map_of cs key) (map_of cs' key))"

lemma movesEach_list_all2:
  "list_all2 (\<lambda>e e'. fst e' = fst e \<and> movesOn (snd (snd e)) (snd (snd e'))) cs cs' \<Longrightarrow> movesEach cs cs'"
  unfolding movesEach_def by (induction rule: list_all2_induct) auto

lemma movesEach_refl: "cellsOk s cs \<Longrightarrow> movesEach cs cs"
  unfolding movesEach_def
  by (auto simp: option.rel_refl_strong movesOn_refl messageOk_def dest!: cellsOkD intro!: option.rel_refl_strong)

lemma movesEach_update:
  assumes "map_of cs key = Some (i, m)" and "movesOn m m'" and "cellsOk s cs"
  shows "movesEach cs (AList.update key (j, m') cs)"
  using movesEach_refl [OF assms(3)] assms(1,2) unfolding movesEach_def by (auto simp: update_conv')

lemma movesEach_Some: "movesEach cs cs' \<Longrightarrow> map_of cs key = Some (i, m) \<Longrightarrow> \<exists>j m'. map_of cs' key = Some (j, m') \<and> movesOn m m'"
  unfolding movesEach_def by (drule spec [of _ key]) (auto simp: option_rel_Some1)

lemma movesEach_back: "movesEach cs cs' \<Longrightarrow> map_of cs' key = Some (j, m') \<Longrightarrow> \<exists>i m. map_of cs key = Some (i, m) \<and> movesOn m m'"
  unfolding movesEach_def by (drule spec [of _ key]) (auto simp: option_rel_Some2)

lemma movesOn_fixed:
  assumes "movesOn m m'"
  shows "fld m' ''idempotencyKey'' = fld m ''idempotencyKey''" and "fld m' ''messageId'' = fld m ''messageId''"
    and "fld m' ''tenantId'' = fld m ''tenantId''" and "idempotencyKeyOf m' = idempotencyKeyOf m"
    and "fld m' ''expiresAt'' = fld m ''expiresAt''"
  using assms by (simp_all add: movesOn_def sameExcept_def idempotencyKeyOf_def)

lemma indexOk_moves:
  assumes "indexOk ms index" and "movesEach ms ms'" shows "indexOk ms' index"
  unfolding indexOk_def
proof (intro conjI allI impI)
  fix key i m
  assume "map_of ms' key = Some (i, m)" "fld m ''idempotencyKey'' \<noteq> JUndef"
  then show "map_of index (idempotencyKeyOf m) = Some (0, fld m ''messageId'')"
    using movesEach_back [OF assms(2)] movesOn_fixed assms(1) unfolding indexOk_def by metis
next
  fix k c
  assume "map_of index k = Some c"
  then obtain key i m where m: "map_of ms key = Some (i, m)" "fld m ''idempotencyKey'' \<noteq> JUndef" "k = idempotencyKeyOf m"
    "c = (0, fld m ''messageId'')"
    using assms(1) unfolding indexOk_def by blast
  from movesEach_Some [OF assms(2) m(1)] obtain j m' where "map_of ms' key = Some (j, m')" "movesOn m m'" by blast
  with m movesOn_fixed show "\<exists>key i m. map_of ms' key = Some (i, m) \<and> fld m ''idempotencyKey'' \<noteq> JUndef
      \<and> k = idempotencyKeyOf m \<and> c = (0, fld m ''messageId'')"
    by metis
qed

end
