(* ===== verification/OutboxEnqueue.thy ===== *)
theory OutboxEnqueue
  imports OutboxInvariant
begin

text \<open>
  What \<open>enqueueBatch\<close> does, without its loops: a batch is accepted when its messages and their
  idempotency keys are distinct and the messages that are not known by their key are new; then
  these are appended in order, and each position of the answer is the message stored under its key.
\<close>

section \<open>Keys\<close>

lemma joinKey_inject:
  assumes "no_control a" and "no_control a'" and "joinKey [JStr a, v] = joinKey [JStr a', v']"
  shows "a = a' \<and> template v = template v'"
proof -
  have nul: "CHR 0x00 \<notin> set x" if "no_control x" for x
    using that by (auto simp: no_control_def is_control_def list_all_iff)
  have "a @ CHR 0x00 # template v = a' @ CHR 0x00 # template v'" using assms(3) by simp
  moreover have "x = x' \<and> y = y'" if "x @ CHR 0x00 # y = x' @ CHR 0x00 # y'" "CHR 0x00 \<notin> set x" "CHR 0x00 \<notin> set x'" for x x' y y'
    using that
  proof (induction x arbitrary: x')
    case Nil
    then show ?case by (cases x') auto
  next
    case (Cons c x)
    then show ?case by (cases x') auto
  qed
  ultimately show ?thesis using nul assms(1,2) by metis
qed

lemma isSafeText_elim: "isSafeText v n b \<Longrightarrow> (\<And>s. v = JStr s \<Longrightarrow> no_control s \<Longrightarrow> thesis) \<Longrightarrow> thesis"
  using isSafeText_JStr by blast

lemma outboxKey_inject:
  assumes "isSafeText t n b" and "isSafeText t' n' b'" and "isSafeText v k c" and "isSafeText v' k' c'"
    and "outboxKey t v = outboxKey t' v'"
  shows "t = t' \<and> v = v'"
  using assms(1-4)
proof (elim isSafeText_elim)
  fix a a' x x'
  assume "t = JStr a" "t' = JStr a'" "v = JStr x" "v' = JStr x'" "no_control a" "no_control a'"
  with joinKey_inject [of a a' v v'] assms(5) show ?thesis by (simp add: outboxKey_def)
qed

definition messageKeyOf :: "jsv \<Rightarrow> jsv" where
  "messageKeyOf m = outboxKey (fld m ''tenantId'') (fld m ''messageId'')"

definition hasIdempotencyKey :: "jsv \<Rightarrow> bool" where
  "hasIdempotencyKey m \<longleftrightarrow> fld m ''idempotencyKey'' \<noteq> JUndef"

lemma isSafeText_truthy: "isSafeText v n True \<Longrightarrow> truthy v"
  by (cases v) auto

lemma fld_obj_key: "fld m k \<noteq> JUndef \<Longrightarrow> k \<in> set (obj_keys m)"
  by (cases m) (force split: option.splits dest: map_of_SomeD)+

section \<open>New messages\<close>

definition newMessage :: "jsv \<Rightarrow> bool" where
  "newMessage m \<longleftrightarrow> cloneRecord m = Some m \<and> isNewPersistableOutboxMessage m"

lemma is_obj_read: "fld m k \<noteq> JUndef \<Longrightarrow> is_obj m"
  by (cases m) auto

lemma newMessageD:
  assumes "newMessage m"
  shows "cloneRecord m = Some m" and "is_obj m" and "identityOk (messageKeyOf m) m" and "unheld ''pending'' m"
    and "fld m ''attempts'' = JNum 0" and "fld m ''lease'' = JUndef"
proof -
  have new: "isNewPersistableOutboxMessage m" and copy: "cloneRecord m = Some m" using assms by (simp_all add: newMessage_def)
  from new have only: "hasOnlyKeys m outboxKeys"
    by (simp only: isNewPersistableOutboxMessage_def)
  have "''lease'' \<notin> set outboxKeys" by (simp add: outboxKeys_def)
  with only have "''lease'' \<notin> set (obj_keys m)" unfolding hasOnlyKeys_def list_all_iff by blast
  then show lease: "fld m ''lease'' = JUndef" using fld_obj_key by metis
  from new have parts: "fld m ''type'' = JStr ''delivery''" "isSafeText (fld m ''tenantId'') 512 True"
    "isSafeText (fld m ''messageId'') 512 True" "isPositiveInteger (fld m ''maxAttempts'')"
    "fld m ''status'' = JStr ''pending''" "fld m ''attempts'' = JNum 0"
    by - (simp only: isNewPersistableOutboxMessage_def)+
  then show "is_obj m" by (intro is_obj_read [of m "''type''"]) simp
  show "fld m ''attempts'' = JNum 0" by (rule parts(6))
  show "unheld ''pending'' m" using parts(5) lease by (simp add: unheld_def del: fld.simps)
  have "fld m ''idempotencyKey'' \<noteq> JUndef \<longrightarrow> isSafeText (fld m ''idempotencyKey'') 512 True"
  proof
    assume "fld m ''idempotencyKey'' \<noteq> JUndef"
    with new show "isSafeText (fld m ''idempotencyKey'') 512 True"
      by (simp only: isNewPersistableOutboxMessage_def if_False)
  qed
  with parts(1-4) show "identityOk (messageKeyOf m) m" by (simp only: identityOk_def messageKeyOf_def simp_thms)
  show "cloneRecord m = Some m" by (rule copy)
qed

lemma newMessage_ok: "newMessage m \<Longrightarrow> messageOk s (messageKeyOf m) m"
  using newMessageD [of m]
  by (auto simp: messageOk_def progressOk_def tries_def mostTries_def identityOk_def isPositiveInteger_def max_safe_integer_def
      simp del: fld.simps isSafeText.simps cloneRecord.simps)

lemma snapshotMessages_new: "snapshotMessages ms = Some new \<Longrightarrow> m \<in> set new \<Longrightarrow> newMessage m"
  by (induction ms arbitrary: new) (auto simp: newMessage_def dest: snapshotRecord_SomeD split: option.splits)

section \<open>The batch\<close>

text \<open>A message whose idempotency key, if it has one, is not in the index.\<close>

definition isFresh :: "outboxState \<Rightarrow> jsv \<Rightarrow> bool" where
  "isFresh current m \<longleftrightarrow> \<not> (hasIdempotencyKey m \<and> map_of (idempotencyKeys current) (idempotencyKeyOf m) \<noteq> None)"

definition storedUnder :: "outboxState \<Rightarrow> jsv \<Rightarrow> jsv" where
  "storedUnder current m = contentOf (map_of (messages current)
     (outboxKey (fld m ''tenantId'') (contentOf (map_of (idempotencyKeys current) (idempotencyKeyOf m)))))"

definition acknowledged :: "outboxState \<Rightarrow> jsv \<Rightarrow> jsv" where
  "acknowledged current m = (if isFresh current m then m else withoutLease (storedUnder current m))"

definition batchAccepted :: "outboxState \<Rightarrow> jsv list \<Rightarrow> bool" where
  "batchAccepted current ms \<longleftrightarrow> distinct (map messageKeyOf ms)
     \<and> distinct (map idempotencyKeyOf (filter hasIdempotencyKey ms))
     \<and> (\<forall>m \<in> set ms. isFresh current m \<longrightarrow> map_of (messages current) (messageKeyOf m) = None)"

definition stagingOf :: "outboxState \<Rightarrow> jsv list \<Rightarrow> staging" where
  "stagingOf current ms =
     \<lparr>seenMessageIds = map messageKeyOf ms,
      seenIdempotencyKeys = map idempotencyKeyOf (filter hasIdempotencyKey ms),
      stagedMessages = map (\<lambda>m. (messageKeyOf m, m)) (filter (isFresh current) ms),
      stagedIdempotencyKeys = map (\<lambda>m. (idempotencyKeyOf m, fld m ''messageId''))
        (filter hasIdempotencyKey (filter (isFresh current) ms)),
      stagedResult = map (acknowledged current) ms\<rparr>"

lemma stagingOf_start: "stagingOf current [] = startStaging"
  by (simp add: stagingOf_def startStaging_def)

lemma batchAccepted_prefix: "batchAccepted current (xs @ ys) \<Longrightarrow> batchAccepted current xs"
  by (auto simp: batchAccepted_def)

lemma outboxInvD:
  assumes "outboxInv st"
  shows "distinct (map fst (messages st))" and "distinct (map fst (idempotencyKeys st))"
    and "cellsOk (leaseSequence st) (messages st)" and "heldOnce (messages st)"
    and "indexOk (messages st) (idempotencyKeys st)"
  using assms by (simp_all add: outboxInv_def)

lemma stored_under_key:
  assumes inv: "outboxInv current" and m: "newMessage m" and known: "\<not> isFresh current m"
  obtains key i e where "map_of (messages current) key = Some (i, e)" and "storedUnder current m = e"
    and "key = outboxKey (fld m ''tenantId'') (contentOf (map_of (idempotencyKeys current) (idempotencyKeyOf m)))"
    and "truthy (contentOf (map_of (idempotencyKeys current) (idempotencyKeyOf m)))"
    and "fld e ''idempotencyKey'' = fld m ''idempotencyKey''" and "fld e ''tenantId'' = fld m ''tenantId''"
    and "messageOk (leaseSequence current) key e"
proof -
  from known obtain c where c: "map_of (idempotencyKeys current) (idempotencyKeyOf m) = Some c" and has: "hasIdempotencyKey m"
    by (auto simp: isFresh_def)
  with outboxInvD(5) [OF inv] obtain key i e where e: "map_of (messages current) key = Some (i, e)"
    "fld e ''idempotencyKey'' \<noteq> JUndef" "idempotencyKeyOf m = idempotencyKeyOf e" "c = (0, fld e ''messageId'')"
    unfolding indexOk_def by blast
  have ok: "messageOk (leaseSequence current) key e" by (rule cellsOkD [OF outboxInvD(3) [OF inv] e(1)])
  then have ide: "identityOk key e" by (simp add: messageOk_def)
  have idm: "identityOk (messageKeyOf m) m" by (rule newMessageD(3) [OF m])
  have "fld m ''tenantId'' = fld e ''tenantId'' \<and> fld m ''idempotencyKey'' = fld e ''idempotencyKey''"
    by (rule outboxKey_inject [where n = 512 and n' = 512 and k = 512 and k' = 512 and b = True and b' = True and c = True and c' = True])
      (use ide idm e(2,3) has in \<open>simp_all add: identityOk_def hasIdempotencyKey_def idempotencyKeyOf_def del: isSafeText.simps fld.simps\<close>)
  then have same: "fld e ''tenantId'' = fld m ''tenantId''" "fld e ''idempotencyKey'' = fld m ''idempotencyKey''" by simp_all
  have content: "contentOf (map_of (idempotencyKeys current) (idempotencyKeyOf m)) = fld e ''messageId''"
    using c e(4) by (simp add: contentOf_def del: fld.simps)
  have key: "key = outboxKey (fld e ''tenantId'') (fld e ''messageId'')" and id: "isSafeText (fld e ''messageId'') 512 True"
    using ide by - (simp only: identityOk_def)+
  have "storedUnder current m = e"
    unfolding storedUnder_def content same(1) [symmetric] key [symmetric] by (simp add: contentOf_def e(1))
  then show thesis
    by (rule that [OF e(1) _ _ _ same(2,1) ok]) (simp_all only: content key same isSafeText_truthy [OF id])
qed

lemma stageMessage_spec:
  assumes inv: "outboxInv current" and m: "newMessage m" and prior: "batchAccepted current seen"
  shows "stageMessage current m (stagingOf current seen) =
    Ret (if batchAccepted current (seen @ [m]) then Some (stagingOf current (seen @ [m])) else None)"
proof -
  have copy: "cloneRecord m = Some m" by (rule newMessageD(1) [OF m])
  have key: "outboxKey (fld m ''tenantId'') (fld m ''messageId'') = messageKeyOf m" by (simp add: messageKeyOf_def)
  have ikey: "outboxKey (fld m ''tenantId'') (fld m ''idempotencyKey'') = idempotencyKeyOf m" by (simp add: idempotencyKeyOf_def)
  have acc: "batchAccepted current (seen @ [m]) \<longleftrightarrow> messageKeyOf m \<notin> set (map messageKeyOf seen)
     \<and> (hasIdempotencyKey m \<longrightarrow> idempotencyKeyOf m \<notin> set (map idempotencyKeyOf (filter hasIdempotencyKey seen)))
     \<and> (isFresh current m \<longrightarrow> map_of (messages current) (messageKeyOf m) = None)"
    using prior by (auto simp: batchAccepted_def)
  show ?thesis
  proof (cases "messageKeyOf m \<in> set (map messageKeyOf seen)")
    case True
    then show ?thesis unfolding stageMessage_def key acc by (simp add: stagingOf_def Let_def)
  next
    case new: False
    show ?thesis
    proof (cases "hasIdempotencyKey m")
      case False
      then have "isFresh current m" "fld m ''idempotencyKey'' = JUndef" by (simp_all add: isFresh_def hasIdempotencyKey_def)
      with False new show ?thesis
        unfolding stageMessage_def key acc
        by (simp add: stagingOf_def stageNew_def copy Let_def acknowledged_def del: fld.simps)
    next
      case has: True
      then have some: "fld m ''idempotencyKey'' \<noteq> JUndef" by (simp add: hasIdempotencyKey_def)
      show ?thesis
      proof (cases "idempotencyKeyOf m \<in> set (map idempotencyKeyOf (filter hasIdempotencyKey seen))")
        case True
        then show ?thesis unfolding stageMessage_def key ikey acc using new some has
          by (simp add: stagingOf_def Let_def del: fld.simps)
      next
        case inew: False
        show ?thesis
        proof (cases "isFresh current m")
          case True
          then have "map_of (idempotencyKeys current) (idempotencyKeyOf m) = None" using has by (simp add: isFresh_def del: not_None_eq)
          then have none: "\<not> truthy (contentOf (map_of (idempotencyKeys current) (idempotencyKeyOf m)))" by (simp add: contentOf_def)
          show ?thesis unfolding stageMessage_def key ikey acc using new some has inew True none
            by (simp add: stagingOf_def stageNew_def copy Let_def acknowledged_def del: fld.simps)
        next
          case False
          from stored_under_key [OF inv m False] obtain key i e where
            e: "map_of (messages current) key = Some (i, e)" "storedUnder current m = e"
              "key = outboxKey (fld m ''tenantId'') (contentOf (map_of (idempotencyKeys current) (idempotencyKeyOf m)))"
              "truthy (contentOf (map_of (idempotencyKeys current) (idempotencyKeyOf m)))"
              "messageOk (leaseSequence current) key e" by metis
          have copy: "cloneRecord e = Some e" using e(5) by (simp add: messageOk_def)
          show ?thesis unfolding stageMessage_def key ikey acc using new some has inew False e(1,2,4) copy e(3) [symmetric]
            by (simp add: stagingOf_def Let_def acknowledged_def del: fld.simps)
        qed
      qed
    qed
  qed
qed

lemma stageMessages_spec:
  assumes inv: "outboxInv current" and new: "\<forall>m \<in> set ms. newMessage m" and seen: "batchAccepted current seen"
  shows "stageMessages current ms (stagingOf current seen) =
    Ret (if batchAccepted current (seen @ ms) then Some (stagingOf current (seen @ ms)) else None)"
  using new seen
proof (induction ms arbitrary: seen)
  case (Cons m ms)
  have m: "newMessage m" using Cons.prems(1) by simp
  show ?case
  proof (cases "batchAccepted current (seen @ [m])")
    case True
    with Cons.IH [OF _ True] Cons.prems(1) show ?thesis
      using stageMessage_spec [OF inv m Cons.prems(2)] by simp
  next
    case False
    then have "\<not> batchAccepted current (seen @ m # ms)" using batchAccepted_prefix [of current "seen @ [m]" ms] by auto
    with False show ?thesis using stageMessage_spec [OF inv m Cons.prems(2)] by simp
  qed
qed simp

section \<open>Storing\<close>

fun newCells :: "nat \<Rightarrow> jsv list \<Rightarrow> cells" where
  "newCells n [] = []"
| "newCells n (m # ms) = (messageKeyOf m, (Suc n, m)) # newCells (Suc n) ms"

definition newIndex :: "jsv list \<Rightarrow> cells" where
  "newIndex ms = map (\<lambda>m. (idempotencyKeyOf m, (0, fld m ''messageId''))) (filter hasIdempotencyKey ms)"

lemma update_new: "k \<notin> fst ` set al \<Longrightarrow> AList.update k v al = al @ [(k, v)]"
  by (induction al) auto

lemma newCells_keys [simp]: "map fst (newCells n ms) = map messageKeyOf ms"
  by (induction ms arbitrary: n) simp_all

lemma newCells_in: "e \<in> set (newCells n ms) \<Longrightarrow> \<exists>m \<in> set ms. fst e = messageKeyOf m \<and> snd (snd e) = m \<and> n < fst (snd e) \<and> fst (snd e) \<le> n + length ms"
  by (induction ms arbitrary: n) fastforce+

lemma storeMessages_new:
  assumes "\<forall>m \<in> set ms. newMessage m" and "distinct (map messageKeyOf ms)" and "\<forall>m \<in> set ms. messageKeyOf m \<notin> fst ` set cs"
  shows "storeMessages (map (\<lambda>m. (messageKeyOf m, m)) ms) n cs = (True, n + length ms, cs @ newCells n ms)"
  using assms
proof (induction ms arbitrary: n cs)
  case (Cons m ms)
  have copy: "cloneRecord m = Some m" using Cons.prems(1) newMessageD(1) by simp
  have "AList.update (messageKeyOf m) (Suc n, m) cs = cs @ [(messageKeyOf m, (Suc n, m))]"
    by (rule update_new) (use Cons.prems(3) in simp)
  moreover have "\<forall>m' \<in> set ms. messageKeyOf m' \<notin> fst ` set (cs @ [(messageKeyOf m, (Suc n, m))])"
    using Cons.prems(2,3) by (auto simp: image_iff)
  moreover have "\<forall>m \<in> set ms. newMessage m" "distinct (map messageKeyOf ms)" using Cons.prems(1,2) by auto
  ultimately show ?case using Cons.IH copy by simp
qed simp

lemma storeIndex_new:
  assumes "distinct (map fst new)" and "\<forall>e \<in> set new. fst e \<notin> fst ` set cs"
  shows "storeIndex new cs = cs @ map (\<lambda>(k, v). (k, (0, v))) new"
  using assms
proof (induction new cs rule: storeIndex.induct)
  case (2 key messageId rest cs)
  then have "AList.update key (0, messageId) cs = cs @ [(key, (0, messageId))]" by (intro update_new) simp
  with 2 show ?case by auto
qed simp

lemma map_of_app: "map_of (xs @ ys) k = (case map_of xs k of None \<Rightarrow> map_of ys k | Some v \<Rightarrow> Some v)"
  by (simp add: map_add_def)

text \<open>The outbox after an accepted batch.\<close>

definition afterBatch :: "outboxState \<Rightarrow> jsv list \<Rightarrow> nat \<Rightarrow> outboxState" where
  "afterBatch current ms n = current\<lparr>messages := messages current @ newCells n (filter (isFresh current) ms),
     idempotencyKeys := idempotencyKeys current @ newIndex (filter (isFresh current) ms)\<rparr>"

lemma accepted_new_keys:
  assumes "batchAccepted current ms" and "m \<in> set (filter (isFresh current) ms)"
  shows "messageKeyOf m \<notin> fst ` set (messages current)"
    and "hasIdempotencyKey m \<Longrightarrow> idempotencyKeyOf m \<notin> fst ` set (idempotencyKeys current)"
  using assms by (auto simp: batchAccepted_def isFresh_def map_of_eq_None_iff)

lemma distinct_newIndex: "batchAccepted current ms \<Longrightarrow> distinct (map fst (newIndex (filter p ms)))"
proof -
  have e: "filter hasIdempotencyKey (filter p ms) = filter p (filter hasIdempotencyKey ms)"
    by (simp add: conj_commute)
  show "batchAccepted current ms \<Longrightarrow> distinct (map fst (newIndex (filter p ms)))"
    unfolding newIndex_def e by (simp add: batchAccepted_def comp_def distinct_map_filter del: filter_filter)
qed

lemma newIndex_map_of:
  assumes "map_of (newIndex ms) k = Some c"
  obtains m where "m \<in> set ms" and "hasIdempotencyKey m" and "k = idempotencyKeyOf m" and "c = (0, fld m ''messageId'')"
  using map_of_SomeD [OF assms] by (auto simp: newIndex_def simp del: fld.simps)

lemma newIndex_lookup:
  assumes "distinct (map fst (newIndex ms))" and "m \<in> set ms" and "hasIdempotencyKey m"
  shows "map_of (newIndex ms) (idempotencyKeyOf m) = Some (0, fld m ''messageId'')"
  by (rule map_of_is_SomeI [OF assms(1)]) (use assms(2,3) in \<open>force simp: newIndex_def simp del: fld.simps\<close>)

lemma afterBatch_inv:
  assumes inv: "outboxInv current" and new: "\<forall>m \<in> set ms. newMessage m" and acc: "batchAccepted current ms"
  shows "outboxInv (afterBatch current ms n)"
proof -
  let ?fresh = "filter (isFresh current) ms"
  let ?ms = "messages current @ newCells n ?fresh"
  let ?ix = "idempotencyKeys current @ newIndex ?fresh"
  note I = outboxInvD [OF inv]
  have keys: "distinct (map fst ?ms)"
  proof -
    have "distinct (map messageKeyOf ?fresh)" using acc by (simp add: batchAccepted_def distinct_map_filter)
    moreover have "set (map fst (messages current)) \<inter> set (map messageKeyOf ?fresh) = {}"
      using accepted_new_keys(1) [OF acc] by force
    ultimately show ?thesis using I(1) by (simp only: map_append newCells_keys distinct_append)
  qed
  have ikeys: "distinct (map fst ?ix)"
  proof -
    have "k \<notin> set (map fst (idempotencyKeys current))" if "k \<in> set (map fst (newIndex ?fresh))" for k
    proof -
      from that obtain m where "m \<in> set ?fresh" "hasIdempotencyKey m" "k = idempotencyKeyOf m"
        by (auto simp: newIndex_def)
      with accepted_new_keys(2) [OF acc] show ?thesis by (simp only: list.set_map not_False_eq_True)
    qed
    then have "set (map fst (idempotencyKeys current)) \<inter> set (map fst (newIndex ?fresh)) = {}"
      by (intro equals0I) (elim IntE, blast)
    with I(2) distinct_newIndex [OF acc, of "isFresh current"] show ?thesis by (simp only: map_append distinct_append)
  qed
  have pending: "unheld ''pending'' (snd (snd e))" if "e \<in> set (newCells n ?fresh)" for e
    using newCells_in [OF that] new newMessageD(4) by auto
  have "messageOk (leaseSequence current) (fst e) (snd (snd e))" if "e \<in> set (newCells n ?fresh)" for e
    using newCells_in [OF that] new newMessage_ok by auto
  with I(3) have ok: "cellsOk (leaseSequence current) ?ms" by (simp add: cellsOk_def ball_Un)
  have "\<not> heldAs k (snd (snd e))" if "e \<in> set (newCells n ?fresh)" for k e
    by (rule not_held [OF pending [OF that]]) simp
  with I(4) have once: "heldOnce ?ms" unfolding heldOnce_def set_append by (meson Un_iff)
  have found: "map_of ?ms (messageKeyOf m) = Some (i, m)"
    if "(messageKeyOf m, (i, m)) \<in> set (newCells n ?fresh)" for m i
    by (rule map_of_is_SomeI [OF keys]) (use that in simp)
  have fresh_cell: "\<exists>i. (messageKeyOf m, (i, m)) \<in> set (newCells k fs)" if "m \<in> set fs" for m k fs
    using that by (induction fs arbitrary: k) fastforce+
  have index: "indexOk ?ms ?ix"
    unfolding indexOk_def
  proof (intro conjI allI impI)
    fix key i m
    assume m: "map_of ?ms key = Some (i, m)" and has: "fld m ''idempotencyKey'' \<noteq> JUndef"
    show "map_of ?ix (idempotencyKeyOf m) = Some (0, fld m ''messageId'')"
    proof (cases "map_of (messages current) key")
      case (Some c)
      with m have "map_of (messages current) key = Some (i, m)" by (simp add: map_of_app del: map_of_append)
      with I(5) has show ?thesis unfolding indexOk_def by (simp add: map_of_app del: fld.simps map_of_append)
    next
      case None
      with m have "(key, (i, m)) \<in> set (newCells n ?fresh)" by (auto simp: map_of_app dest: map_of_SomeD simp del: map_of_append)
      from newCells_in [OF this] have mem: "m \<in> set ?fresh" by auto
      then have "map_of (idempotencyKeys current) (idempotencyKeyOf m) = None"
        using accepted_new_keys(2) [OF acc mem] has by (simp add: hasIdempotencyKey_def map_of_eq_None_iff del: fld.simps)
      with newIndex_lookup [OF distinct_newIndex [OF acc] mem] has show ?thesis
        by (simp add: map_of_app hasIdempotencyKey_def del: fld.simps map_of_append)
    qed
  next
    fix k c
    assume c: "map_of ?ix k = Some c"
    show "\<exists>key i m. map_of ?ms key = Some (i, m) \<and> fld m ''idempotencyKey'' \<noteq> JUndef \<and> k = idempotencyKeyOf m
        \<and> c = (0, fld m ''messageId'')"
    proof (cases "map_of (idempotencyKeys current) k")
      case (Some c')
      with c have "map_of (idempotencyKeys current) k = Some c" by (simp add: map_of_app del: map_of_append)
      with I(5) obtain key i m where "map_of (messages current) key = Some (i, m)" "fld m ''idempotencyKey'' \<noteq> JUndef"
        "k = idempotencyKeyOf m" "c = (0, fld m ''messageId'')"
        unfolding indexOk_def by blast
      moreover from this(1) have "map_of ?ms key = Some (i, m)" by (simp add: map_of_app del: map_of_append)
      ultimately show ?thesis by blast
    next
      case None
      with c have "map_of (newIndex ?fresh) k = Some c" by (simp add: map_of_app del: map_of_append)
      from newIndex_map_of [OF this] obtain m where m: "m \<in> set ?fresh" "hasIdempotencyKey m" "k = idempotencyKeyOf m"
        "c = (0, fld m ''messageId'')" by metis
      from fresh_cell [OF m(1)] found obtain i where "map_of ?ms (messageKeyOf m) = Some (i, m)" by blast
      with m(2-4) show ?thesis unfolding hasIdempotencyKey_def by blast
    qed
  qed
  show ?thesis using keys ikeys ok once index by (simp add: outboxInv_def afterBatch_def)
qed

section \<open>The specification of enqueueBatch\<close>

text \<open>The copies of the messages of an input that is well formed and within its bounds.\<close>

definition admittedBatch :: "(jsv \<Rightarrow> string) \<Rightarrow> jsv \<Rightarrow> jsv list option" where
  "admittedBatch scalarText input =
     (if is_arr (fld input ''messages'') \<and> length (arr_elems (fld input ''messages'')) \<le> 1000
      then (case snapshotMessages (arr_elems (fld input ''messages'')) of
              None \<Rightarrow> None
            | Some ms \<Rightarrow> if payloadWithin scalarText 0 ms then Some ms else None)
      else None)"

lemma admittedBatch_new: "admittedBatch scalarText input = Some ms \<Longrightarrow> \<forall>m \<in> set ms. newMessage m"
  by (auto simp: admittedBatch_def intro: snapshotMessages_new split: if_splits option.splits simp del: fld.simps)

lemma outboxEnqueueBatch_spec:
  assumes "memoryOutboxStateFor w tx = Some current" and "outboxInv current"
  shows "outboxEnqueueBatch scalarText input tx w =
    (case admittedBatch scalarText input of
       None \<Rightarrow> refuseOutbox ''OUTBOX_ENQUEUE_FAILED'' w
     | Some ms \<Rightarrow>
         if batchAccepted current ms then
           (Ret (memOk (JArr (map (acknowledged current) ms))),
            putOutboxState tx (afterBatch current ms (outboxAllocated w))
              (outboxAllocated w + length (filter (isFresh current) ms)) w)
         else refuseOutbox ''OUTBOX_ENQUEUE_FAILED'' w)"
proof (cases "admittedBatch scalarText input")
  case None
  then show ?thesis
    by (auto simp: outboxEnqueueBatch_def assms(1) admittedBatch_def simp del: fld.simps split: option.splits if_splits)
next
  case (Some ms)
  then have adm: "is_arr (fld input ''messages'')" "\<not> 1000 < length (arr_elems (fld input ''messages''))"
    "snapshotMessages (arr_elems (fld input ''messages'')) = Some ms" "payloadWithin scalarText 0 ms"
    by (auto simp: admittedBatch_def simp del: fld.simps split: option.splits if_splits)
  have new: "\<forall>m \<in> set ms. newMessage m" by (rule admittedBatch_new [OF Some])
  have stage: "stageMessages current ms startStaging
      = Ret (if batchAccepted current ms then Some (stagingOf current ms) else None)"
    using stageMessages_spec [OF assms(2) new, of "[]"] by (simp add: stagingOf_start batchAccepted_def)
  show ?thesis
  proof (cases "batchAccepted current ms")
    case False
    with stage show ?thesis by (simp add: outboxEnqueueBatch_def assms(1) Some adm del: fld.simps)
  next
    case acc: True
    let ?fresh = "filter (isFresh current) ms"
    have dist: "distinct (map messageKeyOf ?fresh)" using acc by (simp add: batchAccepted_def distinct_map_filter)
    have store: "storeMessages (map (\<lambda>m. (messageKeyOf m, m)) ?fresh) (outboxAllocated w) (messages current)
      = (True, outboxAllocated w + length ?fresh, messages current @ newCells (outboxAllocated w) ?fresh)"
      by (rule storeMessages_new [OF _ dist]) (use new accepted_new_keys(1) [OF acc] in auto)
    have index: "storeIndex (map (\<lambda>m. (idempotencyKeyOf m, fld m ''messageId'')) (filter hasIdempotencyKey ?fresh)) (idempotencyKeys current)
      = idempotencyKeys current @ newIndex ?fresh"
      by (subst storeIndex_new)
        (use distinct_newIndex [OF acc, of "isFresh current"] accepted_new_keys(2) [OF acc]
          in \<open>auto simp: newIndex_def comp_def simp del: fld.simps\<close>)
    show ?thesis
      using acc stage store index
      by (simp add: outboxEnqueueBatch_def assms(1) Some adm stagingOf_def afterBatch_def Let_def del: fld.simps)
  qed
qed

end
