(* ===== verification/OutboxSteps.thy ===== *)
theory OutboxSteps
  imports OutboxEnqueue "HOL-Library.Multiset"
begin

text \<open>
  Every operation of the memory outbox preserves its invariant and numbers its new objects, and
  leaves alone a message that another worker holds.
\<close>

section \<open>Steps of the outbox\<close>

definition advances :: "(nat \<Rightarrow> jsv) \<Rightarrow> nat \<Rightarrow> outboxState \<Rightarrow> nat \<Rightarrow> outboxState \<Rightarrow> bool" where
  "advances heap n st n' st' \<longleftrightarrow> outboxInv st' \<and> n \<le> n' \<and> leaseSequence st \<le> leaseSequence st'
     \<and> (\<exists>heap'. (\<forall>m \<le> n. heap' m = heap m) \<and> cellsNumbered heap' n' (messages st'))"

lemma advances_same: "outboxInv st \<Longrightarrow> cellsNumbered heap n (messages st) \<Longrightarrow> advances heap n st n st"
  by (auto simp: advances_def)

lemma movesEach_claimed:
  assumes "list_all2 (entryClaimed input low high) cs cs'" and "cellsOk s cs" and "isOutboxClaimInput input" and "s \<le> low"
  shows "movesEach cs cs'"
proof (rule movesEach_list_all2)
  have "fst e' = fst e \<and> movesOn (snd (snd e)) (snd (snd e'))"
    if "e \<in> set cs" "entryClaimed input low high e e'" for e e'
  proof -
    have m: "messageOk s (fst e) (snd (snd e))" using that(1) assms(2) by (simp add: cellsOk_def)
    then have o: "is_obj (snd (snd e))" by (simp add: messageOk_def)
    from that(2) consider "e' = e"
      | k where "low \<le> k" "claimMessage input k (snd (snd e)) = Lease (snd (snd e'))"
      | k where "claimMessage input k (snd (snd e)) = Replace (snd (snd e'))"
      unfolding entryClaimed_def by blast
    then have "movesOn (snd (snd e)) (snd (snd e'))"
    proof cases
      case 2
      with claim_lease_ok(3) [OF 2(2) assms(3) m] claimMessage_same [of input k] o assms(4) show ?thesis by (simp add: movesOn_def)
    next
      case 3
      with claim_replace_ok(3) [OF 3 assms(3) m] claimMessage_same [of input k] o show ?thesis by (simp add: movesOn_def)
    qed (simp add: movesOn_refl o)
    with that(2) show ?thesis by (simp add: entryClaimed_def)
  qed
  with assms(1) show "list_all2 (\<lambda>e e'. fst e' = fst e \<and> movesOn (snd (snd e)) (snd (snd e'))) cs cs'"
    by (auto intro: list.rel_mono_strong)
qed

lemma list_all2_keys: "list_all2 (\<lambda>e e'. fst e' = fst e) cs cs' \<Longrightarrow> map fst cs' = map fst cs"
  by (induction rule: list_all2_induct) auto

text \<open>\<open>claimBatch\<close>: what it answers, and where each message comes from.\<close>

lemma claim_step:
  assumes "outboxClaimBatch input w = (r, w')" and inv: "outboxInv (outboxBase w)"
    and num: "cellsNumbered heap (outboxAllocated w) (messages (outboxBase w))"
  shows "advances heap (outboxAllocated w) (outboxBase w) (outboxAllocated w') (outboxBase w')"
    and "movesEach (messages (outboxBase w)) (messages (outboxBase w'))"
    and "idempotencyKeys (outboxBase w') = idempotencyKeys (outboxBase w)"
    and "outboxTransactions w' = outboxTransactions w"
proof -
  note I = outboxInvD [OF inv]
  have "advances heap (outboxAllocated w) (outboxBase w) (outboxAllocated w') (outboxBase w')
    \<and> movesEach (messages (outboxBase w)) (messages (outboxBase w'))
    \<and> idempotencyKeys (outboxBase w') = idempotencyKeys (outboxBase w) \<and> outboxTransactions w' = outboxTransactions w"
  proof (cases "isOutboxClaimInput input")
    case False
    with assms(1) have "w' = w" by (simp add: outboxClaimBatch_def)
    then show ?thesis using advances_same [OF inv num] movesEach_refl [OF I(3)] by simp
  next
    case input: True
    obtain ok cs claimed s n where c: "claimEntries input (messages (outboxBase w)) (nat (num_val (fld input ''limit'')))
        (leaseSequence (outboxBase w)) (outboxAllocated w) = (ok, cs, claimed, s, n)" by (rule prod_cases5)
    with assms(1) input have w': "outboxBase w' = (outboxBase w)\<lparr>messages := cs, leaseSequence := s\<rparr>" "outboxAllocated w' = n"
      "outboxTransactions w' = outboxTransactions w"
      by (auto simp: outboxClaimBatch_def Let_def simp del: fld.simps)
    note spec = claimEntries_spec [OF c input I(3) order_refl]
    then have entries: "list_all2 (entryClaimed input (leaseSequence (outboxBase w)) s) (messages (outboxBase w)) cs"
      and ok: "cellsOk s cs" and le: "leaseSequence (outboxBase w) \<le> s" by auto
    from entries have "map fst cs = map fst (messages (outboxBase w))"
      by (intro list_all2_keys) (auto simp: entryClaimed_def elim!: list.rel_mono_strong)
    moreover note moves = movesEach_claimed [OF entries I(3) input order_refl]
    ultimately have "outboxInv (outboxBase w')"
      using I ok claimEntries_held(1) [OF c input I(3) order_refl I(4,1)] indexOk_moves [OF I(5) moves]
      by (simp add: outboxInv_def w')
    with moves claimEntries_numbered [OF c num] le show ?thesis by (auto simp: advances_def w')
  qed
  then show "advances heap (outboxAllocated w) (outboxBase w) (outboxAllocated w') (outboxBase w')"
    "movesEach (messages (outboxBase w)) (messages (outboxBase w'))"
    "idempotencyKeys (outboxBase w') = idempotencyKeys (outboxBase w)"
    "outboxTransactions w' = outboxTransactions w" by blast+
qed

section \<open>The operations on a lease\<close>

text \<open>What the three changes have in common.\<close>

definition holderChange :: "(jsv \<Rightarrow> bool) \<Rightarrow> (jsv \<Rightarrow> jsv \<Rightarrow> jsv) \<Rightarrow> bool" where
  "holderChange valid change \<longleftrightarrow> (\<forall>input s key k m. valid input \<longrightarrow> messageOk s key m \<longrightarrow> heldAs k m
     \<longrightarrow> fld (fld m ''lease'') ''leaseId'' = fld input ''leaseId''
     \<longrightarrow> messageOk s key (change input m) \<and> movesOn m (change input m)
       \<and> (\<forall>j. heldAs j (change input m) \<longrightarrow> j = k))"

lemma holderChangeI:
  assumes "\<And>input s key k m. valid input \<Longrightarrow> messageOk s key m \<Longrightarrow> heldAs k m
    \<Longrightarrow> fld (fld m ''lease'') ''leaseId'' = fld input ''leaseId''
    \<Longrightarrow> messageOk s key (change input m) \<and> tries m \<le> tries (change input m) \<and> (\<forall>j. heldAs j (change input m) \<longrightarrow> j = k)"
    and "\<And>input m. is_obj m \<Longrightarrow> sameExcept changing m (change input m)"
  shows "holderChange valid change"
  unfolding holderChange_def movesOn_def using assms by (auto simp: messageOk_def)

lemma heldAs_claimed: "heldAs k m \<Longrightarrow> fld m ''status'' = JStr ''claimed''"
  by (simp add: heldAs_def)

lemma holderChange_renew: "holderChange isOutboxRenewLeaseInput renewMessage"
proof (rule holderChangeI)
  fix input s key k m
  assume a: "isOutboxRenewLeaseInput input" "messageOk s key m" "heldAs k m" "fld (fld m ''lease'') ''leaseId'' = fld input ''leaseId''"
  then show "messageOk s key (renewMessage input m) \<and> tries m \<le> tries (renewMessage input m) \<and> (\<forall>j. heldAs j (renewMessage input m) \<longrightarrow> j = k)"
    using renew_ok [OF a] heldAs_inject by auto
next
  show "is_obj m \<Longrightarrow> sameExcept changing m (renewMessage input m)" for input m
    unfolding renewMessage_def by (rule same_spread) (simp_all add: changing_def)
qed

lemma holderChange_dispatch: "holderChange isOutboxMarkDispatchedInput dispatchMessage"
proof (rule holderChangeI)
  fix input s key k m
  assume a: "isOutboxMarkDispatchedInput input" "messageOk s key m" "heldAs k m"
  then have now: "isValidDate (fld input ''now'')" by (simp add: isOutboxMarkDispatchedInput_def isLeaseMutationInputD(1))
  from dispatch_ok [OF now a(2) heldAs_claimed [OF a(3)]]
  show "messageOk s key (dispatchMessage input m) \<and> tries m \<le> tries (dispatchMessage input m) \<and> (\<forall>j. heldAs j (dispatchMessage input m) \<longrightarrow> j = k)"
    using not_held by auto
next
  show "is_obj m \<Longrightarrow> sameExcept changing m (dispatchMessage input m)" for input m
    unfolding dispatchMessage_def by (rule same_spread) (simp_all add: changing_def)
qed

lemma holderChange_fail: "holderChange isOutboxMarkFailedInput failMessage"
proof (rule holderChangeI)
  fix input s key k m
  assume a: "isOutboxMarkFailedInput input" "messageOk s key m" "heldAs k m"
  from fail_ok [OF a(1,2) heldAs_claimed [OF a(3)]] not_held
  show "messageOk s key (failMessage input m) \<and> tries m \<le> tries (failMessage input m) \<and> (\<forall>j. heldAs j (failMessage input m) \<longrightarrow> j = k)"
    by auto
next
  show "is_obj m \<Longrightarrow> sameExcept changing m (failMessage input m)" for input m
    unfolding failMessage_def Let_def by (rule same_spread) (simp_all add: changing_def)
qed

lemma heldOnce_map:
  assumes "distinct (map fst cs)"
  shows "heldOnce cs \<longleftrightarrow> (\<forall>key i m key' i' m' k. map_of cs key = Some (i, m) \<longrightarrow> map_of cs key' = Some (i', m')
    \<longrightarrow> heldAs k m \<longrightarrow> heldAs k m' \<longrightarrow> key = key')"
  unfolding heldOnce_def using assms by (force dest: map_of_SomeD intro: map_of_is_SomeI)

lemma cellsNumbered_update:
  assumes "cellsNumbered heap n cs" and "distinct (map fst cs)"
  shows "cellsNumbered (heap(Suc n := m)) (Suc n) (AList.update key (Suc n, m) cs)"
  unfolding cellsNumbered_def
proof
  fix e
  assume "e \<in> set (AList.update key (Suc n, m) cs)"
  then have "e = (key, (Suc n, m)) \<or> e \<in> set cs"
    by (induction cs) (auto split: if_splits)
  with assms(1) show "0 < fst (snd e) \<and> fst (snd e) \<le> Suc n \<and> (heap(Suc n := m)) (fst (snd e)) = snd (snd e)"
    unfolding cellsNumbered_def by fastforce
qed

lemma onLease_step:
  assumes "onLease valid change answer input w = (r, w')" and inv: "outboxInv (outboxBase w)"
    and num: "cellsNumbered heap (outboxAllocated w) (messages (outboxBase w))" and h: "holderChange valid change"
  shows "advances heap (outboxAllocated w) (outboxBase w) (outboxAllocated w') (outboxBase w')"
    and "movesEach (messages (outboxBase w)) (messages (outboxBase w'))"
    and "idempotencyKeys (outboxBase w') = idempotencyKeys (outboxBase w)"
    and "outboxTransactions w' = outboxTransactions w"
proof -
  note I = outboxInvD [OF inv]
  let ?key = "outboxKey (fld input ''tenantId'') (fld input ''messageId'')"
  have "advances heap (outboxAllocated w) (outboxBase w) (outboxAllocated w') (outboxBase w')
    \<and> movesEach (messages (outboxBase w)) (messages (outboxBase w'))
    \<and> idempotencyKeys (outboxBase w') = idempotencyKeys (outboxBase w) \<and> outboxTransactions w' = outboxTransactions w"
  proof (cases "valid input \<and> validOutboxLease (map_of (messages (outboxBase w)) ?key) input")
    case False
    with assms(1) have "w' = w" by (auto simp: onLease_def Let_def split: if_splits)
    then show ?thesis using advances_same [OF inv num] movesEach_refl [OF I(3)] by simp
  next
    case True
    then obtain i m where m: "map_of (messages (outboxBase w)) ?key = Some (i, m)" "liveLease (fld input ''now'') m"
      "fld (fld m ''lease'') ''leaseId'' = fld input ''leaseId''" using validOutboxLease_current by metis
    have ok: "messageOk (leaseSequence (outboxBase w)) ?key m" by (rule cellsOkD [OF I(3) m(1)])
    from m(2) heldAs_tries [OF ok] obtain k where k: "heldAs k m" by (auto simp: liveLease_def)
    let ?m' = "change input m" and ?n = "Suc (outboxAllocated w)"
    from h True ok k m(3) have new: "messageOk (leaseSequence (outboxBase w)) ?key ?m'" "movesOn m ?m'"
      "\<And>j. heldAs j ?m' \<Longrightarrow> j = k" unfolding holderChange_def by metis+
    let ?cs = "AList.update ?key (?n, ?m') (messages (outboxBase w))"
    from True assms(1) m(1) have w': "outboxBase w' = (outboxBase w)\<lparr>messages := ?cs\<rparr>" "outboxAllocated w' = ?n"
      "outboxTransactions w' = outboxTransactions w"
      by (auto simp: onLease_def Let_def contentOf_def simp del: fld.simps)
    have dist: "distinct (map fst ?cs)" using I(1) by (rule distinct_update)
    have look: "map_of ?cs x = (if x = ?key then Some (?n, ?m') else map_of (messages (outboxBase w)) x)" for x
      by (simp add: update_conv')
    have "messageOk (leaseSequence (outboxBase w)) x y" if "map_of ?cs x = Some (j, y)" for x j y
      using that new(1) cellsOkD [OF I(3)] by (auto simp: look split: if_splits)
    then have cells: "cellsOk (leaseSequence (outboxBase w)) ?cs"
      using map_of_is_SomeI [OF dist] by (intro cellsOkI) blast
    have moves: "movesEach (messages (outboxBase w)) ?cs" by (rule movesEach_update [OF m(1) new(2) I(3)])
    have "\<exists>i'. map_of (messages (outboxBase w)) x = Some (i', if x = ?key then m else y) \<and> heldAs l (if x = ?key then m else y)"
      if "map_of ?cs x = Some (j, y)" "heldAs l y" for x j y l
      using that m(1) new(3) k by (auto simp: look split: if_splits)
    with I(4) have "heldOnce ?cs" unfolding heldOnce_map [OF dist] heldOnce_map [OF I(1)] by metis
    with dist cells I(2) indexOk_moves [OF I(5) moves] have "outboxInv (outboxBase w')" by (simp add: outboxInv_def w')
    moreover have "\<exists>heap'. (\<forall>j \<le> outboxAllocated w. heap' j = heap j) \<and> cellsNumbered heap' ?n ?cs"
      using cellsNumbered_update [OF num I(1)] by (intro exI [of _ "heap(?n := ?m')"]) simp
    ultimately show ?thesis using moves by (simp add: advances_def w')
  qed
  then show "advances heap (outboxAllocated w) (outboxBase w) (outboxAllocated w') (outboxBase w')"
    "movesEach (messages (outboxBase w)) (messages (outboxBase w'))"
    "idempotencyKeys (outboxBase w') = idempotencyKeys (outboxBase w)"
    "outboxTransactions w' = outboxTransactions w" by blast+
qed

section \<open>Cleaning up\<close>

lemma set_insertSorted: "set (insertSorted compare x xs) = insert x (set xs)"
  by (induction compare x xs rule: insertSorted.induct) auto

lemma mset_insertSorted: "mset (insertSorted compare x xs) = add_mset x (mset xs)"
  by (induction compare x xs rule: insertSorted.induct) auto

lemma mset_sortStable: "mset (sortStable compare xs) = mset xs"
  by (induction xs) (simp_all add: sortStable_def mset_insertSorted)

text \<open>Two messages with the same idempotency key are one.\<close>

lemma indexed_once:
  assumes inv: "outboxInv st" and m: "map_of (messages st) key = Some (i, m)" "map_of (messages st) key' = Some (i', m')"
    and has: "fld m ''idempotencyKey'' \<noteq> JUndef" "fld m' ''idempotencyKey'' \<noteq> JUndef" and same: "idempotencyKeyOf m = idempotencyKeyOf m'"
  shows "key = key'"
proof -
  note I = outboxInvD [OF inv]
  from I(5) m has have "map_of (idempotencyKeys st) (idempotencyKeyOf m) = Some (0, fld m ''messageId'')"
    "map_of (idempotencyKeys st) (idempotencyKeyOf m') = Some (0, fld m' ''messageId'')"
    unfolding indexOk_def by blast+
  with same have id: "fld m ''messageId'' = fld m' ''messageId''" by (simp del: fld.simps)
  from cellsOkD [OF I(3) m(1)] cellsOkD [OF I(3) m(2)] have ok: "identityOk key m" "identityOk key' m'" by (simp_all add: messageOk_def)
  have safe: "isSafeText (fld m ''tenantId'') 512 True" "isSafeText (fld m' ''tenantId'') 512 True"
    "isSafeText (fld m ''idempotencyKey'') 512 True" "isSafeText (fld m' ''idempotencyKey'') 512 True"
    using ok has by (simp_all only: identityOk_def not_False_eq_True simp_thms)
  from outboxKey_inject [OF safe] same have "fld m ''tenantId'' = fld m' ''tenantId''" unfolding idempotencyKeyOf_def by blast
  moreover have "key = outboxKey (fld m ''tenantId'') (fld m ''messageId'')" "key' = outboxKey (fld m' ''tenantId'') (fld m' ''messageId'')"
    using ok by - (simp only: identityOk_def)+
  ultimately show ?thesis using id by (simp only:)
qed

lemma heldOnce_subset: "heldOnce cs \<Longrightarrow> set ds \<subseteq> set cs \<Longrightarrow> heldOnce ds"
  unfolding heldOnce_def by blast

lemma delete_subset: "set (AList.delete key cs) \<subseteq> set cs"
  by (simp add: AList.delete_eq)

lemma removeMessage_inv:
  assumes inv: "outboxInv st" and m: "map_of (messages st) key = Some (i, m)"
  shows "outboxInv (removeMessage (key, (i, m)) st)"
    and "messages (removeMessage (key, (i, m)) st) = AList.delete key (messages st)"
    and "leaseSequence (removeMessage (key, (i, m)) st) = leaseSequence st"
proof -
  note I = outboxInvD [OF inv]
  let ?st = "removeMessage (key, (i, m)) st"
  let ?k = "idempotencyKeyOf m"
  define index where "index = (if fld m ''idempotencyKey'' \<noteq> JUndef then AList.delete ?k (idempotencyKeys st) else idempotencyKeys st)"
  have hit: "contentOf (map_of (idempotencyKeys st) ?k) = fld m ''messageId''" if "fld m ''idempotencyKey'' \<noteq> JUndef"
    using I(5) m that unfolding indexOk_def contentOf_def by (fastforce simp del: fld.simps)
  then have st: "?st = st\<lparr>messages := AList.delete key (messages st), idempotencyKeys := index\<rparr>"
    unfolding removeMessage_def index_def Let_def idempotencyKeyOf_def by (simp del: fld.simps)
  have look: "map_of (AList.delete key (messages st)) x = (if x = key then None else map_of (messages st) x)" for x
    by (simp add: delete_conv')
  have ilook: "map_of index x = (if fld m ''idempotencyKey'' \<noteq> JUndef \<and> x = ?k then None else map_of (idempotencyKeys st) x)" for x
    by (simp add: index_def delete_conv' del: fld.simps)
  have "indexOk (AList.delete key (messages st)) index"
    unfolding indexOk_def
  proof (intro conjI allI impI)
    fix key' i' m'
    assume "map_of (AList.delete key (messages st)) key' = Some (i', m')" and has: "fld m' ''idempotencyKey'' \<noteq> JUndef"
    then have m': "map_of (messages st) key' = Some (i', m')" "key' \<noteq> key" by (auto simp: look split: if_splits)
    then have "\<not> (fld m ''idempotencyKey'' \<noteq> JUndef \<and> idempotencyKeyOf m' = ?k)"
      using indexed_once [OF inv m'(1) m has] by blast
    moreover have "map_of (idempotencyKeys st) (idempotencyKeyOf m') = Some (0, fld m' ''messageId'')"
      using I(5) m'(1) has unfolding indexOk_def by blast
    ultimately show "map_of index (idempotencyKeyOf m') = Some (0, fld m' ''messageId'')"
      unfolding ilook by (simp only: if_False)
  next
    fix k c
    assume c: "map_of index k = Some c"
    then have "map_of (idempotencyKeys st) k = Some c" by (simp add: ilook split: if_splits del: fld.simps)
    with I(5) obtain key' i' m' where m': "map_of (messages st) key' = Some (i', m')" "fld m' ''idempotencyKey'' \<noteq> JUndef"
      "k = idempotencyKeyOf m'" "c = (0, fld m' ''messageId'')"
      unfolding indexOk_def by blast
    have "key' \<noteq> key"
    proof
      assume "key' = key"
      with m m'(1) have "m' = m" by simp
      with m'(2,3) c show False by (simp add: ilook del: fld.simps)
    qed
    with m'(1) have "map_of (AList.delete key (messages st)) key' = Some (i', m')" by (simp add: look)
    with m'(2-4) show "\<exists>key' i' m'. map_of (AList.delete key (messages st)) key' = Some (i', m')
        \<and> fld m' ''idempotencyKey'' \<noteq> JUndef \<and> k = idempotencyKeyOf m' \<and> c = (0, fld m' ''messageId'')"
      by (intro exI conjI)
  qed
  moreover have "distinct (map fst index)" using I(2) by (simp add: index_def distinct_delete)
  moreover have "cellsOk (leaseSequence st) (AList.delete key (messages st))"
    using I(3) delete_subset [of key "messages st"] unfolding cellsOk_def by auto
  ultimately show "outboxInv ?st"
    using I(1) heldOnce_subset [OF I(4) delete_subset] by (simp add: outboxInv_def st distinct_delete)
  show "messages ?st = AList.delete key (messages st)" "leaseSequence ?st = leaseSequence st" by (simp_all add: st)
qed

lemma removeMessages_inv:
  assumes "outboxInv st" and "\<forall>e \<in> set es. map_of (messages st) (fst e) = Some (snd e)" and "distinct (map fst es)"
  shows "outboxInv (fold removeMessage es st)" and "leaseSequence (fold removeMessage es st) = leaseSequence st"
    and "map_of (messages (fold removeMessage es st)) key = (if key \<in> fst ` set es then None else map_of (messages st) key)"
    and "set (messages (fold removeMessage es st)) \<subseteq> set (messages st)"
proof -
  have "outboxInv (fold removeMessage es st) \<and> leaseSequence (fold removeMessage es st) = leaseSequence st
    \<and> (\<forall>key. map_of (messages (fold removeMessage es st)) key = (if key \<in> fst ` set es then None else map_of (messages st) key))
    \<and> set (messages (fold removeMessage es st)) \<subseteq> set (messages st)"
    using assms
  proof (induction es arbitrary: st)
    case (Cons e es)
    obtain key i m where e: "e = (key, (i, m))" by (metis prod_cases3)
    with Cons.prems(2) have m: "map_of (messages st) key = Some (i, m)" by simp
    note r = removeMessage_inv [OF Cons.prems(1) m]
    have look: "map_of (messages (removeMessage e st)) x = (if x = key then None else map_of (messages st) x)" for x
      by (simp add: e r(2) delete_conv')
    have "\<forall>x \<in> set es. map_of (messages (removeMessage e st)) (fst x) = Some (snd x)"
    proof
      fix x
      assume x: "x \<in> set es"
      then have "fst x \<noteq> key" using Cons.prems(3) by (auto simp: e)
      with Cons.prems(2) x show "map_of (messages (removeMessage e st)) (fst x) = Some (snd x)" by (simp add: look)
    qed
    from Cons.IH [OF r(1) [folded e] this] Cons.prems(3) r(3) look delete_subset [of key "messages st"] r(2)
    show ?case by (auto simp: e)
  qed simp
  then show "outboxInv (fold removeMessage es st)" "leaseSequence (fold removeMessage es st) = leaseSequence st"
    "map_of (messages (fold removeMessage es st)) key = (if key \<in> fst ` set es then None else map_of (messages st) key)"
    "set (messages (fold removeMessage es st)) \<subseteq> set (messages st)" by blast+
qed

lemma cleanup_step:
  assumes "outboxCleanupTerminal localeCompare input w = (r, w')" and inv: "outboxInv (outboxBase w)"
    and num: "cellsNumbered heap (outboxAllocated w) (messages (outboxBase w))"
  shows "advances heap (outboxAllocated w) (outboxBase w) (outboxAllocated w') (outboxBase w')"
    and "outboxTransactions w' = outboxTransactions w"
    and "map_of (messages (outboxBase w)) key = Some (i, m) \<Longrightarrow> \<not> (unheld ''dispatched'' m \<or> unheld ''dead'' m)
      \<Longrightarrow> map_of (messages (outboxBase w')) key = Some (i, m)"
    and "map_of (messages (outboxBase w')) key = Some c \<Longrightarrow> map_of (messages (outboxBase w)) key = Some c"
proof -
  note I = outboxInvD [OF inv]
  have "advances heap (outboxAllocated w) (outboxBase w) (outboxAllocated w') (outboxBase w')
    \<and> outboxTransactions w' = outboxTransactions w
    \<and> (map_of (messages (outboxBase w)) key = Some (i, m) \<longrightarrow> \<not> (unheld ''dispatched'' m \<or> unheld ''dead'' m)
      \<longrightarrow> map_of (messages (outboxBase w')) key = Some (i, m))
    \<and> (map_of (messages (outboxBase w')) key = Some c \<longrightarrow> map_of (messages (outboxBase w)) key = Some c)"
  proof (cases "isOutboxCleanupTerminalInput input")
    case False
    with assms(1) have "w' = w" by (simp add: outboxCleanupTerminal_def)
    then show ?thesis using advances_same [OF inv num] by simp
  next
    case input: True
    let ?all = "filter (\<lambda>(_, (_, message)). eligibleForCleanup input message) (messages (outboxBase w))"
    let ?sorted = "sortStable (compareTerminal localeCompare) ?all"
    let ?es = "take (nat (num_val (fld input ''limit''))) ?sorted"
    from assms(1) input have w': "w' = w\<lparr>outboxBase := fold removeMessage ?es (outboxBase w)\<rparr>"
      by (simp add: outboxCleanupTerminal_def Let_def del: fld.simps)
    have "set ?es \<subseteq> set ?sorted" by (rule set_take_subset)
    also have "set ?sorted = set ?all" using mset_sortStable by (metis set_mset_mset)
    finally have sub: "set ?es \<subseteq> set ?all" .
    have "mset (map fst ?sorted) = mset (map fst ?all)" using mset_sortStable by (metis mset_map)
    then have "distinct (map fst ?sorted) = distinct (map fst ?all)" by (metis mset_eq_imp_distinct_iff)
    then have dist: "distinct (map fst ?es)" using I(1) by (simp add: distinct_map_filter take_map flip: take_map)
    have at: "\<forall>e \<in> set ?es. map_of (messages (outboxBase w)) (fst e) = Some (snd e)"
      using sub I(1) by (auto intro!: map_of_is_SomeI)
    note r = removeMessages_inv [OF inv at dist]
    have terminal: "unheld ''dispatched'' (snd (snd e)) \<or> unheld ''dead'' (snd (snd e))" if "e \<in> set ?es" for e
    proof -
      from that sub have e: "e \<in> set (messages (outboxBase w))" "eligibleForCleanup input (snd (snd e))" by auto
      then have "fld (snd (snd e)) ''status'' = JStr ''dispatched'' \<or> fld (snd (snd e)) ''status'' = JStr ''dead''"
        using input by (auto simp: eligibleForCleanup_def isOutboxCleanupTerminalInput_def list_all_iff Let_def simp del: fld.simps isSafeText.simps)
      moreover have "messageOk (leaseSequence (outboxBase w)) (fst e) (snd (snd e))" using e(1) I(3) by (simp add: cellsOk_def)
      ultimately show ?thesis by (auto simp: messageOk_def progressOk_def unheld_def heldAs_def simp del: fld.simps)
    qed
    have "key \<notin> fst ` set ?es" if "map_of (messages (outboxBase w)) key = Some (i, m)" "\<not> (unheld ''dispatched'' m \<or> unheld ''dead'' m)"
    proof
      assume "key \<in> fst ` set ?es"
      then obtain e where e: "e \<in> set ?es" "fst e = key" by auto
      with at that(1) have "snd e = (i, m)" by force
      with terminal [OF e(1)] that(2) show False by simp
    qed
    moreover have "cellsNumbered heap (outboxAllocated w) (messages (outboxBase w'))"
      using num r(4) unfolding w' cellsNumbered_def by auto
    ultimately show ?thesis using r(1,2) r(3) [of key] by (auto simp: advances_def w')
  qed
  then show "advances heap (outboxAllocated w) (outboxBase w) (outboxAllocated w') (outboxBase w')"
    "outboxTransactions w' = outboxTransactions w"
    "map_of (messages (outboxBase w)) key = Some (i, m) \<Longrightarrow> \<not> (unheld ''dispatched'' m \<or> unheld ''dead'' m)
      \<Longrightarrow> map_of (messages (outboxBase w')) key = Some (i, m)"
    "map_of (messages (outboxBase w')) key = Some c \<Longrightarrow> map_of (messages (outboxBase w)) key = Some c" by blast+
qed

end
