(* ===== verification/StoreTransactions.thy ===== *)
theory StoreTransactions
  imports OutboxSteps MemoryAtomicity
begin

text \<open>
  \<open>packages/testkit/src/stores/memory-auth-outbox-stores.ts\<close> and \<open>transaction.ts\<close> with an outbox:
  one transaction over the memory stores and the memory outbox. It commits both or neither; core's
  contract on transactions holds for it as for the stores alone.
\<close>

section \<open>The transaction\<close>

type_synonym 'e storesWorld = "memoryWorld \<times> outboxWorld \<times> 'e"

definition storesScopes :: "jsv list" where
  "storesScopes = supportedScopes @ [JStr ''outbox'']"

definition isTransactionRequestFor :: "jsv list \<Rightarrow> jsv \<Rightarrow> bool" where
  "isTransactionRequestFor scopesSupported v =
     (isRecord v \<and> length (obj_keys v) = 1
      \<and> is_arr (fld v ''requiredScopes'')
      \<and> (let scopes = arr_elems (fld v ''requiredScopes'') in
           scopes \<noteq> [] \<and> length scopes \<le> 1000 \<and> distinct (map read_elem scopes)
           \<and> arr_every (\<lambda>scope. isSafeText scope 512 True \<and> scope \<in> set scopesSupported) scopes))"

definition beginStores :: "jsv list \<Rightarrow> 'e storesWorld \<Rightarrow> jsv \<times> 'e storesWorld" where
  "beginStores scopes = (\<lambda>(w, ow, e). case beginTransaction scopes w of
     (tx, w2) \<Rightarrow> (tx, (w2, ow\<lparr>outboxTransactions := AList.update tx (outboxBase ow) (outboxTransactions ow)\<rparr>, e)))"

definition workingOf :: "jsv \<Rightarrow> 'a \<Rightarrow> (jsv \<times> 'a) list \<Rightarrow> 'a" where
  "workingOf tx before running = (case map_of running tx of None \<Rightarrow> before | Some st \<Rightarrow> st)"

definition closeStores :: "jsv \<Rightarrow> 'e storesWorld \<Rightarrow> 'e storesWorld" where
  "closeStores tx = (\<lambda>(w, ow, e). (w\<lparr>transactionStates := AList.delete tx (transactionStates w)\<rparr>,
     ow\<lparr>outboxTransactions := AList.delete tx (outboxTransactions ow)\<rparr>, e))"

definition storesCanCommit :: "jsv \<Rightarrow> memoryState \<Rightarrow> outboxState \<Rightarrow> 'e storesWorld \<Rightarrow> bool" where
  "storesCanCommit tx before outboxBefore = (\<lambda>(w, ow, e).
     canCommitTransactionState (baseState w) before (workingOf tx before (transactionStates w)) (arr_elems (fld tx ''covers''))
     \<and> canCommitMemoryOutboxState (outboxBase ow) outboxBefore (workingOf tx outboxBefore (outboxTransactions ow)))"

definition applyStores :: "jsv \<Rightarrow> memoryState \<Rightarrow> outboxState \<Rightarrow> 'e storesWorld \<Rightarrow> 'e storesWorld" where
  "applyStores tx before outboxBefore = (\<lambda>(w, ow, e).
     (w\<lparr>baseState := applyTransactionState (baseState w) before (workingOf tx before (transactionStates w))\<rparr>,
      ow\<lparr>outboxBase := applyMemoryOutboxState (outboxBase ow) outboxBefore (workingOf tx outboxBefore (outboxTransactions ow))\<rparr>, e))"

definition settleStores ::
  "jsv \<Rightarrow> memoryState \<Rightarrow> outboxState \<Rightarrow> jsv outcome \<Rightarrow> 'e storesWorld \<Rightarrow> jsv \<times> 'e storesWorld" where
  "settleStores tx before outboxBefore answer we =
     (case answer of
        Throw \<Rightarrow> (transactionError, closeStores tx we)
      | Ret result \<Rightarrow>
          if nullish result then (transactionError, closeStores tx we)
          else if truthy (fld result ''ok'') then
            (if storesCanCommit tx before outboxBefore we
             then (result, closeStores tx (applyStores tx before outboxBefore we))
             else (transactionError, closeStores tx we))
          else (result, closeStores tx we))"

definition storesRun :: "jsv \<Rightarrow> 'e storesWorld \<Rightarrow> 'e storesWorld txprog" where
  "storesRun request we =
     (if \<not> isTransactionRequestFor storesScopes request then TxDone (Ret transactionError) we
      else case beginStores (arr_elems (fld request ''requiredScopes'')) we of
        (tx, opened) \<Rightarrow> TxCall tx opened (\<lambda>answer we2.
          case settleStores tx (baseState (fst we)) (outboxBase (fst (snd we))) answer we2 of
            (result, closed) \<Rightarrow> TxDone (Ret result) closed))"

text \<open>
  \<open>createMemoryAuthOutboxStores\<close> as the stores of core; the other collaborators, among them the
  effects, see the outbox.
\<close>

definition authOutboxConfig :: "(outboxWorld \<times> 'e) cfg \<Rightarrow> 'e storesWorld cfg" where
  "authOutboxConfig others =
     \<lparr>call = (\<lambda>p args (w, oe). case storeOperation p of
          Some operation \<Rightarrow> (case operation (argument args 0) (argument args 1) w of (r, w2) \<Rightarrow> (r, (w2, oe)))
        | None \<Rightarrow> (case call others p args oe of (r, oe2) \<Rightarrow> (r, (w, oe2)))),
      txRun = Some storesRun,
      hasPolicy = hasPolicy others, hasGuard = hasGuard others, hasAfterAttempt = hasAfterAttempt others,
      hasEventSink = hasEventSink others, hasEffects = hasEffects others, hasChallenges = True,
      transactionScopes = transactionScopes others, methods = methods others,
      defaultTtlSeconds = defaultTtlSeconds others, maxTtlSeconds = maxTtlSeconds others\<rparr>"

section \<open>The contract core expects\<close>

definition storesSupports :: "jsv list \<Rightarrow> 'e storesWorld \<Rightarrow> bool" where
  "storesSupports scopes we =
     (isTransactionRequestFor storesScopes (requested_scopes scopes) \<and> JHole \<notin> set scopes
      \<and> transactionSequence (fst we) + 1 < 10 ^ 16)"

definition storesTransaction :: "jsv list \<Rightarrow> 'e storesWorld \<Rightarrow> jsv" where
  "storesTransaction scopes we = newTransaction (transactionSequence (fst we) + 1) scopes"

definition storesOpened :: "jsv list \<Rightarrow> 'e storesWorld \<Rightarrow> 'e storesWorld" where
  "storesOpened scopes we = snd (beginStores scopes we)"

definition storesCommits :: "jsv list \<Rightarrow> 'e storesWorld \<Rightarrow> 'e storesWorld \<Rightarrow> bool" where
  "storesCommits scopes we we2 = storesCanCommit (storesTransaction scopes we) (baseState (fst we)) (outboxBase (fst (snd we))) we2"

definition storesAborted :: "jsv list \<Rightarrow> 'e storesWorld \<Rightarrow> 'e storesWorld \<Rightarrow> 'e storesWorld" where
  "storesAborted scopes we we2 = closeStores (storesTransaction scopes we) we2"

definition storesCommitted :: "jsv list \<Rightarrow> 'e storesWorld \<Rightarrow> 'e storesWorld \<Rightarrow> 'e storesWorld" where
  "storesCommitted scopes we we2 = closeStores (storesTransaction scopes we)
     (applyStores (storesTransaction scopes we) (baseState (fst we)) (outboxBase (fst (snd we))) we2)"

lemma storesScopes_text: "scope \<in> set storesScopes \<Longrightarrow> is_str scope \<and> 0 < str_len scope \<and> str_len scope \<le> 512"
  by (simp add: storesScopes_def supportedScopes_def) (elim disjE; simp)

interpretation stores_tx: transaction_runner storesRun storesSupports storesTransaction storesOpened
  storesCommits storesCommitted storesAborted
proof (unfold_locales, goal_cases)
  case (1 scopes w)
  then have read: "map read_elem scopes = scopes" by (simp add: storesSupports_def map_read_elem)
  from 1 have scopes: "length scopes \<le> 1000"
    "arr_every (\<lambda>scope. isSafeText scope 512 True \<and> scope \<in> set storesScopes) scopes" "JHole \<notin> set scopes"
    and n: "transactionSequence (fst w) + 1 < 10 ^ 16"
    by (simp_all add: storesSupports_def isTransactionRequestFor_def requested_scopes_def map_read_elem Let_def)
  have every: "list_all (\<lambda>scope. is_str scope \<and> 0 < str_len scope \<and> str_len scope \<le> 512) scopes"
    using arr_every_noHole [OF scopes(2,3)] storesScopes_text unfolding list_all_iff by blast
  show ?case
    unfolding transactionCovers_def
  proof (intro conjI)
    show "isSafeText (fld (storesTransaction scopes w) ''transactionId'') 512 True"
      using transaction_id_safe [OF n]
      by (simp del: isSafeText.simps add: storesTransaction_def newTransaction_def)
  qed (use every scopes(1) in \<open>simp_all add: storesTransaction_def newTransaction_def read arr_every_def list_all_iff\<close>)
next
  case (2 scopes w)
  obtain m ow e where w: "w = (m, ow, e)" by (rule prod_cases3)
  from 2 have req: "isTransactionRequestFor storesScopes (requested_scopes scopes)"
    by (simp add: storesSupports_def)
  have elems: "arr_elems (fld (requested_scopes scopes) ''requiredScopes'') = scopes"
    by (simp add: requested_scopes_def)
  have tx: "fst (beginStores scopes w) = storesTransaction scopes w"
    by (simp add: beginStores_def beginTransaction_def storesTransaction_def w Let_def)
  have run: "storesRun (requested_scopes scopes) w = TxCall (storesTransaction scopes w) (storesOpened scopes w)
      (\<lambda>answer we2. case settleStores (storesTransaction scopes w) (baseState (fst w)) (outboxBase (fst (snd w))) answer we2 of
          (result, closed) \<Rightarrow> TxDone (Ret result) closed)"
    unfolding storesRun_def elems using req tx by (cases "beginStores scopes w") (simp add: storesOpened_def)
  show ?case
    by (rule exI, rule conjI, rule run)
      (simp add: settleStores_def isResult_not_nullish storesCommits_def storesCommitted_def storesAborted_def)
qed

end
