(* ===== verification/OutboxRuns.thy ===== *)
theory OutboxRuns
  imports StoreTransactions
begin

text \<open>
  Every run of the memory stores with their outbox: operations of the stores and of the outbox, in
  and outside the transaction that is open, and transactions opening and settling. The invariant of
  the outbox holds in every reachable state.
\<close>

section \<open>Runs\<close>

datatype outboxOperation = Enqueue jsv jsv | EnqueueBatch jsv jsv | ClaimBatch jsv | RenewLease jsv
  | MarkDispatched jsv | MarkFailed jsv | CleanupTerminal jsv

text \<open>The formatting and the collation the operations use.\<close>

type_synonym platform = "(jsv \<Rightarrow> string) \<times> (string \<Rightarrow> string \<Rightarrow> int)"

fun runOutbox :: "platform \<Rightarrow> outboxOperation \<Rightarrow> outboxWorld \<Rightarrow> jsv outcome \<times> outboxWorld" where
  "runOutbox pf (Enqueue input tx) w = outboxEnqueue (fst pf) input tx w"
| "runOutbox pf (EnqueueBatch input tx) w = outboxEnqueueBatch (fst pf) input tx w"
| "runOutbox pf (ClaimBatch input) w = outboxClaimBatch input w"
| "runOutbox pf (RenewLease input) w = outboxRenewLease input w"
| "runOutbox pf (MarkDispatched input) w = outboxMarkDispatched input w"
| "runOutbox pf (MarkFailed input) w = outboxMarkFailed input w"
| "runOutbox pf (CleanupTerminal input) w = outboxCleanupTerminal (snd pf) input w"

text \<open>The world, and the transaction that is running with the states it began from.\<close>

type_synonym storesSystem = "unit storesWorld \<times> (jsv \<times> memoryState \<times> outboxState) option"

inductive storesStep :: "platform \<Rightarrow> outboxOperation option \<Rightarrow> storesSystem \<Rightarrow> storesSystem \<Rightarrow> bool" for pf where
  auth: "(scope, operation) \<in> memoryOperations \<Longrightarrow> operation input tx w = (r, w')
    \<Longrightarrow> storesStep pf None ((w, ow, e), running) ((w', ow, e), running)"
| outbox: "runOutbox pf a ow = (r, ow') \<Longrightarrow> storesStep pf (Some a) ((w, ow, e), running) ((w, ow', e), running)"
| opens: "beginStores scopes we = (tx, we')
    \<Longrightarrow> storesStep pf None (we, None) (we', Some (tx, baseState (fst we), outboxBase (fst (snd we))))"
| settles: "settleStores tx before outboxBefore answer we = (r, we')
    \<Longrightarrow> storesStep pf None (we, Some (tx, before, outboxBefore)) (we', None)"

inductive_cases storesStepE: "storesStep pf a s s'"

definition emptyStores :: storesSystem where
  "emptyStores = ((emptyWorld, emptyOutboxWorld, ()), None)"

inductive storesReachable :: "platform \<Rightarrow> storesSystem \<Rightarrow> bool" for pf where
  start: "storesReachable pf emptyStores"
| step: "storesReachable pf s \<Longrightarrow> storesStep pf a s s' \<Longrightarrow> storesReachable pf s'"

abbreviation outboxOf :: "storesSystem \<Rightarrow> outboxWorld" where
  "outboxOf s \<equiv> fst (snd (fst s))"

section \<open>Enqueueing\<close>

lemma advances_weaken: "advances heap n st n' st' \<Longrightarrow> n \<le> n'"
  by (simp add: advances_def)

lemma afterBatch_advances:
  assumes inv: "outboxInv st" and num: "cellsNumbered heap n (messages st)"
    and new: "\<forall>m \<in> set ms. newMessage m" and acc: "batchAccepted st ms"
  shows "advances heap n st (n + length (filter (isFresh st) ms)) (afterBatch st ms n)"
proof -
  have "\<exists>heap'. (\<forall>m \<le> n. heap' m = heap m) \<and> cellsNumbered heap' (n + length fs) (newCells n fs)" for fs n and heap :: "nat \<Rightarrow> jsv"
  proof (induction fs arbitrary: n heap)
    case (Cons m fs)
    from Cons [of "Suc n" "heap(Suc n := m)"] obtain heap' where
      h: "\<forall>k \<le> Suc n. heap' k = (heap(Suc n := m)) k" "cellsNumbered heap' (Suc n + length fs) (newCells (Suc n) fs)" by blast
    have "\<forall>k \<le> n. heap' k = heap k" using h(1) by auto
    moreover have "cellsNumbered heap' (n + length (m # fs)) (newCells n (m # fs))"
      using h unfolding cellsNumbered_def by auto
    ultimately show ?case by blast
  qed (auto simp: cellsNumbered_def)
  then obtain heap' where h: "\<forall>m \<le> n. heap' m = heap m"
    "cellsNumbered heap' (n + length (filter (isFresh st) ms)) (newCells n (filter (isFresh st) ms))" by blast
  have "cellsNumbered heap' (n + length (filter (isFresh st) ms)) (messages st)"
    using num h(1) unfolding cellsNumbered_def by fastforce
  with h(2) have "cellsNumbered heap' (n + length (filter (isFresh st) ms)) (messages (afterBatch st ms n))"
    unfolding cellsNumbered_def afterBatch_def by auto
  with h(1) afterBatch_inv [OF inv new acc] show ?thesis
    unfolding advances_def by (auto simp: afterBatch_def)
qed

text \<open>A batch that enters the outbox, or the copy of the open transaction.\<close>

lemma enqueue_step:
  assumes "outboxEnqueueBatch scalarText input tx w = (r, w')"
    and "\<forall>st. memoryOutboxStateFor w tx = Some st \<longrightarrow> outboxInv st \<and> cellsNumbered heap (outboxAllocated w) (messages st)"
  shows "w' = w \<or> (\<exists>st ms. memoryOutboxStateFor w tx = Some st \<and> (\<forall>m \<in> set ms. newMessage m) \<and> batchAccepted st ms
    \<and> r = Ret (memOk (JArr (map (acknowledged st) ms)))
    \<and> w' = putOutboxState tx (afterBatch st ms (outboxAllocated w)) (outboxAllocated w + length (filter (isFresh st) ms)) w
    \<and> advances heap (outboxAllocated w) st (outboxAllocated w + length (filter (isFresh st) ms)) (afterBatch st ms (outboxAllocated w)))"
proof (cases "memoryOutboxStateFor w tx")
  case None
  with assms(1) show ?thesis by (simp add: outboxEnqueueBatch_def)
next
  case (Some st)
  with assms(2) have st: "outboxInv st" "cellsNumbered heap (outboxAllocated w) (messages st)" by blast+
  note spec = outboxEnqueueBatch_spec [OF Some st(1), of scalarText input]
  show ?thesis
  proof (cases "admittedBatch scalarText input")
    case None
    with spec assms(1) show ?thesis by simp
  next
    case adm: (Some ms)
    note new = admittedBatch_new [OF adm]
    show ?thesis
    proof (cases "batchAccepted st ms")
      case False
      with spec adm assms(1) show ?thesis by simp
    next
      case True
      with spec adm assms(1) Some new afterBatch_advances [OF st new True] show ?thesis by auto
    qed
  qed
qed

lemma enqueue_single:
  assumes "outboxEnqueue scalarText input tx w = (r, w')"
  obtains "w' = w" | r' input' where "outboxEnqueueBatch scalarText input' tx w = (r', w')"
  using assms unfolding outboxEnqueue_def by (auto split: if_splits outcome.splits prod.splits)

section \<open>The invariant of a run\<close>

definition extendsOutbox :: "outboxState \<Rightarrow> outboxState \<Rightarrow> bool" where
  "extendsOutbox st st' \<longleftrightarrow> leaseSequence st' = leaseSequence st
     \<and> (\<forall>key c. map_of (messages st) key = Some c \<longrightarrow> map_of (messages st') key = Some c)"

lemma extendsOutbox_afterBatch: "extendsOutbox st st' \<Longrightarrow> extendsOutbox st (afterBatch st' ms n)"
  by (simp add: extendsOutbox_def afterBatch_def map_of_app del: map_of_append)

definition storesInv :: "storesSystem \<Rightarrow> bool" where
  "storesInv s \<longleftrightarrow> (\<exists>heap. let ow = outboxOf s in
     outboxInv (outboxBase ow) \<and> cellsNumbered heap (outboxAllocated ow) (messages (outboxBase ow))
     \<and> (case snd s of
          None \<Rightarrow> outboxTransactions ow = []
        | Some (tx, _, before) \<Rightarrow> \<exists>working. outboxTransactions ow = [(tx, working)] \<and> truthy tx
            \<and> outboxInv before \<and> outboxInv working \<and> extendsOutbox before working
            \<and> cellsNumbered heap (outboxAllocated ow) (messages before)
            \<and> cellsNumbered heap (outboxAllocated ow) (messages working)))"

lemma cellsNumbered_mono: "cellsNumbered heap n cs \<Longrightarrow> n \<le> n' \<Longrightarrow> \<forall>m \<le> n. heap' m = heap m \<Longrightarrow> cellsNumbered heap' n' cs"
  unfolding cellsNumbered_def by fastforce

lemma outboxInv_empty: "outboxInv createEmptyMemoryOutboxState"
  by (simp add: outboxInv_def createEmptyMemoryOutboxState_def cellsOk_def heldOnce_def indexOk_def)

lemma storesInv_start: "storesInv emptyStores"
  using outboxInv_empty
  by (auto simp: storesInv_def emptyStores_def emptyOutboxWorld_def Let_def cellsNumbered_def createEmptyMemoryOutboxState_def)

text \<open>A step of the outbox outside the transaction.\<close>

lemma storesInv_base:
  assumes inv: "storesInv ((w, ow, e), running)"
    and step: "\<And>heap. cellsNumbered heap (outboxAllocated ow) (messages (outboxBase ow)) \<Longrightarrow>
      advances heap (outboxAllocated ow) (outboxBase ow) (outboxAllocated ow') (outboxBase ow')"
    and same: "outboxTransactions ow' = outboxTransactions ow"
  shows "storesInv ((w, ow', e), running)"
proof -
  from inv obtain heap where num: "cellsNumbered heap (outboxAllocated ow) (messages (outboxBase ow))"
    and run: "case running of None \<Rightarrow> outboxTransactions ow = []
        | Some (tx, _, before) \<Rightarrow> \<exists>working. outboxTransactions ow = [(tx, working)] \<and> truthy tx
            \<and> outboxInv before \<and> outboxInv working \<and> extendsOutbox before working
            \<and> cellsNumbered heap (outboxAllocated ow) (messages before)
            \<and> cellsNumbered heap (outboxAllocated ow) (messages working)"
    unfolding storesInv_def Let_def fst_conv snd_conv by blast
  from step [OF num] obtain heap' where h: "outboxInv (outboxBase ow')" "outboxAllocated ow \<le> outboxAllocated ow'"
    "\<forall>m \<le> outboxAllocated ow. heap' m = heap m" "cellsNumbered heap' (outboxAllocated ow') (messages (outboxBase ow'))"
    unfolding advances_def by blast
  have "case running of None \<Rightarrow> outboxTransactions ow' = []
        | Some (tx, _, before) \<Rightarrow> \<exists>working. outboxTransactions ow' = [(tx, working)] \<and> truthy tx
            \<and> outboxInv before \<and> outboxInv working \<and> extendsOutbox before working
            \<and> cellsNumbered heap' (outboxAllocated ow') (messages before)
            \<and> cellsNumbered heap' (outboxAllocated ow') (messages working)"
    using run cellsNumbered_mono [OF _ h(2,3)] unfolding same by (cases running) auto
  with h show ?thesis unfolding storesInv_def Let_def fst_conv snd_conv by blast
qed

lemma storesInv_enqueue:
  assumes inv: "storesInv ((w, ow, e), running)" and step: "outboxEnqueueBatch scalarText input tx ow = (r, ow')"
  shows "storesInv ((w, ow', e), running)"
proof -
  from inv obtain heap where num: "cellsNumbered heap (outboxAllocated ow) (messages (outboxBase ow))"
    and base: "outboxInv (outboxBase ow)"
    and run: "case running of None \<Rightarrow> outboxTransactions ow = []
        | Some (tx, _, before) \<Rightarrow> \<exists>working. outboxTransactions ow = [(tx, working)] \<and> truthy tx
            \<and> outboxInv before \<and> outboxInv working \<and> extendsOutbox before working
            \<and> cellsNumbered heap (outboxAllocated ow) (messages before)
            \<and> cellsNumbered heap (outboxAllocated ow) (messages working)"
    unfolding storesInv_def Let_def fst_conv snd_conv by blast
  have found: "\<exists>b before. running = Some (tx, b, before) \<and> outboxTransactions ow = [(tx, st)] \<and> outboxInv before \<and> outboxInv st
      \<and> extendsOutbox before st \<and> cellsNumbered heap (outboxAllocated ow) (messages before)
      \<and> cellsNumbered heap (outboxAllocated ow) (messages st)"
    if "memoryOutboxStateFor ow tx = Some st" "truthy tx" for st
    using that run by (auto simp: memoryOutboxStateFor_def simp del: fld.simps split: option.splits if_splits)
  have ready: "outboxInv st \<and> cellsNumbered heap (outboxAllocated ow) (messages st)" if "memoryOutboxStateFor ow tx = Some st" for st
  proof (cases "truthy tx")
    case True
    from found [OF that this] show ?thesis by blast
  next
    case False
    with that base num show ?thesis by (simp add: memoryOutboxStateFor_def)
  qed
  then have "\<forall>st. memoryOutboxStateFor ow tx = Some st \<longrightarrow> outboxInv st \<and> cellsNumbered heap (outboxAllocated ow) (messages st)" by blast
  from enqueue_step [OF step this] show ?thesis
  proof (elim disjE exE conjE)
    fix st ms
    let ?n = "outboxAllocated ow + length (filter (isFresh st) ms)"
    let ?st = "afterBatch st ms (outboxAllocated ow)"
    assume st: "memoryOutboxStateFor ow tx = Some st" and ow': "ow' = putOutboxState tx ?st ?n ow"
      and adv: "advances heap (outboxAllocated ow) st ?n ?st"
    show ?thesis
    proof (cases "truthy tx")
      case True
      from found [OF st True] obtain b before where r: "running = Some (tx, b, before)" "outboxTransactions ow = [(tx, st)]"
        "outboxInv before" "extendsOutbox before st" "cellsNumbered heap (outboxAllocated ow) (messages before)" by blast
      from adv obtain heap' where h: "outboxInv ?st" "outboxAllocated ow \<le> ?n" "\<forall>m \<le> outboxAllocated ow. heap' m = heap m"
        "cellsNumbered heap' ?n (messages ?st)" unfolding advances_def by blast
      have "outboxTransactions ow' = [(tx, ?st)]" "outboxBase ow' = outboxBase ow" "outboxAllocated ow' = ?n"
        using True r(2) by (simp_all add: ow' putOutboxState_def)
      then show ?thesis
        using r h base True cellsNumbered_mono [OF r(5) h(2,3)] cellsNumbered_mono [OF num h(2,3)] extendsOutbox_afterBatch [OF r(4)]
        by (auto simp: storesInv_def Let_def)
    next
      case False
      then have "st = outboxBase ow" using st by (simp add: memoryOutboxStateFor_def)
      with False adv have new: "outboxBase ow' = afterBatch (outboxBase ow) ms (outboxAllocated ow)"
        "outboxAllocated ow' = outboxAllocated ow + length (filter (isFresh (outboxBase ow)) ms)"
        "outboxTransactions ow' = outboxTransactions ow"
        by (simp_all add: ow' putOutboxState_def)
      from adv obtain heap' where h: "outboxInv ?st" "outboxAllocated ow \<le> ?n" "\<forall>m \<le> outboxAllocated ow. heap' m = heap m"
        "cellsNumbered heap' ?n (messages ?st)" unfolding advances_def by blast
      have "case running of None \<Rightarrow> outboxTransactions ow' = []
        | Some (tx, _, before) \<Rightarrow> \<exists>working. outboxTransactions ow' = [(tx, working)] \<and> truthy tx
            \<and> outboxInv before \<and> outboxInv working \<and> extendsOutbox before working
            \<and> cellsNumbered heap' (outboxAllocated ow') (messages before)
            \<and> cellsNumbered heap' (outboxAllocated ow') (messages working)"
        using run cellsNumbered_mono [OF _ h(2,3)] \<open>st = outboxBase ow\<close> unfolding new(2,3) by (cases running) auto
      with h new \<open>st = outboxBase ow\<close> show ?thesis unfolding storesInv_def Let_def fst_conv snd_conv by auto
    qed
  qed (use inv in simp)
qed

lemma storesInv_outbox:
  assumes inv: "storesInv ((w, ow, e), running)" and step: "runOutbox pf a ow = (r, ow')"
  shows "storesInv ((w, ow', e), running)"
proof -
  from inv obtain heap where base: "outboxInv (outboxBase ow)"
    and num: "cellsNumbered heap (outboxAllocated ow) (messages (outboxBase ow))" by (auto simp: storesInv_def Let_def)
  show ?thesis
  proof (cases a)
    case (Enqueue input tx)
    with step have "outboxEnqueue (fst pf) input tx ow = (r, ow')" by simp
    then show ?thesis by (cases rule: enqueue_single) (use inv storesInv_enqueue [OF inv] in auto)
  next
    case (EnqueueBatch input tx)
    with step show ?thesis using storesInv_enqueue [OF inv] by simp
  next
    case (ClaimBatch input)
    with step have s: "outboxClaimBatch input ow = (r, ow')" by simp
    show ?thesis by (rule storesInv_base [OF inv]) (erule claim_step(1) [OF s base], rule claim_step(4) [OF s base num])
  next
    case (RenewLease input)
    with step have s: "onLease isOutboxRenewLeaseInput renewMessage renewedLease input ow = (r, ow')" by (simp add: outboxRenewLease_def)
    note l = onLease_step [OF s base _ holderChange_renew]
    show ?thesis by (rule storesInv_base [OF inv]) (erule l(1), rule l(4) [OF num])
  next
    case (MarkDispatched input)
    with step have s: "onLease isOutboxMarkDispatchedInput dispatchMessage (\<lambda>_. JUndef) input ow = (r, ow')"
      by (simp add: outboxMarkDispatched_def)
    note l = onLease_step [OF s base _ holderChange_dispatch]
    show ?thesis by (rule storesInv_base [OF inv]) (erule l(1), rule l(4) [OF num])
  next
    case (MarkFailed input)
    with step have s: "onLease isOutboxMarkFailedInput failMessage (\<lambda>_. JUndef) input ow = (r, ow')"
      by (simp add: outboxMarkFailed_def)
    note l = onLease_step [OF s base _ holderChange_fail]
    show ?thesis by (rule storesInv_base [OF inv]) (erule l(1), rule l(4) [OF num])
  next
    case (CleanupTerminal input)
    with step have s: "outboxCleanupTerminal (snd pf) input ow = (r, ow')" by simp
    show ?thesis by (rule storesInv_base [OF inv]) (erule cleanup_step(1) [OF s base], rule cleanup_step(2) [OF s base num])
  qed
qed

section \<open>Commits\<close>

text \<open>The two maps of the outbox as maps of a memory state, to reuse what is known of commits.\<close>

definition outboxMaps :: "outboxState \<Rightarrow> memoryState" where
  "outboxMaps st = (\<lambda>k. if k = SChallenges then messages st else if k = SIdentitySubjects then idempotencyKeys st else [])"

lemma outboxMaps_simps [simp]:
  "outboxMaps st SChallenges = messages st" "outboxMaps st SIdentitySubjects = idempotencyKeys st"
  by (simp_all add: outboxMaps_def)

lemma outboxMaps_numbered:
  assumes "outboxInv st" and "cellsNumbered heap n (messages st)"
  shows "numbered heap n (outboxMaps st)"
  unfolding numbered_def
proof (intro allI impI)
  fix k key m v
  assume e: "map_of (outboxMaps st k) key = Some (m, v)"
  then consider "k = SChallenges" "map_of (messages st) key = Some (m, v)"
    | "k = SIdentitySubjects" "map_of (idempotencyKeys st) key = Some (m, v)"
    by (auto simp: outboxMaps_def split: if_splits)
  then show "if k \<in> set recordMaps then 0 < m \<and> m \<le> n \<and> heap m = v else m = 0"
  proof cases
    case 1
    from map_of_SomeD [OF 1(2)] assms(2) have "0 < m \<and> m \<le> n \<and> heap m = v" unfolding cellsNumbered_def by fastforce
    with 1(1) show ?thesis by simp
  next
    case 2
    with outboxInvD(5) [OF assms(1)] have "m = 0" unfolding indexOk_def by fastforce
    with 2(1) show ?thesis by simp
  qed
qed

lemma outboxInv_maps:
  assumes inv: "outboxInv st" and ms: "\<And>key. map_of (messages st') key = map_of (messages st) key"
    and ix: "\<And>key. map_of (idempotencyKeys st') key = map_of (idempotencyKeys st) key"
    and dist: "distinct (map fst (messages st'))" "distinct (map fst (idempotencyKeys st'))"
    and seq: "leaseSequence st' = leaseSequence st"
  shows "outboxInv st'"
proof -
  note I = outboxInvD [OF inv]
  have "messageOk (leaseSequence st') key m" if "(key, (i, m)) \<in> set (messages st')" for key i m
    using map_of_is_SomeI [OF dist(1) that] cellsOkD [OF I(3)] by (simp add: ms seq)
  moreover have "heldOnce (messages st')"
    using I(4) unfolding heldOnce_map [OF dist(1)] heldOnce_map [OF I(1)] ms .
  moreover have "indexOk (messages st') (idempotencyKeys st')" using I(5) unfolding indexOk_def ms ix .
  ultimately show ?thesis using dist by (simp add: outboxInv_def cellsOkI)
qed

lemma cellsNumbered_maps:
  assumes "cellsNumbered heap n cs" and "distinct (map fst cs')" and "\<And>key. map_of cs' key = map_of cs key"
  shows "cellsNumbered heap n cs'"
  unfolding cellsNumbered_def
proof
  fix e
  assume "e \<in> set cs'"
  then have "map_of cs' (fst e) = Some (snd e)" by (intro map_of_is_SomeI [OF assms(2)]) simp
  then have "e \<in> set cs" using assms(3) by (metis map_of_SomeD prod.collapse)
  with assms(1) show "0 < fst (snd e) \<and> fst (snd e) \<le> n \<and> heap (fst (snd e)) = snd (snd e)" by (simp add: cellsNumbered_def)
qed

text \<open>A commit makes the outbox that of the transaction, of which it was a copy.\<close>

lemma outbox_commit:
  assumes inv: "outboxInv base" "outboxInv before" "outboxInv working"
    and num: "cellsNumbered heap n (messages base)" "cellsNumbered heap n (messages before)" "cellsNumbered heap n (messages working)"
    and ext: "extendsOutbox before working" and can: "canCommitMemoryOutboxState base before working"
  shows "outboxInv (applyMemoryOutboxState base before working)"
    and "cellsNumbered heap n (messages (applyMemoryOutboxState base before working))"
    and "map_of (messages (applyMemoryOutboxState base before working)) key = map_of (messages working) key"
    and "map_of (messages base) key = map_of (messages before) key"
    and "leaseSequence base = leaseSequence before"
    and "extendsOutbox base (applyMemoryOutboxState base before working)"
proof -
  let ?st = "applyMemoryOutboxState base before working"
  note N = outboxMaps_numbered [OF inv(1) num(1)] outboxMaps_numbered [OF inv(2) num(2)] outboxMaps_numbered [OF inv(3) num(3)]
  from can have can': "mapsMatch (outboxMaps base SChallenges) (outboxMaps before SChallenges)"
    "mapsMatch (outboxMaps base SIdentitySubjects) (outboxMaps before SIdentitySubjects)"
    "leaseSequence base = leaseSequence before"
    by (simp_all add: canCommitMemoryOutboxState_def)
  note D = outboxInvD(1,2) [OF inv(1)] outboxInvD(1,2) [OF inv(2)]
  have same: "map_of (messages base) k = map_of (messages before) k" for k
    using mapsMatch_same [OF can'(1) N(1,2)] D by simp
  have isame: "map_of (idempotencyKeys base) k = map_of (idempotencyKeys before) k" for k
    using mapsMatch_same [OF can'(2) N(1,2)] D by simp
  have match: "entryMatches (messages before) (messages working) k \<longleftrightarrow> map_of (messages before) k = map_of (messages working) k"
    "entryMatches (idempotencyKeys before) (idempotencyKeys working) k \<longleftrightarrow> map_of (idempotencyKeys before) k = map_of (idempotencyKeys working) k" for k
    using numbered_matches [OF N(2,3), of SChallenges k] numbered_matches [OF N(2,3), of SIdentitySubjects k] by simp_all
  have look: "map_of (messages ?st) k = map_of (messages working) k" for k
    by (simp add: applyMemoryOutboxState_def map_of_applyChanges match same)
  have ilook: "map_of (idempotencyKeys ?st) k = map_of (idempotencyKeys working) k" for k
    by (simp add: applyMemoryOutboxState_def map_of_applyChanges match isame)
  have dist: "distinct (map fst (messages ?st))" "distinct (map fst (idempotencyKeys ?st))"
    using D(1,2) by (simp_all add: applyMemoryOutboxState_def distinct_applyChanges)
  have seq: "leaseSequence ?st = leaseSequence working"
    using ext can'(3) by (simp add: applyMemoryOutboxState_def extendsOutbox_def)
  show "outboxInv ?st" by (rule outboxInv_maps [OF inv(3) look ilook dist seq])
  show "cellsNumbered heap n (messages ?st)" by (rule cellsNumbered_maps [OF num(3) dist(1) look])
  show "map_of (messages ?st) key = map_of (messages working) key" by (rule look)
  show "map_of (messages base) key = map_of (messages before) key" by (rule same)
  show "leaseSequence base = leaseSequence before" by (rule can'(3))
  show "extendsOutbox base ?st" using ext can'(3) seq by (simp add: extendsOutbox_def look same)
qed

lemma settleStores_cases:
  assumes "settleStores tx before outboxBefore answer we = (r, we')"
  obtains (close) "we' = closeStores tx we"
  | (commit) "storesCanCommit tx before outboxBefore we" "we' = closeStores tx (applyStores tx before outboxBefore we)"
  using assms unfolding settleStores_def by (auto split: outcome.splits if_splits)

lemma storesInv_settle:
  assumes inv: "storesInv (we, Some (tx, before, outboxBefore))" and step: "settleStores tx before outboxBefore answer we = (r, we')"
  shows "storesInv (we', None)" and "extendsOutbox (outboxBase (fst (snd we))) (outboxBase (fst (snd we')))"
proof -
  obtain w ow e where we: "we = (w, ow, e)" by (rule prod_cases3)
  from inv obtain heap working where base: "outboxInv (outboxBase ow)" "cellsNumbered heap (outboxAllocated ow) (messages (outboxBase ow))"
    and run: "outboxTransactions ow = [(tx, working)]" "outboxInv outboxBefore" "outboxInv working" "extendsOutbox outboxBefore working"
      "cellsNumbered heap (outboxAllocated ow) (messages outboxBefore)" "cellsNumbered heap (outboxAllocated ow) (messages working)"
    unfolding storesInv_def Let_def we by auto
  have "storesInv (we', None) \<and> extendsOutbox (outboxBase (fst (snd we))) (outboxBase (fst (snd we')))"
    using step
  proof (cases rule: settleStores_cases)
    case close
    then show ?thesis using base run(1) by (auto simp: we closeStores_def storesInv_def Let_def extendsOutbox_def)
  next
    case commit
    then have can: "canCommitMemoryOutboxState (outboxBase ow) outboxBefore working"
      by (simp add: we storesCanCommit_def workingOf_def run(1))
    note c = outbox_commit [OF base(1) run(2,3) base(2) run(5,6,4) can]
    have "outboxBase (fst (snd we')) = applyMemoryOutboxState (outboxBase ow) outboxBefore working"
      "outboxTransactions (fst (snd we')) = []" "outboxAllocated (fst (snd we')) = outboxAllocated ow"
      unfolding commit(2) we by (simp_all add: closeStores_def applyStores_def workingOf_def run(1))
    with c(1,2,6) show ?thesis by (auto simp: storesInv_def Let_def we)
  qed
  then show "storesInv (we', None)" "extendsOutbox (outboxBase (fst (snd we))) (outboxBase (fst (snd we')))" by blast+
qed

lemma storesInv_opens:
  assumes inv: "storesInv (we, None)" and step: "beginStores scopes we = (tx, we')"
  shows "storesInv (we', Some (tx, baseState (fst we), outboxBase (fst (snd we))))"
    and "outboxBase (fst (snd we')) = outboxBase (fst (snd we))"
proof -
  obtain w ow e where we: "we = (w, ow, e)" by (rule prod_cases3)
  from step have "truthy tx" and we': "outboxBase (fst (snd we')) = outboxBase ow"
    "outboxTransactions (fst (snd we')) = AList.update tx (outboxBase ow) (outboxTransactions ow)"
    "outboxAllocated (fst (snd we')) = outboxAllocated ow"
    by (auto simp: we beginStores_def beginTransaction_def newTransaction_def Let_def)
  then show "storesInv (we', Some (tx, baseState (fst we), outboxBase (fst (snd we))))"
    using inv by (auto simp: storesInv_def Let_def we extendsOutbox_def)
  show "outboxBase (fst (snd we')) = outboxBase (fst (snd we))" using we' by (simp add: we)
qed

lemma storesInv_step: "storesInv s \<Longrightarrow> storesStep pf a s s' \<Longrightarrow> storesInv s'"
proof (erule storesStepE)
  fix scope operation input tx w r w' ow e running
  assume "storesInv s" "s = ((w, ow, e), running)" "s' = ((w', ow, e), running)"
  then show "storesInv s'" by (simp add: storesInv_def)
qed (auto dest: storesInv_outbox storesInv_opens(1) storesInv_settle(1))

lemma storesInv_reachable: "storesReachable pf s \<Longrightarrow> storesInv s"
  by (induction rule: storesReachable.induct) (use storesInv_start storesInv_step in auto)

lemma outboxInv_reachable: "storesReachable pf s \<Longrightarrow> outboxInv (outboxBase (outboxOf s))"
  using storesInv_reachable by (auto simp: storesInv_def Let_def)

end
