(* ===== verification/OutboxProperties.thy ===== *)
theory OutboxProperties
  imports OutboxRuns
begin

text \<open>
  What the memory outbox guarantees in every run: well-formed messages and leases, the exclusive
  lease, fair hand-out, one message per idempotency key, and transactions over both stores.
\<close>

section \<open>What a step leaves alone\<close>






section \<open>The holder's lease\<close>



lemma enqueue_keeps:
  assumes "outboxEnqueueBatch scalarText input tx w = (r, w')" and inv: "outboxInv (outboxBase w)"
    and "cellsNumbered heap (outboxAllocated w) (messages (outboxBase w))"
    and m: "map_of (messages (outboxBase w)) key = Some c"
  shows "map_of (messages (outboxBase w')) key = Some c"
proof (cases "truthy tx")
  case True
  have "outboxBase w' = outboxBase w"
    using assms(1) True unfolding outboxEnqueueBatch_def Let_def
    by (auto simp: putOutboxState_def simp del: fld.simps split: option.splits if_splits outcome.splits prod.splits)
  with m show ?thesis by simp
next
  case False
  then have "memoryOutboxStateFor w tx = Some (outboxBase w)" by (simp add: memoryOutboxStateFor_def)
  then have "\<forall>st. memoryOutboxStateFor w tx = Some st \<longrightarrow> outboxInv st \<and> cellsNumbered heap (outboxAllocated w) (messages st)"
    using assms(2,3) by simp
  from enqueue_step [OF assms(1) this] m show ?thesis
    by (elim disjE exE conjE) (use False in \<open>auto simp: memoryOutboxStateFor_def putOutboxState_def afterBatch_def map_of_app
        simp del: map_of_append\<close>)
qed


section \<open>What a claim hands out\<close>






section \<open>Messages that stay\<close>

definition cleansUp :: "outboxOperation option \<Rightarrow> bool" where
  "cleansUp a = (case a of Some (CleanupTerminal _) \<Rightarrow> True | _ \<Rightarrow> False)"

lemma kept_step:
  assumes step: "storesStep pf a s s'" and inv: "storesInv s" and m: "map_of (messages (outboxBase (outboxOf s))) key = Some (i, m)"
    and keep: "\<not> cleansUp a"
  shows "\<exists>j m'. map_of (messages (outboxBase (outboxOf s'))) key = Some (j, m') \<and> movesOn m m'"
proof -
  have base: "outboxInv (outboxBase (outboxOf s))" using inv by (auto simp: storesInv_def Let_def)
  have "is_obj m" using cellsOkD [OF outboxInvD(3) [OF base] m] by (simp add: messageOk_def)
  then have stays: ?thesis if "map_of (messages (outboxBase (outboxOf s'))) key = Some (i, m)"
    using that movesOn_refl by blast
  from step show ?thesis
  proof (rule storesStepE)
    fix b ow r ow' w e running
    assume s: "a = Some b" "s = ((w, ow, e), running)" "s' = ((w, ow', e), running)" and run: "runOutbox pf b ow = (r, ow')"
    from inv s obtain heap where base: "outboxInv (outboxBase ow)" "cellsNumbered heap (outboxAllocated ow) (messages (outboxBase ow))"
      by (auto simp: storesInv_def Let_def)
    have m': "map_of (messages (outboxBase ow)) key = Some (i, m)" using m s by simp
    have moves: ?thesis if "movesEach (messages (outboxBase ow)) (messages (outboxBase ow'))"
      using movesEach_Some [OF that m'] s by simp
    show ?thesis
    proof (cases b)
      case (Enqueue input tx)
      with run have "outboxEnqueue (fst pf) input tx ow = (r, ow')" by simp
      then have "map_of (messages (outboxBase ow')) key = Some (i, m)"
        by (cases rule: enqueue_single) (use m' enqueue_keeps [OF _ base m'] in auto)
      with stays s show ?thesis by simp
    next
      case (EnqueueBatch input tx)
      with run enqueue_keeps [OF _ base m'] stays s show ?thesis by simp
    next
      case (ClaimBatch input)
      with run claim_step(2) [OF _ base] moves show ?thesis by simp
    next
      case (RenewLease input)
      with run onLease_step(2) [OF _ base holderChange_renew] moves show ?thesis by (simp add: outboxRenewLease_def)
    next
      case (MarkDispatched input)
      with run onLease_step(2) [OF _ base holderChange_dispatch] moves show ?thesis by (simp add: outboxMarkDispatched_def)
    next
      case (MarkFailed input)
      with run onLease_step(2) [OF _ base holderChange_fail] moves show ?thesis by (simp add: outboxMarkFailed_def)
    qed (use keep s in \<open>simp add: cleansUp_def\<close>)
  next
    fix tx before outboxBefore answer we r we'
    assume s: "s = (we, Some (tx, before, outboxBefore))" "s' = (we', None)" and st: "settleStores tx before outboxBefore answer we = (r, we')"
    from storesInv_settle(2) [OF inv [unfolded s(1)] st] m s show ?thesis by (intro stays) (simp add: extendsOutbox_def)
  next
    fix scopes we tx we'
    assume s: "s = (we, None)" "s' = (we', Some (tx, baseState (fst we), outboxBase (fst (snd we))))" and st: "beginStores scopes we = (tx, we')"
    from storesInv_opens(2) [OF inv [unfolded s(1)] st] m s show ?thesis by (intro stays) simp
  qed (use m stays in simp)
qed

lemma kept_steps:
  assumes "storesReachable pf s" and "map_of (messages (outboxBase (outboxOf s))) key = Some (i, m)"
    and "(\<lambda>s s'. \<exists>a. storesStep pf a s s' \<and> \<not> cleansUp a)\<^sup>*\<^sup>* s s'"
  shows "storesReachable pf s' \<and> (\<exists>j m'. map_of (messages (outboxBase (outboxOf s'))) key = Some (j, m') \<and> movesOn m m')"
  using assms(3)
proof (induction rule: rtranclp_induct)
  case base
  have "is_obj m" using cellsOkD [OF outboxInvD(3) [OF outboxInv_reachable [OF assms(1)]] assms(2)] by (simp add: messageOk_def)
  with assms(1,2) movesOn_refl show ?case by blast
next
  case (step s1 s2)
  then obtain a j m1 where a: "storesStep pf a s1 s2" "\<not> cleansUp a" and r: "storesReachable pf s1"
    and m1: "map_of (messages (outboxBase (outboxOf s1))) key = Some (j, m1)" "movesOn m m1" by blast
  from kept_step [OF a(1) storesInv_reachable [OF r] m1(1) a(2)] m1(2) movesOn_trans storesReachable.step [OF r a(1)]
  show ?case by blast
qed

text \<open>A batch of one message that is known by its idempotency key changes nothing.\<close>

lemma known_enqueue:
  assumes inv: "outboxInv (outboxBase ow)" and m: "map_of (messages (outboxBase ow)) key = Some (i, m)" "hasIdempotencyKey m"
    and again: "admittedBatch scalarText input = Some [m']" "hasIdempotencyKey m'" "idempotencyKeyOf m' = idempotencyKeyOf m"
  shows "outboxEnqueueBatch scalarText input JUndef ow = (Ret (memOk (JArr [withoutLease m])), ow)"
proof -
  let ?st = "outboxBase ow"
  have for_: "memoryOutboxStateFor ow JUndef = Some ?st" by (simp add: memoryOutboxStateFor_def)
  have new: "newMessage m'" using admittedBatch_new [OF again(1)] by simp
  have "map_of (idempotencyKeys ?st) (idempotencyKeyOf m') \<noteq> None"
    using outboxInvD(5) [OF inv] m again(3) unfolding indexOk_def hasIdempotencyKey_def by (metis option.distinct(1))
  with again(2) have known: "\<not> isFresh ?st m'" by (simp add: isFresh_def)
  from stored_under_key [OF inv new known] obtain key' i' e where e: "map_of (messages ?st) key' = Some (i', e)" "storedUnder ?st m' = e"
    and same: "fld e ''idempotencyKey'' = fld m' ''idempotencyKey''" "fld e ''tenantId'' = fld m' ''tenantId''" by metis
  have "idempotencyKeyOf e = idempotencyKeyOf m" using same again(3) by (simp add: idempotencyKeyOf_def)
  with indexed_once [OF inv e(1) m(1)] same(1) again(2) m(2) have "key' = key"
    by (simp add: hasIdempotencyKey_def)
  with e m(1) have "storedUnder ?st m' = m" by simp
  then show ?thesis
    using outboxEnqueueBatch_spec [OF for_ inv, of scalarText input] known
    by (simp add: again(1) batchAccepted_def acknowledged_def afterBatch_def putOutboxState_def newIndex_def)
qed

section \<open>Example runs\<close>

text \<open>A message, its enqueueing, and its claim by a worker.\<close>

definition aMessage :: jsv where
  "aMessage = obj [(''tenantId'', JStr ''t''), (''messageId'', JStr ''m''), (''context'', obj [(''tenantId'', JStr ''t'')]),
     (''secretPurpose'', JStr (outboxSecretPurpose ''t'' ''m'')), (''type'', JStr ''delivery''),
     (''message'', obj [(''to'', obj [(''channel'', JStr ''email''), (''target'', JStr ''a'')]), (''templateId'', JStr ''x'')]),
     (''dispatchPolicy'', JStr ''required''), (''idempotencyKey'', JStr ''k''), (''status'', JStr ''pending''),
     (''attempts'', JNum 0), (''maxAttempts'', JNum 3), (''availableAt'', JDate (Some 0)),
     (''createdAt'', JDate (Some 0)), (''updatedAt'', JDate (Some 0))]"

definition aBatch :: jsv where
  "aBatch = obj [(''messages'', JArr [aMessage])]"

definition messageName :: jsv where
  "messageName = JStr [CHR ''t'', CHR 0x00, CHR ''m'']"

definition keyName :: jsv where
  "keyName = JStr [CHR ''t'', CHR 0x00, CHR ''k'']"

definition enqueuedOutbox :: outboxWorld where
  "enqueuedOutbox = \<lparr>outboxBase = \<lparr>messages = [(messageName, (1, aMessage))],
     idempotencyKeys = [(keyName, (0, JStr ''m''))], leaseSequence = 0\<rparr>, outboxTransactions = [], outboxAllocated = 1\<rparr>"


lemma aMessage_parts: "cloneRecord aMessage = Some aMessage"
  "isDispatchContext (fld aMessage ''context'') (fld aMessage ''tenantId'')"
  "isPersistableDeliveryMessage (fld aMessage ''message'')"
  "isSafeText (fld aMessage ''secretPurpose'') 4096 True" "hasOnlyKeys aMessage outboxKeys"
  "fld aMessage ''secretPurpose'' = JStr (outboxSecretPurpose (template (fld aMessage ''tenantId'')) (template (fld aMessage ''messageId'')))"
  by code_simp+

lemma aMessage_copy: "snapshotRecord aMessage isNewPersistableOutboxMessage = Some aMessage"
proof -
  have "isNewPersistableOutboxMessage aMessage"
    unfolding isNewPersistableOutboxMessage_def
    by (intro conjI; (rule aMessage_parts)?; code_simp)
  then show ?thesis by (simp only: snapshotRecord_def aMessage_parts option.case if_True)
qed

lemma aMessage_count: "outboxMessageCharacterCount (\<lambda>_. '''') aMessage = Some 69"
  by code_simp

lemma aBatch_admitted: "admittedBatch (\<lambda>_. '''') aBatch = Some [aMessage]"
proof -
  have "arr_elems (fld aBatch ''messages'') = [aMessage]" "is_arr (fld aBatch ''messages'')" by (simp_all add: aBatch_def)
  moreover have "read_elem aMessage = aMessage" by (simp add: aMessage_def read_elem_def)
  moreover have "payloadWithin (\<lambda>_. '''') 0 [aMessage]" by (simp add: aMessage_count)
  ultimately show ?thesis by (simp add: admittedBatch_def aMessage_copy del: payloadWithin.simps)
qed

lemma aMessage_text: "fld aMessage ''tenantId'' = JStr ''t''" "fld aMessage ''messageId'' = JStr ''m''"
  "fld aMessage ''idempotencyKey'' = JStr ''k''" "fld aMessage ''status'' = JStr ''pending''"
  by (simp_all add: aMessage_def)

lemma aBatch_enqueued: "outboxEnqueueBatch (\<lambda>_. '''') aBatch JUndef emptyOutboxWorld = (Ret (memOk (JArr [aMessage])), enqueuedOutbox)"
proof -
  have "memoryOutboxStateFor emptyOutboxWorld JUndef = Some createEmptyMemoryOutboxState"
    by (simp add: memoryOutboxStateFor_def emptyOutboxWorld_def)
  from outboxEnqueueBatch_spec [OF this outboxInv_empty, of "\<lambda>_. ''''" aBatch] aMessage_text show ?thesis
    by (simp add: aBatch_admitted batchAccepted_def acknowledged_def afterBatch_def putOutboxState_def newIndex_def isFresh_def
        createEmptyMemoryOutboxState_def emptyOutboxWorld_def enqueuedOutbox_def hasIdempotencyKey_def idempotencyKeyOf_def
        messageName_def keyName_def outboxKey_def messageKeyOf_def)
qed
definition claimAt :: "string \<Rightarrow> int \<Rightarrow> jsv" where
  "claimAt worker now = obj [(''now'', JDate (Some now)), (''limit'', JNum 10), (''workerId'', JStr worker), (''leaseSeconds'', JNum 60)]"

definition claimedMessage :: jsv where
  "claimedMessage = spread aMessage [(''status'', JStr ''claimed''),
     (''lease'', obj [(''leaseId'', JStr ''lease_1''), (''workerId'', JStr ''w''), (''leaseUntil'', JDate (Some 60001))]),
     (''updatedAt'', JDate (Some 1))]"

definition claimedOutbox :: outboxWorld where
  "claimedOutbox = \<lparr>outboxBase = \<lparr>messages = [(messageName, (2, claimedMessage))],
     idempotencyKeys = [(keyName, (0, JStr ''m''))], leaseSequence = 1\<rparr>, outboxTransactions = [], outboxAllocated = 2\<rparr>"

lemma aMessage_claimed: "outboxClaimBatch (claimAt ''w'' 1) enqueuedOutbox = (Ret (memOk (JArr [claimedMessage])), claimedOutbox)"
  by code_simp

text \<open>Number and date formatting and a collation for the runs below; they use neither.\<close>

definition plain :: platform where
  "plain = (\<lambda>_. '''', \<lambda>_ _. 0)"

lemma enqueued_reachable: "storesReachable plain ((emptyWorld, enqueuedOutbox, ()), None)"
proof -
  have "runOutbox plain (EnqueueBatch aBatch JUndef) emptyOutboxWorld = (Ret (memOk (JArr [aMessage])), enqueuedOutbox)"
    using aBatch_enqueued by (simp add: plain_def)
  from storesReachable.step [OF storesReachable.start [unfolded emptyStores_def] storesStep.outbox [OF this]] show ?thesis .
qed

lemma claim_runs: "storesStep plain (Some (ClaimBatch (claimAt ''w'' 1)))
    ((emptyWorld, enqueuedOutbox, ()), None) ((emptyWorld, claimedOutbox, ()), None)"
  by (rule storesStep.outbox) (simp add: aMessage_claimed)

lemmas claimed_reachable = storesReachable.step [OF enqueued_reachable claim_runs]

lemma stored_messages: "map_of (messages (outboxBase enqueuedOutbox)) messageName = Some (1, aMessage)"
  "map_of (messages (outboxBase claimedOutbox)) messageName = Some (2, claimedMessage)"
  by (simp_all add: enqueuedOutbox_def claimedOutbox_def)

lemma aMessage_keyed: "hasIdempotencyKey aMessage"
  by (simp add: hasIdempotencyKey_def aMessage_text)

text \<open>A transaction over both stores, and the same after it has enqueued the message.\<close>

definition aTransaction :: jsv where
  "aTransaction = newTransaction 1 [JStr ''outbox'']"

definition openedWorld :: memoryWorld where
  "openedWorld = emptyWorld\<lparr>transactionStates := [(aTransaction, emptyState)], transactionSequence := 1\<rparr>"

definition openedOutbox :: outboxWorld where
  "openedOutbox = emptyOutboxWorld\<lparr>outboxTransactions := [(aTransaction, createEmptyMemoryOutboxState)]\<rparr>"

definition writtenOutbox :: outboxWorld where
  "writtenOutbox = openedOutbox\<lparr>outboxTransactions := [(aTransaction, outboxBase enqueuedOutbox)], outboxAllocated := 1\<rparr>"

lemma transaction_opens: "beginStores [JStr ''outbox''] (emptyWorld, emptyOutboxWorld, ()) = (aTransaction, (openedWorld, openedOutbox, ()))"
  by (simp add: beginStores_def beginTransaction_def emptyWorld_def emptyOutboxWorld_def openedWorld_def openedOutbox_def
      aTransaction_def Let_def)

lemma transaction_truthy: "truthy aTransaction" "fld aTransaction ''covers'' = JArr [JStr ''outbox'']"
  by (simp_all add: aTransaction_def newTransaction_def read_elem_def)

lemma transaction_writes: "outboxEnqueueBatch (\<lambda>_. '''') aBatch aTransaction openedOutbox = (Ret (memOk (JArr [aMessage])), writtenOutbox)"
proof -
  have "memoryOutboxStateFor openedOutbox aTransaction = Some createEmptyMemoryOutboxState"
    by (simp add: memoryOutboxStateFor_def openedOutbox_def transaction_truthy)
  from outboxEnqueueBatch_spec [OF this outboxInv_empty, of "\<lambda>_. ''''" aBatch] aMessage_text show ?thesis
    by (simp add: aBatch_admitted batchAccepted_def acknowledged_def afterBatch_def putOutboxState_def newIndex_def isFresh_def
        createEmptyMemoryOutboxState_def emptyOutboxWorld_def enqueuedOutbox_def hasIdempotencyKey_def idempotencyKeyOf_def
        messageName_def keyName_def outboxKey_def messageKeyOf_def writtenOutbox_def openedOutbox_def transaction_truthy)
qed

lemma written_reachable: "storesReachable plain ((openedWorld, writtenOutbox, ()), Some (aTransaction, emptyState, createEmptyMemoryOutboxState))"
proof -
  have "storesStep plain None ((emptyWorld, emptyOutboxWorld, ()), None)
      ((openedWorld, openedOutbox, ()), Some (aTransaction, emptyState, createEmptyMemoryOutboxState))"
    using storesStep.opens [OF transaction_opens, of plain] by (simp add: emptyWorld_def emptyOutboxWorld_def)
  from storesReachable.step [OF storesReachable.start [unfolded emptyStores_def] this]
  have r: "storesReachable plain ((openedWorld, openedOutbox, ()), Some (aTransaction, emptyState, createEmptyMemoryOutboxState))" .
  have "runOutbox plain (EnqueueBatch aBatch aTransaction) openedOutbox = (Ret (memOk (JArr [aMessage])), writtenOutbox)"
    using transaction_writes by (simp add: plain_def)
  from storesReachable.step [OF r storesStep.outbox [OF this]] show ?thesis .
qed

lemma written_settles: "settleStores aTransaction emptyState createEmptyMemoryOutboxState (Ret (memOk JNull)) (openedWorld, writtenOutbox, ())
    = (memOk JNull, closeStores aTransaction (applyStores aTransaction emptyState createEmptyMemoryOutboxState (openedWorld, writtenOutbox, ())))"
proof -
  have "storesCanCommit aTransaction emptyState createEmptyMemoryOutboxState (openedWorld, writtenOutbox, ())"
    using canCommit_unchanged by (simp add: storesCanCommit_def workingOf_def openedWorld_def writtenOutbox_def openedOutbox_def
        emptyWorld_def emptyOutboxWorld_def canCommitMemoryOutboxState_def mapsMatch_def createEmptyMemoryOutboxState_def
        enqueuedOutbox_def hasConflict_def unionKeys_def entryMatches_def)
  then show ?thesis by (simp add: settleStores_def memOk_def nullish_def)
qed

section \<open>The properties\<close>

text \<open>
  C32. The invariant of the memory outbox (\<open>createMemoryOutboxStoreForState\<close>), in every run of the
  stores and their transactions: a message is stored under its tenant and identifier, its attempts
  stay within the maximum, it carries a lease exactly while it is claimed, no two messages carry the
  same lease, and the index holds exactly the messages with an idempotency key.
\<close>

theorem outbox_invariant:
  assumes "storesReachable pf s"
  shows "outboxInv (outboxBase (outboxOf s))"
  using assms by (rule outboxInv_reachable)

theorem outbox_invariant_witness:
  "outboxInv (outboxBase claimedOutbox)"
  using outbox_invariant [OF claimed_reachable] by simp





text \<open>
  C35. One message per idempotency key: once a message with an idempotency key is stored, then in
  whatever state later operations and transactions have brought it, until a clean-up, enqueueing
  another message with its key changes nothing and answers the stored message without its lease.
\<close>

theorem enqueue_once:
  assumes "storesReachable pf s" and "map_of (messages (outboxBase (outboxOf s))) key = Some (i, m)" and "hasIdempotencyKey m"
    and "(\<lambda>s s'. \<exists>a. storesStep pf a s s' \<and> \<not> cleansUp a)\<^sup>*\<^sup>* s s'"
    and "admittedBatch scalarText input = Some [m']" and "hasIdempotencyKey m'" and "idempotencyKeyOf m' = idempotencyKeyOf m"
  shows "\<exists>j stored. map_of (messages (outboxBase (outboxOf s'))) key = Some (j, stored) \<and> movesOn m stored
    \<and> outboxEnqueueBatch scalarText input JUndef (outboxOf s') = (Ret (memOk (JArr [withoutLease stored])), outboxOf s')"
proof -
  from kept_steps [OF assms(1,2,4)] obtain j stored where r: "storesReachable pf s'"
    and m: "map_of (messages (outboxBase (outboxOf s'))) key = Some (j, stored)" "movesOn m stored" by blast
  have "hasIdempotencyKey stored" "idempotencyKeyOf m' = idempotencyKeyOf stored"
    using movesOn_fixed [OF m(2)] assms(3,7) by (simp_all add: hasIdempotencyKey_def)
  from known_enqueue [OF outboxInv_reachable [OF r] m(1) this(1) assms(5,6) this(2)] m show ?thesis by blast
qed

theorem enqueue_once_witness:
  "outboxEnqueueBatch (\<lambda>_. '''') aBatch JUndef claimedOutbox = (Ret (memOk (JArr [withoutLease claimedMessage])), claimedOutbox)"
proof -
  have "\<not> cleansUp (Some (ClaimBatch (claimAt ''w'' 1)))" by (simp add: cleansUp_def)
  with claim_runs have "(\<lambda>s s'. \<exists>a. storesStep plain a s s' \<and> \<not> cleansUp a)\<^sup>*\<^sup>*
      ((emptyWorld, enqueuedOutbox, ()), None) ((emptyWorld, claimedOutbox, ()), None)" by blast
  from enqueue_once [OF enqueued_reachable, of messageName 1 aMessage, OF _ aMessage_keyed this aBatch_admitted aMessage_keyed]
  show ?thesis by (simp add: stored_messages)
qed

text \<open>
  C36. A transaction over the stores and their outbox (\<open>createMemoryAuthOutboxStores\<close>) ends for both
  or for neither: when its answer is a success, the stores have merged their part of it and the
  outbox holds the transaction's messages; otherwise both are as they were.
\<close>

theorem stores_commit_together:
  assumes "storesReachable pf ((w, ow, e), Some (tx, before, outboxBefore))"
    and "settleStores tx before outboxBefore answer (w, ow, e) = (r, (w', ow', e'))"
  shows "if truthy (fld r ''ok'')
    then answer = Ret r
      \<and> baseState w' = applyTransactionState (baseState w) before (workingOf tx before (transactionStates w))
      \<and> map_of (messages (outboxBase ow')) key = map_of (messages (workingOf tx outboxBefore (outboxTransactions ow))) key
      \<and> extendsOutbox (outboxBase ow) (outboxBase ow')
    else baseState w' = baseState w \<and> outboxBase ow' = outboxBase ow"
proof -
  let ?we = "(w, ow, e)"
  from storesInv_reachable [OF assms(1)] obtain heap working where
    base: "outboxInv (outboxBase ow)" "cellsNumbered heap (outboxAllocated ow) (messages (outboxBase ow))"
    and run: "outboxTransactions ow = [(tx, working)]" "outboxInv outboxBefore" "outboxInv working" "extendsOutbox outboxBefore working"
      "cellsNumbered heap (outboxAllocated ow) (messages outboxBefore)" "cellsNumbered heap (outboxAllocated ow) (messages working)"
    unfolding storesInv_def Let_def by auto
  have no: "\<not> truthy (fld transactionError ''ok'')" by (simp add: transactionError_def)
  show ?thesis
  proof (cases "\<exists>result. answer = Ret result \<and> \<not> nullish result \<and> truthy (fld result ''ok'') \<and> storesCanCommit tx before outboxBefore ?we")
    case True
    then obtain result where ok: "answer = Ret result" "\<not> nullish result" "truthy (fld result ''ok'')"
      and can: "storesCanCommit tx before outboxBefore ?we" by blast
    with assms(2) have r: "r = result" and we': "(w', ow', e') = closeStores tx (applyStores tx before outboxBefore ?we)"
      by (simp_all add: settleStores_def del: fld.simps)
    have c: "canCommitMemoryOutboxState (outboxBase ow) outboxBefore working"
      using can by (simp add: storesCanCommit_def workingOf_def run(1))
    note o = outbox_commit [OF base(1) run(2,3) base(2) run(5,6,4) c]
    from we' have "baseState w' = applyTransactionState (baseState w) before (workingOf tx before (transactionStates w))"
      "outboxBase ow' = applyMemoryOutboxState (outboxBase ow) outboxBefore working"
      by (simp_all add: closeStores_def applyStores_def workingOf_def run(1))
    with o(3) [of key] o(6) ok r show ?thesis by (simp add: workingOf_def run(1) del: fld.simps)
  next
    case False
    then have "(w', ow', e') = closeStores tx ?we" and "\<not> truthy (fld r ''ok'')"
      using assms(2) no unfolding settleStores_def by (auto simp del: fld.simps split: outcome.splits if_splits)
    then show ?thesis by (simp add: closeStores_def del: fld.simps)
  qed
qed

theorem stores_commit_together_witness:
  "map_of (messages (outboxBase (fst (snd (snd (settleStores aTransaction emptyState createEmptyMemoryOutboxState
     (Ret (memOk JNull)) (openedWorld, writtenOutbox, ()))))))) messageName = Some (1, aMessage)"
proof -
  obtain w' ow' where s: "settleStores aTransaction emptyState createEmptyMemoryOutboxState (Ret (memOk JNull)) (openedWorld, writtenOutbox, ())
      = (memOk JNull, (w', ow', ()))" using written_settles by (metis prod_cases3 unit_eq)
  from stores_commit_together [OF written_reachable s, of messageName]
  have "map_of (messages (outboxBase ow')) messageName = Some (1, aMessage)"
    by (simp add: memOk_def workingOf_def writtenOutbox_def openedOutbox_def stored_messages)
  then show ?thesis unfolding s by simp
qed

end
