(* ===== verification/WorkerValidation.thy ===== *)
theory WorkerValidation
  imports OutboxValidation
begin

text \<open>
  What \<open>packages/outbox-worker\<close> checks and copies: \<open>shared/json.ts\<close>, \<open>shared/context.ts\<close>,
  \<open>shared/result.ts\<close>, \<open>delivery/validation.ts\<close>, \<open>worker/validation.ts\<close> and the answers of
  \<open>worker/operations.ts\<close>. Its \<open>isJsonValue\<close> decides as the one of core, with its text and node
  budget, and stands for it here; \<open>undefined\<close> and \<open>null\<close> results are \<open>None\<close>. A copy of a date is
  the date.
\<close>

section \<open>JSON\<close>

definition workerJsonObject :: "jsv \<Rightarrow> bool" where
  "workerJsonObject v = (isPlainObject v \<and> isJsonFields (obj_entries v) 0 start_traversal \<noteq> None)"

definition areJsonValues :: "jsv list \<Rightarrow> bool" where
  "areJsonValues values = (isJsonList values 0 start_traversal \<noteq> None)"

fun cloneJson :: "jsv \<Rightarrow> jsv"
  and cloneJsonItems :: "jsv list \<Rightarrow> jsv list"
  and cloneJsonEntries :: "(string \<times> jsv) list \<Rightarrow> (string \<times> jsv) list" where
  "cloneJson (JArr xs) = JArr (cloneJsonItems xs)"
| "cloneJson (JObj p kvs) = JObj True (cloneJsonEntries kvs)"
| "cloneJson (JBytes bs) = JObj True (obj_entries (JBytes bs))"
| "cloneJson (JDate d) = JObj True []"
| "cloneJson v = v"
| "cloneJsonItems [] = []"
| "cloneJsonItems (x # xs) = cloneJson x # cloneJsonItems xs"
| "cloneJsonEntries [] = []"
| "cloneJsonEntries ((k, x) # kvs) = (k, cloneJson x) # cloneJsonEntries kvs"

definition clonePublicData :: "jsv \<Rightarrow> jsv" where
  "clonePublicData v = JObj True (cloneJsonEntries (obj_entries v))"

section \<open>Contexts\<close>

text \<open>\<open>v === undefined ? undefined : structuredClone(v)\<close>; \<open>None\<close> is a throw.\<close>

definition cloneOptional :: "jsv \<Rightarrow> jsv option" where
  "cloneOptional v = (if v = JUndef then Some JUndef else structuredClone v)"

definition normalizeDispatchContext :: "jsv \<Rightarrow> jsv option" where
  "normalizeDispatchContext context =
     (if \<not> isRecord context then None
      else case cloneOptional (fld context ''metadata'') of
        None \<Rightarrow> None
      | Some metadata \<Rightarrow>
          if \<not> isSafeText (fld context ''tenantId'') 512 True
             \<or> (fld context ''requestId'' \<noteq> JUndef \<and> \<not> isSafeText (fld context ''requestId'') 512 True)
             \<or> (fld context ''locale'' \<noteq> JUndef \<and> \<not> isSafeText (fld context ''locale'') 128 True)
             \<or> (metadata \<noteq> JUndef \<and> \<not> workerJsonObject metadata) then None
          else Some (obj ([(''tenantId'', fld context ''tenantId'')]
             @ given ''requestId'' (fld context ''requestId'')
             @ given ''locale'' (fld context ''locale'')
             @ (if metadata = JUndef then [] else [(''metadata'', clonePublicData metadata)]))))"

section \<open>Delivery messages\<close>

definition workerSealedSecret :: "jsv \<Rightarrow> bool" where
  "workerSealedSecret v =
     (isPlainObject v \<and> hasOnlyKeys v sealedValueKeys
      \<and> fld v ''type'' = JStr ''sealed-secret''
      \<and> isSafeText (fld v ''algorithm'') 256 True
      \<and> isSafeText (fld v ''keyId'') 512 True
      \<and> is_str (fld v ''redacted'')
      \<and> (fld v ''expiresAt'' = JUndef \<or> isValidDate (fld v ''expiresAt''))
      \<and> is_fun (fld v ''revealCiphertextForPersistence'')
      \<and> is_fun (fld v ''toJSON'')
      \<and> \<not> has_key ''reveal'' v \<and> \<not> has_key ''revealForPersistence'' v)"

definition isPersistedDeliveryData :: "jsv \<Rightarrow> bool" where
  "isPersistedDeliveryData v =
     (isPlainObject v \<and> length (obj_keys v) \<le> 1000
      \<and> areJsonValues (filter (\<lambda>item. \<not> workerSealedSecret item) (map snd (obj_entries v))))"

definition isPersistedDeliveryMessage :: "jsv \<Rightarrow> bool" where
  "isPersistedDeliveryMessage v =
     (isPlainObject v \<and> isPlainObject (fld v ''to'')
      \<and> hasOnlyKeys v messageKeys \<and> hasOnlyKeys (fld v ''to'') addressKeys
      \<and> isSafeText (fld (fld v ''to'') ''channel'') 64 True
      \<and> isSafeText (fld (fld v ''to'') ''target'') 2048 True
      \<and> (fld (fld v ''to'') ''display'' = JUndef \<or> isSafeText (fld (fld v ''to'') ''display'') 512 False)
      \<and> isSafeText (fld v ''templateId'') 256 True
      \<and> (fld v ''locale'' = JUndef \<or> isSafeText (fld v ''locale'') 128 True)
      \<and> (fld v ''data'' = JUndef \<or> isPersistedDeliveryData (fld v ''data''))
      \<and> (fld v ''metadata'' = JUndef \<or> workerJsonObject (fld v ''metadata'')))"

text \<open>
  The copy of a sealed secret and the characters used so far; the outer \<open>None\<close> is a throw, the
  inner one the result \<open>undefined\<close>.
\<close>

definition snapshotSealedSecret :: "jsv \<Rightarrow> nat \<Rightarrow> (jsv option \<times> nat) option" where
  "snapshotSealedSecret v budget =
     (if \<not> isPlainObject v \<or> \<not> hasOnlyKeys v sealedValueKeys then Some (None, budget)
      else if fld v ''type'' \<noteq> JStr ''sealed-secret''
        \<or> \<not> isSafeText (fld v ''algorithm'') 256 False
        \<or> \<not> isSafeText (fld v ''keyId'') 512 False
        \<or> (fld v ''expiresAt'' \<noteq> JUndef \<and> \<not> isValidDate (fld v ''expiresAt''))
        \<or> \<not> is_fun (fld v ''revealCiphertextForPersistence'')
        \<or> \<not> is_fun (fld v ''toJSON'') then Some (None, budget)
      else case call_thunk (fld v ''revealCiphertextForPersistence'') of
        None \<Rightarrow> None
      | Some ciphertext \<Rightarrow>
          if \<not> is_str ciphertext \<or> str_len ciphertext = 0 then Some (None, budget)
          else if 1000000 < budget + str_len ciphertext then Some (None, budget + str_len ciphertext)
          else Some (Some (obj [(''type'', JStr ''sealed-secret''), (''algorithm'', fld v ''algorithm''),
                 (''keyId'', fld v ''keyId''), (''redacted'', JStr ''[REDACTED]''), (''expiresAt'', fld v ''expiresAt''),
                 (''revealCiphertextForPersistence'', JFun (Some ciphertext)), (''toJSON'', JFun (Some (JStr ''[REDACTED]'')))]),
               budget + str_len ciphertext))"

text \<open>The entries of the data; \<open>None\<close> for a throw and for \<open>undefined\<close>, which the caller treats alike.\<close>

fun snapshotDeliveryEntries :: "(string \<times> jsv) list \<Rightarrow> nat \<Rightarrow> (string \<times> jsv) list option" where
  "snapshotDeliveryEntries [] budget = Some []"
| "snapshotDeliveryEntries ((key, item) # kvs) budget =
     (case snapshotSealedSecret item budget of
        None \<Rightarrow> None
      | Some (Some secret, budget') \<Rightarrow>
          map_option (\<lambda>rest. (key, secret) # rest) (snapshotDeliveryEntries kvs budget')
      | Some (None, budget') \<Rightarrow>
          (case structuredClone item of
             None \<Rightarrow> None
           | Some publicValue \<Rightarrow>
               if \<not> areJsonValues [publicValue] then None
               else map_option (\<lambda>rest. (key, publicValue) # rest) (snapshotDeliveryEntries kvs budget')))"

definition snapshotPersistedDeliveryData :: "jsv \<Rightarrow> jsv option" where
  "snapshotPersistedDeliveryData v =
     (if \<not> isPlainObject v \<or> 1000 < length (obj_keys v) then None
      else map_option obj (snapshotDeliveryEntries (obj_entries v) 0))"

definition snapshotPersistedDeliveryMessage :: "jsv \<Rightarrow> jsv option" where
  "snapshotPersistedDeliveryMessage v =
     (let to = fld v ''to'' in
      if \<not> isPlainObject v \<or> \<not> hasOnlyKeys v messageKeys \<or> \<not> isPlainObject to \<or> \<not> hasOnlyKeys to addressKeys
      then None
      else case (if fld v ''data'' = JUndef then Some JUndef else snapshotPersistedDeliveryData (fld v ''data''),
                 cloneOptional (fld v ''metadata'')) of
        (Some data, Some metadata) \<Rightarrow>
          if metadata \<noteq> JUndef \<and> \<not> workerJsonObject metadata then None
          else let snapshot = obj ([(''to'', obj ([(''channel'', fld to ''channel''), (''target'', fld to ''target'')]
                     @ given ''display'' (fld to ''display''))), (''templateId'', fld v ''templateId'')]
                   @ given ''locale'' (fld v ''locale'') @ given ''data'' data @ given ''metadata'' metadata)
               in if isPersistedDeliveryMessage snapshot then Some snapshot else None
      | _ \<Rightarrow> None)"

section \<open>Claimed messages\<close>

definition leasedKeys :: "string list" where
  "leasedKeys = [''attempts'', ''availableAt'', ''context'', ''createdAt'', ''dispatchPolicy'', ''expiresAt'',
     ''idempotencyKey'', ''lastFailureReason'', ''lease'', ''maxAttempts'', ''message'', ''messageId'', ''secretPurpose'',
     ''status'', ''tenantId'', ''type'', ''updatedAt'']"

definition isClaimedMessage :: "jsv \<Rightarrow> bool" where
  "isClaimedMessage v =
     (isRecord v \<and> hasOnlyKeys v leasedKeys
      \<and> isSafeText (fld v ''tenantId'') 512 True
      \<and> isSafeText (fld v ''messageId'') 512 True
      \<and> isRecord (fld v ''context'')
      \<and> fld (fld v ''context'') ''tenantId'' = fld v ''tenantId''
      \<and> normalizeDispatchContext (fld v ''context'') \<noteq> None
      \<and> isSafeText (fld v ''secretPurpose'') 4096 True
      \<and> fld v ''secretPurpose'' = JStr (outboxSecretPurpose (template (fld v ''tenantId'')) (template (fld v ''messageId'')))
      \<and> fld v ''type'' = JStr ''delivery''
      \<and> isPersistedDeliveryMessage (fld v ''message'')
      \<and> (fld v ''dispatchPolicy'' = JStr ''required'' \<or> fld v ''dispatchPolicy'' = JStr ''best-effort'')
      \<and> fld v ''status'' = JStr ''claimed''
      \<and> isNonNegativeInteger (fld v ''attempts'')
      \<and> isPositiveInteger (fld v ''maxAttempts'')
      \<and> num_val (fld v ''attempts'') < num_val (fld v ''maxAttempts'')
      \<and> (fld v ''lastFailureReason'' = JUndef \<or> isSafeText (fld v ''lastFailureReason'') 512 True)
      \<and> isRecord (fld v ''lease'')
      \<and> hasOnlyKeys (fld v ''lease'') [''leaseId'', ''leaseUntil'', ''workerId'']
      \<and> isSafeText (fld (fld v ''lease'') ''workerId'') 512 True
      \<and> isSafeText (fld (fld v ''lease'') ''leaseId'') 512 True
      \<and> isValidDate (fld (fld v ''lease'') ''leaseUntil'')
      \<and> (if fld v ''idempotencyKey'' = JUndef then fld v ''dispatchPolicy'' = JStr ''best-effort''
         else isSafeText (fld v ''idempotencyKey'') 512 True)
      \<and> (fld v ''expiresAt'' = JUndef \<or> isValidDate (fld v ''expiresAt''))
      \<and> isValidDate (fld v ''availableAt'')
      \<and> isValidDate (fld v ''createdAt'')
      \<and> isValidDate (fld v ''updatedAt''))"

definition snapshotClaimedMessage :: "jsv \<Rightarrow> jsv option" where
  "snapshotClaimedMessage v =
     (if \<not> isRecord v \<or> \<not> hasOnlyKeys v leasedKeys \<or> \<not> isRecord (fld v ''lease'') then None
      else let lease = fld v ''lease'';
               snapshot = obj [
                 (''tenantId'', fld v ''tenantId''), (''messageId'', fld v ''messageId''),
                 (''context'', case normalizeDispatchContext (fld v ''context'') of None \<Rightarrow> JNull | Some context \<Rightarrow> context),
                 (''secretPurpose'', fld v ''secretPurpose''), (''type'', fld v ''type''),
                 (''message'', case snapshotPersistedDeliveryMessage (fld v ''message'') of None \<Rightarrow> JUndef | Some m \<Rightarrow> m),
                 (''status'', fld v ''status''), (''attempts'', fld v ''attempts''), (''maxAttempts'', fld v ''maxAttempts''),
                 (''dispatchPolicy'', fld v ''dispatchPolicy''), (''idempotencyKey'', fld v ''idempotencyKey''),
                 (''lastFailureReason'', fld v ''lastFailureReason''), (''expiresAt'', fld v ''expiresAt''),
                 (''availableAt'', fld v ''availableAt''), (''createdAt'', fld v ''createdAt''), (''updatedAt'', fld v ''updatedAt''),
                 (''lease'', obj [(''leaseId'', fld lease ''leaseId''), (''workerId'', fld lease ''workerId''),
                    (''leaseUntil'', fld lease ''leaseUntil'')])]
           in if isClaimedMessage snapshot then Some snapshot else None)"

definition snapshotRunInput :: "jsv \<Rightarrow> jsv option" where
  "snapshotRunInput v =
     (if \<not> isRecord v \<or> \<not> hasOnlyKeys v [''limit'', ''now'', ''tenantId'']
         \<or> \<not> isValidDate (fld v ''now'')
         \<or> (fld v ''tenantId'' \<noteq> JUndef \<and> \<not> isSafeText (fld v ''tenantId'') 512 True)
         \<or> (fld v ''limit'' \<noteq> JUndef \<and> (\<not> isPositiveInteger (fld v ''limit'') \<or> 1000 < num_val (fld v ''limit''))) then None
      else Some (obj ([(''now'', fld v ''now'')] @ given ''tenantId'' (fld v ''tenantId'') @ given ''limit'' (fld v ''limit''))))"

section \<open>Answers of the collaborators\<close>

definition workerStoreErr :: "string \<Rightarrow> jsv" where
  "workerStoreErr reason = obj [(''ok'', JBool False), (''error'', obj [(''type'', JStr ''component.failure''),
     (''component'', JStr ''store''), (''reason'', JStr reason)])]"

definition deliveryFailure :: jsv where
  "deliveryFailure = obj [(''ok'', JBool False), (''error'', obj [(''type'', JStr ''component.failure''),
     (''component'', JStr ''delivery''), (''reason'', JStr ''DELIVERY_FAILED'')])]"

definition isFailureOf :: "string \<Rightarrow> jsv \<Rightarrow> bool" where
  "isFailureOf component v =
     (isRecord v \<and> hasOnlyKeys v [''component'', ''details'', ''reason'', ''type'']
      \<and> fld v ''type'' = JStr ''component.failure''
      \<and> fld v ''component'' = JStr component
      \<and> isSafeText (fld v ''reason'') 512 True
      \<and> (fld v ''details'' = JUndef \<or> workerJsonObject (fld v ''details'')))"

definition snapshotFailure :: "jsv \<Rightarrow> jsv" where
  "snapshotFailure v = obj ([(''type'', JStr ''component.failure''), (''component'', fld v ''component''),
     (''reason'', fld v ''reason'')]
     @ (if fld v ''details'' = JUndef then [] else [(''details'', clonePublicData (fld v ''details''))]))"

text \<open>A failed result: \<open>ok === false\<close> and nothing but its \<open>error\<close>.\<close>

definition failedWith :: "string \<Rightarrow> jsv \<Rightarrow> bool" where
  "failedWith component result =
     (isRecord result \<and> fld result ''ok'' = JBool False \<and> hasOnlyKeys result [''error'', ''ok'']
      \<and> isFailureOf component (fld result ''error''))"

definition safeStoreCall :: "jsv outcome \<Rightarrow> jsv" where
  "safeStoreCall answer =
     (case answer of
        Throw \<Rightarrow> workerStoreErr ''STORE_UNAVAILABLE''
      | Ret result \<Rightarrow>
          if isRecord result \<and> fld result ''ok'' = JBool True \<and> hasOnlyKeys result [''ok'', ''value'']
             \<and> has_key ''value'' result then result
          else if failedWith ''store'' result
          then obj [(''ok'', JBool False), (''error'', snapshotFailure (fld result ''error''))]
          else workerStoreErr ''STORE_UNAVAILABLE'')"

definition snapshotDeliverySuccess :: "jsv \<Rightarrow> jsv option" where
  "snapshotDeliverySuccess v =
     (if \<not> isRecord v \<or> \<not> hasOnlyKeys v [''acceptedAt'', ''providerMessageId'']
         \<or> \<not> isValidDate (fld v ''acceptedAt'')
         \<or> (fld v ''providerMessageId'' \<noteq> JUndef \<and> \<not> isSafeText (fld v ''providerMessageId'') 512 True) then None
      else Some (obj ([(''acceptedAt'', fld v ''acceptedAt'')] @ given ''providerMessageId'' (fld v ''providerMessageId''))))"

definition safeSend :: "jsv outcome \<Rightarrow> jsv" where
  "safeSend answer =
     (case answer of
        Throw \<Rightarrow> deliveryFailure
      | Ret result \<Rightarrow>
          let success = (if isRecord result \<and> fld result ''ok'' = JBool True
                         then snapshotDeliverySuccess (fld result ''value'') else None)
          in if isRecord result \<and> fld result ''ok'' = JBool True \<and> hasOnlyKeys result [''ok'', ''value'']
                \<and> success \<noteq> None then obj [(''ok'', JBool True), (''value'', the success)]
             else if failedWith ''delivery'' result
             then obj [(''ok'', JBool False), (''error'', snapshotFailure (fld result ''error''))]
             else deliveryFailure)"

text \<open>The answer of \<open>renewLease\<close>: exactly the three fields of the lease asked for, not yet over.\<close>

definition snapshotOutboxLease :: "jsv \<Rightarrow> jsv \<Rightarrow> jsv \<Rightarrow> jsv \<Rightarrow> jsv option" where
  "snapshotOutboxLease v leaseId worker now =
     (if \<not> (isRecord v \<and> length (obj_keys v) = 3 \<and> has_key ''leaseId'' v \<and> has_key ''workerId'' v \<and> has_key ''leaseUntil'' v)
         \<or> fld v ''leaseId'' \<noteq> leaseId \<or> fld v ''workerId'' \<noteq> worker
         \<or> \<not> isValidDate (fld v ''leaseUntil'') \<or> \<not> date_less now (fld v ''leaseUntil'') then None
      else Some (obj [(''leaseId'', leaseId), (''workerId'', worker), (''leaseUntil'', fld v ''leaseUntil'')]))"

section \<open>Copies of accepted data\<close>

text \<open>What the checks accept is plain data, and its copies are the data itself.\<close>

lemma cloneJson_id:
  "isJsonValue v d st = Some st' \<Longrightarrow> cloneJson v = v"
  "isJsonList xs d st = Some st' \<Longrightarrow> cloneJsonItems xs = xs"
  "isJsonFields kvs d st = Some st' \<Longrightarrow> cloneJsonEntries kvs = kvs"
proof (induction v and xs and kvs arbitrary: d st st' and d st st' and d st st'
    rule: cloneJson_cloneJsonItems_cloneJsonEntries.induct)
  case (2 p kvs)
  then show ?case by (auto dest!: isJsonValue_SomeD)
qed (auto dest!: isJsonValue_SomeD split: option.splits if_splits)

lemma clonePublicData_id: "workerJsonObject v \<Longrightarrow> clonePublicData v = v"
  by (cases v) (auto simp: workerJsonObject_def clonePublicData_def dest: cloneJson_id(3))

lemma snapshotClaimedMessage_claimed: "snapshotClaimedMessage v = Some m \<Longrightarrow> isClaimedMessage m"
  by (auto simp: snapshotClaimedMessage_def Let_def simp del: fld.simps split: if_splits)

end
