(* ===== verification/OutboxWorker.thy ===== *)
theory OutboxWorker
  imports WorkerValidation JsMonad
begin

text \<open>
  \<open>packages/outbox-worker/src/worker/create-outbox-worker.ts\<close> and \<open>delivery/unseal.ts\<close>: one run
  of the worker. The store, the sealer and the transport answer with arbitrary values or throw and
  change the world arbitrarily, and every call is recorded; the wall clock (\<open>Date.now\<close>) is a
  function of the world. The local variables of \<open>runOnce\<close> are fields of its state.
\<close>

section \<open>Collaborators\<close>

datatype workerPort = AskClaim | AskRenew | AskUnseal | AskSend | AskDispatched | AskFailed

datatype workerEvent = Asked workerPort jsv "jsv outcome"

record 'w workerConfig =
  respond :: "workerPort \<Rightarrow> jsv \<Rightarrow> 'w \<Rightarrow> jsv outcome \<times> 'w"
  dateNow :: "'w \<Rightarrow> int \<times> 'w"
  workerName :: jsv
  leaseSeconds :: jsv
  batchLimit :: jsv
  retryDelaySeconds :: jsv

record 'w workerState =
  outer :: 'w
  asked :: "workerEvent list"
  previousTime :: int
  claimedCount :: nat
  dispatchedCount :: nat
  failedCount :: nat
  firstStoreFailure :: "jsv option"
  seenClaims :: "jsv list"

type_synonym ('w, 'a) worker = "('w workerState, 'a) M"

text \<open>
  \<open>createOutboxWorker\<close>: the names and numbers it goes on with; \<open>None\<close> is the thrown \<open>TypeError\<close>.
  \<open>workerFrom\<close> is the worker with the collaborators of the options.
\<close>

definition workerSettings :: "jsv \<Rightarrow> (jsv \<times> jsv \<times> jsv \<times> jsv) option" where
  "workerSettings options =
     (let store = fld options ''store''; transport = fld options ''transport''; sealer = fld options ''sealer'';
          lease = coalesce (fld options ''leaseSeconds'') (JNum 30);
          limit = coalesce (fld options ''limit'') (JNum 10);
          retry = coalesce (fld options ''retryDelaySeconds'') (JNum 60) in
      if \<not> truthy options \<or> \<not> truthy store \<or> \<not> hasFunction store ''claimBatch'' \<or> \<not> hasFunction store ''renewLease''
         \<or> \<not> truthy transport \<or> \<not> hasFunction transport ''send''
         \<or> \<not> truthy sealer \<or> \<not> hasFunction sealer ''unseal''
         \<or> \<not> isSafeText (fld options ''workerId'') 512 True
         \<or> \<not> isPositiveInteger lease \<or> \<not> isPositiveInteger limit \<or> \<not> isPositiveInteger retry
         \<or> 86400 < num_val lease \<or> 1000 < num_val limit \<or> 31536000 < num_val retry then None
      else Some (fld options ''workerId'', lease, limit, retry))"

definition workerFrom ::
  "jsv \<Rightarrow> (workerPort \<Rightarrow> jsv \<Rightarrow> 'w \<Rightarrow> jsv outcome \<times> 'w) \<Rightarrow> ('w \<Rightarrow> int \<times> 'w) \<Rightarrow> 'w workerConfig option" where
  "workerFrom options collaborators clock =
     (case workerSettings options of
        None \<Rightarrow> None
      | Some (name, lease, limit, retry) \<Rightarrow> Some \<lparr>respond = collaborators, dateNow = clock, workerName = name,
          leaseSeconds = lease, batchLimit = limit, retryDelaySeconds = retry\<rparr>)"

definition ask :: "'w workerConfig \<Rightarrow> workerPort \<Rightarrow> jsv \<Rightarrow> ('w, jsv outcome) worker" where
  "ask c p input = (\<lambda>s. case respond c p input (outer s) of
     (r, w) \<Rightarrow> (Ret r, s\<lparr>outer := w, asked := asked s @ [Asked p input r]\<rparr>))"

definition askStore :: "'w workerConfig \<Rightarrow> workerPort \<Rightarrow> jsv \<Rightarrow> ('w, jsv) worker" where
  "askStore c p input = bindM (ask c p input) (\<lambda>r. ret (safeStoreCall r))"

definition wallClock :: "'w workerConfig \<Rightarrow> ('w, int) worker" where
  "wallClock c = (\<lambda>s. case dateNow c (outer s) of (n, w) \<Rightarrow> (Ret n, s\<lparr>outer := w\<rparr>))"

section \<open>Local state\<close>

definition adjust :: "('w workerState \<Rightarrow> 'w workerState) \<Rightarrow> ('w, unit) worker" where
  "adjust f = (\<lambda>s. (Ret (), f s))"

definition rememberFailure :: "jsv \<Rightarrow> ('w, unit) worker" where
  "rememberFailure failure =
     adjust (\<lambda>s. if firstStoreFailure s = None then s\<lparr>firstStoreFailure := Some failure\<rparr> else s)"

definition countFailed :: "('w, unit) worker" where
  "countFailed = adjust (\<lambda>s. s\<lparr>failedCount := failedCount s + 1\<rparr>)"

text \<open>A clock that starts at the time of the input, never goes back and stays in the range of dates.\<close>

definition currentTime :: "'w workerConfig \<Rightarrow> int \<Rightarrow> int \<Rightarrow> ('w, jsv) worker" where
  "currentTime c initialTime startedAt =
     bindM (wallClock c) (\<lambda>n s.
       let candidate = initialTime + max 0 (n - startedAt);
           t = max (previousTime s) (min candidate 8640000000000000)
       in (Ret (new_date t), s\<lparr>previousTime := t\<rparr>))"

section \<open>Unsealing\<close>

definition unsealable :: "jsv \<Rightarrow> bool" where
  "unsealable v =
     (isRecord v \<and> fld v ''type'' = JStr ''sealed-secret''
      \<and> is_str (fld v ''algorithm'') \<and> is_str (fld v ''keyId'') \<and> is_str (fld v ''redacted'')
      \<and> is_fun (fld v ''revealCiphertextForPersistence'') \<and> is_fun (fld v ''toJSON''))"

text \<open>The copy of a revealed secret with the budget used; \<open>None\<close> for \<open>undefined\<close> and for a throw.\<close>

definition snapshotRawStringSecret :: "jsv \<Rightarrow> nat \<Rightarrow> (jsv \<times> nat) option" where
  "snapshotRawStringSecret v budget =
     (if \<not> isRecord v \<or> fld v ''type'' \<noteq> JStr ''raw-secret'' \<or> \<not> is_str (fld v ''redacted'')
         \<or> \<not> is_fun (fld v ''reveal'') \<or> \<not> is_fun (fld v ''toJSON'') then None
      else case call_thunk (fld v ''reveal'') of
        Some (JStr revealed) \<Rightarrow>
          if revealed = '''' \<or> 1000000 < budget + length revealed then None
          else Some (obj [(''type'', JStr ''raw-secret''), (''redacted'', JStr ''[REDACTED]''),
                 (''reveal'', JFun (Some (JStr revealed))), (''toJSON'', JFun (Some (JStr ''[REDACTED]'')))],
               budget + length revealed)
      | _ \<Rightarrow> None)"

text \<open>The entries of the data; \<open>None\<close> is a throw, which \<open>unsealDeliveryMessage\<close> catches.\<close>

fun unsealDeliveryData ::
  "'w workerConfig \<Rightarrow> (string \<times> jsv) list \<Rightarrow> jsv \<Rightarrow> jsv \<Rightarrow> nat \<Rightarrow> ('w, (string \<times> jsv) list option) worker" where
  "unsealDeliveryData c [] purpose now budget = ret (Some [])"
| "unsealDeliveryData c ((key, v) # kvs) purpose now budget =
     (if unsealable v then
        bindM (ask c AskUnseal (obj [(''value'', v), (''purpose'', purpose), (''now'', now)])) (\<lambda>r.
          case r of
            Throw \<Rightarrow> ret None
          | Ret unsealed \<Rightarrow>
              if nullish unsealed \<or> \<not> truthy (fld unsealed ''ok'') then ret None
              else case snapshotRawStringSecret (fld unsealed ''value'') budget of
                None \<Rightarrow> ret None
              | Some (secret, budget') \<Rightarrow>
                  bindM (unsealDeliveryData c kvs purpose now budget')
                    (\<lambda>rest. ret (map_option (\<lambda>es. (key, secret) # es) rest)))
      else bindM (unsealDeliveryData c kvs purpose now budget)
             (\<lambda>rest. ret (map_option (\<lambda>es. (key, v) # es) rest)))"

definition expiredAt :: "jsv \<Rightarrow> jsv \<Rightarrow> bool" where
  "expiredAt message now = (truthy (fld message ''expiresAt'') \<and> date_le (fld message ''expiresAt'') now)"

definition unsealDeliveryMessage :: "'w workerConfig \<Rightarrow> jsv \<Rightarrow> jsv \<Rightarrow> ('w, jsv option) worker" where
  "unsealDeliveryMessage c outboxMessage now =
     (let message = fld outboxMessage ''message'' in
      if expiredAt outboxMessage now then ret None
      else bindM (if fld message ''data'' = JUndef then ret (Some JUndef)
                  else bindM (unsealDeliveryData c (obj_entries (fld message ''data'')) (fld outboxMessage ''secretPurpose'') now 0)
                         (\<lambda>es. ret (map_option obj es)))
        (\<lambda>data. ret (case (data, cloneOptional (fld message ''metadata'')) of
             (Some d, Some metadata) \<Rightarrow> Some (obj [(''to'', JObj True (obj_entries (fld message ''to''))),
                (''templateId'', fld message ''templateId''), (''locale'', fld message ''locale''),
                (''metadata'', metadata), (''data'', d)])
           | _ \<Rightarrow> None)))"

section \<open>One claimed message\<close>

definition renewMessageLease :: "'w workerConfig \<Rightarrow> jsv \<Rightarrow> jsv \<Rightarrow> jsv \<Rightarrow> ('w, jsv + jsv) worker" where
  "renewMessageLease c message leaseId now =
     bindM (askStore c AskRenew (obj [(''tenantId'', fld message ''tenantId''), (''messageId'', fld message ''messageId''),
         (''workerId'', workerName c), (''leaseId'', leaseId), (''now'', now), (''leaseSeconds'', leaseSeconds c)]))
       (\<lambda>renewed. ret (
          if \<not> truthy (fld renewed ''ok'') then Inl renewed
          else case snapshotOutboxLease (fld renewed ''value'') leaseId (workerName c) now of
            None \<Rightarrow> Inl (workerStoreErr ''OUTBOX_RECORD_INVALID'')
          | Some lease \<Rightarrow> Inr lease))"

definition markedMessage :: "'w workerConfig \<Rightarrow> jsv \<Rightarrow> jsv \<Rightarrow> jsv \<Rightarrow> (string \<times> jsv) list \<Rightarrow> jsv" where
  "markedMessage c message lease now rest =
     obj ([(''tenantId'', fld message ''tenantId''), (''messageId'', fld message ''messageId''),
       (''workerId'', workerName c), (''leaseId'', fld lease ''leaseId''), (''now'', now)] @ rest)"

definition markFailed :: "'w workerConfig \<Rightarrow> jsv \<Rightarrow> jsv \<Rightarrow> jsv \<Rightarrow> (string \<times> jsv) list \<Rightarrow> ('w, unit) worker" where
  "markFailed c message lease now rest =
     bindM (askStore c AskFailed (markedMessage c message lease now rest)) (\<lambda>marked.
       if truthy (fld marked ''ok'') then ret () else rememberFailure marked)"

text \<open>A message whose own time is over is failed for good.\<close>

definition failExpired :: "'w workerConfig \<Rightarrow> jsv \<Rightarrow> jsv \<Rightarrow> jsv \<Rightarrow> ('w, unit) worker" where
  "failExpired c message lease now =
     bindM countFailed (\<lambda>_. markFailed c message lease now
       [(''reason'', JStr ''DELIVERY_FAILED''), (''terminal'', JBool True)])"

definition retryAt :: "'w workerConfig \<Rightarrow> jsv \<Rightarrow> jsv" where
  "retryAt c failedAt = new_date (date_ms failedAt + num_val (retryDelaySeconds c) * 1000)"

definition sendMessage :: "'w workerConfig \<Rightarrow> (('w, jsv) worker) \<Rightarrow> jsv \<Rightarrow> jsv \<Rightarrow> jsv \<Rightarrow> jsv \<Rightarrow> jsv \<Rightarrow> ('w, unit) worker" where
  "sendMessage c now message context prepared lease sendNow =
     bindM (ask c AskSend (obj ([(''context'', context), (''message'', prepared),
         (''idempotencyKey'', coalesce (fld message ''idempotencyKey'') (fld message ''messageId''))]
         @ given ''expiresAt'' (fld message ''expiresAt'') @ [(''now'', sendNow)]))) (\<lambda>r.
       let result = safeSend r in
       if truthy (fld result ''ok'') then
         bindM now (\<lambda>completedAt.
         bindM (askStore c AskDispatched (markedMessage c message lease completedAt [])) (\<lambda>marked.
           if \<not> truthy (fld marked ''ok'') then rememberFailure marked
           else adjust (\<lambda>s. s\<lparr>dispatchedCount := dispatchedCount s + 1\<rparr>)))
       else
         bindM countFailed (\<lambda>_. bindM now (\<lambda>failedAt.
           markFailed c message lease failedAt
             [(''reason'', fld (fld result ''error'') ''reason''), (''retryAt'', retryAt c failedAt)])))"

text \<open>After the second renewal: neither the message nor the lease may be over.\<close>

definition sendWhileLeased :: "'w workerConfig \<Rightarrow> (('w, jsv) worker) \<Rightarrow> jsv \<Rightarrow> jsv \<Rightarrow> jsv \<Rightarrow> jsv \<Rightarrow> ('w, unit) worker" where
  "sendWhileLeased c now message context prepared lease =
     bindM now (\<lambda>sendNow.
     if expiredAt message sendNow then failExpired c message lease sendNow
     else if date_le (fld lease ''leaseUntil'') sendNow then rememberFailure (workerStoreErr ''OUTBOX_LEASE_CONFLICT'')
     else sendMessage c now message context prepared lease sendNow)"

text \<open>The second renewal, with the unsealed message.\<close>

definition deliverMessage :: "'w workerConfig \<Rightarrow> (('w, jsv) worker) \<Rightarrow> jsv \<Rightarrow> jsv \<Rightarrow> jsv \<Rightarrow> jsv \<Rightarrow> ('w, unit) worker" where
  "deliverMessage c now message context prepared lease1 =
     bindM now (\<lambda>deliveryNow.
     if expiredAt message deliveryNow then failExpired c message lease1 deliveryNow
     else bindM (renewMessageLease c message (fld lease1 ''leaseId'') deliveryNow) (\<lambda>renewed.
       case renewed of
         Inl failure \<Rightarrow> rememberFailure failure
       | Inr lease \<Rightarrow> sendWhileLeased c now message context prepared lease))"

text \<open>The message could not be unsealed: fail it, for a retry unless its time is over.\<close>

definition failUnsealed :: "'w workerConfig \<Rightarrow> (('w, jsv) worker) \<Rightarrow> jsv \<Rightarrow> jsv \<Rightarrow> ('w, unit) worker" where
  "failUnsealed c now message lease =
     bindM countFailed (\<lambda>_. bindM now (\<lambda>failedAt.
       let terminal = expiredAt message failedAt in
       markFailed c message lease failedAt [(''reason'', JStr ''DELIVERY_FAILED''), (''terminal'', JBool terminal),
         (''retryAt'', if terminal then JUndef else retryAt c failedAt)]))"

text \<open>After the first renewal.\<close>

definition prepareMessage :: "'w workerConfig \<Rightarrow> (('w, jsv) worker) \<Rightarrow> jsv \<Rightarrow> jsv \<Rightarrow> jsv \<Rightarrow> ('w, unit) worker" where
  "prepareMessage c now message context lease =
     bindM now (\<lambda>unsealNow.
     if expiredAt message unsealNow then failExpired c message lease unsealNow
     else if date_le (fld lease ''leaseUntil'') unsealNow then rememberFailure (workerStoreErr ''OUTBOX_LEASE_CONFLICT'')
     else bindM (unsealDeliveryMessage c message unsealNow) (\<lambda>prepared.
       case prepared of
         None \<Rightarrow> failUnsealed c now message lease
       | Some p \<Rightarrow> deliverMessage c now message context p lease))"

definition processMessage :: "'w workerConfig \<Rightarrow> (('w, jsv) worker) \<Rightarrow> jsv \<Rightarrow> jsv \<Rightarrow> ('w, unit) worker" where
  "processMessage c now message context =
     bindM now (\<lambda>processingNow.
     if fld (fld message ''lease'') ''workerId'' \<noteq> workerName c
        \<or> date_le (fld (fld message ''lease'') ''leaseUntil'') processingNow
     then rememberFailure (workerStoreErr ''OUTBOX_LEASE_CONFLICT'')
     else bindM (renewMessageLease c message (fld (fld message ''lease'') ''leaseId'') processingNow) (\<lambda>renewed.
       case renewed of
         Inl failure \<Rightarrow> rememberFailure failure
       | Inr lease \<Rightarrow> prepareMessage c now message context lease))"

section \<open>The run\<close>

text \<open>The text \<open>JSON.stringify([tenantId, messageId, leaseId])\<close> of three strings is their list.\<close>

definition claimKey :: "jsv \<Rightarrow> jsv" where
  "claimKey message = JArr [fld message ''tenantId'', fld message ''messageId'', fld (fld message ''lease'') ''leaseId'']"

definition invalidRecord :: "('w, unit) worker" where
  "invalidRecord = rememberFailure (workerStoreErr ''OUTBOX_RECORD_INVALID'')"

definition handleClaimed :: "'w workerConfig \<Rightarrow> (('w, jsv) worker) \<Rightarrow> jsv \<Rightarrow> jsv \<Rightarrow> ('w, unit) worker" where
  "handleClaimed c now tenantId claimedMessage =
     bindM (adjust (\<lambda>s. s\<lparr>claimedCount := claimedCount s + 1\<rparr>)) (\<lambda>_.
     case snapshotClaimedMessage claimedMessage of
       None \<Rightarrow> invalidRecord
     | Some message \<Rightarrow>
         if tenantId \<noteq> JUndef \<and> fld message ''tenantId'' \<noteq> tenantId then invalidRecord
         else (\<lambda>s. if claimKey message \<in> set (seenClaims s) then invalidRecord s
                 else bindM (adjust (\<lambda>s. s\<lparr>seenClaims := seenClaims s @ [claimKey message]\<rparr>)) (\<lambda>_.
                   case normalizeDispatchContext (fld message ''context'') of
                     None \<Rightarrow> invalidRecord
                   | Some context \<Rightarrow> processMessage c now message context) s))"

text \<open>One round of the loop; it answers whether the loop goes on.\<close>

definition claimRound :: "'w workerConfig \<Rightarrow> (('w, jsv) worker) \<Rightarrow> jsv \<Rightarrow> ('w, bool) worker" where
  "claimRound c now tenantId =
     bindM now (\<lambda>claimNow.
     bindM (askStore c AskClaim (obj [(''now'', claimNow), (''limit'', JNum 1), (''workerId'', workerName c),
         (''leaseSeconds'', leaseSeconds c), (''tenantId'', tenantId)])) (\<lambda>claimed.
       let value = fld claimed ''value'' in
       if \<not> truthy (fld claimed ''ok'') then bindM (rememberFailure claimed) (\<lambda>_. ret False)
       else if \<not> is_arr value \<or> 1 < length (arr_elems value)
       then bindM invalidRecord (\<lambda>_. ret False)
       else case map read_elem (arr_elems value) of
         [] \<Rightarrow> ret False
       | claimedMessage # _ \<Rightarrow>
           if \<not> truthy claimedMessage then ret False
           else bindM (handleClaimed c now tenantId claimedMessage) (\<lambda>_. ret True)))"

fun claimRounds :: "nat \<Rightarrow> 'w workerConfig \<Rightarrow> (('w, jsv) worker) \<Rightarrow> jsv \<Rightarrow> ('w, unit) worker" where
  "claimRounds 0 c now tenantId = ret ()"
| "claimRounds (Suc n) c now tenantId =
     bindM (claimRound c now tenantId) (\<lambda>more. if more then claimRounds n c now tenantId else ret ())"

definition requestedLimit :: "'w workerConfig \<Rightarrow> jsv \<Rightarrow> nat" where
  "requestedLimit c runInput = nat (num_val (coalesce (fld runInput ''limit'') (batchLimit c)))"

definition runReport :: "'w workerState \<Rightarrow> jsv" where
  "runReport s = (case firstStoreFailure s of
     Some failure \<Rightarrow> failure
   | None \<Rightarrow> obj [(''ok'', JBool True), (''value'', obj [(''claimed'', JNum (int (claimedCount s))),
       (''dispatched'', JNum (int (dispatchedCount s))), (''failed'', JNum (int (failedCount s)))])])"

definition runOnce :: "'w workerConfig \<Rightarrow> jsv \<Rightarrow> ('w, jsv) worker" where
  "runOnce c input =
     (case snapshotRunInput input of
        None \<Rightarrow> ret (workerStoreErr ''OUTBOX_INVALID_INPUT'')
      | Some runInput \<Rightarrow>
          let initialTime = date_ms (fld runInput ''now'') in
          bindM (wallClock c) (\<lambda>startedAt.
          bindM (adjust (\<lambda>s. s\<lparr>previousTime := initialTime, claimedCount := 0, dispatchedCount := 0, failedCount := 0,
              firstStoreFailure := None, seenClaims := []\<rparr>)) (\<lambda>_.
          bindM (claimRounds (requestedLimit c runInput) c (currentTime c initialTime startedAt) (fld runInput ''tenantId'')) (\<lambda>_.
          (\<lambda>s. (Ret (runReport s), s))))))"

end
