(* ===== verification/WorkerRuns.thy ===== *)
theory WorkerRuns
  imports OutboxWorker
begin

text \<open>
  What one run of the outbox worker asks its collaborators, and in which order: the handling of a
  message ends with one report to the store or with a remembered failure, and a delivery is sent
  only directly after a renewal of the lease of the message.
\<close>

section \<open>Events\<close>

fun eventPort :: "workerEvent \<Rightarrow> workerPort" where
  "eventPort (Asked p input r) = p"

definition confirmed :: "jsv outcome \<Rightarrow> bool" where
  "confirmed r = truthy (fld (safeStoreCall r) ''ok'')"

fun reportsDispatched :: "workerEvent \<Rightarrow> bool" where
  "reportsDispatched (Asked p input r) = (p = AskDispatched \<and> confirmed r)"

definition dispatchedIn :: "workerEvent list \<Rightarrow> nat" where
  "dispatchedIn es = length (filter reportsDispatched es)"

definition failedIn :: "workerEvent list \<Rightarrow> nat" where
  "failedIn es = length (filter (\<lambda>e. eventPort e = AskFailed) es)"

definition claimsIn :: "workerEvent list \<Rightarrow> nat" where
  "claimsIn es = length (filter (\<lambda>e. eventPort e = AskClaim) es)"

lemma counts_append [simp]:
  "dispatchedIn (es @ fs) = dispatchedIn es + dispatchedIn fs" "failedIn (es @ fs) = failedIn es + failedIn fs"
  "claimsIn (es @ fs) = claimsIn es + claimsIn fs"
  by (simp_all add: dispatchedIn_def failedIn_def claimsIn_def)

lemma counts_Nil [simp]: "dispatchedIn [] = 0" "failedIn [] = 0" "claimsIn [] = 0"
  by (simp_all add: dispatchedIn_def failedIn_def claimsIn_def)

lemma counts_Cons [simp]:
  "dispatchedIn (e # es) = (if reportsDispatched e then 1 else 0) + dispatchedIn es"
  "failedIn (e # es) = (if eventPort e = AskFailed then 1 else 0) + failedIn es"
  "claimsIn (e # es) = (if eventPort e = AskClaim then 1 else 0) + claimsIn es"
  by (simp_all add: dispatchedIn_def failedIn_def claimsIn_def)

text \<open>
  A delivery of the claimed message \<open>m\<close> after the calls \<open>pre\<close>: the last of them renewed the lease
  of \<open>m\<close> for this worker, and when it is sent neither the renewed lease nor the message is over.
\<close>

definition renewedFor :: "'w workerConfig \<Rightarrow> jsv \<Rightarrow> workerEvent list \<Rightarrow> jsv \<Rightarrow> bool" where
  "renewedFor c m pre lease \<longleftrightarrow> (\<exists>before q r. pre = before @ [Asked AskRenew q r]
     \<and> fld q ''tenantId'' = fld m ''tenantId'' \<and> fld q ''messageId'' = fld m ''messageId''
     \<and> fld q ''leaseId'' = fld (fld m ''lease'') ''leaseId'' \<and> fld q ''workerId'' = workerName c \<and> confirmed r
     \<and> snapshotOutboxLease (fld (safeStoreCall r) ''value'') (fld (fld m ''lease'') ''leaseId'') (workerName c) (fld q ''now'')
         = Some lease)"

definition sentUnder :: "'w workerConfig \<Rightarrow> jsv \<Rightarrow> workerEvent list \<Rightarrow> jsv \<Rightarrow> bool" where
  "sentUnder c m pre send \<longleftrightarrow> fld (fld m ''lease'') ''workerId'' = workerName c
     \<and> (\<exists>lease. renewedFor c m pre lease \<and> date_less (fld send ''now'') (fld lease ''leaseUntil''))
     \<and> (fld m ''expiresAt'' = JUndef \<or> date_less (fld send ''now'') (fld m ''expiresAt''))
     \<and> fld send ''idempotencyKey'' = coalesce (fld m ''idempotencyKey'') (fld m ''messageId'')
     \<and> normalizeDispatchContext (fld m ''context'') = Some (fld send ''context'')"

text \<open>The report that follows a delivery with the answer \<open>r\<close>.\<close>

definition reportedAs :: "'w workerConfig \<Rightarrow> jsv \<Rightarrow> jsv outcome \<Rightarrow> workerEvent \<Rightarrow> bool" where
  "reportedAs c m r report \<longleftrightarrow> (\<exists>input a.
     report = Asked (if truthy (fld (safeSend r) ''ok'') then AskDispatched else AskFailed) input a
     \<and> fld input ''tenantId'' = fld m ''tenantId'' \<and> fld input ''messageId'' = fld m ''messageId''
     \<and> fld input ''leaseId'' = fld (fld m ''lease'') ''leaseId'' \<and> fld input ''workerId'' = workerName c)"

definition properly :: "'w workerConfig \<Rightarrow> jsv \<Rightarrow> workerEvent list \<Rightarrow> bool" where
  "properly c m es \<longleftrightarrow> claimsIn es = 0
     \<and> (\<forall>pre send r post. es = pre @ Asked AskSend send r # post \<longrightarrow>
          sentUnder c m pre send \<and> (\<exists>report. post = [report] \<and> reportedAs c m r report))"

section \<open>Steps that only prepare\<close>

definition quietly :: "'w workerState \<Rightarrow> 'w workerState \<Rightarrow> workerEvent list \<Rightarrow> bool" where
  "quietly s s1 es \<longleftrightarrow> asked s1 = asked s @ es \<and> (\<forall>e \<in> set es. eventPort e = AskRenew \<or> eventPort e = AskUnseal)
     \<and> claimedCount s1 = claimedCount s \<and> dispatchedCount s1 = dispatchedCount s \<and> failedCount s1 = failedCount s
     \<and> firstStoreFailure s1 = firstStoreFailure s \<and> seenClaims s1 = seenClaims s
     \<and> (time_valid (previousTime s) \<longrightarrow> time_valid (previousTime s1))"

lemma quietly_refl [simp]: "quietly s s []"
  by (simp add: quietly_def)

lemma quietly_trans: "quietly s s1 es \<Longrightarrow> quietly s1 s2 fs \<Longrightarrow> quietly s s2 (es @ fs)"
  by (auto simp: quietly_def)

lemma quietly_none: "quietly s s1 es \<Longrightarrow> dispatchedIn es = 0 \<and> failedIn es = 0 \<and> claimsIn es = 0"
proof -
  assume "quietly s s1 es"
  then have "\<forall>e \<in> set es. \<not> reportsDispatched e \<and> eventPort e \<noteq> AskFailed \<and> eventPort e \<noteq> AskClaim"
    unfolding quietly_def by (metis eventPort.simps reportsDispatched.elims(2) workerPort.distinct)
  then show ?thesis by (simp add: dispatchedIn_def failedIn_def claimsIn_def filter_empty_conv)
qed

lemma quietly_no_send: "quietly s s1 es \<Longrightarrow> es = pre @ Asked AskSend send r # post \<Longrightarrow> False"
  by (auto simp: quietly_def)

lemma wp_bind_eq: "wp (bindM m f) Q E = wp m (\<lambda>a. wp (f a) Q E) E"
  by (rule ext) (rule wp_bind)

lemma wp_ifI: "(b \<Longrightarrow> wp m Q E s) \<Longrightarrow> (\<not> b \<Longrightarrow> wp n Q E s) \<Longrightarrow> wp (if b then m else n) Q E s"
  by simp

lemma wp_state_if:
  "wp (\<lambda>s. if b s then m s else n s) Q E s = (if b s then wp m Q E s else wp n Q E s)"
  by (simp add: wp_def)

lemma wp_ask [wp_rules]:
  "wp (ask c p input) Q E s = (case respond c p input (outer s) of
     (r, w) \<Rightarrow> Q r (s\<lparr>outer := w, asked := asked s @ [Asked p input r]\<rparr>))"
  by (simp add: wp_def ask_def split: prod.split)

lemma wp_askStore [wp_rules]:
  "wp (askStore c p input) Q E s = (case respond c p input (outer s) of
     (r, w) \<Rightarrow> Q (safeStoreCall r) (s\<lparr>outer := w, asked := asked s @ [Asked p input r]\<rparr>))"
  by (simp add: askStore_def wp_rules split: prod.split)

lemma wp_adjust [wp_rules]: "wp (adjust f) Q E s = Q () (f s)"
  by (simp add: wp_def adjust_def)

text \<open>A clock: it answers a date and changes nothing but itself and the world.\<close>

definition clock :: "('w, jsv) worker \<Rightarrow> bool" where
  "clock now \<longleftrightarrow> (\<forall>s. \<exists>t s1. now s = (Ret (new_date t), s1) \<and> quietly s s1 [] \<and> previousTime s1 = t)"

lemma clock_currentTime: "clock (currentTime c initialTime startedAt)"
  unfolding clock_def currentTime_def wallClock_def bindM_def
  by (auto simp: quietly_def time_valid_def Let_def split: prod.splits)

lemma wp_clock:
  assumes "clock now" and "\<And>t s1. quietly s s1 [] \<Longrightarrow> previousTime s1 = t \<Longrightarrow> Q (new_date t) s1"
  shows "wp now Q E s"
proof -
  from assms(1) obtain t s1 where "now s = (Ret (new_date t), s1)" "quietly s s1 []" "previousTime s1 = t"
    unfolding clock_def by blast
  with assms(2) show ?thesis by (simp add: wp_def)
qed

lemma wp_unsealDeliveryData:
  assumes "\<And>r s1 es. quietly s s1 es \<Longrightarrow> Q r s1"
  shows "wp (unsealDeliveryData c kvs purpose now budget) Q E s"
  using assms
proof (induction c kvs purpose now budget arbitrary: s Q rule: unsealDeliveryData.induct)
  case (1 c purpose now budget)
  show ?case by (simp only: unsealDeliveryData.simps wp_ret) (rule 1 [OF quietly_refl])
next
  case (2 c key v kvs purpose now budget)
  let ?input = "obj [(''value'', v), (''purpose'', purpose), (''now'', now)]"
  show ?case
  proof (cases "unsealable v")
    case False
    with 2(2) [OF False, of s "\<lambda>rest. Q (map_option (\<lambda>es. (key, v) # es) rest)"] 2(3) show ?thesis
      by (simp add: wp_bind wp_ret_eq)
  next
    case True
    obtain r w where r: "respond c AskUnseal ?input (outer s) = (r, w)" by (rule prod.exhaust)
    let ?s1 = "s\<lparr>outer := w, asked := asked s @ [Asked AskUnseal ?input r]\<rparr>"
    have quiet: "quietly s ?s1 [Asked AskUnseal ?input r]" by (simp add: quietly_def)
    have stop: "Q x ?s1" for x by (rule 2(3) [OF quiet])
    show ?thesis
    proof (cases r)
      case Throw
      with stop r True show ?thesis by (simp add: wp_rules)
    next
      case (Ret unsealed)
      show ?thesis
      proof (cases "nullish unsealed \<or> \<not> truthy (fld unsealed ''ok'')")
        case bad: True
        with stop r True Ret show ?thesis by (simp add: wp_rules del: fld.simps)
      next
        case good: False
        show ?thesis
        proof (cases "snapshotRawStringSecret (fld unsealed ''value'') budget")
          case None
          with stop r True Ret good show ?thesis by (simp add: wp_rules del: fld.simps)
        next
          case (Some p)
          obtain secret budget' where p: "p = (secret, budget')" by (rule prod.exhaust)
          have "wp (unsealDeliveryData c kvs purpose now budget')
              (\<lambda>rest. Q (map_option (\<lambda>es. (key, secret) # es) rest)) E ?s1"
            by (rule 2(1) [OF True good Some p [symmetric]]) (use 2(3) quietly_trans [OF quiet] in blast)
          with r True Ret good Some p show ?thesis by (simp add: wp_rules wp_ret_eq del: fld.simps)
        qed
      qed
    qed
  qed
qed

lemma wp_unsealDeliveryMessage:
  assumes "\<And>r s1 es. quietly s s1 es \<Longrightarrow> Q r s1"
  shows "wp (unsealDeliveryMessage c m now) Q E s"
  unfolding unsealDeliveryMessage_def Let_def
  by (auto simp: wp_bind wp_ret_eq simp del: fld.simps intro!: wp_unsealDeliveryData assms [OF quietly_refl] intro: assms)

section \<open>The end of a message\<close>

text \<open>The report of a message, with the counters it changes.\<close>

definition failing :: "'w workerState \<Rightarrow> bool" where
  "failing s \<longleftrightarrow> (\<forall>f. firstStoreFailure s = Some f \<longrightarrow> \<not> truthy (fld f ''ok''))"

definition closes :: "'w workerState \<Rightarrow> 'w workerState \<Rightarrow> workerEvent \<Rightarrow> bool" where
  "closes s s' e \<longleftrightarrow> asked s' = asked s @ [e] \<and> (eventPort e = AskFailed \<or> eventPort e = AskDispatched)
     \<and> claimedCount s' = claimedCount s \<and> dispatchedCount s' = dispatchedCount s + dispatchedIn [e]
     \<and> failedCount s' = failedCount s + failedIn [e] \<and> seenClaims s' = seenClaims s
     \<and> (firstStoreFailure s \<noteq> None \<longrightarrow> firstStoreFailure s' = firstStoreFailure s)
     \<and> (firstStoreFailure s' = None \<longrightarrow> reportsDispatched e \<or> eventPort e = AskFailed)
     \<and> (failing s \<longrightarrow> failing s')
     \<and> (time_valid (previousTime s) \<longrightarrow> time_valid (previousTime s'))"

text \<open>The handling of a message: its calls and what they leave in the counters.\<close>

definition settlesBy :: "'w workerConfig \<Rightarrow> jsv \<Rightarrow> 'w workerState \<Rightarrow> 'w workerState \<Rightarrow> workerEvent list \<Rightarrow> bool" where
  "settlesBy c m s s' es \<longleftrightarrow> asked s' = asked s @ es \<and> properly c m es
     \<and> claimedCount s' = claimedCount s \<and> dispatchedCount s' = dispatchedCount s + dispatchedIn es
     \<and> failedCount s' = failedCount s + failedIn es \<and> dispatchedIn es + failedIn es \<le> 1 \<and> seenClaims s' = seenClaims s
     \<and> (firstStoreFailure s \<noteq> None \<longrightarrow> firstStoreFailure s' = firstStoreFailure s)
     \<and> (firstStoreFailure s' = None \<longrightarrow> dispatchedIn es + failedIn es = 1)
     \<and> (failing s \<longrightarrow> failing s')
     \<and> (time_valid (previousTime s) \<longrightarrow> time_valid (previousTime s'))"

definition settles :: "'w workerConfig \<Rightarrow> jsv \<Rightarrow> 'w workerState \<Rightarrow> 'w workerState \<Rightarrow> bool" where
  "settles c m s s' \<longleftrightarrow> (\<exists>es. settlesBy c m s s' es)"

definition remembered :: "jsv \<Rightarrow> 'w workerState \<Rightarrow> 'w workerState" where
  "remembered failure s = (if firstStoreFailure s = None then s\<lparr>firstStoreFailure := Some failure\<rparr> else s)"

lemma remembered_fields [simp]:
  "asked (remembered f s) = asked s" "claimedCount (remembered f s) = claimedCount s"
  "dispatchedCount (remembered f s) = dispatchedCount s" "failedCount (remembered f s) = failedCount s"
  "seenClaims (remembered f s) = seenClaims s" "previousTime (remembered f s) = previousTime s"
  "firstStoreFailure (remembered f s) \<noteq> None"
  "firstStoreFailure s \<noteq> None \<Longrightarrow> firstStoreFailure (remembered f s) = firstStoreFailure s"
  by (simp_all add: remembered_def)

lemma failing_remembered: "\<not> truthy (fld failure ''ok'') \<Longrightarrow> failing s \<Longrightarrow> failing (remembered failure s)"
  by (simp add: failing_def remembered_def del: fld.simps)

lemma failing_quietly: "quietly s s1 es \<Longrightarrow> failing s1 \<longleftrightarrow> failing s"
  by (simp add: failing_def quietly_def)

lemma workerStoreErr_fails [simp]: "\<not> truthy (fld (workerStoreErr reason) ''ok'')"
  by (simp add: workerStoreErr_def)

lemma wp_rememberFailure [wp_rules]: "wp (rememberFailure failure) Q E s = Q () (remembered failure s)"
  by (simp add: rememberFailure_def wp_rules remembered_def)

lemma properly_quiet:
  assumes "quietly s s1 es" shows "properly c m es"
  using quietly_none [OF assms] quietly_no_send [OF assms] unfolding properly_def by blast

lemma settles_remembered:
  assumes q: "quietly s0 s pre" and "\<not> truthy (fld failure ''ok'')" shows "settles c m s0 (remembered failure s)"
proof -
  have "firstStoreFailure s = firstStoreFailure s0" using q by (simp add: quietly_def)
  with q properly_quiet [OF q] quietly_none [OF q] failing_remembered [OF assms(2)] failing_quietly [OF q] show ?thesis
    unfolding settles_def settlesBy_def by (intro exI [of _ pre]) (auto simp: quietly_def)
qed

lemma properly_closed:
  assumes "quietly s0 s pre" and "eventPort e = AskFailed \<or> eventPort e = AskDispatched"
  shows "properly c m (pre @ [e])"
  unfolding properly_def
proof (intro conjI allI impI)
  show "claimsIn (pre @ [e]) = 0" using quietly_none [OF assms(1)] assms(2) by auto
next
  fix before send r post
  assume "pre @ [e] = before @ Asked AskSend send r # post"
  then have "Asked AskSend send r \<in> set (pre @ [e])" by simp
  then have False using assms by (auto simp: quietly_def)
  then show "sentUnder c m before send" "\<exists>report. post = [report] \<and> reportedAs c m r report" by blast+
qed

lemma settles_closed:
  assumes q: "quietly s0 s pre" and e: "closes s s' e" shows "settles c m s0 s'"
proof -
  have "eventPort e = AskFailed \<or> eventPort e = AskDispatched" using e by (simp add: closes_def)
  with properly_closed [OF q this] quietly_none [OF q] q e failing_quietly [OF q] show ?thesis
    unfolding settles_def settlesBy_def by (intro exI [of _ "pre @ [e]"]) (cases e; auto simp: quietly_def closes_def)
qed

lemma properly_sent:
  assumes "quietly s0 s pre" and "sentUnder c m pre send" and "reportedAs c m r e"
  shows "properly c m (pre @ [Asked AskSend send r, e])"
  unfolding properly_def
proof (intro conjI allI impI)
  have e: "eventPort e = AskFailed \<or> eventPort e = AskDispatched" using assms(3) by (auto simp: reportedAs_def)
  then show "claimsIn (pre @ [Asked AskSend send r, e]) = 0" using quietly_none [OF assms(1)] by auto
  fix before send' r' post
  assume split: "pre @ [Asked AskSend send r, e] = before @ Asked AskSend send' r' # post"
  have "Asked AskSend send' r' \<notin> set pre" using assms(1) by (auto simp: quietly_def)
  moreover have "Asked AskSend send' r' \<noteq> e" using e by auto
  ultimately have "before = pre \<and> send' = send \<and> r' = r \<and> post = [e]"
    using split by (auto simp: append_eq_append_conv2 append_eq_Cons_conv Cons_eq_append_conv)
  with assms(2,3) show "sentUnder c m before send'" "\<exists>report. post = [report] \<and> reportedAs c m r' report" by blast+
qed

lemma settles_sent:
  assumes q: "quietly s0 s pre" and send: "sentUnder c m pre send" and e: "closes s1 s' e" and r: "reportedAs c m r e"
    and s1: "asked s1 = asked s @ [Asked AskSend send r]" "claimedCount s1 = claimedCount s"
      "dispatchedCount s1 = dispatchedCount s" "failedCount s1 = failedCount s" "seenClaims s1 = seenClaims s"
      "firstStoreFailure s1 = firstStoreFailure s" "previousTime s1 = previousTime s"
  shows "settles c m s0 s'"
  using properly_sent [OF q send r] quietly_none [OF q] q e s1 failing_quietly [OF q]
    failing_def [of s1] failing_def [of s]
  unfolding settles_def settlesBy_def by (intro exI [of _ "pre @ [Asked AskSend send r, e]"]) (cases e; auto simp: quietly_def closes_def)

section \<open>The stages of a message\<close>

lemma wp_markFailed:
  assumes "\<And>r w s'. s' = s\<lparr>outer := w, asked := asked s @ [Asked AskFailed (markedMessage c m lease now rest) r]\<rparr>
    \<Longrightarrow> Q () (if confirmed r then s' else remembered (safeStoreCall r) s')"
  shows "wp (markFailed c m lease now rest) Q E s"
proof -
  obtain r w where r: "respond c AskFailed (markedMessage c m lease now rest) (outer s) = (r, w)" by (rule prod.exhaust)
  from assms [OF refl, of r w] show ?thesis by (simp add: markFailed_def wp_rules confirmed_def r del: fld.simps split: if_splits)
qed

lemma closes_marked:
  assumes "quietly (s\<lparr>failedCount := failedCount s + 1\<rparr>) s1 []"
    and "s' = s1\<lparr>outer := w, asked := asked s1 @ [Asked AskFailed input r]\<rparr>"
    and "b \<or> \<not> truthy (fld failure ''ok'')"
  shows "closes s (if b then s' else remembered failure s') (Asked AskFailed input r)"
  using assms failing_remembered [of failure s'] by (auto simp: closes_def quietly_def failing_def simp del: fld.simps)

lemma wp_fail:
  assumes "clock now" and "\<And>s' t r. closes s s' (Asked AskFailed (markedMessage c m lease (new_date t) (rest (new_date t))) r) \<Longrightarrow> Q () s'"
  shows "wp (bindM countFailed (\<lambda>_. bindM now (\<lambda>t. markFailed c m lease t (rest t)))) Q E s"
  unfolding wp_bind countFailed_def wp_adjust
  by (rule wp_clock [OF assms(1)], rule wp_markFailed, rule assms(2), rule closes_marked, assumption, assumption)
    (simp add: confirmed_def)

lemma wp_failExpired:
  assumes "\<And>s' r. closes s s' (Asked AskFailed (markedMessage c m lease now
      [(''reason'', JStr ''DELIVERY_FAILED''), (''terminal'', JBool True)]) r) \<Longrightarrow> Q () s'"
  shows "wp (failExpired c m lease now) Q E s"
  unfolding failExpired_def wp_bind countFailed_def wp_adjust
  by (rule wp_markFailed, rule assms, rule closes_marked [OF quietly_refl], assumption) (simp add: confirmed_def)

lemma wp_renewMessageLease:
  assumes "\<And>s1 q r failure. quietly s s1 [Asked AskRenew q r] \<Longrightarrow> \<not> truthy (fld failure ''ok'') \<Longrightarrow> Q (Inl failure) s1"
    and "\<And>s1 q r lease. quietly s s1 [Asked AskRenew q r] \<Longrightarrow> confirmed r
      \<Longrightarrow> q = obj [(''tenantId'', fld m ''tenantId''), (''messageId'', fld m ''messageId''), (''workerId'', workerName c),
            (''leaseId'', leaseId), (''now'', now), (''leaseSeconds'', leaseSeconds c)]
      \<Longrightarrow> snapshotOutboxLease (fld (safeStoreCall r) ''value'') leaseId (workerName c) now = Some lease \<Longrightarrow> Q (Inr lease) s1"
  shows "wp (renewMessageLease c m leaseId now) Q E s"
proof -
  let ?q = "obj [(''tenantId'', fld m ''tenantId''), (''messageId'', fld m ''messageId''), (''workerId'', workerName c),
            (''leaseId'', leaseId), (''now'', now), (''leaseSeconds'', leaseSeconds c)]"
  obtain r w where r: "respond c AskRenew ?q (outer s) = (r, w)" by (rule prod.exhaust)
  let ?s1 = "s\<lparr>outer := w, asked := asked s @ [Asked AskRenew ?q r]\<rparr>"
  have quiet: "quietly s ?s1 [Asked AskRenew ?q r]" by (simp add: quietly_def)
  have "Q (if \<not> truthy (fld (safeStoreCall r) ''ok'') then Inl (safeStoreCall r)
        else case snapshotOutboxLease (fld (safeStoreCall r) ''value'') leaseId (workerName c) now of
          None \<Rightarrow> Inl (workerStoreErr ''OUTBOX_RECORD_INVALID'') | Some lease \<Rightarrow> Inr lease) ?s1"
    using assms(1) [OF quiet] assms(2) [OF quiet _ refl] by (auto simp: confirmed_def simp del: fld.simps split: option.split)
  then show ?thesis by (simp add: renewMessageLease_def wp_rules r del: fld.simps)
qed

lemma lease_valid:
  "snapshotOutboxLease v leaseId worker now = Some lease \<Longrightarrow>
     isValidDate (fld lease ''leaseUntil'') \<and> fld lease ''leaseId'' = leaseId"
  by (auto simp: snapshotOutboxLease_def split: if_splits)

lemma not_over: "isValidDate d \<Longrightarrow> time_valid t \<Longrightarrow> \<not> date_le d (new_date t) \<Longrightarrow> date_less (new_date t) d"
  by (auto simp: date_le_not_less new_date_valid)

lemma not_expired:
  assumes "isClaimedMessage m" and "time_valid t" and "\<not> expiredAt m (new_date t)"
  shows "fld m ''expiresAt'' = JUndef \<or> date_less (new_date t) (fld m ''expiresAt'')"
proof -
  have "fld m ''expiresAt'' = JUndef \<or> isValidDate (fld m ''expiresAt'')" using assms(1) by (simp add: isClaimedMessage_def)
  moreover have "isValidDate v \<Longrightarrow> truthy v" for v by (cases v) auto
  ultimately show ?thesis using assms(2,3) not_over unfolding expiredAt_def by blast
qed

lemma markedMessage_fields:
  "fld (markedMessage c m lease now rest) ''tenantId'' = fld m ''tenantId''"
  "fld (markedMessage c m lease now rest) ''messageId'' = fld m ''messageId''"
  "fld (markedMessage c m lease now rest) ''workerId'' = workerName c"
  "fld (markedMessage c m lease now rest) ''leaseId'' = fld lease ''leaseId''"
  by (simp_all add: markedMessage_def)

text \<open>A sent message is reported, and the counters follow the answer of the store.\<close>

lemma wp_sendMessage:
  assumes now: "clock now" and q: "quietly s0 s pre"
    and send: "\<And>input. fld input ''now'' = sendNow \<Longrightarrow> fld input ''context'' = context
      \<Longrightarrow> fld input ''idempotencyKey'' = coalesce (fld m ''idempotencyKey'') (fld m ''messageId'') \<Longrightarrow> sentUnder c m pre input"
    and lease: "fld lease ''leaseId'' = fld (fld m ''lease'') ''leaseId''"
  shows "wp (sendMessage c now m context prepared lease sendNow) (\<lambda>_. settles c m s0) E s"
proof -
  let ?send = "obj ([(''context'', context), (''message'', prepared),
      (''idempotencyKey'', coalesce (fld m ''idempotencyKey'') (fld m ''messageId''))]
      @ given ''expiresAt'' (fld m ''expiresAt'') @ [(''now'', sendNow)])"
  have under: "sentUnder c m pre ?send" by (rule send) (simp_all add: given_def)
  obtain r w where r: "respond c AskSend ?send (outer s) = (r, w)" by (rule prod.exhaust)
  let ?s1 = "s\<lparr>outer := w, asked := asked s @ [Asked AskSend ?send r]\<rparr>"
  note sent = settles_sent [OF q under, where ?s1.0 = ?s1]
  show ?thesis
  proof (cases "truthy (fld (safeSend r) ''ok'')")
    case True
    have "wp (bindM now (\<lambda>completedAt.
         bindM (askStore c AskDispatched (markedMessage c m lease completedAt [])) (\<lambda>marked.
           if \<not> truthy (fld marked ''ok'') then rememberFailure marked
           else adjust (\<lambda>s. s\<lparr>dispatchedCount := dispatchedCount s + 1\<rparr>)))) (\<lambda>_. settles c m s0) E ?s1"
      unfolding wp_bind
    proof (rule wp_clock [OF now])
      fix t s2
      assume s2: "quietly ?s1 s2 []"
      let ?mark = "markedMessage c m lease (new_date t) []"
      obtain a w' where a: "respond c AskDispatched ?mark (outer s2) = (a, w')" by (rule prod.exhaust)
      let ?s3 = "s2\<lparr>outer := w', asked := asked s2 @ [Asked AskDispatched ?mark a]\<rparr>"
      have rep: "reportedAs c m r (Asked AskDispatched ?mark a)"
        using True lease by (simp add: reportedAs_def markedMessage_fields del: fld.simps)
      have same: "firstStoreFailure ?s3 = firstStoreFailure ?s1" using s2 by (simp add: quietly_def)
      have "closes ?s1 (if confirmed a then ?s3\<lparr>dispatchedCount := dispatchedCount ?s3 + 1\<rparr> else remembered (safeStoreCall a) ?s3)
        (Asked AskDispatched ?mark a)"
      proof (cases "confirmed a")
        case True
        then show ?thesis using s2 same by (simp add: closes_def quietly_def failing_def)
      next
        case False
        then have "failing ?s1 \<Longrightarrow> failing (remembered (safeStoreCall a) ?s3)"
          using failing_remembered [of "safeStoreCall a" ?s3] same by (simp add: confirmed_def failing_def del: fld.simps)
        with False show ?thesis using s2 same by (simp add: closes_def quietly_def)
      qed
      from sent [OF this rep] have "settles c m s0 (if confirmed a then ?s3\<lparr>dispatchedCount := dispatchedCount ?s3 + 1\<rparr>
          else remembered (safeStoreCall a) ?s3)" by simp
      then show "wp (askStore c AskDispatched ?mark)
          (\<lambda>marked. wp (if \<not> truthy (fld marked ''ok'') then rememberFailure marked
             else adjust (\<lambda>s. s\<lparr>dispatchedCount := dispatchedCount s + 1\<rparr>)) (\<lambda>_. settles c m s0) E) E s2"
        by (simp add: wp_rules a confirmed_def del: fld.simps split: if_splits)
    qed
    with True show ?thesis unfolding sendMessage_def wp_bind wp_ask r Let_def by (simp add: wp_bind_eq del: fld.simps)
  next
    case False
    have "wp (bindM countFailed (\<lambda>_. bindM now (\<lambda>failedAt. markFailed c m lease failedAt
             [(''reason'', fld (fld (safeSend r) ''error'') ''reason''), (''retryAt'', retryAt c failedAt)])))
        (\<lambda>_. settles c m s0) E ?s1"
    proof (rule wp_fail [OF now])
      fix s' t a
      assume closed: "closes ?s1 s' (Asked AskFailed (markedMessage c m lease (new_date t)
        [(''reason'', fld (fld (safeSend r) ''error'') ''reason''), (''retryAt'', retryAt c (new_date t))]) a)"
      have "reportedAs c m r (Asked AskFailed (markedMessage c m lease (new_date t)
        [(''reason'', fld (fld (safeSend r) ''error'') ''reason''), (''retryAt'', retryAt c (new_date t))]) a)"
        using False lease by (simp add: reportedAs_def markedMessage_fields del: fld.simps)
      from sent [OF closed this] show "settles c m s0 s'" by simp
    qed
    with False show ?thesis unfolding sendMessage_def wp_bind wp_ask r Let_def by (simp add: wp_bind_eq del: fld.simps)
  qed
qed

lemma renewedFor_last:
  assumes "q = obj [(''tenantId'', fld m ''tenantId''), (''messageId'', fld m ''messageId''), (''workerId'', workerName c),
      (''leaseId'', fld (fld m ''lease'') ''leaseId''), (''now'', now), (''leaseSeconds'', leaseSeconds c)]"
    and "confirmed r" and "snapshotOutboxLease (fld (safeStoreCall r) ''value'') (fld (fld m ''lease'') ''leaseId'') (workerName c) now = Some lease"
  shows "renewedFor c m (pre @ [Asked AskRenew q r]) lease"
  unfolding renewedFor_def using assms by (intro exI conjI) (rule refl, simp_all)

text \<open>
  The stages in their order from the last to the first. \<open>claimedBy c m context\<close>: \<open>m\<close> is a claimed
  message of this worker with this context.
\<close>

definition claimedBy :: "'w workerConfig \<Rightarrow> jsv \<Rightarrow> jsv \<Rightarrow> bool" where
  "claimedBy c m context \<longleftrightarrow> isClaimedMessage m \<and> fld (fld m ''lease'') ''workerId'' = workerName c
     \<and> normalizeDispatchContext (fld m ''context'') = Some context"

lemma wp_sendWhileLeased:
  assumes now: "clock now" and q: "quietly s0 s pre" and valid: "time_valid (previousTime s0)" and m: "claimedBy c m context"
    and renewed: "renewedFor c m pre lease" "isValidDate (fld lease ''leaseUntil'')" "fld lease ''leaseId'' = fld (fld m ''lease'') ''leaseId''"
  shows "wp (sendWhileLeased c now m context prepared lease) (\<lambda>_. settles c m s0) E s"
  unfolding sendWhileLeased_def wp_bind
proof (rule wp_clock [OF now], intro wp_ifI)
  fix u s1
  assume s1: "quietly s s1 []" "previousTime s1 = u"
  have q1: "quietly s0 s1 pre" using quietly_trans [OF q s1(1)] by simp
  with valid s1(2) have u: "time_valid u" by (auto simp: quietly_def)
  show "wp (failExpired c m lease (new_date u)) (\<lambda>_. settles c m s0) E s1"
    by (rule wp_failExpired) (rule settles_closed [OF q1])
  show "wp (rememberFailure (workerStoreErr ''OUTBOX_LEASE_CONFLICT'')) (\<lambda>_. settles c m s0) E s1"
    by (simp add: wp_rememberFailure settles_remembered [OF q1])
  assume e: "\<not> expiredAt m (new_date u)" and l: "\<not> date_le (fld lease ''leaseUntil'') (new_date u)"
  show "wp (sendMessage c now m context prepared lease (new_date u)) (\<lambda>_. settles c m s0) E s1"
    by (rule wp_sendMessage [OF now q1 _ renewed(3)])
      (use m not_over [OF renewed(2) u l] not_expired [OF _ u e] renewed(1)
        in \<open>auto simp: sentUnder_def claimedBy_def simp del: fld.simps\<close>)
qed

lemma wp_deliverMessage:
  assumes now: "clock now" and q: "quietly s0 s pre" and valid: "time_valid (previousTime s0)" and m: "claimedBy c m context"
    and lease1: "fld lease1 ''leaseId'' = fld (fld m ''lease'') ''leaseId''"
  shows "wp (deliverMessage c now m context prepared lease1) (\<lambda>_. settles c m s0) E s"
  unfolding deliverMessage_def wp_bind lease1
proof (rule wp_clock [OF now], intro wp_ifI)
  fix t s1
  assume "quietly s s1 []"
  with quietly_trans [OF q] have q1: "quietly s0 s1 pre" by fastforce
  show "wp (failExpired c m lease1 (new_date t)) (\<lambda>_. settles c m s0) E s1"
    by (rule wp_failExpired) (rule settles_closed [OF q1])
  show "wp (bindM (renewMessageLease c m (fld (fld m ''lease'') ''leaseId'') (new_date t)) (\<lambda>renewed. case renewed of
      Inl failure \<Rightarrow> rememberFailure failure
    | Inr lease \<Rightarrow> sendWhileLeased c now m context prepared lease)) (\<lambda>_. settles c m s0) E s1"
    unfolding wp_bind
  proof (rule wp_renewMessageLease, unfold sum.case)
    fix s2 q r failure
    assume "quietly s1 s2 [Asked AskRenew q r]" and "\<not> truthy (fld failure ''ok'')"
    from settles_remembered [OF quietly_trans [OF q1 this(1)] this(2)]
    show "wp (rememberFailure failure) (\<lambda>_. settles c m s0) E s2" by (simp add: wp_rememberFailure)
  next
    fix s2 q r lease
    assume renew: "quietly s1 s2 [Asked AskRenew q r]" and ok: "confirmed r"
      and input: "q = obj [(''tenantId'', fld m ''tenantId''), (''messageId'', fld m ''messageId''), (''workerId'', workerName c),
        (''leaseId'', fld (fld m ''lease'') ''leaseId''), (''now'', new_date t), (''leaseSeconds'', leaseSeconds c)]"
      and lease: "snapshotOutboxLease (fld (safeStoreCall r) ''value'') (fld (fld m ''lease'') ''leaseId'') (workerName c) (new_date t) = Some lease"
    show "wp (sendWhileLeased c now m context prepared lease) (\<lambda>_. settles c m s0) E s2"
      by (rule wp_sendWhileLeased [OF now quietly_trans [OF q1 renew] valid m renewedFor_last [OF input ok lease]])
        (use lease_valid [OF lease] in blast)+
  qed
qed

lemma wp_prepareMessage:
  assumes now: "clock now" and q: "quietly s0 s pre" and valid: "time_valid (previousTime s0)" and m: "claimedBy c m context"
    and lease: "fld lease ''leaseId'' = fld (fld m ''lease'') ''leaseId''"
  shows "wp (prepareMessage c now m context lease) (\<lambda>_. settles c m s0) E s"
  unfolding prepareMessage_def wp_bind
proof (rule wp_clock [OF now], intro wp_ifI)
  fix u s1
  assume "quietly s s1 []"
  with quietly_trans [OF q this] have q1: "quietly s0 s1 pre" by simp
  show "wp (failExpired c m lease (new_date u)) (\<lambda>_. settles c m s0) E s1"
    by (rule wp_failExpired) (rule settles_closed [OF q1])
  show "wp (rememberFailure (workerStoreErr ''OUTBOX_LEASE_CONFLICT'')) (\<lambda>_. settles c m s0) E s1"
    by (simp add: wp_rememberFailure settles_remembered [OF q1])
  show "wp (bindM (unsealDeliveryMessage c m (new_date u)) (\<lambda>prepared. case prepared of
      None \<Rightarrow> failUnsealed c now m lease | Some p \<Rightarrow> deliverMessage c now m context p lease)) (\<lambda>_. settles c m s0) E s1"
    unfolding wp_bind
  proof (rule wp_unsealDeliveryMessage)
    fix prepared s2 es
    assume "quietly s1 s2 es"
    note q2 = quietly_trans [OF q1 this]
    have "wp (failUnsealed c now m lease) (\<lambda>_. settles c m s0) E s2"
      unfolding failUnsealed_def Let_def by (rule wp_fail [OF now]) (rule settles_closed [OF q2])
    with wp_deliverMessage [OF now q2 valid m lease]
    show "wp (case prepared of None \<Rightarrow> failUnsealed c now m lease | Some p \<Rightarrow> deliverMessage c now m context p lease)
        (\<lambda>_. settles c m s0) E s2" by (cases prepared) simp_all
  qed
qed

lemma wp_processMessage:
  assumes now: "clock now" and valid: "time_valid (previousTime s)"
    and m: "isClaimedMessage m" "normalizeDispatchContext (fld m ''context'') = Some context"
  shows "wp (processMessage c now m context) (\<lambda>_. settles c m s) E s"
  unfolding processMessage_def wp_bind
proof (rule wp_clock [OF now], intro wp_ifI)
  fix t s1
  assume q1: "quietly s s1 []"
  show "wp (rememberFailure (workerStoreErr ''OUTBOX_LEASE_CONFLICT'')) (\<lambda>_. settles c m s) E s1"
    by (simp add: wp_rememberFailure settles_remembered [OF q1])
  assume "\<not> (fld (fld m ''lease'') ''workerId'' \<noteq> workerName c \<or> date_le (fld (fld m ''lease'') ''leaseUntil'') (new_date t))"
  with m have m': "claimedBy c m context" by (simp add: claimedBy_def)
  show "wp (bindM (renewMessageLease c m (fld (fld m ''lease'') ''leaseId'') (new_date t)) (\<lambda>renewed. case renewed of
         Inl failure \<Rightarrow> rememberFailure failure
       | Inr lease \<Rightarrow> prepareMessage c now m context lease)) (\<lambda>_. settles c m s) E s1"
    unfolding wp_bind
  proof (rule wp_renewMessageLease, unfold sum.case)
    fix s2 q r failure
    assume "quietly s1 s2 [Asked AskRenew q r]" and "\<not> truthy (fld failure ''ok'')"
    from settles_remembered [OF quietly_trans [OF q1 this(1)] this(2)]
    show "wp (rememberFailure failure) (\<lambda>_. settles c m s) E s2" by (simp add: wp_rememberFailure)
  next
    fix s2 q r lease
    assume renew: "quietly s1 s2 [Asked AskRenew q r]"
      and lease: "snapshotOutboxLease (fld (safeStoreCall r) ''value'') (fld (fld m ''lease'') ''leaseId'') (workerName c) (new_date t) = Some lease"
    show "wp (prepareMessage c now m context lease) (\<lambda>_. settles c m s) E s2"
      by (rule wp_prepareMessage [OF now quietly_trans [OF q1 renew] valid m']) (use lease_valid [OF lease] in blast)
  qed
qed

section \<open>One round\<close>

text \<open>
  What handling a claimed value leaves: one more claimed message, and either nothing else but a
  remembered failure, or the handling of a message that was not seen before.
\<close>

definition handles :: "'w workerConfig \<Rightarrow> jsv \<Rightarrow> 'w workerState \<Rightarrow> 'w workerState \<Rightarrow> workerEvent list \<Rightarrow> bool" where
  "handles c v s s' es \<longleftrightarrow> asked s' = asked s @ es \<and> claimedCount s' = claimedCount s + 1
     \<and> dispatchedCount s' = dispatchedCount s + dispatchedIn es \<and> failedCount s' = failedCount s + failedIn es
     \<and> dispatchedIn es + failedIn es \<le> 1
     \<and> (firstStoreFailure s \<noteq> None \<longrightarrow> firstStoreFailure s' \<noteq> None)
     \<and> (firstStoreFailure s' = None \<longrightarrow> dispatchedIn es + failedIn es = 1)
     \<and> (failing s \<longrightarrow> failing s') \<and> (time_valid (previousTime s) \<longrightarrow> time_valid (previousTime s'))
     \<and> (es = [] \<and> seenClaims s' = seenClaims s
        \<or> (\<exists>m. snapshotClaimedMessage v = Some m \<and> properly c m es \<and> claimKey m \<notin> set (seenClaims s)
              \<and> seenClaims s' = seenClaims s @ [claimKey m]))"

lemma handles_invalid:
  "handles c v s (remembered (workerStoreErr reason) (s\<lparr>claimedCount := Suc (claimedCount s)\<rparr>)) []"
  using failing_remembered [of "workerStoreErr reason" "s\<lparr>claimedCount := Suc (claimedCount s)\<rparr>"]
  by (simp add: handles_def failing_def [of s] failing_def [of "s\<lparr>claimedCount := _\<rparr>"])

lemma wp_handleClaimed:
  assumes now: "clock now" and valid: "time_valid (previousTime s)"
  shows "wp (handleClaimed c now tenantId v) (\<lambda>_ s'. \<exists>es. handles c v s s' es) E s"
proof -
  let ?s1 = "s\<lparr>claimedCount := Suc (claimedCount s)\<rparr>"
  have bad: "wp invalidRecord (\<lambda>_ s'. \<exists>es. handles c v s s' es) E ?s1"
    using handles_invalid [of c v s] by (auto simp: invalidRecord_def wp_rememberFailure)
  show ?thesis
  proof (cases "snapshotClaimedMessage v")
    case None
    with bad show ?thesis by (simp add: handleClaimed_def wp_rules)
  next
    case (Some m)
    note claimed = snapshotClaimedMessage_claimed [OF Some]
    show ?thesis
    proof (cases "tenantId \<noteq> JUndef \<and> fld m ''tenantId'' \<noteq> tenantId")
      case True
      with bad Some show ?thesis by (simp add: handleClaimed_def wp_rules del: fld.simps)
    next
      case tenant: False
      show ?thesis
      proof (cases "claimKey m \<in> set (seenClaims s)")
        case True
        with bad Some tenant show ?thesis by (auto simp: handleClaimed_def wp_bind wp_adjust wp_state_if simp del: fld.simps)
      next
        case fresh: False
        let ?s2 = "?s1\<lparr>seenClaims := seenClaims s @ [claimKey m]\<rparr>"
        from claimed obtain cx where cx: "normalizeDispatchContext (fld m ''context'') = Some cx"
          by (auto simp: isClaimedMessage_def simp del: fld.simps)
        have "wp (processMessage c now m cx) (\<lambda>_. settles c m ?s2) E ?s2"
          by (rule wp_processMessage [OF now _ claimed cx]) (simp add: valid)
        then have "wp (processMessage c now m cx) (\<lambda>_ s'. \<exists>es. handles c v s s' es) E ?s2"
        proof (rule wp_mono)
          fix x s'
          assume "settles c m ?s2 s'"
          then obtain es where "settlesBy c m ?s2 s' es" by (auto simp: settles_def)
          with fresh Some show "\<exists>es. handles c v s s' es"
            by (intro exI [of _ es]) (simp add: settlesBy_def handles_def failing_def [of s] failing_def [of ?s2] del: fld.simps)
        qed
        with Some tenant fresh cx show ?thesis
          by (auto simp: handleClaimed_def wp_bind wp_adjust wp_state_if simp del: fld.simps)
      qed
    qed
  qed
qed

end
