(* ===== verification/WorkerProperties.thy ===== *)
theory WorkerProperties
  imports WorkerRuns
begin

text \<open>
  Whole runs of the outbox worker (\<open>runOnce\<close>), whatever the store, the sealer, the transport and
  the clock do: every delivery is covered by a claim and a live lease and reported at once, no claim
  is delivered twice, and the counters of the answer are the reports.
\<close>

section \<open>Deliveries in a run\<close>

text \<open>The value a claim handed out, when the answer is one message.\<close>

definition handed :: "jsv outcome \<Rightarrow> jsv \<Rightarrow> bool" where
  "handed a v \<longleftrightarrow> confirmed a \<and> map read_elem (arr_elems (fld (safeStoreCall a) ''value'')) = [v]"

text \<open>
  A delivery between the calls \<open>pre\<close> and \<open>post\<close>: the last claim handed out its message \<open>m\<close>, it was
  sent under the lease of \<open>m\<close>, and the next call reports it.
\<close>

definition delivered :: "'w workerConfig \<Rightarrow> workerEvent list \<Rightarrow> jsv \<Rightarrow> jsv outcome \<Rightarrow> workerEvent list \<Rightarrow> bool" where
  "delivered c pre send r post \<longleftrightarrow> (\<exists>m v before q a hs report rest.
     pre = before @ Asked AskClaim q a # hs \<and> claimsIn hs = 0 \<and> handed a v \<and> snapshotClaimedMessage v = Some m
     \<and> sentUnder c m hs send \<and> post = report # rest \<and> reportedAs c m r report)"

definition deliveredProperly :: "'w workerConfig \<Rightarrow> workerEvent list \<Rightarrow> bool" where
  "deliveredProperly c es \<longleftrightarrow> (\<forall>pre send r post. es = pre @ Asked AskSend send r # post \<longrightarrow> delivered c pre send r post)"

text \<open>The claims that were delivered, in order: each delivery is named by the renewal before it.\<close>

definition claimOf :: "jsv \<Rightarrow> jsv" where
  "claimOf q = JArr [fld q ''tenantId'', fld q ''messageId'', fld q ''leaseId'']"

fun sentClaims :: "jsv \<Rightarrow> workerEvent list \<Rightarrow> jsv list" where
  "sentClaims renewal [] = []"
| "sentClaims renewal (Asked p input r # es) =
     (if p = AskSend then claimOf renewal # sentClaims renewal es
      else sentClaims (if p = AskRenew then input else renewal) es)"

lemma delivered_more: "delivered c pre send r post \<Longrightarrow> delivered c pre send r (post @ es)"
  unfolding delivered_def by (elim exE) (intro exI, auto)

lemma no_delivery:
  assumes "deliveredProperly c es" and "\<forall>e \<in> set fs. eventPort e \<noteq> AskSend"
  shows "deliveredProperly c (es @ fs)"
  unfolding deliveredProperly_def
proof (intro allI impI)
  fix pre send r post
  assume split: "es @ fs = pre @ Asked AskSend send r # post"
  then obtain us where "es = pre @ us \<and> us @ fs = Asked AskSend send r # post \<or> es @ us = pre \<and> fs = us @ Asked AskSend send r # post"
    by (auto simp: append_eq_append_conv2)
  then show "delivered c pre send r post"
  proof
    assume "es = pre @ us \<and> us @ fs = Asked AskSend send r # post"
    with assms obtain us' where "es = pre @ Asked AskSend send r # us'" "post = us' @ fs" by (cases us) fastforce+
    with assms(1) show ?thesis unfolding deliveredProperly_def by (blast intro: delivered_more)
  next
    assume "es @ us = pre \<and> fs = us @ Asked AskSend send r # post"
    with assms(2) show ?thesis by auto
  qed
qed

lemma delivery_added:
  assumes es: "deliveredProperly c es" and v: "handed a v" "snapshotClaimedMessage v = Some m" and hs: "properly c m hs"
  shows "deliveredProperly c (es @ Asked AskClaim q a # hs)"
  unfolding deliveredProperly_def
proof (intro allI impI)
  fix pre send r post
  assume split: "es @ Asked AskClaim q a # hs = pre @ Asked AskSend send r # post"
  then obtain us where "es = pre @ us \<and> us @ Asked AskClaim q a # hs = Asked AskSend send r # post
      \<or> es @ us = pre \<and> Asked AskClaim q a # hs = us @ Asked AskSend send r # post"
    by (auto simp: append_eq_append_conv2)
  then show "delivered c pre send r post"
  proof
    assume "es = pre @ us \<and> us @ Asked AskClaim q a # hs = Asked AskSend send r # post"
    then obtain us' where "es = pre @ Asked AskSend send r # us'" "post = us' @ Asked AskClaim q a # hs" by (cases us) auto
    with es show ?thesis unfolding deliveredProperly_def by (blast intro: delivered_more)
  next
    assume "es @ us = pre \<and> Asked AskClaim q a # hs = us @ Asked AskSend send r # post"
    then obtain us' where us': "pre = es @ Asked AskClaim q a # us'" "hs = us' @ Asked AskSend send r # post" by (cases us) auto
    with hs obtain report where "sentUnder c m us' send" "post = [report]" "reportedAs c m r report"
      unfolding properly_def by blast
    moreover have "claimsIn us' = 0" using hs us'(2) by (simp add: properly_def)
    ultimately show ?thesis using us'(1) v unfolding delivered_def by blast
  qed
qed

lemma sentClaims_none: "\<forall>e \<in> set es. eventPort e \<noteq> AskSend \<Longrightarrow> sentClaims renewal es = []"
  by (induction renewal es rule: sentClaims.induct) auto

lemma sentClaims_append: "\<exists>renewal'. sentClaims renewal (es @ fs) = sentClaims renewal es @ sentClaims renewal' fs"
  by (induction renewal es rule: sentClaims.induct) auto

lemma sentClaims_renewed: "\<forall>e \<in> set es. eventPort e \<noteq> AskSend \<Longrightarrow>
    sentClaims renewal (es @ Asked AskRenew q a # Asked AskSend i b # fs) = claimOf q # sentClaims q fs"
  by (induction renewal es rule: sentClaims.induct) auto

lemma sentClaims_properly:
  assumes "properly c m es" shows "sentClaims renewal es = [] \<or> sentClaims renewal es = [claimKey m]"
proof (cases "\<exists>e \<in> set es. eventPort e = AskSend")
  case False
  then show ?thesis using sentClaims_none by blast
next
  case True
  then obtain pre e post where e: "es = pre @ e # post" "eventPort e = AskSend" "\<forall>x \<in> set pre. eventPort x \<noteq> AskSend"
    by (rule split_list_first_propE) blast
  then obtain send r where "e = Asked AskSend send r" by (cases e) auto
  with e(1) assms obtain report where "sentUnder c m pre send" "post = [report]" "reportedAs c m r report"
    and es: "es = pre @ Asked AskSend send r # post" unfolding properly_def by blast
  moreover from this(1) obtain before q a where "pre = before @ [Asked AskRenew q a]"
    and key: "claimOf q = claimKey m" by (auto simp: sentUnder_def renewedFor_def claimOf_def claimKey_def)
  moreover from this(1) e(3) have "\<forall>x \<in> set before. eventPort x \<noteq> AskSend" by simp
  moreover have "eventPort report \<noteq> AskSend" using \<open>reportedAs c m r report\<close> by (auto simp: reportedAs_def split: if_splits)
  ultimately show ?thesis using sentClaims_renewed [of before renewal q a send r "[report]"] sentClaims_none [of "[report]" q] by simp
qed

section \<open>The invariant of the loop\<close>

definition runEvents :: "'w workerConfig \<Rightarrow> 'w workerState \<Rightarrow> nat \<Rightarrow> 'w workerState \<Rightarrow> workerEvent list \<Rightarrow> bool" where
  "runEvents c s0 k s es \<longleftrightarrow> asked s = asked s0 @ es \<and> deliveredProperly c es \<and> claimsIn es \<le> k
     \<and> distinct (sentClaims JUndef es) \<and> set (sentClaims JUndef es) \<subseteq> set (seenClaims s)
     \<and> claimedCount s \<le> claimsIn es \<and> dispatchedCount s = dispatchedIn es \<and> failedCount s = failedIn es
     \<and> (firstStoreFailure s = None \<longrightarrow> claimedCount s = dispatchedIn es + failedIn es)
     \<and> failing s \<and> time_valid (previousTime s)"

definition runInv :: "'w workerConfig \<Rightarrow> 'w workerState \<Rightarrow> nat \<Rightarrow> 'w workerState \<Rightarrow> bool" where
  "runInv c s0 k s \<longleftrightarrow> (\<exists>es. runEvents c s0 k s es)"

lemma runEventsD:
  assumes "runEvents c s0 k s es"
  shows "asked s = asked s0 @ es" "deliveredProperly c es" "claimsIn es \<le> k"
    "distinct (sentClaims JUndef es)" "set (sentClaims JUndef es) \<subseteq> set (seenClaims s)"
    "claimedCount s \<le> claimsIn es" "dispatchedCount s = dispatchedIn es" "failedCount s = failedIn es"
    "firstStoreFailure s = None \<longrightarrow> claimedCount s = dispatchedIn es + failedIn es" "failing s" "time_valid (previousTime s)"
  using assms unfolding runEvents_def by blast+

lemma runInv_quietly:
  assumes "runInv c s0 k s" and "quietly s s1 []" shows "runInv c s0 k s1"
  using assms failing_quietly [OF assms(2)] unfolding runInv_def runEvents_def quietly_def by auto

text \<open>A claim that hands out nothing that is handled.\<close>

lemma runInv_claim:
  assumes inv: "runInv c s0 k s"
  shows "runInv c s0 (Suc k) (s\<lparr>outer := w, asked := asked s @ [Asked AskClaim q a]\<rparr>)"
proof -
  from inv obtain es where "runEvents c s0 k s es" by (auto simp: runInv_def)
  note es = runEventsD [OF this]
  have "deliveredProperly c (es @ [Asked AskClaim q a])" by (rule no_delivery [OF es(2)]) simp
  moreover obtain l where "sentClaims JUndef (es @ [Asked AskClaim q a]) = sentClaims JUndef es @ sentClaims l [Asked AskClaim q a]"
    using sentClaims_append by blast
  ultimately show ?thesis using es
    unfolding runInv_def runEvents_def by (intro exI [of _ "es @ [Asked AskClaim q a]"]) (simp add: failing_def)
qed

lemma runInv_remembered: "runInv c s0 k s \<Longrightarrow> \<not> truthy (fld failure ''ok'') \<Longrightarrow> runInv c s0 k (remembered failure s)"
  unfolding runInv_def runEvents_def using failing_remembered [of failure s] by (elim exE) (intro exI, auto simp del: fld.simps)

lemma runInv_handled:
  assumes inv: "runInv c s0 k s" and v: "handed a v"
    and h: "handles c v (s\<lparr>outer := w, asked := asked s @ [Asked AskClaim q a]\<rparr>) s' hs"
  shows "runInv c s0 (Suc k) s'"
proof -
  from inv obtain es where "runEvents c s0 k s es" by (auto simp: runInv_def)
  note es = runEventsD [OF this]
  let ?fs = "es @ Asked AskClaim q a # hs"
  obtain l where l: "sentClaims JUndef ?fs = sentClaims JUndef es @ sentClaims l (Asked AskClaim q a # hs)"
    using sentClaims_append by blast
  have d: "deliveredProperly c ?fs \<and> claimsIn hs = 0 \<and> distinct (sentClaims JUndef ?fs) \<and> set (sentClaims JUndef ?fs) \<subseteq> set (seenClaims s')"
  proof (cases "hs = []")
    case True
    with h no_delivery [OF es(2), of "[Asked AskClaim q a]"] l es(4,5) show ?thesis by (auto simp: handles_def)
  next
    case False
    with h obtain m where m: "snapshotClaimedMessage v = Some m" "properly c m hs" "claimKey m \<notin> set (seenClaims s)"
      "seenClaims s' = seenClaims s @ [claimKey m]" by (auto simp: handles_def)
    from sentClaims_properly [OF m(2), of l] l es(4,5) m(3,4)
    have "distinct (sentClaims JUndef ?fs) \<and> set (sentClaims JUndef ?fs) \<subseteq> set (seenClaims s')" by auto
    with delivery_added [OF es(2) v m(1,2), of q] m(2) show ?thesis by (simp add: properly_def)
  qed
  have same: "failing (s\<lparr>outer := w, asked := asked s @ [Asked AskClaim q a]\<rparr>)" using es(10) by (simp add: failing_def)
  show ?thesis
    unfolding runInv_def runEvents_def
    by (intro exI [of _ ?fs]) (use h d es same in \<open>auto simp: handles_def\<close>)
qed

lemma wp_claimRound:
  assumes now: "clock now" and inv: "runInv c s0 k s"
  shows "wp (claimRound c now tenantId) (\<lambda>_. runInv c s0 (Suc k)) E s"
  unfolding claimRound_def wp_bind
proof (rule wp_clock [OF now])
  fix t s1
  assume "quietly s s1 []"
  from runInv_quietly [OF inv this] have inv1: "runInv c s0 k s1" .
  let ?q = "obj [(''now'', new_date t), (''limit'', JNum 1), (''workerId'', workerName c),
      (''leaseSeconds'', leaseSeconds c), (''tenantId'', tenantId)]"
  obtain a w where a: "respond c AskClaim ?q (outer s1) = (a, w)" by (rule prod.exhaust)
  let ?s2 = "s1\<lparr>outer := w, asked := asked s1 @ [Asked AskClaim ?q a]\<rparr>"
  let ?found = "fld (safeStoreCall a) ''value''"
  note inv2 = runInv_claim [OF inv1, where w = w and q = ?q and a = a]
  have invalid: "wp invalidRecord (\<lambda>_. runInv c s0 (Suc k)) E ?s2"
    by (simp add: invalidRecord_def wp_rememberFailure runInv_remembered [OF inv2])
  have "wp (if \<not> truthy (fld (safeStoreCall a) ''ok'') then bindM (rememberFailure (safeStoreCall a)) (\<lambda>_. ret False)
       else if \<not> is_arr ?found \<or> 1 < length (arr_elems ?found) then bindM invalidRecord (\<lambda>_. ret False)
       else case map read_elem (arr_elems ?found) of
         [] \<Rightarrow> ret False
       | v # _ \<Rightarrow> if \<not> truthy v then ret False
           else bindM (handleClaimed c now tenantId v) (\<lambda>_. ret True)) (\<lambda>_. runInv c s0 (Suc k)) E ?s2"
  proof (intro wp_ifI)
    assume "\<not> truthy (fld (safeStoreCall a) ''ok'')"
    then show "wp (bindM (rememberFailure (safeStoreCall a)) (\<lambda>_. ret False)) (\<lambda>_. runInv c s0 (Suc k)) E ?s2"
      by (simp add: wp_bind wp_ret_eq wp_rememberFailure runInv_remembered [OF inv2] del: fld.simps)
  next
    show "wp (bindM invalidRecord (\<lambda>_. ret False)) (\<lambda>_. runInv c s0 (Suc k)) E ?s2"
      using invalid by (simp add: wp_bind wp_ret_eq)
  next
    assume ok: "\<not> \<not> truthy (fld (safeStoreCall a) ''ok'')" and one: "\<not> (\<not> is_arr ?found \<or> 1 < length (arr_elems ?found))"
    show "wp (case map read_elem (arr_elems ?found) of
         [] \<Rightarrow> ret False
       | v # _ \<Rightarrow> if \<not> truthy v then ret False
           else bindM (handleClaimed c now tenantId v) (\<lambda>_. ret True)) (\<lambda>_. runInv c s0 (Suc k)) E ?s2"
    proof (cases "map read_elem (arr_elems ?found)")
      case Nil
      then show ?thesis unfolding Nil list.case by (simp only: wp_ret inv2)
    next
      case (Cons v vs)
      have "vs = []" using one Cons by (cases vs) auto
      with Cons ok have v: "handed a v" by (simp add: handed_def confirmed_def)
      have "time_valid (previousTime ?s2)" using inv2 by (auto simp: runInv_def runEvents_def)
      from wp_handleClaimed [OF now this, of c tenantId v E] have "wp (handleClaimed c now tenantId v) (\<lambda>_. runInv c s0 (Suc k)) E ?s2"
        by (rule wp_mono) (use runInv_handled [OF inv1 v] in blast)+
      then show ?thesis unfolding Cons list.case by (simp add: wp_bind wp_ret_eq wp_ret inv2)
    qed
  qed
  then show "wp (askStore c AskClaim ?q) (\<lambda>claimed. wp (let value = fld claimed ''value'' in
       if \<not> truthy (fld claimed ''ok'') then bindM (rememberFailure claimed) (\<lambda>_. ret False)
       else if \<not> is_arr value \<or> 1 < length (arr_elems value) then bindM invalidRecord (\<lambda>_. ret False)
       else case map read_elem (arr_elems value) of
         [] \<Rightarrow> ret False
       | v # _ \<Rightarrow> if \<not> truthy v then ret False
           else bindM (handleClaimed c now tenantId v) (\<lambda>_. ret True)) (\<lambda>_. runInv c s0 (Suc k)) E) E s1"
    unfolding wp_askStore a prod.case Let_def .
qed

lemma wp_claimRounds:
  assumes "clock now" and "runInv c s0 k s"
  shows "wp (claimRounds n c now tenantId) (\<lambda>_ s'. runInv c s0 (n + k) s') E s"
  using assms(2)
proof (induction n arbitrary: k s)
  case 0
  then show ?case by (simp only: claimRounds.simps wp_ret add_0)
next
  case (Suc n)
  have weaken: "runInv c s0 (Suc k) s' \<Longrightarrow> runInv c s0 (Suc n + k) s'" for s'
    unfolding runInv_def runEvents_def by (elim exE) (intro exI, auto)
  have "wp (claimRound c now tenantId) (\<lambda>more s'. wp (if more then claimRounds n c now tenantId else ret ())
      (\<lambda>_ s'. runInv c s0 (Suc n + k) s') E s') E s"
    by (rule wp_mono [OF wp_claimRound [OF assms(1) Suc.prems]])
      (use Suc.IH [of "Suc k"] weaken in \<open>auto simp: wp_ret_eq\<close>)
  then show ?case by (simp add: wp_bind)
qed

section \<open>The property\<close>

definition runsWell :: "'w workerConfig \<Rightarrow> jsv \<Rightarrow> jsv \<Rightarrow> workerEvent list \<Rightarrow> bool" where
  "runsWell c input r es \<longleftrightarrow> deliveredProperly c es \<and> distinct (sentClaims JUndef es)
     \<and> claimsIn es \<le> (case snapshotRunInput input of None \<Rightarrow> 0 | Some runInput \<Rightarrow> requestedLimit c runInput)
     \<and> (truthy (fld r ''ok'') \<longrightarrow> (\<exists>claimed. claimed = dispatchedIn es + failedIn es \<and> claimed \<le> claimsIn es
          \<and> fld r ''value'' = obj [(''claimed'', JNum (int claimed)), (''dispatched'', JNum (int (dispatchedIn es))),
              (''failed'', JNum (int (failedIn es)))]))"

lemma deliveredProperly_Nil [simp]: "deliveredProperly c []"
  by (simp add: deliveredProperly_def)

lemma runsWell_report:
  assumes "runEvents c s0 k s es" and "snapshotRunInput input = Some runInput" and "k = requestedLimit c runInput"
  shows "runsWell c input (runReport s) es"
proof -
  note es = runEventsD [OF assms(1)]
  show ?thesis
  proof (cases "firstStoreFailure s")
    case None
    with es assms(2,3) show ?thesis by (simp add: runsWell_def runReport_def)
  next
    case (Some f)
    with es(10) have "\<not> truthy (fld (runReport s) ''ok'')" by (simp add: failing_def runReport_def del: fld.simps)
    with es assms(2,3) show ?thesis by (simp add: runsWell_def del: fld.simps)
  qed
qed

text \<open>A worker that is handed one message and whose collaborators all agree.\<close>

definition handedMessage :: jsv where
  "handedMessage = obj [(''tenantId'', JStr ''t''), (''messageId'', JStr ''m''), (''context'', obj [(''tenantId'', JStr ''t'')]),
     (''secretPurpose'', JStr (outboxSecretPurpose ''t'' ''m'')), (''type'', JStr ''delivery''),
     (''message'', obj [(''to'', obj [(''channel'', JStr ''email''), (''target'', JStr ''a'')]), (''templateId'', JStr ''x'')]),
     (''dispatchPolicy'', JStr ''required''), (''idempotencyKey'', JStr ''k''), (''status'', JStr ''claimed''),
     (''attempts'', JNum 0), (''maxAttempts'', JNum 3), (''availableAt'', JDate (Some 0)),
     (''createdAt'', JDate (Some 0)), (''updatedAt'', JDate (Some 1)),
     (''lease'', obj [(''leaseId'', JStr ''lease_1''), (''workerId'', JStr ''w''), (''leaseUntil'', JDate (Some 60000))])]"

definition agreeing :: "workerPort \<Rightarrow> jsv \<Rightarrow> unit \<Rightarrow> jsv outcome \<times> unit" where
  "agreeing p input w = (Ret (obj [(''ok'', JBool True), (''value'', case p of
     AskClaim \<Rightarrow> JArr [handedMessage]
   | AskRenew \<Rightarrow> obj [(''leaseId'', JStr ''lease_1''), (''workerId'', JStr ''w''), (''leaseUntil'', JDate (Some 60000))]
   | AskSend \<Rightarrow> obj [(''acceptedAt'', JDate (Some 7))]
   | _ \<Rightarrow> JUndef)]), ())"

definition agreedWorker :: "unit workerConfig" where
  "agreedWorker = \<lparr>respond = agreeing, dateNow = \<lambda>_. (5, ()), workerName = JStr ''w'', leaseSeconds = JNum 30,
     batchLimit = JNum 1, retryDelaySeconds = JNum 60\<rparr>"

definition idleWorker :: "unit workerState" where
  "idleWorker = \<lparr>outer = (), asked = [], previousTime = 0, claimedCount = 0, dispatchedCount = 0, failedCount = 0,
     firstStoreFailure = None, seenClaims = []\<rparr>"

text \<open>
  C37. A run of the outbox worker, whatever its collaborators do: it always ends with a result; it
  claims at most the requested number of messages; a delivery is sent only for the message of the last
  claim, directly after a renewal of its lease for this worker, before that lease and the message are
  over, and its outcome is reported in the next call; no claim is delivered twice; and a successful
  result means that every claimed message was reported, and counts those reports.
\<close>

theorem worker_delivers_under_lease:
  assumes "time_valid (date_ms (fld input ''now''))"
  shows "\<exists>r s' es. runOnce c input s = (Ret r, s') \<and> asked s' = asked s @ es \<and> runsWell c input r es"
proof (cases "snapshotRunInput input")
  case None
  then show ?thesis
    by (intro exI [of _ "workerStoreErr ''OUTBOX_INVALID_INPUT''"] exI [of _ s] exI [of _ "[]"])
      (simp add: runOnce_def runsWell_def)
next
  case (Some runInput)
  let ?t = "date_ms (fld runInput ''now'')"
  have "fld runInput ''now'' = fld input ''now''" using Some by (auto simp: snapshotRunInput_def split: if_splits)
  with assms have valid: "time_valid ?t" by simp
  obtain n w where "dateNow c (outer s) = (n, w)" by (rule prod.exhaust)
  then have n: "wallClock c s = (Ret n, s\<lparr>outer := w\<rparr>)" by (simp add: wallClock_def)
  let ?s1 = "s\<lparr>outer := w, previousTime := ?t, claimedCount := 0, dispatchedCount := 0, failedCount := 0,
    firstStoreFailure := None, seenClaims := []\<rparr>"
  have "runEvents c s 0 ?s1 []" using valid by (simp add: runEvents_def failing_def)
  then have "runInv c s 0 ?s1" by (auto simp: runInv_def)
  from wp_claimRounds [OF clock_currentTime this, where n = "requestedLimit c runInput"]
  have "wp (claimRounds (requestedLimit c runInput) c (currentTime c ?t n) (fld runInput ''tenantId''))
    (\<lambda>_ s'. runInv c s (requestedLimit c runInput) s') (\<lambda>_. False) ?s1" by simp
  then obtain u s' where run: "claimRounds (requestedLimit c runInput) c (currentTime c ?t n) (fld runInput ''tenantId'') ?s1 = (Ret u, s')"
    and inv: "runInv c s (requestedLimit c runInput) s'" by (auto simp: wp_def split: prod.splits outcome.splits)
  have result: "runOnce c input s = (Ret (runReport s'), s')"
    using run n by (simp add: runOnce_def Some Let_def bindM_def adjust_def del: fld.simps)
  from inv obtain es where "runEvents c s (requestedLimit c runInput) s' es" by (auto simp: runInv_def)
  with result runsWell_report [OF this Some refl] runEventsD(1) [OF this] show ?thesis by blast
qed

theorem worker_delivers_under_lease_witness:
  "deliveredProperly agreedWorker (asked (snd (runOnce agreedWorker (obj [(''now'', JDate (Some 1))]) idleWorker)))
   \<and> map eventPort (asked (snd (runOnce agreedWorker (obj [(''now'', JDate (Some 1))]) idleWorker)))
       = [AskClaim, AskRenew, AskRenew, AskSend, AskDispatched]"
proof
  have "time_valid (date_ms (fld (obj [(''now'', JDate (Some 1))]) ''now''))" by (simp add: time_valid_def)
  from worker_delivers_under_lease [OF this, of agreedWorker idleWorker] obtain r s' es
    where "runOnce agreedWorker (obj [(''now'', JDate (Some 1))]) idleWorker = (Ret r, s')" "asked s' = es" "deliveredProperly agreedWorker es"
    by (auto simp: runsWell_def idleWorker_def)
  then show "deliveredProperly agreedWorker (asked (snd (runOnce agreedWorker (obj [(''now'', JDate (Some 1))]) idleWorker)))" by simp
  show "map eventPort (asked (snd (runOnce agreedWorker (obj [(''now'', JDate (Some 1))]) idleWorker)))
      = [AskClaim, AskRenew, AskRenew, AskSend, AskDispatched]" by code_simp
qed

end
