(* ===== verification/EffectsCalls.thy ===== *)
theory EffectsCalls
  imports WorkerValidation JsMonad
begin

text \<open>
  What the two dispatchers of side effects share, \<open>packages/effects-outbox\<close> and
  \<open>packages/effects-sync-delivery\<close>: the calls of their collaborators, which answer with arbitrary
  values or throw and change the world arbitrarily, the clock of a dispatch (\<open>createCurrentTime\<close>,
  the same text in both packages), the copy of the input and the failures. Every call is recorded.
  \<open>providesNow\<close> says whether the option \<open>now\<close> was given; the machine's clock (\<open>Date.now\<close>) is a
  function of the world. A copy of a date is the date.
\<close>

section \<open>Collaborators\<close>

datatype effectsPort = GenerateId | SealSecret | EnqueueBatch | UnsealSecret | TellTime | SendMessage

datatype effectsEvent = Called effectsPort "jsv list" "jsv outcome"

record 'w effectsEnv =
  reply :: "effectsPort \<Rightarrow> jsv list \<Rightarrow> 'w \<Rightarrow> jsv outcome \<times> 'w"
  machineClock :: "'w \<Rightarrow> int \<times> 'w"
  providesNow :: bool

record 'w effectsState =
  surroundings :: 'w
  calls :: "effectsEvent list"
  latest :: int

type_synonym ('w, 'a) effecting = "('w effectsState, 'a) M"

definition request :: "'w effectsEnv \<Rightarrow> effectsPort \<Rightarrow> jsv list \<Rightarrow> ('w, jsv outcome) effecting" where
  "request e p args = (\<lambda>s. case reply e p args (surroundings s) of
     (r, w) \<Rightarrow> (Ret r, s\<lparr>surroundings := w, calls := calls s @ [Called p args r]\<rparr>))"

definition readMachine :: "'w effectsEnv \<Rightarrow> ('w, int) effecting" where
  "readMachine e = (\<lambda>s. case machineClock e (surroundings s) of (n, w) \<Rightarrow> (Ret n, s\<lparr>surroundings := w\<rparr>))"

section \<open>The clock of a dispatch\<close>

text \<open>It starts at the time of the input; a provider that moves back, throws or tells no time gives \<open>None\<close>.\<close>

definition startClock :: "'w effectsEnv \<Rightarrow> int \<Rightarrow> ('w, int) effecting" where
  "startClock e initialTime =
     bindM (readMachine e) (\<lambda>startedAt s. (Ret startedAt, s\<lparr>latest := initialTime\<rparr>))"

definition dispatchClock :: "'w effectsEnv \<Rightarrow> int \<Rightarrow> int \<Rightarrow> ('w, jsv option) effecting" where
  "dispatchClock e initialTime startedAt =
     bindM (if providesNow e
            then (\<lambda>s. request e TellTime [obj [(''now'', new_date (latest s))]] s)
            else bindM (readMachine e) (\<lambda>n. ret (Ret (new_date (initialTime + max 0 (n - startedAt))))))
       (\<lambda>candidate s. case candidate of
          Ret (JDate (Some t)) \<Rightarrow>
            if t < latest s then (Ret None, s) else (Ret (Some (JDate (Some t))), s\<lparr>latest := t\<rparr>)
        | _ \<Rightarrow> (Ret None, s))"

section \<open>Failures and items\<close>

definition effectsErr :: "string \<Rightarrow> jsv" where
  "effectsErr reason = obj [(''ok'', JBool False), (''error'', obj [(''type'', JStr ''component.failure''),
     (''component'', JStr ''effects''), (''reason'', JStr reason)])]"

definition sideEffectFailed :: jsv where
  "sideEffectFailed = effectsErr ''SIDE_EFFECT_FAILED''"

definition dispatchItem :: "nat \<Rightarrow> jsv" where
  "dispatchItem index = obj [(''index'', JNum (int index)), (''type'', JStr ''delivery'')]"

definition failedItem :: "nat \<Rightarrow> jsv \<Rightarrow> (string \<times> jsv) list \<Rightarrow> jsv" where
  "failedItem index reason details = obj ([(''index'', JNum (int index)), (''type'', JStr ''delivery''), (''reason'', reason)] @ details)"

definition notDispatched :: "nat \<Rightarrow> jsv" where
  "notDispatched index = failedItem index (JStr ''SIDE_EFFECT_FAILED'') []"

text \<open>\<open>failed.length > 0 ? failed : undefined\<close>\<close>

definition failedList :: "jsv list \<Rightarrow> jsv" where
  "failedList failed = (if failed = [] then JUndef else JArr failed)"

text \<open>\<open>effect.expiresAt && effect.expiresAt <= now\<close>\<close>

definition overAt :: "jsv \<Rightarrow> jsv \<Rightarrow> bool" where
  "overAt effect now = (truthy (fld effect ''expiresAt'') \<and> date_le (fld effect ''expiresAt'') now)"

definition isRequired :: "jsv \<Rightarrow> bool" where
  "isRequired effect = (fld effect ''dispatchPolicy'' = JStr ''required'')"

section \<open>JSON\<close>

definition isJson :: "jsv \<Rightarrow> bool" where
  "isJson v = (isJsonValue v 0 start_traversal \<noteq> None)"

section \<open>Lemmas\<close>

lemma wp_request [wp_rules]:
  "wp (request e p args) Q E s = (case reply e p args (surroundings s) of
     (r, w) \<Rightarrow> Q r (s\<lparr>surroundings := w, calls := calls s @ [Called p args r]\<rparr>))"
  by (simp add: wp_def request_def split: prod.split)

lemma wp_readMachine [wp_rules]:
  "wp (readMachine e) Q E s = (case machineClock e (surroundings s) of (n, w) \<Rightarrow> Q n (s\<lparr>surroundings := w\<rparr>))"
  by (simp add: wp_def readMachine_def split: prod.split)

end
