(* ===== verification/EffectsDelivery.thy ===== *)
theory EffectsDelivery
  imports EffectsCalls
begin

text \<open>
  \<open>packages/effects-outbox/src/delivery\<close>: \<open>validation.ts\<close>, \<open>persist.ts\<close> and \<open>seal.ts\<close>, and the
  copy of the input in \<open>dispatcher/validation.ts\<close>. Secrets are copied with what they reveal; a raw
  secret never enters a persistable message. The context is copied as in the outbox worker, whose
  \<open>shared/context.ts\<close> is the same text.
\<close>

section \<open>The input\<close>

definition isEffectsTransaction :: "jsv \<Rightarrow> bool" where
  "isEffectsTransaction v =
     (isRecord v \<and> is_str (fld v ''transactionId'') \<and> 0 < str_len (fld v ''transactionId'')
      \<and> is_arr (fld v ''covers'')
      \<and> arr_every (\<lambda>scope. is_str scope \<and> 0 < str_len scope) (arr_elems (fld v ''covers'')))"

text \<open>The copied input: \<open>scopes\<close> are the covers of the transaction, when there is one.\<close>

record outboxDispatch =
  dispatchContext :: jsv
  dispatchEffects :: "jsv list"
  dispatchNow :: jsv
  dispatchTx :: "(jsv \<times> jsv list) option"

definition snapshotOutboxDispatch :: "jsv \<Rightarrow> outboxDispatch option" where
  "snapshotOutboxDispatch input =
     (if \<not> isRecord input \<or> \<not> is_arr (fld input ''effects'') \<or> 1000 < length (arr_elems (fld input ''effects''))
         \<or> \<not> isValidDate (fld input ''now'')
         \<or> (fld input ''tx'' \<noteq> JUndef \<and> \<not> isEffectsTransaction (fld input ''tx'')) then None
      else Some \<lparr>dispatchContext = fld input ''context'',
        dispatchEffects = map read_elem (arr_elems (fld input ''effects'')), dispatchNow = fld input ''now'',
        dispatchTx = (if fld input ''tx'' = JUndef then None
                      else Some (fld input ''tx'', arr_elems (fld (fld input ''tx'') ''covers'')))\<rparr>)"

section \<open>Checks\<close>

definition isRawDeliverySecret :: "jsv \<Rightarrow> bool" where
  "isRawDeliverySecret v =
     (isPlainObject v \<and> hasOnlyKeys v rawSecretKeys
      \<and> fld v ''type'' = JStr ''raw-secret'' \<and> is_str (fld v ''redacted'')
      \<and> is_fun (fld v ''reveal'') \<and> is_fun (fld v ''toJSON'')
      \<and> \<not> has_key ''revealForPersistence'' v \<and> \<not> has_key ''revealCiphertextForPersistence'' v)"

text \<open>\<open>isDeliveryData\<close>, with the test of the secrets it allows (\<open>raw\<close> or \<open>sealed\<close>).\<close>

definition isDataWith :: "(jsv \<Rightarrow> bool) \<Rightarrow> jsv \<Rightarrow> bool" where
  "isDataWith isSecret v =
     (isPlainObject v \<and> length (obj_keys v) \<le> 1000
      \<and> list_all (\<lambda>item. isSecret item \<or> isJson item) (map snd (obj_entries v)))"

definition isOutboxDeliveryMessage :: "jsv \<Rightarrow> bool" where
  "isOutboxDeliveryMessage v =
     (isPlainObject v \<and> isPlainObject (fld v ''to'')
      \<and> hasOnlyKeys v messageKeys \<and> hasOnlyKeys (fld v ''to'') addressKeys
      \<and> isSafeText (fld (fld v ''to'') ''channel'') 64 True
      \<and> isSafeText (fld (fld v ''to'') ''target'') 2048 True
      \<and> (fld (fld v ''to'') ''display'' = JUndef \<or> isSafeText (fld (fld v ''to'') ''display'') 512 False)
      \<and> isSafeText (fld v ''templateId'') 256 True
      \<and> (fld v ''locale'' = JUndef \<or> isSafeText (fld v ''locale'') 128 True)
      \<and> (fld v ''data'' = JUndef \<or> isRecord (fld v ''data''))
      \<and> (fld v ''metadata'' = JUndef \<or> workerJsonObject (fld v ''metadata'')))"

definition isOutboxDeliveryEffect :: "jsv \<Rightarrow> bool" where
  "isOutboxDeliveryEffect v =
     (isPlainObject v \<and> hasOnlyKeys v effectKeys
      \<and> fld v ''type'' = JStr ''delivery''
      \<and> (fld v ''dispatchPolicy'' = JStr ''required'' \<or> fld v ''dispatchPolicy'' = JStr ''best-effort'')
      \<and> isOutboxDeliveryMessage (fld v ''message'')
      \<and> (if fld v ''idempotencyKey'' = JUndef then fld v ''dispatchPolicy'' = JStr ''best-effort''
         else isSafeText (fld v ''idempotencyKey'') 512 True)
      \<and> (fld v ''expiresAt'' = JUndef \<or> isValidDate (fld v ''expiresAt'')))"

section \<open>Copies\<close>

text \<open>
  The copy of a raw secret and the characters used so far; the outer \<open>None\<close> is a throw, the inner
  one the result \<open>undefined\<close>.
\<close>

definition snapshotRawDeliverySecret :: "jsv \<Rightarrow> nat \<Rightarrow> (jsv option \<times> nat) option" where
  "snapshotRawDeliverySecret v budget =
     (if \<not> isPlainObject v \<or> \<not> hasOnlyKeys v rawSecretKeys
         \<or> fld v ''type'' \<noteq> JStr ''raw-secret'' \<or> \<not> is_fun (fld v ''reveal'') \<or> \<not> is_fun (fld v ''toJSON'')
      then Some (None, budget)
      else case call_thunk (fld v ''reveal'') of
        None \<Rightarrow> None
      | Some revealed \<Rightarrow>
          if \<not> is_str revealed \<or> str_len revealed = 0 then Some (None, budget)
          else if 1000000 < budget + str_len revealed then Some (None, budget + str_len revealed)
          else Some (Some (obj [(''type'', JStr ''raw-secret''), (''redacted'', redacted_text),
                 (''reveal'', JFun (Some revealed)), (''toJSON'', JFun (Some redacted_text))]),
               budget + str_len revealed))"

text \<open>
  The entries of \<open>snapshotDeliveryData\<close>, here \<open>snapshotRawDeliveryData\<close>, and \<open>snapshotPersistableDeliveryData\<close>, which differ in the
  copy of a secret only; \<open>None\<close> for a throw and for \<open>undefined\<close>, which the callers treat alike.
\<close>

fun snapshotEntriesWith ::
  "(jsv \<Rightarrow> nat \<Rightarrow> (jsv option \<times> nat) option) \<Rightarrow> (string \<times> jsv) list \<Rightarrow> nat \<Rightarrow> (string \<times> jsv) list option" where
  "snapshotEntriesWith copySecret [] budget = Some []"
| "snapshotEntriesWith copySecret ((key, item) # kvs) budget =
     (case copySecret item budget of
        None \<Rightarrow> None
      | Some (Some secret, budget') \<Rightarrow>
          map_option (\<lambda>rest. (key, secret) # rest) (snapshotEntriesWith copySecret kvs budget')
      | Some (None, budget') \<Rightarrow>
          (case structuredClone item of
             None \<Rightarrow> None
           | Some json \<Rightarrow>
               if \<not> isJson json then None
               else map_option (\<lambda>rest. (key, json) # rest) (snapshotEntriesWith copySecret kvs budget')))"

definition snapshotDataWith ::
  "(jsv \<Rightarrow> nat \<Rightarrow> (jsv option \<times> nat) option) \<Rightarrow> (jsv \<Rightarrow> bool) \<Rightarrow> jsv \<Rightarrow> jsv option" where
  "snapshotDataWith copySecret isSecret v =
     (if \<not> isPlainObject v \<or> 1000 < length (obj_keys v) then None
      else case snapshotEntriesWith copySecret (obj_entries v) 0 of
        None \<Rightarrow> None
      | Some entries \<Rightarrow> if isDataWith isSecret (obj entries) then Some (obj entries) else None)"

definition snapshotRawDeliveryData :: "jsv \<Rightarrow> jsv option" where
  "snapshotRawDeliveryData v = snapshotDataWith snapshotRawDeliverySecret isRawDeliverySecret v"

definition snapshotPersistableDeliveryData :: "jsv \<Rightarrow> jsv option" where
  "snapshotPersistableDeliveryData v = snapshotDataWith snapshotSealedSecret workerSealedSecret v"

text \<open>
  \<open>snapshotDeliveryMessage\<close>, here \<open>snapshotRawDeliveryMessage\<close>, and \<open>snapshotPersistableDeliveryMessage\<close>, which differ in the copy of the
  data and in the order of the last two fields.
\<close>

definition messageParts :: "(jsv \<Rightarrow> jsv option) \<Rightarrow> jsv \<Rightarrow> ((string \<times> jsv) list \<times> jsv \<times> jsv) option" where
  "messageParts copyData v =
     (let to = fld v ''to'' in
      if \<not> isPlainObject v \<or> \<not> hasOnlyKeys v messageKeys \<or> \<not> isPlainObject to \<or> \<not> hasOnlyKeys to addressKeys
      then None
      else case (if fld v ''data'' = JUndef then Some JUndef else copyData (fld v ''data''),
                 cloneOptional (fld v ''metadata'')) of
        (Some data, Some metadata) \<Rightarrow>
          if metadata \<noteq> JUndef \<and> \<not> workerJsonObject metadata then None
          else Some ([(''to'', obj ([(''channel'', fld to ''channel''), (''target'', fld to ''target'')]
                 @ given ''display'' (fld to ''display''))), (''templateId'', fld v ''templateId'')]
               @ given ''locale'' (fld v ''locale''), data, metadata)
      | _ \<Rightarrow> None)"

definition snapshotRawDeliveryMessage :: "jsv \<Rightarrow> jsv option" where
  "snapshotRawDeliveryMessage v =
     (case messageParts snapshotRawDeliveryData v of
        None \<Rightarrow> None
      | Some (envelope, data, metadata) \<Rightarrow>
          let snapshot = obj (envelope @ given ''data'' data @ given ''metadata'' metadata)
          in if isOutboxDeliveryMessage snapshot \<and> (data = JUndef \<or> isDataWith isRawDeliverySecret data)
             then Some snapshot else None)"

definition snapshotPersistableDeliveryMessage :: "jsv \<Rightarrow> jsv option" where
  "snapshotPersistableDeliveryMessage v =
     (case messageParts snapshotPersistableDeliveryData v of
        None \<Rightarrow> None
      | Some (envelope, data, metadata) \<Rightarrow>
          let snapshot = obj (envelope @ given ''metadata'' metadata @ given ''data'' data)
          in if isOutboxDeliveryMessage snapshot \<and> (data = JUndef \<or> isDataWith workerSealedSecret data)
             then Some snapshot else None)"

definition snapshotDeliveryEffect :: "jsv \<Rightarrow> jsv option" where
  "snapshotDeliveryEffect effect =
     (if \<not> isPlainObject effect \<or> \<not> hasOnlyKeys effect effectKeys
         \<or> (fld effect ''expiresAt'' \<noteq> JUndef \<and> \<not> isValidDate (fld effect ''expiresAt'')) then None
      else let snapshot = obj ([(''type'', fld effect ''type''), (''dispatchPolicy'', fld effect ''dispatchPolicy'')]
                 @ given ''idempotencyKey'' (fld effect ''idempotencyKey'') @ given ''expiresAt'' (fld effect ''expiresAt'')
                 @ [(''message'', case snapshotRawDeliveryMessage (fld effect ''message'') of None \<Rightarrow> JUndef | Some m \<Rightarrow> m)])
           in if isOutboxDeliveryEffect snapshot then Some snapshot else None)"

section \<open>Sealing\<close>

definition sealable :: "jsv \<Rightarrow> bool" where
  "sealable v =
     (isRecord v \<and> fld v ''type'' = JStr ''raw-secret'' \<and> is_str (fld v ''redacted'')
      \<and> is_fun (fld v ''reveal'') \<and> is_fun (fld v ''toJSON''))"

text \<open>\<open>None\<close> for \<open>undefined\<close> and for a throw: both end the sealing of the message.\<close>

definition snapshotSealedResult :: "jsv \<Rightarrow> jsv option" where
  "snapshotSealedResult v =
     (let candidate = fld v ''value'' in
      if \<not> isRecord v \<or> \<not> hasOnlyKeys v [''ok'', ''value''] \<or> fld v ''ok'' \<noteq> JBool True
         \<or> \<not> isRecord candidate \<or> \<not> hasOnlyKeys candidate sealedValueKeys
         \<or> fld candidate ''type'' \<noteq> JStr ''sealed-secret''
         \<or> \<not> isSafeText (fld candidate ''algorithm'') 256 True
         \<or> \<not> isSafeText (fld candidate ''keyId'') 512 True
         \<or> (fld candidate ''expiresAt'' \<noteq> JUndef \<and> \<not> isValidDate (fld candidate ''expiresAt''))
         \<or> \<not> is_fun (fld candidate ''revealCiphertextForPersistence'')
         \<or> \<not> is_fun (fld candidate ''toJSON'') then None
      else case call_thunk (fld candidate ''revealCiphertextForPersistence'') of
        Some (JStr ciphertext) \<Rightarrow>
          if ciphertext = '''' \<or> 5000000 < length ciphertext then None
          else Some (obj ([(''type'', JStr ''sealed-secret''), (''algorithm'', fld candidate ''algorithm''),
                 (''keyId'', fld candidate ''keyId''), (''redacted'', redacted_text)]
               @ given ''expiresAt'' (fld candidate ''expiresAt'')
               @ [(''revealCiphertextForPersistence'', JFun (Some (JStr ciphertext))), (''toJSON'', JFun (Some redacted_text))]))
      | _ \<Rightarrow> None)"

fun sealDeliveryData ::
  "'w effectsEnv \<Rightarrow> jsv \<Rightarrow> jsv \<Rightarrow> (string \<times> jsv) list \<Rightarrow> ('w, (string \<times> jsv) list option) effecting" where
  "sealDeliveryData e purpose expiresAt [] = ret (Some [])"
| "sealDeliveryData e purpose expiresAt ((key, v) # kvs) =
     (if sealable v then
        bindM (request e SealSecret [obj [(''value'', v), (''purpose'', purpose), (''expiresAt'', expiresAt)]]) (\<lambda>sealed.
          case sealed of
            Throw \<Rightarrow> ret None
          | Ret result \<Rightarrow>
              (case snapshotSealedResult result of
                 None \<Rightarrow> ret None
               | Some snapshot \<Rightarrow>
                   bindM (sealDeliveryData e purpose expiresAt kvs)
                     (\<lambda>rest. ret (map_option (\<lambda>es. (key, snapshot) # es) rest))))
      else bindM (sealDeliveryData e purpose expiresAt kvs)
             (\<lambda>rest. ret (map_option (\<lambda>es. (key, v) # es) rest)))"

text \<open>\<open>toPersistableDeliveryMessage\<close> is the copy, whose \<open>undefined\<close> is the failure \<open>raw-secret\<close>.\<close>

definition sealDeliveryMessage ::
  "'w effectsEnv \<Rightarrow> jsv \<Rightarrow> jsv \<Rightarrow> jsv \<Rightarrow> jsv \<Rightarrow> ('w, jsv option) effecting" where
  "sealDeliveryMessage e message tenantId messageId expiresAt =
     (if \<not> isOutboxDeliveryMessage message
         \<or> (fld message ''data'' \<noteq> JUndef \<and> \<not> isDataWith isRawDeliverySecret (fld message ''data'')) then ret None
      else bindM (if fld message ''data'' = JUndef then ret (Some JUndef)
             else bindM (sealDeliveryData e (JStr (outboxSecretPurpose (template tenantId) (template messageId))) expiresAt
                          (obj_entries (fld message ''data'')))
                    (\<lambda>entries. ret (map_option obj entries)))
        (\<lambda>data. ret (case data of
             None \<Rightarrow> None
           | Some d \<Rightarrow> snapshotPersistableDeliveryMessage (spread message [(''data'', d)]))))"

end
