(* ===== verification/EffectsOutbox.thy ===== *)
theory EffectsOutbox
  imports EffectsDelivery
begin

text \<open>
  \<open>packages/effects-outbox\<close>: the dispatcher that stores effects as messages of the outbox
  (\<open>dispatcher/create-outbox-effects-dispatcher.ts\<close>), its calls of the store
  (\<open>outbox/operations.ts\<close>) and the check of what the store acknowledges
  (\<open>outbox/acknowledgements.ts\<close>). The digest that compares secrets (\<open>sha256\<close>) is a parameter.
\<close>

record 'w outboxEffects =
  env :: "'w effectsEnv"
  maxAttemptsOption :: jsv
  digest :: "string \<Rightarrow> string"

text \<open>
  \<open>createOutboxEffectsDispatcher\<close>: the number of attempts it goes on with; \<open>None\<close> is the thrown
  \<open>TypeError\<close>.
\<close>

definition outboxEffectsSettings :: "jsv \<Rightarrow> jsv option" where
  "outboxEffectsSettings options =
     (let store = fld options ''store''; sealer = fld options ''sealer'';
          attempts = coalesce (fld options ''maxAttempts'') (JNum 10) in
      if \<not> truthy options \<or> \<not> truthy store \<or> \<not> hasFunction store ''enqueueBatch''
         \<or> \<not> truthy sealer \<or> \<not> hasFunction sealer ''seal'' \<or> \<not> hasFunction sealer ''unseal''
         \<or> \<not> hasFunction options ''idGenerator''
         \<or> (fld options ''now'' \<noteq> JUndef \<and> \<not> hasFunction options ''now'')
         \<or> \<not> is_safe_integer attempts \<or> num_val attempts \<le> 0 \<or> 1000000 < num_val attempts then None
      else Some attempts)"

text \<open>The dispatcher with the collaborators of the options; the option \<open>now\<close> decides about the clock.\<close>

definition outboxEffectsFrom ::
  "jsv \<Rightarrow> (effectsPort \<Rightarrow> jsv list \<Rightarrow> 'w \<Rightarrow> jsv outcome \<times> 'w) \<Rightarrow> ('w \<Rightarrow> int \<times> 'w) \<Rightarrow> (string \<Rightarrow> string)
     \<Rightarrow> 'w outboxEffects option" where
  "outboxEffectsFrom options collaborators clock sha256 =
     map_option (\<lambda>attempts. \<lparr>env = \<lparr>reply = collaborators, machineClock = clock, providesNow = hasFunction options ''now''\<rparr>,
         maxAttemptsOption = attempts, digest = sha256\<rparr>) (outboxEffectsSettings options)"

section \<open>Answers of the store\<close>

definition storeUnavailable :: jsv where
  "storeUnavailable = obj [(''type'', JStr ''component.failure''), (''component'', JStr ''store''),
     (''reason'', JStr ''STORE_UNAVAILABLE'')]"

definition snapshotStoreFailure :: "jsv \<Rightarrow> jsv option" where
  "snapshotStoreFailure v =
     (if \<not> isRecord v \<or> \<not> hasOnlyKeys v [''component'', ''details'', ''reason'', ''type'']
         \<or> fld v ''type'' \<noteq> JStr ''component.failure'' \<or> fld v ''component'' \<noteq> JStr ''store''
         \<or> \<not> isSafeText (fld v ''reason'') 512 True then None
      else let failure = [(''type'', fld v ''type''), (''component'', fld v ''component''), (''reason'', fld v ''reason'')] in
        if fld v ''details'' = JUndef then Some (obj failure)
        else case structuredClone (fld v ''details'') of
          None \<Rightarrow> None
        | Some details \<Rightarrow>
            if workerJsonObject details then Some (obj (failure @ [(''details'', clonePublicData details)])) else None)"

definition acknowledgedKeys :: "string list" where
  "acknowledgedKeys = [''attempts'', ''availableAt'', ''context'', ''createdAt'', ''dispatchPolicy'', ''expiresAt'',
     ''idempotencyKey'', ''lastFailureReason'', ''maxAttempts'', ''message'', ''messageId'', ''secretPurpose'',
     ''status'', ''tenantId'', ''type'', ''updatedAt'']"

definition outboxStatuses :: "jsv list" where
  "outboxStatuses = [JStr ''pending'', JStr ''claimed'', JStr ''dispatched'', JStr ''failed'', JStr ''dead'']"

definition isConsistentStatusAttempt :: "jsv \<Rightarrow> jsv \<Rightarrow> jsv \<Rightarrow> bool" where
  "isConsistentStatusAttempt status attempts most =
     (if status = JStr ''pending'' then num_val attempts = 0
      else if status = JStr ''failed'' then 0 < num_val attempts \<and> num_val attempts < num_val most
      else status = JStr ''claimed'' \<or> status = JStr ''dispatched'' \<or> status = JStr ''dead'')"

definition acknowledgedAs :: "jsv \<Rightarrow> jsv \<Rightarrow> bool" where
  "acknowledgedAs v expected =
     (isRecord v \<and> hasOnlyKeys v acknowledgedKeys
      \<and> fld v ''tenantId'' = fld expected ''tenantId''
      \<and> fld v ''idempotencyKey'' = fld expected ''idempotencyKey''
      \<and> (fld v ''idempotencyKey'' = JUndef \<longrightarrow> fld v ''messageId'' = fld expected ''messageId'')
      \<and> isSafeText (fld v ''messageId'') 512 True
      \<and> fld v ''secretPurpose'' = JStr (outboxSecretPurpose (template (fld expected ''tenantId'')) (template (fld v ''messageId'')))
      \<and> fld v ''type'' = JStr ''delivery''
      \<and> (fld v ''dispatchPolicy'' = JStr ''required'' \<or> fld v ''dispatchPolicy'' = JStr ''best-effort'')
      \<and> fld v ''status'' \<in> set outboxStatuses
      \<and> isNonNegativeInteger (fld v ''attempts'')
      \<and> isPositiveInteger (fld v ''maxAttempts'')
      \<and> num_val (fld v ''attempts'') \<le> num_val (fld v ''maxAttempts'')
      \<and> isConsistentStatusAttempt (fld v ''status'') (fld v ''attempts'') (fld v ''maxAttempts'')
      \<and> (fld v ''lastFailureReason'' = JUndef \<or> isSafeText (fld v ''lastFailureReason'') 512 True)
      \<and> (fld v ''expiresAt'' = JUndef \<or> isValidDate (fld v ''expiresAt''))
      \<and> isValidDate (fld v ''availableAt'') \<and> isValidDate (fld v ''createdAt'') \<and> isValidDate (fld v ''updatedAt''))"

definition snapshotAcknowledgedMessage :: "jsv \<Rightarrow> jsv \<Rightarrow> jsv option" where
  "snapshotAcknowledgedMessage v expected =
     (if \<not> acknowledgedAs v expected then None
      else case (normalizeDispatchContext (fld v ''context''), snapshotPersistableDeliveryMessage (fld v ''message'')) of
        (Some context, Some message) \<Rightarrow>
          if fld context ''tenantId'' \<noteq> fld v ''tenantId'' then None
          else Some (obj ([(''tenantId'', fld v ''tenantId''), (''messageId'', fld v ''messageId''), (''context'', context),
              (''secretPurpose'', fld v ''secretPurpose''), (''type'', JStr ''delivery''), (''message'', message),
              (''dispatchPolicy'', fld v ''dispatchPolicy''), (''status'', fld v ''status''),
              (''attempts'', fld v ''attempts''), (''maxAttempts'', fld v ''maxAttempts'')]
            @ given ''lastFailureReason'' (fld v ''lastFailureReason'')
            @ given ''idempotencyKey'' (fld v ''idempotencyKey'') @ given ''expiresAt'' (fld v ''expiresAt'')
            @ [(''availableAt'', fld v ''availableAt''), (''createdAt'', fld v ''createdAt''), (''updatedAt'', fld v ''updatedAt'')]))
      | _ \<Rightarrow> None)"

text \<open>
  The copies of all messages, when each has one. \<open>map\<close> and \<open>every\<close> pass over a hole of the array,
  which then reads as \<open>undefined\<close> when the messages are verified.
\<close>

fun snapshotAcknowledged :: "jsv list \<Rightarrow> jsv list \<Rightarrow> jsv list option" where
  "snapshotAcknowledged (v # vs) (expected # es) =
     (if v = JHole then map_option (\<lambda>rest. JUndef # rest) (snapshotAcknowledged vs es)
      else case snapshotAcknowledgedMessage v expected of
        None \<Rightarrow> None
      | Some message \<Rightarrow> map_option (\<lambda>rest. message # rest) (snapshotAcknowledged vs es))"
| "snapshotAcknowledged _ _ = Some []"

text \<open>\<open>safeEnqueueBatch\<close>: the failure or the copied messages of an answer.\<close>

definition enqueueAnswer :: "jsv list \<Rightarrow> jsv outcome \<Rightarrow> jsv + jsv list" where
  "enqueueAnswer sent answer =
     (case answer of
        Throw \<Rightarrow> Inl storeUnavailable
      | Ret result \<Rightarrow>
          let value = fld result ''value'' in
          if \<not> isRecord result then Inl storeUnavailable
          else if fld result ''ok'' = JBool True \<and> hasOnlyKeys result [''ok'', ''value'']
            \<and> is_arr value \<and> length (arr_elems value) = length sent
            \<and> snapshotAcknowledged (arr_elems value) sent \<noteq> None
          then Inr (the (snapshotAcknowledged (arr_elems value) sent))
          else if fld result ''ok'' = JBool False \<and> hasOnlyKeys result [''error'', ''ok'']
          then (case snapshotStoreFailure (fld result ''error'') of
                  Some failure \<Rightarrow> Inl failure | None \<Rightarrow> Inl storeUnavailable)
          else Inl storeUnavailable)"

definition safeEnqueueBatch :: "'w outboxEffects \<Rightarrow> jsv list \<Rightarrow> jsv \<Rightarrow> ('w, jsv + jsv list) effecting" where
  "safeEnqueueBatch c sent tx =
     bindM (request (env c) EnqueueBatch [obj [(''messages'', JArr sent)], tx]) (\<lambda>r. ret (enqueueAnswer sent r))"

section \<open>What the store acknowledged\<close>

definition sameKeys :: "string list \<Rightarrow> string list \<Rightarrow> bool" where
  "sameKeys actual expected = (length actual = length expected \<and> list_all (\<lambda>k. k \<in> set expected) actual)"

text \<open>\<open>sameJsonValue\<close>, on the JSON data it is applied to.\<close>

fun sameJsonValue :: "jsv \<Rightarrow> jsv \<Rightarrow> bool"
  and sameJsonItems :: "jsv list \<Rightarrow> jsv list \<Rightarrow> bool"
  and sameJsonFields :: "(string \<times> jsv) list \<Rightarrow> jsv \<Rightarrow> bool" where
  "sameJsonValue (JArr xs) b = (is_arr b \<and> length xs = length (arr_elems b) \<and> sameJsonItems xs (arr_elems b))"
| "sameJsonValue (JObj p kvs) b =
     (isRecord b \<and> sameKeys (map fst kvs) (obj_keys b) \<and> sameJsonFields kvs b)"
| "sameJsonValue a b = (a = b)"
| "sameJsonItems [] ys = True"
| "sameJsonItems (x # xs) [] = True"
| "sameJsonItems (x # xs) (y # ys) = (sameJsonValue x y \<and> sameJsonItems xs ys)"
| "sameJsonFields [] b = True"
| "sameJsonFields ((k, x) # kvs) b = (sameJsonValue x (fld b k) \<and> sameJsonFields kvs b)"

definition sameOptionalDate :: "jsv \<Rightarrow> jsv \<Rightarrow> bool" where
  "sameOptionalDate actual expected =
     (if actual = JUndef \<or> expected = JUndef then actual = expected else date_ms actual = date_ms expected)"

text \<open>\<open>sameSecretText\<close>: equal digests.\<close>

definition sameSecretText :: "(string \<Rightarrow> string) \<Rightarrow> string \<Rightarrow> string \<Rightarrow> bool" where
  "sameSecretText sha256 actual expected = (sha256 actual = sha256 expected)"

definition rawAcknowledged :: "jsv \<Rightarrow> bool" where
  "rawAcknowledged v = (isRecord v \<and> fld v ''type'' = JStr ''raw-secret'' \<and> is_fun (fld v ''reveal'') \<and> is_fun (fld v ''toJSON''))"

definition sealedAcknowledged :: "jsv \<Rightarrow> bool" where
  "sealedAcknowledged v = (isRecord v \<and> fld v ''type'' = JStr ''sealed-secret''
     \<and> is_fun (fld v ''revealCiphertextForPersistence'') \<and> is_fun (fld v ''toJSON''))"

text \<open>Both secrets are copies, whose functions return the text they were copied with.\<close>

definition samePersistedSecret :: "(string \<Rightarrow> string) \<Rightarrow> jsv \<Rightarrow> jsv \<Rightarrow> bool" where
  "samePersistedSecret sha256 actual expected =
     (case (call_thunk (fld actual ''revealCiphertextForPersistence''), call_thunk (fld expected ''revealCiphertextForPersistence'')) of
        (Some (JStr a), Some (JStr b)) \<Rightarrow>
          fld actual ''algorithm'' = fld expected ''algorithm'' \<and> fld actual ''keyId'' = fld expected ''keyId''
          \<and> sameOptionalDate (fld actual ''expiresAt'') (fld expected ''expiresAt'')
          \<and> a \<noteq> '''' \<and> length a \<le> 5000000 \<and> b \<noteq> '''' \<and> length b \<le> 5000000
          \<and> sameSecretText sha256 a b
      | _ \<Rightarrow> False)"

definition sameDeliveryEnvelope :: "jsv \<Rightarrow> jsv \<Rightarrow> bool" where
  "sameDeliveryEnvelope actual expected =
     (fld (fld actual ''to'') ''channel'' = fld (fld expected ''to'') ''channel''
      \<and> fld (fld actual ''to'') ''target'' = fld (fld expected ''to'') ''target''
      \<and> fld (fld actual ''to'') ''display'' = fld (fld expected ''to'') ''display''
      \<and> fld actual ''templateId'' = fld expected ''templateId''
      \<and> fld actual ''locale'' = fld expected ''locale''
      \<and> sameJsonValue (fld actual ''metadata'') (fld expected ''metadata''))"

definition samePersistableDeliveryMessage :: "(string \<Rightarrow> string) \<Rightarrow> jsv \<Rightarrow> jsv \<Rightarrow> bool" where
  "samePersistableDeliveryMessage sha256 actual expected =
     (let data = fld actual ''data''; wanted = fld expected ''data'' in
      sameDeliveryEnvelope actual expected
      \<and> (if data = JUndef \<or> wanted = JUndef then data = wanted
         else sameKeys (obj_keys data) (obj_keys wanted)
           \<and> list_all (\<lambda>(key, v). if sealedAcknowledged v \<or> sealedAcknowledged (fld wanted key)
                then sealedAcknowledged v \<and> sealedAcknowledged (fld wanted key) \<and> samePersistedSecret sha256 v (fld wanted key)
                else sameJsonValue v (fld wanted key)) (obj_entries data)))"

text \<open>The revealed text of a raw secret and the characters used so far; \<open>None\<close> for \<open>undefined\<close> and a throw.\<close>

definition revealedSecret :: "jsv \<Rightarrow> nat \<Rightarrow> (string \<times> nat) option" where
  "revealedSecret v budget =
     (if \<not> isRecord v \<or> \<not> hasOnlyKeys v rawSecretKeys \<or> fld v ''type'' \<noteq> JStr ''raw-secret''
         \<or> \<not> is_fun (fld v ''reveal'') \<or> \<not> is_fun (fld v ''toJSON'') then None
      else case call_thunk (fld v ''reveal'') of
        Some (JStr revealed) \<Rightarrow>
          if revealed = '''' \<or> 1000000 < budget + length revealed then None
          else Some (revealed, budget + length revealed)
      | _ \<Rightarrow> None)"

definition unsealedSecret :: "jsv \<Rightarrow> nat \<Rightarrow> (string \<times> nat) option" where
  "unsealedSecret v budget =
     (if \<not> isRecord v \<or> \<not> hasOnlyKeys v [''ok'', ''value''] \<or> fld v ''ok'' \<noteq> JBool True then None
      else revealedSecret (fld v ''value'') budget)"

text \<open>The loop over the persisted data; both budgets grow with what was revealed.\<close>

fun sameDeliveryData ::
  "'w outboxEffects \<Rightarrow> jsv \<Rightarrow> jsv \<Rightarrow> jsv \<Rightarrow> (string \<times> jsv) list \<Rightarrow> nat \<Rightarrow> nat \<Rightarrow> ('w, bool) effecting" where
  "sameDeliveryData c expectedData purpose now [] used used' = ret True"
| "sameDeliveryData c expectedData purpose now ((key, persisted) # kvs) used used' =
     (let expected = fld expectedData key in
      if sealedAcknowledged persisted then
        if \<not> rawAcknowledged expected then ret False
        else bindM (request (env c) UnsealSecret [obj [(''value'', persisted), (''purpose'', purpose), (''now'', now)]]) (\<lambda>unsealed.
          case unsealed of
            Throw \<Rightarrow> ret False
          | Ret result \<Rightarrow>
              (case (unsealedSecret result used, revealedSecret expected used') of
                 (Some (actualSecret, used1), Some (expectedSecret, used1')) \<Rightarrow>
                   if sameSecretText (digest c) actualSecret expectedSecret
                   then sameDeliveryData c expectedData purpose now kvs used1 used1' else ret False
               | _ \<Rightarrow> ret False))
      else if rawAcknowledged expected \<or> \<not> sameJsonValue persisted expected then ret False
      else sameDeliveryData c expectedData purpose now kvs used used')"

definition sameLogicalDeliveryMessage ::
  "'w outboxEffects \<Rightarrow> jsv \<Rightarrow> jsv \<Rightarrow> jsv \<Rightarrow> jsv \<Rightarrow> ('w, bool) effecting" where
  "sameLogicalDeliveryMessage c persisted expected purpose now =
     (let data = fld persisted ''data''; wanted = fld expected ''data'' in
      if \<not> sameDeliveryEnvelope persisted expected then ret False
      else if data = JUndef \<or> wanted = JUndef then ret (data = wanted)
      else if \<not> sameKeys (obj_keys data) (obj_keys wanted) then ret False
      else sameDeliveryData c wanted purpose now (obj_entries data) 0 0)"

text \<open>An effect that is ready to be stored: its position, its copy and the message made of it.\<close>

record preparedEffect =
  itemIndex :: nat
  preparedFrom :: jsv
  outboxMessage :: jsv

definition acknowledgesTerms :: "jsv \<Rightarrow> jsv \<Rightarrow> jsv \<Rightarrow> bool" where
  "acknowledgesTerms acknowledged expected now =
     (\<not> (fld acknowledged ''status'' = JStr ''dead''
         \<or> fld acknowledged ''dispatchPolicy'' \<noteq> fld expected ''dispatchPolicy''
         \<or> fld acknowledged ''maxAttempts'' \<noteq> fld expected ''maxAttempts''
         \<or> \<not> sameOptionalDate (fld acknowledged ''expiresAt'') (fld expected ''expiresAt'')
         \<or> (fld acknowledged ''expiresAt'' \<noteq> JUndef \<and> date_le (fld acknowledged ''expiresAt'') now)
         \<or> \<not> sameJsonValue (fld acknowledged ''context'') (fld expected ''context'')))"

definition isMatchingAcknowledgement ::
  "'w outboxEffects \<Rightarrow> preparedEffect \<Rightarrow> jsv \<Rightarrow> jsv \<Rightarrow> ('w, bool) effecting" where
  "isMatchingAcknowledgement c prepared acknowledged now =
     (let expected = outboxMessage prepared in
      if \<not> acknowledgesTerms acknowledged expected now then ret False
      else if fld acknowledged ''messageId'' = fld expected ''messageId''
        \<and> samePersistableDeliveryMessage (digest c) (fld acknowledged ''message'') (fld expected ''message'') then ret True
      else if fld expected ''idempotencyKey'' = JUndef then ret False
      else sameLogicalDeliveryMessage c (fld acknowledged ''message'') (fld (preparedFrom prepared) ''message'')
             (fld acknowledged ''secretPurpose'') now)"

fun matchAll :: "'w outboxEffects \<Rightarrow> preparedEffect list \<Rightarrow> jsv list \<Rightarrow> jsv \<Rightarrow> ('w, bool) effecting" where
  "matchAll c [] acknowledged now = ret True"
| "matchAll c (prepared # ps) [] now = ret False"
| "matchAll c (prepared # ps) (acknowledged # as) now =
     (if \<not> truthy acknowledged then ret False
      else bindM (isMatchingAcknowledgement c prepared acknowledged now)
             (\<lambda>same. if same then matchAll c ps as now else ret False))"

definition verifyEnqueueAcknowledgements ::
  "'w outboxEffects \<Rightarrow> preparedEffect list \<Rightarrow> jsv list \<Rightarrow> jsv \<Rightarrow> ('w, bool) effecting" where
  "verifyEnqueueAcknowledgements c prepared acknowledged now =
     (if length prepared \<noteq> length acknowledged then ret False else matchAll c prepared acknowledged now)"

end
