(* ===== verification/OutboxDispatcher.thy ===== *)
theory OutboxDispatcher
  imports EffectsOutbox
begin

text \<open>
  The operation \<open>dispatch\<close> of \<open>packages/effects-outbox\<close>
  (\<open>dispatcher/create-outbox-effects-dispatcher.ts\<close>): every effect is copied, named, sealed and
  made into a message; the required messages are stored first, the best-effort ones after them.
  Early returns are \<open>Inl\<close> of the answer.
\<close>

section \<open>One effect\<close>

datatype preparation = Refused | Postponed nat | Ready preparedEffect

text \<open>What becomes of an effect that cannot be stored: the dispatch fails, unless it is best effort.\<close>

definition giveUp :: "bool \<Rightarrow> nat \<Rightarrow> preparation" where
  "giveUp bestEffort index = (if bestEffort then Postponed index else Refused)"

definition isBestEffort :: "jsv \<Rightarrow> bool" where
  "isBestEffort v = (fld v ''dispatchPolicy'' = JStr ''best-effort'')"

definition idInput :: "jsv \<Rightarrow> jsv \<Rightarrow> jsv \<Rightarrow> nat \<Rightarrow> jsv" where
  "idInput context now effect index =
     obj [(''tenantId'', fld context ''tenantId''), (''now'', now),
       (''effect'', obj ([(''type'', fld effect ''type''), (''dispatchPolicy'', fld effect ''dispatchPolicy'')]
          @ given ''idempotencyKey'' (fld effect ''idempotencyKey''))),
       (''index'', JNum (int index))]"

text \<open>\<open>safeGenerateId\<close>\<close>

definition safeGenerateId :: "'w outboxEffects \<Rightarrow> jsv \<Rightarrow> ('w, jsv) effecting" where
  "safeGenerateId c input =
     bindM (request (env c) GenerateId [input]) (\<lambda>r. ret (case r of Throw \<Rightarrow> JUndef | Ret messageId \<Rightarrow> messageId))"

definition newOutboxMessage :: "'w outboxEffects \<Rightarrow> jsv \<Rightarrow> jsv \<Rightarrow> jsv \<Rightarrow> jsv \<Rightarrow> jsv \<Rightarrow> jsv" where
  "newOutboxMessage c context messageId effect persistable preparedAt =
     obj [(''tenantId'', fld context ''tenantId''), (''messageId'', messageId), (''context'', context),
       (''secretPurpose'', JStr (outboxSecretPurpose (template (fld context ''tenantId'')) (template messageId))),
       (''type'', JStr ''delivery''), (''message'', persistable), (''dispatchPolicy'', fld effect ''dispatchPolicy''),
       (''status'', JStr ''pending''), (''attempts'', JNum 0), (''maxAttempts'', maxAttemptsOption c),
       (''idempotencyKey'', fld effect ''idempotencyKey''), (''expiresAt'', fld effect ''expiresAt''),
       (''availableAt'', preparedAt), (''createdAt'', preparedAt), (''updatedAt'', preparedAt)]"

text \<open>The clock of the dispatch answers \<open>None\<close> when the provider's time cannot be used.\<close>

definition sealEffect ::
  "'w outboxEffects \<Rightarrow> (('w, jsv option) effecting) \<Rightarrow> jsv \<Rightarrow> jsv \<Rightarrow> jsv \<Rightarrow> nat \<Rightarrow> ('w, preparation) effecting" where
  "sealEffect c clock context effect messageId index =
     bindM (sealDeliveryMessage (env c) (fld effect ''message'') (fld context ''tenantId'') messageId (fld effect ''expiresAt''))
       (\<lambda>persistable. case persistable of
          None \<Rightarrow> ret (giveUp (\<not> isRequired effect) index)
        | Some message \<Rightarrow>
            bindM clock (\<lambda>preparedAt. case preparedAt of
              None \<Rightarrow> ret Refused
            | Some at \<Rightarrow>
                if overAt effect at then ret (giveUp (\<not> isRequired effect) index)
                else ret (Ready \<lparr>itemIndex = index, preparedFrom = effect,
                       outboxMessage = newOutboxMessage c context messageId effect message at\<rparr>)))"

definition prepareEffect ::
  "'w outboxEffects \<Rightarrow> (('w, jsv option) effecting) \<Rightarrow> jsv \<Rightarrow> jsv \<Rightarrow> nat \<Rightarrow> jsv \<Rightarrow> ('w, preparation) effecting" where
  "prepareEffect c clock context now index candidate =
     (case snapshotDeliveryEffect candidate of
        None \<Rightarrow> ret (giveUp (isBestEffort candidate) index)
      | Some effect \<Rightarrow>
          bindM (safeGenerateId c (idInput context now effect index)) (\<lambda>messageId.
            if \<not> isSafeText messageId 512 True
               \<or> (fld effect ''expiresAt'' \<noteq> JUndef
                  \<and> (\<not> isValidDate (fld effect ''expiresAt'') \<or> date_le (fld effect ''expiresAt'') now))
            then ret (giveUp (\<not> isRequired effect) index)
            else sealEffect c clock context effect messageId index))"

text \<open>The loop: \<open>None\<close> is the early return, else the prepared effects and the failed items.\<close>

fun prepareEffects ::
  "'w outboxEffects \<Rightarrow> (('w, jsv option) effecting) \<Rightarrow> jsv \<Rightarrow> jsv \<Rightarrow> nat \<Rightarrow> jsv list
     \<Rightarrow> ('w, (preparedEffect list \<times> jsv list) option) effecting" where
  "prepareEffects c clock context now index [] = ret (Some ([], []))"
| "prepareEffects c clock context now index (candidate # rest) =
     bindM (prepareEffect c clock context now index candidate) (\<lambda>prepared. case prepared of
       Refused \<Rightarrow> ret None
     | Postponed i \<Rightarrow> bindM (prepareEffects c clock context now (Suc index) rest)
         (\<lambda>r. ret (map_option (\<lambda>(ps, fs). (ps, notDispatched i # fs)) r))
     | Ready p \<Rightarrow> bindM (prepareEffects c clock context now (Suc index) rest)
         (\<lambda>r. ret (map_option (\<lambda>(ps, fs). (p # ps, fs)) r)))"

section \<open>Storing\<close>

definition storeFailed :: "jsv \<Rightarrow> jsv" where
  "storeFailed failure = obj [(''ok'', JBool False), (''error'', obj [(''type'', JStr ''component.failure''),
     (''component'', JStr ''effects''), (''reason'', fld failure ''reason'')])]"

text \<open>The items of the required effects.\<close>

definition enqueueRequired ::
  "'w outboxEffects \<Rightarrow> (('w, jsv option) effecting) \<Rightarrow> jsv \<Rightarrow> preparedEffect list \<Rightarrow> ('w, jsv + jsv list) effecting" where
  "enqueueRequired c clock tx required =
     (if required = [] then ret (Inr [])
      else bindM clock (\<lambda>enqueueNow. case enqueueNow of
        None \<Rightarrow> ret (Inl sideEffectFailed)
      | Some at \<Rightarrow>
          if list_ex (\<lambda>p. overAt (preparedFrom p) at) required then ret (Inl sideEffectFailed)
          else bindM (safeEnqueueBatch c (map outboxMessage required) tx) (\<lambda>enqueued. case enqueued of
            Inl failure \<Rightarrow> ret (Inl (storeFailed failure))
          | Inr acknowledged \<Rightarrow>
              bindM clock (\<lambda>acknowledgedAt. case acknowledgedAt of
                None \<Rightarrow> ret (Inl sideEffectFailed)
              | Some now \<Rightarrow>
                  bindM (verifyEnqueueAcknowledgements c required acknowledged now) (\<lambda>same.
                    if \<not> same then ret (Inl (effectsErr ''STORE_UNAVAILABLE''))
                    else ret (Inr (map (\<lambda>p. dispatchItem (itemIndex p)) required)))))))"

definition storeFailedItem :: "jsv \<Rightarrow> preparedEffect \<Rightarrow> jsv" where
  "storeFailedItem failure p = failedItem (itemIndex p) (fld failure ''reason'') (given ''details'' (fld failure ''details''))"

text \<open>The stored best-effort effects, and those the store refused; under a transaction a refusal is a failure.\<close>

definition storeBestEffort ::
  "'w outboxEffects \<Rightarrow> (('w, jsv option) effecting) \<Rightarrow> jsv \<Rightarrow> preparedEffect list
     \<Rightarrow> ('w, jsv + (jsv list \<times> jsv list)) effecting" where
  "storeBestEffort c clock tx bestEffort =
     bindM (safeEnqueueBatch c (map outboxMessage bestEffort) tx) (\<lambda>enqueued. case enqueued of
       Inl failure \<Rightarrow>
         if truthy tx then ret (Inl (storeFailed failure))
         else ret (Inr ([], map (storeFailedItem failure) bestEffort))
     | Inr acknowledged \<Rightarrow>
         bindM clock (\<lambda>acknowledgedAt. case acknowledgedAt of
           None \<Rightarrow> ret (Inl sideEffectFailed)
         | Some now \<Rightarrow>
             bindM (verifyEnqueueAcknowledgements c bestEffort acknowledged now) (\<lambda>same.
               if same then ret (Inr (map (\<lambda>p. dispatchItem (itemIndex p)) bestEffort, []))
               else if truthy tx then ret (Inl (effectsErr ''STORE_UNAVAILABLE''))
               else ret (Inr ([], map (\<lambda>p. failedItem (itemIndex p) (JStr ''STORE_UNAVAILABLE'') []) bestEffort)))))"

definition enqueueBestEffort ::
  "'w outboxEffects \<Rightarrow> (('w, jsv option) effecting) \<Rightarrow> jsv \<Rightarrow> preparedEffect list
     \<Rightarrow> ('w, jsv + (jsv list \<times> jsv list)) effecting" where
  "enqueueBestEffort c clock tx bestEffort =
     (if bestEffort = [] then ret (Inr ([], []))
      else bindM clock (\<lambda>enqueueNow. case enqueueNow of
        None \<Rightarrow> ret (Inl sideEffectFailed)
      | Some at \<Rightarrow>
          let expired = filter (\<lambda>p. overAt (preparedFrom p) at) bestEffort;
              live = filter (\<lambda>p. itemIndex p \<notin> set (map itemIndex expired)) bestEffort;
              failed = map (\<lambda>p. notDispatched (itemIndex p)) expired in
          if live = [] then ret (Inr ([], failed))
          else bindM (storeBestEffort c clock tx live) (\<lambda>stored. ret (case stored of
            Inl answer \<Rightarrow> Inl answer
          | Inr (items, refused) \<Rightarrow> Inr (items, failed @ refused)))))"

section \<open>The operation\<close>

definition deferredAnswer :: "jsv list \<Rightarrow> jsv list \<Rightarrow> jsv" where
  "deferredAnswer deferred failed = obj [(''ok'', JBool True),
     (''value'', obj [(''dispatched'', JArr []), (''deferred'', JArr deferred), (''failed'', failedList failed)])]"

definition storeEffects ::
  "'w outboxEffects \<Rightarrow> (('w, jsv option) effecting) \<Rightarrow> jsv \<Rightarrow> preparedEffect list \<Rightarrow> jsv list \<Rightarrow> ('w, jsv) effecting" where
  "storeEffects c clock tx prepared failed =
     bindM (enqueueRequired c clock tx (filter (\<lambda>p. isRequired (preparedFrom p)) prepared)) (\<lambda>stored. case stored of
       Inl answer \<Rightarrow> ret answer
     | Inr items \<Rightarrow>
         bindM (enqueueBestEffort c clock tx (filter (\<lambda>p. isBestEffort (preparedFrom p)) prepared)) (\<lambda>rest. case rest of
           Inl answer \<Rightarrow> ret answer
         | Inr (items', failed') \<Rightarrow> ret (deferredAnswer (items @ items') (failed @ failed'))))"

definition dispatchToOutbox :: "'w outboxEffects \<Rightarrow> jsv \<Rightarrow> ('w, jsv) effecting" where
  "dispatchToOutbox c input =
     (case snapshotOutboxDispatch input of
        None \<Rightarrow> ret sideEffectFailed
      | Some d \<Rightarrow>
          case normalizeDispatchContext (dispatchContext d) of
            None \<Rightarrow> ret sideEffectFailed
          | Some context \<Rightarrow>
              if (case dispatchTx d of None \<Rightarrow> False | Some (tx, covers) \<Rightarrow> JStr ''outbox'' \<notin> set covers)
              then ret sideEffectFailed
              else let now = dispatchNow d; tx = (case dispatchTx d of None \<Rightarrow> JUndef | Some (tx, covers) \<Rightarrow> tx) in
                bindM (startClock (env c) (date_ms now)) (\<lambda>startedAt.
                let clock = dispatchClock (env c) (date_ms now) startedAt in
                bindM (prepareEffects c clock context now 0 (dispatchEffects d)) (\<lambda>prepared. case prepared of
                  None \<Rightarrow> ret sideEffectFailed
                | Some (ps, failed) \<Rightarrow> storeEffects c clock tx ps failed)))"

end
