(* ===== verification/DispatchAccounts.thy ===== *)
theory DispatchAccounts
  imports EffectsCalls Effects
begin

text \<open>
  What core expects of a dispatcher, as a contract: its answer accounts for every effect exactly
  once (\<open>isDispatchResult\<close>) or is a failure of the component \<open>effects\<close>. Core then goes on with the
  answer as it is. Computations that call no collaborator of a kind are the steps between the calls
  that matter.
\<close>

section \<open>Items\<close>

lemma dispatchItem_index [simp]: "fld (dispatchItem i) ''index'' = JNum (int i)"
  by (simp add: dispatchItem_def)

lemma failedItem_index [simp]: "fld (failedItem i r ds) ''index'' = JNum (int i)"
  by (simp add: failedItem_def)

lemma small_index: "i < n \<Longrightarrow> n \<le> 1000 \<Longrightarrow> is_safe_integer (JNum (int i))"
  by (simp add: max_safe_integer_def)

lemma dispatchItem_ok: "is_safe_integer (JNum (int i)) \<Longrightarrow> isDispatchItem (dispatchItem i)"
  by (simp add: isDispatchItem_def dispatchItem_def hasOnlyKeys_def)

definition safeDetails :: "(string \<times> jsv) list \<Rightarrow> bool" where
  "safeDetails ds \<longleftrightarrow> ds = [] \<or> (\<exists>d. ds = [(''details'', d)] \<and> (d = JUndef \<or> isPublicData d))"

lemma failedItem_ok:
  "is_safe_integer (JNum (int i)) \<Longrightarrow> isSafeReason r \<Longrightarrow> safeDetails ds \<Longrightarrow> isDispatchFailure (failedItem i r ds)"
  by (auto simp: isDispatchFailure_def failedItem_def hasOnlyKeys_def safeDetails_def)

text \<open>A failed item of a list of effects: of a best-effort effect, with a reason that core accepts.\<close>

definition failedOf :: "jsv list \<Rightarrow> jsv \<Rightarrow> bool" where
  "failedOf effects v \<longleftrightarrow> (\<exists>i r ds. v = failedItem i r ds \<and> i < length effects \<and> isSafeReason r \<and> safeDetails ds
     \<and> fld (effects ! i) ''dispatchPolicy'' = JStr ''best-effort'')"

definition itemOf :: "jsv list \<Rightarrow> jsv \<Rightarrow> bool" where
  "itemOf effects v \<longleftrightarrow> (\<exists>i. v = dispatchItem i \<and> i < length effects)"

definition indexOf :: "jsv \<Rightarrow> nat" where
  "indexOf v = nat (num_val (fld v ''index''))"

lemma indexOf_simps [simp]: "indexOf (dispatchItem i) = i" "indexOf (failedItem i r ds) = i"
  by (simp_all add: indexOf_def del: fld.simps fld_obj)

lemma collectIndexes_accepts:
  assumes "\<forall>v \<in> set items. itemOf effects v \<or> failedOf effects v" and "length effects \<le> 1000"
    and "distinct (map indexOf items)" and "set (map indexOf items) \<inter> nat ` set seen = {}" and "\<forall>j \<in> set seen. 0 \<le> j"
  shows "\<exists>indexes. collectIndexes (length effects) items seen = Some indexes \<and> length indexes = length items + length seen"
  using assms
proof (induction items arbitrary: seen)
  case (Cons v items)
  then obtain i where v: "fld v ''index'' = JNum (int i)" "indexOf v = i" "i < length effects"
    by (auto simp: itemOf_def failedOf_def simp del: fld.simps fld_obj)
  have new: "int i \<notin> set seen" using Cons.prems(4) v(2) by force
  have "\<exists>indexes. collectIndexes (length effects) items (int i # seen) = Some indexes
      \<and> length indexes = length items + length (int i # seen)"
    by (rule Cons.IH) (use Cons.prems v(2) in auto)
  with v new small_index [OF v(3) Cons.prems(2)] show ?case by (simp del: fld.simps fld_obj is_safe_integer.simps)
qed simp

definition accountOf :: "jsv list \<Rightarrow> jsv list \<Rightarrow> jsv list \<Rightarrow> bool" where
  "accountOf effects items failed \<longleftrightarrow> (\<forall>v \<in> set items. itemOf effects v) \<and> (\<forall>v \<in> set failed. failedOf effects v)
     \<and> distinct (map indexOf (items @ failed)) \<and> set (map indexOf (items @ failed)) = {..<length effects}"

lemma accountOf_length: "accountOf effects items failed \<Longrightarrow> length (items @ failed) = length effects"
  unfolding accountOf_def using distinct_card [of "map indexOf (items @ failed)"] by simp

lemma arr_elems_failedList [simp]: "arr_elems (failedList failed) = failed"
  by (simp add: failedList_def)

lemma accountOf_accepted:
  assumes "accountOf effects items failed" and "length effects \<le> 1000"
  shows "isDispatchResult (obj [(''dispatched'', JArr []), (''deferred'', JArr items), (''failed'', failedList failed)]) effects"
    and "isDispatchResult (obj [(''dispatched'', JArr items), (''failed'', failedList failed)]) effects"
proof -
  have every: "arr_every isDispatchItem items" "arr_every isDispatchFailure failed"
    using assms by (fastforce simp: arr_every_def list_all_iff accountOf_def itemOf_def failedOf_def
        intro: dispatchItem_ok failedItem_ok small_index simp del: is_safe_integer.simps)+
  have best: "list_all (\<lambda>item. fld (effects ! nat (num_val (fld item ''index''))) ''dispatchPolicy'' = JStr ''best-effort'') failed"
    using assms(1) by (auto simp: list_all_iff accountOf_def failedOf_def simp del: fld.simps fld_obj)
  have "\<exists>indexes. collectIndexes (length effects) (items @ failed) [] = Some indexes
      \<and> length indexes = length (items @ failed) + length ([] :: int list)"
    by (rule collectIndexes_accepts) (use assms in \<open>auto simp: accountOf_def\<close>)
  then obtain indexes where indexes: "collectIndexes (length effects) (items @ failed) [] = Some indexes"
    "length indexes = length effects"
    using accountOf_length [OF assms(1)] by auto
  have failed: "failedList failed = JUndef \<or> is_arr (failedList failed)"
    by (simp add: failedList_def)
  show "isDispatchResult (obj [(''dispatched'', JArr []), (''deferred'', JArr items), (''failed'', failedList failed)]) effects"
    and "isDispatchResult (obj [(''dispatched'', JArr items), (''failed'', failedList failed)]) effects"
    using every best indexes failed by (auto simp: isDispatchResult_def hasOnlyKeys_def arr_every_def)
qed

lemma accountOf_required:
  assumes "accountOf effects items failed" and "i < length effects" and "fld (effects ! i) ''dispatchPolicy'' = JStr ''required''"
  shows "dispatchItem i \<in> set items"
proof -
  from assms(1,2) obtain v where v: "v \<in> set (items @ failed)" "indexOf v = i"
    unfolding accountOf_def by (metis imageE lessThan_iff list.set_map)
  from assms(1) consider "v \<in> set items" "itemOf effects v" | "failedOf effects v"
    using v(1) unfolding accountOf_def by auto
  then show ?thesis
  proof cases
    case 1
    with v(2) show ?thesis by (auto simp: itemOf_def)
  next
    case 2
    with v(2) assms(3) show ?thesis by (auto simp: failedOf_def simp del: fld.simps fld_obj)
  qed
qed

lemma indexes_extended:
  fixes n :: nat
  assumes "distinct (xs @ ys)" and "set (xs @ ys) = {Suc n ..< Suc n + k}"
  shows "distinct (n # xs @ ys)" and "distinct (xs @ n # ys)" and "set (n # xs @ ys) = {n ..< n + Suc k}"
    and "set (xs @ n # ys) = {n ..< n + Suc k}"
proof -
  have n: "n \<notin> set (xs @ ys)" unfolding assms(2) by simp
  with assms(1) show "distinct (n # xs @ ys)" "distinct (xs @ n # ys)" by auto
  have "insert n {Suc n ..< Suc n + k} = {n ..< n + Suc k}" by auto
  with assms(2) show "set (n # xs @ ys) = {n ..< n + Suc k}" "set (xs @ n # ys) = {n ..< n + Suc k}" by auto
qed

section \<open>Failures\<close>

definition refusal :: "jsv \<Rightarrow> bool" where
  "refusal r \<longleftrightarrow> fld r ''ok'' = JBool False \<and> isEffectsFailure (fld r ''error'')"

lemma refusal_effectsErr: "safe_reason reason \<Longrightarrow> refusal (effectsErr reason)"
  by (auto simp: refusal_def effectsErr_def isEffectsFailure_def hasOnlyKeys_def isSafeReason_iff)

lemma refusal_sideEffectFailed [simp]: "refusal sideEffectFailed"
  unfolding sideEffectFailed_def by (rule refusal_effectsErr) code_simp

section \<open>Calls\<close>

fun calledPort :: "effectsEvent \<Rightarrow> effectsPort" where
  "calledPort (Called p args r) = p"

text \<open>\<open>m\<close> always returns, and between its start and its end calls none of the ports \<open>ps\<close>.\<close>

definition silent :: "effectsPort set \<Rightarrow> ('w, 'a) effecting \<Rightarrow> bool" where
  "silent ps m \<longleftrightarrow> (\<forall>s. \<exists>a t es. m s = (Ret a, t) \<and> calls t = calls s @ es \<and> (\<forall>e \<in> set es. calledPort e \<notin> ps))"

named_theorems silent_rules \<open>computations without calls of some ports\<close>

lemma silent_ret [silent_rules]: "silent ps (ret a)"
  by (simp add: silent_def)

lemma silent_bindM [silent_rules]:
  assumes "silent ps m" and "\<And>a. silent ps (f a)" shows "silent ps (bindM m f)"
  unfolding silent_def
proof
  fix s
  obtain a u es where 1: "m s = (Ret a, u)" "calls u = calls s @ es" "\<forall>e \<in> set es. calledPort e \<notin> ps"
    using assms(1) unfolding silent_def by blast
  obtain b t fs where 2: "f a u = (Ret b, t)" "calls t = calls u @ fs" "\<forall>e \<in> set fs. calledPort e \<notin> ps"
    using assms(2) unfolding silent_def by blast
  show "\<exists>a t es. bindM m f s = (Ret a, t) \<and> calls t = calls s @ es \<and> (\<forall>e \<in> set es. calledPort e \<notin> ps)"
    using 1 2 by (intro exI [of _ b] exI [of _ t] exI [of _ "es @ fs"]) (auto simp: bindM_def)
qed

lemma silent_if [silent_rules]: "(b \<Longrightarrow> silent ps m) \<Longrightarrow> (\<not> b \<Longrightarrow> silent ps n) \<Longrightarrow> silent ps (if b then m else n)"
  by simp

lemma silent_Let [silent_rules]: "silent ps (f x) \<Longrightarrow> silent ps (Let x f)"
  by (simp add: Let_def)

lemma silent_case_option [silent_rules]:
  "silent ps m \<Longrightarrow> (\<And>a. silent ps (f a)) \<Longrightarrow> silent ps (case x of None \<Rightarrow> m | Some a \<Rightarrow> f a)"
  by (cases x) simp_all

lemma silent_case_outcome [silent_rules]:
  "silent ps m \<Longrightarrow> (\<And>a. silent ps (f a)) \<Longrightarrow> silent ps (case x of Ret a \<Rightarrow> f a | Throw \<Rightarrow> m)"
  by (cases x) simp_all

lemma silent_case_prod [silent_rules]:
  "(\<And>a b. silent ps (f a b)) \<Longrightarrow> silent ps (case x of (a, b) \<Rightarrow> f a b)"
  by (cases x) simp

lemma silent_request [silent_rules]: "p \<notin> ps \<Longrightarrow> silent ps (request e p args)"
  unfolding silent_def request_def by (auto split: prod.split)

lemma silent_readMachine [silent_rules]: "silent ps (readMachine e)"
  unfolding silent_def readMachine_def by (auto split: prod.split)

lemma silent_startClock [silent_rules]: "silent ps (startClock e i)"
  unfolding startClock_def by (rule silent_bindM [OF silent_readMachine]) (simp add: silent_def)

lemma silent_dispatchClock [silent_rules]: "TellTime \<notin> ps \<Longrightarrow> silent ps (dispatchClock e i st)"
proof -
  assume p: "TellTime \<notin> ps"
  have "silent ps (if providesNow e then (\<lambda>s. request e TellTime [obj [(''now'', new_date (latest s))]] s)
            else bindM (readMachine e) (\<lambda>n. ret (Ret (new_date (i + max 0 (n - st))))))"
    by (intro silent_if silent_bindM silent_readMachine silent_ret)
      (use p in \<open>auto simp: silent_def request_def split: prod.split\<close>)
  then show ?thesis
    unfolding dispatchClock_def
    by (rule silent_bindM) (auto simp: silent_def split: outcome.split jsv.split option.split)
qed

lemma wp_silent:
  assumes "silent ps m"
    and "\<And>a t es. m s = (Ret a, t) \<Longrightarrow> calls t = calls s @ es \<Longrightarrow> (\<forall>e \<in> set es. calledPort e \<notin> ps) \<Longrightarrow> Q a t"
  shows "wp m Q E s"
proof -
  obtain a t es where "m s = (Ret a, t)" "calls t = calls s @ es" "\<forall>e \<in> set es. calledPort e \<notin> ps"
    using assms(1) unfolding silent_def by blast
  with assms(2) show ?thesis by (simp add: wp_def)
qed

text \<open>The same rules for a goal that a computation satisfies, one construct at a time.\<close>

lemma wp_silent_bind:
  assumes "silent ps m"
    and "\<And>a t es. m s = (Ret a, t) \<Longrightarrow> calls t = calls s @ es \<Longrightarrow> (\<forall>e \<in> set es. calledPort e \<notin> ps) \<Longrightarrow> wp (f a) Q E t"
  shows "wp (bindM m f) Q E s"
  unfolding wp_bind using assms by (rule wp_silent)

lemma wp_retI: "Q a s \<Longrightarrow> wp (ret a) Q E s"
  by (simp add: wp_ret)

lemma wp_decide: "(b \<Longrightarrow> wp m Q E s) \<Longrightarrow> (\<not> b \<Longrightarrow> wp n Q E s) \<Longrightarrow> wp (if b then m else n) Q E s"
  by simp

lemma wp_optionI:
  "(x = None \<Longrightarrow> wp m Q E s) \<Longrightarrow> (\<And>a. x = Some a \<Longrightarrow> wp (f a) Q E s) \<Longrightarrow> wp (case x of None \<Rightarrow> m | Some a \<Rightarrow> f a) Q E s"
  by (cases x) simp_all

lemma wp_sumI:
  "(\<And>a. x = Inl a \<Longrightarrow> wp (f a) Q E s) \<Longrightarrow> (\<And>b. x = Inr b \<Longrightarrow> wp (g b) Q E s)
     \<Longrightarrow> wp (case x of Inl a \<Rightarrow> f a | Inr b \<Rightarrow> g b) Q E s"
  by (cases x) simp_all

lemma wp_LetI: "(\<And>a. a = x \<Longrightarrow> wp (f a) Q E s) \<Longrightarrow> wp (Let x f) Q E s"
  by (simp add: Let_def)

lemma wp_prodI: "(\<And>a b. x = (a, b) \<Longrightarrow> wp (f a b) Q E s) \<Longrightarrow> wp (case x of (a, b) \<Rightarrow> f a b) Q E s"
  by (cases x) simp

lemma wp_follow: "wp m P E s \<Longrightarrow> (\<And>a t. P a t \<Longrightarrow> wp (f a) Q E t) \<Longrightarrow> wp (bindM m f) Q E s"
  unfolding wp_bind by (rule wp_mono)

lemmas wp_intros = wp_retI wp_decide wp_optionI wp_sumI wp_prodI

end
