(* ===== verification/OutboxDispatcherRuns.thy ===== *)
theory OutboxDispatcherRuns
  imports OutboxDispatcher DispatchAccounts "HOL-Library.Multiset"
begin

text \<open>
  What a dispatch of effects to the outbox has done when it succeeds: every effect is accounted
  for, and the stored ones are acknowledged with the terms of the effect they were made from.
\<close>

section \<open>Copies\<close>

lemma snapshotDeliveryEffect_effect: "snapshotDeliveryEffect v = Some effect \<Longrightarrow> isOutboxDeliveryEffect effect"
  by (auto simp: snapshotDeliveryEffect_def Let_def simp del: fld.simps fld_obj split: if_splits)

lemma fld_snapshotDeliveryEffect:
  assumes "snapshotDeliveryEffect v = Some effect"
  shows "fld effect ''dispatchPolicy'' = fld v ''dispatchPolicy''" and "fld effect ''expiresAt'' = fld v ''expiresAt''"
    and "fld effect ''idempotencyKey'' = fld v ''idempotencyKey''"
    and "\<exists>m. snapshotRawDeliveryMessage (fld v ''message'') = Some m \<and> fld effect ''message'' = m"
proof -
  let ?m = "case snapshotRawDeliveryMessage (fld v ''message'') of None \<Rightarrow> JUndef | Some m \<Rightarrow> m"
  from assms have effect: "effect = obj ([(''type'', fld v ''type''), (''dispatchPolicy'', fld v ''dispatchPolicy'')]
      @ given ''idempotencyKey'' (fld v ''idempotencyKey'') @ given ''expiresAt'' (fld v ''expiresAt'') @ [(''message'', ?m)])"
    by (simp add: snapshotDeliveryEffect_def Let_def del: fld.simps fld_obj split: if_splits)
  have read: "fld (obj ([(''type'', a), (''dispatchPolicy'', b)] @ given ''idempotencyKey'' i @ given ''expiresAt'' x @ [(''message'', m)])) k
      = (if k = ''type'' then a else if k = ''dispatchPolicy'' then b else if k = ''idempotencyKey'' then i
         else if k = ''expiresAt'' then x else if k = ''message'' then m else JUndef)" for a b i x m k
    by (simp add: given_def)
  show "fld effect ''dispatchPolicy'' = fld v ''dispatchPolicy''" "fld effect ''expiresAt'' = fld v ''expiresAt''"
    "fld effect ''idempotencyKey'' = fld v ''idempotencyKey''"
    unfolding effect read by simp_all
  have message: "fld effect ''message'' = ?m" unfolding effect read by simp
  have "isOutboxDeliveryMessage (fld effect ''message'')"
    using snapshotDeliveryEffect_effect [OF assms] unfolding isOutboxDeliveryEffect_def by blast
  then show "\<exists>m. snapshotRawDeliveryMessage (fld v ''message'') = Some m \<and> fld effect ''message'' = m"
    unfolding message by (cases "snapshotRawDeliveryMessage (fld v ''message'')") (simp_all add: isOutboxDeliveryMessage_def)
qed

text \<open>A persistable message with the envelope of a delivery message, and no raw secret in its data.\<close>

definition envelopeOf :: "jsv \<Rightarrow> jsv list" where
  "envelopeOf m = [fld (fld m ''to'') ''channel'', fld (fld m ''to'') ''target'', fld (fld m ''to'') ''display'',
     fld m ''templateId'', fld m ''locale'', fld m ''metadata'']"

lemma sameDeliveryEnvelope_iff:
  "sameDeliveryEnvelope a b \<longleftrightarrow> butlast (envelopeOf a) = butlast (envelopeOf b)
     \<and> sameJsonValue (last (envelopeOf a)) (last (envelopeOf b))"
  by (simp add: sameDeliveryEnvelope_def envelopeOf_def del: fld.simps fld_obj)

definition persists :: "jsv \<Rightarrow> jsv \<Rightarrow> bool" where
  "persists message m \<longleftrightarrow> isOutboxDeliveryMessage m \<and> envelopeOf m = envelopeOf message
     \<and> (fld m ''data'' = JUndef \<or> isDataWith workerSealedSecret (fld m ''data''))"

lemma workerJsonObject_clone: "workerJsonObject v \<Longrightarrow> structuredClone v = Some v"
  by (cases v) (auto simp: workerJsonObject_def dest: json_clone(3))

lemma messageParts_SomeD:
  assumes "messageParts copyData v = Some (envelope, data, metadata)"
  shows "envelope = [(''to'', obj ([(''channel'', fld (fld v ''to'') ''channel''), (''target'', fld (fld v ''to'') ''target'')]
             @ given ''display'' (fld (fld v ''to'') ''display''))), (''templateId'', fld v ''templateId'')]
           @ given ''locale'' (fld v ''locale'')"
    and "cloneOptional (fld v ''metadata'') = Some metadata"
    and "metadata = JUndef \<or> workerJsonObject metadata"
    and "(if fld v ''data'' = JUndef then Some JUndef else copyData (fld v ''data'')) = Some data"
  using assms by (auto simp: messageParts_def Let_def simp del: fld.simps fld_obj split: if_splits option.splits prod.splits)

lemma fld_persistable:
  fixes c t x i l m d :: jsv
  defines "snapshot \<equiv> obj (([(''to'', obj ([(''channel'', c), (''target'', t)] @ given ''display'' x)), (''templateId'', i)]
           @ given ''locale'' l) @ given ''metadata'' m @ given ''data'' d)"
  shows "envelopeOf snapshot = [c, t, x, i, l, m]" and "fld snapshot ''data'' = d"
  by (simp_all add: snapshot_def envelopeOf_def given_def)

lemma snapshotPersistable_persists:
  assumes "snapshotPersistableDeliveryMessage v = Some m"
    and "fld v ''metadata'' = JUndef \<or> workerJsonObject (fld v ''metadata'')"
  shows "persists v m"
proof -
  from assms(1) obtain envelope data metadata where parts: "messageParts snapshotPersistableDeliveryData v = Some (envelope, data, metadata)"
    and m: "m = obj (envelope @ given ''metadata'' metadata @ given ''data'' data)" "isOutboxDeliveryMessage m"
    and data: "data = JUndef \<or> isDataWith workerSealedSecret data"
    by (auto simp: snapshotPersistableDeliveryMessage_def Let_def simp del: fld.simps fld_obj split: option.splits if_splits)
  note parts = messageParts_SomeD [OF parts]
  from parts(2) assms(2) have "metadata = fld v ''metadata''"
    by (auto simp: cloneOptional_def workerJsonObject_clone simp del: fld.simps fld_obj split: if_splits)
  then have "envelopeOf m = envelopeOf v" "fld m ''data'' = data"
    unfolding m(1) parts(1) fld_persistable by (simp_all add: envelopeOf_def)
  then show ?thesis using m(2) data by (simp add: persists_def del: fld.simps fld_obj)
qed

lemma fld_spread_data: "k \<noteq> ''data'' \<Longrightarrow> isPlainObject v \<Longrightarrow> fld (spread v [(''data'', d)]) k = fld v k"
  by (cases v) (simp_all add: map_of_set_field)

lemma sealDeliveryMessage_persists:
  assumes "sealDeliveryMessage e message tenantId messageId expiresAt s = (Ret (Some m), t)"
  shows "persists message m"
proof -
  from assms have message: "isOutboxDeliveryMessage message"
    by (auto simp: sealDeliveryMessage_def simp del: fld.simps fld_obj split: if_splits)
  from assms obtain d where d: "snapshotPersistableDeliveryMessage (spread message [(''data'', d)]) = Some m"
    unfolding sealDeliveryMessage_def
    by (auto simp del: fld.simps fld_obj spread.simps split: if_splits option.splits elim!: bindM_RetE)
  let ?v = "spread message [(''data'', d)]"
  from message have plain: "isPlainObject message" by (simp add: isOutboxDeliveryMessage_def del: fld.simps fld_obj)
  then have same: "envelopeOf ?v = envelopeOf message" and metadata: "fld ?v ''metadata'' = fld message ''metadata''"
    by (simp_all add: envelopeOf_def fld_spread_data del: fld.simps fld_obj spread.simps)
  from message have "fld ?v ''metadata'' = JUndef \<or> workerJsonObject (fld ?v ''metadata'')"
    unfolding metadata by (simp add: isOutboxDeliveryMessage_def del: fld.simps fld_obj)
  from snapshotPersistable_persists [OF d this] same show ?thesis by (simp add: persists_def)
qed

section \<open>Preparation\<close>

text \<open>What an effect becomes: a pending message with its copy, sealed.\<close>

definition preparedFor :: "'w outboxEffects \<Rightarrow> jsv \<Rightarrow> jsv \<Rightarrow> preparedEffect \<Rightarrow> bool" where
  "preparedFor c context effect p \<longleftrightarrow> snapshotDeliveryEffect effect = Some (preparedFrom p)
     \<and> (\<exists>messageId m at. isSafeText messageId 512 True \<and> persists (fld (preparedFrom p) ''message'') m
          \<and> outboxMessage p = newOutboxMessage c context messageId (preparedFrom p) m at)"

definition preparedOf :: "'w outboxEffects \<Rightarrow> jsv \<Rightarrow> jsv list \<Rightarrow> preparedEffect \<Rightarrow> bool" where
  "preparedOf c context effects p \<longleftrightarrow> itemIndex p < length effects \<and> preparedFor c context (effects ! itemIndex p) p"

lemma dispatchPolicy_cases:
  "snapshotDeliveryEffect v = Some effect \<Longrightarrow> \<not> isRequired effect \<Longrightarrow> fld v ''dispatchPolicy'' = JStr ''best-effort''"
  using snapshotDeliveryEffect_effect fld_snapshotDeliveryEffect(1)
  unfolding isOutboxDeliveryEffect_def isRequired_def by metis

lemma prepareEffect_result:
  assumes "prepareEffect c clock context now i (effects ! i) s = (Ret r, t)" and "i < length effects"
  shows "r = Refused
    \<or> (r = Postponed i \<and> fld (effects ! i) ''dispatchPolicy'' = JStr ''best-effort'')
    \<or> (\<exists>p. r = Ready p \<and> itemIndex p = i \<and> preparedOf c context effects p)"
proof (cases "snapshotDeliveryEffect (effects ! i)")
  case None
  with assms show ?thesis by (auto simp: prepareEffect_def giveUp_def isBestEffort_def simp del: fld.simps fld_obj split: if_splits)
next
  case (Some effect)
  note best = dispatchPolicy_cases [OF Some]
  from assms(1) obtain messageId u where u: "(if \<not> isSafeText messageId 512 True
        \<or> (fld effect ''expiresAt'' \<noteq> JUndef
           \<and> (\<not> isValidDate (fld effect ''expiresAt'') \<or> date_le (fld effect ''expiresAt'') now))
      then ret (giveUp (\<not> isRequired effect) i) else sealEffect c clock context effect messageId i) u = (Ret r, t)"
    unfolding prepareEffect_def Some option.case by (rule bindM_RetE)
  have "r = giveUp (\<not> isRequired effect) i
      \<or> isSafeText messageId 512 True \<and> sealEffect c clock context effect messageId i u = (Ret r, t)"
    using u by (simp del: fld.simps fld_obj split: if_split_asm)
  then show ?thesis
  proof
    assume "r = giveUp (\<not> isRequired effect) i"
    then show ?thesis using best by (auto simp: giveUp_def simp del: fld.simps fld_obj split: if_splits)
  next
    assume sealed: "isSafeText messageId 512 True \<and> sealEffect c clock context effect messageId i u = (Ret r, t)"
    then obtain pm u1 where pm: "sealDeliveryMessage (env c) (fld effect ''message'') (fld context ''tenantId'') messageId (fld effect ''expiresAt'') u
        = (Ret pm, u1)" and rest: "(case pm of None \<Rightarrow> ret (giveUp (\<not> isRequired effect) i)
        | Some message \<Rightarrow> bindM clock (\<lambda>preparedAt. case preparedAt of None \<Rightarrow> ret Refused
            | Some at \<Rightarrow> if overAt effect at then ret (giveUp (\<not> isRequired effect) i)
                else ret (Ready \<lparr>itemIndex = i, preparedFrom = effect, outboxMessage = newOutboxMessage c context messageId effect message at\<rparr>))) u1
        = (Ret r, t)"
      unfolding sealEffect_def by (blast elim!: bindM_RetE)
    show ?thesis
    proof (cases pm)
      case None
      with rest best show ?thesis by (auto simp: giveUp_def simp del: fld.simps fld_obj split: if_splits)
    next
      case (Some m)
      with sealDeliveryMessage_persists pm have m: "persists (fld effect ''message'') m" by metis
      from rest have "r = Refused \<or> r = giveUp (\<not> isRequired effect) i
          \<or> (\<exists>a. r = Ready \<lparr>itemIndex = i, preparedFrom = effect, outboxMessage = newOutboxMessage c context messageId effect m a\<rparr>)"
        unfolding Some by (auto simp del: fld.simps fld_obj split: option.splits if_splits elim!: bindM_RetE)
      then show ?thesis
      proof (elim disjE exE)
        fix a
        assume "r = Ready \<lparr>itemIndex = i, preparedFrom = effect, outboxMessage = newOutboxMessage c context messageId effect m a\<rparr>"
        moreover have "\<exists>messageId' m' a'. isSafeText messageId' 512 True \<and> persists (fld effect ''message'') m'
            \<and> newOutboxMessage c context messageId effect m a = newOutboxMessage c context messageId' effect m' a'"
          using sealed m by blast
        ultimately show ?thesis using assms(2) \<open>snapshotDeliveryEffect (effects ! i) = Some effect\<close>
          by (simp add: preparedOf_def preparedFor_def)
      qed (use best in \<open>auto simp: giveUp_def simp del: fld.simps fld_obj split: if_splits\<close>)
    qed
  qed
qed


lemma prepareEffects_result:
  assumes "prepareEffects c clock context now (length before) effects s = (Ret (Some (ps, fs)), t)"
  shows "(\<forall>p \<in> set ps. preparedOf c context (before @ effects) p) \<and> (\<forall>f \<in> set fs. failedOf (before @ effects) f)
    \<and> distinct (map itemIndex ps @ map indexOf fs)
    \<and> set (map itemIndex ps @ map indexOf fs) = {length before ..< length before + length effects}"
  using assms
proof (induction effects arbitrary: before ps fs s t)
  case Nil
  then show ?case by simp
next
  case (Cons v effects)
  let ?i = "length before" and ?all = "before @ v # effects"
  have more: "before @ v # effects = (before @ [v]) @ effects" "Suc ?i = length (before @ [v])" "?all ! ?i = v" by simp_all
  from Cons.prems obtain r u where r: "prepareEffect c clock context now ?i (?all ! ?i) s = (Ret r, u)"
    and rest: "(case r of Refused \<Rightarrow> ret None
        | Postponed i \<Rightarrow> bindM (prepareEffects c clock context now (length (before @ [v])) effects)
            (\<lambda>r. ret (map_option (\<lambda>(ps, fs). (ps, notDispatched i # fs)) r))
        | Ready p \<Rightarrow> bindM (prepareEffects c clock context now (length (before @ [v])) effects)
            (\<lambda>r. ret (map_option (\<lambda>(ps, fs). (p # ps, fs)) r))) u = (Ret (Some (ps, fs)), t)"
    unfolding prepareEffects.simps more(2,3) by (rule bindM_RetE)
  from prepareEffect_result [OF r] consider (postponed) "r = Postponed ?i" "fld (?all ! ?i) ''dispatchPolicy'' = JStr ''best-effort''"
    | (ready) p where "r = Ready p" "itemIndex p = ?i" "preparedOf c context ?all p"
    using rest by auto
  then show ?case
  proof cases
    case postponed
    from rest postponed(1) obtain fs1 u1 where 1:
      "prepareEffects c clock context now (length (before @ [v])) effects u = (Ret (Some (ps, fs1)), u1)"
      and fs: "fs = notDispatched ?i # fs1" by (auto elim!: bindM_RetE)
    have "failedOf ?all (notDispatched ?i)"
      unfolding failedOf_def notDispatched_def
      by (intro exI [of _ ?i] exI [of _ "JStr ''SIDE_EFFECT_FAILED''"] exI [of _ "[]"])
        (use postponed(2) in \<open>simp add: safeDetails_def no_control_def is_control_def del: fld.simps fld_obj\<close>)
    moreover have "indexOf (notDispatched ?i) = ?i" by (simp add: notDispatched_def)
    ultimately show ?thesis
      using Cons.IH [OF 1] fs indexes_extended(2,4) [of "map itemIndex ps" "map indexOf fs1" ?i "length effects"]
      unfolding more(1) by simp
  next
    case ready
    from rest ready(1) obtain ps1 u1 where 1:
      "prepareEffects c clock context now (length (before @ [v])) effects u = (Ret (Some (ps1, fs)), u1)"
      and ps: "ps = p # ps1" by (auto elim!: bindM_RetE)
    show ?thesis
      using Cons.IH [OF 1] ps ready(2,3) indexes_extended(1,3) [of "map itemIndex ps1" "map indexOf fs" ?i "length effects"]
      unfolding more(1) by simp
  qed
qed

section \<open>Acknowledgements\<close>

text \<open>What a store has acknowledged of a prepared effect with the copy \<open>a\<close> of its answer.\<close>

definition acknowledgedFor :: "preparedEffect \<Rightarrow> jsv \<Rightarrow> bool" where
  "acknowledgedFor p a \<longleftrightarrow> (let m = outboxMessage p in
     fld a ''tenantId'' = fld m ''tenantId'' \<and> fld a ''idempotencyKey'' = fld m ''idempotencyKey''
     \<and> (fld m ''idempotencyKey'' = JUndef \<longrightarrow> fld a ''messageId'' = fld m ''messageId'')
     \<and> fld a ''status'' \<noteq> JStr ''dead'' \<and> fld a ''dispatchPolicy'' = fld m ''dispatchPolicy''
     \<and> fld a ''maxAttempts'' = fld m ''maxAttempts''
     \<and> sameOptionalDate (fld a ''expiresAt'') (fld m ''expiresAt'')
     \<and> sameDeliveryEnvelope (fld a ''message'') (fld (preparedFrom p) ''message''))"

lemma snapshotAcknowledgedMessage_reads:
  assumes "snapshotAcknowledgedMessage v m = Some a"
  shows "fld a ''tenantId'' = fld m ''tenantId''" and "fld a ''idempotencyKey'' = fld m ''idempotencyKey''"
    and "fld m ''idempotencyKey'' = JUndef \<Longrightarrow> fld a ''messageId'' = fld m ''messageId''"
proof -
  from assms have v: "acknowledgedAs v m"
    by (simp add: snapshotAcknowledgedMessage_def del: fld.simps fld_obj split: if_splits)
  from assms have "fld a ''tenantId'' = fld v ''tenantId'' \<and> fld a ''idempotencyKey'' = fld v ''idempotencyKey''
      \<and> fld a ''messageId'' = fld v ''messageId''"
    unfolding snapshotAcknowledgedMessage_def
    by (auto simp: given_def split: if_splits option.splits)
  with v show "fld a ''tenantId'' = fld m ''tenantId''" "fld a ''idempotencyKey'' = fld m ''idempotencyKey''"
    "fld m ''idempotencyKey'' = JUndef \<Longrightarrow> fld a ''messageId'' = fld m ''messageId''"
    by (simp_all add: acknowledgedAs_def del: fld.simps fld_obj)
qed

lemma snapshotAcknowledged_all2:
  "snapshotAcknowledged vs ms = Some as \<Longrightarrow> length vs = length ms \<Longrightarrow>
     list_all2 (\<lambda>a m. a = JUndef \<or> (\<exists>v. snapshotAcknowledgedMessage v m = Some a)) as ms"
  by (induction vs ms arbitrary: as rule: snapshotAcknowledged.induct) (auto split: if_splits option.splits)

lemma enqueueAnswer_all2:
  assumes "enqueueAnswer sent r = Inr as"
  shows "list_all2 (\<lambda>a m. a = JUndef \<or> (\<exists>v. snapshotAcknowledgedMessage v m = Some a)) as sent"
proof -
  from assms obtain answered where "snapshotAcknowledged (arr_elems answered) sent = Some as"
    "length (arr_elems answered) = length sent"
    by (auto simp: enqueueAnswer_def Let_def simp del: fld.simps fld_obj split: outcome.splits if_splits option.splits)
  then show ?thesis by (rule snapshotAcknowledged_all2)
qed

lemma isMatchingAcknowledgement_True:
  assumes "isMatchingAcknowledgement c p a now s = (Ret True, t)"
    and "persists (fld (preparedFrom p) ''message'') (fld (outboxMessage p) ''message'')"
  shows "acknowledgesTerms a (outboxMessage p) now" and "sameDeliveryEnvelope (fld a ''message'') (fld (preparedFrom p) ''message'')"
proof -
  show "acknowledgesTerms a (outboxMessage p) now"
    using assms(1) by (auto simp: isMatchingAcknowledgement_def Let_def simp del: fld.simps fld_obj split: if_splits)
  have "sameDeliveryEnvelope (fld a ''message'') (fld (outboxMessage p) ''message'')
      \<or> sameDeliveryEnvelope (fld a ''message'') (fld (preparedFrom p) ''message'')"
    using assms(1)
    by (auto simp: isMatchingAcknowledgement_def sameLogicalDeliveryMessage_def samePersistableDeliveryMessage_def Let_def
        simp del: fld.simps fld_obj split: if_splits)
  then show "sameDeliveryEnvelope (fld a ''message'') (fld (preparedFrom p) ''message'')"
    using assms(2) unfolding sameDeliveryEnvelope_iff persists_def by metis
qed

lemma matchAll_True:
  assumes "matchAll c ps as now s = (Ret True, t)" and "length as = length ps"
    and "\<forall>p \<in> set ps. persists (fld (preparedFrom p) ''message'') (fld (outboxMessage p) ''message'')"
  shows "\<forall>i < length ps. truthy (as ! i) \<and> acknowledgesTerms (as ! i) (outboxMessage (ps ! i)) now
    \<and> sameDeliveryEnvelope (fld (as ! i) ''message'') (fld (preparedFrom (ps ! i)) ''message'')"
  using assms
proof (induction c ps as now arbitrary: s rule: matchAll.induct)
  case (3 c p ps a as now)
  from 3(2) obtain u where a: "truthy a" "isMatchingAcknowledgement c p a now s = (Ret True, u)" "matchAll c ps as now u = (Ret True, t)"
    by (auto simp del: truthy.simps split: if_splits elim!: bindM_RetE)
  with isMatchingAcknowledgement_True [OF a(2)] 3 show ?case by (auto simp: All_less_Suc2 simp del: fld.simps fld_obj)
qed auto

lemma acknowledged_terms:
  assumes "enqueueAnswer (map outboxMessage ps) r = Inr as"
    and "verifyEnqueueAcknowledgements c ps as now s = (Ret True, t)"
    and "\<forall>p \<in> set ps. persists (fld (preparedFrom p) ''message'') (fld (outboxMessage p) ''message'')"
    and "i < length ps"
  shows "acknowledgedFor (ps ! i) (as ! i)"
proof -
  from assms(2) have "matchAll c ps as now s = (Ret True, t)" and len: "length as = length ps"
    by (auto simp: verifyEnqueueAcknowledgements_def split: if_splits)
  from matchAll_True [OF this assms(3)] assms(4) have terms: "truthy (as ! i)" "acknowledgesTerms (as ! i) (outboxMessage (ps ! i)) now"
    "sameDeliveryEnvelope (fld (as ! i) ''message'') (fld (preparedFrom (ps ! i)) ''message'')" by blast+
  from enqueueAnswer_all2 [OF assms(1)] have "as ! i = JUndef \<or> (\<exists>v. snapshotAcknowledgedMessage v (map outboxMessage ps ! i) = Some (as ! i))"
    by (rule list_all2_nthD) (simp add: len assms(4))
  with assms(4) terms(1) obtain v where "snapshotAcknowledgedMessage v (outboxMessage (ps ! i)) = Some (as ! i)" by force
  from snapshotAcknowledgedMessage_reads [OF this] terms(2,3) show ?thesis
    unfolding acknowledgedFor_def acknowledgesTerms_def Let_def by blast
qed

section \<open>Steps without a call of the store\<close>

lemma silent_sealDeliveryData [silent_rules]: "SealSecret \<notin> ps \<Longrightarrow> silent ps (sealDeliveryData e purpose expiresAt kvs)"
  by (induction kvs) (auto simp del: fld.simps fld_obj intro!: silent_rules)

lemma silent_prepareEffects [silent_rules]:
  assumes "silent ps clock" and "SealSecret \<notin> ps" and "GenerateId \<notin> ps"
  shows "silent ps (prepareEffects c clock context now i effects)"
proof (induction effects arbitrary: i)
  case (Cons v effects)
  have "silent ps (prepareEffect c clock context now i v)"
    unfolding prepareEffect_def sealEffect_def sealDeliveryMessage_def safeGenerateId_def
    by (intro silent_rules assms)
  moreover have "silent ps (case prepared of Refused \<Rightarrow> ret None
      | Postponed j \<Rightarrow> bindM (prepareEffects c clock context now (Suc i) effects)
          (\<lambda>r. ret (map_option (\<lambda>(ps, fs). (ps, notDispatched j # fs)) r))
      | Ready p \<Rightarrow> bindM (prepareEffects c clock context now (Suc i) effects)
          (\<lambda>r. ret (map_option (\<lambda>(ps, fs). (p # ps, fs)) r)))" for prepared
    by (cases prepared) (auto intro!: silent_rules Cons.IH)
  ultimately show ?case by (auto intro!: silent_rules)
qed (simp add: silent_ret)

lemma silent_sameDeliveryData [silent_rules]:
  "UnsealSecret \<notin> ps \<Longrightarrow> silent ps (sameDeliveryData c d purpose now kvs used used')"
  by (induction kvs arbitrary: used used') (auto simp: Let_def simp del: fld.simps fld_obj intro!: silent_rules)

lemma silent_matchAll [silent_rules]: "UnsealSecret \<notin> ps \<Longrightarrow> silent ps (matchAll c prepared as now)"
proof (induction c prepared as now rule: matchAll.induct)
  case (3 c p prepared a as now)
  have "silent ps (isMatchingAcknowledgement c p a now)"
    unfolding isMatchingAcknowledgement_def sameLogicalDeliveryMessage_def
    by (intro silent_rules 3)
  with 3 show ?case by (auto intro!: silent_rules)
qed (simp_all add: silent_ret)

lemma silent_verify [silent_rules]:
  "UnsealSecret \<notin> ps \<Longrightarrow> silent ps (verifyEnqueueAcknowledgements c prepared as now)"
  unfolding verifyEnqueueAcknowledgements_def by (intro silent_rules)

section \<open>Storing\<close>

definition storedIn :: "effectsEvent list \<Rightarrow> jsv \<Rightarrow> preparedEffect \<Rightarrow> bool" where
  "storedIn es tx p \<longleftrightarrow> (\<exists>sent r as k. Called EnqueueBatch [obj [(''messages'', JArr sent)], tx] r \<in> set es
     \<and> enqueueAnswer sent r = Inr as \<and> k < length sent \<and> sent ! k = outboxMessage p \<and> acknowledgedFor p (as ! k))"

text \<open>Every call of the store was given the transaction and succeeded.\<close>

definition allStored :: "effectsEvent list \<Rightarrow> jsv \<Rightarrow> bool" where
  "allStored es tx \<longleftrightarrow> (\<forall>e \<in> set es. calledPort e = EnqueueBatch \<longrightarrow>
     (\<exists>sent r as. e = Called EnqueueBatch [obj [(''messages'', JArr sent)], tx] r \<and> enqueueAnswer sent r = Inr as))"

lemma storedIn_append: "storedIn es tx p \<Longrightarrow> storedIn (es @ fs) tx p" "storedIn fs tx p \<Longrightarrow> storedIn (es @ fs) tx p"
  unfolding storedIn_def by (metis UnCI set_append)+

lemma allStored_append [simp]: "allStored (es @ fs) tx \<longleftrightarrow> allStored es tx \<and> allStored fs tx"
  by (auto simp: allStored_def)

lemma allStored_silent: "\<forall>e \<in> set es. calledPort e \<notin> {EnqueueBatch} \<Longrightarrow> allStored es tx"
  by (simp add: allStored_def)

lemma allStored_Nil [simp]: "allStored [] tx"
  by (simp add: allStored_def)

lemma enqueueAnswer_failure:
  assumes "enqueueAnswer sent r = Inl failure"
  shows "isSafeReason (fld failure ''reason'')" and "fld failure ''details'' = JUndef \<or> isPublicData (fld failure ''details'')"
proof -
  have stored: "isSafeReason (fld f ''reason'') \<and> (fld f ''details'' = JUndef \<or> isPublicData (fld f ''details''))"
    if "snapshotStoreFailure v = Some f" for v f
  proof -
    from that have reason: "isSafeText (fld v ''reason'') 512 True"
      by (simp add: snapshotStoreFailure_def Let_def del: fld.simps fld_obj split: if_splits)
    from that have "fld f ''reason'' = fld v ''reason'' \<and> (fld f ''details'' = JUndef \<or> isPublicData (fld f ''details''))"
      unfolding snapshotStoreFailure_def Let_def
      by (auto simp: isPublicData_def workerJsonObject_def clonePublicData_id [unfolded workerJsonObject_def]
          split: if_splits option.splits)
    with reason show ?thesis by (cases "fld v ''reason''") (simp_all del: fld.simps fld_obj)
  qed
  have unavailable: "isSafeReason (fld storeUnavailable ''reason'') \<and> fld storeUnavailable ''details'' = JUndef" by code_simp
  from assms have "failure = storeUnavailable \<or> (\<exists>v. snapshotStoreFailure v = Some failure)"
    by (auto simp: enqueueAnswer_def Let_def simp del: fld.simps fld_obj split: outcome.splits if_splits option.splits)
  with stored unavailable show "isSafeReason (fld failure ''reason'')"
    "fld failure ''details'' = JUndef \<or> isPublicData (fld failure ''details'')" by auto
qed

lemma refusal_storeFailed: "isSafeReason (fld failure ''reason'') \<Longrightarrow> refusal (storeFailed failure)"
  by (auto simp: refusal_def storeFailed_def isEffectsFailure_def hasOnlyKeys_def simp del: isSafeReason.simps)

lemma refusal_unavailable [simp]: "refusal (effectsErr ''STORE_UNAVAILABLE'')"
  by (rule refusal_effectsErr) code_simp

lemma wp_enqueue_bind:
  assumes "\<And>t r. calls t = calls s @ [Called EnqueueBatch [obj [(''messages'', JArr sent)], tx] r] \<Longrightarrow> wp (f (enqueueAnswer sent r)) Q E t"
  shows "wp (bindM (safeEnqueueBatch c sent tx) f) Q E s"
  unfolding safeEnqueueBatch_def wp_bind wp_request
  using assms by (auto simp: wp_ret split: prod.split)

definition sealedFrom :: "preparedEffect list \<Rightarrow> bool" where
  "sealedFrom ps \<longleftrightarrow> (\<forall>p \<in> set ps. persists (fld (preparedFrom p) ''message'') (fld (outboxMessage p) ''message''))"

text \<open>Verified answers: every message of the call has been acknowledged.\<close>

lemma verified_stored:
  assumes "enqueueAnswer (map outboxMessage ps) r = Inr as" and "sealedFrom ps"
    and "verifyEnqueueAcknowledgements c ps as now s = (Ret True, t)" and "p \<in> set ps"
  shows "storedIn (es @ Called EnqueueBatch [obj [(''messages'', JArr (map outboxMessage ps))], tx] r # fs) tx p"
proof -
  from assms(4) obtain k where k: "k < length ps" "ps ! k = p" by (auto simp: in_set_conv_nth)
  from acknowledged_terms [OF assms(1,3) _ k(1)] assms(2) have "acknowledgedFor p (as ! k)"
    unfolding sealedFrom_def k(2) by blast
  with assms(1) k show ?thesis
    unfolding storedIn_def
    by (intro exI [of _ "map outboxMessage ps"] exI [of _ r] exI [of _ as] exI [of _ k]) simp
qed

definition storedSince :: "effectsEvent list \<Rightarrow> jsv \<Rightarrow> preparedEffect list \<Rightarrow> 'w effectsState \<Rightarrow> bool" where
  "storedSince cs tx ps t \<longleftrightarrow> (\<exists>es. calls t = cs @ es \<and> (\<forall>p \<in> set ps. storedIn es tx p) \<and> allStored es tx)"

definition requiredStored :: "'w effectsState \<Rightarrow> jsv \<Rightarrow> preparedEffect list \<Rightarrow> jsv + jsv list \<Rightarrow> 'w effectsState \<Rightarrow> bool" where
  "requiredStored s tx ps res t \<longleftrightarrow> (case res of Inl answer \<Rightarrow> refusal answer
     | Inr items \<Rightarrow> items = map (\<lambda>p. dispatchItem (itemIndex p)) ps
         \<and> storedSince (calls s) tx ps t)"

lemma requiredStored_simps:
  "requiredStored s tx ps (Inl answer) t \<longleftrightarrow> refusal answer"
  "requiredStored s tx ps (Inr items) t \<longleftrightarrow> items = map (\<lambda>p. dispatchItem (itemIndex p)) ps
     \<and> storedSince (calls s) tx ps t"
  by (simp_all add: requiredStored_def)

lemma allStored_call:
  "enqueueAnswer sent r = Inr as \<Longrightarrow> \<forall>e \<in> set es. calledPort e \<notin> {EnqueueBatch} \<Longrightarrow> \<forall>e \<in> set fs. calledPort e \<notin> {EnqueueBatch}
     \<Longrightarrow> allStored (es @ Called EnqueueBatch [obj [(''messages'', JArr sent)], tx] r # fs) tx"
  by (auto simp: allStored_def)

lemma verified_calls:
  assumes "calls t = cs @ es @ Called EnqueueBatch [obj [(''messages'', JArr (map outboxMessage ps))], tx] r # fs @ gs"
    and "\<forall>e \<in> set es. calledPort e \<noteq> EnqueueBatch" and "\<forall>e \<in> set fs. calledPort e \<noteq> EnqueueBatch"
    and "\<forall>e \<in> set gs. calledPort e \<noteq> EnqueueBatch"
    and "enqueueAnswer (map outboxMessage ps) r = Inr as" and "verifyEnqueueAcknowledgements c ps as now u = (Ret True, t)"
    and "sealedFrom ps"
  shows "storedSince cs tx ps t"
  unfolding storedSince_def
proof (intro exI conjI)
  show "calls t = cs @ es @ Called EnqueueBatch [obj [(''messages'', JArr (map outboxMessage ps))], tx] r # fs @ gs" by fact
  show "\<forall>p \<in> set ps. storedIn (es @ Called EnqueueBatch [obj [(''messages'', JArr (map outboxMessage ps))], tx] r # fs @ gs) tx p"
    using verified_stored [OF assms(5,7,6)] by blast
  show "allStored (es @ Called EnqueueBatch [obj [(''messages'', JArr (map outboxMessage ps))], tx] r # fs @ gs) tx"
    by (rule allStored_call [OF assms(5)]) (use assms(2-4) in auto)
qed

lemmas verified_calls_first = verified_calls [where es = "[]", simplified]

lemma wp_enqueueRequired:
  assumes clock: "silent {EnqueueBatch} clock" and "sealedFrom ps"
  shows "wp (enqueueRequired c clock tx ps) (requiredStored s tx ps) (\<lambda>_. False) s"
  unfolding enqueueRequired_def
proof (intro wp_decide wp_silent_bind [OF clock] wp_optionI wp_enqueue_bind wp_sumI wp_retI
    wp_silent_bind [OF silent_verify [of "{EnqueueBatch}"]]; (unfold requiredStored_simps)?)
qed (auto intro: refusal_storeFailed enqueueAnswer_failure(1) verified_calls [OF _ _ _ _ _ _ assms(2)] simp: storedSince_def [of _ _ "[]"])

text \<open>The best-effort effects: each one stored or failed, and stored under a transaction.\<close>

definition failedFrom :: "preparedEffect list \<Rightarrow> jsv \<Rightarrow> bool" where
  "failedFrom ps f \<longleftrightarrow> (\<exists>p \<in> set ps. \<exists>r ds. f = failedItem (itemIndex p) r ds \<and> isSafeReason r \<and> safeDetails ds)"

definition itemsStored :: "effectsEvent list \<Rightarrow> jsv \<Rightarrow> preparedEffect list \<Rightarrow> jsv list \<Rightarrow> 'w effectsState \<Rightarrow> bool" where
  "itemsStored cs tx ps items t \<longleftrightarrow> (\<exists>es. calls t = cs @ es
     \<and> (\<forall>v \<in> set items. \<exists>p \<in> set ps. v = dispatchItem (itemIndex p) \<and> storedIn es tx p)
     \<and> (truthy tx \<longrightarrow> allStored es tx))"

lemma itemsStored_all: "storedSince cs tx ps t \<Longrightarrow> itemsStored cs tx ps (map (\<lambda>p. dispatchItem (itemIndex p)) ps) t"
  unfolding storedSince_def itemsStored_def by auto

lemma itemsStored_none: "calls t = cs @ es \<Longrightarrow> \<not> truthy tx \<Longrightarrow> itemsStored cs tx ps [] t"
  by (simp add: itemsStored_def)

definition bestEffortStored ::
  "'w effectsState \<Rightarrow> jsv \<Rightarrow> preparedEffect list \<Rightarrow> jsv + (jsv list \<times> jsv list) \<Rightarrow> 'w effectsState \<Rightarrow> bool" where
  "bestEffortStored s tx ps res t \<longleftrightarrow> (case res of Inl answer \<Rightarrow> refusal answer
     | Inr (items, failed) \<Rightarrow> mset (map indexOf (items @ failed)) = mset (map itemIndex ps)
         \<and> (\<forall>f \<in> set failed. failedFrom ps f)
         \<and> itemsStored (calls s) tx ps items t)"

lemma bestEffortStored_simps:
  "bestEffortStored s tx ps (Inl answer) t \<longleftrightarrow> refusal answer"
  "bestEffortStored s tx ps (Inr (items, failed)) t \<longleftrightarrow> mset (map indexOf (items @ failed)) = mset (map itemIndex ps)
         \<and> (\<forall>f \<in> set failed. failedFrom ps f)
         \<and> itemsStored (calls s) tx ps items t"
  by (simp_all add: bestEffortStored_def)

lemma failedFrom_item: "p \<in> set ps \<Longrightarrow> isSafeReason r \<Longrightarrow> safeDetails ds \<Longrightarrow> failedFrom ps (failedItem (itemIndex p) r ds)"
  unfolding failedFrom_def by blast

lemma failedFrom_mono: "failedFrom ps f \<Longrightarrow> set ps \<subseteq> set qs \<Longrightarrow> failedFrom qs f"
  unfolding failedFrom_def by blast

lemma failedFrom_refused:
  assumes "enqueueAnswer sent r = Inl failure" and "p \<in> set ps"
  shows "failedFrom ps (storeFailedItem failure p)"
  unfolding storeFailedItem_def
  using enqueueAnswer_failure [OF assms(1)] assms(2)
  by (intro failedFrom_item) (auto simp: safeDetails_def given_def simp del: isSafeReason.simps fld.simps fld_obj)

lemma safe_reasons: "isSafeReason (JStr ''STORE_UNAVAILABLE'')" "isSafeReason (JStr ''SIDE_EFFECT_FAILED'')" "safeDetails []"
  by (code_simp, code_simp, simp add: safeDetails_def)

lemma indexOf_maps:
  "map indexOf (map (\<lambda>p. dispatchItem (itemIndex p)) ps) = map itemIndex ps"
  "map indexOf (map (\<lambda>p. failedItem (itemIndex p) r ds) ps) = map itemIndex ps"
  "map indexOf (map (\<lambda>p. notDispatched (itemIndex p)) ps) = map itemIndex ps"
  "map indexOf (map (storeFailedItem failure) ps) = map itemIndex ps"
  by (simp_all add: notDispatched_def storeFailedItem_def)

lemma wp_storeBestEffort:
  assumes clock: "silent {EnqueueBatch} clock" and "sealedFrom ps"
  shows "wp (storeBestEffort c clock tx ps) (bestEffortStored s tx ps) (\<lambda>_. False) s"
  unfolding storeBestEffort_def
proof (intro wp_decide wp_silent_bind [OF clock] wp_optionI wp_enqueue_bind wp_sumI wp_retI
    wp_silent_bind [OF silent_verify [of "{EnqueueBatch}"]]; (unfold bestEffortStored_simps)?)
qed (auto simp: indexOf_maps simp del: map_map isSafeReason.simps intro: refusal_storeFailed enqueueAnswer_failure(1) failedFrom_refused
    failedFrom_item safe_reasons itemsStored_none itemsStored_all verified_calls_first [OF _ _ _ _ _ assms(2)])


lemma live_filter:
  "distinct (map f xs) \<Longrightarrow> filter (\<lambda>x. f x \<notin> set (map f (filter P xs))) xs = filter (\<lambda>x. \<not> P x) xs"
  by (rule filter_cong) (auto simp: distinct_map inj_on_def)

text \<open>What came before the calls of \<open>m\<close> and failed before stays.\<close>

lemma bestEffortStored_live:
  assumes "bestEffortStored s1 tx (filter (\<lambda>p. \<not> P p) ps) (Inr (items, refused)) t"
    and "calls s1 = calls s @ es" and "\<forall>e \<in> set es. calledPort e \<noteq> EnqueueBatch"
  shows "bestEffortStored s tx ps (Inr (items, map (\<lambda>p. notDispatched (itemIndex p)) (filter P ps) @ refused)) t"
proof -
  let ?expired = "filter P ps" and ?live = "filter (\<lambda>p. \<not> P p) ps"
  note live = assms(1) [unfolded bestEffortStored_simps]
  from live obtain fs where fs: "calls t = calls s1 @ fs" "truthy tx \<longrightarrow> allStored fs tx"
    "\<forall>v \<in> set items. \<exists>p \<in> set ?live. v = dispatchItem (itemIndex p) \<and> storedIn fs tx p"
    unfolding itemsStored_def by blast
  have "itemsStored (calls s) tx ps items t"
    unfolding itemsStored_def
  proof (intro exI [of _ "es @ fs"] conjI)
    show "calls t = calls s @ es @ fs" using fs(1) assms(2) by simp
    show "\<forall>v \<in> set items. \<exists>p \<in> set ps. v = dispatchItem (itemIndex p) \<and> storedIn (es @ fs) tx p"
      using fs(3) storedIn_append(2) by fastforce
    show "truthy tx \<longrightarrow> allStored (es @ fs) tx" using fs(2) assms(3) by (simp add: allStored_silent)
  qed
  moreover have "\<forall>f \<in> set (map (\<lambda>p. notDispatched (itemIndex p)) ?expired @ refused). failedFrom ps f"
    using live failedFrom_mono [of ?live _ ps] failedFrom_item [of _ ps, OF _ safe_reasons(2,3)]
    by (auto simp: notDispatched_def)
  moreover have "mset (map indexOf (items @ map (\<lambda>p. notDispatched (itemIndex p)) ?expired @ refused)) = mset (map itemIndex ps)"
  proof -
    have ps: "image_mset itemIndex (mset ps) = image_mset itemIndex {#x \<in># mset ps. \<not> P x#} + image_mset itemIndex (filter_mset P (mset ps))"
      by (induction ps) auto
    have "image_mset itemIndex {#x \<in># mset ps. \<not> P x#} = image_mset indexOf (mset items) + image_mset indexOf (mset refused)"
      using live by simp
    then show ?thesis by (simp add: ps notDispatched_def image_mset.compositionality o_def ac_simps)
  qed
  ultimately show ?thesis unfolding bestEffortStored_simps by blast
qed

lemma bestEffortStored_refused [simp]: "bestEffortStored s tx ps (Inl answer) t \<longleftrightarrow> refusal answer"
  by (rule bestEffortStored_simps(1))

lemma wp_enqueueBestEffort:
  fixes s :: "'w effectsState"
  assumes clock: "silent {EnqueueBatch} clock" and sealed: "sealedFrom ps" and ids: "distinct (map itemIndex ps)"
  shows "wp (enqueueBestEffort c clock tx ps) (bestEffortStored s tx ps) (\<lambda>_. False) s"
  unfolding enqueueBestEffort_def
proof (intro wp_decide wp_silent_bind [OF clock] wp_optionI wp_retI)
  assume "ps = []"
  then show "bestEffortStored s tx ps (Inr ([], [])) s" by (simp add: bestEffortStored_simps itemsStored_def)
next
  fix x es and t :: "'w effectsState" assume "calls t = calls s @ es"
  show "bestEffortStored s tx ps (Inl sideEffectFailed) t" by simp
next
  fix x es at and t :: "'w effectsState" assume es: "calls t = calls s @ es" "\<forall>e \<in> set es. calledPort e \<notin> {EnqueueBatch}"
  let ?over = "\<lambda>p. overAt (preparedFrom p) at"
  note live = live_filter [OF ids, of ?over]
  have start: "bestEffortStored t tx (filter (\<lambda>p. \<not> ?over p) ps) (Inr ([], [])) t" if "filter (\<lambda>p. \<not> ?over p) ps = []"
    using that by (simp add: bestEffortStored_simps itemsStored_def)
  have sealed': "sealedFrom (filter (\<lambda>p. \<not> ?over p) ps)" using sealed by (auto simp: sealedFrom_def)
  show "wp (let expired = filter ?over ps; live = filter (\<lambda>p. itemIndex p \<notin> set (map itemIndex expired)) ps;
              failed = map (\<lambda>p. notDispatched (itemIndex p)) expired in
          if live = [] then ret (Inr ([], failed))
          else bindM (storeBestEffort c clock tx live) (\<lambda>stored. ret (case stored of
            Inl answer \<Rightarrow> Inl answer
          | Inr (items, refused) \<Rightarrow> Inr (items, failed @ refused)))) (bestEffortStored s tx ps) (\<lambda>_. False) t"
    unfolding Let_def live
  proof (intro wp_decide wp_retI wp_follow [OF wp_storeBestEffort [OF clock sealed']])
    assume "filter (\<lambda>p. \<not> ?over p) ps = []"
    from bestEffortStored_live [OF start [OF this] es(1)] es(2)
    show "bestEffortStored s tx ps (Inr ([], map (\<lambda>p. notDispatched (itemIndex p)) (filter ?over ps))) t" by simp
  next
    fix stored u assume "bestEffortStored t tx (filter (\<lambda>p. \<not> ?over p) ps) stored u"
    with bestEffortStored_live [OF _ es(1)] es(2)
    show "bestEffortStored s tx ps (case stored of Inl answer \<Rightarrow> Inl answer
        | Inr (items, refused) \<Rightarrow> Inr (items, map (\<lambda>p. notDispatched (itemIndex p)) (filter ?over ps) @ refused)) u"
      by (auto split: sum.split prod.split)
  qed
qed


section \<open>The operation\<close>

text \<open>What a successful answer says: every effect is accounted for, and the deferred ones are stored.\<close>

definition effectStored :: "'w outboxEffects \<Rightarrow> jsv \<Rightarrow> jsv \<Rightarrow> effectsEvent list \<Rightarrow> jsv \<Rightarrow> bool" where
  "effectStored c context tx es effect \<longleftrightarrow> (\<exists>p. preparedFor c context effect p \<and> storedIn es tx p)"

definition deferredStored ::
  "'w outboxEffects \<Rightarrow> jsv \<Rightarrow> jsv list \<Rightarrow> jsv \<Rightarrow> effectsEvent list \<Rightarrow> jsv list \<Rightarrow> bool" where
  "deferredStored c context effects tx es items \<longleftrightarrow>
     (\<forall>i < length effects. dispatchItem i \<in> set items \<longrightarrow> effectStored c context tx es (effects ! i))"

definition dispatchedWell ::
  "'w outboxEffects \<Rightarrow> jsv \<Rightarrow> jsv list \<Rightarrow> jsv \<Rightarrow> 'w effectsState \<Rightarrow> jsv \<Rightarrow> 'w effectsState \<Rightarrow> bool" where
  "dispatchedWell c context effects tx s r t \<longleftrightarrow> refusal r
     \<or> (\<exists>items failed es. r = deferredAnswer items failed \<and> accountOf effects items failed \<and> calls t = calls s @ es
          \<and> deferredStored c context effects tx es items \<and> (truthy tx \<longrightarrow> allStored es tx))"

lemma preparedOf_sealed: "\<forall>p \<in> set ps. preparedOf c context effects p \<Longrightarrow> sealedFrom ps"
  by (auto simp: sealedFrom_def preparedOf_def preparedFor_def newOutboxMessage_def)

lemma preparedOf_policy:
  assumes "preparedOf c context effects p"
  shows "isRequired (preparedFrom p) \<noteq> isBestEffort (preparedFrom p)"
    and "isBestEffort (preparedFrom p) \<Longrightarrow> fld (effects ! itemIndex p) ''dispatchPolicy'' = JStr ''best-effort''"
proof -
  from assms have effect: "snapshotDeliveryEffect (effects ! itemIndex p) = Some (preparedFrom p)" by (simp add: preparedOf_def preparedFor_def)
  from snapshotDeliveryEffect_effect [OF this] show "isRequired (preparedFrom p) \<noteq> isBestEffort (preparedFrom p)"
    by (auto simp: isOutboxDeliveryEffect_def isRequired_def isBestEffort_def simp del: fld.simps fld_obj)
  show "isBestEffort (preparedFrom p) \<Longrightarrow> fld (effects ! itemIndex p) ''dispatchPolicy'' = JStr ''best-effort''"
    using fld_snapshotDeliveryEffect(1) [OF effect] by (simp add: isBestEffort_def del: fld.simps fld_obj)
qed

lemma distinct_filtered: "distinct (map f xs @ ys) \<Longrightarrow> distinct (map f (filter P xs))"
  by (simp add: distinct_map_filter)

lemma storedAccount:
  assumes prepared: "\<forall>p \<in> set ps. preparedOf c context effects p" "\<forall>f \<in> set fs. failedOf effects f"
    and ids: "distinct (map itemIndex ps @ map indexOf fs)" "set (map itemIndex ps @ map indexOf fs) = {0 ..< length effects}"
    and required: "requiredStored s tx (filter (\<lambda>p. isRequired (preparedFrom p)) ps) (Inr items) s1"
    and best: "bestEffortStored s1 tx (filter (\<lambda>p. isBestEffort (preparedFrom p)) ps) (Inr (items', failed')) t"
  shows "dispatchedWell c context effects tx s (deferredAnswer (items @ items') (fs @ failed')) t"
proof -
  let ?R = "filter (\<lambda>p. isRequired (preparedFrom p)) ps" and ?B = "filter (\<lambda>p. isBestEffort (preparedFrom p)) ps"
  note policy = preparedOf_policy [OF prepared(1) [rule_format]]
  from required obtain es where es: "calls s1 = calls s @ es" "\<forall>p \<in> set ?R. storedIn es tx p" "allStored es tx"
    and items: "items = map (\<lambda>p. dispatchItem (itemIndex p)) ?R"
    by (auto simp: requiredStored_simps storedSince_def)
  note best = best [unfolded bestEffortStored_simps]
  from best obtain fs' where fs': "calls t = calls s1 @ fs'" "truthy tx \<longrightarrow> allStored fs' tx"
    and items': "\<forall>v \<in> set items'. \<exists>p \<in> set ?B. v = dispatchItem (itemIndex p) \<and> storedIn fs' tx p"
    unfolding itemsStored_def by blast
  have stored: "\<forall>v \<in> set (items @ items'). \<exists>p \<in> set ps. v = dispatchItem (itemIndex p) \<and> storedIn (es @ fs') tx p"
    using es(2) items items' storedIn_append by fastforce
  have "mset (map indexOf ((items @ items') @ fs @ failed')) = mset (map itemIndex ps @ map indexOf fs)"
  proof -
    have "filter (\<lambda>p. isBestEffort (preparedFrom p)) ps = filter (\<lambda>p. \<not> isRequired (preparedFrom p)) ps"
      using policy(1) by (intro filter_cong) auto
    then have "mset (map indexOf (items' @ failed')) = image_mset itemIndex {#p \<in># mset ps. \<not> isRequired (preparedFrom p)#}"
      using best by simp
    moreover have "image_mset itemIndex (mset ps) = image_mset itemIndex {#p \<in># mset ps. isRequired (preparedFrom p)#}
        + image_mset itemIndex {#p \<in># mset ps. \<not> isRequired (preparedFrom p)#}"
      by (induction ps) auto
    moreover have "mset (map indexOf items) = image_mset itemIndex {#p \<in># mset ps. isRequired (preparedFrom p)#}"
      unfolding items indexOf_maps by simp
    ultimately show ?thesis by (simp add: ac_simps)
  qed
  then have "distinct (map indexOf ((items @ items') @ fs @ failed'))"
    and "set (map indexOf ((items @ items') @ fs @ failed')) = {..<length effects}"
    using ids mset_eq_imp_distinct_iff mset_eq_setD by (metis, metis lessThan_atLeast0)
  moreover have "\<forall>v \<in> set (items @ items'). itemOf effects v"
    using stored prepared(1) by (fastforce simp: itemOf_def preparedOf_def)
  moreover have "\<forall>f \<in> set failed'. failedOf effects f"
  proof
    fix f assume "f \<in> set failed'"
    with best obtain p r ds where "p \<in> set ?B" "f = failedItem (itemIndex p) r ds" "isSafeReason r" "safeDetails ds"
      unfolding failedFrom_def by blast
    then show "failedOf effects f"
      using policy(2) prepared(1) unfolding failedOf_def preparedOf_def by fastforce
  qed
  ultimately have "accountOf effects (items @ items') (fs @ failed')"
    using prepared(2) unfolding accountOf_def by (metis Un_iff set_append)
  moreover have "deferredStored c context effects tx (es @ fs') (items @ items')"
    unfolding deferredStored_def
  proof (intro allI impI)
    fix i assume "dispatchItem i \<in> set (items @ items')"
    with stored obtain p where p: "p \<in> set ps" "dispatchItem i = dispatchItem (itemIndex p)" "storedIn (es @ fs') tx p" by blast
    then have "itemIndex p = i" by (simp add: dispatchItem_def)
    with p prepared(1) show "effectStored c context tx (es @ fs') (effects ! i)"
      unfolding effectStored_def preparedOf_def by blast
  qed
  moreover have "calls t = calls s @ es @ fs'" and "truthy tx \<longrightarrow> allStored (es @ fs') tx"
    using es fs' by simp_all
  ultimately show ?thesis unfolding dispatchedWell_def by blast
qed

lemma wp_storeEffects:
  assumes clock: "silent {EnqueueBatch} clock"
    and prepared: "\<forall>p \<in> set ps. preparedOf c context effects p" "\<forall>f \<in> set fs. failedOf effects f"
    and ids: "distinct (map itemIndex ps @ map indexOf fs)" "set (map itemIndex ps @ map indexOf fs) = {0 ..< length effects}"
  shows "wp (storeEffects c clock tx ps fs) (dispatchedWell c context effects tx s) (\<lambda>_. False) s"
proof -
  have sealed: "sealedFrom (filter P ps)" for P using prepared(1) by (intro preparedOf_sealed) auto
  have refused: "refusal r \<Longrightarrow> dispatchedWell c context effects tx s r t" for r t by (simp add: dispatchedWell_def)
  show ?thesis
    unfolding storeEffects_def
    by (intro wp_follow [OF wp_enqueueRequired [OF clock sealed]] wp_follow [OF wp_enqueueBestEffort [OF clock sealed distinct_filtered [OF ids(1)]]]
        wp_sumI wp_prodI wp_retI)
      (auto simp: requiredStored_simps(1) intro: refused storedAccount [OF prepared ids])
qed

lemma wp_dispatchToOutbox:
  assumes "snapshotOutboxDispatch input = Some d" and "normalizeDispatchContext (dispatchContext d) = Some context"
  shows "wp (dispatchToOutbox c input)
    (dispatchedWell c context (dispatchEffects d) (case dispatchTx d of None \<Rightarrow> JUndef | Some (tx, covers) \<Rightarrow> tx) s) (\<lambda>_. False) s"
    (is "wp _ (?Q s) _ s")
proof -
  have refused: "refusal r \<Longrightarrow> ?Q s r t" for r t by (simp add: dispatchedWell_def)
  have later: "?Q u r t \<Longrightarrow> calls u = calls s @ es \<Longrightarrow> \<forall>e \<in> set es. calledPort e \<notin> {EnqueueBatch} \<Longrightarrow> ?Q s r t" for u r t es
    unfolding dispatchedWell_def deferredStored_def effectStored_def
    by (elim disjE exE conjE) (blast, rule disjI2, force intro: storedIn_append allStored_silent)
  have stored: "wp (storeEffects c clock tx ps fs) (dispatchedWell c context (dispatchEffects d) tx u) (\<lambda>_. False) u"
    if "prepareEffects c clock context now 0 (dispatchEffects d) u' = (Ret (Some (ps, fs)), u)" and "silent {EnqueueBatch} clock"
    for clock now tx ps fs u u'
    using prepareEffects_result [of c clock "context" now "[]" "dispatchEffects d" u' ps fs u] that
    by (intro wp_storeEffects) auto
  show ?thesis
    unfolding dispatchToOutbox_def assms option.case Let_def
  proof (intro wp_decide wp_retI wp_silent_bind [OF silent_startClock [of "{EnqueueBatch}"]]
      wp_silent_bind [OF silent_prepareEffects [OF silent_dispatchClock [of "{EnqueueBatch}"]]] wp_optionI wp_prodI)
    fix startedAt t es prepared u fs a ps failed
    assume t: "calls t = calls s @ es" "\<forall>e \<in> set es. calledPort e \<notin> {EnqueueBatch}"
      and u: "calls u = calls t @ fs" "\<forall>e \<in> set fs. calledPort e \<notin> {EnqueueBatch}"
      and run: "prepareEffects c (dispatchClock (env c) (date_ms (dispatchNow d)) startedAt) context (dispatchNow d) 0 (dispatchEffects d) t = (Ret prepared, u)"
      and "prepared = Some a" "a = (ps, failed)"
    then have run: "prepareEffects c (dispatchClock (env c) (date_ms (dispatchNow d)) startedAt) context (dispatchNow d) 0 (dispatchEffects d) t
        = (Ret (Some (ps, failed)), u)" by simp
    have "wp (storeEffects c (dispatchClock (env c) (date_ms (dispatchNow d)) startedAt)
        (case dispatchTx d of None \<Rightarrow> JUndef | Some (tx, covers) \<Rightarrow> tx) ps failed) (?Q u) (\<lambda>_. False) u"
      by (rule stored [OF run silent_dispatchClock]) simp
    then show "wp (storeEffects c (dispatchClock (env c) (date_ms (dispatchNow d)) startedAt)
        (case dispatchTx d of None \<Rightarrow> JUndef | Some (tx, covers) \<Rightarrow> tx) ps failed) (?Q s) (\<lambda>_. False) u"
      by (rule wp_mono) (use t u in \<open>auto intro!: later [where es = "es @ fs"]\<close>)
  qed (simp_all add: refused)
qed

end
