(* ===== verification/SyncDelivery.thy ===== *)
theory SyncDelivery
  imports EffectsCalls
begin

text \<open>
  \<open>packages/effects-sync-delivery\<close>: the dispatcher that delivers effects at once, in the order of
  the input (\<open>dispatcher/create-sync-delivery-effects.ts\<close>, \<open>dispatcher/validation.ts\<close>,
  \<open>delivery/validation.ts\<close>, \<open>delivery/send.ts\<close>). The context is copied as in the outbox worker,
  the clock is the one of \<open>EffectsCalls\<close>.
\<close>

section \<open>Checks\<close>

text \<open>\<open>createSyncDeliveryEffects\<close> throws when this is false.\<close>

definition syncOptionsOk :: "jsv \<Rightarrow> bool" where
  "syncOptionsOk options =
     (truthy options \<and> hasFunction (fld options ''transport'') ''send''
      \<and> (fld options ''now'' = JUndef \<or> hasFunction options ''now''))"

definition snapshotSyncInput :: "jsv \<Rightarrow> (jsv \<times> jsv list \<times> jsv) option" where
  "snapshotSyncInput input =
     (if \<not> isRecord input \<or> \<not> is_arr (fld input ''effects'') \<or> 1000 < length (arr_elems (fld input ''effects''))
         \<or> \<not> isValidDate (fld input ''now'') then None
      else Some (fld input ''context'', map read_elem (arr_elems (fld input ''effects'')), fld input ''now''))"

text \<open>The entries of the data, which share one budget of texts and nodes; a raw secret costs none.\<close>

fun syncDataEntries :: "(string \<times> jsv) list \<Rightarrow> traversal \<Rightarrow> bool" where
  "syncDataEntries [] st = True"
| "syncDataEntries ((key, item) # kvs) st =
     (case consumeText (JStr key) 512 st of
        None \<Rightarrow> False
      | Some st1 \<Rightarrow>
          if key = '''' then False
          else if isEffectRawSecret item then syncDataEntries kvs st1
          else case isJsonValue item 0 st1 of None \<Rightarrow> False | Some st2 \<Rightarrow> syncDataEntries kvs st2)"

definition isSyncDeliveryData :: "jsv \<Rightarrow> bool" where
  "isSyncDeliveryData v = (isPlainObject v \<and> syncDataEntries (obj_entries v) start_traversal)"

definition isSyncDeliveryMessage :: "jsv \<Rightarrow> bool" where
  "isSyncDeliveryMessage v =
     (isPlainObject v \<and> isPlainObject (fld v ''to'')
      \<and> hasOnlyKeys v messageKeys \<and> hasOnlyKeys (fld v ''to'') addressKeys
      \<and> isSafeText (fld (fld v ''to'') ''channel'') 64 True
      \<and> isSafeText (fld (fld v ''to'') ''target'') 2048 True
      \<and> (fld (fld v ''to'') ''display'' = JUndef \<or> isSafeText (fld (fld v ''to'') ''display'') 512 False)
      \<and> isSafeText (fld v ''templateId'') 256 True
      \<and> (fld v ''locale'' = JUndef \<or> isSafeText (fld v ''locale'') 128 True)
      \<and> (fld v ''data'' = JUndef \<or> isSyncDeliveryData (fld v ''data''))
      \<and> (fld v ''metadata'' = JUndef \<or> workerJsonObject (fld v ''metadata'')))"

definition isSyncDeliveryEffect :: "jsv \<Rightarrow> bool" where
  "isSyncDeliveryEffect v =
     (isPlainObject v \<and> hasOnlyKeys v effectKeys
      \<and> fld v ''type'' = JStr ''delivery''
      \<and> (fld v ''dispatchPolicy'' = JStr ''required'' \<or> fld v ''dispatchPolicy'' = JStr ''best-effort'')
      \<and> isSyncDeliveryMessage (fld v ''message'')
      \<and> (if fld v ''idempotencyKey'' = JUndef then fld v ''dispatchPolicy'' = JStr ''best-effort''
         else isSafeText (fld v ''idempotencyKey'') 512 True)
      \<and> (fld v ''expiresAt'' = JUndef \<or> isValidDate (fld v ''expiresAt'')))"

section \<open>Copies\<close>

text \<open>\<open>Object.entries\<close> of any value: strings and arrays have their indices as keys.\<close>

fun objectEntries :: "jsv \<Rightarrow> (string \<times> jsv) list" where
  "objectEntries (JStr s) = map (\<lambda>(i, c). (js_string_of_nat i, JStr [c])) (enumerate 0 s)"
| "objectEntries (JArr xs) =
     map (\<lambda>(i, x). (js_string_of_nat i, x)) (filter (\<lambda>(i, x). x \<noteq> JHole) (enumerate 0 xs))"
| "objectEntries v = obj_entries v"

text \<open>
  The copy of a raw secret and the characters used so far; the outer \<open>None\<close> is a throw, the inner
  one the result \<open>undefined\<close>.
\<close>

definition snapshotSyncSecret :: "jsv \<Rightarrow> nat \<Rightarrow> (jsv option \<times> nat) option" where
  "snapshotSyncSecret v budget =
     (if \<not> isRecord v \<or> fld v ''type'' \<noteq> JStr ''raw-secret'' then Some (None, budget)
      else case call_thunk (fld v ''reveal'') of
        Some (JStr revealed) \<Rightarrow>
          if revealed = '''' \<or> 1000000 < budget + length revealed then None
          else Some (Some (obj [(''type'', JStr ''raw-secret''), (''redacted'', redacted_text),
                 (''reveal'', JFun (Some (JStr revealed))), (''toJSON'', JFun (Some redacted_text))]),
               budget + length revealed)
      | _ \<Rightarrow> None)"

fun snapshotSyncEntries :: "(string \<times> jsv) list \<Rightarrow> nat \<Rightarrow> (string \<times> jsv) list option" where
  "snapshotSyncEntries [] budget = Some []"
| "snapshotSyncEntries ((key, v) # kvs) budget =
     (case snapshotSyncSecret v budget of
        None \<Rightarrow> None
      | Some (secret, budget') \<Rightarrow>
          (case (case secret of Some s \<Rightarrow> Some s | None \<Rightarrow> structuredClone v) of
             None \<Rightarrow> None
           | Some copy \<Rightarrow> map_option (\<lambda>rest. (key, copy) # rest) (snapshotSyncEntries kvs budget')))"

definition snapshotSyncData :: "jsv \<Rightarrow> jsv option" where
  "snapshotSyncData data =
     (if \<not> truthy data then Some JUndef else map_option obj (snapshotSyncEntries (objectEntries data) 0))"

text \<open>\<open>None\<close> for \<open>undefined\<close> and for a throw, which \<open>dispatch\<close> catches.\<close>

definition snapshotSyncEffect :: "jsv \<Rightarrow> jsv option" where
  "snapshotSyncEffect effect =
     (let source = fld effect ''message''; to = fld source ''to'' in
      if \<not> isPlainObject effect \<or> \<not> isPlainObject source \<or> \<not> isPlainObject to then None
      else case (snapshotSyncData (fld source ''data''), cloneOptional (fld source ''metadata'')) of
        (Some data, Some metadata) \<Rightarrow>
          let snapshot = obj [(''type'', JStr ''delivery''), (''dispatchPolicy'', fld effect ''dispatchPolicy''),
                (''idempotencyKey'', fld effect ''idempotencyKey''), (''expiresAt'', fld effect ''expiresAt''),
                (''message'', obj [(''to'', obj [(''channel'', fld to ''channel''), (''target'', fld to ''target''),
                     (''display'', fld to ''display'')]), (''templateId'', fld source ''templateId''), (''data'', data),
                   (''locale'', fld source ''locale''), (''metadata'', metadata)])]
          in if fld effect ''type'' = JStr ''delivery'' \<and> isSyncDeliveryEffect snapshot then Some snapshot else None
      | _ \<Rightarrow> None)"

section \<open>Sending\<close>

definition syncDeliveryFailure :: jsv where
  "syncDeliveryFailure = obj [(''ok'', JBool False), (''error'', obj [(''type'', JStr ''component.failure''),
     (''component'', JStr ''delivery''), (''reason'', JStr ''DELIVERY_FAILED'')])]"

definition isObject :: "jsv \<Rightarrow> bool" where
  "isObject v = (isRecord v \<or> is_arr v)"

text \<open>\<open>safeSend\<close>, on what \<open>transport.send\<close> answered.\<close>

definition syncSend :: "jsv outcome \<Rightarrow> jsv" where
  "syncSend answer =
     (case answer of
        Throw \<Rightarrow> syncDeliveryFailure
      | Ret result \<Rightarrow>
          let value = fld result ''value''; error = fld result ''error'' in
          if fld result ''ok'' = JBool True \<and> isObject value then
            if \<not> isValidDate (fld value ''acceptedAt'')
               \<or> (fld value ''providerMessageId'' \<noteq> JUndef \<and> \<not> isSafeText (fld value ''providerMessageId'') 512 True)
            then syncDeliveryFailure
            else obj [(''ok'', JBool True), (''value'', obj [(''acceptedAt'', fld value ''acceptedAt''),
                   (''providerMessageId'', fld value ''providerMessageId'')])]
          else if fld result ''ok'' = JBool False \<and> isObject error then
            (case cloneOptional (fld error ''details'') of
               None \<Rightarrow> syncDeliveryFailure
             | Some details \<Rightarrow>
                 if isSafeText (fld error ''reason'') 512 True \<and> (details = JUndef \<or> workerJsonObject details)
                 then obj [(''ok'', JBool False), (''error'', obj [(''type'', JStr ''component.failure''),
                        (''component'', JStr ''delivery''), (''reason'', fld error ''reason''), (''details'', details)])]
                 else syncDeliveryFailure)
          else syncDeliveryFailure)"

section \<open>Dispatch\<close>

text \<open>\<open>effectsFailure(reason, details)\<close>\<close>

definition effectsFailure :: "jsv \<Rightarrow> jsv \<Rightarrow> jsv" where
  "effectsFailure reason details = obj [(''ok'', JBool False), (''error'', obj [(''type'', JStr ''component.failure''),
     (''component'', JStr ''effects''), (''reason'', reason), (''details'', details)])]"

definition syncFailed :: jsv where
  "syncFailed = effectsFailure (JStr ''SIDE_EFFECT_FAILED'') JUndef"

text \<open>The first loop: what can be delivered and what has failed; \<open>None\<close> is the early return.\<close>

fun deliverableEffects :: "jsv \<Rightarrow> nat \<Rightarrow> jsv list \<Rightarrow> ((nat \<times> jsv) list \<times> jsv list) option" where
  "deliverableEffects now index [] = Some ([], [])"
| "deliverableEffects now index (effect # rest) =
     (case (case snapshotSyncEffect effect of
              None \<Rightarrow> None
            | Some snapshot \<Rightarrow> if overAt snapshot now then None else Some snapshot) of
        Some snapshot \<Rightarrow>
          map_option (\<lambda>(ds, fs). ((index, snapshot) # ds, fs)) (deliverableEffects now (Suc index) rest)
      | None \<Rightarrow>
          if fld effect ''dispatchPolicy'' \<noteq> JStr ''best-effort'' then None
          else map_option (\<lambda>(ds, fs). (ds, notDispatched index # fs)) (deliverableEffects now (Suc index) rest))"

definition sendInput :: "jsv \<Rightarrow> jsv \<Rightarrow> jsv \<Rightarrow> jsv" where
  "sendInput context effect deliveryNow =
     obj ([(''context'', context), (''message'', fld effect ''message''), (''idempotencyKey'', fld effect ''idempotencyKey'')]
       @ given ''expiresAt'' (fld effect ''expiresAt'') @ [(''now'', deliveryNow)])"

text \<open>One delivery: an early return, a dispatched item or a failed one.\<close>

datatype delivery = Abandoned jsv | Delivered jsv | NotDelivered jsv

definition deliverEffect ::
  "'w effectsEnv \<Rightarrow> (('w, jsv option) effecting) \<Rightarrow> jsv \<Rightarrow> nat \<Rightarrow> jsv \<Rightarrow> ('w, delivery) effecting" where
  "deliverEffect e clock context index effect =
     bindM clock (\<lambda>deliveryNow. case deliveryNow of
       None \<Rightarrow> ret (Abandoned syncFailed)
     | Some now \<Rightarrow>
         if overAt effect now then ret (if isRequired effect then Abandoned syncFailed else NotDelivered (notDispatched index))
         else bindM (request e SendMessage [sendInput context effect now]) (\<lambda>answer.
           let result = syncSend answer; error = fld result ''error'' in
           ret (if truthy (fld result ''ok'') then Delivered (dispatchItem index)
                else if isRequired effect then Abandoned (effectsFailure (fld error ''reason'') (fld error ''details''))
                else NotDelivered (failedItem index (fld error ''reason'') [(''details'', fld error ''details'')]))))"

fun deliverEffects ::
  "'w effectsEnv \<Rightarrow> (('w, jsv option) effecting) \<Rightarrow> jsv \<Rightarrow> (nat \<times> jsv) list \<Rightarrow> ('w, jsv + (jsv list \<times> jsv list)) effecting" where
  "deliverEffects e clock context [] = ret (Inr ([], []))"
| "deliverEffects e clock context ((index, effect) # rest) =
     bindM (deliverEffect e clock context index effect) (\<lambda>d. case d of
       Abandoned answer \<Rightarrow> ret (Inl answer)
     | Delivered item \<Rightarrow> bindM (deliverEffects e clock context rest)
         (\<lambda>r. ret (map_sum id (\<lambda>(items, failed). (item # items, failed)) r))
     | NotDelivered item \<Rightarrow> bindM (deliverEffects e clock context rest)
         (\<lambda>r. ret (map_sum id (\<lambda>(items, failed). (items, item # failed)) r)))"

definition dispatchedAnswer :: "jsv list \<Rightarrow> jsv list \<Rightarrow> jsv" where
  "dispatchedAnswer dispatched failed = obj [(''ok'', JBool True),
     (''value'', obj [(''dispatched'', JArr dispatched), (''failed'', failedList failed)])]"

definition dispatchSync :: "'w effectsEnv \<Rightarrow> jsv \<Rightarrow> ('w, jsv) effecting" where
  "dispatchSync e input =
     (case snapshotSyncInput input of
        None \<Rightarrow> ret syncFailed
      | Some (contextSource, effects, now) \<Rightarrow>
          (case normalizeDispatchContext contextSource of
             None \<Rightarrow> ret syncFailed
           | Some context \<Rightarrow>
               bindM (startClock e (date_ms now)) (\<lambda>startedAt.
               (case deliverableEffects now 0 effects of
                  None \<Rightarrow> ret syncFailed
                | Some (deliverable, failed) \<Rightarrow>
                    bindM (deliverEffects e (dispatchClock e (date_ms now) startedAt) context deliverable) (\<lambda>delivered.
                      ret (case delivered of
                        Inl answer \<Rightarrow> answer
                      | Inr (items, failed') \<Rightarrow> dispatchedAnswer items (failed @ failed')))))))"

end
