(* ===== verification/SyncDeliveryRuns.thy ===== *)
theory SyncDeliveryRuns
  imports SyncDelivery DispatchAccounts "HOL-Library.Multiset" "HOL-Library.Sublist"
begin

text \<open>
  What a synchronous dispatch has delivered: its calls of the transport are one for each effect it
  tried, in the order of the input, and its answer tells which of them were confirmed.
\<close>

section \<open>Calls of the transport\<close>

type_synonym send = "nat \<times> jsv \<times> jsv outcome"

definition sendsOf :: "effectsEvent list \<Rightarrow> effectsEvent list" where
  "sendsOf es = filter (\<lambda>e. calledPort e = SendMessage) es"

definition asSent :: "send list \<Rightarrow> effectsEvent list" where
  "asSent sends = map (\<lambda>(i, q, r). Called SendMessage [q] r) sends"

definition delivers :: "send \<Rightarrow> bool" where
  "delivers x = (case x of (i, q, r) \<Rightarrow> truthy (fld (syncSend r) ''ok''))"

text \<open>A call for an effect: with the copy of its message and its key, while it was not over.\<close>

definition sentFor :: "jsv \<Rightarrow> jsv \<Rightarrow> jsv \<Rightarrow> bool" where
  "sentFor context effect q \<longleftrightarrow> (\<exists>copy at. snapshotSyncEffect effect = Some copy \<and> q = sendInput context copy at
     \<and> \<not> overAt copy at)"

lemma sendsOf_append [simp]: "sendsOf (es @ fs) = sendsOf es @ sendsOf fs"
  by (simp add: sendsOf_def)

lemma sendsOf_silent: "\<forall>e \<in> set es. calledPort e \<notin> {SendMessage} \<Longrightarrow> sendsOf es = []"
  by (simp add: sendsOf_def filter_empty_conv)

lemma asSent_simps [simp]: "asSent [] = []" "asSent ((i, q, r) # xs) = Called SendMessage [q] r # asSent xs"
  by (simp_all add: asSent_def)

section \<open>What the transport answers\<close>

lemma syncSend_failure:
  assumes "\<not> truthy (fld (syncSend answer) ''ok'')"
  defines "failure \<equiv> fld (syncSend answer) ''error''"
  shows "isSafeReason (fld failure ''reason'')" and "fld failure ''details'' = JUndef \<or> isPublicData (fld failure ''details'')"
proof -
  have default: "isSafeReason (fld (fld syncDeliveryFailure ''error'') ''reason'') \<and> fld (fld syncDeliveryFailure ''error'') ''details'' = JUndef"
    by code_simp
  have reason: "isSafeText v 512 True \<Longrightarrow> isSafeReason v" for v by (cases v) simp_all
  have details: "workerJsonObject d \<Longrightarrow> isPublicData d" for d by (simp add: workerJsonObject_def isPublicData_def)
  have "isSafeReason (fld failure ''reason'') \<and> (fld failure ''details'' = JUndef \<or> isPublicData (fld failure ''details''))"
    using assms(1) default reason details unfolding failure_def syncSend_def Let_def
    by (auto split: outcome.splits if_splits option.splits)
  then show "isSafeReason (fld failure ''reason'')" "fld failure ''details'' = JUndef \<or> isPublicData (fld failure ''details'')" by auto
qed

lemma refusal_effectsFailure:
  "isSafeReason reason \<Longrightarrow> details = JUndef \<or> isPublicData details \<Longrightarrow> refusal (effectsFailure reason details)"
  by (auto simp: refusal_def effectsFailure_def isEffectsFailure_def hasOnlyKeys_def simp del: isSafeReason.simps)

lemma refusal_syncFailed [simp]: "refusal syncFailed"
  unfolding syncFailed_def by (rule refusal_effectsFailure) (code_simp, simp)

section \<open>The first loop\<close>

lemma snapshotSyncEffect_policy:
  assumes "snapshotSyncEffect effect = Some copy"
  shows "fld copy ''dispatchPolicy'' = fld effect ''dispatchPolicy''"
    and "isRequired copy \<or> fld effect ''dispatchPolicy'' = JStr ''best-effort''"
proof -
  from assms have copy: "isSyncDeliveryEffect copy" "fld copy ''dispatchPolicy'' = fld effect ''dispatchPolicy''"
    by (auto simp: snapshotSyncEffect_def Let_def split: if_splits option.splits)
  then show "fld copy ''dispatchPolicy'' = fld effect ''dispatchPolicy''"
    "isRequired copy \<or> fld effect ''dispatchPolicy'' = JStr ''best-effort''"
    by (auto simp: isSyncDeliveryEffect_def isRequired_def simp del: fld.simps fld_obj)
qed

definition deliverableOf :: "jsv list \<Rightarrow> nat \<times> jsv \<Rightarrow> bool" where
  "deliverableOf effects d \<longleftrightarrow> (case d of (i, copy) \<Rightarrow> i < length effects \<and> snapshotSyncEffect (effects ! i) = Some copy)"

lemma notDispatched_failedOf:
  "i < length effects \<Longrightarrow> fld (effects ! i) ''dispatchPolicy'' = JStr ''best-effort'' \<Longrightarrow> failedOf effects (notDispatched i)"
  unfolding failedOf_def notDispatched_def
  by (intro exI [of _ i] exI [of _ "JStr ''SIDE_EFFECT_FAILED''"] exI [of _ "[]"])
    (simp add: safeDetails_def no_control_def is_control_def del: fld.simps fld_obj)

lemma deliverableEffects_result:
  assumes "deliverableEffects now (length before) effects = Some (ds, fs)"
  shows "(\<forall>d \<in> set ds. deliverableOf (before @ effects) d) \<and> (\<forall>f \<in> set fs. failedOf (before @ effects) f)
    \<and> sorted_wrt (<) (map fst ds) \<and> distinct (map fst ds @ map indexOf fs)
    \<and> set (map fst ds @ map indexOf fs) = {length before ..< length before + length effects}"
  using assms
proof (induction effects arbitrary: before ds fs)
  case Nil
  then show ?case by simp
next
  case (Cons v effects)
  let ?i = "length before" and ?all = "before @ v # effects"
  have more: "before @ v # effects = (before @ [v]) @ effects" "Suc ?i = length (before @ [v])" "?all ! ?i = v" by simp_all
  have range: "{Suc ?i ..< Suc ?i + length effects} = {length (before @ [v]) ..< length (before @ [v]) + length effects}" by simp
  show ?case
  proof (cases "case snapshotSyncEffect v of None \<Rightarrow> None | Some snapshot \<Rightarrow> if overAt snapshot now then None else Some snapshot")
    case None
    from Cons.prems have "(if fld v ''dispatchPolicy'' \<noteq> JStr ''best-effort'' then None
        else map_option (\<lambda>(ds, fs). (ds, notDispatched ?i # fs)) (deliverableEffects now (length (before @ [v])) effects)) = Some (ds, fs)"
      unfolding deliverableEffects.simps None option.case more(2) .
    then have best: "fld v ''dispatchPolicy'' = JStr ''best-effort''"
      and "map_option (\<lambda>(ds, fs). (ds, notDispatched ?i # fs)) (deliverableEffects now (length (before @ [v])) effects) = Some (ds, fs)"
      by (simp_all del: fld.simps fld_obj split: if_split_asm)
    then obtain fs1 where 1: "deliverableEffects now (length (before @ [v])) effects = Some (ds, fs1)"
      and fs: "fs = notDispatched ?i # fs1" by (auto simp del: fld.simps fld_obj)
    have "failedOf ?all (notDispatched ?i)" by (rule notDispatched_failedOf) (simp_all add: best)
    moreover have "indexOf (notDispatched ?i) = ?i" by (simp add: notDispatched_def)
    ultimately show ?thesis
      using Cons.IH [OF 1] fs indexes_extended(2,4) [of "map fst ds" "map indexOf fs1" ?i "length effects"]
      unfolding more(1) by simp
  next
    case (Some copy)
    then have copy: "snapshotSyncEffect v = Some copy" by (auto split: option.splits if_splits)
    from Cons.prems have "map_option (\<lambda>(ds, fs). ((?i, copy) # ds, fs)) (deliverableEffects now (length (before @ [v])) effects) = Some (ds, fs)"
      unfolding deliverableEffects.simps Some option.case more(2) .
    then obtain ds1 where 1: "deliverableEffects now (length (before @ [v])) effects = Some (ds1, fs)"
      and ds: "ds = (?i, copy) # ds1" by auto
    note ih = Cons.IH [OF 1]
    have later: "\<forall>d \<in> set ds1. ?i < fst d"
    proof
      fix d assume "d \<in> set ds1"
      then have "fst d \<in> set (map fst ds1 @ map indexOf fs)" by simp
      also have "\<dots> = {length (before @ [v]) ..< length (before @ [v]) + length effects}" using ih by blast
      finally show "?i < fst d" by simp
    qed
    have "deliverableOf ?all (?i, copy)" by (simp add: deliverableOf_def copy)
    moreover have "sorted_wrt (<) (map fst ds)" using ih later ds by simp
    ultimately show ?thesis
      using ih ds indexes_extended(1,3) [of "map fst ds1" "map indexOf fs" ?i "length effects"]
      unfolding more(1) by simp
  qed
qed

section \<open>The second loop\<close>

definition sendOf :: "jsv \<Rightarrow> (nat \<times> jsv) list \<Rightarrow> send \<Rightarrow> bool" where
  "sendOf context ds x \<longleftrightarrow> (case x of (i, q, r) \<Rightarrow>
     \<exists>copy at. (i, copy) \<in> set ds \<and> q = sendInput context copy at \<and> \<not> overAt copy at)"

definition notDeliveredOf :: "(nat \<times> jsv) list \<Rightarrow> jsv \<Rightarrow> bool" where
  "notDeliveredOf ds f \<longleftrightarrow> (\<exists>i copy r details. f = failedItem i r details \<and> (i, copy) \<in> set ds \<and> \<not> isRequired copy
     \<and> isSafeReason r \<and> safeDetails details)"

definition deliveredItems :: "send list \<Rightarrow> jsv list" where
  "deliveredItems sends = map (\<lambda>x. dispatchItem (fst x)) (filter delivers sends)"

definition deliveredAll ::
  "jsv \<Rightarrow> (nat \<times> jsv) list \<Rightarrow> effectsEvent list \<Rightarrow> jsv list \<Rightarrow> jsv list \<Rightarrow> 'w effectsState \<Rightarrow> bool" where
  "deliveredAll context ds cs items failed t \<longleftrightarrow> (\<exists>es sends. calls t = cs @ es \<and> sendsOf es = asSent sends
     \<and> subseq (map fst sends) (map fst ds) \<and> (\<forall>x \<in> set sends. sendOf context ds x) \<and> items = deliveredItems sends
     \<and> mset (map indexOf (items @ failed)) = mset (map fst ds) \<and> (\<forall>f \<in> set failed. notDeliveredOf ds f))"

definition deliveryDone ::
  "jsv \<Rightarrow> (nat \<times> jsv) list \<Rightarrow> 'w effectsState \<Rightarrow> jsv + (jsv list \<times> jsv list) \<Rightarrow> 'w effectsState \<Rightarrow> bool" where
  "deliveryDone context ds s res t \<longleftrightarrow> (case res of Inl answer \<Rightarrow> refusal answer
     | Inr (items, failed) \<Rightarrow> deliveredAll context ds (calls s) items failed t)"

lemma deliveryDone_simps [simp]:
  "deliveryDone context ds s (Inl answer) t = refusal answer"
  "deliveryDone context ds s (Inr (items, failed)) t = deliveredAll context ds (calls s) items failed t"
  by (simp_all add: deliveryDone_def)

text \<open>One delivery: what it answers for the effect and which calls it made.\<close>

definition deliveredOne :: "jsv \<Rightarrow> nat \<Rightarrow> jsv \<Rightarrow> 'w effectsState \<Rightarrow> delivery \<Rightarrow> 'w effectsState \<Rightarrow> bool" where
  "deliveredOne context i copy s d t \<longleftrightarrow> (case d of
       Abandoned answer \<Rightarrow> refusal answer
     | Delivered item \<Rightarrow> item = dispatchItem i \<and> (\<exists>es q r. calls t = calls s @ es \<and> sendsOf es = asSent [(i, q, r)]
         \<and> sendOf context [(i, copy)] (i, q, r) \<and> delivers (i, q, r))
     | NotDelivered item \<Rightarrow> notDeliveredOf [(i, copy)] item \<and> indexOf item = i
         \<and> (\<exists>es sends. calls t = calls s @ es \<and> sendsOf es = asSent sends \<and> (sends = [] \<or> (\<exists>q r. sends = [(i, q, r)]
              \<and> sendOf context [(i, copy)] (i, q, r) \<and> \<not> delivers (i, q, r)))))"

lemma wp_deliverEffect:
  fixes s :: "'w effectsState"
  assumes clock: "silent {SendMessage} clock"
  shows "wp (deliverEffect e clock context i copy) (deliveredOne context i copy s) (\<lambda>_. False) s"
  unfolding deliverEffect_def
proof (intro wp_silent_bind [OF clock] wp_optionI wp_decide wp_retI)
  fix now es and t :: "'w effectsState"
  show "deliveredOne context i copy s (Abandoned syncFailed) t" by (simp add: deliveredOne_def)
next
  fix d es at and t :: "'w effectsState"
  assume t: "calls t = calls s @ es" "\<forall>e \<in> set es. calledPort e \<notin> {SendMessage}" and "overAt copy at"
  have "notDeliveredOf [(i, copy)] (notDispatched i)" if "\<not> isRequired copy"
    unfolding notDeliveredOf_def notDispatched_def
    by (intro exI [of _ i] exI [of _ copy] exI [of _ "JStr ''SIDE_EFFECT_FAILED''"] exI [of _ "[]"])
      (simp add: that safeDetails_def no_control_def is_control_def)
  then show "deliveredOne context i copy s (if isRequired copy then Abandoned syncFailed else NotDelivered (notDispatched i)) t"
    using t sendsOf_silent [OF t(2)] by (auto simp: deliveredOne_def notDispatched_def intro: exI [of _ es] exI [of _ "[]"])
next
  fix d es at and t :: "'w effectsState"
  assume t: "calls t = calls s @ es" "\<forall>e \<in> set es. calledPort e \<notin> {SendMessage}" and live: "\<not> overAt copy at"
  let ?q = "sendInput context copy at"
  have sent: "sendOf context [(i, copy)] (i, ?q, r)" for r using live by (auto simp: sendOf_def)
  have calls: "sendsOf (es @ [Called SendMessage [?q] r]) = asSent [(i, ?q, r)]" for r
    using sendsOf_silent [OF t(2)] by (simp add: sendsOf_def)
  have "deliveredOne context i copy s
      (let result = syncSend r; error = fld result ''error'' in
         if truthy (fld result ''ok'') then Delivered (dispatchItem i)
         else if isRequired copy then Abandoned (effectsFailure (fld error ''reason'') (fld error ''details''))
         else NotDelivered (failedItem i (fld error ''reason'') [(''details'', fld error ''details'')]))
      (t\<lparr>surroundings := w, calls := calls t @ [Called SendMessage [?q] r]\<rparr>)" for r w
  proof (cases "truthy (fld (syncSend r) ''ok'')")
    case True
    with t(1) sent [of r] calls [of r] show ?thesis
      by (auto simp: deliveredOne_def Let_def delivers_def simp del: fld.simps fld_obj asSent_simps
          intro!: exI [of _ "es @ [Called SendMessage [?q] r]"])
  next
    case False
    note failure = syncSend_failure [OF False]
    have "notDeliveredOf [(i, copy)] (failedItem i (fld (fld (syncSend r) ''error'') ''reason'')
        [(''details'', fld (fld (syncSend r) ''error'') ''details'')])" if "\<not> isRequired copy"
      using that failure unfolding notDeliveredOf_def safeDetails_def by fastforce
    with False failure t(1) sent [of r] calls [of r] show ?thesis
      by (auto simp: deliveredOne_def Let_def delivers_def simp del: fld.simps fld_obj asSent_simps isSafeReason.simps
          intro!: exI [of _ "es @ [Called SendMessage [?q] r]"] exI [of _ "[(i, ?q, r)]"] refusal_effectsFailure)
  qed
  then show "wp (bindM (request e SendMessage [?q]) (\<lambda>answer. let result = syncSend answer; error = fld result ''error'' in
           ret (if truthy (fld result ''ok'') then Delivered (dispatchItem i)
                else if isRequired copy then Abandoned (effectsFailure (fld error ''reason'') (fld error ''details''))
                else NotDelivered (failedItem i (fld error ''reason'') [(''details'', fld error ''details'')]))))
      (deliveredOne context i copy s) (\<lambda>_. False) t"
    unfolding wp_bind wp_request Let_def by (auto simp: wp_ret simp del: fld.simps fld_obj split: prod.split)
qed

lemma sendOf_mono: "sendOf context ds x \<Longrightarrow> set ds \<subseteq> set ds' \<Longrightarrow> sendOf context ds' x"
  unfolding sendOf_def by (cases x) blast

lemma notDeliveredOf_mono: "notDeliveredOf ds f \<Longrightarrow> set ds \<subseteq> set ds' \<Longrightarrow> notDeliveredOf ds' f"
  unfolding notDeliveredOf_def by blast

text \<open>The calls of one delivery before those of the rest; at most one send more.\<close>

lemma deliveredAll_Cons:
  assumes all: "deliveredAll context ds (calls u) items failed t"
    and one: "calls u = calls s @ es" "sendsOf es = asSent first" "\<forall>x \<in> set first. sendOf context [(i, copy)] x"
      "first = [] \<or> map fst first = [i]"
    and new: "mset (map indexOf (items' @ failed')) = {#i#}" "items' = deliveredItems first" "\<forall>f \<in> set failed'. notDeliveredOf [(i, copy)] f"
  shows "deliveredAll context ((i, copy) # ds) (calls s) (items' @ items) (failed' @ failed) t"
proof -
  from all obtain fs sends where rest: "calls t = calls u @ fs" "sendsOf fs = asSent sends" "subseq (map fst sends) (map fst ds)"
    "\<forall>x \<in> set sends. sendOf context ds x" "items = deliveredItems sends" "mset (map indexOf (items @ failed)) = mset (map fst ds)"
    "\<forall>f \<in> set failed. notDeliveredOf ds f"
    unfolding deliveredAll_def by blast
  show ?thesis
    unfolding deliveredAll_def
  proof (intro exI conjI)
    show "calls t = calls s @ es @ fs" using rest(1) one(1) by simp
    show "sendsOf (es @ fs) = asSent (first @ sends)" using rest(2) one(2) by (simp add: asSent_def)
    show "subseq (map fst (first @ sends)) (map fst ((i, copy) # ds))" using rest(3) one(4) by auto
    show "\<forall>x \<in> set (first @ sends). sendOf context ((i, copy) # ds) x"
      using rest(4) one(3) sendOf_mono [of "context" _ _ "(i, copy) # ds"] by fastforce
    show "items' @ items = deliveredItems (first @ sends)" using rest(5) new(2) by (simp add: deliveredItems_def)
    have "mset (map indexOf ((items' @ items) @ failed' @ failed)) = mset (map indexOf (items' @ failed')) + mset (map indexOf (items @ failed))"
      by (simp add: ac_simps)
    then show "mset (map indexOf ((items' @ items) @ failed' @ failed)) = mset (map fst ((i, copy) # ds))"
      unfolding new(1) rest(6) by simp
    show "\<forall>f \<in> set (failed' @ failed). notDeliveredOf ((i, copy) # ds) f"
      using rest(7) new(3) notDeliveredOf_mono [of _ _ "(i, copy) # ds"] by fastforce
  qed
qed

lemma deliveredAll_delivered:
  assumes "deliveredOne context i copy s (Delivered item) u" and "deliveredAll context ds (calls u) items failed t"
  shows "deliveredAll context ((i, copy) # ds) (calls s) (item # items) failed t"
proof -
  from assms(1) obtain es q r where one: "item = dispatchItem i" "calls u = calls s @ es" "sendsOf es = asSent [(i, q, r)]"
    "sendOf context [(i, copy)] (i, q, r)" "delivers (i, q, r)"
    by (auto simp: deliveredOne_def simp del: asSent_simps)
  have "deliveredAll context ((i, copy) # ds) (calls s) ([item] @ items) ([] @ failed) t"
    by (rule deliveredAll_Cons [OF assms(2) one(2,3)]) (use one(1,4,5) in \<open>simp_all add: deliveredItems_def\<close>)
  then show ?thesis by simp
qed

lemma deliveredAll_notDelivered:
  assumes "deliveredOne context i copy s (NotDelivered item) u" and "deliveredAll context ds (calls u) items failed t"
  shows "deliveredAll context ((i, copy) # ds) (calls s) items (item # failed) t"
proof -
  from assms(1) obtain es sends where one: "notDeliveredOf [(i, copy)] item" "indexOf item = i" "calls u = calls s @ es"
    "sendsOf es = asSent sends"
    "sends = [] \<or> (\<exists>q r. sends = [(i, q, r)] \<and> sendOf context [(i, copy)] (i, q, r) \<and> \<not> delivers (i, q, r))"
    by (auto simp: deliveredOne_def simp del: asSent_simps)
  have "deliveredAll context ((i, copy) # ds) (calls s) ([] @ items) ([item] @ failed) t"
    by (rule deliveredAll_Cons [OF assms(2) one(3,4)]) (use one(1,2,5) in \<open>auto simp: deliveredItems_def\<close>)
  then show ?thesis by simp
qed

lemma deliveredOne_Abandoned: "deliveredOne context i copy s (Abandoned answer) t \<longleftrightarrow> refusal answer"
  by (simp add: deliveredOne_def)

lemma wp_deliveryI:
  "(\<And>answer. d = Abandoned answer \<Longrightarrow> wp (f answer) Q E s) \<Longrightarrow> (\<And>item. d = Delivered item \<Longrightarrow> wp (g item) Q E s)
     \<Longrightarrow> (\<And>item. d = NotDelivered item \<Longrightarrow> wp (h item) Q E s)
     \<Longrightarrow> wp (case d of Abandoned answer \<Rightarrow> f answer | Delivered item \<Rightarrow> g item | NotDelivered item \<Rightarrow> h item) Q E s"
  by (cases d) simp_all

lemma wp_deliverEffects:
  assumes clock: "silent {SendMessage} clock"
  shows "wp (deliverEffects e clock context ds) (deliveryDone context ds s) (\<lambda>_. False) s"
proof (induction ds arbitrary: s)
  case Nil
  have "deliveredAll context [] (calls s) [] [] s"
    unfolding deliveredAll_def by (intro exI [of _ "[]"]) (simp add: sendsOf_def deliveredItems_def)
  then show ?case by (simp add: wp_def)
next
  case (Cons d ds)
  obtain i copy where d: "d = (i, copy)" by (rule prod.exhaust)
  show ?case
    unfolding d deliverEffects.simps
    by (intro wp_follow [OF wp_deliverEffect [OF clock]] wp_deliveryI wp_follow [OF Cons.IH] wp_retI)
      (auto simp: deliveredOne_Abandoned deliveryDone_def split: sum.splits intro: deliveredAll_delivered deliveredAll_notDelivered)
qed


section \<open>The operation\<close>

text \<open>
  What a successful dispatch has done: its calls of the transport are for different effects in
  their order, each with the copy of its effect while that was not over, and the effects reported
  as dispatched are those whose delivery was confirmed.
\<close>

definition syncDispatched :: "jsv \<Rightarrow> effectsEvent list \<Rightarrow> jsv \<Rightarrow> bool" where
  "syncDispatched input es r \<longleftrightarrow> (\<exists>context sends. let effects = map read_elem (arr_elems (fld input ''effects'')) in
     normalizeDispatchContext (fld input ''context'') = Some context
     \<and> fld r ''ok'' = JBool True \<and> isDispatchResult (fld r ''value'') effects
     \<and> sendsOf es = asSent sends \<and> sorted_wrt (<) (map fst sends)
     \<and> (\<forall>x \<in> set sends. fst x < length effects \<and> sentFor context (effects ! fst x) (fst (snd x)))
     \<and> fld (fld r ''value'') ''dispatched'' = JArr (deliveredItems sends)
     \<and> (\<forall>i < length effects. fld (effects ! i) ''dispatchPolicy'' = JStr ''required'' \<longrightarrow>
          (\<exists>x \<in> set sends. fst x = i \<and> delivers x)))"

lemma sorted_wrt_subseq: "subseq xs ys \<Longrightarrow> sorted_wrt P ys \<Longrightarrow> sorted_wrt P xs"
  by (induction rule: list_emb.induct) (auto dest: list_emb_set)

lemma deliveredAccount:
  assumes ds: "\<forall>d \<in> set ds. deliverableOf effects d" "\<forall>f \<in> set fs. failedOf effects f" "sorted_wrt (<) (map fst ds)"
    and ids: "distinct (map fst ds @ map indexOf fs)" "set (map fst ds @ map indexOf fs) = {0 ..< length effects}"
    and all: "deliveredAll context ds cs items failed t"
  obtains es sends where "calls t = cs @ es" "sendsOf es = asSent sends" "sorted_wrt (<) (map fst sends)"
    "\<forall>x \<in> set sends. fst x < length effects \<and> sentFor context (effects ! fst x) (fst (snd x))"
    "items = deliveredItems sends" "accountOf effects items (fs @ failed)"
proof -
  from all obtain es sends where run: "calls t = cs @ es" "sendsOf es = asSent sends" "subseq (map fst sends) (map fst ds)"
    "\<forall>x \<in> set sends. sendOf context ds x" "items = deliveredItems sends" "mset (map indexOf (items @ failed)) = mset (map fst ds)"
    "\<forall>f \<in> set failed. notDeliveredOf ds f"
    unfolding deliveredAll_def by blast
  have sent: "\<forall>x \<in> set sends. fst x < length effects \<and> sentFor context (effects ! fst x) (fst (snd x))"
  proof
    fix x assume "x \<in> set sends"
    with run(4) obtain i q r copy at where "x = (i, q, r)" "(i, copy) \<in> set ds" "q = sendInput context copy at" "\<not> overAt copy at"
      unfolding sendOf_def by fast
    with ds(1) show "fst x < length effects \<and> sentFor context (effects ! fst x) (fst (snd x))"
      unfolding deliverableOf_def sentFor_def by fastforce
  qed
  have "mset (map indexOf (items @ fs @ failed)) = mset (map fst ds @ map indexOf fs)"
    using run(6) by (simp add: ac_simps)
  then have "distinct (map indexOf (items @ fs @ failed))" and "set (map indexOf (items @ fs @ failed)) = {..<length effects}"
    using ids mset_eq_imp_distinct_iff mset_eq_setD by (metis, metis lessThan_atLeast0)
  moreover have "\<forall>v \<in> set items. itemOf effects v"
    using sent unfolding run(5) deliveredItems_def itemOf_def by fastforce
  moreover have "\<forall>f \<in> set failed. failedOf effects f"
  proof
    fix f assume "f \<in> set failed"
    with run(7) obtain i copy r details where f: "f = failedItem i r details" "(i, copy) \<in> set ds" "\<not> isRequired copy"
      "isSafeReason r" "safeDetails details" unfolding notDeliveredOf_def by blast
    with ds(1) have "i < length effects" "snapshotSyncEffect (effects ! i) = Some copy" unfolding deliverableOf_def by auto
    with snapshotSyncEffect_policy(2) f show "failedOf effects f" unfolding failedOf_def by blast
  qed
  ultimately have "accountOf effects items (fs @ failed)"
    using ds(2) unfolding accountOf_def by (metis Un_iff set_append)
  then show thesis using that run(1,2,5) sent sorted_wrt_subseq [OF run(3) ds(3)] by blast
qed

lemma fld_dispatchedAnswer:
  "fld (dispatchedAnswer items failed) ''ok'' = JBool True"
  "fld (dispatchedAnswer items failed) ''value'' = obj [(''dispatched'', JArr items), (''failed'', failedList failed)]"
  "fld (obj [(''dispatched'', JArr items), (''failed'', failedList failed)]) ''dispatched'' = JArr items"
  by (simp_all add: dispatchedAnswer_def)

lemma deliveredItems_iff: "dispatchItem i \<in> set (deliveredItems sends) \<longleftrightarrow> (\<exists>x \<in> set sends. fst x = i \<and> delivers x)"
  by (force simp: deliveredItems_def dispatchItem_def)

lemma syncDispatched_answer:
  assumes cx: "normalizeDispatchContext (fld input ''context'') = Some cx"
    and len: "length (map read_elem (arr_elems (fld input ''effects''))) \<le> 1000"
    and run: "deliverableEffects now 0 (map read_elem (arr_elems (fld input ''effects''))) = Some (ds, fs)"
    and all: "deliveredAll cx ds cs items failed t"
  shows "\<exists>es. calls t = cs @ es \<and> syncDispatched input es (dispatchedAnswer items (fs @ failed))"
proof -
  let ?effects = "map read_elem (arr_elems (fld input ''effects''))"
  from deliverableEffects_result [of now "[]" ?effects ds fs] run
  have ds: "\<forall>d \<in> set ds. deliverableOf ?effects d" "\<forall>f \<in> set fs. failedOf ?effects f" "sorted_wrt (<) (map fst ds)"
    "distinct (map fst ds @ map indexOf fs)" "set (map fst ds @ map indexOf fs) = {0 ..< length ?effects}" by auto
  obtain es sends where es: "calls t = cs @ es" "sendsOf es = asSent sends" "sorted_wrt (<) (map fst sends)"
    "\<forall>x \<in> set sends. fst x < length ?effects \<and> sentFor cx (?effects ! fst x) (fst (snd x))"
    "items = deliveredItems sends" and account: "accountOf ?effects items (fs @ failed)"
    by (rule deliveredAccount [OF ds all])
  have "\<forall>i < length ?effects. fld (?effects ! i) ''dispatchPolicy'' = JStr ''required'' \<longrightarrow> (\<exists>x \<in> set sends. fst x = i \<and> delivers x)"
    using accountOf_required [OF account] unfolding es(5) deliveredItems_iff by blast
  moreover have "isDispatchResult (obj [(''dispatched'', JArr items), (''failed'', failedList (fs @ failed))]) ?effects"
    by (rule accountOf_accepted(2) [OF account len])
  ultimately have "syncDispatched input es (dispatchedAnswer items (fs @ failed))"
    unfolding syncDispatched_def Let_def
    using cx es by (intro exI [of _ cx] exI [of _ sends] conjI) (simp_all only: fld_dispatchedAnswer)
  with es(1) show ?thesis by blast
qed

lemma wp_dispatchSync:
  "wp (dispatchSync e input) (\<lambda>r t. refusal r \<or> (\<exists>es. calls t = calls s @ es \<and> syncDispatched input es r)) (\<lambda>_. False) s"
proof (cases "snapshotSyncInput input")
  case None
  then show ?thesis by (simp add: dispatchSync_def wp_def)
next
  case (Some d)
  let ?effects = "map read_elem (arr_elems (fld input ''effects''))"
  from Some have d: "d = (fld input ''context'', ?effects, fld input ''now'')" and len: "length ?effects \<le> 1000"
    by (auto simp: snapshotSyncInput_def simp del: fld.simps fld_obj split: if_splits)
  have answered: "\<exists>es'. calls t = calls s @ es' \<and> syncDispatched input es' (dispatchedAnswer items (fs @ failed))"
    if "normalizeDispatchContext (fld input ''context'') = Some cx" "deliverableEffects (fld input ''now'') 0 ?effects = Some (ds, fs)"
      "deliveredAll cx ds (calls s @ es) items failed t" "\<forall>x \<in> set es. calledPort x \<noteq> SendMessage"
    for t :: "'a effectsState" and cx ds fs items failed es
  proof -
    from syncDispatched_answer [OF that(1) len that(2,3)] obtain rest where rest: "calls t = (calls s @ es) @ rest"
      and r: "syncDispatched input rest (dispatchedAnswer items (fs @ failed))" by blast
    have "sendsOf es = []" by (rule sendsOf_silent) (use that(4) in simp)
    with r have "syncDispatched input (es @ rest) (dispatchedAnswer items (fs @ failed))"
      unfolding syncDispatched_def Let_def by simp
    with rest show ?thesis by (intro exI [of _ "es @ rest"]) simp
  qed
  show ?thesis
    unfolding dispatchSync_def Some option.case d prod.case
    by (intro wp_optionI wp_retI wp_silent_bind [OF silent_startClock [of "{SendMessage}"]] wp_prodI
        wp_follow [OF wp_deliverEffects [OF silent_dispatchClock [of "{SendMessage}"]]])
      (auto simp: deliveryDone_def split: sum.splits dest: answered)
qed

end
