(* ===== verification/EffectsProperties.thy ===== *)
theory EffectsProperties
  imports OutboxDispatcherRuns SyncDeliveryRuns CoreProperties
begin

text \<open>
  The contract between core and a dispatcher of side effects, as a locale that the dispatchers of
  the repository interpret, and what follows for the two together.
\<close>

section \<open>The contract of a dispatcher\<close>

lemma isDispatchResult_cong:
  assumes "length xs = length ys" and "\<And>i. i < length ys \<Longrightarrow> fld (xs ! i) ''dispatchPolicy'' = fld (ys ! i) ''dispatchPolicy''"
  shows "isDispatchResult v xs \<longleftrightarrow> isDispatchResult v ys"
proof -
  have failed: "list_all (\<lambda>item. fld (xs ! nat (num_val (fld item ''index''))) ''dispatchPolicy'' = JStr ''best-effort'') failed
      \<longleftrightarrow> list_all (\<lambda>item. fld (ys ! nat (num_val (fld item ''index''))) ''dispatchPolicy'' = JStr ''best-effort'') failed"
    if "collectIndexes (length ys) (items @ failed) [] = Some indexes" for items failed indexes
  proof (rule list.pred_cong [OF refl])
    fix item assume "item \<in> set failed"
    with collectIndexes_SomeD(3) [OF that] have "num_val (fld item ''index'') < int (length ys)" "0 \<le> num_val (fld item ''index'')"
      by (simp_all del: fld.simps fld_obj)
    then have "nat (num_val (fld item ''index'')) < length ys" by linarith
    from assms(2) [OF this]
    show "fld (xs ! nat (num_val (fld item ''index''))) ''dispatchPolicy'' = JStr ''best-effort''
      \<longleftrightarrow> fld (ys ! nat (num_val (fld item ''index''))) ''dispatchPolicy'' = JStr ''best-effort''" by (simp del: fld.simps fld_obj)
  qed
  show ?thesis
    unfolding isDispatchResult_def Let_def assms(1)
    using failed [of "arr_elems (fld v ''dispatched'') @ arr_elems (fld v ''deferred'')" "arr_elems (fld v ''failed'')"]
    by (simp del: fld.simps fld_obj split: option.split)
qed

lemma snapshotSideEffect_policy:
  "snapshotSideEffect effect = Some copy \<Longrightarrow> fld copy ''dispatchPolicy''
     = (if fld effect ''dispatchPolicy'' = JStr ''required'' then JStr ''required'' else JStr ''best-effort'')"
  by (auto simp: snapshotSideEffect_def)

lemma snapshotSideEffect_read: "snapshotSideEffect effect = Some copy \<Longrightarrow> read_elem copy = copy"
  by (auto simp: snapshotSideEffect_def read_elem_def)

locale effects_dispatcher =
  fixes dispatch :: "jsv \<Rightarrow> 's \<Rightarrow> jsv outcome \<times> 's"
  assumes answers: "\<exists>r t. dispatch input s = (Ret r, t)
    \<and> (refusal r \<or> fld r ''ok'' = JBool True
         \<and> isDispatchResult (fld r ''value'') (map read_elem (arr_elems (fld input ''effects''))))"
begin

text \<open>Core takes the answer of such a dispatcher as it is: its account, or its reason for the failure.\<close>

lemma core_takes_answer:
  assumes "hasEffects c" and over: "\<And>input w. call c EffectsDispatch [input] w = dispatch input w"
    and "effects \<noteq> []" and copies: "mapO snapshotSideEffect effects = Some copies"
    and input: "dispatchInput cx copies now tx = Some input"
    and run: "dispatch input (world s) = (Ret r, w)"
  shows "dispatchSideEffects c cx effects now tx s
    = (if fld r ''ok'' = JBool True then okR (fld r ''value'')
       else dispatchFailure c cx (list_ex is_required effects) (str_or (fld (fld r ''error'') ''reason'') '''') now)
      (s\<lparr>world := w, trace := trace s @ [Call EffectsDispatch [input] (Ret r)]\<rparr>)"
proof -
  from input obtain copies' cx' where copies': "mapO snapshotSideEffect copies = Some copies'"
    and i: "input = obj [(''context'', cx'), (''effects'', JArr copies'), (''now'', now), (''tx'', tx)]"
    by (auto simp: dispatchInput_def split: option.splits)
  have policy: "fld (copies' ! k) ''dispatchPolicy'' = fld (copies ! k) ''dispatchPolicy''" if "k < length copies" for k
    using snapshotSideEffect_policy [OF mapO_nth [OF copies, of k]] snapshotSideEffect_policy [OF mapO_nth [OF copies' that]]
      mapO_length [OF copies] that by (simp del: fld.simps fld_obj split: if_splits)
  have "map read_elem copies' = copies'"
    using snapshotSideEffect_read [OF mapO_nth [OF copies']] mapO_length [OF copies']
    by (intro map_idI) (auto simp: in_set_conv_nth)
  then have effects: "map read_elem (arr_elems (fld input ''effects'')) = copies'" by (simp add: i)
  from answers [of input "world s"] run
  have r: "refusal r \<or> fld r ''ok'' = JBool True \<and> isDispatchResult (fld r ''value'') copies'" unfolding effects by auto
  have accepted: "isDispatchResult (fld r ''value'') copies \<longleftrightarrow> isDispatchResult (fld r ''value'') copies'"
    using policy mapO_length [OF copies'] by (intro isDispatchResult_cong) (simp_all del: fld.simps fld_obj)
  have asked: "attemptM (bindM (liftO (dispatchInput cx copies now tx)) (\<lambda>i. callPort c EffectsDispatch [i])) s
      = (Ret (Some r), s\<lparr>world := w, trace := trace s @ [Call EffectsDispatch [input] (Ret r)]\<rparr>)"
    by (simp add: attemptM_def input callPort_def over run)
  show ?thesis
    using r assms(1,3)
    unfolding dispatchSideEffects_def Let_def
    by (auto simp: copies bindM_step [of "attemptM (bindM (liftO (dispatchInput cx copies now tx)) (\<lambda>i. callPort c EffectsDispatch [i]))", OF asked] accepted refusal_def simp del: fld.simps fld_obj mapO.simps)
qed

end

section \<open>The dispatcher to the outbox\<close>

text \<open>What a successful dispatch has done: which effects are stored, and under a transaction no call has failed.\<close>

definition outboxDispatched :: "'w outboxEffects \<Rightarrow> jsv \<Rightarrow> effectsEvent list \<Rightarrow> jsv \<Rightarrow> bool" where
  "outboxDispatched c input es r \<longleftrightarrow> (\<exists>context. let effects = map read_elem (arr_elems (fld input ''effects'')) in
     normalizeDispatchContext (fld input ''context'') = Some context
     \<and> fld r ''ok'' = JBool True \<and> isDispatchResult (fld r ''value'') effects
     \<and> deferredStored c context effects (fld input ''tx'') es (arr_elems (fld (fld r ''value'') ''deferred''))
     \<and> (\<forall>i < length effects. fld (effects ! i) ''dispatchPolicy'' = JStr ''required'' \<longrightarrow>
          effectStored c context (fld input ''tx'') es (effects ! i))
     \<and> (truthy (fld input ''tx'') \<longrightarrow> allStored es (fld input ''tx'')))"

lemma fld_deferredAnswer:
  "fld (deferredAnswer items failed) ''ok'' = JBool True"
  "fld (deferredAnswer items failed) ''value'' = obj [(''dispatched'', JArr []), (''deferred'', JArr items), (''failed'', failedList failed)]"
  "fld (obj [(''dispatched'', JArr []), (''deferred'', JArr items), (''failed'', failedList failed)]) ''deferred'' = JArr items"
  by (simp_all add: deferredAnswer_def)

lemma snapshotOutboxDispatch_SomeD:
  assumes "snapshotOutboxDispatch input = Some d"
  shows "dispatchContext d = fld input ''context''" and "dispatchEffects d = map read_elem (arr_elems (fld input ''effects''))"
    and "(case dispatchTx d of None \<Rightarrow> JUndef | Some (tx, covers) \<Rightarrow> tx) = fld input ''tx''"
    and "length (dispatchEffects d) \<le> 1000"
  using assms by (auto simp: snapshotOutboxDispatch_def simp del: fld.simps fld_obj split: if_splits)

lemma dispatchedWell_outbox:
  assumes d: "snapshotOutboxDispatch input = Some d" and cx: "normalizeDispatchContext (dispatchContext d) = Some cx"
    and "dispatchedWell c cx (dispatchEffects d) (case dispatchTx d of None \<Rightarrow> JUndef | Some (tx, covers) \<Rightarrow> tx) s r t"
  shows "refusal r \<or> (\<exists>es. calls t = calls s @ es \<and> outboxDispatched c input es r)"
proof -
  note read = snapshotOutboxDispatch_SomeD [OF d]
  let ?effects = "map read_elem (arr_elems (fld input ''effects''))"
  from assms(3) consider "refusal r" | items failed es where "r = deferredAnswer items failed" "accountOf ?effects items failed"
    "calls t = calls s @ es" "deferredStored c cx ?effects (fld input ''tx'') es items" "truthy (fld input ''tx'') \<longrightarrow> allStored es (fld input ''tx'')"
    unfolding dispatchedWell_def read by blast
  then show ?thesis
  proof cases
    case 2
    have "\<forall>i < length ?effects. fld (?effects ! i) ''dispatchPolicy'' = JStr ''required'' \<longrightarrow>
        effectStored c cx (fld input ''tx'') es (?effects ! i)"
      using accountOf_required [OF 2(2)] 2(4) unfolding deferredStored_def by blast
    moreover have "isDispatchResult (fld r ''value'') ?effects"
      unfolding 2(1) fld_deferredAnswer by (rule accountOf_accepted(1) [OF 2(2)]) (use read in simp)
    ultimately have "outboxDispatched c input es r"
      unfolding outboxDispatched_def Let_def
      using cx 2(4,5) by (intro exI [of _ cx] conjI) (simp_all only: read(1) 2(1) fld_deferredAnswer arr_elems.simps)
    with 2(3) show ?thesis by blast
  qed simp
qed

lemma dispatchToOutbox_answers:
  "wp (dispatchToOutbox c input) (\<lambda>r t. refusal r \<or> (\<exists>es. calls t = calls s @ es \<and> outboxDispatched c input es r)) (\<lambda>_. False) s"
proof (cases "snapshotOutboxDispatch input")
  case None
  then show ?thesis by (simp add: dispatchToOutbox_def wp_ret)
next
  case (Some d)
  note d = this
  show ?thesis
  proof (cases "normalizeDispatchContext (dispatchContext d)")
    case None
    then show ?thesis by (simp add: dispatchToOutbox_def d wp_ret)
  next
    case (Some cx)
    show ?thesis by (rule wp_mono [OF wp_dispatchToOutbox [OF d Some]]) (rule dispatchedWell_outbox [OF d Some])
  qed
qed

lemma dispatchToOutbox_ends:
  "\<exists>r t. dispatchToOutbox c input s = (Ret r, t)
     \<and> (refusal r \<or> (\<exists>es. calls t = calls s @ es \<and> outboxDispatched c input es r))"
  using dispatchToOutbox_answers [of c input s] by (auto simp: wp_def split: prod.splits outcome.splits)

text \<open>
  C38. A dispatch of side effects to the outbox always ends with an answer: a failure that core
  accepts as one, or an account that core accepts, with every effect exactly once in it. Then
  each effect reported as deferred, and each required effect, has been handed to the store as a
  pending message made of the copy of the effect, with sealed secrets only, in a call whose answer
  the dispatcher has verified: the acknowledged message has the tenant, the idempotency key, the
  policy, the expiry and the envelope of the effect and is not dead. Under a transaction no call
  of the store has failed.
\<close>

theorem outbox_dispatch_stores:
  "\<exists>r t. dispatchToOutbox c input s = (Ret r, t)
     \<and> (refusal r \<or> (\<exists>es. calls t = calls s @ es \<and> outboxDispatched c input es r))"
  by (rule dispatchToOutbox_ends)

interpretation outbox_dispatcher: effects_dispatcher "dispatchToOutbox c" for c :: "'w outboxEffects"
proof
  fix input and s :: "'w effectsState"
  from dispatchToOutbox_answers [of c input s]
  show "\<exists>r t. dispatchToOutbox c input s = (Ret r, t)
    \<and> (refusal r \<or> fld r ''ok'' = JBool True
         \<and> isDispatchResult (fld r ''value'') (map read_elem (arr_elems (fld input ''effects''))))"
    unfolding outboxDispatched_def Let_def by (auto simp: wp_def split: prod.splits outcome.splits)
qed

text \<open>
  C39. A synchronous dispatch of side effects always ends with an answer: a failure that core
  accepts as one, or an account that core accepts, with every effect exactly once in it. Then its
  calls of the transport are for different effects in the order of the input, each with the copy
  of its effect before that is over, the effects it reports as dispatched are exactly those whose
  delivery the transport confirmed, and every required effect is among them.
\<close>

theorem sync_dispatch_delivers:
  "\<exists>r t. dispatchSync e input s = (Ret r, t)
     \<and> (refusal r \<or> (\<exists>es. calls t = calls s @ es \<and> syncDispatched input es r))"
  using wp_dispatchSync [of e input s] by (auto simp: wp_def split: prod.splits outcome.splits)

interpretation sync_dispatcher: effects_dispatcher "dispatchSync e" for e :: "'w effectsEnv"
proof
  fix input and s :: "'w effectsState"
  from wp_dispatchSync [of e input s]
  show "\<exists>r t. dispatchSync e input s = (Ret r, t)
    \<and> (refusal r \<or> fld r ''ok'' = JBool True
         \<and> isDispatchResult (fld r ''value'') (map read_elem (arr_elems (fld input ''effects''))))"
    unfolding syncDispatched_def Let_def by (auto simp: wp_def split: prod.splits outcome.splits)
qed

section \<open>Core over the dispatcher to the outbox\<close>

lemma dispatchFailure_required: "dispatchFailure c cx True reason now s \<noteq> (Ret (Inr v), t)"
  by (auto simp: dispatchFailure_def errR_def elim!: bindM_RetE)

lemma required_dispatch_succeeds:
  assumes run: "dispatchSideEffects c cx effects now tx s = (Ret (Inr v), t)" and "effects \<noteq> []" and "list_ex is_required effects"
  obtains copies input where "hasEffects c" and "mapO snapshotSideEffect effects = Some copies" and "dispatchInput cx copies now tx = Some input"
proof -
  from run assms(2,3) have "hasEffects c"
    by (auto simp: dispatchSideEffects_def dispatchFailure_required split: if_splits)
  with run assms(2,3) obtain copies where copies: "mapO snapshotSideEffect effects = Some copies"
    by (cases "mapO snapshotSideEffect effects") (auto simp: dispatchSideEffects_def)
  have "dispatchInput cx copies now tx \<noteq> None"
  proof
    assume none: "dispatchInput cx copies now tx = None"
    let ?m = "attemptM (bindM (liftO (dispatchInput cx copies now tx)) (\<lambda>i. callPort c EffectsDispatch [i]))"
    have m: "?m s = (Ret None, s)" by (simp add: none attemptM_def)
    show False using run assms(2,3) \<open>hasEffects c\<close>
      by (simp add: dispatchSideEffects_def copies bindM_step [of ?m, OF m] dispatchFailure_required del: mapO.simps)
  qed
  with \<open>hasEffects c\<close> copies that show thesis by blast
qed

lemma selected_required:
  assumes "i < length effects" and "fld (effects ! i) ''dispatchPolicy'' = JStr ''required''"
  obtains k where "k < length (selectEffects ''required'' effects)" and "map snd (selectEffects ''required'' effects) ! k = effects ! i"
proof -
  have "(i, effects ! i) \<in> set (selectEffects ''required'' effects)"
    using assms by (auto simp: selectEffects_def in_set_enumerate_eq simp del: fld.simps fld_obj)
  then obtain k where "k < length (selectEffects ''required'' effects)" "selectEffects ''required'' effects ! k = (i, effects ! i)"
    by (auto simp: in_set_conv_nth)
  then show thesis using that by simp
qed

text \<open>
  C40. Core with the dispatcher to the outbox: when core accepts the dispatch of the required
  effects of an operation, every required effect the method asked for has been stored as a
  message of the outbox, in the operation's transaction, and the store has acknowledged it with the
  terms of the effect.
\<close>

theorem required_effects_reach_outbox:
  assumes over: "\<And>input w. call c EffectsDispatch [input] w = dispatchToOutbox d input w"
    and run: "dispatchRequiredSideEffects c cx effects now tx s = (Ret (Inr v), t)"
    and i: "i < length effects" "fld (effects ! i) ''dispatchPolicy'' = JStr ''required''"
  shows "\<exists>copy copy' cx' es. snapshotSideEffect (effects ! i) = Some copy \<and> snapshotSideEffect copy = Some copy'
    \<and> calls (world t) = calls (world s) @ es \<and> effectStored d cx' tx es copy'
    \<and> (truthy tx \<longrightarrow> allStored es tx)"
proof -
  let ?selected = "selectEffects ''required'' effects"
  obtain k where k: "k < length ?selected" "map snd ?selected ! k = effects ! i" by (rule selected_required [OF i])
  then have some: "?selected \<noteq> []" "map snd ?selected \<noteq> []" by auto
  have "effects ! i \<in> set (map snd ?selected)" using k nth_mem [of k "map snd ?selected"] by simp
  then have needed: "list_ex is_required (map snd ?selected)"
    using i(2) unfolding list_ex_iff is_required_def by blast
  from run some(1) obtain w u where w: "dispatchSideEffects c cx (map snd ?selected) now tx s = (Ret (Inr w), u)"
    and t: "t = u" by (auto simp: dispatchRequiredSideEffects_def dispatchSelectedSideEffects_def Let_def elim!: bindR_InrE split: if_splits)
  obtain copies input where copies: "hasEffects c" "mapO snapshotSideEffect (map snd ?selected) = Some copies" "dispatchInput cx copies now tx = Some input"
    by (rule required_dispatch_succeeds [OF w some(2) needed])
  from copies(3) obtain copies' cx' where copies': "mapO snapshotSideEffect copies = Some copies'"
    and input: "input = obj [(''context'', cx'), (''effects'', JArr copies'), (''now'', now), (''tx'', tx)]"
    by (auto simp: dispatchInput_def split: option.splits)
  obtain r w' where r: "dispatchToOutbox d input (world s) = (Ret r, w')"
    "refusal r \<or> (\<exists>es. calls w' = calls (world s) @ es \<and> outboxDispatched d input es r)"
    using dispatchToOutbox_ends by blast
  note answer = outbox_dispatcher.core_takes_answer [OF copies(1) over some(2) copies(2,3) r(1)]
  have ok: "fld r ''ok'' = JBool True" and u: "world u = w'"
    using w unfolding answer eqTrueI [OF needed]
    by (auto simp: dispatchFailure_required simp del: fld.simps fld_obj split: if_splits)
  from r(2) ok obtain es where es: "calls w' = calls (world s) @ es" "outboxDispatched d input es r"
    by (auto simp: refusal_def simp del: fld.simps fld_obj)
  have len: "length copies = length ?selected" "length copies' = length ?selected"
    using mapO_length [OF copies(2)] mapO_length [OF copies'] by simp_all
  have copy: "snapshotSideEffect (effects ! i) = Some (copies ! k)" "snapshotSideEffect (copies ! k) = Some (copies' ! k)"
    using mapO_nth [OF copies(2), of k] mapO_nth [OF copies', of k] k len by simp_all
  have policy: "fld (copies' ! k) ''dispatchPolicy'' = JStr ''required''"
    using snapshotSideEffect_policy [OF copy(1)] snapshotSideEffect_policy [OF copy(2)] i(2) by (simp del: fld.simps fld_obj)
  have reads: "map read_elem (arr_elems (fld input ''effects'')) ! k = copies' ! k" "fld input ''tx'' = tx"
    "k < length (map read_elem (arr_elems (fld input ''effects'')))"
    using snapshotSideEffect_read [OF copy(2)] k(1) len by (simp_all add: input)
  from es(2) reads policy obtain cx'' where "effectStored d cx'' tx es (copies' ! k)" "truthy tx \<longrightarrow> allStored es tx"
    unfolding outboxDispatched_def Let_def by metis
  with copy es(1) u t show ?thesis by blast
qed

text \<open>A store that acknowledges what it is given.\<close>

definition acknowledging :: "effectsPort \<Rightarrow> jsv list \<Rightarrow> unit \<Rightarrow> jsv outcome \<times> unit" where
  "acknowledging p args w = (case p of
     GenerateId \<Rightarrow> (Ret (JStr ''m1''), w)
   | EnqueueBatch \<Rightarrow> (Ret (obj [(''ok'', JBool True), (''value'', fld (hd args) ''messages'')]), w)
   | _ \<Rightarrow> (Throw, w))"

definition demo_outbox :: "unit outboxEffects" where
  "demo_outbox = \<lparr>env = \<lparr>reply = acknowledging, machineClock = (\<lambda>w. (0, w)), providesNow = False\<rparr>,
     maxAttemptsOption = JNum 10, digest = id\<rparr>"

definition outbox_cfg :: "unit effectsState cfg" where
  "outbox_cfg = \<lparr>call = (\<lambda>p args. if p = EffectsDispatch then dispatchToOutbox demo_outbox (hd args) else (\<lambda>w. (Throw, w))),
     txRun = None, hasPolicy = False, hasGuard = False, hasAfterAttempt = False, hasEventSink = False, hasEffects = True,
     hasChallenges = False, transactionScopes = JArr [JStr ''outbox''], methods = [], defaultTtlSeconds = JUndef,
     maxTtlSeconds = JUndef\<rparr>"

definition outbox_start :: "unit effectsState st" where
  "outbox_start = \<lparr>world = \<lparr>surroundings = (), calls = [], latest = 0\<rparr>, trace = []\<rparr>"

definition outbox_run :: "(jsv res) outcome \<times> unit effectsState st" where
  "outbox_run = dispatchRequiredSideEffects outbox_cfg demo_context [demo_effect] (at 20) JUndef outbox_start"

lemma outbox_run_accepted: "case outbox_run of (Ret (Inr v), t) \<Rightarrow> length (calls (world t)) = 2 | _ \<Rightarrow> False"
  by code_simp

lemma required_effects_reach_outbox_witness:
  "\<exists>copy copy' cx' es. snapshotSideEffect demo_effect = Some copy \<and> snapshotSideEffect copy = Some copy'
     \<and> effectStored demo_outbox cx' JUndef es copy'"
proof -
  have over: "\<And>input w. call outbox_cfg EffectsDispatch [input] w = dispatchToOutbox demo_outbox input w"
    by (simp add: outbox_cfg_def)
  from outbox_run_accepted obtain v t where run: "outbox_run = (Ret (Inr v), t)"
    by (auto split: prod.splits outcome.splits sum.splits)
  from required_effects_reach_outbox [OF over run [unfolded outbox_run_def], of 0] dispatch_facts(1)
  show ?thesis by auto
qed

text \<open>Runs of the two dispatchers that succeed.\<close>

definition demo_input :: jsv where
  "demo_input = obj [(''context'', obj [(''tenantId'', JStr ''t'')]), (''effects'', JArr [demo_effect]), (''now'', at 20)]"

lemma outbox_dispatch_runs:
  "case dispatchToOutbox demo_outbox demo_input (world outbox_start) of
     (Ret r, t) \<Rightarrow> fld r ''ok'' = JBool True \<and> length (calls t) = 2 | _ \<Rightarrow> False"
  by code_simp

lemma outbox_dispatch_stores_witness:
  "\<exists>r t es. dispatchToOutbox demo_outbox demo_input (world outbox_start) = (Ret r, t)
     \<and> calls t = calls (world outbox_start) @ es \<and> outboxDispatched demo_outbox demo_input es r"
proof -
  obtain r t where run: "dispatchToOutbox demo_outbox demo_input (world outbox_start) = (Ret r, t)"
    "refusal r \<or> (\<exists>es. calls t = calls (world outbox_start) @ es \<and> outboxDispatched demo_outbox demo_input es r)"
    using outbox_dispatch_stores by blast
  with outbox_dispatch_runs have "fld r ''ok'' = JBool True" by simp
  with run show ?thesis by (auto simp: refusal_def simp del: fld.simps fld_obj)
qed

text \<open>A transport that accepts every message.\<close>

definition accepting :: "unit effectsEnv" where
  "accepting = \<lparr>reply = (\<lambda>p args w. (Ret (obj [(''ok'', JBool True), (''value'', obj [(''acceptedAt'', at 21)])]), w)),
     machineClock = (\<lambda>w. (0, w)), providesNow = False\<rparr>"

lemma sync_dispatch_runs:
  "case dispatchSync accepting demo_input (world outbox_start) of
     (Ret r, t) \<Rightarrow> fld r ''ok'' = JBool True \<and> length (calls t) = 1 | _ \<Rightarrow> False"
  by code_simp

lemma sync_dispatch_delivers_witness:
  "\<exists>r t es. dispatchSync accepting demo_input (world outbox_start) = (Ret r, t)
     \<and> calls t = calls (world outbox_start) @ es \<and> syncDispatched demo_input es r"
proof -
  obtain r t where run: "dispatchSync accepting demo_input (world outbox_start) = (Ret r, t)"
    "refusal r \<or> (\<exists>es. calls t = calls (world outbox_start) @ es \<and> syncDispatched demo_input es r)"
    using sync_dispatch_delivers by blast
  with sync_dispatch_runs have "fld r ''ok'' = JBool True" by simp
  with run show ?thesis by (auto simp: refusal_def simp del: fld.simps fld_obj)
qed

end
