(* ===== verification/MethodText.thy ===== *)
theory MethodText
  imports Ports
begin

text \<open>
  What the plugged-in methods \<open>packages/method-password\<close> and \<open>packages/method-otp\<close> have in common,
  each in its own copy: subjects (\<open>subject/normalize.ts\<close>), failures (\<open>shared/errors.ts\<close>) and
  results. Their check of public data is the text of core's, \<open>isPublicData\<close>. A method runs in the
  world its collaborators change; it is called by core, which takes a throw for a failure.
\<close>

section \<open>Subjects\<close>

text \<open>The white space and the letters among the characters of the model.\<close>

definition is_space :: "char \<Rightarrow> bool" where
  "is_space c = (let n = of_char c :: nat in 9 \<le> n \<and> n \<le> 13 \<or> n = 32 \<or> n = 160)"

definition js_trim :: "string \<Rightarrow> string" where
  "js_trim s = rev (dropWhile is_space (rev (dropWhile is_space s)))"

definition lower_char :: "char \<Rightarrow> char" where
  "lower_char c = (let n = of_char c :: nat in
     if 65 \<le> n \<and> n \<le> 90 \<or> 192 \<le> n \<and> n \<le> 222 \<and> n \<noteq> 215 then char_of (n + 32) else c)"

definition normalizeSubject :: "string \<Rightarrow> jsv \<Rightarrow> string" where
  "normalizeSubject subject subjectKind =
     (let trimmed = js_trim subject
      in if subjectKind = JStr ''email'' then map lower_char trimmed else trimmed)"

text \<open>\<open>{ ...value }\<close> of any value.\<close>

fun ownProperties :: "jsv \<Rightarrow> (string \<times> jsv) list" where
  "ownProperties (JStr s) = map (\<lambda>(i, c). (js_string_of_nat i, JStr [c])) (enumerate 0 s)"
| "ownProperties (JArr xs) =
     map (\<lambda>(i, x). (js_string_of_nat i, x)) (filter (\<lambda>(i, x). x \<noteq> JHole) (enumerate 0 xs))"
| "ownProperties v = obj_entries v"

definition makeIdentityClaim :: "jsv \<Rightarrow> jsv" where
  "makeIdentityClaim lookup = obj (ownProperties lookup)"

section \<open>Results\<close>

definition methodOk :: "jsv \<Rightarrow> jsv" where
  "methodOk v = obj [(''ok'', JBool True), (''value'', v)]"

definition methodErr :: "string \<Rightarrow> bool \<Rightarrow> jsv \<Rightarrow> jsv" where
  "methodErr reason countsAsAttempt safePublicCodeHint =
     obj [(''ok'', JBool False), (''error'', obj [(''type'', JStr ''component.failure''),
       (''component'', JStr ''method''), (''reason'', JStr reason), (''countsAsAttempt'', JBool countsAsAttempt),
       (''safePublicCodeHint'', safePublicCodeHint)])]"

definition validationError :: "string \<Rightarrow> jsv" where
  "validationError path =
     obj [(''ok'', JBool False), (''error'', obj [(''type'', JStr ''validation.failure''),
       (''issues'', JArr [obj [(''path'', JArr [JStr path]), (''code'', JStr ''invalid''),
          (''message'', JStr ''Invalid method input.'')]])])]"

definition cryptoFailed :: jsv where
  "cryptoFailed = methodErr ''CRYPTO_FAILED'' False JUndef"

section \<open>Raw secrets\<close>

definition isRawStringSecret :: "jsv \<Rightarrow> bool" where
  "isRawStringSecret v =
     (isRecord v \<and> fld v ''type'' = JStr ''raw-secret'' \<and> is_str (fld v ''redacted'')
      \<and> is_fun (fld v ''reveal'') \<and> is_fun (fld v ''toJSON''))"

definition rawSecret :: "jsv \<Rightarrow> jsv" where
  "rawSecret v = obj [(''type'', JStr ''raw-secret''), (''redacted'', redacted_text),
     (''reveal'', JFun (Some v)), (''toJSON'', JFun (Some redacted_text))]"

section \<open>base64url\<close>

text \<open>The length of \<open>bytes\<close> bytes in base64url: \<open>Math.ceil(bytes * 4 / 3)\<close>.\<close>

definition base64url_length :: "int \<Rightarrow> int" where
  "base64url_length bytes = (4 * bytes + 2) div 3"

definition is_base64url :: "char \<Rightarrow> bool" where
  "is_base64url c = (is_lower c \<or> is_digit c \<or> 65 \<le> (of_char c :: nat) \<and> of_char c \<le> (90 :: nat)
     \<or> c = CHR ''_'' \<or> c = CHR ''-'')"

section \<open>Lemmas\<close>

lemma rawSecret_fields [simp]:
  "fld (rawSecret v) ''type'' = JStr ''raw-secret''" "fld (rawSecret v) ''reveal'' = JFun (Some v)"
  "call_thunk (fld (rawSecret v) ''reveal'') = Some v" "isRawStringSecret (rawSecret v)"
  by (simp_all add: rawSecret_def isRawStringSecret_def redacted_text_def)

lemma methodOk_fields [simp]:
  "fld (methodOk v) ''ok'' = JBool True" "fld (methodOk v) ''value'' = v" "isRecord (methodOk v)"
  by (simp_all add: methodOk_def)

lemma methodErr_fields [simp]:
  "fld (methodErr r b h) ''ok'' = JBool False" "isRecord (methodErr r b h)" "methodErr r b h \<noteq> methodOk v"
  "fld (validationError p) ''ok'' = JBool False" "validationError p \<noteq> methodOk v"
  by (simp_all add: methodErr_def validationError_def methodOk_def)

end
