(* ===== verification/PasswordMethod.thy ===== *)
theory PasswordMethod
  imports MethodText
begin

text \<open>
  \<open>packages/method-password\<close>: the check of the options and of the input
  (\<open>method/create-password-method.ts\<close>, \<open>method/validation.ts\<close>), the calls of the password hasher
  (\<open>password/operations.ts\<close>), the proof (\<open>proof/create.ts\<close>) and the two operations. The hasher
  answers with an arbitrary value or throws, and changes the world arbitrarily.
\<close>

record 'w passwordHasher =
  hashPassword :: "jsv \<Rightarrow> ('w, jsv) M"
  verifyPassword :: "jsv \<Rightarrow> ('w, jsv) M"

record passwordOptions =
  passwordMethodId :: jsv
  passwordSubjectKind :: jsv
  minPasswordLength :: int
  maxPasswordLength :: int

section \<open>Options\<close>

text \<open>\<open>None\<close> is a thrown \<open>TypeError\<close>.\<close>

definition createPasswordMethod :: "jsv \<Rightarrow> passwordOptions option" where
  "createPasswordMethod config =
     (let mid = coalesce (fld config ''methodId'') (JStr ''password.email'');
          kind = coalesce (fld config ''subjectKind'') (JStr ''email'');
          low = coalesce (fld config ''minPasswordLength'') (JNum 8);
          high = coalesce (fld config ''maxPasswordLength'') (JNum 1024);
          hasher = fld config ''passwordHasher'' in
      if \<not> isStableMethodId mid then None
      else if \<not> isSafeText kind 128 True then None
      else if \<not> is_safe_integer low \<or> num_val low < 8 \<or> 128 < num_val low
         \<or> \<not> is_safe_integer high \<or> num_val high < num_val low \<or> 4096 < num_val high then None
      else if \<not> truthy hasher \<or> \<not> hasFunction hasher ''hashPassword'' \<or> \<not> hasFunction hasher ''verifyPassword''
      then None
      else Some \<lparr>passwordMethodId = mid, passwordSubjectKind = kind,
        minPasswordLength = num_val low, maxPasswordLength = num_val high\<rparr>)"

definition passwordRef :: "passwordOptions \<Rightarrow> jsv" where
  "passwordRef m = obj [(''methodId'', passwordMethodId m), (''methodKind'', JStr ''password'')]"

section \<open>Input\<close>

definition passwordLookup :: "passwordOptions \<Rightarrow> string \<Rightarrow> jsv \<Rightarrow> jsv" where
  "passwordLookup m subject display =
     obj [(''methodId'', passwordMethodId m), (''methodKind'', JStr ''password''), (''subject'', JStr subject),
       (''subjectKind'', passwordSubjectKind m), (''display'', display)]"

definition validatePasswordInput :: "passwordOptions \<Rightarrow> jsv \<Rightarrow> jsv" where
  "validatePasswordInput m input =
     (let subjectInput = fld input ''subject''; password = fld input ''password'' in
      if \<not> isRecord input then validationError ''input''
      else if \<not> isSafeText subjectInput (if passwordSubjectKind m = JStr ''email'' then 320 else 512) False
         \<or> js_trim (str_or subjectInput '''') = '''' then validationError ''subject''
      else if \<not> isRawStringSecret password then validationError ''password''
      else case call_thunk (fld password ''reveal'') of
        Some (JStr value) \<Rightarrow>
          if int (length value) < minPasswordLength m \<or> maxPasswordLength m < int (length value)
          then validationError ''password''
          else if fld input ''display'' \<noteq> JUndef \<and> \<not> isSafeText (fld input ''display'') 512 False
          then validationError ''display''
          else if \<not> isPublicData (fld input ''publicData'') then validationError ''publicData''
          else
            let subject = normalizeSubject (str_or subjectInput '''') (passwordSubjectKind m);
                lookup = passwordLookup m subject (coalesce (fld input ''display'') subjectInput) in
            methodOk (obj [
              (''value'', obj [(''subject'', JStr subject), (''password'', rawSecret (JStr value)),
                 (''lookup'', lookup), (''publicData'', fld input ''publicData'')]),
              (''lookup'', lookup), (''publicData'', fld input ''publicData'')])
      | _ \<Rightarrow> validationError ''password'')"

section \<open>The hasher\<close>

definition isPasswordHash :: "jsv \<Rightarrow> bool" where
  "isPasswordHash v =
     (fld v ''type'' = JStr ''protected-value'' \<and> is_str (fld v ''scheme'') \<and> 0 < str_len (fld v ''scheme'')
      \<and> is_str (fld v ''redacted'') \<and> is_fun (fld v ''revealForPersistence'') \<and> is_fun (fld v ''toJSON''))"

definition snapshotPasswordHash :: "jsv \<Rightarrow> jsv option" where
  "snapshotPasswordHash v =
     (case call_thunk (fld v ''revealForPersistence'') of
        Some (JStr verifier) \<Rightarrow>
          if fld v ''createdAt'' \<noteq> JUndef \<and> \<not> isValidDate (fld v ''createdAt'') then None
          else if length verifier = 0 \<or> 1000000 < length verifier \<or> \<not> isSafeText (fld v ''scheme'') 256 True
             \<or> (fld v ''keyId'' \<noteq> JUndef \<and> \<not> isSafeText (fld v ''keyId'') 512 True) then None
          else Some (obj [(''type'', JStr ''protected-value''), (''scheme'', fld v ''scheme''),
            (''redacted'', redacted_text), (''keyId'', fld v ''keyId''), (''createdAt'', fld v ''createdAt''),
            (''revealForPersistence'', JFun (Some (JStr verifier))), (''toJSON'', JFun (Some redacted_text))])
      | _ \<Rightarrow> None)"

text \<open>\<open>None\<close> is the failure \<open>CRYPTO_FAILED\<close>.\<close>

definition safeHashPassword :: "'w passwordHasher \<Rightarrow> jsv \<Rightarrow> ('w, jsv option) M" where
  "safeHashPassword h input =
     bindM (attemptM (hashPassword h input)) (\<lambda>r. ret (case r of
        None \<Rightarrow> None
      | Some result \<Rightarrow>
          if fld result ''ok'' \<noteq> JBool True \<or> \<not> isPasswordHash (fld result ''value'') then None
          else snapshotPasswordHash (fld result ''value'')))"

datatype passwordVerdict = Mismatch | Verified | VerifiedUpgrade jsv

definition readVerdict :: "jsv \<Rightarrow> passwordVerdict option" where
  "readVerdict result =
     (let v = fld result ''value'' in
      if fld result ''ok'' \<noteq> JBool True \<or> \<not> is_bool (fld v ''verified'') then None
      else if fld v ''verified'' = JBool False then
        (if has_key ''needsRehash'' v \<or> has_key ''upgradedValue'' v then None else Some Mismatch)
      else if \<not> has_key ''needsRehash'' v then None
      else if fld v ''needsRehash'' = JBool False then
        (if has_key ''upgradedValue'' v then None else Some Verified)
      else if \<not> isPasswordHash (fld v ''upgradedValue'') then None
      else map_option VerifiedUpgrade (snapshotPasswordHash (fld v ''upgradedValue'')))"

definition safeVerifyPassword :: "'w passwordHasher \<Rightarrow> jsv \<Rightarrow> ('w, passwordVerdict option) M" where
  "safeVerifyPassword h input =
     bindM (attemptM (verifyPassword h input)) (\<lambda>r. ret (case r of
        None \<Rightarrow> None | Some result \<Rightarrow> readVerdict result))"

section \<open>The operations\<close>

definition makeProof :: "jsv \<Rightarrow> jsv \<Rightarrow> jsv \<Rightarrow> jsv" where
  "makeProof method identity now =
     obj [(''type'', JStr ''auth.proof''), (''proofMethod'', method), (''primaryIdentity'', identity),
       (''evidence'', JArr [obj [(''kind'', JStr ''password''), (''method'', method)]]),
       (''assurance'', obj [(''level'', JStr ''medium''), (''factors'', JArr [JStr ''password''])]),
       (''authTime'', now)]"

definition passwordEnroll :: "passwordOptions \<Rightarrow> 'w passwordHasher \<Rightarrow> jsv \<Rightarrow> jsv \<Rightarrow> ('w, jsv) M" where
  "passwordEnroll m h input context =
     bindM (readProp input ''password'') (\<lambda>password.
     bindM (readProp context ''now'') (\<lambda>now.
     bindM (safeHashPassword h (obj [(''password'', password), (''now'', now)])) (\<lambda>hash. case hash of
       None \<Rightarrow> ret cryptoFailed
     | Some passwordHash \<Rightarrow>
         let claim = makeIdentityClaim (coalesce (fld context ''lookup'') (fld input ''lookup'')) in
         ret (methodOk (obj [
           (''identity'', claim),
           (''credentialMaterial'', obj [(''schemaVersion'', JStr ''password.v1''),
              (''privateData'', obj [(''passwordHash'', passwordHash)])]),
           (''proof'', makeProof (passwordRef m) claim now),
           (''publicData'', fld input ''publicData'')])))))"

text \<open>The material the method put into the credential, with the new hash.\<close>

definition upgradedMaterial :: "jsv \<Rightarrow> jsv \<Rightarrow> jsv" where
  "upgradedMaterial material hash =
     spread material [(''privateData'', spread (fld material ''privateData'') [(''passwordHash'', hash)])]"

definition passwordSuccess :: "passwordOptions \<Rightarrow> jsv \<Rightarrow> jsv \<Rightarrow> (string \<times> jsv) list" where
  "passwordSuccess m input context =
     (let lookup = coalesce (fld context ''lookup'') (fld input ''lookup'') in
      [(''proof'', makeProof (passwordRef m) (makeIdentityClaim lookup) (fld context ''now'')),
       (''publicData'', fld input ''publicData'')])"

definition passwordAuthenticate :: "passwordOptions \<Rightarrow> 'w passwordHasher \<Rightarrow> jsv \<Rightarrow> jsv \<Rightarrow> ('w, jsv) M" where
  "passwordAuthenticate m h input context =
     bindM (readProp context ''identity'') (\<lambda>ident.
     let material = fld ident ''credentialMaterial''; passwordHash = fld (fld material ''privateData'') ''passwordHash'' in
     bindM (readProp input ''password'') (\<lambda>password.
     if fld material ''schemaVersion'' \<noteq> JStr ''password.v1'' \<or> \<not> isPasswordHash passwordHash then
       bindM (safeHashPassword h (obj [(''password'', password), (''now'', fld context ''now'')])) (\<lambda>dummyWork.
         ret (if dummyWork = None then cryptoFailed else methodErr ''CREDENTIAL_NOT_FOUND'' True JUndef))
     else
       bindM (safeVerifyPassword h (obj [(''password'', password), (''protectedPassword'', passwordHash),
           (''now'', fld context ''now'')])) (\<lambda>verification. ret (case verification of
         None \<Rightarrow> cryptoFailed
       | Some Mismatch \<Rightarrow> methodErr ''PASSWORD_MISMATCH'' True (JStr ''AUTHENTICATION_FAILED'')
       | Some Verified \<Rightarrow> methodOk (obj (passwordSuccess m input context))
       | Some (VerifiedUpgrade hash) \<Rightarrow>
           methodOk (obj (passwordSuccess m input context
             @ (if truthy material then [(''credentialMaterial'', upgradedMaterial material hash)] else [])))))))"

end
