(* ===== verification/MethodBoundary.thy ===== *)
theory MethodBoundary
  imports MethodText OperationChecks
begin

text \<open>
  Core and a plugged-in method whose code is modelled: what core's copies of inputs, outputs and
  stored material keep of them, and the contract of a method's operation, as a locale.
\<close>

section \<open>What copies keep\<close>

lemma snapshotMethodFields_map_of:
  assumes "snapshotMethodFields kvs d st = Some (lvs, st')"
  shows "map_of kvs k = Some x \<Longrightarrow> \<exists>y st1 st2. map_of lvs k = Some y \<and> snapshotMethodValue x d st1 = Some (y, st2)"
    and "map_of kvs k = None \<Longrightarrow> map_of lvs k = None"
  using assms
proof (induction kvs arbitrary: lvs st)
  case (Cons p kvs)
  obtain j y where p: "p = (j, y)" by (cases p)
  {
    case 1
    then show ?case using Cons.IH(1) unfolding p snapshotMethodFields_Cons by (auto split: if_splits)
  next
    case 2
    then show ?case using Cons.IH(2) unfolding p snapshotMethodFields_Cons by (auto split: if_splits)
  }
qed auto

lemma snapshotValue_obj:
  assumes "snapshotValue (obj kvs) = Some w" and "\<not> isSecretWrapper (obj kvs)"
  obtains lvs st st' where "w = obj lvs" and "snapshotMethodFields kvs 1 st = Some (lvs, st')"
  using assms by (auto simp: snapshotValue_def snapshotMethodValue_JObj simp del: fld.simps fld_obj)

lemma snapshotMethodValue_fld:
  assumes "snapshotMethodValue (obj kvs) d st = Some (y, st')" and "\<not> isSecretWrapper (obj kvs)" and "map_of kvs k = Some x"
  shows "\<exists>d' st1 st2. snapshotMethodValue x d' st1 = Some (fld y k, st2)"
proof -
  from assms(1,2) obtain lvs st1 where "y = obj lvs" "snapshotMethodFields kvs (d + 1) st1 = Some (lvs, st')"
    by (auto simp: snapshotMethodValue_JObj simp del: fld.simps fld_obj)
  with snapshotMethodFields_map_of(1) [OF this(2) assms(3)] show ?thesis by fastforce
qed

text \<open>A protected value of the private data, in the material and in its copy: the same value up to its wrapper.\<close>

definition protects :: "jsv \<Rightarrow> string \<Rightarrow> bool" where
  "protects v verifier = (call_thunk (fld v ''revealForPersistence'') = Some (JStr verifier))"

definition privateItem :: "jsv \<Rightarrow> string \<Rightarrow> jsv" where
  "privateItem material k = fld (fld material ''privateData'') k"

lemma mapO_map_of:
  assumes "mapO (\<lambda>(k, x). map_option (\<lambda>y. (k, y)) (f x)) kvs = Some lvs"
    and "map_of kvs k = Some x"
  shows "f x = map_of lvs k \<and> map_of lvs k \<noteq> None"
  using assms
proof (induction kvs arbitrary: lvs)
  case (Cons p kvs)
  obtain j x where p: "p = (j, x)" by (cases p)
  with Cons.prems obtain y rest where "f x = Some y" "lvs = (j, y) # rest"
    "mapO (\<lambda>(k, x). map_option (\<lambda>y. (k, y)) (f x)) kvs = Some rest"
    by (auto split: option.splits)
  with Cons.IH Cons.prems(2) p show ?case by (auto split: if_splits)
qed simp

lemma fld_obj_entries: "isRecord v \<Longrightarrow> fld v k \<noteq> JUndef \<Longrightarrow> map_of (obj_entries v) k = Some (fld v k)"
  by (cases v) (auto split: option.splits)

lemma snapshotMaterial_item:
  assumes "snapshotMaterial material = Some copy" and "fld (privateItem material k) ''type'' = JStr ''protected-value''"
  shows "protectedValueSnapshot (privateItem material k) = Some (privateItem copy k)"
    and "fld copy ''schemaVersion'' = fld material ''schemaVersion''"
proof -
  let ?p = "fld material ''privateData''"
  from assms(1) obtain shown hidden where hidden: "snapshotPrivateData ?p = Some hidden"
    and copy: "copy = obj [(''schemaVersion'', fld material ''schemaVersion''), (''publicData'', shown), (''privateData'', hidden)]"
    by (auto simp: snapshotMaterial_def simp del: fld.simps fld_obj split: option.splits)
  from copy show "fld copy ''schemaVersion'' = fld material ''schemaVersion''" by simp
  have "fld (fld ?p k) ''type'' \<noteq> JUndef" using assms(2) by (simp add: privateItem_def del: fld.simps fld_obj)
  then have p: "isRecord ?p" "fld ?p k \<noteq> JUndef" by (cases ?p; fastforce)+
  then have "truthy ?p" by (simp add: isRecord_truthy)
  with hidden obtain lvs where lvs: "hidden = JObj True lvs"
    "mapO (\<lambda>(k, x). map_option (\<lambda>y. (k, y)) (if fld x ''type'' = JStr ''protected-value'' then protectedValueSnapshot x
        else if fld x ''type'' = JStr ''sealed-secret'' then sealedValueSnapshot x else structuredClone x)) (obj_entries ?p) = Some lvs"
    by (auto simp: snapshotPrivateData_def mapEntries_def simp del: fld.simps fld_obj)
  have "protectedValueSnapshot (fld ?p k) = map_of lvs k \<and> map_of lvs k \<noteq> None"
    using mapO_map_of [OF lvs(2) fld_obj_entries [OF p]] assms(2) by (simp add: privateItem_def del: fld.simps fld_obj)
  then show "protectedValueSnapshot (privateItem material k) = Some (privateItem copy k)"
    by (auto simp: privateItem_def copy lvs(1))
qed

lemma fields_have_function_iff: "fields_have_function kvs \<longleftrightarrow> (\<exists>k x. (k, x) \<in> set kvs \<and> has_function x)"
  by (induction kvs) (auto, blast+)

lemma clone_field_not_fun: "structuredClone v = Some w \<Longrightarrow> \<not> is_fun (fld w k)"
proof (rule notI)
  assume "structuredClone v = Some w" and f: "is_fun (fld w k)"
  from structuredClone_idem(1) [OF \<open>structuredClone v = Some w\<close>]
  have "\<not> has_function w" by (simp add: structuredClone_None_iff(1) [symmetric])
  moreover from f obtain p kvs x where "w = JObj p kvs" "map_of kvs k = Some (JFun x)"
    by (cases w) (auto split: option.splits elim!: is_fun.elims)
  ultimately show False using map_of_SomeD by (fastforce simp: fields_have_function_iff)
qed

lemma mapO_map_of_back:
  assumes "mapO (\<lambda>(k, x). map_option (\<lambda>y. (k, y)) (f x)) kvs = Some lvs" and "map_of lvs k = Some y"
  shows "\<exists>x. map_of kvs k = Some x \<and> f x = Some y"
  using assms
proof (induction kvs arbitrary: lvs)
  case (Cons p kvs)
  obtain j x where p: "p = (j, x)" by (cases p)
  with Cons.prems obtain z rest where "f x = Some z" "lvs = (j, z) # rest"
    "mapO (\<lambda>(k, x). map_option (\<lambda>y. (k, y)) (f x)) kvs = Some rest"
    by (auto split: option.splits)
  with Cons.IH Cons.prems(2) p show ?case by (auto split: if_splits)
qed simp

text \<open>A protected value in the copy is the copy of a protected value.\<close>

lemma snapshotMaterial_item_back:
  assumes "snapshotMaterial material = Some copy"
    and "fld (privateItem copy k) ''type'' = JStr ''protected-value''" and "is_fun (fld (privateItem copy k) j)"
  shows "protectedValueSnapshot (privateItem material k) = Some (privateItem copy k)"
proof -
  let ?p = "fld material ''privateData''" and ?y = "privateItem copy k"
  from assms(1) obtain shown hidden where hidden: "snapshotPrivateData ?p = Some hidden"
    and copy: "copy = obj [(''schemaVersion'', fld material ''schemaVersion''), (''publicData'', shown), (''privateData'', hidden)]"
    by (auto simp: snapshotMaterial_def simp del: fld.simps fld_obj split: option.splits)
  have y: "?y = fld hidden k" by (simp add: privateItem_def copy)
  from assms(2) have "hidden \<noteq> JUndef" unfolding y by auto
  with hidden obtain lvs where lvs: "hidden = JObj True lvs"
    "mapO (\<lambda>(k, x). map_option (\<lambda>y. (k, y)) (if fld x ''type'' = JStr ''protected-value'' then protectedValueSnapshot x
        else if fld x ''type'' = JStr ''sealed-secret'' then sealedValueSnapshot x else structuredClone x)) (obj_entries ?p) = Some lvs"
    by (auto simp: snapshotPrivateData_def mapEntries_def simp del: fld.simps fld_obj split: if_splits)
  have "map_of lvs k = Some ?y" using assms(2) unfolding y lvs(1) by (auto split: option.splits)
  from mapO_map_of_back [OF lvs(2) this] obtain x where x: "map_of (obj_entries ?p) k = Some x"
    "(if fld x ''type'' = JStr ''protected-value'' then protectedValueSnapshot x
      else if fld x ''type'' = JStr ''sealed-secret'' then sealedValueSnapshot x else structuredClone x) = Some ?y" by blast
  have type: "fld x ''type'' = JStr ''protected-value''"
  proof (rule ccontr)
    assume other: "fld x ''type'' \<noteq> JStr ''protected-value''"
    show False
    proof (cases "fld x ''type'' = JStr ''sealed-secret''")
      case True
      with other x(2) have "fld ?y ''type'' = JStr ''sealed-secret''"
        by (auto simp: sealedValueSnapshot_def simp del: fld.simps fld_obj dest!: sym [of _ "privateItem copy k"]
            split: option.splits jsv.splits if_splits) simp
      with assms(2) show False by simp
    next
      case False
      with other x(2) have "structuredClone x = Some ?y" by simp
      from clone_field_not_fun [OF this] assms(3) show False by blast
    qed
  qed
  then have "\<exists>q kvs. ?p = JObj q kvs" using x(1) by (cases ?p) (auto simp: map_of_eq_None_iff dest!: map_of_SomeD)
  with x type show ?thesis by (auto simp: privateItem_def simp del: fld.simps)
qed

lemma protectedValueSnapshot_protects:
  "protectedValueSnapshot v = Some w \<Longrightarrow> \<exists>verifier. protects v verifier \<and> protects w verifier
     \<and> fld w ''scheme'' = fld v ''scheme''"
  by (auto simp: protectedValueSnapshot_def protects_def constant_fun_def simp del: fld.simps
      split: option.splits jsv.splits if_splits)

text \<open>A protected value with a scheme and a text, and what the copies make of it.\<close>

definition carries :: "jsv \<Rightarrow> string \<Rightarrow> string \<Rightarrow> bool" where
  "carries v scheme verifier \<longleftrightarrow> (\<exists>kvs. v = obj kvs) \<and> fld v ''type'' = JStr ''protected-value'' \<and> fld v ''scheme'' = JStr scheme
     \<and> is_str (fld v ''redacted'') \<and> protects v verifier \<and> is_fun (fld v ''toJSON'')"

definition wellKeyed :: "jsv \<Rightarrow> bool" where
  "wellKeyed v \<longleftrightarrow> (fld v ''keyId'' = JUndef \<or> isSafeText (fld v ''keyId'') 512 True)
     \<and> (fld v ''createdAt'' = JUndef \<or> isValidDate (fld v ''createdAt''))"

lemma carries_value:
  assumes "snapshotMethodValue v d st = Some (w, st')" and "carries v scheme verifier"
  shows "carries w scheme verifier" and "wellKeyed w"
proof -
  from assms(2) obtain kvs where v: "v = obj kvs" "fld v ''type'' = JStr ''protected-value''"
    "fld v ''revealForPersistence'' = JFun (Some (JStr verifier))" "fld v ''scheme'' = JStr scheme"
    by (auto simp: carries_def protects_def call_thunk_Some_iff simp del: fld.simps fld_obj)
  then have "isSecretWrapper v" by (simp add: isSecretWrapper_def del: fld.simps fld_obj)
  with assms(1) v obtain u where "snapshotSecretWrapper v u = Some (w, st')"
    by (auto simp: snapshotMethodValue_JObj simp del: fld.simps fld_obj)
  with v(2-) show "carries w scheme verifier" "wellKeyed w"
    by (auto simp: snapshotSecretWrapper_def Let_def carries_def wellKeyed_def protects_def redacted_text_def constant_fun_def
        snapshotOptionalDate_def simp del: fld.simps split: if_splits option.splits)
qed

lemma carries_protected:
  assumes "protectedValueSnapshot v = Some w" and "carries v scheme verifier"
  shows "carries w scheme verifier" and "wellKeyed v \<Longrightarrow> wellKeyed w"
  using assms
  by (auto simp: protectedValueSnapshot_def carries_def wellKeyed_def protects_def constant_fun_def redacted_text_def copy_date_opt_def
      simp del: fld.simps split: option.splits jsv.splits if_splits)

text \<open>The copy of a raw secret reveals what it revealed.\<close>

lemma snapshotMethodValue_secret:
  assumes "snapshotMethodValue v d st = Some (y, st')" and "isRawStringSecret v"
  shows "\<exists>x. call_thunk (fld v ''reveal'') = Some x \<and> y = rawSecret x"
proof -
  from assms(2) have type: "fld v ''type'' = JStr ''raw-secret''" "is_fun (fld v ''reveal'')"
    by (auto simp: isRawStringSecret_def simp del: fld.simps fld_obj)
  then obtain q kvs where v: "v = JObj q kvs" by (cases v) auto
  have "isSecretWrapper v" using type by (simp add: isSecretWrapper_def del: fld.simps fld_obj)
  with assms(1) obtain u where "snapshotSecretWrapper v u = Some (y, st')"
    by (auto simp: v snapshotMethodValue_JObj simp del: fld.simps fld_obj)
  with type show ?thesis
    by (auto simp: snapshotSecretWrapper_def rawSecret_def constant_fun_def simp del: fld.simps fld_obj
        split: if_splits option.splits jsv.splits)
qed

lemma snapshotValue_secret_fields:
  assumes "snapshotValue (obj kvs) = Some w" and "\<not> isSecretWrapper (obj kvs)" and "map_of kvs k = Some v"
    and "isRawStringSecret v" and "call_thunk (fld v ''reveal'') = Some x"
  shows "fld w k = rawSecret x"
proof -
  from assms(1) obtain st where "snapshotMethodValue (obj kvs) 0 start_traversal = Some (w, st)"
    by (auto simp: snapshotValue_def)
  from snapshotMethodValue_fld [OF this assms(2,3)] snapshotMethodValue_secret [OF _ assms(4)] assms(5) show ?thesis by fastforce
qed

section \<open>The calls core makes\<close>

lemma invokeMethodRun_modelled:
  assumes "\<And>v ec w. call c (MethodRun k op) [v, ec] w = run v ec w"
    and "invokeMethodRun c k op v ec s = (Ret (Inr val), t)"
  obtains r where "run v ec (world s) = (Ret r, world t)" and "runOutcome r = Inr val"
  using assms(2) unfolding invokeMethodRun_def
  by (auto simp: attemptM_def callPort_def assms(1) bindM_def split: prod.splits outcome.splits option.splits)

lemma runOutcome_ok: "runOutcome r = Inr v \<Longrightarrow> fld r ''ok'' = JBool True"
  by (auto simp: runOutcome_def simp del: fld.simps fld_obj split: if_splits option.splits)

lemma invokeMethodValidation_modelled:
  assumes "\<And>v vc w. call c (MethodValidate k op) [v, vc] w = (validated v, w)"
    and "invokeMethodValidation c k op input vc s = (Ret (Some v), t)"
  obtains r where "validated input = Ret r" and "fld r ''ok'' = JBool True"
    and "snapshotValidatedMethodInput (fld r ''value'') = Some v"
  using assms(2) unfolding invokeMethodValidation_def
  by (auto simp: attemptM_def callPort_def assms(1) bindM_def simp del: fld.simps fld_obj
      split: prod.splits outcome.splits option.splits if_splits)

lemma snapshotValidated_fields:
  assumes "snapshotValidatedMethodInput v = Some w"
  shows "snapshotValue (fld v ''value'') = Some (fld w ''value'')"
    and "fld v ''lookup'' = JUndef \<longrightarrow> fld w ''lookup'' = JUndef"
    and "fld v ''lookup'' \<noteq> JUndef \<longrightarrow> snapshotLookup (fld v ''lookup'') = Some (fld w ''lookup'')"
  using assms unfolding snapshotValidatedMethodInput_def Let_def by (auto split: if_splits option.splits)

lemma snapshotLookup_subject:
  "snapshotLookup v = Some w \<Longrightarrow> fld w ''subject'' = fld v ''subject'' \<and> truthy w"
  by (auto simp: snapshotLookup_def simp del: fld.simps fld_obj split: if_splits) (simp_all)

lemma executionContext_fields:
  assumes "executionContext method auth now lookup ident = Some ec"
  shows "fld ec ''now'' = now" and "fld ec ''lookup'' = (if truthy lookup then spread lookup [] else JUndef)"
    and "ident = Some (i, k, material) \<Longrightarrow> truthy material \<Longrightarrow>
      snapshotMaterial material = Some (fld (fld ec ''identity'') ''credentialMaterial'')"
    and "\<not> nullish ec"
    and "\<exists>a. decisionAuthContext auth = Some a \<and> fld ec ''auth'' = a"
  using assms by (auto simp: executionContext_def snapshot_opt_def nullish_def split: option.splits prod.splits if_splits)

section \<open>The contract of a method's operation\<close>

lemma public_code_text: "isPublicCode hint \<Longrightarrow> \<exists>s. hint = JStr s \<and> length s \<le> 30"
  by (auto simp: isPublicCode_def publicCodes_def)

lemma failureOutcome:
  assumes "isSafeReason (JStr reason)" and "hint = JUndef \<or> isPublicCode hint"
  shows "runOutcome (methodErr reason counts hint) = Inl (fld (methodErr reason counts hint) ''error'')"
proof -
  let ?e = "fld (methodErr reason counts hint) ''error''"
  have e: "?e = obj [(''type'', JStr ''component.failure''), (''component'', JStr ''method''), (''reason'', JStr reason),
      (''countsAsAttempt'', JBool counts), (''safePublicCodeHint'', hint)]"
    by (simp add: methodErr_def)
  have "snapshotValue ?e = Some ?e"
    using assms unfolding e
    by (elim disjE) (auto dest!: public_code_text simp: snapshotValue_def snapshotMethodValue.simps isSecretWrapper_def
        takeCharacters_def start_traversal_def Let_def)
  moreover have "isMethodFailure ?e"
    using assms unfolding isMethodFailure_def e by (simp add: isPublicData_def)
  ultimately show ?thesis by (simp add: runOutcome_def)
qed

text \<open>An answer is a value or a failure core takes as it is.\<close>

definition isMethodAnswer :: "jsv \<Rightarrow> bool" where
  "isMethodAnswer r \<longleftrightarrow> (\<exists>x. r = methodOk x) \<or> (\<exists>reason counts hint. r = methodErr reason counts hint
     \<and> isSafeReason (JStr reason) \<and> (hint = JUndef \<or> isPublicCode hint))"

lemma isMethodAnswer_ok [simp]: "isMethodAnswer (methodOk x)"
  unfolding isMethodAnswer_def by blast

lemma isMethodAnswer_err:
  "isSafeReason (JStr reason) \<Longrightarrow> hint = JUndef \<or> isPublicCode hint \<Longrightarrow> isMethodAnswer (methodErr reason counts hint)"
  unfolding isMethodAnswer_def by blast

lemma method_reasons [simp]:
  "isMethodAnswer cryptoFailed" "isMethodAnswer (methodErr ''CREDENTIAL_NOT_FOUND'' b JUndef)"
  "isMethodAnswer (methodErr ''PASSWORD_MISMATCH'' b (JStr ''AUTHENTICATION_FAILED''))"
  "isMethodAnswer (methodErr ''OTP_MISMATCH'' b (JStr ''CHALLENGE_FAILED''))"
  "isMethodAnswer (methodErr ''INTERNAL'' b (JStr ''CHALLENGE_FAILED''))"
  "isMethodAnswer (methodErr ''DELIVERY_FAILED'' b JUndef)"
  unfolding cryptoFailed_def
  by (rule isMethodAnswer_err; simp add: no_control_def is_control_def isPublicCode_def publicCodes_def)+

locale method_operation =
  fixes run :: "jsv \<Rightarrow> jsv \<Rightarrow> ('w, jsv) M"
  assumes answers: "run v ctx w = (Ret r, w') \<Longrightarrow> isMethodAnswer r"
begin

lemma core_takes_failure:
  assumes over: "\<And>v ec w. call c (MethodRun k op) [v, ec] w = run v ec w"
    and failed: "run v ec (world s) = (Ret r, w)" "fld r ''ok'' \<noteq> JBool True"
  shows "\<exists>t. invokeMethodRun c k op v ec s = (Ret (Inl (fld r ''error'')), t) \<and> world t = w"
proof -
  from answers [OF failed(1)] failed(2) obtain reason counts hint where r: "r = methodErr reason counts hint"
    "isSafeReason (JStr reason)" "hint = JUndef \<or> isPublicCode hint" unfolding isMethodAnswer_def by auto
  with failureOutcome have "runOutcome r = Inl (fld r ''error'')" by blast
  then show ?thesis
    by (auto simp: invokeMethodRun_def attemptM_def callPort_def over failed(1) bindM_def)
qed

end

end
