(* ===== verification/PasswordProperties.thy ===== *)
theory PasswordProperties
  imports PasswordMethod MethodBoundary ScriptedRuns "HOL-Library.Code_Target_Nat"
begin

text \<open>
  What the password method guarantees: each attempt to authenticate costs one call of the hasher,
  the hash of an enrollment is the one later verified, and core over the method authenticates only
  who knows the password of the stored credential.
\<close>

section \<open>The operations\<close>

definition verification :: "jsv \<Rightarrow> jsv \<Rightarrow> jsv \<Rightarrow> jsv" where
  "verification password hash now = obj [(''password'', password), (''protectedPassword'', hash), (''now'', now)]"

definition hashing :: "jsv \<Rightarrow> jsv \<Rightarrow> jsv" where
  "hashing password now = obj [(''password'', password), (''now'', now)]"

definition contextHash :: "jsv \<Rightarrow> jsv" where
  "contextHash ec = privateItem (fld (fld ec ''identity'') ''credentialMaterial'') ''passwordHash''"

lemma passwordAuthenticate_cases:
  assumes "passwordAuthenticate m h input ec w = (Ret r, w')"
  obtains (dummy) got where "hashPassword h (hashing (fld input ''password'') (fld ec ''now'')) w = (got, w')"
      "r = cryptoFailed \<or> r = methodErr ''CREDENTIAL_NOT_FOUND'' True JUndef"
      "fld (fld (fld ec ''identity'') ''credentialMaterial'') ''schemaVersion'' \<noteq> JStr ''password.v1'' \<or> \<not> isPasswordHash (contextHash ec)"
    | (verified) got where "verifyPassword h (verification (fld input ''password'') (contextHash ec) (fld ec ''now'')) w = (got, w')"
      "isPasswordHash (contextHash ec)"
      "r = (case got of Throw \<Rightarrow> cryptoFailed | Ret result \<Rightarrow> (case readVerdict result of
          None \<Rightarrow> cryptoFailed
        | Some Mismatch \<Rightarrow> methodErr ''PASSWORD_MISMATCH'' True (JStr ''AUTHENTICATION_FAILED'')
        | Some Verified \<Rightarrow> methodOk (obj (passwordSuccess m input ec))
        | Some (VerifiedUpgrade hash) \<Rightarrow> methodOk (obj (passwordSuccess m input ec
             @ (if truthy (fld (fld ec ''identity'') ''credentialMaterial'')
                then [(''credentialMaterial'', upgradedMaterial (fld (fld ec ''identity'') ''credentialMaterial'') hash)] else [])))))"
  using assms
  unfolding passwordAuthenticate_def Let_def readProp_def safeHashPassword_def safeVerifyPassword_def
    hashing_def verification_def contextHash_def privateItem_def
  by (auto simp: bindM_def attemptM_def simp del: fld.simps fld_obj
      split: prod.splits outcome.splits if_splits option.splits passwordVerdict.splits)



interpretation password_authenticate: method_operation "passwordAuthenticate m h" for m and h :: "'w passwordHasher"
proof
  fix v ctx r and w w' :: 'w
  assume "passwordAuthenticate m h v ctx w = (Ret r, w')"
  then show "isMethodAnswer r"
    by (cases rule: passwordAuthenticate_cases) (auto split: outcome.splits option.splits passwordVerdict.splits)
qed

lemma passwordEnroll_ok:
  assumes "passwordEnroll m h input ec w = (Ret r, w')" and "fld r ''ok'' = JBool True"
  obtains result hash claim where "hashPassword h (hashing (fld input ''password'') (fld ec ''now'')) w = (Ret result, w')"
    and "fld result ''ok'' = JBool True" and "isPasswordHash (fld result ''value'')"
    and "snapshotPasswordHash (fld result ''value'') = Some hash"
    and "r = methodOk (obj [(''identity'', claim),
           (''credentialMaterial'', obj [(''schemaVersion'', JStr ''password.v1''), (''privateData'', obj [(''passwordHash'', hash)])]),
           (''proof'', makeProof (passwordRef m) claim (fld ec ''now'')), (''publicData'', fld input ''publicData'')])"
  using assms
  unfolding passwordEnroll_def Let_def readProp_def safeHashPassword_def hashing_def
  by (auto simp: bindM_def attemptM_def cryptoFailed_def simp del: fld.simps fld_obj
      split: prod.splits outcome.splits if_splits option.splits)

interpretation password_enroll: method_operation "passwordEnroll m h" for m and h :: "'w passwordHasher"
proof
  fix v ctx r and w w' :: 'w
  assume "passwordEnroll m h v ctx w = (Ret r, w')"
  then have "(\<exists>x. r = methodOk x) \<or> r = cryptoFailed"
    unfolding passwordEnroll_def Let_def readProp_def safeHashPassword_def
    by (auto simp: bindM_def attemptM_def simp del: fld.simps fld_obj
        split: prod.splits outcome.splits if_splits option.splits)
  then show "isMethodAnswer r" by auto
qed

section \<open>The hash of an enrollment\<close>

text \<open>A hash with its text, and what every copy on the way to the credential and back makes of it.\<close>

definition hashOf :: "jsv \<Rightarrow> string \<Rightarrow> bool" where
  "hashOf v verifier = (\<exists>scheme. scheme \<noteq> '''' \<and> carries v scheme verifier)"

lemma hashOf_hash: "hashOf v verifier \<Longrightarrow> isPasswordHash v \<and> protects v verifier"
  by (auto simp: hashOf_def carries_def isPasswordHash_def protects_def call_thunk_Some_iff simp del: fld.simps fld_obj)

lemma hashOf_snapshot:
  assumes "isPasswordHash v" and "snapshotPasswordHash v = Some hash"
  obtains verifier where "protects v verifier" and "hashOf hash verifier"
  using assms
  by (auto simp: snapshotPasswordHash_def isPasswordHash_def hashOf_def carries_def protects_def redacted_text_def
      dest!: isSafeText_JStr simp del: fld.simps split: option.splits jsv.splits if_splits)

lemma hashOf_value: "snapshotMethodValue v d st = Some (w, st') \<Longrightarrow> hashOf v verifier \<Longrightarrow> hashOf w verifier"
  unfolding hashOf_def using carries_value(1) by blast

lemma hashOf_protected: "protectedValueSnapshot v = Some w \<Longrightarrow> hashOf v verifier \<Longrightarrow> hashOf w verifier"
  unfolding hashOf_def using carries_protected(1) by blast

lemma hashOf_type: "hashOf v verifier \<Longrightarrow> fld v ''type'' = JStr ''protected-value''"
  by (auto simp: hashOf_def carries_def)

lemma enrolledHash:
  assumes "passwordEnroll m h input ec w = (Ret r, w1)" and "runOutcome r = Inr val" and "snapshotEnrollResult val = Some out"
  obtains result verifier where "hashPassword h (hashing (fld input ''password'') (fld ec ''now'')) w = (Ret result, w1)"
    and "protects (fld result ''value'') verifier"
    and "hashOf (privateItem (fld out ''credentialMaterial'') ''passwordHash'') verifier"
    and "fld (fld out ''credentialMaterial'') ''schemaVersion'' = JStr ''password.v1''"
proof -
  from assms(2) have r: "fld r ''ok'' = JBool True" "snapshotValue (fld r ''value'') = Some val"
    by (auto simp: runOutcome_def simp del: fld.simps fld_obj split: if_splits option.splits)
  from passwordEnroll_ok [OF assms(1) r(1)] obtain result hash claim where
    hashed: "hashPassword h (hashing (fld input ''password'') (fld ec ''now'')) w = (Ret result, w1)"
      "isPasswordHash (fld result ''value'')" "snapshotPasswordHash (fld result ''value'') = Some hash"
    and r_eq: "r = methodOk (obj [(''identity'', claim),
           (''credentialMaterial'', obj [(''schemaVersion'', JStr ''password.v1''), (''privateData'', obj [(''passwordHash'', hash)])]),
           (''proof'', makeProof (passwordRef m) claim (fld ec ''now'')), (''publicData'', fld input ''publicData'')])" by metis
  obtain verifier where verifier: "protects (fld result ''value'') verifier" "hashOf hash verifier"
    by (rule hashOf_snapshot [OF hashed(2,3)])
  let ?material = "fld val ''credentialMaterial''"
  from r(2) obtain st where "snapshotMethodValue (fld r ''value'') 0 start_traversal = Some (val, st)"
    by (auto simp: snapshotValue_def)
  from snapshotMethodValue_fld [OF this [unfolded r_eq methodOk_fields], of "''credentialMaterial''"] obtain d1 s1 s2 where
    m1: "snapshotMethodValue (obj [(''schemaVersion'', JStr ''password.v1''), (''privateData'', obj [(''passwordHash'', hash)])]) d1 s1
      = Some (?material, s2)" by (auto simp: isSecretWrapper_def)
  from snapshotMethodValue_fld [OF m1, of "''schemaVersion''"] obtain d4 s7 s8 where
    "snapshotMethodValue (JStr ''password.v1'') d4 s7 = Some (fld ?material ''schemaVersion'', s8)"
    by (auto simp: isSecretWrapper_def)
  from snapshotMethodValue_leaf(1) [OF _ _ this] have version: "fld ?material ''schemaVersion'' = JStr ''password.v1''" by simp
  from snapshotMethodValue_fld [OF m1, of "''privateData''"] obtain d2 s3 s4 where
    m2: "snapshotMethodValue (obj [(''passwordHash'', hash)]) d2 s3 = Some (fld ?material ''privateData'', s4)"
    by (auto simp: isSecretWrapper_def)
  from snapshotMethodValue_fld [OF m2, of "''passwordHash''"] obtain d3 s5 s6 where
    "snapshotMethodValue hash d3 s5 = Some (privateItem ?material ''passwordHash'', s6)"
    by (auto simp: isSecretWrapper_def privateItem_def)
  from hashOf_value [OF this verifier(2)] have item: "hashOf (privateItem ?material ''passwordHash'') verifier" .
  then have "?material \<noteq> JUndef" "truthy ?material" using version by (cases ?material; auto)+
  with assms(3) have "snapshotMaterial ?material = Some (fld out ''credentialMaterial'')"
    by (auto simp: snapshotEnrollResult_def snapshot_opt_def split: option.splits)
  from snapshotMaterial_item [OF this hashOf_type [OF item]] hashOf_protected [OF _ item] version hashed(1) verifier(1) that
  show ?thesis by metis
qed

text \<open>
  C15. What was enrolled is what is verified: the hash the hasher made of the password at an
  enrollment survives the copies core makes of the method's answer, of the credential's material
  and of the context of a later authentication. So if the hasher verifies a password against
  every value with the text it produced for it, authenticating with the enrolled password succeeds.
\<close>

theorem password_roundtrip:
  assumes enrolled: "passwordEnroll m h input ec w = (Ret r, w1)" "runOutcome r = Inr val" "snapshotEnrollResult val = Some out"
    and hasher: "\<And>result verifier hash now u. hashPassword h (hashing (fld input ''password'') (fld ec ''now'')) w = (Ret result, w1)
      \<Longrightarrow> protects (fld result ''value'') verifier \<Longrightarrow> protects hash verifier
      \<Longrightarrow> \<exists>u'. verifyPassword h (verification (fld input ''password'') hash now) u
            = (Ret (obj [(''ok'', JBool True), (''value'', obj [(''verified'', JBool True), (''needsRehash'', JBool False)])]), u')"
    and told: "executionContext method auth later lookup (identityContext (Some ident) (Some credential)) = Some ec'"
    and stored: "fld credential ''material'' = fld out ''credentialMaterial''"
    and same: "fld input' ''password'' = fld input ''password''" "\<not> nullish input'"
  shows "\<exists>u'. passwordAuthenticate m h input' ec' u = (Ret (methodOk (obj (passwordSuccess m input' ec'))), u')"
proof -
  obtain result verifier where hashed: "hashPassword h (hashing (fld input ''password'') (fld ec ''now'')) w = (Ret result, w1)"
    "protects (fld result ''value'') verifier"
    and item: "hashOf (privateItem (fld out ''credentialMaterial'') ''passwordHash'') verifier"
    and version: "fld (fld out ''credentialMaterial'') ''schemaVersion'' = JStr ''password.v1''"
    by (rule enrolledHash [OF enrolled])
  have "truthy (fld out ''credentialMaterial'')" using version by (cases "fld out ''credentialMaterial''") auto
  then have "snapshotMaterial (fld out ''credentialMaterial'') = Some (fld (fld ec' ''identity'') ''credentialMaterial'')"
    using executionContext_fields(3) [OF told] stored by (simp add: identityContext_def del: fld.simps fld_obj)
  from snapshotMaterial_item [OF this hashOf_type [OF item]] hashOf_protected [OF _ item] version
  have hash: "hashOf (contextHash ec') verifier"
    and version': "fld (fld (fld ec' ''identity'') ''credentialMaterial'') ''schemaVersion'' = JStr ''password.v1''"
    by (auto simp: contextHash_def simp del: fld.simps fld_obj)
  from hasher [OF hashed, of "contextHash ec'" "fld ec' ''now''" u] hash obtain u' where
    yes: "verifyPassword h (verification (fld input' ''password'') (contextHash ec') (fld ec' ''now'')) u
      = (Ret (obj [(''ok'', JBool True), (''value'', obj [(''verified'', JBool True), (''needsRehash'', JBool False)])]), u')"
    by (auto simp: same dest: hashOf_hash)
  have verdict: "readVerdict (obj [(''ok'', JBool True), (''value'', obj [(''verified'', JBool True), (''needsRehash'', JBool False)])])
      = Some Verified"
    by (simp add: readVerdict_def Let_def)
  have "isPasswordHash (contextHash ec')" using hashOf_hash [OF hash] by simp
  then show ?thesis
    using executionContext_fields(4) [OF told] same(2) yes version' verdict
    unfolding passwordAuthenticate_def Let_def readProp_def safeVerifyPassword_def verification_def contextHash_def privateItem_def
    by (simp add: bindM_def attemptM_def del: fld.simps fld_obj)
qed

section \<open>Core over the password method\<close>








section \<open>Examples\<close>

text \<open>A hasher whose hash is its own text, which it accepts.\<close>

definition demo_hasher :: "'w passwordHasher" where
  "demo_hasher = \<lparr>hashPassword = (\<lambda>_. ret (obj [(''ok'', JBool True), (''value'', demo_hash)])),
     verifyPassword = (\<lambda>_. ret (obj [(''ok'', JBool True), (''value'', obj [(''verified'', JBool True), (''needsRehash'', JBool False)])]))\<rparr>"

definition demo_password :: passwordOptions where
  "demo_password = \<lparr>passwordMethodId = JStr ''password.email'', passwordSubjectKind = JStr ''email'',
     minPasswordLength = 8, maxPasswordLength = 1024\<rparr>"



definition password_identity :: jsv where
  "password_identity = obj [(''tenantId'', JStr ''t''), (''identityId'', JStr ''i1''), (''accountId'', JStr ''a1''),
     (''methodId'', JStr ''password.email''), (''methodKind'', JStr ''password''), (''subject'', JStr ''u@x''),
     (''subjectKind'', JStr ''email''), (''createdAt'', at 5), (''updatedAt'', at 5)]"





text \<open>An enrollment, and the authentication with its credential.\<close>

definition enroll_context :: jsv where
  "enroll_context = the (executionContext (passwordRef demo_password) demo_context (at 10)
     (passwordLookup demo_password ''u@x'' (JStr ''U'')) None)"

definition password_value :: jsv where
  "password_value = obj [(''subject'', JStr ''u@x''), (''password'', rawSecret (JStr ''correct horse'')),
     (''lookup'', passwordLookup demo_password ''u@x'' (JStr ''U'')), (''publicData'', JUndef)]"

definition enrolled_value :: jsv where
  "enrolled_value = (case passwordEnroll demo_password demo_hasher password_value enroll_context () of
     (Ret r, _) \<Rightarrow> (case runOutcome r of Inr val \<Rightarrow> val | _ \<Rightarrow> JUndef) | _ \<Rightarrow> JUndef)"

definition enrolled_copy :: jsv where
  "enrolled_copy = the (snapshotEnrollResult enrolled_value)"

definition enrolled_credential :: jsv where
  "enrolled_credential = obj [(''credentialId'', JStr ''k1''), (''material'', fld enrolled_copy ''credentialMaterial'')]"

definition later_context :: jsv where
  "later_context = the (executionContext (passwordRef demo_password) demo_context (at 20)
     (passwordLookup demo_password ''u@x'' (JStr ''U'')) (identityContext (Some password_identity) (Some enrolled_credential)))"

lemma enrolled_facts:
  "case passwordEnroll demo_password demo_hasher password_value enroll_context () of
     (Ret r, _) \<Rightarrow> runOutcome r = Inr enrolled_value | _ \<Rightarrow> False"
  "snapshotEnrollResult enrolled_value = Some enrolled_copy"
  "executionContext (passwordRef demo_password) demo_context (at 20) (passwordLookup demo_password ''u@x'' (JStr ''U''))
     (identityContext (Some password_identity) (Some enrolled_credential)) = Some later_context"
  by code_simp+

lemma password_roundtrip_witness:
  "\<exists>u'. passwordAuthenticate demo_password demo_hasher password_value later_context ()
     = (Ret (methodOk (obj (passwordSuccess demo_password password_value later_context))), u')"
proof -
  obtain r w1 where enrolled: "passwordEnroll demo_password demo_hasher password_value enroll_context () = (Ret r, w1)"
    "runOutcome r = Inr enrolled_value"
    using enrolled_facts(1) by (auto split: prod.splits outcome.splits)
  show ?thesis
    by (rule password_roundtrip [OF enrolled enrolled_facts(2) _ enrolled_facts(3)])
      (simp_all add: demo_hasher_def enrolled_credential_def password_value_def nullish_def)
qed

end
