(* ===== verification/OtpMethod.thy ===== *)
theory OtpMethod
  imports MethodText
begin

text \<open>
  \<open>packages/method-otp\<close>: the options (\<open>method/options.ts\<close>), the checks of inputs and lookups
  (\<open>method/validation.ts\<close>), the calls of the crypto provider (\<open>crypto/operations.ts\<close>) and of the
  resolver of delivery targets (\<open>delivery/resolve.ts\<close>), and the operations \<open>begin\<close> and \<open>complete\<close>
  (\<open>method/create-otp-method.ts\<close>). Provider and resolver answer with arbitrary values or throw, and
  change the world arbitrarily. \<open>scalarText\<close> is how the engine prints fractions, dates and
  functions, which only matters for a code that is not text.
\<close>

record 'w otpProvider =
  randomSecretString :: "jsv \<Rightarrow> ('w, jsv) M"
  hmac :: "jsv \<Rightarrow> ('w, jsv) M"
  verifyHmac :: "jsv \<Rightarrow> ('w, jsv) M"
  resolveTarget :: "jsv \<Rightarrow> ('w, jsv) M"
  scalarText :: "jsv \<Rightarrow> string"

record otpOptions =
  otpMethodId :: jsv
  otpSubjectKind :: jsv
  otpChannel :: jsv
  otpTemplateId :: jsv
  otpTtlSeconds :: int
  otpMaxAttempts :: int
  otpAlphabet :: string
  otpCodeLength :: int
  otpKey :: jsv
  otpResolves :: bool

section \<open>Options\<close>

definition is_graphic :: "char \<Rightarrow> bool" where
  "is_graphic c = (33 \<le> (of_char c :: nat) \<and> of_char c \<le> (126 :: nat))"

text \<open>
  \<open>codeLength * Math.log2(alphabet.length) < Math.log2(1_000_000)\<close>, compared before the logarithm: the
  two sides are only close when the number of codes is exactly a million, where both agree.
\<close>

definition tooGuessable :: "int \<Rightarrow> nat \<Rightarrow> bool" where
  "tooGuessable codeLength letters = (letters ^ nat codeLength < 1000000)"

fun isVerificationKey :: "jsv \<Rightarrow> bool" where
  "isVerificationKey (JStr s) = (32 \<le> length s \<and> length s \<le> 4096)"
| "isVerificationKey (JBytes bs) = (32 \<le> length bs \<and> length bs \<le> 4096)"
| "isVerificationKey _ = False"

fun isOtpAlphabet :: "jsv \<Rightarrow> bool" where
  "isOtpAlphabet (JStr s) = (2 \<le> length s \<and> length s \<le> 256 \<and> list_all is_graphic s \<and> distinct s)"
| "isOtpAlphabet _ = False"

definition within :: "jsv \<Rightarrow> int \<Rightarrow> bool" where
  "within v limit = (is_safe_integer v \<and> 0 < num_val v \<and> num_val v \<le> limit)"

text \<open>\<open>None\<close> is a thrown \<open>TypeError\<close>.\<close>

definition normalizeOtpOptions :: "jsv \<Rightarrow> otpOptions option" where
  "normalizeOtpOptions options =
     (let crypto = fld options ''crypto''; keySource = fld options ''verificationKey'';
          ttlSeconds = coalesce (fld options ''ttlSeconds'') (JNum 300);
          maxAttempts = coalesce (fld options ''maxAttempts'') (JNum 5);
          codeLength = coalesce (fld options ''codeLength'') (JNum 6);
          alphabet = coalesce (fld options ''alphabet'') (JStr ''0123456789'');
          mid = coalesce (fld options ''methodId'') (JStr ''otp.email'');
          subjectKind = coalesce (fld options ''subjectKind'') (JStr ''email'');
          channel = coalesce (fld options ''channel'') subjectKind;
          templateId = coalesce (fld options ''templateId'') (JStr ''authmodules.otp'');
          resolver = fld options ''resolveDeliveryTarget'' in
      if \<not> isRecord options \<or> \<not> truthy crypto \<or> \<not> hasFunction crypto ''randomSecretString''
         \<or> \<not> hasFunction crypto ''hmac'' \<or> \<not> hasFunction crypto ''verifyHmac'' \<or> \<not> hasFunction keySource ''reveal''
      then None
      else case call_thunk (fld keySource ''reveal'') of
        None \<Rightarrow> None
      | Some revealedKey \<Rightarrow>
          if \<not> isVerificationKey revealedKey
             \<or> \<not> within ttlSeconds 3600 \<or> \<not> within maxAttempts 100 \<or> \<not> within codeLength 128
             \<or> \<not> isOtpAlphabet alphabet \<or> tooGuessable (num_val codeLength) (str_len alphabet)
             \<or> \<not> isStableMethodId mid
             \<or> \<not> isSafeText subjectKind 128 True \<or> \<not> isSafeText channel 64 True \<or> \<not> isSafeText templateId 256 True
             \<or> (resolver \<noteq> JUndef \<and> \<not> is_fun resolver) then None
          else Some \<lparr>otpMethodId = mid, otpSubjectKind = subjectKind, otpChannel = channel, otpTemplateId = templateId,
            otpTtlSeconds = num_val ttlSeconds, otpMaxAttempts = num_val maxAttempts,
            otpAlphabet = str_or alphabet '''', otpCodeLength = num_val codeLength, otpKey = rawSecret revealedKey,
            otpResolves = is_fun resolver\<rparr>)"

definition otpRef :: "otpOptions \<Rightarrow> jsv" where
  "otpRef opts = obj [(''methodId'', otpMethodId opts), (''methodKind'', JStr ''otp'')]"

section \<open>Inputs\<close>

text \<open>\<open>String(v)\<close>, as \<open>alphabet.includes(v)\<close> applies it, and the elements of \<open>[...code]\<close>.\<close>

fun js_text :: "(jsv \<Rightarrow> string) \<Rightarrow> jsv \<Rightarrow> string"
  and js_joined :: "(jsv \<Rightarrow> string) \<Rightarrow> jsv list \<Rightarrow> string" where
  "js_text printed (JStr s) = s"
| "js_text printed JUndef = ''undefined''"
| "js_text printed JHole = ''undefined''"
| "js_text printed JNull = ''null''"
| "js_text printed (JBool b) = (if b then ''true'' else ''false'')"
| "js_text printed (JNum n) = (if n < 0 then CHR ''-'' # js_string_of_nat (nat (- n)) else js_string_of_nat (nat n))"
| "js_text printed (JBytes bs) = concat (map (\<lambda>(i, b). (if i = 0 then '''' else '','') @ js_string_of_nat b) (enumerate 0 bs))"
| "js_text printed (JObj p kvs) = ''[object Object]''"
| "js_text printed (JArr xs) = js_joined printed xs"
| "js_text printed v = printed v"
| "js_joined printed [] = ''''"
| "js_joined printed (x # xs) =
     (if nullish x \<or> x = JHole then '''' else js_text printed x) @ (if xs = [] then '''' else CHR '','' # js_joined printed xs)"

fun spreadElements :: "jsv \<Rightarrow> jsv list option" where
  "spreadElements (JStr s) = Some (map (\<lambda>c. JStr [c]) s)"
| "spreadElements (JBytes bs) = Some (map (\<lambda>b. JNum (int b)) bs)"
| "spreadElements (JArr xs) = Some (map read_elem xs)"
| "spreadElements _ = None"

fun js_length :: "jsv \<Rightarrow> jsv" where
  "js_length (JStr s) = JNum (int (length s))"
| "js_length (JBytes bs) = JNum (int (length bs))"
| "js_length (JArr xs) = JNum (int (length xs))"
| "js_length (JFun _) = JNum 0"
| "js_length v = fld v ''length''"

definition has_part :: "string \<Rightarrow> string \<Rightarrow> bool" where
  "has_part s part = list_ex (\<lambda>i. take (length part) (drop i s) = part) [0..<Suc (length s)]"

text \<open>\<open>None\<close> is a throw.\<close>

definition validateOtpCompleteInput :: "(jsv \<Rightarrow> string) \<Rightarrow> otpOptions \<Rightarrow> jsv \<Rightarrow> jsv option" where
  "validateOtpCompleteInput printed opts input =
     (if \<not> isRecord input then Some (validationError ''input'')
      else if \<not> isRawStringSecret (fld input ''code'') then Some (validationError ''code'')
      else case call_thunk (fld (fld input ''code'') ''reveal'') of
        None \<Rightarrow> Some (validationError ''code'')
      | Some code \<Rightarrow>
          if nullish code then None
          else if js_length code \<noteq> JNum (otpCodeLength opts) then Some (validationError ''code'')
          else case spreadElements code of
            None \<Rightarrow> None
          | Some letters \<Rightarrow>
              Some (if list_ex (\<lambda>x. \<not> has_part (otpAlphabet opts) (js_text printed x)) letters then validationError ''code''
                else if \<not> isPublicData (fld input ''publicData'') then validationError ''publicData''
                else methodOk (obj [
                  (''value'', obj [(''code'', fld input ''code''), (''publicData'', fld input ''publicData'')]),
                  (''publicData'', fld input ''publicData'')])))"

definition otpLookup :: "otpOptions \<Rightarrow> string \<Rightarrow> jsv \<Rightarrow> jsv" where
  "otpLookup opts subject display =
     obj [(''methodId'', otpMethodId opts), (''methodKind'', JStr ''otp''), (''subject'', JStr subject),
       (''subjectKind'', otpSubjectKind opts), (''display'', display)]"

definition validateOtpBeginInput :: "otpOptions \<Rightarrow> jsv \<Rightarrow> jsv" where
  "validateOtpBeginInput opts input =
     (if \<not> isRecord input then validationError ''input''
      else if \<not> isSafeText (fld input ''subject'') (if otpSubjectKind opts = JStr ''email'' then 320 else 512) False
         \<or> js_trim (str_or (fld input ''subject'') '''') = '''' then validationError ''subject''
      else if fld input ''display'' \<noteq> JUndef \<and> \<not> isSafeText (fld input ''display'') 512 False
      then validationError ''display''
      else if fld input ''locale'' \<noteq> JUndef \<and> \<not> isSafeText (fld input ''locale'') 128 True
      then validationError ''locale''
      else if \<not> isPublicData (fld input ''publicData'') then validationError ''publicData''
      else
        let subject = normalizeSubject (str_or (fld input ''subject'') '''') (otpSubjectKind opts);
            lookup = otpLookup opts subject (coalesce (fld input ''display'') (fld input ''subject'')) in
        methodOk (obj [
          (''value'', obj [(''subject'', JStr subject),
             (''locale'', if is_str (fld input ''locale'') then fld input ''locale'' else JUndef),
             (''publicData'', fld input ''publicData''), (''lookup'', lookup)]),
          (''lookup'', lookup), (''publicData'', fld input ''publicData'')]))"

definition validLookup :: "jsv \<Rightarrow> otpOptions \<Rightarrow> bool" where
  "validLookup lookup opts =
     (isRecord lookup \<and> fld lookup ''methodId'' = otpMethodId opts \<and> fld lookup ''methodKind'' = JStr ''otp''
      \<and> fld lookup ''subjectKind'' = otpSubjectKind opts
      \<and> is_str (fld lookup ''subject'') \<and> 0 < str_len (fld lookup ''subject''))"

end
