(* ===== verification/OtpOperations.thy ===== *)
theory OtpOperations
  imports OtpMethod
begin

text \<open>
  The operations of \<open>packages/method-otp\<close> (\<open>method/create-otp-method.ts\<close>) with the calls they make
  (\<open>crypto/operations.ts\<close>, \<open>delivery/resolve.ts\<close>).
\<close>

section \<open>The text of the authenticated context\<close>

text \<open>\<open>JSON.stringify\<close> of an array of strings.\<close>

definition hex_digit :: "nat \<Rightarrow> char" where
  "hex_digit n = (if n < 10 then char_of (48 + n) else char_of (87 + n))"

definition json_escape :: "char \<Rightarrow> string" where
  "json_escape c =
     (let n = of_char c :: nat; escaped = (\<lambda>x. [CHR 0x5C, x]) in
      if n = 34 then escaped CHR 0x22
      else if n = 92 then escaped CHR 0x5C
      else if n = 8 then escaped CHR ''b''
      else if n = 9 then escaped CHR ''t''
      else if n = 10 then escaped CHR ''n''
      else if n = 12 then escaped CHR ''f''
      else if n = 13 then escaped CHR ''r''
      else if n < 32 then escaped CHR ''u'' @ [CHR ''0'', CHR ''0'', hex_digit (n div 16), hex_digit (n mod 16)]
      else [c])"

definition json_string :: "string \<Rightarrow> string" where
  "json_string s = CHR 0x22 # concat (map json_escape s) @ [CHR 0x22]"

fun json_members :: "string list \<Rightarrow> string" where
  "json_members [] = ''''"
| "json_members [s] = json_string s"
| "json_members (s # t # ss) = json_string s @ CHR '','' # json_members (t # ss)"

definition json_array :: "string list \<Rightarrow> string" where
  "json_array ss = CHR ''['' # json_members ss @ [CHR '']'']"

definition otpHmacContext :: "jsv \<Rightarrow> string option" where
  "otpHmacContext context =
     (let tenantId = fld (fld context ''auth'') ''tenantId''; challengeId = fld (fld context ''challenge'') ''challengeId'' in
      if \<not> isRecord context \<or> \<not> isRecord (fld context ''auth'') \<or> \<not> isRecord (fld context ''challenge'') then None
      else if \<not> is_str tenantId \<or> str_len tenantId = 0 \<or> \<not> is_str challengeId \<or> str_len challengeId = 0 then None
      else Some (json_array [''authmodules.otp.challenge.v1'', str_or tenantId '''', str_or challengeId '''']))"

section \<open>The crypto provider\<close>

definition snapshotRandomSecret :: "jsv \<Rightarrow> jsv \<Rightarrow> jsv option" where
  "snapshotRandomSecret value options =
     (if \<not> isRawStringSecret value then None
      else case call_thunk (fld value ''reveal'') of
        Some (JStr revealed) \<Rightarrow>
          if (if fld options ''kind'' = JStr ''base64url''
              then int (length revealed) \<noteq> base64url_length (num_val (fld options ''bytes''))
                \<or> revealed = '''' \<or> \<not> list_all is_base64url revealed
              else JNum (int (length revealed)) \<noteq> fld options ''length''
                \<or> \<not> list_all (\<lambda>c. c \<in> set (str_or (fld options ''alphabet'') '''')) revealed)
          then None else Some (rawSecret (JStr revealed))
      | _ \<Rightarrow> None)"

definition isHmacText :: "string \<Rightarrow> bool" where
  "isHmacText s = (s \<noteq> '''' \<and> length s \<le> 4096 \<and> list_all (\<lambda>c. is_graphic c \<or> c = CHR '' '') s)"

text \<open>The copy leaves out an absent \<open>keyId\<close> and \<open>createdAt\<close>.\<close>

definition snapshotOtpHmac :: "jsv \<Rightarrow> jsv \<Rightarrow> jsv option" where
  "snapshotOtpHmac value scheme =
     (if \<not> isRecord value \<or> fld value ''type'' \<noteq> JStr ''protected-value'' \<or> fld value ''scheme'' \<noteq> scheme
         \<or> \<not> is_str (fld value ''redacted'') \<or> \<not> is_fun (fld value ''revealForPersistence'')
         \<or> \<not> is_fun (fld value ''toJSON'') then None
      else case call_thunk (fld value ''revealForPersistence'') of
        Some (JStr persisted) \<Rightarrow>
          if \<not> isHmacText persisted
             \<or> (fld value ''keyId'' \<noteq> JUndef \<and> (\<not> is_str (fld value ''keyId'') \<or> 512 < str_len (fld value ''keyId'')))
             \<or> (fld value ''createdAt'' \<noteq> JUndef \<and> \<not> isValidDate (fld value ''createdAt'')) then None
          else Some (obj ([(''type'', JStr ''protected-value''), (''scheme'', scheme), (''redacted'', redacted_text)]
            @ given ''keyId'' (fld value ''keyId'') @ given ''createdAt'' (fld value ''createdAt'')
            @ [(''revealForPersistence'', JFun (Some (JStr persisted))), (''toJSON'', JFun (Some redacted_text))]))
      | _ \<Rightarrow> None)"

text \<open>The answer \<open>verified\<close>; \<open>None\<close> for an answer that is not one (\<open>snapshotHmacVerifyResult\<close>).\<close>

definition hmacVerdict :: "jsv \<Rightarrow> jsv \<Rightarrow> bool option" where
  "hmacVerdict v input =
     (if \<not> isRecord v \<or> \<not> is_bool (fld v ''verified'') then None
      else if fld v ''verified'' = JBool False then (if hasOnlyKeys v [''verified''] then Some False else None)
      else if fld v ''needsUpgrade'' = JBool False then
        (if hasOnlyKeys v [''needsUpgrade'', ''verified''] then Some True else None)
      else if fld input ''framing'' = JStr ''hmac-sha256.legacy.v1'' \<and> fld v ''needsUpgrade'' = JBool True
         \<and> hasOnlyKeys v [''needsUpgrade'', ''upgradedValue'', ''verified'']
         \<and> snapshotOtpHmac (fld v ''upgradedValue'') (fld input ''upgradeScheme'') \<noteq> None then Some True
      else None)"

text \<open>The calls; \<open>None\<close> is the failure \<open>CRYPTO_FAILED\<close>.\<close>

definition safeRandomSecretString :: "'w otpProvider \<Rightarrow> jsv \<Rightarrow> ('w, jsv option) M" where
  "safeRandomSecretString p input =
     bindM (attemptM (randomSecretString p input)) (\<lambda>r. ret (case r of
        None \<Rightarrow> None | Some value \<Rightarrow> snapshotRandomSecret value input))"

definition safeHmac :: "'w otpProvider \<Rightarrow> jsv \<Rightarrow> ('w, jsv option) M" where
  "safeHmac p input =
     (if \<not> is_str (fld input ''scheme'') \<or> str_len (fld input ''scheme'') = 0 then ret None
      else bindM (attemptM (hmac p input)) (\<lambda>r. ret (case r of
        None \<Rightarrow> None
      | Some result \<Rightarrow>
          if fld result ''ok'' = JBool True then snapshotOtpHmac (fld result ''value'') (fld input ''scheme'') else None)))"

definition safeVerifyHmac :: "'w otpProvider \<Rightarrow> jsv \<Rightarrow> ('w, bool option) M" where
  "safeVerifyHmac p input =
     bindM (attemptM (verifyHmac p input)) (\<lambda>r. ret (case r of
        None \<Rightarrow> None
      | Some result \<Rightarrow>
          if fld result ''ok'' = JBool True then hmacVerdict (fld result ''value'') input else None))"

section \<open>The delivery target\<close>

definition targetInput :: "jsv \<Rightarrow> jsv \<Rightarrow> jsv option" where
  "targetInput lookup auth =
     (let clone = (\<lambda>v. if truthy v then structuredClone v else Some JUndef) in
      case (clone (fld auth ''actor''), clone (fld auth ''policyInput'')) of
        (Some actor, Some asked) \<Rightarrow>
          Some (obj [(''lookup'', obj (ownProperties lookup)),
            (''context'', obj [(''tenantId'', fld auth ''tenantId''), (''requestId'', fld auth ''requestId''),
               (''actor'', actor), (''ip'', fld auth ''ip''), (''userAgent'', fld auth ''userAgent''),
               (''locale'', fld auth ''locale''), (''policyInput'', asked)])])
      | _ \<Rightarrow> None)"

definition safeResolveDeliveryTarget :: "otpOptions \<Rightarrow> 'w otpProvider \<Rightarrow> jsv \<Rightarrow> jsv \<Rightarrow> ('w, string option) M" where
  "safeResolveDeliveryTarget opts p lookup auth =
     bindM (attemptM (bindM (liftO (targetInput lookup auth)) (\<lambda>input.
              if otpResolves opts then resolveTarget p input else ret (fld (fld input ''lookup'') ''subject''))))
       (\<lambda>target. ret (case target of
          Some (JStr s) \<Rightarrow> if isSafeText (JStr s) 1024 False \<and> js_trim s \<noteq> '''' then Some s else None
        | _ \<Rightarrow> None))"

section \<open>begin\<close>

text \<open>\<open>new Date(context.now.getTime() + ttlSeconds * 1000)\<close>; \<open>None\<close> when \<open>now\<close> is not a date.\<close>

fun expiryAfter :: "jsv \<Rightarrow> int \<Rightarrow> jsv option" where
  "expiryAfter (JDate (Some t)) ttl = Some (new_date (t + ttl * 1000))"
| "expiryAfter (JDate None) ttl = Some (JDate None)"
| "expiryAfter _ ttl = None"

definition otpEffect :: "otpOptions \<Rightarrow> jsv \<Rightarrow> jsv \<Rightarrow> string \<Rightarrow> jsv \<Rightarrow> jsv \<Rightarrow> jsv \<Rightarrow> jsv" where
  "otpEffect opts challengeId expiresAt target code lookup locale =
     obj [(''type'', JStr ''delivery''), (''dispatchPolicy'', JStr ''required''), (''idempotencyKey'', challengeId),
       (''expiresAt'', expiresAt),
       (''message'', obj [
          (''to'', obj [(''channel'', otpChannel opts), (''target'', JStr target), (''display'', fld lookup ''display'')]),
          (''templateId'', otpTemplateId opts), (''locale'', locale),
          (''data'', obj [(''code'', code), (''subject'', fld lookup ''subject'')])])]"

definition otpBegin :: "otpOptions \<Rightarrow> 'w otpProvider \<Rightarrow> jsv \<Rightarrow> jsv \<Rightarrow> ('w, jsv) M" where
  "otpBegin opts p input context =
     (case otpHmacContext context of
        None \<Rightarrow> ret (methodErr ''INTERNAL'' False (JStr ''CHALLENGE_FAILED''))
      | Some hmacContext \<Rightarrow>
      bindM (safeRandomSecretString p (obj [(''kind'', JStr ''alphabet''), (''alphabet'', JStr (otpAlphabet opts)),
          (''length'', JNum (otpCodeLength opts))])) (\<lambda>code. case code of
        None \<Rightarrow> ret cryptoFailed
      | Some code \<Rightarrow>
      bindM (safeHmac p (obj [(''key'', otpKey opts), (''value'', code), (''context'', JStr hmacContext),
          (''framing'', JStr ''hmac-sha256.v2''), (''scheme'', JStr ''otp-hmac-sha256.v3'')])) (\<lambda>codeHash. case codeHash of
        None \<Rightarrow> ret cryptoFailed
      | Some codeHash \<Rightarrow>
      bindM (liftO (expiryAfter (fld context ''now'') (otpTtlSeconds opts))) (\<lambda>expiresAt.
      bindM (readProp input ''lookup'') (\<lambda>lookup.
      bindM (safeResolveDeliveryTarget opts p lookup (fld context ''auth'')) (\<lambda>target. case target of
        None \<Rightarrow> ret (methodErr ''DELIVERY_FAILED'' False JUndef)
      | Some target \<Rightarrow>
      bindM (readProp lookup ''subjectKind'') (\<lambda>subjectKind.
      ret (methodOk (obj [
        (''challengeMaterial'', obj [(''schemaVersion'', JStr ''otp.v1''),
           (''publicData'', obj [(''subjectKind'', subjectKind)]), (''privateData'', obj [(''codeHash'', codeHash)])]),
        (''expiresAt'', expiresAt), (''maxAttempts'', JNum (otpMaxAttempts opts)),
        (''sideEffects'', JArr [otpEffect opts (fld (fld context ''challenge'') ''challengeId'') expiresAt target code lookup
           (fld input ''locale'')]),
        (''publicData'', fld input ''publicData'')])))))))))"

section \<open>complete\<close>

definition protectedOtpHmac :: "jsv \<Rightarrow> (string \<times> jsv) option" where
  "protectedOtpHmac v =
     (case snapshotOtpHmac v (JStr ''otp-hmac-sha256.v3'') of
        Some current \<Rightarrow> Some (''otp-hmac-sha256.v3'', current)
      | None \<Rightarrow> map_option (\<lambda>legacy. (''otp-hmac-sha256.v2'', legacy)) (snapshotOtpHmac v (JStr ''otp-hmac-sha256.v2'')))"

definition hmacVerification :: "otpOptions \<Rightarrow> jsv \<Rightarrow> string \<Rightarrow> string \<times> jsv \<Rightarrow> jsv" where
  "hmacVerification opts code hmacContext verifier =
     (let legacy = fst verifier = ''otp-hmac-sha256.v2'' in
      obj ([(''key'', otpKey opts), (''value'', code), (''context'', JStr hmacContext),
        (''framing'', JStr (if legacy then ''hmac-sha256.legacy.v1'' else ''hmac-sha256.v2'')),
        (''scheme'', JStr (fst verifier)), (''protectedValue'', snd verifier)]
        @ (if legacy then [(''upgradeScheme'', JStr ''otp-hmac-sha256.v3'')] else [])))"

definition otpProof :: "otpOptions \<Rightarrow> jsv \<Rightarrow> jsv \<Rightarrow> jsv" where
  "otpProof opts lookup now =
     obj [(''type'', JStr ''auth.proof''), (''proofMethod'', otpRef opts),
       (''primaryIdentity'', obj (set_field ''verifiedAt'' now (ownProperties lookup))),
       (''evidence'', JArr [obj [(''kind'', JStr ''otp''), (''method'', otpRef opts)]]),
       (''assurance'', obj [(''level'', JStr ''medium''), (''factors'', JArr [JStr ''otp''])]),
       (''authTime'', now)]"

definition otpComplete :: "otpOptions \<Rightarrow> 'w otpProvider \<Rightarrow> jsv \<Rightarrow> jsv \<Rightarrow> ('w, jsv) M" where
  "otpComplete opts p input context =
     bindM (readProp context ''challenge'') (\<lambda>challenge.
     bindM (readProp challenge ''challengeMaterial'') (\<lambda>challengeMaterial.
     bindM (readProp challengeMaterial ''privateData'') (\<lambda>privateData.
     case (otpHmacContext context, protectedOtpHmac (fld privateData ''codeHash'')) of
       (Some hmacContext, Some verifier) \<Rightarrow>
         if fld challengeMaterial ''schemaVersion'' \<noteq> JStr ''otp.v1'' \<or> \<not> validLookup (fld context ''lookup'') opts
         then ret (methodErr ''INTERNAL'' False (JStr ''CHALLENGE_FAILED''))
         else
           bindM (readProp input ''code'') (\<lambda>code.
           bindM (safeVerifyHmac p (hmacVerification opts code hmacContext verifier)) (\<lambda>verification. ret (case verification of
             None \<Rightarrow> cryptoFailed
           | Some False \<Rightarrow> methodErr ''OTP_MISMATCH'' True (JStr ''CHALLENGE_FAILED'')
           | Some True \<Rightarrow> methodOk (obj [(''proof'', otpProof opts (fld context ''lookup'') (fld context ''now'')),
               (''publicData'', fld input ''publicData'')]))))
     | _ \<Rightarrow> ret (methodErr ''INTERNAL'' False (JStr ''CHALLENGE_FAILED'')))))"

end
