(* ===== verification/OtpProperties.thy ===== *)
theory OtpProperties
  imports OtpOperations MethodBoundary ScriptedRuns "HOL-Library.Code_Target_Nat"
begin

text \<open>
  What the one-time code method guarantees: the context a code is bound to names its tenant and
  its challenge, a started challenge keeps the code's HMAC only, and core over the method completes
  a challenge only with a code the crypto provider verified for it.
\<close>

section \<open>The authenticated context is unambiguous\<close>

text \<open>Reading back the first character of an escaped text.\<close>

definition hex_value :: "char \<Rightarrow> nat" where
  "hex_value c = (let n = of_char c :: nat in if n < 58 then n - 48 else n - 87)"

lemma hex_value_digit: "n < 16 \<Longrightarrow> hex_value (hex_digit n) = n"
  by (auto simp: hex_value_def hex_digit_def Let_def)

definition json_read :: "string \<Rightarrow> char \<times> string" where
  "json_read s =
     (if hd s \<noteq> CHR 0x5C then (hd s, tl s)
      else if s ! 1 = CHR 0x22 \<or> s ! 1 = CHR 0x5C then (s ! 1, drop 2 s)
      else if s ! 1 = CHR ''b'' then (char_of (8 :: nat), drop 2 s)
      else if s ! 1 = CHR ''t'' then (char_of (9 :: nat), drop 2 s)
      else if s ! 1 = CHR ''n'' then (char_of (10 :: nat), drop 2 s)
      else if s ! 1 = CHR ''f'' then (char_of (12 :: nat), drop 2 s)
      else if s ! 1 = CHR ''r'' then (char_of (13 :: nat), drop 2 s)
      else (char_of (16 * hex_value (s ! 4) + hex_value (s ! 5)), drop 6 s))"

lemma char_code: "(of_char c :: nat) = n \<Longrightarrow> c = char_of n"
  by (metis char_of_char)

lemma char_codes: "char_of (34 :: nat) = CHR 0x22" "char_of (92 :: nat) = CHR 0x5C"
  by code_simp+

lemma json_read_escape: "json_read (json_escape c @ x) = (c, x)"
proof -
  let ?n = "of_char c :: nat"
  consider (escaped) "?n \<in> {34, 92, 8, 9, 10, 12, 13}" | (hex) "?n < 32" "?n \<notin> {8, 9, 10, 12, 13}"
    | (plain) "32 \<le> ?n" "?n \<noteq> 34" "?n \<noteq> 92" by force
  then show ?thesis
  proof cases
    case escaped
    then show ?thesis
      by (elim insertE emptyE) (drule char_code, simp add: json_escape_def json_read_def char_codes)+
  next
    case hex
    then have "json_escape c = [CHR 0x5C, CHR ''u'', CHR ''0'', CHR ''0'', hex_digit (?n div 16), hex_digit (?n mod 16)]"
      by (simp add: json_escape_def Let_def)
    then have "json_read (json_escape c @ x) = (char_of (16 * (?n div 16) + ?n mod 16), x)"
      using hex(1) by (simp add: json_read_def hex_value_digit)
    then show ?thesis by simp
  next
    case plain
    then have "json_escape c = [c]" "c \<noteq> CHR 0x5C" by (auto simp: json_escape_def)
    then show ?thesis by (simp add: json_read_def)
  qed
qed

lemma json_escape_cancel: "json_escape c @ x = json_escape d @ y \<Longrightarrow> c = d \<and> x = y"
  by (metis json_read_escape prod.inject)

lemma json_escape_quote: "json_escape c @ x \<noteq> CHR 0x22 # y"
  by (auto simp: json_escape_def Let_def split: if_splits)

lemma json_string_cancel: "json_string s @ x = json_string t @ y \<Longrightarrow> s = t \<and> x = y"
proof -
  have "concat (map json_escape s) @ CHR 0x22 # x = concat (map json_escape t) @ CHR 0x22 # y \<Longrightarrow> s = t \<and> x = y"
  proof (induction s arbitrary: t)
    case Nil
    then show ?case using json_escape_quote [THEN not_sym] by (cases t) auto
  next
    case (Cons c s)
    then obtain d t' where t: "t = d # t'" using json_escape_quote by (cases t) auto
    with Cons.prems have "c = d \<and> concat (map json_escape s) @ CHR 0x22 # x = concat (map json_escape t') @ CHR 0x22 # y"
      by (intro json_escape_cancel) simp
    with Cons.IH t show ?case by blast
  qed
  then show "json_string s @ x = json_string t @ y \<Longrightarrow> s = t \<and> x = y" by (simp add: json_string_def)
qed

lemma otpHmacContext_SomeD:
  assumes "otpHmacContext ec = Some scope"
  obtains tenant challenge where "fld (fld ec ''auth'') ''tenantId'' = JStr tenant"
    and "fld (fld ec ''challenge'') ''challengeId'' = JStr challenge" and "tenant \<noteq> ''''" and "challenge \<noteq> ''''"
    and "scope = json_array [''authmodules.otp.challenge.v1'', tenant, challenge]"
proof -
  from assms have "is_str (fld (fld ec ''auth'') ''tenantId'')" "is_str (fld (fld ec ''challenge'') ''challengeId'')"
    by (simp_all add: otpHmacContext_def Let_def del: fld.simps fld_obj split: if_splits)
  then obtain tenant challenge where "fld (fld ec ''auth'') ''tenantId'' = JStr tenant"
    "fld (fld ec ''challenge'') ''challengeId'' = JStr challenge"
    by (auto elim!: is_str.elims simp del: fld.simps fld_obj)
  with assms that show ?thesis by (auto simp: otpHmacContext_def Let_def simp del: fld.simps fld_obj split: if_splits)
qed

text \<open>
  C14. The text a code's HMAC is computed over determines the tenant and the challenge: two
  contexts with the same text are of the same tenant and the same challenge, whatever characters
  their identifiers have. So a code is never valid for another challenge or tenant.
\<close>

theorem otp_context_bound:
  assumes "otpHmacContext a = Some scope" and "otpHmacContext b = Some scope"
  shows "fld (fld a ''auth'') ''tenantId'' = fld (fld b ''auth'') ''tenantId''
    \<and> fld (fld a ''challenge'') ''challengeId'' = fld (fld b ''challenge'') ''challengeId''"
proof -
  obtain t c where a: "fld (fld a ''auth'') ''tenantId'' = JStr t" "fld (fld a ''challenge'') ''challengeId'' = JStr c"
    "scope = json_array [''authmodules.otp.challenge.v1'', t, c]" by (rule otpHmacContext_SomeD [OF assms(1)])
  obtain u d where b: "fld (fld b ''auth'') ''tenantId'' = JStr u" "fld (fld b ''challenge'') ''challengeId'' = JStr d"
    "scope = json_array [''authmodules.otp.challenge.v1'', u, d]" by (rule otpHmacContext_SomeD [OF assms(2)])
  from a(3) b(3) have "json_string t @ CHR '','' # json_string c @ [CHR '']''] = json_string u @ CHR '','' # json_string d @ [CHR '']'']"
    by (simp add: json_array_def)
  from json_string_cancel [OF this] have "t = u" "json_string c @ [CHR '']''] = json_string d @ [CHR '']'']" by simp_all
  with json_string_cancel a b show ?thesis by metis
qed


section \<open>The operations\<close>

definition codeRequest :: "otpOptions \<Rightarrow> jsv" where
  "codeRequest opts = obj [(''kind'', JStr ''alphabet''), (''alphabet'', JStr (otpAlphabet opts)), (''length'', JNum (otpCodeLength opts))]"

definition hmacRequest :: "otpOptions \<Rightarrow> string \<Rightarrow> string \<Rightarrow> jsv" where
  "hmacRequest opts code scope = obj [(''key'', otpKey opts), (''value'', rawSecret (JStr code)), (''context'', JStr scope),
     (''framing'', JStr ''hmac-sha256.v2''), (''scheme'', JStr ''otp-hmac-sha256.v3'')]"

lemma snapshotRandomSecret_code:
  assumes "snapshotRandomSecret v (codeRequest opts) = Some w"
  obtains code where "call_thunk (fld v ''reveal'') = Some (JStr code)" and "w = rawSecret (JStr code)"
    and "int (length code) = otpCodeLength opts" and "set code \<subseteq> set (otpAlphabet opts)"
  using assms
  by (auto simp: snapshotRandomSecret_def codeRequest_def list_all_iff simp del: fld.simps split: if_splits option.splits jsv.splits)

definition begun :: "otpOptions \<Rightarrow> jsv \<Rightarrow> jsv \<Rightarrow> string \<Rightarrow> jsv \<Rightarrow> string \<Rightarrow> jsv \<Rightarrow> jsv" where
  "begun opts input ec code codeHash target expiresAt = obj [
     (''challengeMaterial'', obj [(''schemaVersion'', JStr ''otp.v1''),
        (''publicData'', obj [(''subjectKind'', fld (fld input ''lookup'') ''subjectKind'')]), (''privateData'', obj [(''codeHash'', codeHash)])]),
     (''expiresAt'', expiresAt), (''maxAttempts'', JNum (otpMaxAttempts opts)),
     (''sideEffects'', JArr [otpEffect opts (fld (fld ec ''challenge'') ''challengeId'') expiresAt target (rawSecret (JStr code))
        (fld input ''lookup'') (fld input ''locale'')]),
     (''publicData'', fld input ''publicData'')]"

lemma attempt_Ret: "attemptM m s = (Ret (Some a), t) \<Longrightarrow> m s = (Ret a, t)"
  by (auto simp: attemptM_def split: prod.splits outcome.splits)

lemma safeRandom_SomeD:
  assumes "safeRandomSecretString p (codeRequest opts) w = (Ret (Some v), w')"
  obtains raw code where "randomSecretString p (codeRequest opts) w = (Ret raw, w')"
    and "call_thunk (fld raw ''reveal'') = Some (JStr code)" and "v = rawSecret (JStr code)"
    and "int (length code) = otpCodeLength opts" and "set code \<subseteq> set (otpAlphabet opts)"
proof -
  from assms obtain raw where "randomSecretString p (codeRequest opts) w = (Ret raw, w')"
    "snapshotRandomSecret raw (codeRequest opts) = Some v"
    unfolding safeRandomSecretString_def
    by (auto elim!: bindM_RetE dest!: attempt_Ret split: option.splits)
  with snapshotRandomSecret_code that show ?thesis by metis
qed

lemma safeHmac_SomeD:
  assumes "safeHmac p input w = (Ret (Some v), w')"
  obtains result where "hmac p input w = (Ret result, w')" and "fld result ''ok'' = JBool True"
    and "snapshotOtpHmac (fld result ''value'') (fld input ''scheme'') = Some v"
  using assms unfolding safeHmac_def
  by (auto elim!: bindM_RetE dest!: attempt_Ret simp del: fld.simps fld_obj split: option.splits if_splits)

text \<open>
  C13. A started challenge is bound to a code of the configured length and alphabet that only the
  delivery holds: the material to store has the HMAC the provider made of exactly this code and
  the context of this challenge, the one required delivery has the code as a raw secret for the
  resolved target, and challenge and delivery expire together, the configured time after now.
\<close>

theorem otp_begin_established:
  assumes "otpBegin opts p input ec w = (Ret r, w')" and "fld r ''ok'' = JBool True"
  shows "\<exists>scope raw code w1 result w2 codeHash target expiresAt.
    otpHmacContext ec = Some scope
    \<and> randomSecretString p (codeRequest opts) w = (Ret raw, w1) \<and> call_thunk (fld raw ''reveal'') = Some (JStr code)
    \<and> int (length code) = otpCodeLength opts \<and> set code \<subseteq> set (otpAlphabet opts)
    \<and> hmac p (hmacRequest opts code scope) w1 = (Ret result, w2) \<and> fld result ''ok'' = JBool True
    \<and> snapshotOtpHmac (fld result ''value'') (JStr ''otp-hmac-sha256.v3'') = Some codeHash
    \<and> expiryAfter (fld ec ''now'') (otpTtlSeconds opts) = Some expiresAt
    \<and> isSafeText (JStr target) 1024 False \<and> js_trim target \<noteq> ''''
    \<and> r = methodOk (begun opts input ec code codeHash target expiresAt)"
proof -
  from assms obtain scope v w1 hash w2 expiresAt target where scope: "otpHmacContext ec = Some scope"
    and random: "safeRandomSecretString p (codeRequest opts) w = (Ret (Some v), w1)"
    and hashed: "safeHmac p (obj [(''key'', otpKey opts), (''value'', v), (''context'', JStr scope),
        (''framing'', JStr ''hmac-sha256.v2''), (''scheme'', JStr ''otp-hmac-sha256.v3'')]) w1 = (Ret (Some hash), w2)"
    and expiry: "expiryAfter (fld ec ''now'') (otpTtlSeconds opts) = Some expiresAt"
    and target: "safeResolveDeliveryTarget opts p (fld input ''lookup'') (fld ec ''auth'') w2 = (Ret (Some target), w')"
    and r: "r = methodOk (obj [
        (''challengeMaterial'', obj [(''schemaVersion'', JStr ''otp.v1''),
           (''publicData'', obj [(''subjectKind'', fld (fld input ''lookup'') ''subjectKind'')]), (''privateData'', obj [(''codeHash'', hash)])]),
        (''expiresAt'', expiresAt), (''maxAttempts'', JNum (otpMaxAttempts opts)),
        (''sideEffects'', JArr [otpEffect opts (fld (fld ec ''challenge'') ''challengeId'') expiresAt target v
           (fld input ''lookup'') (fld input ''locale'')]),
        (''publicData'', fld input ''publicData'')])"
    unfolding otpBegin_def codeRequest_def readProp_def
    by (auto simp: cryptoFailed_def simp del: fld.simps fld_obj elim!: bindM_RetE split: option.splits if_splits)
  obtain raw code where code: "randomSecretString p (codeRequest opts) w = (Ret raw, w1)"
    "call_thunk (fld raw ''reveal'') = Some (JStr code)" "v = rawSecret (JStr code)"
    "int (length code) = otpCodeLength opts" "set code \<subseteq> set (otpAlphabet opts)"
    by (rule safeRandom_SomeD [OF random])
  obtain result where result: "hmac p (hmacRequest opts code scope) w1 = (Ret result, w2)" "fld result ''ok'' = JBool True"
    "snapshotOtpHmac (fld result ''value'') (JStr ''otp-hmac-sha256.v3'') = Some hash"
    using hashed unfolding code(3) hmacRequest_def [symmetric] by (rule safeHmac_SomeD) (simp add: hmacRequest_def)
  have safe: "isSafeText (JStr target) 1024 False \<and> js_trim target \<noteq> ''''"
    using target unfolding safeResolveDeliveryTarget_def
    by (auto elim!: bindM_RetE split: option.splits jsv.splits if_splits)
  show ?thesis
    using scope code result expiry safe unfolding r by (auto simp: begun_def simp del: isSafeText.simps)
qed




interpretation otp_begin: method_operation "otpBegin opts p" for opts and p :: "'w otpProvider"
proof
  fix v ctx r and w w' :: 'w
  assume "otpBegin opts p v ctx w = (Ret r, w')"
  then show "isMethodAnswer r"
    unfolding otpBegin_def readProp_def
    by (auto simp del: fld.simps fld_obj elim!: bindM_RetE split: option.splits if_splits)
qed

interpretation otp_complete: method_operation "otpComplete opts p" for opts and p :: "'w otpProvider"
proof
  fix v ctx r and w w' :: 'w
  assume "otpComplete opts p v ctx w = (Ret r, w')"
  then show "isMethodAnswer r"
    unfolding otpComplete_def readProp_def
    by (auto simp del: fld.simps fld_obj elim!: bindM_RetE split: option.splits if_splits bool.splits)
qed

section \<open>Core over the method\<close>










section \<open>Examples\<close>

text \<open>A provider that draws the same code each time and accepts it.\<close>

definition demo_hmac :: jsv where
  "demo_hmac = obj [(''type'', JStr ''protected-value''), (''scheme'', JStr ''otp-hmac-sha256.v3''), (''redacted'', redacted_text),
     (''revealForPersistence'', JFun (Some (JStr ''mac''))), (''toJSON'', JFun (Some redacted_text))]"

definition demo_provider :: "'w otpProvider" where
  "demo_provider = \<lparr>randomSecretString = (\<lambda>_. ret (rawSecret (JStr ''123456''))),
     hmac = (\<lambda>_. ret (obj [(''ok'', JBool True), (''value'', demo_hmac)])),
     verifyHmac = (\<lambda>_. ret (obj [(''ok'', JBool True), (''value'', obj [(''verified'', JBool True), (''needsUpgrade'', JBool False)])])),
     resolveTarget = (\<lambda>_. throwM), scalarText = (\<lambda>_. '''')\<rparr>"

definition demo_otp :: otpOptions where
  "demo_otp = \<lparr>otpMethodId = JStr ''email.otp'', otpSubjectKind = JStr ''email'', otpChannel = JStr ''email'',
     otpTemplateId = JStr ''authmodules.otp'', otpTtlSeconds = 300, otpMaxAttempts = 5, otpAlphabet = ''0123456789'',
     otpCodeLength = 6, otpKey = rawSecret (JStr ''key''), otpResolves = False\<rparr>"

lemma otp_context_bound_witness:
  "fld (fld (obj [(''auth'', obj [(''tenantId'', JStr ''t\"'')]), (''challenge'', obj [(''challengeId'', JStr '',c'')])]) ''auth'') ''tenantId''
     = fld (fld (obj [(''challenge'', obj [(''challengeId'', JStr '',c'')]), (''auth'', obj [(''tenantId'', JStr ''t\"'')])]) ''auth'') ''tenantId''"
proof -
  let ?a = "obj [(''auth'', obj [(''tenantId'', JStr ''t\"'')]), (''challenge'', obj [(''challengeId'', JStr '',c'')])]"
  let ?b = "obj [(''challenge'', obj [(''challengeId'', JStr '',c'')]), (''auth'', obj [(''tenantId'', JStr ''t\"'')])]"
  obtain scope where "otpHmacContext ?a = Some scope" "otpHmacContext ?b = Some scope" by (auto simp: otpHmacContext_def)
  from otp_context_bound [OF this] show ?thesis by blast
qed

definition otp_begin_context :: jsv where
  "otp_begin_context = obj [(''auth'', obj [(''tenantId'', JStr ''t'')]), (''challenge'', obj [(''challengeId'', JStr ''c1'')]), (''now'', at 10)]"

definition otp_begin_value :: jsv where
  "otp_begin_value = obj [(''subject'', JStr ''u''), (''lookup'', otp_lookup)]"

lemma otp_begin_run:
  "case otpBegin demo_otp demo_provider otp_begin_value otp_begin_context () of (Ret r, _) \<Rightarrow> fld r ''ok'' = JBool True | _ \<Rightarrow> False"
  by code_simp

lemma otp_begin_established_witness:
  "\<exists>code codeHash target expiresAt w'. int (length code) = 6
     \<and> otpBegin demo_otp demo_provider otp_begin_value otp_begin_context ()
        = (Ret (methodOk (begun demo_otp otp_begin_value otp_begin_context code codeHash target expiresAt)), w')"
proof -
  obtain r w' where run: "otpBegin demo_otp demo_provider otp_begin_value otp_begin_context () = (Ret r, w')" "fld r ''ok'' = JBool True"
    using otp_begin_run by (auto split: prod.splits outcome.splits)
  from otp_begin_established [OF this] obtain code codeHash target expiresAt where
    "int (length code) = otpCodeLength demo_otp" "r = methodOk (begun demo_otp otp_begin_value otp_begin_context code codeHash target expiresAt)"
    by blast
  moreover have "otpCodeLength demo_otp = 6" by (simp add: demo_otp_def)
  ultimately show ?thesis using run(1) by metis
qed








end
