(* ===== verification/OpaqueToken.thy ===== *)
theory OpaqueToken
  imports MethodText
begin

text \<open>
  \<open>packages/token-opaque\<close>: the options and the two operations of
  \<open>format/create-opaque-token-format.ts\<close> and the checks of \<open>validation/token.ts\<close>. The crypto
  provider answers with arbitrary values or throws, and changes the world arbitrarily.
\<close>

record 'w tokenCrypto =
  tokenRandom :: "jsv \<Rightarrow> ('w, jsv) M"
  tokenDigest :: "jsv \<Rightarrow> ('w, jsv) M"

record tokenOptions =
  tokenBytes :: int
  tokenScheme :: string

section \<open>Options\<close>

definition is_scheme_char :: "char \<Rightarrow> bool" where
  "is_scheme_char c = (is_lower c \<or> is_digit c \<or> c = CHR ''.'' \<or> c = CHR ''-'')"

text \<open>\<open>/^[a-z0-9][a-z0-9.-]*\.v[1-9][0-9]*$/\<close>: the text before some \<open>.v\<close> and the number after it.\<close>

fun is_version_number :: "string \<Rightarrow> bool" where
  "is_version_number [] = False"
| "is_version_number (c # cs) = (is_digit c \<and> c \<noteq> CHR ''0'' \<and> list_all is_digit cs)"

definition is_scheme_name :: "string \<Rightarrow> bool" where
  "is_scheme_name s = (s \<noteq> '''' \<and> (is_lower (hd s) \<or> is_digit (hd s)) \<and> list_all is_scheme_char s)"

definition is_versioned_scheme :: "string \<Rightarrow> bool" where
  "is_versioned_scheme s =
     list_ex (\<lambda>i. is_scheme_name (take i s) \<and> take 2 (drop i s) = ''.v'' \<and> is_version_number (drop (i + 2) s))
       [0..<length s]"

fun isTokenScheme :: "jsv \<Rightarrow> bool" where
  "isTokenScheme (JStr s) = (length s \<le> 256 \<and> is_versioned_scheme s)"
| "isTokenScheme _ = False"

text \<open>\<open>None\<close> is a thrown \<open>TypeError\<close>.\<close>

definition createOpaqueTokenFormat :: "jsv \<Rightarrow> tokenOptions option" where
  "createOpaqueTokenFormat options =
     (let crypto = fld options ''crypto''; bytes = coalesce (fld options ''bytes'') (JNum 32);
          scheme = coalesce (fld options ''scheme'') (JStr ''opaque-token-sha256.v1'') in
      if \<not> isRecord options \<and> \<not> is_arr options then None
      else if \<not> truthy crypto \<or> \<not> hasFunction crypto ''randomSecretString'' \<or> \<not> hasFunction crypto ''hash'' then None
      else if \<not> is_safe_integer bytes \<or> num_val bytes < 16 \<or> 128 < num_val bytes then None
      else if \<not> isTokenScheme scheme then None
      else Some \<lparr>tokenBytes = num_val bytes, tokenScheme = str_or scheme ''''\<rparr>)"

section \<open>Checks and copies\<close>

definition tokenText :: "jsv \<Rightarrow> bool" where
  "tokenText v = (is_str v \<and> 0 < str_len v)"

definition validIssueInput :: "jsv \<Rightarrow> bool" where
  "validIssueInput input =
     (tokenText (fld input ''tenantId'') \<and> tokenText (fld input ''accountId'') \<and> tokenText (fld input ''sessionId'')
      \<and> date_less (fld input ''issuedAt'') (fld input ''expiresAt''))"

definition snapshotRawToken :: "jsv \<Rightarrow> int \<Rightarrow> jsv option" where
  "snapshotRawToken raw bytes =
     (if \<not> isRawSecret raw then None
      else case call_thunk (fld raw ''reveal'') of
        Some (JStr value) \<Rightarrow>
          if int (length value) \<noteq> base64url_length bytes \<or> value = '''' \<or> \<not> list_all is_base64url value then None
          else Some (rawSecret (JStr value))
      | _ \<Rightarrow> None)"

definition validIdentifyInput :: "jsv \<Rightarrow> int \<Rightarrow> bool" where
  "validIdentifyInput input bytes =
     (tokenText (fld input ''expectedTenantId'') \<and> isValidDate (fld input ''now'')
      \<and> snapshotRawToken (fld input ''raw'') bytes \<noteq> None)"

definition snapshotTokenHash :: "jsv \<Rightarrow> string \<Rightarrow> jsv option" where
  "snapshotTokenHash v scheme =
     (if \<not> isRecord v \<or> \<not> hasOnlyKeys v protectedValueKeys then None
      else if fld v ''createdAt'' \<noteq> JUndef \<and> \<not> isValidDate (fld v ''createdAt'') then None
      else if fld v ''type'' \<noteq> JStr ''protected-value'' \<or> fld v ''scheme'' \<noteq> JStr scheme
         \<or> (fld v ''keyId'' \<noteq> JUndef \<and> \<not> tokenText (fld v ''keyId''))
         \<or> \<not> is_fun (fld v ''revealForPersistence'') \<or> \<not> is_fun (fld v ''toJSON'') then None
      else case call_thunk (fld v ''revealForPersistence'') of
        Some (JStr persisted) \<Rightarrow>
          if persisted = '''' \<or> 4096 < length persisted \<or> \<not> no_control persisted then None
          else Some (obj ([(''type'', JStr ''protected-value''), (''scheme'', JStr scheme), (''redacted'', redacted_text)]
            @ given ''keyId'' (fld v ''keyId'') @ given ''createdAt'' (fld v ''createdAt'')
            @ [(''revealForPersistence'', JFun (Some (JStr persisted))), (''toJSON'', JFun (Some redacted_text))]))
      | _ \<Rightarrow> None)"

section \<open>The operations\<close>

definition tokenErr :: "string \<Rightarrow> jsv" where
  "tokenErr reason = obj [(''ok'', JBool False), (''error'', obj [(''type'', JStr ''component.failure''),
     (''component'', JStr ''token''), (''reason'', JStr reason)])]"

text \<open>
  The hash of a raw token: \<open>Inl\<close> the failure. The outcome of \<open>crypto.hash\<close> is \<open>None\<close> when it throws;
  reading \<open>ok\<close> of an answer that is \<open>null\<close> or \<open>undefined\<close> throws as well.
\<close>

definition hashToken :: "tokenOptions \<Rightarrow> 'w tokenCrypto \<Rightarrow> jsv \<Rightarrow> ('w, jsv + jsv) M" where
  "hashToken opts c safeRaw =
     bindM (attemptM (tokenDigest c (obj [(''value'', safeRaw), (''scheme'', JStr (tokenScheme opts))]))) (\<lambda>r. ret (case r of
        None \<Rightarrow> Inl (tokenErr ''CRYPTO_FAILED'')
      | Some tokenHash \<Rightarrow>
          if nullish tokenHash \<or> \<not> truthy (fld tokenHash ''ok'') then Inl (tokenErr ''CRYPTO_FAILED'')
          else (case snapshotTokenHash (fld tokenHash ''value'') (tokenScheme opts) of
            None \<Rightarrow> Inl (tokenErr ''TOKEN_INVALID'') | Some safe \<Rightarrow> Inr safe)))"

definition issueToken :: "tokenOptions \<Rightarrow> 'w tokenCrypto \<Rightarrow> jsv \<Rightarrow> ('w, jsv) M" where
  "issueToken opts c input =
     (if \<not> validIssueInput input then ret (tokenErr ''TOKEN_INVALID'')
      else bindM (attemptM (tokenRandom c (obj [(''kind'', JStr ''base64url''), (''bytes'', JNum (tokenBytes opts))]))) (\<lambda>raw.
        case raw of
          None \<Rightarrow> ret (tokenErr ''CRYPTO_FAILED'')
        | Some raw \<Rightarrow>
            (case snapshotRawToken raw (tokenBytes opts) of
               None \<Rightarrow> ret (tokenErr ''TOKEN_INVALID'')
             | Some safeRaw \<Rightarrow>
                 bindM (hashToken opts c safeRaw) (\<lambda>hashed. ret (case hashed of
                   Inl failure \<Rightarrow> failure
                 | Inr tokenHash \<Rightarrow> obj [(''ok'', JBool True),
                     (''value'', obj [(''raw'', safeRaw), (''tokenHash'', tokenHash)])])))))"

definition identifyToken :: "tokenOptions \<Rightarrow> 'w tokenCrypto \<Rightarrow> jsv \<Rightarrow> ('w, jsv) M" where
  "identifyToken opts c input =
     (let unknown = obj [(''ok'', JBool True), (''value'', JNull)] in
      if \<not> validIdentifyInput input (tokenBytes opts) then ret unknown
      else case snapshotRawToken (fld input ''raw'') (tokenBytes opts) of
        None \<Rightarrow> ret unknown
      | Some safeRaw \<Rightarrow>
          bindM (hashToken opts c safeRaw) (\<lambda>hashed. ret (case hashed of
            Inl failure \<Rightarrow> failure
          | Inr tokenHash \<Rightarrow> obj [(''ok'', JBool True),
              (''value'', obj [(''kind'', JStr ''by-token-hash''), (''tokenHash'', tokenHash)])])))"

end
